(* ===== verification/Provelume_Prelude.thy ===== *)
theory Provelume_Prelude
  imports Complex_Main "HOL-Library.AList" "HOL-Library.Char_ord" "HOL-Library.List_Lexorder"
    "HOL-Library.Product_Lexorder"
begin

text \<open>
  Shared vocabulary of the development: JSON values, fallible actions on an explicit state,
  transcripts of raise ladders, the identifier patterns, and the two contracts most
  components rely on: a key-addressed record directory and a reflexive, transitive relation
  that every operation of a component respects.
\<close>

named_theorems obey_rules \<open>closure rules: an action respects a relation when its parts do\<close>
named_theorems act_simps \<open>evaluation of the action combinators\<close>

section \<open>JSON values\<close>

text \<open>
  Values that the program treats as data of open shape (execution plans, producer
  observations, stored payloads) are JSON values. An object is an association list in the
  field order in which the program builds it.
\<close>

datatype json =
    JNull
  | JBool bool
  | JInt int
  | JFloat rat
  | JStr string
  | JList "json list"
  | JObj "(string \<times> json) list"

fun jget :: "json \<Rightarrow> string \<Rightarrow> json" where
  "jget (JObj kvs) k = (case map_of kvs k of None \<Rightarrow> JNull | Some v \<Rightarrow> v)"
| "jget v k = JNull"

fun has_key :: "string \<Rightarrow> json \<Rightarrow> bool" where
  "has_key k (JObj kvs) = (k \<in> set (map fst kvs))"
| "has_key k j = False"

fun has_fields :: "string list \<Rightarrow> json \<Rightarrow> bool" where
  "has_fields ks (JObj kvs) = (set (map fst kvs) = set ks)"
| "has_fields ks v = False"

fun without_field :: "string \<Rightarrow> json \<Rightarrow> json" where
  "without_field k (JObj kvs) = JObj (filter (\<lambda>kv. fst kv \<noteq> k) kvs)"
| "without_field k v = v"

fun is_obj :: "json \<Rightarrow> bool" where
  "is_obj (JObj kvs) = True"
| "is_obj v = False"

section \<open>Actions\<close>

text \<open>
  A method that mutates the state and may raise is a function from the state to a result
  (\<open>Inl\<close> the exception, \<open>Inr\<close> the value) and the state it leaves. What a
  method wrote before it raised stays written.
\<close>

type_synonym ('s, 'e, 'a) act = "'s \<Rightarrow> ('e + 'a) \<times> 's"

definition ret :: "'a \<Rightarrow> ('s, 'e, 'a) act" where
  "ret x = (\<lambda>s. (Inr x, s))"

definition raise :: "'e \<Rightarrow> ('s, 'e, 'a) act" where
  "raise e = (\<lambda>s. (Inl e, s))"

definition bindA :: "('s, 'e, 'a) act \<Rightarrow> ('a \<Rightarrow> ('s, 'e, 'b) act) \<Rightarrow> ('s, 'e, 'b) act" where
  "bindA m k = (\<lambda>s. case m s of (Inl e, s') \<Rightarrow> (Inl e, s') | (Inr x, s') \<Rightarrow> k x s')"

definition seqA :: "('s, 'e, 'a) act \<Rightarrow> ('s, 'e, 'b) act \<Rightarrow> ('s, 'e, 'b) act" where
  "seqA m k = bindA m (\<lambda>_. k)"

definition require :: "bool \<Rightarrow> 'e \<Rightarrow> ('s, 'e, unit) act" where
  "require b e = (if b then ret () else raise e)"

definition reads :: "('s \<Rightarrow> 'a) \<Rightarrow> ('s, 'e, 'a) act" where
  "reads f = (\<lambda>s. (Inr (f s), s))"

definition modify :: "('s \<Rightarrow> 's) \<Rightarrow> ('s, 'e, unit) act" where
  "modify f = (\<lambda>s. (Inr (), f s))"

definition query :: "('s \<Rightarrow> 'e + 'a) \<Rightarrow> ('s, 'e, 'a) act" where
  "query f = (\<lambda>s. (f s, s))"

definition of_result :: "'e + 'a \<Rightarrow> ('s, 'e, 'a) act" where
  "of_result r = (\<lambda>s. (r, s))"

fun for_each :: "('x \<Rightarrow> ('s, 'e, unit) act) \<Rightarrow> 'x list \<Rightarrow> ('s, 'e, unit) act" where
  "for_each f [] = ret ()"
| "for_each f (x # xs) = seqA (f x) (for_each f xs)"

fun collect :: "('x \<Rightarrow> 'e + 'y) \<Rightarrow> 'x list \<Rightarrow> 'e + 'y list" where
  "collect f [] = Inr []"
| "collect f (x # xs) =
     (case f x of Inl e \<Rightarrow> Inl e
      | Inr y \<Rightarrow> (case collect f xs of Inl e \<Rightarrow> Inl e | Inr ys \<Rightarrow> Inr (y # ys)))"

lemma collect_Inr: "collect f xs = Inr ys \<longleftrightarrow> map f xs = map Inr ys"
proof (induction xs arbitrary: ys)
  case Nil
  show ?case by auto
next
  case (Cons x xs)
  show ?case
  proof (cases "f x")
    case (Inl e)
    then show ?thesis by auto
  next
    case (Inr y)
    have "collect f (x # xs) = Inr ys \<longleftrightarrow> (\<exists>zs. collect f xs = Inr zs \<and> ys = y # zs)"
      using Inr by (auto split: sum.splits)
    also have "\<dots> \<longleftrightarrow> (\<exists>zs. map f xs = map Inr zs \<and> ys = y # zs)"
      by (simp only: Cons.IH)
    also have "\<dots> \<longleftrightarrow> map f (x # xs) = map Inr ys"
      using Inr by (cases ys) auto
    finally show ?thesis .
  qed
qed

lemma collect_all: "(\<And>x. x \<in> set xs \<Longrightarrow> f x = Inr (g x)) \<Longrightarrow> collect f xs = Inr (map g xs)"
  by (induction xs) auto

lemma act_eval [act_simps, simp]:
  "ret x s = (Inr x, s)"
  "raise e s = (Inl e, s)"
  "reads f s = (Inr (f s), s)"
  "modify g s = (Inr (), g s)"
  "query h s = (h s, s)"
  "of_result r s = (r, s)"
  by (simp_all add: ret_def raise_def reads_def modify_def query_def of_result_def)

lemma require_eval [act_simps, simp]:
  "b \<Longrightarrow> require b e s = (Inr (), s)"
  "\<not> b \<Longrightarrow> require b e s = (Inl e, s)"
  by (simp_all add: require_def)

lemma require_eq:
  "require b e s = (if b then (Inr (), s) else (Inl e, s))"
  by simp

lemma bindA_Inr [act_simps, simp]: "m s = (Inr x, s') \<Longrightarrow> bindA m k s = k x s'"
  by (simp add: bindA_def)

lemma bindA_Inl [act_simps, simp]: "m s = (Inl e, s') \<Longrightarrow> bindA m k s = (Inl e, s')"
  by (simp add: bindA_def)

lemma seqA_Inr [act_simps, simp]: "m s = (Inr x, s') \<Longrightarrow> seqA m k s = k s'"
  by (simp add: seqA_def)

lemma seqA_Inl [act_simps, simp]: "m s = (Inl e, s') \<Longrightarrow> seqA m k s = (Inl e, s')"
  by (simp add: seqA_def)

lemma bindA_result:
  "bindA m k s = (Inr y, s'') \<longleftrightarrow> (\<exists>x s'. m s = (Inr x, s') \<and> k x s' = (Inr y, s''))"
  by (auto simp: bindA_def split: prod.splits sum.splits)

lemma seqA_result:
  "seqA m k s = (Inr y, s'') \<longleftrightarrow> (\<exists>x s'. m s = (Inr x, s') \<and> k s' = (Inr y, s''))"
  by (auto simp: seqA_def bindA_result)

lemma require_result: "require b e s = (Inr y, s') \<longleftrightarrow> b \<and> s' = s"
  by (auto simp: require_def)

lemmas act_results = bindA_result seqA_result require_result

section \<open>Raise ladders\<close>

text \<open>
  A validator of the program is a ladder of conditions, each raising with its own message.
  It is kept as the list of pairs (condition, message) in the order of the source; the
  first condition that holds decides the message.
\<close>

type_synonym ladder = "(bool \<times> string) list"

fun first_failure :: "(bool \<times> 'm) list \<Rightarrow> 'm option" where
  "first_failure [] = None"
| "first_failure ((bad, msg) # rest) = (if bad then Some msg else first_failure rest)"

lemma first_failure_Cons_None [simp]:
  "first_failure ((bad, m) # cs) = None \<longleftrightarrow> \<not> bad \<and> first_failure cs = None"
  by simp

lemma first_failure_Cons [simp]:
  "bad \<Longrightarrow> first_failure ((bad, m) # cs) = Some m"
  "\<not> bad \<Longrightarrow> first_failure ((bad, m) # cs) = first_failure cs"
  by simp_all

declare first_failure.simps(2) [simp del]

lemma first_failure_None: "first_failure cs = None \<longleftrightarrow> (\<forall>c \<in> set cs. \<not> fst c)"
  by (induction cs rule: first_failure.induct) auto

lemma first_failure_append:
  "first_failure (cs @ ds) = (case first_failure cs of None \<Rightarrow> first_failure ds | Some m \<Rightarrow> Some m)"
  by (induction cs rule: first_failure.induct) (auto simp: first_failure.simps)

lemma first_failure_append_None [simp]:
  "first_failure (cs @ ds) = None \<longleftrightarrow> first_failure cs = None \<and> first_failure ds = None"
  by (auto simp: first_failure_None)

lemma first_failure_concat_None [simp]:
  "first_failure (concat css) = None \<longleftrightarrow> (\<forall>cs \<in> set css. first_failure cs = None)"
  by (induction css) auto

section \<open>Binary64 numbers\<close>

text \<open>
  Python's float arithmetic on non-negative values: the quotient of two positive integers,
  rounded to the nearest binary64 number, ties to even. The result is a quotient again.
\<close>

function bits :: "int \<Rightarrow> int" where
  "bits n = (if n \<le> 0 then 0 else 1 + bits (n div 2))"
  by auto
termination by (relation "measure nat") auto

declare bits.simps [simp del]

definition half_even :: "int \<Rightarrow> int \<Rightarrow> int" where
  "half_even n d = (let q = n div d; r = n mod d
                    in if 2 * r < d \<or> (2 * r = d \<and> even q) then q else q + 1)"

definition scaled :: "int \<Rightarrow> int \<Rightarrow> int \<Rightarrow> int \<times> int" where
  "scaled n d k = (if k \<ge> 0 then (n, d * 2 ^ nat k) else (n * 2 ^ nat (- k), d))"

definition round_double :: "int \<Rightarrow> int \<Rightarrow> int \<times> int" where
  "round_double n d =
     (if n \<le> 0 then (0, 1)
      else let k0 = bits n - bits d - 53;
               (a0, b0) = scaled n d k0;
               k = (if a0 div b0 \<ge> 2 ^ 53 then k0 + 1 else k0);
               (a, b) = scaled n d k; m = half_even a b
           in if k \<ge> 0 then (m * 2 ^ nat k, 1) else (m, 2 ^ nat (- k)))"

section \<open>Identifier patterns\<close>

text \<open>The regular expressions of the record identifiers, all of the form prefix and hexadecimal digits.\<close>

definition hexchar :: "char \<Rightarrow> bool" where
  "hexchar c \<longleftrightarrow> c \<in> set ''0123456789abcdef''"

definition prefixed_hex :: "string \<Rightarrow> nat \<Rightarrow> string \<Rightarrow> bool" where
  "prefixed_hex p n s \<longleftrightarrow>
     take (length p) s = p \<and> length s = length p + n \<and> list_all hexchar (drop (length p) s)"

definition sha256_text :: "string \<Rightarrow> bool" where
  "sha256_text s \<longleftrightarrow> length s = 64 \<and> list_all hexchar s"

lemma prefixed_hex_append [simp]:
  "prefixed_hex p n (p @ x) \<longleftrightarrow> length x = n \<and> list_all hexchar x"
  by (auto simp: prefixed_hex_def)

lemma prefixed_hexE:
  assumes "prefixed_hex p n s"
  obtains x where "s = p @ x" and "length x = n" and "list_all hexchar x"
proof -
  from assms have "s = p @ drop (length p) s"
    unfolding prefixed_hex_def by (metis append_take_drop_id)
  moreover from assms have "length (drop (length p) s) = n" "list_all hexchar (drop (length p) s)"
    by (auto simp: prefixed_hex_def)
  ultimately show thesis using that by blast
qed

section \<open>Contract: a directory of records\<close>

text \<open>
  Every store of the program keeps one file per record, named by the record's identity:
  writing a record replaces the file of its own identity and touches no other.
\<close>

locale record_directory =
  fixes look :: "'d \<Rightarrow> 'k \<Rightarrow> 'r option"
    and put :: "'r \<Rightarrow> 'd \<Rightarrow> 'd"
    and key :: "'r \<Rightarrow> 'k"
  assumes look_put: "look (put r d) k = (if k = key r then Some r else look d k)"
begin

definition keyed :: "'d \<Rightarrow> bool" where
  "keyed d \<longleftrightarrow> (\<forall>k r. look d k = Some r \<longrightarrow> key r = k)"

definition all_records :: "('r \<Rightarrow> bool) \<Rightarrow> 'd \<Rightarrow> bool" where
  "all_records P d \<longleftrightarrow> (\<forall>k r. look d k = Some r \<longrightarrow> P r)"

lemma keyed_put: "keyed d \<Longrightarrow> keyed (put r d)"
  by (auto simp: keyed_def look_put split: if_splits)

lemma all_records_put: "all_records P d \<Longrightarrow> P r \<Longrightarrow> all_records P (put r d)"
  by (auto simp: all_records_def look_put split: if_splits)

lemma look_put_same: "look (put r d) (key r) = Some r"
  by (simp add: look_put)

lemma look_put_other: "k \<noteq> key r \<Longrightarrow> look (put r d) k = look d k"
  by (simp add: look_put)

lemma put_put_same: "key r = key r' \<Longrightarrow> look (put r' (put r d)) = look (put r' d)"
  by (auto simp: look_put fun_eq_iff)

end

definition alist_put :: "('r \<Rightarrow> 'k) \<Rightarrow> 'r \<Rightarrow> ('k \<times> 'r) list \<Rightarrow> ('k \<times> 'r) list" where
  "alist_put key r d = AList.update (key r) r d"

lemma map_of_alist_put: "map_of (alist_put key r d) k = (if k = key r then Some r else map_of d k)"
  by (simp add: alist_put_def update_conv')

lemma update_new: "map_of d k = None \<Longrightarrow> AList.update k v d = d @ [(k, v)]"
  by (induction d) (auto split: if_splits)

lemma alist_put_new: "map_of d (key r) = None \<Longrightarrow> alist_put key r d = d @ [(key r, r)]"
  by (simp add: alist_put_def update_new)

lemma distinct_alist_put: "distinct (map fst d) \<Longrightarrow> distinct (map fst (alist_put key r d))"
  by (simp add: alist_put_def distinct_update)

lemma set_keys_alist_put: "set (map fst (alist_put key r d)) = insert (key r) (set (map fst d))"
  by (simp add: alist_put_def dom_update)

section \<open>Contract: a relation that operations respect\<close>

text \<open>
  A property of a component that every operation keeps, on every exit, is a reflexive and
  transitive relation between the state before and the state after: an invariant
  (\<open>P s \<longrightarrow> P s'\<close>), an immutable part, or a part that only grows.
\<close>

definition obeys :: "('s \<Rightarrow> 's \<Rightarrow> bool) \<Rightarrow> ('s, 'e, 'a) act \<Rightarrow> bool" where
  "obeys R m \<longleftrightarrow> (\<forall>s. R s (snd (m s)))"

locale step_contract =
  fixes R :: "'s \<Rightarrow> 's \<Rightarrow> bool"
  assumes R_refl: "R s s"
    and R_trans: "R s t \<Longrightarrow> R t u \<Longrightarrow> R s u"
begin

lemma obeys_ret: "obeys R (ret x)"
  by (simp add: obeys_def R_refl)

lemma obeys_raise: "obeys R (raise e)"
  by (simp add: obeys_def R_refl)

lemma obeys_reads: "obeys R (reads f)"
  by (simp add: obeys_def R_refl)

lemma obeys_query: "obeys R (query f)"
  by (simp add: obeys_def R_refl)

lemma obeys_of_result: "obeys R (of_result r)"
  by (simp add: obeys_def R_refl)

lemma obeys_require: "obeys R (require b e)"
  by (simp add: require_def obeys_ret obeys_raise)

lemma obeys_bind:
  assumes "obeys R m" and "\<And>x. obeys R (k x)"
  shows "obeys R (bindA m k)"
  unfolding obeys_def
proof
  fix s
  obtain r s' where m: "m s = (r, s')" by (cases "m s")
  from assms(1) m have first: "R s s'" by (metis obeys_def snd_conv)
  show "R s (snd (bindA m k s))"
  proof (cases r)
    case (Inl e)
    with m first show ?thesis by simp
  next
    case (Inr x)
    have "R s' (snd (k x s'))" using assms(2) by (simp add: obeys_def)
    with first have "R s (snd (k x s'))" by (rule R_trans)
    with m Inr show ?thesis by simp
  qed
qed

lemma obeys_seq: "obeys R m \<Longrightarrow> obeys R k \<Longrightarrow> obeys R (seqA m k)"
  by (simp add: seqA_def obeys_bind)

lemma obeys_for_each: "(\<And>x. obeys R (f x)) \<Longrightarrow> obeys R (for_each f xs)"
  by (induction xs) (simp_all add: obeys_ret obeys_seq)

lemma obeys_bind_reads: "(\<And>s. R s (snd (k (f s) s))) \<Longrightarrow> obeys R (bindA (reads f) k)"
  by (simp add: obeys_def bindA_def)

text \<open>The same closure at one state, with what the first part returned at hand.\<close>

lemma step_stay: "snd (m s) = s \<Longrightarrow> R s (snd (m s))"
  by (simp add: R_refl)

lemma step_bind:
  assumes "R s (snd (m s))" and "\<And>x s'. m s = (Inr x, s') \<Longrightarrow> R s' (snd (k x s'))"
  shows "R s (snd (bindA m k s))"
proof -
  obtain r s' where m: "m s = (r, s')" by (cases "m s")
  show ?thesis
  proof (cases r)
    case (Inl e)
    with m assms(1) show ?thesis by simp
  next
    case (Inr x)
    with m assms(2) [of x s'] assms(1) R_trans [of s s' "snd (k x s')"] show ?thesis by simp
  qed
qed

lemma step_seq:
  "R s (snd (m s)) \<Longrightarrow> (\<And>x s'. m s = (Inr x, s') \<Longrightarrow> R s' (snd (k s'))) \<Longrightarrow>
   R s (snd (seqA m k s))"
  unfolding seqA_def by (rule step_bind)

lemma step_require:
  "(b \<Longrightarrow> R s (snd (k s))) \<Longrightarrow> R s (snd (seqA (require b e) k s))"
  by (cases b) (simp_all add: R_refl)

lemma step_query:
  "(\<And>x. f s = Inr x \<Longrightarrow> R s (snd (k x s))) \<Longrightarrow> R s (snd (bindA (query f) k s))"
  by (cases "f s") (simp_all add: R_refl)

lemma step_result:
  "(\<And>x. r = Inr x \<Longrightarrow> R s (snd (k x s))) \<Longrightarrow> R s (snd (bindA (of_result r) k s))"
  by (cases r) (simp_all add: R_refl)

lemma step_reads: "R s (snd (k (f s) s)) \<Longrightarrow> R s (snd (bindA (reads f) k s))"
  by simp

lemma obeysD: "obeys R m \<Longrightarrow> m s = (r, s') \<Longrightarrow> R s s'"
  unfolding obeys_def by (metis snd_conv)

lemmas obeys_basic = obeys_ret obeys_raise obeys_reads obeys_query obeys_of_result
  obeys_require obeys_bind obeys_seq obeys_for_each

end

end
