(* ===== verification/Scheduler_Types.thy ===== *)
theory Scheduler_Types
  imports Provelume_Prelude
begin

text \<open>
  The closed vocabularies and the record shapes of the scheduler journal
  (core/provelume/scheduler_model.py, lines 15 to 144): job kinds, statuses, policies,
  error codes, and the fields of policy, job, control and receipt records. An instant is an
  integer count of microseconds since the epoch in UTC; the text form that the files hold
  (isoformat in UTC, four-digit years) sorts as the instants do.
\<close>

section \<open>Closed vocabularies\<close>

datatype job_kind =
    Ai_execute
  | Processing_execute
  | Source_refresh
  | Setup_trial
  | Search_reindex
  | Search_reindex_incremental
  | Library_rebuild
  | Maintenance_validate
  | Original_assurance
  | Duplicate_scan
  | Source_reconcile
  | Resource_snapshot
  | Backup_verify
  | Ocr_execute
  | Email_intake
  | Google_intake
  | Transcript_intake

fun kind_name :: "job_kind \<Rightarrow> string" where
  "kind_name Ai_execute = ''ai.execute''"
| "kind_name Processing_execute = ''processing.execute''"
| "kind_name Source_refresh = ''source.refresh''"
| "kind_name Setup_trial = ''setup.trial''"
| "kind_name Search_reindex = ''search.reindex''"
| "kind_name Search_reindex_incremental = ''search.reindex.incremental''"
| "kind_name Library_rebuild = ''maintenance.library_rebuild''"
| "kind_name Maintenance_validate = ''maintenance.validate''"
| "kind_name Original_assurance = ''maintenance.original_assurance''"
| "kind_name Duplicate_scan = ''maintenance.duplicate_scan''"
| "kind_name Source_reconcile = ''maintenance.source_reconcile''"
| "kind_name Resource_snapshot = ''maintenance.resource_snapshot''"
| "kind_name Backup_verify = ''maintenance.backup_verify''"
| "kind_name Ocr_execute = ''ocr.execute''"
| "kind_name Email_intake = ''email.intake''"
| "kind_name Google_intake = ''google.intake''"
| "kind_name Transcript_intake = ''transcript.intake''"

definition SCHEDULER_JOB_KINDS :: "job_kind list" where
  "SCHEDULER_JOB_KINDS =
    [Ai_execute, Processing_execute, Source_refresh, Setup_trial,
     Search_reindex, Search_reindex_incremental, Library_rebuild, Maintenance_validate,
     Original_assurance, Duplicate_scan, Source_reconcile, Resource_snapshot,
     Backup_verify, Ocr_execute, Email_intake, Google_intake,
     Transcript_intake]"

definition USER_SCHEDULER_JOB_KINDS :: "job_kind list" where
  "USER_SCHEDULER_JOB_KINDS =
    filter (\<lambda>k. k \<notin> {Ai_execute, Processing_execute, Ocr_execute, Email_intake, Google_intake,
                      Transcript_intake, Setup_trial}) SCHEDULER_JOB_KINDS"

definition source_scoped :: "job_kind \<Rightarrow> bool" where
  "source_scoped k \<longleftrightarrow>
     k \<in> {Source_refresh, Setup_trial, Processing_execute, Source_reconcile,
          Email_intake, Google_intake, Transcript_intake}"

definition kind_of_name :: "string \<Rightarrow> job_kind option" where
  "kind_of_name s = find (\<lambda>k. kind_name k = s) SCHEDULER_JOB_KINDS"

datatype policy_state =
    Policy_disabled
  | Policy_enabled
  | Policy_paused

datatype schedule_mode =
    Manual_mode
  | Interval_mode
  | Calendar_mode

datatype missed_policy =
    Missed_skip
  | Missed_coalesce
  | Missed_catch_up_one

datatype dst_policy =
    Dst_earliest
  | Dst_latest
  | Dst_skip
  | Dst_shift_forward

datatype job_status =
    Queued
  | Running
  | Retry_wait
  | Pausing
  | Paused
  | Cancelling
  | Succeeded
  | Failed
  | Manual_intervention
  | Cancelled

definition JOB_STATUSES :: "job_status list" where
  "JOB_STATUSES = [Queued, Running, Retry_wait, Pausing, Paused, Cancelling,
                   Succeeded, Failed, Manual_intervention, Cancelled]"

definition terminal_status :: "job_status \<Rightarrow> bool" where
  "terminal_status s \<longleftrightarrow> s \<in> {Succeeded, Failed, Manual_intervention, Cancelled}"

definition active_status :: "job_status \<Rightarrow> bool" where
  "active_status s \<longleftrightarrow> s \<in> {Running, Pausing, Cancelling}"

datatype error_class =
    Transient
  | Permanent
  | Manual_intervention_class
  | Cancelled_class

datatype recovery_state =
    Recovery_none
  | Resumable
  | Restart_only
  | Manual_recovery

datatype run_reason =
    Reason_manual
  | Reason_scheduled
  | Reason_coalesced
  | Reason_catch_up

datatype checkpoint_phase =
    Phase_none
  | Phase_prepared
  | Phase_executing
  | Phase_committed

datatype attempt_outcome =
    Attempt_running
  | Attempt_succeeded
  | Attempt_retry
  | Attempt_failed
  | Attempt_paused

definition EMAIL_ERROR_CODES :: "string list" where
  "EMAIL_ERROR_CODES =
   [''email_disabled'', ''email_source_disabled'', ''email_source_paused'',
    ''email_source_removed'', ''email_format_unsupported'', ''email_profile_unsupported'',
    ''email_runtime_unqualified'', ''email_source_missing'', ''email_source_unsafe'',
    ''email_input_non_regular'', ''email_input_changed'', ''email_message_limit_exceeded'',
    ''email_container_limit_exceeded'', ''email_total_read_limit_exceeded'',
    ''email_header_limit_exceeded'', ''email_mime_limit_exceeded'',
    ''email_attachment_limit_exceeded'', ''email_decoded_limit_exceeded'',
    ''email_message_malformed'', ''email_mime_malformed'', ''email_transfer_invalid'',
    ''email_timeout'', ''email_cancelled'', ''email_derived_invalid'', ''email_internal_error'']"

definition GOOGLE_ERROR_CODES :: "string list" where
  "GOOGLE_ERROR_CODES =
   [''google_adapter_unavailable'', ''google_authorization_expired'',
    ''google_authorization_required'', ''google_backfill_limit_exceeded'', ''google_cancelled'',
    ''google_capability_disabled'', ''google_cursor_invalidated'', ''google_input_changed'',
    ''google_internal_error'', ''google_network_disabled'', ''google_payload_invalid'',
    ''google_payload_limit_exceeded'', ''google_rate_limited'', ''google_remote_mutation'',
    ''google_retryable_failure'', ''google_secure_store_unavailable'',
    ''google_source_disabled'', ''google_source_paused'', ''google_source_removed'']"

definition OCR_ERROR_CODES :: "string list" where
  "OCR_ERROR_CODES =
   [''ocr_disabled'', ''ocr_adapter_unavailable'', ''ocr_engine_unavailable'',
    ''ocr_renderer_unavailable'', ''ocr_version_incompatible'', ''ocr_language_pack_missing'',
    ''ocr_unsupported_input'', ''ocr_corrupt_input'', ''ocr_input_too_large'',
    ''ocr_page_limit_exceeded'', ''ocr_pixel_limit_exceeded'',
    ''ocr_decompression_limit_exceeded'', ''ocr_temporary_space_exceeded'',
    ''ocr_deadline_exceeded'', ''ocr_output_limit_exceeded'', ''ocr_invalid_selection'',
    ''ocr_contract_violation'', ''ocr_adapter_failure'', ''ocr_engine_output_invalid'',
    ''ocr_internal_error'', ''ocr_cancelled'']"

definition TRANSCRIPT_ERROR_CODES :: "string list" where
  "TRANSCRIPT_ERROR_CODES =
   [''transcript_disabled'', ''transcript_source_disabled'', ''transcript_source_paused'',
    ''transcript_source_removed'', ''transcript_source_missing'', ''transcript_source_unsafe'',
    ''transcript_profile_unsupported'', ''transcript_profile_mismatch'',
    ''transcript_encoding_unsupported'', ''transcript_input_non_regular'',
    ''transcript_input_changed'', ''transcript_enumeration_limit_exceeded'',
    ''transcript_file_limit_exceeded'', ''transcript_total_read_limit_exceeded'',
    ''transcript_line_limit_exceeded'', ''transcript_cue_limit_exceeded'',
    ''transcript_text_limit_exceeded'', ''transcript_output_limit_exceeded'',
    ''transcript_timestamp_invalid'', ''transcript_duration_limit_exceeded'',
    ''transcript_cue_malformed'', ''transcript_active_block_unsupported'',
    ''transcript_timeout'', ''transcript_cancelled'', ''transcript_derived_invalid'',
    ''transcript_internal_error'']"

definition ERROR_CODES :: "string list" where
  "ERROR_CODES =
   [''cancelled_by_user'', ''ai_execution_blocked'', ''ai_outcome_uncertain'', ''ai_retry'',
    ''processing_denied'', ''committed_checkpoint_needs_review'', ''executor_unavailable'',
    ''instance_validation_failed'', ''insufficient_temporary_space'', ''invalid_state'',
    ''lease_clock_reversed'', ''lease_expired'', ''lease_recovery_exhausted'', ''local_io'',
    ''maintenance_action_failed'', ''reindex_state_invalid'', ''resource_statistics_changed'',
    ''resource_statistics_failed'', ''resource_statistics_limit'', ''source_refresh_failed'',
    ''source_reconciliation_failed'', ''source_reauthorization_required'',
    ''source_reconciliation_superseded'']
   @ OCR_ERROR_CODES @ EMAIL_ERROR_CODES @ GOOGLE_ERROR_CODES @ TRANSCRIPT_ERROR_CODES"

definition MIN_INTERVAL_SECONDS :: int where "MIN_INTERVAL_SECONDS = 60"

definition MAX_INTERVAL_SECONDS :: int where "MAX_INTERVAL_SECONDS = 365 * 24 * 60 * 60"

definition MAX_JITTER_SECONDS :: int where "MAX_JITTER_SECONDS = 24 * 60 * 60"

definition MAX_RETRY_ATTEMPTS :: int where "MAX_RETRY_ATTEMPTS = 8"

definition MAX_RETRY_SECONDS :: int where "MAX_RETRY_SECONDS = 7 * 24 * 60 * 60"

definition MAX_LEASE_SECONDS :: int where "MAX_LEASE_SECONDS = 24 * 60 * 60"

section \<open>Identifiers\<close>

definition policy_id_ok :: "string \<Rightarrow> bool" where
  "policy_id_ok s = prefixed_hex ''policy_'' 32 s"

definition job_id_ok :: "string \<Rightarrow> bool" where
  "job_id_ok s = prefixed_hex ''job_'' 32 s"

definition receipt_id_ok :: "string \<Rightarrow> bool" where
  "receipt_id_ok s = prefixed_hex ''receipt_'' 32 s"

definition lease_token_ok :: "string \<Rightarrow> bool" where
  "lease_token_ok s = prefixed_hex ''lease_'' 32 s"

definition instance_id_ok :: "string \<Rightarrow> bool" where
  "instance_id_ok s = prefixed_hex ''inst_'' 32 s"

definition alnum_char :: "char \<Rightarrow> bool" where
  "alnum_char c \<longleftrightarrow> c \<in> set ''abcdefghijklmnopqrstuvwxyzABCDEFGHIJKLMNOPQRSTUVWXYZ0123456789''"

definition source_tail_ok :: "string \<Rightarrow> bool" where
  "source_tail_ok t \<longleftrightarrow>
     1 \<le> length t \<and> length t \<le> 200 \<and> list_all (\<lambda>c. alnum_char c \<or> c \<in> set ''_.:-'') t"

definition source_id_ok :: "string \<Rightarrow> bool" where
  "source_id_ok s \<longleftrightarrow>
     (take 4 s = ''src_'' \<and> source_tail_ok (drop 4 s))
   \<or> (take 7 s = ''source_'' \<and> source_tail_ok (drop 7 s))"

definition lower_alnum_char :: "char \<Rightarrow> bool" where
  "lower_alnum_char c \<longleftrightarrow> c \<in> set ''abcdefghijklmnopqrstuvwxyz0123456789''"

definition worker_id_ok :: "string \<Rightarrow> bool" where
  "worker_id_ok s \<longleftrightarrow>
     (case s of [] \<Rightarrow> False
      | c # cs \<Rightarrow> lower_alnum_char c \<and> length cs \<le> 79
                  \<and> list_all (\<lambda>d. lower_alnum_char d \<or> d \<in> set ''_.-'') cs)"

definition receipt_of_job :: "string \<Rightarrow> string" where
  "receipt_of_job i = ''receipt_'' @ drop 4 i"

definition receipt_ref_of :: "string \<Rightarrow> string" where
  "receipt_ref_of r = ''state/scheduler/receipts/'' @ r @ ''.json''"

section \<open>Errors\<close>

datatype sched_error =
    Scheduler_error string
  | Conflict_error string
  | Not_found_error string
  | Lease_error string
  | Busy_error string
  | Index_error string

section \<open>Records\<close>

type_synonym instant = int

record scope =
  scope_kind :: string
  scope_id :: string

record quiet_window =
  quiet_start :: string
  quiet_end :: string

record schedule =
  s_mode :: schedule_mode
  s_timezone :: string
  s_interval :: "int option"
  s_calendar_time :: "string option"
  s_weekdays :: "int list"
  s_dst :: dst_policy
  s_quiet :: "quiet_window option"
  s_jitter :: int
  s_missed :: missed_policy

record retry_bound =
  max_attempts :: int
  base_seconds :: int
  max_seconds :: int

record policy =
  p_id :: string
  p_revision :: int
  p_kind :: job_kind
  p_scope :: scope
  p_state :: policy_state
  p_schedule :: schedule
  p_retry :: retry_bound
  p_created_at :: instant
  p_updated_at :: instant
  p_last_evaluated_at :: "instant option"
  p_next_nominal_at :: "instant option"
  p_next_due_at :: "instant option"

record lease =
  l_token :: string
  l_worker :: string
  l_acquired_at :: instant
  l_heartbeat_at :: instant
  l_expires_at :: instant

record checkpoint =
  c_sequence :: int
  c_phase :: checkpoint_phase
  c_committed_at :: "instant option"

record progress =
  processed :: int
  skipped :: int
  errors :: int

record attempt =
  a_number :: int
  a_started_at :: instant
  a_completed_at :: "instant option"
  a_outcome :: attempt_outcome
  a_error_class :: "error_class option"
  a_error_code :: "string option"

datatype control_action = Act_pause | Act_resume | Act_cancel | Act_retry | Act_restart

datatype command_result =
    Res_paused | Res_pausing | Res_cancelling | Res_cancelled | Res_queued | Res_restarted

record command =
  cmd_request :: string
  cmd_payload :: string
  cmd_action :: control_action
  cmd_expected :: string
  cmd_result :: command_result
  cmd_accepted_at :: instant
  cmd_successor :: "string option"

record pending_intent =
  pend_action :: control_action
  pend_request :: string
  pend_attempt :: int

record observation =
  ob_unit :: string
  ob_completed :: int
  ob_total :: int
  ob_plan_revision :: string
  ob_attempt :: int
  ob_sampled_at :: instant
  ob_rate :: "rat option"

text \<open>
  The control record of a job may hold the whole record of a restart child, whose own
  control holds none. The nesting is finite, so the child's type is a parameter of the
  control record and the control's type a parameter of the job record.
\<close>

record 'child control =
  ctl_revision :: int
  ctl_pending :: "pending_intent option"
  ctl_commit_started :: bool
  ctl_commands :: "command list"
  ctl_parent :: "string option"
  ctl_restart :: "(string \<times> 'child) option"
  ctl_observation :: "observation option"
  ctl_network_used :: bool
  ctl_completion :: "control_action option"

record 'ctl job_record =
  j_schema :: int
  j_id :: string
  j_policy_id :: string
  j_policy_revision :: int
  j_kind :: job_kind
  j_scope :: scope
  j_key :: string
  j_reason :: run_reason
  j_scheduled_for :: instant
  j_eligible_at :: instant
  j_created_at :: instant
  j_updated_at :: instant
  j_status :: job_status
  j_attempt :: int
  j_retry :: retry_bound
  j_retry_not_before :: "instant option"
  j_lease :: "lease option"
  j_checkpoint :: checkpoint
  j_progress :: progress
  j_recovery_state :: recovery_state
  j_recovery_count :: int
  j_attempts :: "attempt list"
  j_receipt_ref :: "string option"
  j_control :: "'ctl option"
  j_plan :: "json option"

type_synonym child_job = "unit control job_record"
type_synonym job_control = "child_job control"
type_synonym job = "job_control job_record"

record receipt =
  r_id :: string
  r_job_id :: string
  r_policy_id :: string
  r_policy_revision :: int
  r_kind :: job_kind
  r_scope :: scope
  r_status :: job_status
  r_attempts :: int
  r_duration_ms :: int
  r_completed_at :: instant
  r_progress :: progress
  r_error_class :: "error_class option"
  r_error_code :: "string option"
  r_network_used :: bool
  r_canonical_mutation :: bool

section \<open>Facts about the vocabularies\<close>

lemma kind_of_kind_name [simp]: "kind_of_name (kind_name k) = Some k"
  by (cases k) (simp_all add: kind_of_name_def SCHEDULER_JOB_KINDS_def)

lemma set_SCHEDULER_JOB_KINDS [simp]: "k \<in> set SCHEDULER_JOB_KINDS"
  by (cases k) (simp_all add: SCHEDULER_JOB_KINDS_def)

lemma status_values [simp]:
  "active_status Running" "active_status Pausing" "active_status Cancelling"
  "\<not> active_status Queued" "\<not> active_status Retry_wait" "\<not> active_status Paused"
  "\<not> active_status Succeeded" "\<not> active_status Failed" "\<not> active_status Cancelled"
  "\<not> active_status Manual_intervention"
  "terminal_status Succeeded" "terminal_status Failed" "terminal_status Cancelled"
  "terminal_status Manual_intervention"
  "\<not> terminal_status Queued" "\<not> terminal_status Retry_wait" "\<not> terminal_status Paused"
  "\<not> terminal_status Running" "\<not> terminal_status Pausing" "\<not> terminal_status Cancelling"
  by (simp_all add: active_status_def terminal_status_def)

lemma active_not_terminal: "active_status s \<Longrightarrow> \<not> terminal_status s"
  by (auto simp: active_status_def terminal_status_def)

lemma receipt_of_job_append: "receipt_of_job (''job_'' @ x) = ''receipt_'' @ x"
  by (simp add: receipt_of_job_def)

lemma receipt_of_job_ok: "job_id_ok i \<Longrightarrow> receipt_id_ok (receipt_of_job i)"
  unfolding job_id_ok_def receipt_id_ok_def
  by (elim prefixed_hexE) (simp only: receipt_of_job_append prefixed_hex_append)

lemma receipt_of_job_inj:
  assumes "job_id_ok i" and "job_id_ok k" and "receipt_of_job i = receipt_of_job k"
  shows "i = k"
  using assms by (auto simp: job_id_ok_def receipt_of_job_def elim!: prefixed_hexE)

end
