(* ===== verification/Scheduler_Clock.thy ===== *)
theory Scheduler_Clock
  imports Scheduler_Types
begin

text \<open>
  Schedules and instants (core/provelume/scheduler_model.py, lines 167 to 537): the
  validation of a schedule and of a retry bound, the resolution of a local wall time through
  a time zone, the next occurrence of a schedule, the jitter and the quiet window that make
  an occurrence eligible, and the retry delay. The IANA database that \<open>zoneinfo\<close>
  reads is the argument \<open>zones\<close>: a name gives no zone, or the offsets that
  \<open>astimezone\<close> uses in both directions.
\<close>

section \<open>Zones and wall time\<close>

record zone =
  z_offset :: "instant \<Rightarrow> int"
  z_wall_offset :: "int \<Rightarrow> bool \<Rightarrow> int"

type_synonym zone_db = "string \<Rightarrow> zone option"

definition SECOND :: int where "SECOND = 1000000"

definition MINUTE :: int where "MINUTE = 60 * SECOND"

definition DAY :: int where "DAY = 86400 * SECOND"

definition py_space :: "char \<Rightarrow> bool" where
  "py_space c \<longleftrightarrow> c = CHR '' '' \<or> (9 \<le> (of_char c :: nat) \<and> (of_char c :: nat) \<le> 13)
                 \<or> (28 \<le> (of_char c :: nat) \<and> (of_char c :: nat) \<le> 31)"

definition strip :: "string \<Rightarrow> string" where
  "strip s = rev (dropWhile py_space (rev (dropWhile py_space s)))"

definition digit_char :: "char \<Rightarrow> bool" where
  "digit_char c \<longleftrightarrow> c \<in> set ''0123456789''"

definition digit_val :: "char \<Rightarrow> int" where
  "digit_val c = int (of_char c) - 48"

fun clock_ok :: "string \<Rightarrow> bool" where
  "clock_ok [h1, h2, c, m1, m2] \<longleftrightarrow>
     ((h1 \<in> set ''01'' \<and> digit_char h2) \<or> (h1 = CHR ''2'' \<and> h2 \<in> set ''0123''))
     \<and> c = CHR '':'' \<and> m1 \<in> set ''012345'' \<and> digit_char m2"
| "clock_ok _ \<longleftrightarrow> False"

fun clock_micros :: "string \<Rightarrow> int" where
  "clock_micros [h1, h2, c, m1, m2] =
     ((10 * digit_val h1 + digit_val h2) * 60 + (10 * digit_val m1 + digit_val m2)) * MINUTE"
| "clock_micros _ = 0"

section \<open>Validation\<close>

definition out_of_range :: "int \<Rightarrow> int \<Rightarrow> int \<Rightarrow> bool" where
  "out_of_range v lo hi \<longleftrightarrow> v < lo \<or> v > hi"

definition mode_ladder :: "schedule \<Rightarrow> ladder" where
  "mode_ladder s = (case s_mode s of
     Interval_mode \<Rightarrow>
       [((case s_interval s of None \<Rightarrow> True
          | Some n \<Rightarrow> out_of_range n MIN_INTERVAL_SECONDS MAX_INTERVAL_SECONDS),
         ''interval_seconds must be between 60 and 31536000''),
        (s_calendar_time s \<noteq> None \<or> s_weekdays s \<noteq> [],
         ''interval schedules cannot contain calendar fields'')]
   | Calendar_mode \<Rightarrow>
       [(s_interval s \<noteq> None, ''calendar schedules cannot contain an interval''),
        ((case s_calendar_time s of None \<Rightarrow> True | Some c \<Rightarrow> \<not> clock_ok c),
         ''calendar_time must use HH:MM''),
        (s_weekdays s = [] \<or> (\<exists>d \<in> set (s_weekdays s). d < 0 \<or> d > 6)
           \<or> s_weekdays s \<noteq> sort (remdups (s_weekdays s)),
         ''calendar weekdays must be a unique sorted subset of 0..6'')]
   | Manual_mode \<Rightarrow>
       [(s_interval s \<noteq> None \<or> s_calendar_time s \<noteq> None \<or> s_weekdays s \<noteq> [],
         ''manual schedules cannot contain timed fields'')])"

definition quiet_ladder :: "quiet_window option \<Rightarrow> ladder" where
  "quiet_ladder q = (case q of None \<Rightarrow> [] | Some w \<Rightarrow>
     [(\<not> clock_ok (quiet_start w), ''quiet_window.start must use HH:MM''),
      (\<not> clock_ok (quiet_end w), ''quiet_window.end must use HH:MM''),
      (quiet_start w = quiet_end w, ''quiet window cannot cover the full day'')])"

definition timezone_ladder :: "zone_db \<Rightarrow> string \<Rightarrow> ladder" where
  "timezone_ladder zones v =
     [(strip v = [] \<or> length v > 100, ''an explicit IANA timezone is required''),
      (zones (strip v) = None, ''timezone is not available in the IANA database'')]"

definition schedule_ladder :: "zone_db \<Rightarrow> schedule \<Rightarrow> ladder" where
  "schedule_ladder zones s =
     timezone_ladder zones (s_timezone s) @ mode_ladder s
     @ [(out_of_range (s_jitter s) 0 MAX_JITTER_SECONDS,
         ''jitter_seconds must be between 0 and 86400'')]
     @ quiet_ladder (s_quiet s)"

definition normalise_schedule :: "zone_db \<Rightarrow> schedule \<Rightarrow> sched_error + schedule" where
  "normalise_schedule zones s =
     (case first_failure (schedule_ladder zones s) of
        Some m \<Rightarrow> Inl (Scheduler_error m)
      | None \<Rightarrow> Inr (s\<lparr>s_timezone := strip (s_timezone s)\<rparr>))"

definition retry_ladder :: "retry_bound \<Rightarrow> ladder" where
  "retry_ladder r =
     [(out_of_range (max_attempts r) 1 MAX_RETRY_ATTEMPTS, ''max_attempts must be between 1 and 8''),
      (out_of_range (base_seconds r) 1 MAX_RETRY_SECONDS,
       ''base_seconds must be between 1 and 604800''),
      (out_of_range (max_seconds r) (base_seconds r) MAX_RETRY_SECONDS,
       ''max_seconds must be between base_seconds and 604800'')]"

definition normalise_retry :: "retry_bound \<Rightarrow> sched_error + retry_bound" where
  "normalise_retry r =
     (case first_failure (retry_ladder r) of Some m \<Rightarrow> Inl (Scheduler_error m) | None \<Rightarrow> Inr r)"

definition retry_payload :: "int \<Rightarrow> int \<Rightarrow> int \<Rightarrow> sched_error + retry_bound" where
  "retry_payload a b m =
     normalise_retry \<lparr>max_attempts = a, base_seconds = b, max_seconds = m\<rparr>"

definition default_retry :: retry_bound where
  "default_retry = \<lparr>max_attempts = 3, base_seconds = 60, max_seconds = 900\<rparr>"

definition schedule_payload ::
  "zone_db \<Rightarrow> schedule_mode \<Rightarrow> string \<Rightarrow> int option \<Rightarrow> string option \<Rightarrow> int list \<Rightarrow> dst_policy
   \<Rightarrow> string option \<Rightarrow> string option \<Rightarrow> int \<Rightarrow> missed_policy \<Rightarrow> sched_error + schedule" where
  "schedule_payload zones mode tz interval cal days dst qs qe jit missed =
     (let bare = \<lparr>s_mode = mode, s_timezone = tz, s_interval = interval, s_calendar_time = cal,
                  s_weekdays = days, s_dst = dst, s_quiet = None, s_jitter = jit,
                  s_missed = missed\<rparr>
      in case (qs, qe) of
           (None, None) \<Rightarrow> normalise_schedule zones bare
         | (Some b, Some e) \<Rightarrow>
             normalise_schedule zones (bare\<lparr>s_quiet := Some \<lparr>quiet_start = b, quiet_end = e\<rparr>\<rparr>)
         | _ \<Rightarrow> (case normalise_schedule zones bare of
                  Inl e \<Rightarrow> Inl e
                | Inr _ \<Rightarrow> Inl (Scheduler_error
                    (if (case qs of None \<Rightarrow> True | Some b \<Rightarrow> \<not> clock_ok b)
                     then ''quiet_window.start must use HH:MM''
                     else ''quiet_window.end must use HH:MM''))))"

section \<open>Local time\<close>

definition weekday :: "int \<Rightarrow> int" where
  "weekday day = (day + 3) mod 7"

definition valid_local_candidates :: "int \<Rightarrow> zone \<Rightarrow> instant list" where
  "valid_local_candidates naive z =
     sort (remdups
       (filter (\<lambda>i. i + z_offset z i = naive)
          (map (\<lambda>fold. naive - z_wall_offset z naive fold) [False, True])))"

fun shifted_candidate :: "int \<Rightarrow> zone \<Rightarrow> int \<Rightarrow> nat \<Rightarrow> instant option" where
  "shifted_candidate naive z minutes 0 = None"
| "shifted_candidate naive z minutes (Suc n) =
     (case valid_local_candidates (naive + minutes * MINUTE) z of
        [] \<Rightarrow> shifted_candidate naive z (minutes + 1) n
      | c # _ \<Rightarrow> Some c)"

definition resolve_local_time ::
  "zone_db \<Rightarrow> int \<Rightarrow> string \<Rightarrow> string \<Rightarrow> dst_policy \<Rightarrow> sched_error + instant option" where
  "resolve_local_time zones day clock tz dst =
     (if \<not> clock_ok clock then Inl (Scheduler_error ''calendar_time must use HH:MM'')
      else case first_failure (timezone_ladder zones tz) of
        Some m \<Rightarrow> Inl (Scheduler_error m)
      | None \<Rightarrow>
         (let z = the (zones (strip tz)); naive = day * DAY + clock_micros clock;
              cands = valid_local_candidates naive z
          in if cands \<noteq> [] then Inr (Some (if dst = Dst_latest then last cands else hd cands))
             else if dst \<noteq> Dst_shift_forward then Inr None
             else case shifted_candidate naive z 1 180 of
                    Some c \<Rightarrow> Inr (Some c)
                  | None \<Rightarrow> Inl (Scheduler_error
                      ''DST gap exceeds the bounded three-hour recovery window'')))"

section \<open>Occurrences\<close>

text \<open>The calendar loop visits the days at offsets 0 to 370; the last argument counts those left.\<close>

fun calendar_search ::
  "zone_db \<Rightarrow> schedule \<Rightarrow> instant \<Rightarrow> int \<Rightarrow> nat \<Rightarrow> sched_error + instant option" where
  "calendar_search zones s selected day 0 =
     Inl (Scheduler_error ''calendar schedule has no bounded next occurrence'')"
| "calendar_search zones s selected day (Suc n) =
     (if weekday day \<notin> set (s_weekdays s) then calendar_search zones s selected (day + 1) n
      else case resolve_local_time zones day (the (s_calendar_time s)) (s_timezone s) (s_dst s) of
             Inl e \<Rightarrow> Inl e
           | Inr (Some c) \<Rightarrow>
               if c > selected then Inr (Some c)
               else calendar_search zones s selected (day + 1) n
           | Inr None \<Rightarrow> calendar_search zones s selected (day + 1) n)"

definition next_nominal_after ::
  "zone_db \<Rightarrow> instant \<Rightarrow> schedule \<Rightarrow> sched_error + instant option" where
  "next_nominal_after zones selected schedule =
     (case normalise_schedule zones schedule of
        Inl e \<Rightarrow> Inl e
      | Inr s \<Rightarrow> (case s_mode s of
            Manual_mode \<Rightarrow> Inr None
          | Interval_mode \<Rightarrow> Inr (Some (selected + the (s_interval s) * SECOND))
          | Calendar_mode \<Rightarrow>
              (let z = the (zones (s_timezone s))
               in calendar_search zones s selected ((selected + z_offset z selected) div DAY) 371)))"

definition next_nominal_from_previous ::
  "zone_db \<Rightarrow> instant \<Rightarrow> schedule \<Rightarrow> sched_error + instant option" where
  "next_nominal_from_previous zones previous schedule =
     (case normalise_schedule zones schedule of
        Inl e \<Rightarrow> Inl e
      | Inr s \<Rightarrow> (if s_mode s = Interval_mode
                   then Inr (Some (previous + the (s_interval s) * SECOND))
                   else next_nominal_after zones previous s))"

text \<open>
  \<open>h64 policy_id revision\<close> stands for the first eight bytes of the SHA-256 of
  \<open>policy_id:revision\<close>, read as a big-endian integer.
\<close>

type_synonym seed_hash = "string \<Rightarrow> int \<Rightarrow> nat"

definition jitter_seconds :: "seed_hash \<Rightarrow> string \<Rightarrow> int \<Rightarrow> int \<Rightarrow> int" where
  "jitter_seconds h64 pid revision maximum =
     (if maximum \<le> 0 then 0 else int (h64 pid revision) mod (maximum + 1))"

definition in_quiet :: "quiet_window \<Rightarrow> int \<Rightarrow> bool" where
  "in_quiet q clock \<longleftrightarrow>
     (let start = clock_micros (quiet_start q); stop = clock_micros (quiet_end q)
      in if start > stop then clock \<ge> start \<or> clock < stop
         else start \<le> clock \<and> clock < stop)"

definition quiet_until :: "zone_db \<Rightarrow> instant \<Rightarrow> schedule \<Rightarrow> sched_error + instant" where
  "quiet_until zones i s =
     (case s_quiet s of
        None \<Rightarrow> Inr i
      | Some q \<Rightarrow>
         (let z = the (zones (s_timezone s)); local = i + z_offset z i;
              start = clock_micros (quiet_start q); crosses = start > clock_micros (quiet_end q);
              clock = local mod DAY
          in if \<not> in_quiet q clock then Inr i
             else let end_day = local div DAY + (if crosses \<and> clock \<ge> start then 1 else 0)
                  in case resolve_local_time zones end_day (quiet_end q) (s_timezone s)
                            Dst_shift_forward of
                       Inl e \<Rightarrow> Inl e
                     | Inr None \<Rightarrow> Inl (Scheduler_error ''quiet-window end could not be resolved'')
                     | Inr (Some r) \<Rightarrow> Inr (max i r)))"

definition eligible_instant ::
  "zone_db \<Rightarrow> seed_hash \<Rightarrow> instant \<Rightarrow> string \<Rightarrow> int \<Rightarrow> schedule \<Rightarrow> sched_error + instant" where
  "eligible_instant zones h64 nominal pid revision schedule =
     (case normalise_schedule zones schedule of
        Inl e \<Rightarrow> Inl e
      | Inr s \<Rightarrow>
          quiet_until zones (nominal + jitter_seconds h64 pid revision (s_jitter s) * SECOND) s)"

definition retry_delay_seconds :: "retry_bound \<Rightarrow> int \<Rightarrow> sched_error + int" where
  "retry_delay_seconds retry n =
     (case normalise_retry retry of
        Inl e \<Rightarrow> Inl e
      | Inr r \<Rightarrow>
          if out_of_range n 1 MAX_RETRY_ATTEMPTS
          then Inl (Scheduler_error ''attempt must be between 1 and 8'')
          else Inr (min (max_seconds r) (base_seconds r * 2 ^ nat (n - 1))))"

section \<open>Validation is idempotent\<close>

lemma dropWhile_hd: "xs = [] \<or> \<not> P (hd xs) \<Longrightarrow> dropWhile P xs = xs"
  by (cases xs) auto

lemma strip_strip [simp]: "strip (strip s) = strip s"
proof -
  define a where "a = dropWhile py_space s"
  define b where "b = dropWhile py_space (rev a)"
  have b: "b = [] \<or> \<not> py_space (hd b)"
    using hd_dropWhile [of py_space "rev a"] by (auto simp: b_def)
  have a: "a = [] \<or> \<not> py_space (hd a)"
    using hd_dropWhile [of py_space s] by (auto simp: a_def)
  have "rev a = takeWhile py_space (rev a) @ b" by (simp add: b_def)
  then obtain u where "rev a = u @ b" by blast
  then have "rev (rev a) = rev (u @ b)" by (rule arg_cong)
  then have ab: "a = rev b @ rev u" by simp
  have "rev b = [] \<or> \<not> py_space (hd (rev b))"
  proof (cases "b = []")
    case False
    then have "hd a = hd (rev b)" by (subst ab) simp
    moreover from False ab have "a \<noteq> []" by auto
    ultimately show ?thesis using a by auto
  qed simp
  then have "dropWhile py_space (rev b) = rev b" by (rule dropWhile_hd)
  moreover from b have "dropWhile py_space b = b" by (rule dropWhile_hd)
  moreover have "strip s = rev b" by (simp add: strip_def a_def b_def)
  ultimately show ?thesis by (simp add: strip_def)
qed

lemma length_strip_le: "length (strip s) \<le> length s"
  by (metis (no_types, lifting) strip_def length_rev length_dropWhile_le order_trans)

lemma normalise_schedule_Inr:
  "normalise_schedule zones s = Inr t \<longleftrightarrow>
     first_failure (schedule_ladder zones s) = None \<and> t = s\<lparr>s_timezone := strip (s_timezone s)\<rparr>"
  by (auto simp: normalise_schedule_def split: option.splits)

lemma mode_ladder_timezone [simp]: "mode_ladder (s\<lparr>s_timezone := x\<rparr>) = mode_ladder s"
  by (cases "s_mode s") (simp_all add: mode_ladder_def)

lemma timezone_ladder_strip:
  "first_failure (timezone_ladder zones v) = None \<Longrightarrow>
   first_failure (timezone_ladder zones (strip v)) = None"
  using length_strip_le [of v] by (simp add: timezone_ladder_def split: if_splits)

lemma ladder_of_stripped:
  "first_failure (schedule_ladder zones s) = None \<Longrightarrow>
   first_failure (schedule_ladder zones (s\<lparr>s_timezone := strip (s_timezone s)\<rparr>)) = None"
  by (simp add: schedule_ladder_def timezone_ladder_strip del: first_failure.simps)

lemma normalised_stays: "normalise_schedule zones s = Inr t \<Longrightarrow> normalise_schedule zones t = Inr t"
  using ladder_of_stripped by (auto simp: normalise_schedule_Inr)

lemma normalise_retry_Inr:
  "normalise_retry r = Inr r' \<longleftrightarrow> r' = r \<and> 1 \<le> max_attempts r \<and> max_attempts r \<le> 8
     \<and> 1 \<le> base_seconds r \<and> base_seconds r \<le> max_seconds r \<and> max_seconds r \<le> MAX_RETRY_SECONDS"
  by (auto simp: normalise_retry_def retry_ladder_def out_of_range_def MAX_RETRY_ATTEMPTS_def
      split: option.splits if_splits)

section \<open>Retry delays\<close>

lemma retry_delay_Inr:
  "retry_delay_seconds r n = Inr d \<longleftrightarrow>
     normalise_retry r = Inr r \<and> 1 \<le> n \<and> n \<le> 8
     \<and> d = min (max_seconds r) (base_seconds r * 2 ^ nat (n - 1))"
proof (cases "normalise_retry r")
  case (Inl e)
  then show ?thesis by (simp add: retry_delay_seconds_def)
next
  case (Inr r')
  then have "r' = r" by (simp add: normalise_retry_Inr)
  with Inr show ?thesis
    by (auto simp: retry_delay_seconds_def out_of_range_def MAX_RETRY_ATTEMPTS_def)
qed

text \<open>
  C32: the delay before attempt \<open>n + 1\<close> is an exact exponential backoff: it starts at
  the base, doubles with every attempt until it reaches the maximum and stays there, so it
  is never below the base, never above the maximum, and never shrinks.
\<close>

theorem retry_backoff:
  assumes "retry_delay_seconds r n = Inr d" and "retry_delay_seconds r (n + 1) = Inr d'"
  shows "base_seconds r \<le> d \<and> d \<le> max_seconds r \<and> d \<le> d' \<and> d' = min (max_seconds r) (2 * d)
         \<and> (n = 1 \<longrightarrow> d = base_seconds r)"
proof -
  from assms(1) have d: "d = min (max_seconds r) (base_seconds r * 2 ^ nat (n - 1))"
    and n: "1 \<le> n" and b: "1 \<le> base_seconds r" "base_seconds r \<le> max_seconds r"
    by (auto simp: retry_delay_Inr normalise_retry_Inr)
  from assms(2) have d': "d' = min (max_seconds r) (base_seconds r * 2 ^ nat n)"
    by (simp add: retry_delay_Inr)
  from n have "nat n = Suc (nat (n - 1))" by simp
  then have pow: "(2::int) ^ nat n = 2 * 2 ^ nat (n - 1)" by simp
  define p :: int where "p = base_seconds r * 2 ^ nat (n - 1)"
  have "base_seconds r * 1 \<le> p"
    unfolding p_def using b(1) by (intro mult_left_mono) auto
  then have p: "base_seconds r \<le> p" by simp
  have "d = min (max_seconds r) p" "d' = min (max_seconds r) (2 * p)"
    using d d' pow by (simp_all add: p_def mult.left_commute)
  moreover have "n = 1 \<Longrightarrow> p = base_seconds r" by (simp add: p_def)
  ultimately show ?thesis using p b by (auto simp: min_def)
qed

theorem retry_backoff_witness:
  "\<exists>d d'. retry_delay_seconds default_retry 2 = Inr d \<and> retry_delay_seconds default_retry (2 + 1) = Inr d'
     \<and> d = 120 \<and> d' = 240 \<and> d \<le> d'"
proof -
  have a: "retry_delay_seconds default_retry 2 = Inr 120"
    and b: "retry_delay_seconds default_retry (2 + 1) = Inr 240" by code_simp+
  from retry_backoff [OF a b] a b show ?thesis by simp
qed

section \<open>The calendar search\<close>

lemma calendar_search_Inr:
  "calendar_search zones s a day n = Inr r \<Longrightarrow>
     \<exists>c k. r = Some c \<and> k < n \<and> a < c \<and> weekday (day + int k) \<in> set (s_weekdays s)
       \<and> resolve_local_time zones (day + int k) (the (s_calendar_time s)) (s_timezone s) (s_dst s)
           = Inr (Some c)
       \<and> (\<forall>j < k. weekday (day + int j) \<in> set (s_weekdays s) \<longrightarrow>
            (\<exists>x. resolve_local_time zones (day + int j) (the (s_calendar_time s)) (s_timezone s)
                   (s_dst s) = Inr x \<and> (\<forall>c'. x = Some c' \<longrightarrow> c' \<le> a)))"
proof (induction n arbitrary: day)
  case 0
  then show ?case by simp
next
  case (Suc n)
  let ?res = "\<lambda>d. resolve_local_time zones d (the (s_calendar_time s)) (s_timezone s) (s_dst s)"
  show ?case
  proof (cases "weekday day \<in> set (s_weekdays s) \<and> (\<exists>c. ?res day = Inr (Some c) \<and> c > a)")
    case True
    then obtain c where "?res day = Inr (Some c)" "c > a" "weekday day \<in> set (s_weekdays s)" by blast
    with Suc.prems show ?thesis by (intro exI [of _ c] exI [of _ 0]) simp
  next
    case False
    with Suc.prems have rec: "calendar_search zones s a (day + 1) n = Inr r"
      and here: "weekday day \<in> set (s_weekdays s) \<Longrightarrow>
        \<exists>x. ?res day = Inr x \<and> (\<forall>c'. x = Some c' \<longrightarrow> c' \<le> a)"
      by (auto split: if_splits sum.splits option.splits)
    from Suc.IH [OF rec]
    obtain c k where k: "r = Some c" "k < n" "a < c"
      "weekday (day + 1 + int k) \<in> set (s_weekdays s)" "?res (day + 1 + int k) = Inr (Some c)"
      and before: "\<forall>j < k. weekday (day + 1 + int j) \<in> set (s_weekdays s) \<longrightarrow>
            (\<exists>x. ?res (day + 1 + int j) = Inr x \<and> (\<forall>c'. x = Some c' \<longrightarrow> c' \<le> a))" by blast
    have "\<forall>j < Suc k. weekday (day + int j) \<in> set (s_weekdays s) \<longrightarrow>
            (\<exists>x. ?res (day + int j) = Inr x \<and> (\<forall>c'. x = Some c' \<longrightarrow> c' \<le> a))"
    proof (intro allI impI)
      fix j assume j: "j < Suc k" and w: "weekday (day + int j) \<in> set (s_weekdays s)"
      show "\<exists>x. ?res (day + int j) = Inr x \<and> (\<forall>c'. x = Some c' \<longrightarrow> c' \<le> a)"
      proof (cases j)
        case 0
        with w here show ?thesis by simp
      next
        case (Suc i)
        then have e: "day + int j = day + 1 + int i" by simp
        from Suc j w before show ?thesis unfolding e by auto
      qed
    qed
    moreover have "day + int (Suc k) = day + 1 + int k" by simp
    ultimately show ?thesis using k
      by (intro exI [of _ c] exI [of _ "Suc k"]) (simp add: add.assoc)
  qed
qed

lemma calendar_search_stops:
  assumes res: "\<And>d. \<exists>c. resolve_local_time zones d (the (s_calendar_time s)) (s_timezone s) (s_dst s)
                     = Inr (Some c) \<and> (d \<ge> late \<longrightarrow> c > a)"
    and k: "k < n" and w: "weekday (day + int k) \<in> set (s_weekdays s)" and l: "day + int k \<ge> late"
  shows "\<exists>r. calendar_search zones s a day n = Inr r"
  using k w l
proof (induction n arbitrary: day k)
  case 0
  then show ?case by simp
next
  case (Suc n)
  obtain c where c: "resolve_local_time zones day (the (s_calendar_time s)) (s_timezone s) (s_dst s)
                     = Inr (Some c)" "day \<ge> late \<longrightarrow> c > a" using res by blast
  show ?case
  proof (cases "weekday day \<in> set (s_weekdays s) \<and> c > a")
    case True
    with c show ?thesis by auto
  next
    case False
    with c have step: "calendar_search zones s a day (Suc n) = calendar_search zones s a (day + 1) n"
      by auto
    from False c Suc.prems have "k \<noteq> 0" by (cases k) auto
    then obtain k' where k': "k = Suc k'" by (cases k) auto
    from Suc.prems k' have "\<exists>r. calendar_search zones s a (day + 1) n = Inr r"
      by (intro Suc.IH [of k']) (auto simp: add.assoc)
    with step show ?thesis by simp
  qed
qed

text \<open>
  C21: the next occurrence of a schedule lies strictly after the given instant. An interval
  occurrence is exactly one interval later. A calendar occurrence is the resolution of the
  schedule's time on one of its weekdays, and every earlier weekday of the schedule, from
  the local day of the given instant on, was skipped by the DST policy or resolved to an
  instant that is not later.
\<close>

theorem next_nominal_sound:
  assumes "next_nominal_after zones a schedule = Inr (Some n)"
  shows "\<exists>s. normalise_schedule zones schedule = Inr s \<and> a < n
    \<and> (s_mode s = Interval_mode \<longrightarrow> n = a + the (s_interval s) * SECOND)
    \<and> (s_mode s = Calendar_mode \<longrightarrow>
        (let day = (a + z_offset (the (zones (s_timezone s))) a) div DAY;
             res = (\<lambda>d. resolve_local_time zones d (the (s_calendar_time s)) (s_timezone s) (s_dst s))
         in \<exists>k < 371. weekday (day + int k) \<in> set (s_weekdays s) \<and> res (day + int k) = Inr (Some n)
              \<and> (\<forall>j < k. weekday (day + int j) \<in> set (s_weekdays s) \<longrightarrow>
                   (\<exists>x. res (day + int j) = Inr x \<and> (\<forall>c. x = Some c \<longrightarrow> c \<le> a)))))"
proof -
  obtain s where s: "normalise_schedule zones schedule = Inr s"
    using assms by (auto simp: next_nominal_after_def split: sum.splits)
  show ?thesis
  proof (cases "s_mode s")
    case Manual_mode
    with assms s show ?thesis by (simp add: next_nominal_after_def)
  next
    case Interval_mode
    have "first_failure (mode_ladder s) = None"
      using s by (auto simp: normalise_schedule_Inr schedule_ladder_def)
    with Interval_mode have "0 < the (s_interval s)"
      by (auto simp: mode_ladder_def out_of_range_def MIN_INTERVAL_SECONDS_def
          split: if_splits option.splits)
    with Interval_mode assms s show ?thesis
      by (auto simp: next_nominal_after_def SECOND_def)
  next
    case Calendar_mode
    with assms s have "calendar_search zones s a
        ((a + z_offset (the (zones (s_timezone s))) a) div DAY) 371 = Inr (Some n)"
      by (simp add: next_nominal_after_def)
    from calendar_search_Inr [OF this] s Calendar_mode show ?thesis
      by (auto simp: Let_def)
  qed
qed

end
