(* ===== verification/Scheduler_Records.thy ===== *)
theory Scheduler_Records
  imports Scheduler_Clock
begin

text \<open>
  The validation that every record passes before it is written and after it is read:
  policies, jobs with their control and execution plan, and receipts
  (core/provelume/scheduler_model.py, lines 196 to 223 and 540 to 1084;
  core/provelume/scheduler_control.py, lines 57 to 341; core/provelume/processing_jobs.py,
  lines 24 to 65). Each validator is its ladder of raises in source order. The shape tests
  (the exact key set of a stored object, the Python type of a field) hold by the types of
  the records; where a field's presence depends on the schema version they are kept.
\<close>

section \<open>The environment of a store\<close>

text \<open>
  What the scheduler reads from elsewhere: the Instance id and the known Sources of the
  store, the zone database, the SHA-256 of a value's compact sorted JSON (ASCII and UTF-8
  form), of a text, the seed hash of the jitter, and the byte length of a value's JSON.
\<close>

record sched_env =
  e_instance :: string
  e_sources :: "string list"
  e_zones :: zone_db
  e_seed :: seed_hash
  e_digest :: "json \<Rightarrow> string"
  e_digest_utf8 :: "json \<Rightarrow> string"
  e_digest_text :: "string \<Rightarrow> string"
  e_size :: "json \<Rightarrow> nat"

section \<open>The stored form of a record\<close>

fun digits :: "nat \<Rightarrow> nat \<Rightarrow> string" where
  "digits 0 n = []"
| "digits (Suc w) n = digits w (n div 10) @ [char_of (48 + n mod 10)]"

definition civil :: "int \<Rightarrow> int \<times> int \<times> int" where
  "civil day =
     (let z = day + 719468; era = z div 146097; doe = z mod 146097;
          yoe = (doe - doe div 1460 + doe div 36524 - doe div 146096) div 365;
          doy = doe - (365 * yoe + yoe div 4 - yoe div 100);
          mp = (5 * doy + 2) div 153;
          m = (if mp < 10 then mp + 3 else mp - 9)
      in (yoe + era * 400 + (if m \<le> 2 then 1 else 0), m, doy - (153 * mp + 2) div 5 + 1))"

definition instant_text :: "instant \<Rightarrow> string" where
  "instant_text i =
     (let (y, m, d) = civil (i div DAY); t = i mod DAY; s = t div SECOND; us = t mod SECOND
      in digits 4 (nat y) @ ''-'' @ digits 2 (nat m) @ ''-'' @ digits 2 (nat d) @ ''T''
         @ digits 2 (nat (s div 3600)) @ '':'' @ digits 2 (nat (s div 60 mod 60)) @ '':''
         @ digits 2 (nat (s mod 60))
         @ (if us = 0 then [] else ''.'' @ digits 6 (nat us)) @ ''+00:00'')"

definition opt_json :: "('a \<Rightarrow> json) \<Rightarrow> 'a option \<Rightarrow> json" where
  "opt_json f x = (case x of None \<Rightarrow> JNull | Some v \<Rightarrow> f v)"

definition instant_json :: "instant \<Rightarrow> json" where
  "instant_json i = JStr (instant_text i)"

fun status_name :: "job_status \<Rightarrow> string" where
  "status_name Queued = ''queued''"
| "status_name Running = ''running''"
| "status_name Retry_wait = ''retry_wait''"
| "status_name Pausing = ''pausing''"
| "status_name Paused = ''paused''"
| "status_name Cancelling = ''cancelling''"
| "status_name Succeeded = ''succeeded''"
| "status_name Failed = ''failed''"
| "status_name Manual_intervention = ''manual_intervention''"
| "status_name Cancelled = ''cancelled''"

fun error_class_name :: "error_class \<Rightarrow> string" where
  "error_class_name Transient = ''transient''"
| "error_class_name Permanent = ''permanent''"
| "error_class_name Manual_intervention_class = ''manual_intervention''"
| "error_class_name Cancelled_class = ''cancelled''"

fun recovery_name :: "recovery_state \<Rightarrow> string" where
  "recovery_name Recovery_none = ''none''"
| "recovery_name Resumable = ''resumable''"
| "recovery_name Restart_only = ''restart_only''"
| "recovery_name Manual_recovery = ''manual_intervention''"

fun reason_name :: "run_reason \<Rightarrow> string" where
  "reason_name Reason_manual = ''manual''"
| "reason_name Reason_scheduled = ''scheduled''"
| "reason_name Reason_coalesced = ''coalesced''"
| "reason_name Reason_catch_up = ''catch_up''"

fun phase_name :: "checkpoint_phase \<Rightarrow> string" where
  "phase_name Phase_none = ''none''"
| "phase_name Phase_prepared = ''prepared''"
| "phase_name Phase_executing = ''executing''"
| "phase_name Phase_committed = ''committed''"

fun outcome_name :: "attempt_outcome \<Rightarrow> string" where
  "outcome_name Attempt_running = ''running''"
| "outcome_name Attempt_succeeded = ''succeeded''"
| "outcome_name Attempt_retry = ''retry''"
| "outcome_name Attempt_failed = ''failed''"
| "outcome_name Attempt_paused = ''paused''"

fun action_name :: "control_action \<Rightarrow> string" where
  "action_name Act_pause = ''pause''"
| "action_name Act_resume = ''resume''"
| "action_name Act_cancel = ''cancel''"
| "action_name Act_retry = ''retry''"
| "action_name Act_restart = ''restart''"

fun result_name :: "command_result \<Rightarrow> string" where
  "result_name Res_paused = ''paused''"
| "result_name Res_pausing = ''pausing''"
| "result_name Res_cancelling = ''cancelling''"
| "result_name Res_cancelled = ''cancelled''"
| "result_name Res_queued = ''queued''"
| "result_name Res_restarted = ''restarted''"

definition scope_json :: "scope \<Rightarrow> json" where
  "scope_json s = JObj [(''kind'', JStr (scope_kind s)), (''id'', JStr (scope_id s))]"

definition retry_json :: "retry_bound \<Rightarrow> json" where
  "retry_json r = JObj [(''max_attempts'', JInt (max_attempts r)),
     (''base_seconds'', JInt (base_seconds r)), (''max_seconds'', JInt (max_seconds r))]"

definition lease_json :: "lease \<Rightarrow> json" where
  "lease_json l = JObj [(''token'', JStr (l_token l)), (''worker_id'', JStr (l_worker l)),
     (''acquired_at'', instant_json (l_acquired_at l)),
     (''heartbeat_at'', instant_json (l_heartbeat_at l)),
     (''expires_at'', instant_json (l_expires_at l))]"

definition checkpoint_json :: "checkpoint \<Rightarrow> json" where
  "checkpoint_json c = JObj [(''sequence'', JInt (c_sequence c)),
     (''phase'', JStr (phase_name (c_phase c))),
     (''committed_at'', opt_json instant_json (c_committed_at c))]"

definition progress_json :: "progress \<Rightarrow> json" where
  "progress_json p = JObj [(''processed'', JInt (processed p)), (''skipped'', JInt (skipped p)),
     (''errors'', JInt (errors p))]"

definition attempt_json :: "attempt \<Rightarrow> json" where
  "attempt_json a = JObj [(''attempt'', JInt (a_number a)),
     (''started_at'', instant_json (a_started_at a)),
     (''completed_at'', opt_json instant_json (a_completed_at a)),
     (''outcome'', JStr (outcome_name (a_outcome a))),
     (''error_class'', opt_json (JStr \<circ> error_class_name) (a_error_class a)),
     (''error_code'', opt_json JStr (a_error_code a))]"

definition command_json :: "command \<Rightarrow> json" where
  "command_json c = JObj [(''request_digest'', JStr (cmd_request c)),
     (''payload_digest'', JStr (cmd_payload c)), (''action'', JStr (action_name (cmd_action c))),
     (''expected_revision'', JStr (cmd_expected c)),
     (''result_status'', JStr (result_name (cmd_result c))),
     (''accepted_at'', instant_json (cmd_accepted_at c)),
     (''successor_id'', opt_json JStr (cmd_successor c))]"

definition pending_json :: "pending_intent \<Rightarrow> json" where
  "pending_json p = JObj [(''action'', JStr (action_name (pend_action p))),
     (''request_digest'', JStr (pend_request p)), (''attempt'', JInt (pend_attempt p))]"

definition observation_json :: "observation \<Rightarrow> json" where
  "observation_json b = JObj [(''unit'', JStr (ob_unit b)), (''completed'', JInt (ob_completed b)),
     (''total'', JInt (ob_total b)), (''plan_revision'', JStr (ob_plan_revision b)),
     (''attempt'', JInt (ob_attempt b)), (''sampled_at'', instant_json (ob_sampled_at b)),
     (''rate_per_second'', opt_json JFloat (ob_rate b))]"

definition control_fields :: "('child \<Rightarrow> json) \<Rightarrow> 'child control \<Rightarrow> (string \<times> json) list" where
  "control_fields child_json c =
    [(''schema_version'', JInt 1), (''revision'', JInt (ctl_revision c)),
     (''pending'', opt_json pending_json (ctl_pending c)),
     (''commit_started'', JBool (ctl_commit_started c)),
     (''commands'', JList (map command_json (ctl_commands c))),
     (''parent_job_id'', opt_json JStr (ctl_parent c)),
     (''restart'', opt_json (\<lambda>(q, child). JObj [(''request_digest'', JStr q),
        (''job'', child_json child)]) (ctl_restart c)),
     (''observation'', opt_json observation_json (ctl_observation c)),
     (''network_used'', JBool (ctl_network_used c)),
     (''completion'', opt_json (JStr \<circ> action_name) (ctl_completion c))]"

definition job_fields :: "('ctl \<Rightarrow> json) \<Rightarrow> 'ctl job_record \<Rightarrow> (string \<times> json) list" where
  "job_fields ctl_json j =
     (if j_schema j = 1 then []
      else [(''control'', opt_json ctl_json (j_control j)),
            (''execution_plan'', opt_json id (j_plan j))])
   @ [(''schema_version'', JInt (j_schema j)), (''id'', JStr (j_id j)),
      (''policy_id'', JStr (j_policy_id j)), (''policy_revision'', JInt (j_policy_revision j)),
      (''job_kind'', JStr (kind_name (j_kind j))), (''scope'', scope_json (j_scope j)),
      (''idempotency_key'', JStr (j_key j)), (''reason'', JStr (reason_name (j_reason j))),
      (''scheduled_for'', instant_json (j_scheduled_for j)),
      (''eligible_at'', instant_json (j_eligible_at j)),
      (''created_at'', instant_json (j_created_at j)),
      (''updated_at'', instant_json (j_updated_at j)),
      (''status'', JStr (status_name (j_status j))), (''attempt'', JInt (j_attempt j)),
      (''retry'', retry_json (j_retry j)),
      (''retry_not_before'', opt_json instant_json (j_retry_not_before j)),
      (''lease'', opt_json lease_json (j_lease j)),
      (''checkpoint'', checkpoint_json (j_checkpoint j)),
      (''progress'', progress_json (j_progress j)),
      (''recovery_state'', JStr (recovery_name (j_recovery_state j))),
      (''recovery_count'', JInt (j_recovery_count j)),
      (''attempts'', JList (map attempt_json (j_attempts j))),
      (''receipt_ref'', opt_json JStr (j_receipt_ref j))]"

definition child_control_json :: "unit control \<Rightarrow> json" where
  "child_control_json c = JObj (control_fields (\<lambda>_. JNull) c)"

definition child_json :: "child_job \<Rightarrow> json" where
  "child_json j = JObj (job_fields child_control_json j)"

definition control_json :: "job_control \<Rightarrow> json" where
  "control_json c = JObj (control_fields child_json c)"

definition job_json :: "job \<Rightarrow> json" where
  "job_json j = JObj (job_fields control_json j)"

section \<open>Policies\<close>

definition sched :: "ladder \<Rightarrow> (bool \<times> sched_error) list" where
  "sched cs = map (apsnd Scheduler_error) cs"

definition scope_ladder :: "sched_env \<Rightarrow> job_kind \<Rightarrow> scope \<Rightarrow> ladder" where
  "scope_ladder env k s =
     (if scope_kind s = ''instance'' then
        [(scope_id s \<noteq> e_instance env \<or> \<not> instance_id_ok (scope_id s),
          ''scheduler Instance scope does not match this Instance''),
         (source_scoped k, kind_name k @ '' requires an exact Source scope'')]
      else if scope_kind s = ''source'' then
        [(\<not> source_id_ok (scope_id s) \<or> scope_id s \<notin> set (e_sources env),
          ''scheduler Source scope is not available''),
         (\<not> source_scoped k, ''this job kind requires Instance scope'')]
      else [(True, ''scheduler scope kind must be instance or source'')])"

definition normalise_scope :: "sched_env \<Rightarrow> job_kind \<Rightarrow> scope \<Rightarrow> sched_error + scope" where
  "normalise_scope env k s =
     (case first_failure (scope_ladder env k s) of
        Some m \<Rightarrow> Inl (Scheduler_error m) | None \<Rightarrow> Inr s)"

definition policy_ladder :: "sched_env \<Rightarrow> policy \<Rightarrow> ladder" where
  "policy_ladder env p =
     [(\<not> policy_id_ok (p_id p), ''scheduler policy identity is invalid''),
      (out_of_range (p_revision p) 1 (2 ^ 31 - 1), ''revision must be between 1 and 2147483647'')]
     @ scope_ladder env (p_kind p) (p_scope p)
     @ schedule_ladder (e_zones env) (p_schedule p)
     @ [(p_kind p = Backup_verify \<and> s_mode (p_schedule p) \<noteq> Manual_mode,
         ''backup verification requires an explicit manual plan'')]
     @ retry_ladder (p_retry p)
     @ [((p_next_nominal_at p = None) \<noteq> (p_next_due_at p = None),
         ''scheduler next occurrence is incomplete''),
        (s_mode (p_schedule p) = Manual_mode \<and> p_next_nominal_at p \<noteq> None,
         ''manual scheduler policy cannot have a next occurrence''),
        (p_state p \<noteq> Policy_enabled \<and> p_next_nominal_at p \<noteq> None,
         ''inactive scheduler policy cannot have a next occurrence''),
        (p_state p = Policy_enabled \<and> s_mode (p_schedule p) \<noteq> Manual_mode
           \<and> p_next_nominal_at p = None,
         ''enabled timed policy requires a next occurrence'')]"

definition stripped_schedule :: "schedule \<Rightarrow> schedule" where
  "stripped_schedule s = s\<lparr>s_timezone := strip (s_timezone s)\<rparr>"

definition validate_policy_record :: "sched_env \<Rightarrow> policy \<Rightarrow> sched_error + policy" where
  "validate_policy_record env p =
     (case first_failure (policy_ladder env p) of
        Some m \<Rightarrow> Inl (Scheduler_error m)
      | None \<Rightarrow> Inr (p\<lparr>p_schedule := stripped_schedule (p_schedule p)\<rparr>))"

section \<open>Parts of a job\<close>

definition worker_ladder :: "string \<Rightarrow> ladder" where
  "worker_ladder w =
     [(\<not> worker_id_ok w, ''worker ID must use lowercase letters, digits, dot, dash or underscore'')]"

definition error_ladder :: "string \<Rightarrow> ladder" where
  "error_ladder c = [(c \<notin> set ERROR_CODES, ''invalid error code'')]"

definition progress_ladder :: "progress \<Rightarrow> ladder" where
  "progress_ladder p =
     [(out_of_range (processed p) 0 (2 ^ 63 - 1),
       ''processed must be between 0 and 9223372036854775807''),
      (out_of_range (skipped p) 0 (2 ^ 63 - 1),
       ''skipped must be between 0 and 9223372036854775807''),
      (out_of_range (errors p) 0 (2 ^ 63 - 1),
       ''errors must be between 0 and 9223372036854775807'')]"

definition record_scope_ok :: "job_kind \<Rightarrow> scope \<Rightarrow> bool" where
  "record_scope_ok k s \<longleftrightarrow>
     (scope_kind s = ''instance'' \<and> instance_id_ok (scope_id s) \<and> \<not> source_scoped k)
   \<or> (scope_kind s = ''source'' \<and> source_id_ok (scope_id s) \<and> source_scoped k)"

definition lease_ladder :: "job_status \<Rightarrow> lease option \<Rightarrow> ladder" where
  "lease_ladder st l =
     (case l of None \<Rightarrow> [] | Some x \<Rightarrow>
        (\<not> lease_token_ok (l_token x), ''job lease token is invalid'') # worker_ladder (l_worker x))
     @ [(active_status st \<and> l = None, ''running job must have a lease''),
        (\<not> active_status st \<and> l \<noteq> None, ''only running jobs may retain a lease'')]"

definition checkpoint_ladder :: "checkpoint \<Rightarrow> ladder" where
  "checkpoint_ladder c =
     [(out_of_range (c_sequence c) 0 (2 ^ 31 - 1),
       ''checkpoint sequence must be between 0 and 2147483647''),
      (c_phase c = Phase_none \<and> (c_sequence c \<noteq> 0 \<or> c_committed_at c \<noteq> None),
       ''empty job checkpoint is inconsistent''),
      (c_phase c \<noteq> Phase_none \<and> (c_sequence c = 0 \<or> c_committed_at c = None),
       ''job checkpoint evidence is incomplete'')]"

definition attempt_ladder :: "bool \<Rightarrow> nat \<Rightarrow> attempt \<Rightarrow> ladder" where
  "attempt_ladder controlled n a =
     [(out_of_range (a_number a) 1 MAX_RETRY_ATTEMPTS, ''attempt must be between 1 and 8''),
      (a_number a \<noteq> int n, ''job attempts must be consecutive''),
      (a_outcome a = Attempt_paused \<and> \<not> controlled, ''job attempt outcome is invalid'')]
     @ (case a_error_code a of None \<Rightarrow> [] | Some c \<Rightarrow> error_ladder c)
     @ [(a_outcome a = Attempt_running
           \<and> (a_completed_at a \<noteq> None \<or> a_error_class a \<noteq> None \<or> a_error_code a \<noteq> None),
         ''running job attempt has terminal evidence''),
        (a_outcome a \<noteq> Attempt_running \<and> a_completed_at a = None,
         ''completed job attempt has no completion instant''),
        (a_outcome a \<in> {Attempt_retry, Attempt_failed}
           \<and> (a_error_class a = None \<or> a_error_code a = None),
         ''failed job attempt has no closed error''),
        (a_outcome a = Attempt_retry \<and> a_error_class a \<noteq> Some Transient,
         ''retry attempt must have a transient error''),
        (a_outcome a \<in> {Attempt_succeeded, Attempt_paused}
           \<and> (a_error_class a \<noteq> None \<or> a_error_code a \<noteq> None),
         ''successful job attempt cannot contain an error'')]"

definition history_ladder :: "bool \<Rightarrow> 'ctl job_record \<Rightarrow> (bool \<times> sched_error) list" where
  "history_ladder controlled j =
     (let as = j_attempts j; st = j_status j; final = a_outcome (last as) in
      sched [(length as > nat MAX_RETRY_ATTEMPTS \<or> int (length as) \<noteq> j_attempt j,
              ''job attempt history is invalid'')]
      @ sched (concat (map (\<lambda>(n, a). attempt_ladder controlled n a) (enumerate 1 as)))
      @ sched [(active_status st \<and> (as = [] \<or> final \<noteq> Attempt_running),
                ''running job has no running attempt''),
               (\<not> active_status st \<and> (\<exists>a \<in> set as. a_outcome a = Attempt_running),
                ''non-running job retains a running attempt'')]
      @ [(st = Retry_wait \<and> as = [], Index_error ''list index out of range'')]
      @ sched [(st = Retry_wait \<and> final \<noteq> Attempt_retry,
                ''retry-wait job has inconsistent attempt evidence''),
               (st = Queued \<and> as \<noteq> []
                  \<and> final \<notin> (if controlled then {Attempt_retry, Attempt_paused} else {Attempt_retry}),
                ''recovered queued job has inconsistent attempt evidence''),
               (terminal_status st \<and> as \<noteq> []
                  \<and> final \<notin> (if st = Succeeded then {Attempt_succeeded}
                             else if st = Cancelled
                                  then (if controlled then {Attempt_failed, Attempt_retry, Attempt_paused}
                                        else {Attempt_failed, Attempt_retry})
                                  else {Attempt_failed}),
                ''terminal job has inconsistent attempt evidence'')])"

definition receipt_ref_ladder :: "'ctl job_record \<Rightarrow> ladder" where
  "receipt_ref_ladder j =
     [(j_receipt_ref j \<noteq> None \<and> j_receipt_ref j \<noteq> Some (receipt_ref_of (receipt_of_job (j_id j))),
       ''job receipt reference is invalid''),
      (terminal_status (j_status j) \<and> j_receipt_ref j = None,
       ''terminal job must reference an immutable receipt''),
      (\<not> terminal_status (j_status j) \<and> j_receipt_ref j \<noteq> None,
       ''non-terminal job cannot reference a receipt''),
      (j_status j = Paused \<and> j_attempts j \<noteq> []
         \<and> a_outcome (last (j_attempts j)) \<notin> {Attempt_paused, Attempt_retry},
       ''paused job retains inconsistent attempt evidence'')]"

definition controlled_schema :: "'ctl job_record \<Rightarrow> bool" where
  "controlled_schema j \<longleftrightarrow> j_schema j \<in> {2, 3}"

definition job_core_ladder :: "'ctl job_record \<Rightarrow> (bool \<times> sched_error) list" where
  "job_core_ladder j =
     (let controlled = controlled_schema j; st = j_status j in
      sched ([(j_schema j = 3 \<or> (if controlled then j_control j = None
                                 else j_control j \<noteq> None \<or> j_plan j \<noteq> None),
               ''scheduler job fields are incomplete or unsupported''),
              (j_schema j \<notin> {1, 2, 3} \<or> \<not> job_id_ok (j_id j) \<or> \<not> policy_id_ok (j_policy_id j)
                 \<or> (\<not> controlled \<and> st \<in> {Paused, Pausing, Cancelling})
                 \<or> (j_kind j = Processing_execute \<and> \<not> controlled)
                 \<or> \<not> sha256_text (j_key j),
               ''scheduler job identity is invalid''),
              (\<not> record_scope_ok (j_kind j) (j_scope j),
               ''scheduler record scope does not match its job kind''),
              (out_of_range (j_attempt j) 0 MAX_RETRY_ATTEMPTS, ''attempt must be between 0 and 8''),
              (out_of_range (j_policy_revision j) 1 (2 ^ 31 - 1),
               ''policy_revision must be between 1 and 2147483647'')]
             @ retry_ladder (j_retry j)
             @ [(st = Retry_wait \<and> j_retry_not_before j = None,
                 ''retry-wait job must have a retry instant''),
                (st \<noteq> Retry_wait \<and> j_retry_not_before j \<noteq> None,
                 ''only retry-wait jobs may have a retry instant'')]
             @ lease_ladder st (j_lease j)
             @ checkpoint_ladder (j_checkpoint j)
             @ progress_ladder (j_progress j)
             @ [(out_of_range (j_recovery_count j) 0 (2 ^ 31 - 1),
                 ''recovery_count must be between 0 and 2147483647'')])
      @ history_ladder controlled j
      @ sched (receipt_ref_ladder j))"

section \<open>Execution plans\<close>

fun json_str :: "(string \<Rightarrow> bool) \<Rightarrow> json \<Rightarrow> bool" where
  "json_str P (JStr s) = P s"
| "json_str P v = False"

fun json_int :: "int \<Rightarrow> int \<Rightarrow> json \<Rightarrow> bool" where
  "json_int lo hi (JInt n) = (lo \<le> n \<and> n \<le> hi)"
| "json_int lo hi v = False"

fun json_pairs :: "json \<Rightarrow> (string \<times> json) list" where
  "json_pairs (JObj kvs) = kvs"
| "json_pairs v = []"

definition OPERATIONS :: "string list" where
  "OPERATIONS = [''extract'', ''representation'', ''index'']"

definition processing_plan_ok :: "sched_env \<Rightarrow> json \<Rightarrow> bool" where
  "processing_plan_ok env v \<longleftrightarrow>
     (let scope = jget v ''scope''; ps = jget v ''parameters''; versions = jget ps ''versions'' in
      has_fields [''schema_version'', ''kind'', ''instance_id'', ''scope'', ''parameters'',
                  ''input_revision'', ''plan_revision''] v
      \<and> jget v ''schema_version'' = JInt 1
      \<and> jget v ''kind'' = JStr (kind_name Processing_execute)
      \<and> json_str instance_id_ok (jget v ''instance_id'')
      \<and> has_fields [''kind'', ''id''] scope \<and> jget scope ''kind'' = JStr ''source''
      \<and> has_fields [''version_id'', ''operation'', ''policy_receipt'', ''permit_receipt'',
                    ''versions''] ps
      \<and> json_str (prefixed_hex ''src_'' 32) (jget scope ''id'')
      \<and> json_str (prefixed_hex ''ver_'' 32) (jget ps ''version_id'')
      \<and> is_obj versions \<and> 1 \<le> length (json_pairs versions) \<and> length (json_pairs versions) \<le> 500
      \<and> list_all (\<lambda>(d, w). prefixed_hex ''doc_'' 32 d \<and> json_str (prefixed_hex ''ver_'' 32) w)
           (json_pairs versions)
      \<and> jget ps ''version_id'' \<in> set (map snd (json_pairs versions))
      \<and> json_str (\<lambda>s. s \<in> set OPERATIONS) (jget ps ''operation'')
      \<and> json_str (prefixed_hex ''review_'' 32) (jget ps ''policy_receipt'')
      \<and> (jget ps ''permit_receipt'' = JNull
         \<or> json_str (prefixed_hex ''review_'' 32) (jget ps ''permit_receipt''))
      \<and> json_str sha256_text (jget v ''input_revision'')
      \<and> jget v ''plan_revision'' = JStr (e_digest_utf8 env (without_field ''plan_revision'' v)))"

definition maintenance_plan_ok :: "sched_env \<Rightarrow> job_kind \<Rightarrow> json \<Rightarrow> bool" where
  "maintenance_plan_ok env k v \<longleftrightarrow>
     (let scope = jget v ''scope''; ps = jget v ''parameters'' in
      has_fields [''schema_version'', ''kind'', ''instance_id'', ''scope'', ''parameters'',
                  ''input_revision'', ''plan_revision''] v
      \<and> jget v ''schema_version'' = JInt 1
      \<and> jget v ''kind'' = JStr (kind_name k)
      \<and> json_str instance_id_ok (jget v ''instance_id'')
      \<and> json_str sha256_text (jget v ''input_revision'')
      \<and> jget v ''plan_revision'' = JStr (e_digest env (without_field ''plan_revision'' v))
      \<and> has_fields (if k = Source_reconcile then [''source_id''] else []) ps
      \<and> has_fields [''kind'', ''id''] scope
      \<and> (k = Source_reconcile \<longrightarrow> jget ps ''source_id'' = jget scope ''id''))"

definition backup_plan_ok :: "json \<Rightarrow> bool" where
  "backup_plan_ok v \<longleftrightarrow>
      has_fields [''schema_version'', ''kind'', ''instance_id'', ''target_ref'', ''target_revision'',
                  ''archive_sha256'', ''size_bytes'', ''backup_id'', ''instance_schema_version'',
                  ''content_fingerprint'', ''files'', ''plan_revision''] v
      \<and> jget v ''schema_version'' = JInt 1
      \<and> jget v ''kind'' = JStr (kind_name Backup_verify)
      \<and> json_str (prefixed_hex ''mt_'' 32) (jget v ''target_ref'')
      \<and> list_all (\<lambda>k. json_str sha256_text (jget v k))
           [''target_revision'', ''archive_sha256'', ''plan_revision'', ''content_fingerprint'']
      \<and> json_str instance_id_ok (jget v ''instance_id'')
      \<and> json_str (\<lambda>s. take 7 s = ''backup_'' \<and> length s \<le> 160) (jget v ''backup_id'')
      \<and> json_int 0 (512 * 1024 ^ 3) (jget v ''size_bytes'')
      \<and> json_int 0 100000 (jget v ''files'')
      \<and> json_int 1 3 (jget v ''instance_schema_version'')"

definition plan_ladder :: "sched_env \<Rightarrow> job_kind \<Rightarrow> json option \<Rightarrow> ladder" where
  "plan_ladder env k p =
     (if k = Processing_execute then
        [((case p of None \<Rightarrow> True | Some v \<Rightarrow> \<not> processing_plan_ok env v),
          ''Processing execution plan is invalid'')]
      else if k = Backup_verify then
        [((case p of None \<Rightarrow> True | Some v \<Rightarrow> \<not> backup_plan_ok v),
          ''backup verification execution plan is invalid'')]
      else
        [((case p of None \<Rightarrow> False | Some v \<Rightarrow> \<not> maintenance_plan_ok env k v),
          ''maintenance execution plan is invalid'')])"

definition same_scope :: "json \<Rightarrow> scope \<Rightarrow> bool" where
  "same_scope v s \<longleftrightarrow> has_fields [''kind'', ''id''] v \<and> jget v ''kind'' = JStr (scope_kind s)
                      \<and> jget v ''id'' = JStr (scope_id s)"

definition plan_scope_ladder :: "job_kind \<Rightarrow> scope \<Rightarrow> json option \<Rightarrow> ladder" where
  "plan_scope_ladder k s p =
     [((case p of None \<Rightarrow> False | Some v \<Rightarrow>
          (k \<noteq> Backup_verify \<and> \<not> same_scope (jget v ''scope'') s)
        \<or> (scope_kind s = ''instance'' \<and> jget v ''instance_id'' \<noteq> JStr (scope_id s))),
       ''execution plan scope differs from its job'')]"

section \<open>Control records\<close>

definition COOPERATIVE_KINDS :: "job_kind list" where
  "COOPERATIVE_KINDS =
    [Search_reindex, Search_reindex_incremental, Source_reconcile, Processing_execute, Ocr_execute]"

definition MAX_CONTROL_COMMANDS :: nat where "MAX_CONTROL_COMMANDS = 128"

definition MAX_CONTROL_RECORD_BYTES :: nat where "MAX_CONTROL_RECORD_BYTES = 1024 * 1024"

definition cooperative :: "job_kind \<Rightarrow> bool" where
  "cooperative k \<longleftrightarrow> k \<in> set COOPERATIVE_KINDS"

definition initial_control :: "string option \<Rightarrow> 'child control" where
  "initial_control parent =
     \<lparr>ctl_revision = 0, ctl_pending = None, ctl_commit_started = False, ctl_commands = [],
      ctl_parent = parent, ctl_restart = None, ctl_observation = None, ctl_network_used = False,
      ctl_completion = None\<rparr>"

definition promote :: "job \<Rightarrow> job" where
  "promote j = (if j_schema j \<in> {2, 3} then j
                else j\<lparr>j_schema := 2, j_control := Some (initial_control None), j_plan := None\<rparr>)"

fun commands_ladder :: "string list \<Rightarrow> command list \<Rightarrow> ladder" where
  "commands_ladder seen [] = []"
| "commands_ladder seen (c # cs) =
     [(\<not> sha256_text (cmd_request c) \<or> \<not> sha256_text (cmd_payload c)
         \<or> \<not> sha256_text (cmd_expected c) \<or> cmd_request c \<in> set seen,
       ''job command receipt binding is invalid''),
      ((cmd_action c = Act_restart) \<noteq> (cmd_successor c \<noteq> None),
       ''restart command successor is incomplete''),
      ((case cmd_successor c of None \<Rightarrow> False | Some i \<Rightarrow> \<not> job_id_ok i),
       ''restart successor is invalid'')]
     @ commands_ladder (cmd_request c # seen) cs"

definition pending_ladder :: "'ctl job_record \<Rightarrow> 'child control \<Rightarrow> ladder" where
  "pending_ladder j c =
     (case ctl_pending c of
        Some p \<Rightarrow>
          [(pend_action p \<notin> {Act_pause, Act_cancel}
              \<or> pend_request p \<notin> set (map cmd_request (ctl_commands c))
              \<or> pend_attempt p \<noteq> j_attempt j
              \<or> \<not> cooperative (j_kind j)
              \<or> j_status j \<noteq> (if pend_action p = Act_pause then Pausing else Cancelling)
              \<or> ctl_commit_started c,
            ''cooperative intent is inconsistent''),
           (\<not> (\<exists>r \<in> set (ctl_commands c). cmd_request r = pend_request p
                                          \<and> cmd_action r = pend_action p),
            ''cooperative intent differs from its receipt'')]
      | None \<Rightarrow>
          [(j_status j \<in> {Pausing, Cancelling},
            ''cooperative transition has no durable intent'')])"

definition control_head_ladder :: "'ctl job_record \<Rightarrow> 'child control \<Rightarrow> ladder" where
  "control_head_ladder j c =
     [(out_of_range (ctl_revision c) 0 (2 ^ 31 - 1), ''job control identity is invalid''),
      ((case ctl_parent c of None \<Rightarrow> False | Some i \<Rightarrow> \<not> job_id_ok i \<or> i = j_id j),
       ''restart parent identity is invalid''),
      (length (ctl_commands c) > MAX_CONTROL_COMMANDS, ''job control history exceeds its bound''),
      (ctl_revision c < int (length (ctl_commands c)),
       ''job control revision precedes its history''),
      (j_status j = Paused \<and> \<not> cooperative (j_kind j) \<and> j_kind j \<noteq> Ai_execute,
       ''executor has no cooperative paused state'')]
     @ commands_ladder [] (ctl_commands c)
     @ pending_ladder j c
     @ [(ctl_completion c \<noteq> None
           \<and> (ctl_completion c \<noteq> Some Act_cancel
              \<or> j_status j \<notin> {Queued, Retry_wait, Paused}
              \<or> ctl_commands c = [] \<or> cmd_action (last (ctl_commands c)) \<noteq> Act_cancel),
         ''immediate command completion intent is invalid''),
        (ctl_commit_started c
           \<and> (\<not> cooperative (j_kind j) \<or> j_status j \<in> {Paused, Pausing, Cancelling}),
         ''commit barrier is inconsistent'')]"

definition control_tail_ladder :: "nat \<Rightarrow> 'ctl job_record \<Rightarrow> 'child control \<Rightarrow> ladder" where
  "control_tail_ladder bytes j c =
     [((case ctl_observation c of None \<Rightarrow> False | Some b \<Rightarrow>
          \<not> cooperative (j_kind j)
        \<or> ob_unit b \<noteq> (if j_kind j = Source_reconcile then ''source_items'' else ''documents'')
        \<or> \<not> sha256_text (ob_plan_revision b)
        \<or> out_of_range (ob_attempt b) 1 (j_attempt j)
        \<or> out_of_range (ob_total b) 0 (2 ^ 63 - 1)
        \<or> out_of_range (ob_completed b) 0 (ob_total b)
        \<or> (case ob_rate b of None \<Rightarrow> False | Some q \<Rightarrow> q < 0)),
       ''job progress observation is invalid''),
      (bytes > MAX_CONTROL_RECORD_BYTES, ''controlled job exceeds its byte bound'')]"

definition job_tail_ladder :: "sched_env \<Rightarrow> 'ctl job_record \<Rightarrow> ladder" where
  "job_tail_ladder env j =
     (if controlled_schema j
      then plan_ladder env (j_kind j) (j_plan j)
           @ plan_scope_ladder (j_kind j) (j_scope j) (j_plan j)
      else [(j_kind j = Backup_verify,
             ''backup verification requires its immutable execution plan'')])
     @ [(j_kind j = Ai_execute, ''AI jobs require the governed schema 3 admission'')]"

definition child_ladder :: "sched_env \<Rightarrow> child_job \<Rightarrow> (bool \<times> sched_error) list" where
  "child_ladder env j =
     job_core_ladder j
     @ sched ((case j_control j of None \<Rightarrow> [] | Some c \<Rightarrow>
                 control_head_ladder j c
                 @ control_tail_ladder (e_size env (child_json j)) j c)
              @ job_tail_ladder env j)"

definition restart_ladder :: "sched_env \<Rightarrow> job \<Rightarrow> job_control \<Rightarrow> (bool \<times> sched_error) list" where
  "restart_ladder env j c =
     (case ctl_restart c of None \<Rightarrow> [] | Some (request, child) \<Rightarrow>
        sched [(request \<notin> set (map cmd_request (ctl_commands c))
                  \<or> (case j_control child of None \<Rightarrow> True | Some cc \<Rightarrow>
                       ctl_restart cc \<noteq> None \<or> ctl_parent cc \<noteq> Some (j_id j))
                  \<or> j_status child \<noteq> Queued \<or> j_attempt child \<noteq> 0,
                ''restart intent lineage is invalid'')]
        @ child_ladder env child
        @ sched [(\<not> (\<exists>r \<in> set (ctl_commands c). cmd_request r = request
                                                 \<and> cmd_successor r = Some (j_id child)),
                  ''restart intent lacks its command receipt'')])"

definition control_ladder :: "sched_env \<Rightarrow> job \<Rightarrow> job_control \<Rightarrow> (bool \<times> sched_error) list" where
  "control_ladder env j c =
     sched (control_head_ladder j c)
     @ restart_ladder env j c
     @ sched (control_tail_ladder (e_size env (job_json j)) j c)"

definition job_ladder :: "sched_env \<Rightarrow> job \<Rightarrow> (bool \<times> sched_error) list" where
  "job_ladder env j =
     job_core_ladder j
     @ (case j_control j of None \<Rightarrow> [] | Some c \<Rightarrow> control_ladder env j c)
     @ sched (job_tail_ladder env j)"

definition job_ok :: "sched_env \<Rightarrow> job \<Rightarrow> bool" where
  "job_ok env j \<longleftrightarrow> first_failure (job_ladder env j) = None"

definition validate_job_record :: "sched_env \<Rightarrow> job \<Rightarrow> sched_error + job" where
  "validate_job_record env j =
     (case first_failure (job_ladder env j) of Some e \<Rightarrow> Inl e | None \<Rightarrow> Inr j)"

section \<open>Receipts\<close>

definition receipt_ladder :: "receipt \<Rightarrow> ladder" where
  "receipt_ladder r =
     [(r_kind r = Ai_execute, ''scheduler receipt fields are incomplete or unsupported''),
      (\<not> receipt_id_ok (r_id r) \<or> \<not> job_id_ok (r_job_id r) \<or> \<not> policy_id_ok (r_policy_id r)
         \<or> \<not> terminal_status (r_status r),
       ''scheduler receipt identity is invalid''),
      (r_id r \<noteq> receipt_of_job (r_job_id r), ''scheduler receipt ID does not match its job''),
      (\<not> record_scope_ok (r_kind r) (r_scope r),
       ''scheduler record scope does not match its job kind''),
      (out_of_range (r_policy_revision r) 1 (2 ^ 31 - 1),
       ''policy_revision must be between 1 and 2147483647''),
      (out_of_range (r_attempts r) 0 MAX_RETRY_ATTEMPTS, ''attempts must be between 0 and 8''),
      (out_of_range (r_duration_ms r) 0 (2 ^ 63 - 1),
       ''duration_ms must be between 0 and 9223372036854775807'')]
     @ progress_ladder (r_progress r)
     @ (case r_error_code r of None \<Rightarrow> [] | Some c \<Rightarrow> error_ladder c)
     @ [(r_status r = Succeeded \<and> (r_error_class r \<noteq> None \<or> r_error_code r \<noteq> None),
         ''successful scheduler receipt cannot contain an error''),
        (r_status r \<noteq> Succeeded \<and> (r_error_class r = None \<or> r_error_code r = None),
         ''unsuccessful scheduler receipt requires a closed error''),
        (r_status r = Cancelled \<and> (r_error_class r \<noteq> Some Cancelled_class
                                   \<or> r_error_code r \<noteq> Some ''cancelled_by_user''),
         ''cancelled scheduler receipt has inconsistent error evidence''),
        (r_status r = Manual_intervention \<and> r_error_class r \<noteq> Some Manual_intervention_class,
         ''manual-intervention receipt has inconsistent error evidence''),
        (r_status r = Failed \<and> r_error_class r \<notin> {Some Transient, Some Permanent},
         ''failed scheduler receipt has inconsistent error evidence'')]"

definition receipt_ok :: "receipt \<Rightarrow> bool" where
  "receipt_ok r \<longleftrightarrow> first_failure (receipt_ladder r) = None"

definition validate_receipt_record :: "receipt \<Rightarrow> sched_error + receipt" where
  "validate_receipt_record r =
     (case first_failure (receipt_ladder r) of
        Some m \<Rightarrow> Inl (Scheduler_error m) | None \<Rightarrow> Inr r)"

datatype record_family = Policy_record | Job_record | Receipt_record

fun record_identifier :: "string \<Rightarrow> record_family \<Rightarrow> bool" where
  "record_identifier v Policy_record = policy_id_ok v"
| "record_identifier v Job_record = job_id_ok v"
| "record_identifier v Receipt_record = receipt_id_ok v"

section \<open>What a valid record guarantees\<close>

lemma first_failure_sched [simp]: "first_failure (sched cs) = None \<longleftrightarrow> first_failure cs = None"
  by (induction cs) (auto simp: sched_def)

lemma validate_job_Inr: "validate_job_record env j = Inr k \<longleftrightarrow> k = j \<and> job_ok env j"
  by (auto simp: validate_job_record_def job_ok_def split: option.splits)

lemma job_ok_valid [simp]: "job_ok env j \<Longrightarrow> validate_job_record env j = Inr j"
  by (simp add: validate_job_Inr)

lemma validate_job_cases:
  "(validate_job_record env j = Inr j \<and> job_ok env j)
   \<or> (\<exists>e. validate_job_record env j = Inl e \<and> \<not> job_ok env j)"
  by (auto simp: validate_job_record_def job_ok_def split: option.splits)

lemma validate_receipt_Inr: "validate_receipt_record r = Inr r' \<longleftrightarrow> r' = r \<and> receipt_ok r"
  by (auto simp: validate_receipt_record_def receipt_ok_def split: option.splits)

lemma receipt_ok_valid [simp]: "receipt_ok r \<Longrightarrow> validate_receipt_record r = Inr r"
  by (simp add: validate_receipt_Inr)

lemma validate_receipt_cases:
  "(validate_receipt_record r = Inr r \<and> receipt_ok r)
   \<or> (\<exists>e. validate_receipt_record r = Inl e \<and> \<not> receipt_ok r)"
  by (auto simp: validate_receipt_record_def receipt_ok_def split: option.splits)

lemma job_ok_core: "job_ok env j \<Longrightarrow> first_failure (job_core_ladder j) = None"
  by (simp add: job_ok_def job_ladder_def)

lemma control_of_ok: "job_ok env j \<Longrightarrow> j_control j = Some c \<Longrightarrow> first_failure (control_ladder env j c) = None"
  by (simp add: job_ok_def job_ladder_def)

lemma attempt_rows_None:
  "first_failure (concat (map (\<lambda>(n, a). attempt_ladder b n a) (enumerate m as))) = None \<longleftrightarrow>
   (\<forall>i < length as. first_failure (attempt_ladder b (m + i) (as ! i)) = None)"
proof (induction as arbitrary: m)
  case Nil
  then show ?case by simp
next
  case (Cons a as)
  have "(\<forall>i < length (a # as). first_failure (attempt_ladder b (m + i) ((a # as) ! i)) = None) \<longleftrightarrow>
        first_failure (attempt_ladder b m a) = None
        \<and> (\<forall>i < length as. first_failure (attempt_ladder b (Suc m + i) (as ! i)) = None)"
    by (auto simp: less_Suc_eq_0_disj)
  with Cons [of "Suc m"] show ?case by simp
qed

lemma job_ok_history:
  "job_ok env j \<Longrightarrow> first_failure (history_ladder (controlled_schema j) j) = None"
  by (drule job_ok_core) (simp add: job_core_ladder_def Let_def)

lemma job_ok_attempt:
  assumes "job_ok env j" and "i < length (j_attempts j)"
  shows "first_failure (attempt_ladder (controlled_schema j) (Suc i) (j_attempts j ! i)) = None"
proof -
  from job_ok_history [OF assms(1)]
  have "first_failure (concat (map (\<lambda>(n, a). attempt_ladder (controlled_schema j) n a)
          (enumerate 1 (j_attempts j)))) = None"
    by (simp add: history_ladder_def Let_def del: enumerate_simps)
  with assms(2) show ?thesis unfolding attempt_rows_None by simp
qed

lemma job_ok_ids:
  assumes "job_ok env j"
  shows "job_id_ok (j_id j)" and "policy_id_ok (j_policy_id j)" and "sha256_text (j_key j)"
    and "record_scope_ok (j_kind j) (j_scope j)"
  using job_ok_core [OF assms] by (auto simp: job_core_ladder_def Let_def sched_def split: if_splits)

lemma job_ok_lease:
  assumes "job_ok env j"
  shows "j_lease j \<noteq> None \<longleftrightarrow> active_status (j_status j)"
  using job_ok_core [OF assms]
  by (auto simp: job_core_ladder_def lease_ladder_def Let_def split: if_splits)

lemma job_ok_retry_instant:
  assumes "job_ok env j"
  shows "j_retry_not_before j \<noteq> None \<longleftrightarrow> j_status j = Retry_wait"
  using job_ok_core [OF assms] by (auto simp: job_core_ladder_def Let_def split: if_splits)

lemma job_ok_receipt_ref:
  assumes "job_ok env j"
  shows "j_receipt_ref j = (if terminal_status (j_status j)
           then Some (receipt_ref_of (receipt_of_job (j_id j))) else None)"
  using job_ok_core [OF assms]
  by (auto simp: job_core_ladder_def receipt_ref_ladder_def Let_def split: if_splits)

lemma job_ok_attempts:
  assumes "job_ok env j"
  shows "int (length (j_attempts j)) = j_attempt j" and "0 \<le> j_attempt j" and "j_attempt j \<le> 8"
  using job_ok_history [OF assms]
  by (auto simp: history_ladder_def Let_def MAX_RETRY_ATTEMPTS_def sched_def split: if_splits)

lemma job_ok_retry: "job_ok env j \<Longrightarrow> normalise_retry (j_retry j) = Inr (j_retry j)"
  by (drule job_ok_core) (simp add: job_core_ladder_def normalise_retry_def Let_def)

lemma job_ok_running:
  assumes "job_ok env j"
  shows "active_status (j_status j) \<longleftrightarrow>
           (j_attempts j \<noteq> [] \<and> a_outcome (last (j_attempts j)) = Attempt_running)"
  using job_ok_history [OF assms]
  by (auto simp: history_ladder_def Let_def sched_def split: if_splits)

lemma job_ok_progress: "job_ok env j \<Longrightarrow> first_failure (progress_ladder (j_progress j)) = None"
  by (drule job_ok_core) (simp add: job_core_ladder_def Let_def)

lemma job_ok_attempt_number:
  assumes "job_ok env j" and "i < length (j_attempts j)"
  shows "a_number (j_attempts j ! i) = int i + 1"
  using job_ok_attempt [OF assms] by (simp add: attempt_ladder_def split: if_splits)

lemma receipt_ok_id: "receipt_ok r \<Longrightarrow> r_id r = receipt_of_job (r_job_id r)"
  by (simp add: receipt_ok_def receipt_ladder_def)

lemma receipt_ok_ids: "receipt_ok r \<Longrightarrow> receipt_id_ok (r_id r) \<and> job_id_ok (r_job_id r)"
  by (auto simp add: receipt_ok_def receipt_ladder_def)

lemma policy_ladder_stripped:
  "first_failure (policy_ladder env p) = None \<Longrightarrow>
   first_failure (policy_ladder env (p\<lparr>p_schedule := stripped_schedule (p_schedule p)\<rparr>)) = None"
  using ladder_of_stripped [of "e_zones env" "p_schedule p"]
  by (auto simp: policy_ladder_def stripped_schedule_def)

lemma validate_policy_idem:
  "validate_policy_record env p = Inr q \<Longrightarrow> validate_policy_record env q = Inr q"
  using policy_ladder_stripped [of env p]
  by (auto simp: validate_policy_record_def stripped_schedule_def split: option.splits)

end
