(* ===== verification/Scheduler_Journal.thy ===== *)
theory Scheduler_Journal
  imports Scheduler_Records
begin

text \<open>
  The store of the scheduler and the transactions on it (core/provelume/scheduler.py, class
  SchedulerStore, apart from recovery, evaluation and claiming, which are in
  Scheduler_Recovery): one file per policy, job and receipt, every read and write validated,
  a receipt written once, and the life of a leased job. \<open>hold\<close> is the writer lock;
  a method that could not take it has no effect, so each operation below is one transaction.
\<close>

section \<open>The store\<close>

record store =
  st_present :: bool
  st_policies :: "(string \<times> policy) list"
  st_jobs :: "(string \<times> job) list"
  st_receipts :: "(string \<times> receipt) list"

type_synonym 'a sched_act = "(store, sched_error, 'a) act"

definition empty_store :: store where
  "empty_store = \<lparr>st_present = False, st_policies = [], st_jobs = [], st_receipts = []\<rparr>"

definition put_policy :: "policy \<Rightarrow> store \<Rightarrow> store" where
  "put_policy p s = s\<lparr>st_policies := alist_put p_id p (st_policies s)\<rparr>"

definition put_job :: "job \<Rightarrow> store \<Rightarrow> store" where
  "put_job j s = s\<lparr>st_jobs := alist_put j_id j (st_jobs s)\<rparr>"

definition put_receipt :: "receipt \<Rightarrow> store \<Rightarrow> store" where
  "put_receipt r s = s\<lparr>st_receipts := alist_put r_id r (st_receipts s)\<rparr>"

definition look_policy :: "store \<Rightarrow> string \<Rightarrow> policy option" where
  "look_policy s i = map_of (st_policies s) i"

definition look_job :: "store \<Rightarrow> string \<Rightarrow> job option" where
  "look_job s i = map_of (st_jobs s) i"

definition look_receipt :: "store \<Rightarrow> string \<Rightarrow> receipt option" where
  "look_receipt s i = map_of (st_receipts s) i"

definition hold :: "unit sched_act" where
  "hold = modify (\<lambda>s. s\<lparr>st_present := True\<rparr>)"

definition write_policy :: "sched_env \<Rightarrow> policy \<Rightarrow> policy sched_act" where
  "write_policy env v =
     bindA (of_result (validate_policy_record env v)) (\<lambda>p.
     seqA (modify (put_policy p)) (ret p))"

definition write_job :: "sched_env \<Rightarrow> job \<Rightarrow> job sched_act" where
  "write_job env v =
     bindA (of_result (validate_job_record env v)) (\<lambda>j.
     seqA (modify (put_job j)) (ret j))"

definition write_receipt_once :: "receipt \<Rightarrow> receipt sched_act" where
  "write_receipt_once v =
     bindA (of_result (validate_receipt_record v)) (\<lambda>r.
     bindA (reads (\<lambda>s. look_receipt s (r_id r))) (\<lambda>existing.
       case existing of
         Some current \<Rightarrow>
           seqA (require (current = r) (Conflict_error ''terminal job receipt is immutable''))
             (ret r)
       | None \<Rightarrow> seqA (modify (put_receipt r)) (ret r)))"

section \<open>Reading\<close>

definition get_policy :: "sched_env \<Rightarrow> string \<Rightarrow> policy option sched_act" where
  "get_policy env i = query (\<lambda>s.
     if \<not> record_identifier i Policy_record then Inr None
     else case look_policy s i of
            None \<Rightarrow> Inr None
          | Some p \<Rightarrow> (case validate_policy_record env p of Inl e \<Rightarrow> Inl e | Inr q \<Rightarrow> Inr (Some q)))"

definition get_job :: "sched_env \<Rightarrow> string \<Rightarrow> job option sched_act" where
  "get_job env i = query (\<lambda>s.
     if \<not> record_identifier i Job_record then Inr None
     else case look_job s i of
            None \<Rightarrow> Inr None
          | Some j \<Rightarrow> (case validate_job_record env j of Inl e \<Rightarrow> Inl e | Inr k \<Rightarrow> Inr (Some k)))"

definition get_receipt :: "string \<Rightarrow> receipt option sched_act" where
  "get_receipt i = query (\<lambda>s.
     if \<not> record_identifier i Receipt_record then Inr None
     else case look_receipt s i of
            None \<Rightarrow> Inr None
          | Some r \<Rightarrow> (case validate_receipt_record r of Inl e \<Rightarrow> Inl e | Inr q \<Rightarrow> Inr (Some q)))"

definition list_policies :: "sched_env \<Rightarrow> policy list sched_act" where
  "list_policies env = query (\<lambda>s.
     case collect (\<lambda>kv. validate_policy_record env (snd kv)) (st_policies s) of
       Inl e \<Rightarrow> Inl e
     | Inr ps \<Rightarrow> Inr (sort_key (\<lambda>p. (p_created_at p, p_id p)) ps))"

definition all_jobs :: "sched_env \<Rightarrow> job list sched_act" where
  "all_jobs env = query (\<lambda>s. collect (\<lambda>kv. validate_job_record env (snd kv)) (st_jobs s))"

definition list_jobs ::
  "sched_env \<Rightarrow> job_status option \<Rightarrow> string option \<Rightarrow> int \<Rightarrow> job list sched_act" where
  "list_jobs env status pid limit =
     (if limit < 1 then ret []
      else bindA (all_jobs env) (\<lambda>js.
        ret (take (nat (min limit 500))
          (rev (sort_key (\<lambda>j. (j_created_at j, j_id j))
             (rev (filter (\<lambda>j. (case status of None \<Rightarrow> True | Some st \<Rightarrow> j_status j = st)
                             \<and> (case pid of None \<Rightarrow> True | Some p \<Rightarrow> j_policy_id j = p)) js)))))))"

definition all_receipts :: "receipt list sched_act" where
  "all_receipts = query (\<lambda>s. collect (\<lambda>kv. validate_receipt_record (snd kv)) (st_receipts s))"

definition list_receipts :: "int \<Rightarrow> receipt list sched_act" where
  "list_receipts limit =
     (if limit < 1 then ret []
      else bindA all_receipts (\<lambda>rs.
        ret (take (nat (min limit 500))
          (rev (sort_key (\<lambda>r. (r_completed_at r, r_id r)) (rev rs))))))"

definition found_job :: "sched_env \<Rightarrow> string \<Rightarrow> job sched_act" where
  "found_job env i =
     bindA (get_job env i) (\<lambda>x. case x of
         None \<Rightarrow> raise (Not_found_error ''scheduler job not found'')
       | Some j \<Rightarrow> ret j)"

definition found_policy :: "sched_env \<Rightarrow> string \<Rightarrow> policy sched_act" where
  "found_policy env i =
     bindA (get_policy env i) (\<lambda>x. case x of
         None \<Rightarrow> raise (Not_found_error ''scheduler policy not found'')
       | Some p \<Rightarrow> ret p)"

section \<open>Policies\<close>

definition occurrence :: "sched_env \<Rightarrow> string \<Rightarrow> int \<Rightarrow> schedule \<Rightarrow> instant \<Rightarrow> sched_error + instant" where
  "occurrence env pid rvn s nominal = eligible_instant (e_zones env) (e_seed env) nominal pid rvn s"

text \<open>The next nominal and due instants of an enabled policy, or none.\<close>

definition next_occurrence ::
  "sched_env \<Rightarrow> string \<Rightarrow> int \<Rightarrow> policy_state \<Rightarrow> schedule \<Rightarrow> instant
   \<Rightarrow> (instant \<times> instant) option sched_act" where
  "next_occurrence env pid rvn state s now =
     (if state \<noteq> Policy_enabled then ret None
      else bindA (of_result (next_nominal_after (e_zones env) now s)) (\<lambda>nominal.
        case nominal of
          None \<Rightarrow> ret None
        | Some n \<Rightarrow> bindA (of_result (occurrence env pid rvn s n)) (\<lambda>due. ret (Some (n, due)))))"

definition create_policy ::
  "sched_env \<Rightarrow> string \<Rightarrow> job_kind \<Rightarrow> scope \<Rightarrow> policy_state \<Rightarrow> schedule \<Rightarrow> retry_bound option
   \<Rightarrow> instant \<Rightarrow> policy sched_act" where
  "create_policy env hex k scope state schedule retry now =
     bindA (of_result (normalise_schedule (e_zones env) schedule)) (\<lambda>s.
     bindA (of_result (normalise_retry (case retry of None \<Rightarrow> default_retry | Some r \<Rightarrow> r))) (\<lambda>r.
     bindA (of_result (normalise_scope env k scope)) (\<lambda>sc.
     let pid = ''policy_'' @ hex in
     bindA (next_occurrence env pid 1 state s now) (\<lambda>occ.
     seqA hold
       (write_policy env
          \<lparr>p_id = pid, p_revision = 1, p_kind = k, p_scope = sc, p_state = state, p_schedule = s,
           p_retry = r, p_created_at = now, p_updated_at = now, p_last_evaluated_at = None,
           p_next_nominal_at = map_option fst occ, p_next_due_at = map_option snd occ\<rparr>)))))"

definition update_policy ::
  "sched_env \<Rightarrow> string \<Rightarrow> policy_state option \<Rightarrow> schedule option \<Rightarrow> retry_bound option \<Rightarrow> instant
   \<Rightarrow> policy sched_act" where
  "update_policy env pid state schedule retry now =
     seqA hold
     (bindA (found_policy env pid) (\<lambda>cur.
      let st = (case state of None \<Rightarrow> p_state cur | Some x \<Rightarrow> x) in
      bindA (of_result (normalise_schedule (e_zones env)
               (case schedule of None \<Rightarrow> p_schedule cur | Some x \<Rightarrow> x))) (\<lambda>s.
      bindA (of_result (normalise_retry (case retry of None \<Rightarrow> p_retry cur | Some x \<Rightarrow> x))) (\<lambda>r.
      bindA (next_occurrence env pid (p_revision cur + 1) st s now) (\<lambda>occ.
        write_policy env
          (cur\<lparr>p_revision := p_revision cur + 1, p_state := st, p_schedule := s, p_retry := r,
               p_updated_at := now, p_last_evaluated_at := None,
               p_next_nominal_at := map_option fst occ, p_next_due_at := map_option snd occ\<rparr>))))))"

section \<open>Creating jobs\<close>

definition no_progress :: progress where
  "no_progress = \<lparr>processed = 0, skipped = 0, errors = 0\<rparr>"

definition no_checkpoint :: checkpoint where
  "no_checkpoint = \<lparr>c_sequence = 0, c_phase = Phase_none, c_committed_at = None\<rparr>"

definition queued_job ::
  "string \<Rightarrow> policy \<Rightarrow> run_reason \<Rightarrow> instant \<Rightarrow> instant \<Rightarrow> string \<Rightarrow> instant \<Rightarrow> json option \<Rightarrow> job" where
  "queued_job hex p reason nominal eligible key now plan =
     (let j = \<lparr>j_schema = 1, j_id = ''job_'' @ hex, j_policy_id = p_id p,
               j_policy_revision = p_revision p, j_kind = p_kind p, j_scope = p_scope p,
               j_key = key, j_reason = reason, j_scheduled_for = nominal,
               j_eligible_at = eligible, j_created_at = now, j_updated_at = now,
               j_status = Queued, j_attempt = 0, j_retry = p_retry p, j_retry_not_before = None,
               j_lease = None, j_checkpoint = no_checkpoint, j_progress = no_progress,
               j_recovery_state = Recovery_none, j_recovery_count = 0, j_attempts = [],
               j_receipt_ref = None, j_control = None, j_plan = None\<rparr>
      in case plan of None \<Rightarrow> j | Some v \<Rightarrow> (promote j)\<lparr>j_plan := Some v\<rparr>)"

definition new_job ::
  "sched_env \<Rightarrow> string \<Rightarrow> policy \<Rightarrow> run_reason \<Rightarrow> instant \<Rightarrow> instant \<Rightarrow> string \<Rightarrow> instant \<Rightarrow> json option
   \<Rightarrow> (job \<times> bool) sched_act" where
  "new_job env hex p reason nominal eligible key now plan =
     bindA (all_jobs env) (\<lambda>js.
       case find (\<lambda>j. j_key j = key) js of
         Some existing \<Rightarrow>
           seqA (require (j_plan existing = plan)
                   (Conflict_error ''manual request reused with a different execution plan''))
             (ret (existing, False))
       | None \<Rightarrow>
           bindA (write_job env (queued_job hex p reason nominal eligible key now plan)) (\<lambda>j.
             ret (j, True)))"

fun join :: "string \<Rightarrow> string list \<Rightarrow> string" where
  "join sep [] = []"
| "join sep [x] = x"
| "join sep (x # y # r) = x @ sep @ join sep (y # r)"

definition idempotency_digest :: "sched_env \<Rightarrow> string list \<Rightarrow> sched_error + string" where
  "idempotency_digest env parts =
     (if parts = [] \<or> [] \<in> set parts
      then Inl (Scheduler_error ''idempotency identity is incomplete'')
      else Inr (e_digest_text env (join [char_of (31 :: nat)] parts)))"

fun nat_text :: "nat \<Rightarrow> string" where
  "nat_text n = (if n < 10 then [char_of (48 + n)] else nat_text (n div 10) @ [char_of (48 + n mod 10)])"

declare nat_text.simps [simp del]

definition int_text :: "int \<Rightarrow> string" where
  "int_text n = (if n < 0 then ''-'' @ nat_text (nat (- n)) else nat_text (nat n))"

definition run_now ::
  "sched_env \<Rightarrow> string \<Rightarrow> string \<Rightarrow> string \<Rightarrow> string option \<Rightarrow> instant \<Rightarrow> json option
   \<Rightarrow> (job \<times> bool) sched_act" where
  "run_now env hex hex2 pid request_key now plan =
     seqA hold
     (bindA (found_policy env pid) (\<lambda>p.
      let identity = (case request_key of None \<Rightarrow> hex2 | Some k \<Rightarrow> strip k) in
      seqA (require (identity \<noteq> [] \<and> length identity \<le> 200)
              (Scheduler_error ''manual idempotency key is invalid''))
      (bindA (of_result (idempotency_digest env
                [''manual'', p_id p, int_text (p_revision p), identity])) (\<lambda>key.
       new_job env hex p Reason_manual now now key now plan))))"

section \<open>A leased job\<close>

definition DEFAULT_LEASE_SECONDS :: int where "DEFAULT_LEASE_SECONDS = 120"

definition require_lease_seconds :: "int \<Rightarrow> unit sched_act" where
  "require_lease_seconds n =
     require (\<not> out_of_range n 1 MAX_LEASE_SECONDS)
       (Scheduler_error ''lease duration is outside the supported range'')"

definition owned :: "job \<Rightarrow> string \<Rightarrow> instant \<Rightarrow> unit sched_act" where
  "owned j token now =
     (case j_lease j of
        None \<Rightarrow> raise (Lease_error ''job lease is not owned by this worker'')
      | Some l \<Rightarrow>
          seqA (require (active_status (j_status j) \<and> l_token l = token)
                  (Lease_error ''job lease is not owned by this worker''))
               (require (now < l_expires_at l)
                  (Lease_error ''job lease expired before this mutation'')))"

definition require_progress :: "progress \<Rightarrow> unit sched_act" where
  "require_progress p =
     (case first_failure (progress_ladder p) of
        Some m \<Rightarrow> raise (Scheduler_error m) | None \<Rightarrow> ret ())"

definition require_error :: "string \<Rightarrow> unit sched_act" where
  "require_error c =
     require (c \<in> set ERROR_CODES) (Scheduler_error ''invalid error code'')"

definition heartbeat :: "sched_env \<Rightarrow> string \<Rightarrow> string \<Rightarrow> int \<Rightarrow> instant \<Rightarrow> job sched_act" where
  "heartbeat env i token seconds now =
     seqA (require_lease_seconds seconds)
     (seqA hold
     (bindA (found_job env i) (\<lambda>j.
      seqA (owned j token now)
        (write_job env
           (j\<lparr>j_lease := map_option (\<lambda>l. l\<lparr>l_heartbeat_at := now,
                                            l_expires_at := now + seconds * SECOND\<rparr>) (j_lease j),
              j_updated_at := now\<rparr>)))))"

definition progress_back :: "progress \<Rightarrow> progress \<Rightarrow> bool" where
  "progress_back new old \<longleftrightarrow>
     processed new < processed old \<or> skipped new < skipped old \<or> errors new < errors old"

definition checkpoint_job ::
  "sched_env \<Rightarrow> string \<Rightarrow> string \<Rightarrow> int \<Rightarrow> checkpoint_phase \<Rightarrow> progress \<Rightarrow> instant \<Rightarrow> job sched_act" where
  "checkpoint_job env i token sequence phase p now =
     seqA (require_progress p)
     (seqA (require (phase \<noteq> Phase_none) (Scheduler_error ''unsupported checkpoint phase''))
     (seqA hold
     (bindA (found_job env i) (\<lambda>j.
      seqA (owned j token now)
      (seqA (require (sequence = c_sequence (j_checkpoint j) + 1)
               (Conflict_error ''checkpoint sequence must advance by exactly one''))
      (seqA (require (\<not> progress_back p (j_progress j))
               (Conflict_error ''checkpoint progress cannot move backward''))
        (write_job env
           (j\<lparr>j_checkpoint := \<lparr>c_sequence = sequence, c_phase = phase, c_committed_at = Some now\<rparr>,
              j_progress := p, j_updated_at := now\<rparr>))))))))"

text \<open>
  The elapsed time of the completed attempts in milliseconds. Python computes it in binary64:
  the microseconds divided by a million, times a thousand, truncated.
\<close>

definition float_ms :: "int \<Rightarrow> int" where
  "float_ms e = (let (n, d) = round_double e 1000000; (n', d') = round_double (n * 1000) d
                 in n' div d')"

definition attempt_duration_ms :: "attempt list \<Rightarrow> int" where
  "attempt_duration_ms as =
     (\<Sum>a\<leftarrow>as. case a_completed_at a of None \<Rightarrow> 0
                | Some c \<Rightarrow> max 0 (float_ms (c - a_started_at a)))"

definition close_attempt ::
  "attempt_outcome \<Rightarrow> instant \<Rightarrow> error_class option \<Rightarrow> string option \<Rightarrow> attempt list \<Rightarrow> attempt list" where
  "close_attempt outcome now cls code as =
     (if as \<noteq> [] \<and> a_outcome (last as) = Attempt_running
      then butlast as @ [(last as)\<lparr>a_completed_at := Some now, a_outcome := outcome,
                                   a_error_class := cls, a_error_code := code\<rparr>]
      else as)"

definition clear_intents :: "job \<Rightarrow> job" where
  "clear_intents j =
     j\<lparr>j_control := map_option (\<lambda>c. c\<lparr>ctl_pending := None, ctl_completion := None\<rparr>) (j_control j)\<rparr>"

definition terminal_receipt ::
  "job \<Rightarrow> job_status \<Rightarrow> instant \<Rightarrow> progress \<Rightarrow> error_class option \<Rightarrow> string option \<Rightarrow> bool \<Rightarrow> bool
   \<Rightarrow> attempt list \<Rightarrow> receipt" where
  "terminal_receipt j status now p cls code network mutation as =
     \<lparr>r_id = receipt_of_job (j_id j), r_job_id = j_id j, r_policy_id = j_policy_id j,
      r_policy_revision = j_policy_revision j, r_kind = j_kind j, r_scope = j_scope j,
      r_status = status, r_attempts = j_attempt j, r_duration_ms = attempt_duration_ms as,
      r_completed_at = now, r_progress = p, r_error_class = cls, r_error_code = code,
      r_network_used = network, r_canonical_mutation = mutation\<rparr>"

definition finish_outcome :: "job_status \<Rightarrow> attempt_outcome" where
  "finish_outcome status = (if status = Succeeded then Attempt_succeeded else Attempt_failed)"

definition used_network :: "job \<Rightarrow> bool \<Rightarrow> bool" where
  "used_network j network =
     (network \<or> (case j_control j of None \<Rightarrow> False | Some c \<Rightarrow> ctl_network_used c))"

definition finished_job ::
  "job \<Rightarrow> job_status \<Rightarrow> instant \<Rightarrow> progress \<Rightarrow> attempt list \<Rightarrow> receipt \<Rightarrow> job" where
  "finished_job j status now p as r =
     (clear_intents j)\<lparr>j_status := status, j_updated_at := now, j_retry_not_before := None,
        j_lease := None, j_progress := p, j_attempts := as,
        j_receipt_ref := Some (receipt_ref_of (r_id r))\<rparr>"

definition finish_locked ::
  "sched_env \<Rightarrow> job \<Rightarrow> job_status \<Rightarrow> instant \<Rightarrow> progress \<Rightarrow> error_class option \<Rightarrow> string option
   \<Rightarrow> bool \<Rightarrow> bool \<Rightarrow> job sched_act" where
  "finish_locked env j status now p cls code network mutation =
     seqA (require (terminal_status status)
             (Scheduler_error ''job must finish with a terminal status''))
     (seqA (case code of None \<Rightarrow> ret () | Some c \<Rightarrow> require_error c)
     (seqA (require_progress p)
     (let as = close_attempt (finish_outcome status) now cls code (j_attempts j) in
      bindA (write_receipt_once
               (terminal_receipt j status now p cls code (used_network j network) mutation as))
        (\<lambda>r. write_job env (finished_job j status now p as r)))))"

definition succeed ::
  "sched_env \<Rightarrow> string \<Rightarrow> string \<Rightarrow> progress \<Rightarrow> bool \<Rightarrow> bool \<Rightarrow> instant \<Rightarrow> job sched_act" where
  "succeed env i token p network mutation now =
     seqA hold
     (bindA (found_job env i) (\<lambda>j.
      seqA (owned j token now)
        (finish_locked env j Succeeded now p None None network mutation)))"

definition retry_available :: "job \<Rightarrow> error_class \<Rightarrow> bool" where
  "retry_available j cls \<longleftrightarrow> cls = Transient \<and> j_attempt j < max_attempts (j_retry j)"

fun failure_status :: "error_class \<Rightarrow> job_status" where
  "failure_status Manual_intervention_class = Manual_intervention"
| "failure_status Cancelled_class = Cancelled"
| "failure_status _ = Failed"

definition fail ::
  "sched_env \<Rightarrow> string \<Rightarrow> string \<Rightarrow> error_class \<Rightarrow> string \<Rightarrow> progress \<Rightarrow> bool \<Rightarrow> bool \<Rightarrow> instant
   \<Rightarrow> job sched_act" where
  "fail env i token cls code p network mutation now =
     seqA (require_error code)
     (seqA (require_progress p)
     (seqA hold
     (bindA (found_job env i) (\<lambda>j.
      seqA (owned j token now)
      (let again = retry_available j cls;
           as = close_attempt (if again then Attempt_retry else Attempt_failed) now
                  (Some cls) (Some code) (j_attempts j)
       in if again
          then bindA (of_result (retry_delay_seconds (j_retry j) (j_attempt j))) (\<lambda>delay.
                 write_job env
                   (j\<lparr>j_status := Retry_wait, j_updated_at := now,
                      j_retry_not_before := Some (now + delay * SECOND), j_lease := None,
                      j_progress := p, j_attempts := as\<rparr>))
          else finish_locked env (j\<lparr>j_attempts := as, j_lease := None\<rparr>) (failure_status cls) now p
                 (Some cls) (Some code) network mutation)))))"

definition cancel :: "sched_env \<Rightarrow> string \<Rightarrow> instant \<Rightarrow> job sched_act" where
  "cancel env i now =
     seqA hold
     (bindA (found_job env i) (\<lambda>j.
      if terminal_status (j_status j) then ret j
      else seqA (require (\<not> active_status (j_status j))
                   (Conflict_error ''a running job must stop cooperatively''))
             (finish_locked env j Cancelled now (j_progress j) (Some Cancelled_class)
                (Some ''cancelled_by_user'') False False)))"

section \<open>What a reader sees\<close>

definition receipt_matches_job :: "receipt \<Rightarrow> job \<Rightarrow> bool" where
  "receipt_matches_job r j \<longleftrightarrow>
     r_job_id r = j_id j \<and> r_policy_id r = j_policy_id j \<and> r_policy_revision r = j_policy_revision j
     \<and> r_kind r = j_kind j \<and> r_scope r = j_scope j \<and> r_attempts r = j_attempt j"

definition receipt_matches_terminal_job :: "receipt \<Rightarrow> job \<Rightarrow> bool" where
  "receipt_matches_terminal_job r j \<longleftrightarrow>
     receipt_matches_job r j \<and> r_status r = j_status j \<and> r_progress r = j_progress j
     \<and> r_completed_at r = j_updated_at j \<and> r_duration_ms r = attempt_duration_ms (j_attempts j)
     \<and> (if j_attempts j = [] then j_attempt j = 0 \<and> r_status r = Cancelled
        else let final = last (j_attempts j) in
             (r_status r = Cancelled \<and> a_outcome final \<in> {Attempt_retry, Attempt_paused})
           \<or> (a_completed_at final = Some (r_completed_at r)
              \<and> a_error_class final = r_error_class r \<and> a_error_code final = r_error_code r))"

text \<open>The public form of a job: the token of its lease is replaced by a fact.\<close>

datatype 'ctl public_job = Public_job "'ctl job_record" bool

definition public_job_record :: "'ctl job_record \<Rightarrow> 'ctl public_job" where
  "public_job_record j =
     Public_job (j\<lparr>j_lease := map_option (\<lambda>l. l\<lparr>l_token := []\<rparr>) (j_lease j)\<rparr>) (j_lease j \<noteq> None)"

record status_summary =
  sum_policies :: nat
  sum_policy_states :: "policy_state \<Rightarrow> nat"
  sum_jobs :: nat
  sum_job_states :: "job_status \<Rightarrow> nat"
  sum_receipts :: nat
  sum_next_due :: "instant option"

definition scheduler_status :: "sched_env \<Rightarrow> status_summary sched_act" where
  "scheduler_status env =
     bindA (list_policies env) (\<lambda>ps.
     bindA (all_jobs env) (\<lambda>js.
     bindA all_receipts (\<lambda>rs.
       let due = sort (concat (map (\<lambda>p. case p_next_due_at p of None \<Rightarrow> []
                         | Some d \<Rightarrow> if p_state p = Policy_enabled then [d] else []) ps))
       in ret \<lparr>sum_policies = length ps,
               sum_policy_states = (\<lambda>st. length (filter (\<lambda>p. p_state p = st) ps)),
               sum_jobs = length js,
               sum_job_states = (\<lambda>st. length (filter (\<lambda>j. j_status j = st) js)),
               sum_receipts = length rs,
               sum_next_due = (if due = [] then None else Some (hd due))\<rparr>)))"

end
