(* ===== verification/Scheduler_Contract.thy ===== *)
theory Scheduler_Contract
  imports Scheduler_Journal
begin

text \<open>
  The contract of the scheduler's store. A relation between the store before and after is
  respected by every transaction as soon as it is respected by the few ways in which the store
  is changed: writing a job that advances the stored one, writing a policy, and finishing a
  job. The transactions are proved against that interface once; it is interpreted by the
  safety of the records and by the agreement of terminal jobs with their receipts.
\<close>

section \<open>The contract of the store\<close>

interpretation job_dir: record_directory look_job put_job j_id
  by unfold_locales (simp add: look_job_def put_job_def map_of_alist_put)

interpretation receipt_dir: record_directory look_receipt put_receipt r_id
  by unfold_locales (simp add: look_receipt_def put_receipt_def map_of_alist_put)

interpretation policy_dir: record_directory look_policy put_policy p_id
  by unfold_locales (simp add: look_policy_def put_policy_def map_of_alist_put)

definition policy_ok :: "sched_env \<Rightarrow> policy \<Rightarrow> bool" where
  "policy_ok env p \<longleftrightarrow> validate_policy_record env p = Inr p"

text \<open>
  A store whose files are keyed by their records' ids and all pass validation, and where what
  the validation does not say holds too: only the last attempt of a job can be running, each
  recovery closed an attempt of its own, a restart child was never recovered, and a pending
  intent leaves room for the revision that its execution adds.
\<close>

definition earlier_closed :: "attempt list \<Rightarrow> bool" where
  "earlier_closed as \<longleftrightarrow> list_all (\<lambda>a. a_outcome a \<noteq> Attempt_running) (butlast as)"

definition recoveries_bounded :: "job \<Rightarrow> bool" where
  "recoveries_bounded j \<longleftrightarrow>
     j_recovery_count j + (if active_status (j_status j) then 1 else 0) \<le> int (length (j_attempts j))"

definition fresh_child :: "job \<Rightarrow> bool" where
  "fresh_child j \<longleftrightarrow> (case j_control j of None \<Rightarrow> True | Some c \<Rightarrow>
     (case ctl_restart c of None \<Rightarrow> True | Some (q, k) \<Rightarrow> j_recovery_count k = 0))"

definition pending_room :: "job \<Rightarrow> bool" where
  "pending_room j \<longleftrightarrow> (case j_control j of None \<Rightarrow> True | Some c \<Rightarrow>
     ctl_pending c \<noteq> None \<longrightarrow> ctl_revision c < 2 ^ 31 - 1)"

definition attempts_bounded :: "job \<Rightarrow> bool" where
  "attempts_bounded j \<longleftrightarrow> (0 < j_attempt j \<longrightarrow> j_attempt j \<le> max_attempts (j_retry j))"

definition bookkeeping_ok :: "job \<Rightarrow> bool" where
  "bookkeeping_ok j \<longleftrightarrow>
     recoveries_bounded j \<and> fresh_child j \<and> pending_room j \<and> attempts_bounded j"

lemmas bookkeeping_defs = bookkeeping_ok_def recoveries_bounded_def fresh_child_def pending_room_def
  attempts_bounded_def

definition job_sound :: "sched_env \<Rightarrow> job \<Rightarrow> bool" where
  "job_sound env j \<longleftrightarrow> job_ok env j \<and> earlier_closed (j_attempts j) \<and> bookkeeping_ok j"

definition store_ok :: "sched_env \<Rightarrow> store \<Rightarrow> bool" where
  "store_ok env s \<longleftrightarrow>
     distinct (map fst (st_jobs s)) \<and> distinct (map fst (st_receipts s))
   \<and> distinct (map fst (st_policies s))
   \<and> job_dir.keyed s \<and> job_dir.all_records (job_sound env) s
   \<and> receipt_dir.keyed s \<and> receipt_dir.all_records receipt_ok s
   \<and> policy_dir.keyed s \<and> policy_dir.all_records (policy_ok env) s"

text \<open>
  What a job's record may become: the fields of its admission are frozen, attempts are only
  appended and a closed one never changes, the checkpoint sequence and the recovery count
  never go back, and a terminal record stays as it is except for its control (and its schema
  version, which rises when the control is added).
\<close>

definition history_extends :: "attempt list \<Rightarrow> attempt list \<Rightarrow> bool" where
  "history_extends as bs \<longleftrightarrow> length as \<le> length bs
     \<and> (\<forall>i < length as. a_started_at (bs ! i) = a_started_at (as ! i)
          \<and> (a_outcome (as ! i) \<noteq> Attempt_running \<longrightarrow> bs ! i = as ! i))"

definition same_admission :: "job \<Rightarrow> job \<Rightarrow> bool" where
  "same_admission j k \<longleftrightarrow>
     j_id k = j_id j \<and> j_policy_id k = j_policy_id j \<and> j_policy_revision k = j_policy_revision j
     \<and> j_kind k = j_kind j \<and> j_scope k = j_scope j \<and> j_key k = j_key j \<and> j_reason k = j_reason j
     \<and> j_scheduled_for k = j_scheduled_for j \<and> j_created_at k = j_created_at j
     \<and> j_retry k = j_retry j \<and> j_plan k = j_plan j"

definition job_advances :: "job \<Rightarrow> job \<Rightarrow> bool" where
  "job_advances j k \<longleftrightarrow> same_admission j k
     \<and> history_extends (j_attempts j) (j_attempts k)
     \<and> c_sequence (j_checkpoint j) \<le> c_sequence (j_checkpoint k)
     \<and> j_recovery_count j \<le> j_recovery_count k
     \<and> (terminal_status (j_status j) \<longrightarrow> (\<exists>v c. k = j\<lparr>j_schema := v, j_control := c\<rparr>))"

definition receipts_kept :: "store \<Rightarrow> store \<Rightarrow> bool" where
  "receipts_kept s t \<longleftrightarrow> (\<forall>i r. look_receipt s i = Some r \<longrightarrow> look_receipt t i = Some r)"

definition jobs_advance :: "store \<Rightarrow> store \<Rightarrow> bool" where
  "jobs_advance s t \<longleftrightarrow>
     (\<forall>i j. look_job s i = Some j \<longrightarrow> (\<exists>k. look_job t i = Some k \<and> job_advances j k))"

lemma history_extends_refl: "history_extends as as"
  by (simp add: history_extends_def)

lemma history_extends_trans:
  assumes "history_extends as bs" and "history_extends bs cs"
  shows "history_extends as cs"
  unfolding history_extends_def
proof (intro conjI allI impI)
  show "length as \<le> length cs" using assms by (simp add: history_extends_def)
next
  fix i assume i: "i < length as"
  with assms(1) have "i < length bs" by (simp add: history_extends_def)
  with i assms show "a_started_at (cs ! i) = a_started_at (as ! i)"
    by (simp add: history_extends_def)
next
  fix i assume i: "i < length as" and r: "a_outcome (as ! i) \<noteq> Attempt_running"
  with assms(1) have "i < length bs" "bs ! i = as ! i" by (simp_all add: history_extends_def)
  with i r assms(2) show "cs ! i = as ! i" by (simp add: history_extends_def)
qed

lemma job_advances_refl: "job_advances j j"
proof -
  have "j = j\<lparr>j_schema := j_schema j, j_control := j_control j\<rparr>" by simp
  then have "\<exists>v c. j = j\<lparr>j_schema := v, j_control := c\<rparr>" by blast
  then show ?thesis by (simp add: job_advances_def same_admission_def history_extends_refl)
qed

lemma job_advances_trans:
  assumes "job_advances j k" and "job_advances k l"
  shows "job_advances j l"
proof -
  have "same_admission j l"
    using assms by (auto simp: job_advances_def same_admission_def)
  moreover have "history_extends (j_attempts j) (j_attempts l)"
    using assms history_extends_trans by (auto simp: job_advances_def)
  moreover have "c_sequence (j_checkpoint j) \<le> c_sequence (j_checkpoint l)"
    using assms by (auto simp: job_advances_def)
  moreover have "j_recovery_count j \<le> j_recovery_count l"
    using assms by (auto simp: job_advances_def)
  moreover have "\<exists>v c. l = j\<lparr>j_schema := v, j_control := c\<rparr>" if t: "terminal_status (j_status j)"
  proof -
    from t assms(1) obtain v c where k: "k = j\<lparr>j_schema := v, j_control := c\<rparr>"
      by (auto simp: job_advances_def)
    with t have "terminal_status (j_status k)" by simp
    with assms(2) obtain w d where l: "l = k\<lparr>j_schema := w, j_control := d\<rparr>"
      by (auto simp: job_advances_def)
    from k l have "l = j\<lparr>j_schema := w, j_control := d\<rparr>" by simp
    then show ?thesis by blast
  qed
  ultimately show ?thesis by (simp add: job_advances_def)
qed

subsection \<open>The primitive writes\<close>

lemma look_put_frames [simp]:
  "look_receipt (put_job j s) i = look_receipt s i" "look_policy (put_job j s) i = look_policy s i"
  "look_job (put_receipt r s) i = look_job s i" "look_policy (put_receipt r s) i = look_policy s i"
  "look_job (put_policy p s) i = look_job s i" "look_receipt (put_policy p s) i = look_receipt s i"
  "look_job (s\<lparr>st_present := b\<rparr>) i = look_job s i"
  "look_receipt (s\<lparr>st_present := b\<rparr>) i = look_receipt s i"
  "look_policy (s\<lparr>st_present := b\<rparr>) i = look_policy s i"
  by (simp_all add: look_job_def look_receipt_def look_policy_def put_job_def put_receipt_def
      put_policy_def)

lemma look_frame:
  "st_jobs t = st_jobs s \<Longrightarrow> look_job t = look_job s"
  "st_receipts t = st_receipts s \<Longrightarrow> look_receipt t = look_receipt s"
  "st_policies t = st_policies s \<Longrightarrow> look_policy t = look_policy s"
  by (simp_all add: fun_eq_iff look_job_def look_receipt_def look_policy_def)

lemma store_ok_frame:
  assumes "st_jobs t = st_jobs s" and "st_receipts t = st_receipts s"
    and "st_policies t = st_policies s"
  shows "store_ok env t = store_ok env s"
  by (simp add: store_ok_def job_dir.keyed_def job_dir.all_records_def receipt_dir.keyed_def
      receipt_dir.all_records_def policy_dir.keyed_def policy_dir.all_records_def assms
      look_frame(1) [OF assms(1)] look_frame(2) [OF assms(2)] look_frame(3) [OF assms(3)])

lemma put_fields [simp]:
  "st_receipts (put_job j s) = st_receipts s" "st_policies (put_job j s) = st_policies s"
  "st_jobs (put_receipt r s) = st_jobs s" "st_policies (put_receipt r s) = st_policies s"
  "st_jobs (put_policy p s) = st_jobs s" "st_receipts (put_policy p s) = st_receipts s"
  "st_jobs (put_job j s) = alist_put j_id j (st_jobs s)"
  "st_receipts (put_receipt r s) = alist_put r_id r (st_receipts s)"
  "st_policies (put_policy p s) = alist_put p_id p (st_policies s)"
  by (simp_all add: put_job_def put_receipt_def put_policy_def)

lemma store_ok_put_job: "store_ok env s \<Longrightarrow> job_sound env j \<Longrightarrow> store_ok env (put_job j s)"
  by (simp add: store_ok_def distinct_alist_put job_dir.keyed_put job_dir.all_records_put receipt_dir.keyed_def
      receipt_dir.all_records_def policy_dir.keyed_def policy_dir.all_records_def)

lemma store_ok_put_receipt: "store_ok env s \<Longrightarrow> receipt_ok r \<Longrightarrow> store_ok env (put_receipt r s)"
  by (simp add: store_ok_def distinct_alist_put receipt_dir.keyed_put receipt_dir.all_records_put job_dir.keyed_def
      job_dir.all_records_def policy_dir.keyed_def policy_dir.all_records_def)

lemma store_ok_put_policy: "store_ok env s \<Longrightarrow> policy_ok env p \<Longrightarrow> store_ok env (put_policy p s)"
  by (simp add: store_ok_def distinct_alist_put policy_dir.keyed_put policy_dir.all_records_put job_dir.keyed_def
      job_dir.all_records_def receipt_dir.keyed_def receipt_dir.all_records_def)

lemma store_ok_job:
  "store_ok env s \<Longrightarrow> look_job s i = Some j \<Longrightarrow>
   j_id j = i \<and> job_sound env j"
  by (simp add: store_ok_def job_dir.keyed_def job_dir.all_records_def)

lemma store_ok_receipt:
  "store_ok env s \<Longrightarrow> look_receipt s i = Some r \<Longrightarrow> r_id r = i \<and> receipt_ok r"
  by (simp add: store_ok_def receipt_dir.keyed_def receipt_dir.all_records_def)

lemma store_ok_policy:
  "store_ok env s \<Longrightarrow> look_policy s i = Some p \<Longrightarrow> p_id p = i \<and> policy_ok env p"
  by (simp add: store_ok_def policy_dir.keyed_def policy_dir.all_records_def)


subsection \<open>The transactions\<close>

lemma get_job_some:
  "get_job env i s = (Inr (Some j), s') \<longleftrightarrow>
     s' = s \<and> job_id_ok i \<and> look_job s i = Some j \<and> job_ok env j"
  by (cases "look_job s i"; cases "validate_job_record env (the (look_job s i))")
     (auto simp: get_job_def validate_job_Inr job_ok_valid)

lemma found_job_result:
  "found_job env i s = (Inr j, s') \<longleftrightarrow>
     s' = s \<and> job_id_ok i \<and> look_job s i = Some j \<and> job_ok env j"
proof -
  have "found_job env i s = (Inr j, s') \<longleftrightarrow> get_job env i s = (Inr (Some j), s')"
    by (auto simp: found_job_def bindA_result get_job_def split: option.splits sum.splits)
  then show ?thesis by (simp add: get_job_some)
qed

lemma found_job_state [simp]: "snd (found_job env i s) = s"
  by (auto simp: found_job_def bindA_def get_job_def split: option.splits sum.splits)

lemma owned_result:
  "owned j token now s = (Inr x, s') \<longleftrightarrow> s' = s
     \<and> (\<exists>l. j_lease j = Some l \<and> active_status (j_status j) \<and> l_token l = token \<and> now < l_expires_at l)"
  by (auto simp: owned_def act_results split: option.splits)

lemma owned_state [simp]: "snd (owned j token now s) = s"
  by (cases "j_lease j") (simp_all add: owned_def seqA_def bindA_def require_eq split: prod.splits sum.splits)

lemma close_attempt_extends: "history_extends as (close_attempt out now cls code as)"
proof (cases "as \<noteq> [] \<and> a_outcome (last as) = Attempt_running")
  case False
  then show ?thesis by (auto simp: close_attempt_def history_extends_refl)
next
  case True
  then have as: "as = butlast as @ [last as]" by simp
  have n: "length as = Suc (length (butlast as))" using True by simp
  show ?thesis
    unfolding history_extends_def
  proof (intro conjI allI impI)
    show "length as \<le> length (close_attempt out now cls code as)"
      using True by (simp add: close_attempt_def)
  next
    fix i assume "i < length as"
    with True n show "a_started_at (close_attempt out now cls code as ! i) = a_started_at (as ! i)"
      by (cases "i = length as - 1")
         (auto simp: close_attempt_def nth_append nth_butlast last_conv_nth)
  next
    fix i assume "i < length as" and "a_outcome (as ! i) \<noteq> Attempt_running"
    with True n show "close_attempt out now cls code as ! i = as ! i"
      by (cases "i = length as - 1")
         (auto simp: close_attempt_def nth_append nth_butlast last_conv_nth)
  qed
qed

lemma earlier_closed_close [simp]:
  "earlier_closed (close_attempt out now cls code as) = earlier_closed as"
  by (simp add: earlier_closed_def close_attempt_def)

lemma write_receipt_frame:
  "write_receipt_once r s = (x, s') \<Longrightarrow> look_job s' i = look_job s i"
  by (cases "validate_receipt_record r"; cases "look_receipt s (r_id r)")
     (auto simp: write_receipt_once_def validate_receipt_Inr seqA_def bindA_def require_def split: if_splits)

lemma require_error_state [simp]: "snd (require_error c s) = s"
  by (simp add: require_error_def require_eq)

lemma require_progress_state [simp]: "snd (require_progress p s) = s"
  by (cases "first_failure (progress_ladder p)") (simp_all add: require_progress_def)

lemma require_progress_result: "require_progress p s = (Inr x, s') \<Longrightarrow>
   s' = s \<and> first_failure (progress_ladder p) = None"
  by (cases "first_failure (progress_ladder p)") (auto simp: require_progress_def)

lemma finished_advances:
  assumes "job_advances k j" and "\<not> terminal_status (j_status k)"
  shows "job_advances k (finished_job j st now p (close_attempt out now cls code (j_attempts j)) r)"
proof -
  have "history_extends (j_attempts k) (close_attempt out now cls code (j_attempts j))"
    using assms(1) close_attempt_extends history_extends_trans by (auto simp: job_advances_def)
  with assms show ?thesis
    by (simp add: job_advances_def finished_job_def clear_intents_def same_admission_def)
qed

section \<open>A finished job\<close>

text \<open>
  The byte bound of a controlled record is the only check that can refuse a well-formed write;
  \<open>fits env\<close> says that no record meets it.
\<close>

definition fits :: "sched_env \<Rightarrow> bool" where
  "fits env \<longleftrightarrow> (\<forall>v. e_size env v \<le> MAX_CONTROL_RECORD_BYTES)"

definition terminal_evidence :: "job_status \<Rightarrow> error_class option \<Rightarrow> string option \<Rightarrow> bool" where
  "terminal_evidence st cls code \<longleftrightarrow>
     (st = Succeeded \<and> cls = None \<and> code = None)
   \<or> (st = Cancelled \<and> cls = Some Cancelled_class \<and> code = Some ''cancelled_by_user'')
   \<or> (st = Manual_intervention \<and> cls = Some Manual_intervention_class
        \<and> (\<exists>c \<in> set ERROR_CODES. code = Some c))
   \<or> (st = Failed \<and> cls \<in> {Some Transient, Some Permanent}
        \<and> (\<exists>c \<in> set ERROR_CODES. code = Some c))"

text \<open>The last attempt of a job that is about to finish: running, or closed as the status allows.\<close>

definition closes_as :: "job \<Rightarrow> job_status \<Rightarrow> instant \<Rightarrow> error_class option \<Rightarrow> string option \<Rightarrow> bool" where
  "closes_as j st now cls code \<longleftrightarrow>
     (case j_attempts j of [] \<Rightarrow> st = Cancelled | _ \<Rightarrow>
        a_outcome (last (j_attempts j)) = Attempt_running
      \<or> (st = Cancelled \<and> a_outcome (last (j_attempts j)) \<in> {Attempt_retry, Attempt_paused})
      \<or> (a_outcome (last (j_attempts j)) = Attempt_failed \<and> st \<noteq> Succeeded
         \<and> a_completed_at (last (j_attempts j)) = Some now
         \<and> a_error_class (last (j_attempts j)) = cls \<and> a_error_code (last (j_attempts j)) = code))"

lemma cancelled_code [simp]: "''cancelled_by_user'' \<in> set ERROR_CODES"
  by (simp add: ERROR_CODES_def)

lemma terminal_evidence_status: "terminal_evidence st cls code \<Longrightarrow> terminal_status st"
  by (auto simp: terminal_evidence_def terminal_status_def)

lemma terminal_evidence_code:
  "terminal_evidence st cls (Some c) \<Longrightarrow> c \<in> set ERROR_CODES"
  by (auto simp: terminal_evidence_def)

lemma attempt_row_close:
  assumes ev: "terminal_evidence st cls code"
    and old: "first_failure (attempt_ladder b n a) = None"
  shows "first_failure (attempt_ladder b n (a\<lparr>a_completed_at := Some now, a_outcome := finish_outcome st,
           a_error_class := cls, a_error_code := code\<rparr>)) = None"
proof (cases code)
  case None
  with ev have "st = Succeeded" "cls = None" by (auto simp: terminal_evidence_def)
  with None old show ?thesis by (auto simp: attempt_ladder_def finish_outcome_def)
next
  case (Some c)
  with ev have "c \<in> set ERROR_CODES" "st \<noteq> Succeeded" "cls \<noteq> None"
    by (auto simp: terminal_evidence_def)
  with Some old show ?thesis
    by (auto simp: attempt_ladder_def finish_outcome_def error_ladder_def)
qed

lemma close_attempt_length [simp]: "length (close_attempt out now cls code as) = length as"
  by (auto simp: close_attempt_def)

lemma close_attempt_nil [simp]: "close_attempt out now cls code as = [] \<longleftrightarrow> as = []"
  by (metis close_attempt_length length_0_conv)

lemma close_attempt_rows:
  assumes "terminal_evidence st cls code"
    and "\<And>i. i < length as \<Longrightarrow> first_failure (attempt_ladder b (Suc i) (as ! i)) = None"
    and "i < length as"
  shows "first_failure (attempt_ladder b (Suc i)
           (close_attempt (finish_outcome st) now cls code as ! i)) = None"
proof (cases "a_outcome (last as) = Attempt_running \<and> i = length as - 1")
  case True
  with assms(3) have "close_attempt (finish_outcome st) now cls code as ! i =
      (as ! i)\<lparr>a_completed_at := Some now, a_outcome := finish_outcome st, a_error_class := cls,
               a_error_code := code\<rparr>"
    by (auto simp: close_attempt_def nth_append last_conv_nth)
  with assms show ?thesis by (simp add: attempt_row_close)
next
  case False
  with assms(3) have "close_attempt (finish_outcome st) now cls code as ! i = as ! i"
    by (auto simp: close_attempt_def nth_append nth_butlast)
  with assms show ?thesis by simp
qed

lemma close_attempt_none_running:
  assumes "earlier_closed as" and "out \<noteq> Attempt_running"
  shows "a \<in> set (close_attempt out now cls code as) \<Longrightarrow> a_outcome a \<noteq> Attempt_running"
proof (cases "as = []")
  case False
  assume a: "a \<in> set (close_attempt out now cls code as)"
  have "as = butlast as @ [last as]" using False by simp
  then have "set as = set (butlast as) \<union> {last as}" by (metis Un_insert_right empty_set list.simps(15) set_append sup_bot.right_neutral)
  with a assms show ?thesis
    by (auto simp: close_attempt_def earlier_closed_def list_all_iff split: if_splits)
qed (simp add: close_attempt_def)

lemma last_close_attempt:
  "as \<noteq> [] \<Longrightarrow> last (close_attempt out now cls code as) =
     (if a_outcome (last as) = Attempt_running
      then (last as)\<lparr>a_completed_at := Some now, a_outcome := out, a_error_class := cls,
                     a_error_code := code\<rparr>
      else last as)"
  by (simp add: close_attempt_def)

text \<open>The control of a job once its intents are cleared, apart from the byte bound.\<close>

definition control_settled :: "sched_env \<Rightarrow> job \<Rightarrow> job_control \<Rightarrow> bool" where
  "control_settled env j c \<longleftrightarrow>
     first_failure (control_head_ladder (j\<lparr>j_status := Succeeded\<rparr>)
       (c\<lparr>ctl_pending := None, ctl_completion := None\<rparr>)) = None
   \<and> first_failure (restart_ladder env j c) = None
   \<and> first_failure (control_tail_ladder 0 j c) = None"

definition finishable :: "sched_env \<Rightarrow> job \<Rightarrow> bool" where
  "finishable env j \<longleftrightarrow>
     first_failure (job_core_ladder j) = None \<and> earlier_closed (j_attempts j)
   \<and> (case j_control j of None \<Rightarrow> True | Some c \<Rightarrow> control_settled env j c)
   \<and> first_failure (job_tail_ladder env j) = None"

lemma restart_ladder_cong:
  assumes "j_id k = j_id j" and "ctl_commands d = ctl_commands c" and "ctl_restart d = ctl_restart c"
  shows "restart_ladder env k d = restart_ladder env j c"
  unfolding restart_ladder_def assms ..

lemma job_ok_finishable:
  assumes "job_ok env j" and "earlier_closed (j_attempts j)"
  shows "finishable env j"
proof (cases "j_control j")
  case None
  with assms show ?thesis by (simp add: finishable_def job_ok_def job_ladder_def)
next
  case (Some c)
  with assms(1) have "first_failure (control_ladder env j c) = None"
    by (simp add: job_ok_def job_ladder_def)
  then have "control_settled env j c"
    by (simp add: control_settled_def control_ladder_def control_head_ladder_def
        control_tail_ladder_def pending_ladder_def cong: option.case_cong)
  with assms Some show ?thesis by (simp add: finishable_def job_ok_def job_ladder_def)
qed

lemma finished_fields [simp]:
  "j_id (finished_job j st now p as r) = j_id j"
  "j_schema (finished_job j st now p as r) = j_schema j"
  "j_policy_id (finished_job j st now p as r) = j_policy_id j"
  "j_policy_revision (finished_job j st now p as r) = j_policy_revision j"
  "j_kind (finished_job j st now p as r) = j_kind j"
  "j_scope (finished_job j st now p as r) = j_scope j"
  "j_key (finished_job j st now p as r) = j_key j"
  "j_attempt (finished_job j st now p as r) = j_attempt j"
  "j_retry (finished_job j st now p as r) = j_retry j"
  "j_checkpoint (finished_job j st now p as r) = j_checkpoint j"
  "j_recovery_count (finished_job j st now p as r) = j_recovery_count j"
  "j_plan (finished_job j st now p as r) = j_plan j"
  "j_status (finished_job j st now p as r) = st"
  "j_updated_at (finished_job j st now p as r) = now"
  "j_retry_not_before (finished_job j st now p as r) = None"
  "j_lease (finished_job j st now p as r) = None"
  "j_progress (finished_job j st now p as r) = p"
  "j_attempts (finished_job j st now p as r) = as"
  "j_receipt_ref (finished_job j st now p as r) = Some (receipt_ref_of (r_id r))"
  "j_control (finished_job j st now p as r) =
     map_option (\<lambda>c. c\<lparr>ctl_pending := None, ctl_completion := None\<rparr>) (j_control j)"
  by (simp_all add: finished_job_def clear_intents_def)

lemma paused_needs_control:
  assumes "first_failure (job_core_ladder j) = None" and "a \<in> set (j_attempts j)"
    and "a_outcome a = Attempt_paused"
  shows "controlled_schema j"
proof -
  from assms(2) obtain i where i: "i < length (j_attempts j)" "j_attempts j ! i = a"
    by (auto simp: in_set_conv_nth)
  from assms(1) have "first_failure (history_ladder (controlled_schema j) j) = None"
    by (simp add: job_core_ladder_def Let_def)
  then have "first_failure (concat (map (\<lambda>(n, a). attempt_ladder (controlled_schema j) n a)
      (enumerate 1 (j_attempts j)))) = None"
    by (simp add: history_ladder_def Let_def del: enumerate_simps)
  with i have "first_failure (attempt_ladder (controlled_schema j) (Suc i) a) = None"
    unfolding attempt_rows_None by auto
  with assms(3) show ?thesis by (simp add: attempt_ladder_def)
qed

lemma finished_history:
  assumes fin: "finishable env j" and ev: "terminal_evidence st cls code"
    and cl: "closes_as j st now cls code"
    and k: "k = finished_job j st now p
                  (close_attempt (finish_outcome st) now cls code (j_attempts j)) r"
  shows "first_failure (history_ladder (controlled_schema k) k) = None"
proof -
  let ?as = "close_attempt (finish_outcome st) now cls code (j_attempts j)"
  have core: "first_failure (job_core_ladder j) = None" and ec: "earlier_closed (j_attempts j)"
    using fin by (simp_all add: finishable_def)
  then have h: "first_failure (history_ladder (controlled_schema j) j) = None"
    by (simp add: job_core_ladder_def Let_def)
  then have len: "int (length (j_attempts j)) = j_attempt j" "length (j_attempts j) \<le> nat MAX_RETRY_ATTEMPTS"
    by (auto simp: history_ladder_def Let_def)
  from h have "first_failure (concat (map (\<lambda>(n, a). attempt_ladder (controlled_schema j) n a)
      (enumerate 1 (j_attempts j)))) = None"
    by (simp add: history_ladder_def Let_def del: enumerate_simps)
  then have rows: "\<And>i. i < length (j_attempts j) \<Longrightarrow>
      first_failure (attempt_ladder (controlled_schema j) (Suc i) (j_attempts j ! i)) = None"
    unfolding attempt_rows_None by simp
  have new_rows: "first_failure (concat (map (\<lambda>(n, a). attempt_ladder (controlled_schema j) n a)
      (enumerate 1 ?as))) = None"
    unfolding attempt_rows_None using close_attempt_rows [OF ev rows] by simp
  have t: "terminal_status st" using ev by (rule terminal_evidence_status)
  then have na: "\<not> active_status st" "st \<noteq> Retry_wait" "st \<noteq> Queued"
    using active_not_terminal by (auto simp: terminal_status_def)
  have out: "finish_outcome st \<noteq> Attempt_running" by (simp add: finish_outcome_def)
  have none: "\<And>a. a \<in> set ?as \<Longrightarrow> a_outcome a \<noteq> Attempt_running"
    using close_attempt_none_running [OF ec out] by blast
  have final: "a_outcome (last ?as) \<in> (if st = Succeeded then {Attempt_succeeded}
                else if st = Cancelled
                     then (if controlled_schema j then {Attempt_failed, Attempt_retry, Attempt_paused}
                           else {Attempt_failed, Attempt_retry})
                     else {Attempt_failed})" if ne: "j_attempts j \<noteq> []"
    using cl ne paused_needs_control [OF core last_in_set [OF ne]]
    by (auto simp: closes_as_def last_close_attempt finish_outcome_def neq_Nil_conv split: list.splits)
  then have final': "j_attempts j \<noteq> [] \<longrightarrow> a_outcome (last ?as) \<in> (if st = Succeeded then {Attempt_succeeded}
                else if st = Cancelled
                     then (if controlled_schema j then {Attempt_failed, Attempt_retry, Attempt_paused}
                           else {Attempt_failed, Attempt_retry})
                     else {Attempt_failed})" by blast
  have c: "controlled_schema k = controlled_schema j" by (simp add: k controlled_schema_def)
  show ?thesis
    unfolding history_ladder_def Let_def c
    using len new_rows t na none final'
    by (auto simp: k simp del: enumerate_simps)
qed

lemma finished_ok:
  assumes fin: "finishable env j" and fits: "fits env" and ev: "terminal_evidence st cls code"
    and cl: "closes_as j st now cls code" and p: "first_failure (progress_ladder p) = None"
    and r: "r_id r = receipt_of_job (j_id j)"
    and k: "k = finished_job j st now p
                  (close_attempt (finish_outcome st) now cls code (j_attempts j)) r"
  shows "job_ok env k"
proof -
  have t: "terminal_status st" using ev by (rule terminal_evidence_status)
  then have na: "\<not> active_status st" "st \<noteq> Retry_wait" "st \<noteq> Paused" "st \<noteq> Pausing" "st \<noteq> Cancelling"
    using active_not_terminal by (auto simp: terminal_status_def)
  have c: "controlled_schema k = controlled_schema j" by (simp add: k controlled_schema_def)
  have "first_failure (job_core_ladder j) = None" using fin by (simp add: finishable_def)
  note core' = this [unfolded job_core_ladder_def Let_def first_failure_append_None first_failure_sched
      first_failure_Cons_None]
  have "first_failure (job_core_ladder k) = None"
    unfolding job_core_ladder_def Let_def first_failure_append_None first_failure_sched
  proof (intro conjI)
    show "first_failure (history_ladder (controlled_schema k) k) = None"
      by (rule finished_history [OF fin ev cl k])
    show "first_failure (receipt_ref_ladder k) = None"
      using t na by (simp add: k receipt_ref_ladder_def r)
  qed (use core' na p c in \<open>cases "controlled_schema j"; simp add: k lease_ladder_def\<close>)+
  moreover have "first_failure (job_tail_ladder env k) = None"
    using fin c by (cases "controlled_schema j") (simp_all add: finishable_def job_tail_ladder_def k)
  moreover have "first_failure (control_ladder env k d) = None" if d: "j_control k = Some d" for d
  proof -
    from d obtain e where e: "j_control j = Some e" "d = e\<lparr>ctl_pending := None, ctl_completion := None\<rparr>"
      by (auto simp: k)
    with fin have s: "control_settled env j e" by (simp add: finishable_def)
    have "first_failure (control_head_ladder k d) = None"
      using s e(2) na
      by (simp add: control_settled_def control_head_ladder_def pending_ladder_def k
          cong: option.case_cong)
    moreover have "restart_ladder env k d = restart_ladder env j e"
      by (rule restart_ladder_cong) (simp_all add: k e(2))
    moreover have "first_failure (control_tail_ladder (e_size env (job_json k)) k d) = None"
      using s fits by (simp add: control_settled_def control_tail_ladder_def k e(2) fits_def not_less
          cong: option.case_cong)
    ultimately show ?thesis using s by (simp add: control_ladder_def control_settled_def)
  qed
  ultimately show ?thesis
    by (auto simp: job_ok_def job_ladder_def split: option.splits)
qed


section \<open>Facts of the operations\<close>

lemma close_close [simp]:
  "out \<noteq> Attempt_running \<Longrightarrow>
   close_attempt out' now' cls' code' (close_attempt out now cls code as) =
     (if as \<noteq> [] \<and> a_outcome (last as) = Attempt_running then close_attempt out now cls code as
      else close_attempt out' now' cls' code' as)"
  by (auto simp: close_attempt_def)

lemma finish_prepared:
  assumes "st \<noteq> Succeeded"
  shows "finish_locked env (j\<lparr>j_attempts := close_attempt Attempt_failed now cls code (j_attempts j),
           j_lease := None\<rparr>) st now p cls code net mut
       = finish_locked env j st now p cls code net mut"
  using assms
  by (simp add: finish_locked_def finish_outcome_def terminal_receipt_def used_network_def
      finished_job_def clear_intents_def Let_def cong: if_cong)

lemma failure_status_not: "failure_status cls \<noteq> Succeeded"
  by (cases cls) simp_all

lemma earlier_closed_nil [simp]: "earlier_closed []"
  by (simp add: earlier_closed_def)

lemma queued_job_simps [simp]:
  "j_attempts (queued_job hex p reason nominal eligible key now plan) = []"
  "j_id (queued_job hex p reason nominal eligible key now plan) = ''job_'' @ hex"
  "j_status (queued_job hex p reason nominal eligible key now plan) = Queued"
  "j_recovery_count (queued_job hex p reason nominal eligible key now plan) = 0"
  "j_attempt (queued_job hex p reason nominal eligible key now plan) = 0"
  "j_key (queued_job hex p reason nominal eligible key now plan) = key"
  "j_plan (queued_job hex p reason nominal eligible key now plan) = plan"
  by (cases plan; simp add: queued_job_def promote_def Let_def)+

lemma initial_control_fields [simp]:
  "ctl_restart (initial_control p) = None" "ctl_pending (initial_control p) = None"
  "ctl_commands (initial_control p) = []" "ctl_parent (initial_control p) = p"
  "ctl_completion (initial_control p) = None" "ctl_commit_started (initial_control p) = False"
  "ctl_observation (initial_control p) = None" "ctl_revision (initial_control p) = 0"
  by (simp_all add: initial_control_def)

lemma bookkeeping_queued:
  "bookkeeping_ok (queued_job hex p reason nominal eligible key now plan)"
  by (cases plan) (simp_all add: bookkeeping_defs queued_job_def promote_def Let_def)

lemma found_policy_result:
  "found_policy env i s = (Inr p, s') \<Longrightarrow> store_ok env s \<Longrightarrow> s' = s \<and> look_policy s i = Some p"
  using store_ok_policy [of env s i]
  by (auto simp: found_policy_def bindA_result get_policy_def policy_ok_def
      split: option.splits sum.splits if_splits)

lemma found_policy_state [simp]: "snd (found_policy env i s) = s"
  by (auto simp: found_policy_def bindA_def get_policy_def split: option.splits sum.splits)

lemma next_occurrence_state: "snd (next_occurrence env pid rvn state sc now s) = s"
  by (auto simp: next_occurrence_def bindA_def split: sum.splits option.splits prod.splits)

section \<open>The ways to change the store\<close>

definition may_write :: "store \<Rightarrow> job \<Rightarrow> bool" where
  "may_write s j \<longleftrightarrow> (case look_job s (j_id j) of
     None \<Rightarrow> \<not> terminal_status (j_status j)
   | Some k \<Rightarrow> job_advances k j \<and> (terminal_status (j_status j) \<longrightarrow> terminal_status (j_status k)))"

definition may_finish ::
  "sched_env \<Rightarrow> store \<Rightarrow> job \<Rightarrow> job_status \<Rightarrow> instant \<Rightarrow> error_class option \<Rightarrow> string option \<Rightarrow> bool" where
  "may_finish env s j st now cls code \<longleftrightarrow>
     finishable env j \<and> closes_as j st now cls code \<and> bookkeeping_ok (j\<lparr>j_status := st\<rparr>)
   \<and> (\<exists>k. look_job s (j_id j) = Some k \<and> job_advances k j \<and> \<not> terminal_status (j_status k))"

definition may_reconcile :: "store \<Rightarrow> job \<Rightarrow> bool" where
  "may_reconcile s j \<longleftrightarrow> look_receipt s (receipt_of_job (j_id j)) \<noteq> None
   \<and> (\<exists>k. look_job s (j_id j) = Some k \<and> job_advances k j \<and> \<not> terminal_status (j_status k))"

lemmas advance_simps = job_advances_def same_admission_def history_extends_refl may_write_def
  job_sound_def bookkeeping_defs

lemma bookkeeping_status:
  "bookkeeping_ok j \<Longrightarrow> \<not> active_status st \<or> active_status (j_status j) \<Longrightarrow>
   bookkeeping_ok (j\<lparr>j_status := st\<rparr>)"
  by (auto simp: bookkeeping_defs split: if_splits)

lemma may_finish_active:
  assumes "look_job s (j_id j) = Some j" and "job_sound env j" and "active_status (j_status j)"
  shows "may_finish env s j st now cls code"
proof -
  from assms have "a_outcome (last (j_attempts j)) = Attempt_running" "j_attempts j \<noteq> []"
    using job_ok_running [of env j] by (simp_all add: job_sound_def)
  then have "closes_as j st now cls code" by (auto simp: closes_as_def split: list.splits)
  with assms job_ok_finishable job_advances_refl active_not_terminal show ?thesis
    by (simp add: may_finish_def job_sound_def bookkeeping_status)
qed

lemma waiting_last:
  assumes "job_ok env j" and "\<not> active_status (j_status j)" and "\<not> terminal_status (j_status j)"
    and "j_attempts j \<noteq> []"
  shows "a_outcome (last (j_attempts j)) \<in> {Attempt_retry, Attempt_paused}"
proof -
  have h: "first_failure (history_ladder (controlled_schema j) j) = None"
    using assms(1) by (rule job_ok_history)
  have p: "j_status j = Paused \<longrightarrow> a_outcome (last (j_attempts j)) \<in> {Attempt_paused, Attempt_retry}"
    using job_ok_core [OF assms(1)] assms(4)
    by (auto simp: job_core_ladder_def receipt_ref_ladder_def Let_def)
  have "j_status j \<in> {Queued, Retry_wait, Paused}"
    using assms(2,3) by (cases "j_status j") (simp_all add: active_status_def terminal_status_def)
  with h p assms(4) show ?thesis
    by (auto simp: history_ladder_def Let_def split: if_splits)
qed

lemma may_finish_waiting:
  assumes "look_job s (j_id j) = Some j" and "job_sound env j"
    and "\<not> active_status (j_status j)" and "\<not> terminal_status (j_status j)"
  shows "may_finish env s j Cancelled now cls code"
proof -
  have "closes_as j Cancelled now cls code"
    using waiting_last [of env j] assms
    by (auto simp: closes_as_def job_sound_def split: list.splits)
  with assms job_ok_finishable job_advances_refl show ?thesis
    by (simp add: may_finish_def job_sound_def bookkeeping_status)
qed

locale store_contract = step_contract R for R :: "store \<Rightarrow> store \<Rightarrow> bool" +
  fixes env :: sched_env
  assumes if_ok: "(store_ok env s \<Longrightarrow> R s t) \<Longrightarrow> R s t"
    and on_hold: "R s (s\<lparr>st_present := True\<rparr>)"
    and on_job: "store_ok env s \<Longrightarrow> job_sound env j \<Longrightarrow> may_write s j \<Longrightarrow> R s (put_job j s)"
    and on_reconcile: "store_ok env s \<Longrightarrow> job_sound env j \<Longrightarrow> may_reconcile s j \<Longrightarrow>
          R s (put_job j s)"
    and on_policy: "store_ok env s \<Longrightarrow> policy_ok env q \<Longrightarrow> R s (put_policy q s)"
    and on_finish: "store_ok env s \<Longrightarrow> may_finish env s j st now cls code \<Longrightarrow>
          R s (snd (finish_locked env j st now p cls code net mut s))"
begin

lemma step_hold: "(\<And>s. R s (snd (k s))) \<Longrightarrow> R s (snd (seqA hold k s))"
  by (rule step_seq) (simp_all add: hold_def on_hold)

lemma step_hold_at: "R (s\<lparr>st_present := True\<rparr>) (snd (k (s\<lparr>st_present := True\<rparr>))) \<Longrightarrow>
  R s (snd (seqA hold k s))"
  by (rule step_seq) (auto simp: hold_def on_hold)

lemma step_write_job:
  assumes "store_ok env s \<Longrightarrow> earlier_closed (j_attempts j) \<and> bookkeeping_ok j \<and> may_write s j"
  shows "R s (snd (write_job env j s))"
proof (rule if_ok)
  assume ok: "store_ok env s"
  show ?thesis
  proof (cases "job_ok env j")
    case True
    with ok assms have "R s (put_job j s)" by (intro on_job) (simp_all add: job_sound_def)
    with True show ?thesis by (simp add: write_job_def)
  next
    case False
    then obtain e where "validate_job_record env j = Inl e" using validate_job_cases by blast
    then show ?thesis by (simp add: write_job_def R_refl)
  qed
qed

lemma step_write_policy: "R s (snd (write_policy env p s))"
proof (cases "validate_policy_record env p")
  case (Inl e)
  then show ?thesis by (simp add: write_policy_def R_refl)
next
  case (Inr q)
  then have "policy_ok env q" using validate_policy_idem by (simp add: policy_ok_def)
  then have "store_ok env s \<Longrightarrow> R s (put_policy q s)" using on_policy by blast
  then have "R s (put_policy q s)" by (rule if_ok)
  with Inr show ?thesis by (simp add: write_policy_def)
qed

lemma step_finish:
  assumes "store_ok env s \<Longrightarrow> may_finish env s j st now cls code"
  shows "R s (snd (finish_locked env j st now p cls code net mut s))"
proof (rule if_ok)
  assume "store_ok env s"
  with assms on_finish show ?thesis by blast
qed

lemma step_found_job:
  assumes "\<And>j. store_ok env s \<Longrightarrow> look_job s (j_id j) = Some j \<Longrightarrow> j_id j = i \<Longrightarrow> job_sound env j \<Longrightarrow>
             R s (snd (k j s))"
  shows "R s (snd (bindA (found_job env i) k s))"
proof (rule if_ok)
  assume ok: "store_ok env s"
  show ?thesis
  proof (rule step_bind)
    show "R s (snd (found_job env i s))" by (simp add: R_refl)
  next
    fix j s' assume "found_job env i s = (Inr j, s')"
    then have j: "s' = s" "look_job s i = Some j" by (simp_all add: found_job_result)
    moreover from ok j(2) have "j_id j = i" "job_sound env j" by (simp_all add: store_ok_job)
    ultimately show "R s' (snd (k j s'))" using assms ok by simp
  qed
qed

lemma step_owned:
  assumes "\<And>l. j_lease j = Some l \<Longrightarrow> active_status (j_status j) \<Longrightarrow> l_token l = token \<Longrightarrow>
             now < l_expires_at l \<Longrightarrow> R s (snd (k s))"
  shows "R s (snd (seqA (owned j token now) k s))"
proof (rule step_seq)
  show "R s (snd (owned j token now s))" by (simp add: R_refl)
next
  fix x s' assume "owned j token now s = (Inr x, s')"
  with assms show "R s' (snd (k s'))" by (auto simp: owned_result)
qed

lemma step_progress:
  assumes "R s (snd (k s))"
  shows "R s (snd (seqA (require_progress p) k s))"
proof (rule step_seq)
  show "R s (snd (require_progress p s))" by (simp add: R_refl)
qed (auto dest: require_progress_result intro: assms)

lemma step_error: "R s (snd (k s)) \<Longrightarrow> R s (snd (seqA (require_error c) k s))"
  unfolding require_error_def by (rule step_require)

lemma heartbeat_step: "R s (snd (heartbeat env i token n now s))"
  unfolding heartbeat_def require_lease_seconds_def
  by (intro step_require step_hold step_found_job step_owned step_write_job)
     (auto simp: advance_simps dest: active_not_terminal)

lemma checkpoint_step: "R s (snd (checkpoint_job env i token n phase p now s))"
  unfolding checkpoint_job_def
  by (intro step_progress step_require step_hold step_found_job step_owned step_write_job)
     (auto simp: advance_simps dest: active_not_terminal)

lemma succeed_step: "R s (snd (succeed env i token p net mut now s))"
  unfolding succeed_def
  by (intro step_hold step_found_job step_owned step_finish may_finish_active)

lemma cancel_step: "R s (snd (cancel env i now s))"
  unfolding cancel_def
  by (intro step_hold step_found_job)
     (auto simp: R_refl intro!: step_require step_finish may_finish_waiting)

lemma fail_step: "R s (snd (fail env i token cls code p net mut now s))"
proof -
  have retry: "R s (snd (bindA (of_result (retry_delay_seconds (j_retry j) (j_attempt j)))
      (\<lambda>delay. write_job env (j\<lparr>j_status := Retry_wait, j_updated_at := now,
         j_retry_not_before := Some (now + delay * SECOND), j_lease := None, j_progress := p,
         j_attempts := close_attempt Attempt_retry now (Some cls) (Some code) (j_attempts j)\<rparr>)) s))"
    if "look_job s (j_id j) = Some j" and "active_status (j_status j)" and "job_sound env j" for j s
    using that
    by (intro step_result step_write_job)
       (auto simp: advance_simps close_attempt_extends dest: active_not_terminal)
  have final: "R s (snd (finish_locked env (j\<lparr>j_attempts := close_attempt Attempt_failed
      now (Some cls) (Some code) (j_attempts j), j_lease := None\<rparr>) (failure_status cls) now p
      (Some cls) (Some code) net mut s))"
    if "look_job s (j_id j) = Some j" and "active_status (j_status j)" and "job_sound env j" for j s
    using that
    by (subst finish_prepared) (auto intro: step_finish may_finish_active simp: failure_status_not)
  show ?thesis
    unfolding fail_def Let_def
    by (intro step_error step_progress step_hold step_found_job step_owned)
       (simp add: retry final)
qed

lemma new_job_step:
  assumes "look_job s (''job_'' @ hex) = None"
  shows "R s (snd (new_job env hex p reason nominal eligible key now plan s))"
proof -
  have w: "R s (snd (bindA (write_job env
             (queued_job hex p reason nominal eligible key now plan)) (\<lambda>j. ret (j, True)) s))"
    using assms
    by (intro step_bind step_write_job)
       (simp_all add: R_refl may_write_def bookkeeping_queued)
  show ?thesis
    unfolding new_job_def all_jobs_def
    by (rule step_query, split option.split) (auto intro: w step_require simp: R_refl)
qed

lemma step_found_policy:
  assumes "\<And>p. store_ok env s \<Longrightarrow> look_policy s i = Some p \<Longrightarrow> R s (snd (k p s))"
  shows "R s (snd (bindA (found_policy env i) k s))"
proof (rule if_ok)
  assume ok: "store_ok env s"
  show ?thesis
  proof (rule step_bind)
    show "R s (snd (found_policy env i s))" by (simp add: R_refl)
  next
    fix p s' assume "found_policy env i s = (Inr p, s')"
    with ok have "s' = s" "look_policy s i = Some p" using found_policy_result by blast+
    with assms ok show "R s' (snd (k p s'))" by simp
  qed
qed

lemma run_now_step:
  assumes "look_job s (''job_'' @ hex) = None"
  shows "R s (snd (run_now env hex hex2 pid key now plan s))"
  unfolding run_now_def Let_def using assms
  by (intro step_hold_at step_found_policy step_require step_result new_job_step) simp

lemma create_policy_step: "R s (snd (create_policy env hex k sc st sch rt now s))"
  unfolding create_policy_def Let_def
  by (intro step_result step_bind step_hold step_write_policy)
     (simp add: next_occurrence_state R_refl)

lemma update_policy_step: "R s (snd (update_policy env pid st sch rt now s))"
  unfolding update_policy_def Let_def
  by (intro step_hold step_found_policy step_result step_bind step_write_policy)
     (simp add: next_occurrence_state R_refl)

end

section \<open>Reading a valid store\<close>

lemma stored_job_entry:
  assumes "store_ok env s" and "kv \<in> set (st_jobs s)"
  shows "job_sound env (snd kv) \<and> j_id (snd kv) = fst kv \<and> look_job s (fst kv) = Some (snd kv)"
proof -
  have "look_job s (fst kv) = Some (snd kv)"
    using assms by (simp add: look_job_def store_ok_def)
  with assms(1) show ?thesis by (simp add: store_ok_job)
qed

lemma all_jobs_ok: "store_ok env s \<Longrightarrow> all_jobs env s = (Inr (map snd (st_jobs s)), s)"
  using stored_job_entry [of env s]
  by (simp add: all_jobs_def collect_all job_sound_def)

lemma look_job_member:
  assumes "store_ok env s"
  shows "j \<in> snd ` set (st_jobs s) \<longleftrightarrow> look_job s (j_id j) = Some j"
proof
  assume "j \<in> snd ` set (st_jobs s)"
  then show "look_job s (j_id j) = Some j" using stored_job_entry [OF assms] by force
next
  assume "look_job s (j_id j) = Some j"
  then have "(j_id j, j) \<in> set (st_jobs s)" by (simp add: look_job_def map_of_SomeD)
  then show "j \<in> snd ` set (st_jobs s)" by force
qed

lemma store_ok_present [simp]: "store_ok env (s\<lparr>st_present := b\<rparr>) = store_ok env s"
  by (rule store_ok_frame) simp_all

section \<open>The outcome of finishing a job\<close>

lemma finish_locked_cases:
  obtains (refused) e where "finish_locked env j st now p cls code net mut s = (Inl e, s)"
  | (attempted) "terminal_status st" and "first_failure (progress_ladder p) = None"
      and "finish_locked env j st now p cls code net mut s =
        bindA (write_receipt_once (terminal_receipt j st now p cls code (used_network j net) mut
                 (close_attempt (finish_outcome st) now cls code (j_attempts j))))
          (\<lambda>r. write_job env (finished_job j st now p
                 (close_attempt (finish_outcome st) now cls code (j_attempts j)) r)) s"
proof (cases "terminal_status st \<and> (case code of None \<Rightarrow> True | Some c \<Rightarrow> c \<in> set ERROR_CODES)")
  case False
  then have "\<exists>e. finish_locked env j st now p cls code net mut s = (Inl e, s)"
    by (cases "terminal_status st"; cases code)
       (simp_all add: finish_locked_def require_error_def)
  with refused show ?thesis by blast
next
  case True
  have guard: "seqA (case code of None \<Rightarrow> ret () | Some c \<Rightarrow> require_error c) k s = k s"
    for k :: "job sched_act"
    using True by (cases code) (simp_all add: require_error_def)
  show ?thesis
  proof (cases "first_failure (progress_ladder p)")
    case None
    with True guard attempted show ?thesis
      by (simp add: finish_locked_def require_progress_def Let_def)
  next
    case (Some m)
    with True guard refused show ?thesis
      by (simp add: finish_locked_def require_progress_def Let_def)
  qed
qed

lemma terminal_receipt_id [simp]:
  "r_id (terminal_receipt j st now p cls code net mut as) = receipt_of_job (j_id j)"
  "r_job_id (terminal_receipt j st now p cls code net mut as) = j_id j"
  by (simp_all add: terminal_receipt_def)

lemma receipt_evidence:
  "receipt_ok (terminal_receipt j st now p cls code net mut as) \<Longrightarrow> terminal_evidence st cls code"
  by (cases cls; cases code; cases st)
     (auto simp: receipt_ok_def receipt_ladder_def terminal_receipt_def terminal_evidence_def
        error_ladder_def)

lemma finished_matches:
  assumes "finishable env j" and "closes_as j st now cls code"
  shows "receipt_matches_terminal_job
    (terminal_receipt j st now p cls code net mut
       (close_attempt (finish_outcome st) now cls code (j_attempts j)))
    (finished_job j st now p (close_attempt (finish_outcome st) now cls code (j_attempts j)) r)"
proof (cases "j_attempts j = []")
  case True
  have "first_failure (history_ladder (controlled_schema j) j) = None"
    using assms(1) by (simp add: finishable_def job_core_ladder_def Let_def)
  with True have "j_attempt j = 0" by (simp add: history_ladder_def Let_def)
  with True assms(2) show ?thesis
    by (simp add: receipt_matches_terminal_job_def receipt_matches_job_def terminal_receipt_def
        closes_as_def)
next
  case False
  with assms(2) show ?thesis
    by (auto simp: receipt_matches_terminal_job_def receipt_matches_job_def terminal_receipt_def
        closes_as_def last_close_attempt Let_def finish_outcome_def split: list.splits)
qed

lemma may_finish_sound:
  assumes "may_finish env s j st now cls code" and "terminal_status st"
  shows "earlier_closed (close_attempt (finish_outcome st) now cls code (j_attempts j))"
    and "bookkeeping_ok (finished_job j st now p
           (close_attempt (finish_outcome st) now cls code (j_attempts j)) r)"
  using assms active_not_terminal
  by (auto simp: may_finish_def finishable_def bookkeeping_defs split: if_splits option.splits)

text \<open>
  Finishing a job that the store holds as not terminal, and that has no receipt, does nothing or
  writes the receipt and the matching record.
\<close>

lemma finish_effect:
  assumes "store_ok env s" and may: "may_finish env s j st now cls code" and "fits env"
    and none: "look_receipt s (receipt_of_job (j_id j)) = None"
  obtains (refused) e where "finish_locked env j st now p cls code net mut s = (Inl e, s)"
  | (finished) r k where
      "finish_locked env j st now p cls code net mut s = (Inr k, put_job k (put_receipt r s))"
      and "r_id r = receipt_of_job (j_id j)" and "r_job_id r = j_id j" and "j_id k = j_id j"
      and "receipt_ok r" and "job_sound env k" and "j_status k = st" and "terminal_status st"
      and "receipt_matches_terminal_job r k"
proof (cases rule: finish_locked_cases [of env j st now p cls code net mut s])
  case (refused e)
  then show ?thesis by (rule that(1))
next
  case attempted
  note 2 = attempted
  let ?as = "close_attempt (finish_outcome st) now cls code (j_attempts j)"
  let ?r = "terminal_receipt j st now p cls code (used_network j net) mut ?as"
  let ?k = "finished_job j st now p ?as ?r"
  show ?thesis
  proof (cases "receipt_ok ?r")
    case False
    then obtain e where "validate_receipt_record ?r = Inl e" using validate_receipt_cases by blast
    with 2(3) that(1) show ?thesis by (simp add: write_receipt_once_def)
  next
    case True
    from may have fin: "finishable env j" and cl: "closes_as j st now cls code"
      by (simp_all add: may_finish_def)
    have k: "job_ok env ?k"
      using finished_ok [OF fin \<open>fits env\<close> receipt_evidence [OF True] cl 2(2) _ refl] by simp
    have "finish_locked env j st now p cls code net mut s = (Inr ?k, put_job ?k (put_receipt ?r s))"
      using 2(3) True none k by (simp add: write_receipt_once_def write_job_def)
    moreover have "job_sound env ?k"
      using k may_finish_sound [OF may 2(1)] by (simp add: job_sound_def)
    ultimately show ?thesis
      using that(2) True 2(1) finished_matches [OF fin cl] by simp
  qed
qed

section \<open>The records are safe\<close>

definition journal_step :: "sched_env \<Rightarrow> store \<Rightarrow> store \<Rightarrow> bool" where
  "journal_step env s t \<longleftrightarrow>
     (store_ok env s \<longrightarrow> store_ok env t \<and> receipts_kept s t \<and> jobs_advance s t)"

lemma journal_stepI:
  "(store_ok env s \<Longrightarrow> store_ok env t \<and> receipts_kept s t \<and> jobs_advance s t) \<Longrightarrow> journal_step env s t"
  by (simp add: journal_step_def)

lemma jobs_advance_put:
  "(\<And>k. look_job s (j_id j) = Some k \<Longrightarrow> job_advances k j) \<Longrightarrow> jobs_advance s (put_job j s)"
  using job_advances_refl by (auto simp: jobs_advance_def job_dir.look_put)

lemma jobs_advance_same: "st_jobs t = st_jobs s \<Longrightarrow> jobs_advance s t"
  using look_frame(1) [of t s] job_advances_refl by (auto simp: jobs_advance_def)

lemma receipts_kept_same: "st_receipts t = st_receipts s \<Longrightarrow> receipts_kept s t"
  using look_frame(2) [of t s] by (simp add: receipts_kept_def)

lemma write_receipt_effect:
  assumes "write_receipt_once r s = (x, s')"
  shows "s' = s \<or> receipt_ok r \<and> look_receipt s (r_id r) = None \<and> s' = put_receipt r s"
  using assms
  by (cases "validate_receipt_record r"; cases "look_receipt s (r_id r)")
     (auto simp: write_receipt_once_def validate_receipt_Inr seqA_def bindA_def require_def
       split: if_splits)

interpretation journal_order: step_contract "journal_step env" for env
proof unfold_locales
  fix s :: store
  show "journal_step env s s"
    by (simp add: journal_step_def receipts_kept_same jobs_advance_same)
next
  fix s t u :: store
  assume st: "journal_step env s t" and tu: "journal_step env t u"
  show "journal_step env s u"
    unfolding journal_step_def
  proof (intro impI conjI)
    assume s: "store_ok env s"
    with st have t: "store_ok env t" "receipts_kept s t" "jobs_advance s t"
      by (simp_all add: journal_step_def)
    with tu have u: "store_ok env u" "receipts_kept t u" "jobs_advance t u"
      by (simp_all add: journal_step_def)
    show "store_ok env u" by (fact u(1))
    show "receipts_kept s u" using t(2) u(2) by (simp add: receipts_kept_def)
    show "jobs_advance s u"
      unfolding jobs_advance_def
    proof (intro allI impI)
      fix i j assume "look_job s i = Some j"
      with t(3) obtain k where k: "look_job t i = Some k" "job_advances j k"
        by (auto simp: jobs_advance_def)
      with u(3) obtain l where "look_job u i = Some l" "job_advances k l"
        by (auto simp: jobs_advance_def)
      with k job_advances_trans show "\<exists>l. look_job u i = Some l \<and> job_advances j l" by blast
    qed
  qed
qed

lemma journal_write_receipt: "journal_step env s (snd (write_receipt_once r s))"
proof -
  obtain x s' where w: "write_receipt_once r s = (x, s')" by (cases "write_receipt_once r s")
  from write_receipt_effect [OF w] show ?thesis
  proof (elim disjE conjE)
    assume "s' = s"
    with w show ?thesis by (simp add: journal_order.R_refl)
  next
    assume "receipt_ok r" and "look_receipt s (r_id r) = None" and "s' = put_receipt r s"
    with w store_ok_put_receipt show ?thesis
      by (auto simp: journal_step_def receipts_kept_def receipt_dir.look_put jobs_advance_same)
  qed
qed

interpretation journal: store_contract "journal_step env" env for env
proof unfold_locales
  fix s t :: store
  show "(store_ok env s \<Longrightarrow> journal_step env s t) \<Longrightarrow> journal_step env s t"
    unfolding journal_step_def by blast
next
  fix s :: store
  show "journal_step env s (s\<lparr>st_present := True\<rparr>)"
    by (simp add: journal_step_def jobs_advance_same receipts_kept_same)
next
  fix s j assume "store_ok env s" and "job_sound env j" and "may_write s j"
  then show "journal_step env s (put_job j s)"
    by (auto simp: journal_step_def store_ok_put_job may_write_def receipts_kept_same
        intro!: jobs_advance_put)
next
  fix s j assume "store_ok env s" and "job_sound env j" and "may_reconcile s j"
  then show "journal_step env s (put_job j s)"
    by (auto simp: journal_step_def store_ok_put_job may_reconcile_def receipts_kept_same
        intro!: jobs_advance_put)
next
  fix s q assume "store_ok env s" and "policy_ok env q"
  then show "journal_step env s (put_policy q s)"
    by (simp add: journal_step_def store_ok_put_policy receipts_kept_same jobs_advance_same)
next
  fix s j st now cls code p net mut
  assume ok: "store_ok env s" and may: "may_finish env s j st now cls code"
  let ?as = "close_attempt (finish_outcome st) now cls code (j_attempts j)"
  let ?r = "terminal_receipt j st now p cls code (used_network j net) mut ?as"
  show "journal_step env s (snd (finish_locked env j st now p cls code net mut s))"
  proof (cases rule: finish_locked_cases [of env j st now p cls code net mut s])
    case (refused e)
    then show ?thesis by (simp add: journal_order.R_refl)
  next
    case attempted
    note 2 = attempted
    show ?thesis
      unfolding 2(3)
    proof (rule journal_order.step_bind [OF journal_write_receipt])
      fix r s' assume w: "write_receipt_once ?r s = (Inr r, s')"
      let ?k = "finished_job j st now p ?as r"
      from w write_receipt_effect have "st_jobs s' = st_jobs s" by fastforce
      then have look: "look_job s' = look_job s" by (rule look_frame)
      show "journal_step env s' (snd (write_job env ?k s'))"
      proof (cases "job_ok env ?k")
        case False
        then obtain e where "validate_job_record env ?k = Inl e" using validate_job_cases by blast
        then show ?thesis by (simp add: write_job_def journal_order.R_refl)
      next
        case True
        with may_finish_sound [OF may 2(1)] have "job_sound env ?k" by (simp add: job_sound_def)
        moreover have "jobs_advance s' (put_job ?k s')"
          using may look finished_advances by (intro jobs_advance_put) (auto simp: may_finish_def)
        ultimately have "journal_step env s' (put_job ?k s')"
          by (simp add: journal_step_def store_ok_put_job receipts_kept_same)
        with True show ?thesis by (simp add: write_job_def)
      qed
    qed
  qed
qed

section \<open>Terminal jobs and receipts agree\<close>

definition evidenced :: "store \<Rightarrow> bool" where
  "evidenced s \<longleftrightarrow>
     (\<forall>i j. look_job s i = Some j \<and> terminal_status (j_status j) \<longrightarrow>
        (\<exists>r. look_receipt s (receipt_of_job i) = Some r \<and> receipt_matches_terminal_job r j))
   \<and> (\<forall>i r. look_receipt s i = Some r \<longrightarrow>
        (\<exists>j. look_job s (r_job_id r) = Some j \<and> terminal_status (j_status j)))"

definition evidence_step :: "sched_env \<Rightarrow> store \<Rightarrow> store \<Rightarrow> bool" where
  "evidence_step env s t \<longleftrightarrow>
     (fits env \<and> store_ok env s \<and> evidenced s \<longrightarrow> store_ok env t \<and> evidenced t)"

lemma evidencedD:
  assumes "evidenced s"
  shows "look_job s i = Some j \<Longrightarrow> terminal_status (j_status j) \<Longrightarrow>
      \<exists>r. look_receipt s (receipt_of_job i) = Some r \<and> receipt_matches_terminal_job r j"
    and "look_receipt s k = Some r \<Longrightarrow>
      \<exists>j. look_job s (r_job_id r) = Some j \<and> terminal_status (j_status j)"
  using assms unfolding evidenced_def by blast+

lemma stored_job_id: "store_ok env s \<Longrightarrow> look_job s i = Some j \<Longrightarrow> j_id j = i \<and> job_id_ok i"
  using job_ok_ids(1) by (fastforce dest: store_ok_job simp: job_sound_def)

lemma stored_receipt_id:
  "store_ok env s \<Longrightarrow> look_receipt s i = Some r \<Longrightarrow> i = receipt_of_job (r_job_id r) \<and> job_id_ok (r_job_id r)"
  using receipt_ok_id receipt_ok_ids by (metis store_ok_receipt)

lemma no_receipt_before_end:
  assumes "store_ok env s" and "evidenced s" and "look_job s i = Some k"
    and "\<not> terminal_status (j_status k)"
  shows "look_receipt s (receipt_of_job i) = None"
proof (rule ccontr)
  assume "look_receipt s (receipt_of_job i) \<noteq> None"
  then obtain r where r: "look_receipt s (receipt_of_job i) = Some r" by blast
  with assms(1) have "receipt_of_job i = receipt_of_job (r_job_id r)" "job_id_ok (r_job_id r)"
    using stored_receipt_id by blast+
  moreover have "job_id_ok i" using assms(1,3) stored_job_id by blast
  ultimately have "r_job_id r = i" using receipt_of_job_inj by blast
  with assms(3,4) r evidencedD(2) [OF assms(2), of _ r] show False by auto
qed

lemma matches_same_evidence:
  "receipt_matches_terminal_job r (j\<lparr>j_schema := v, j_control := c\<rparr>) = receipt_matches_terminal_job r j"
  by (simp add: receipt_matches_terminal_job_def receipt_matches_job_def)

lemma evidenced_put_job:
  assumes ok: "store_ok env s" and ev: "evidenced s" and may: "may_write s j"
  shows "evidenced (put_job j s)"
  unfolding evidenced_def
proof (intro conjI allI impI)
  fix i k assume "look_job (put_job j s) i = Some k \<and> terminal_status (j_status k)"
  then have k: "look_job (put_job j s) i = Some k" and t: "terminal_status (j_status k)" by simp_all
  show "\<exists>r. look_receipt (put_job j s) (receipt_of_job i) = Some r \<and> receipt_matches_terminal_job r k"
  proof (cases "i = j_id j")
    case False
    with k t evidencedD(1) [OF ev, of i k] show ?thesis by (simp add: job_dir.look_put)
  next
    case True
    with k have kj: "k = j" by (simp add: job_dir.look_put)
    with t may obtain l where l: "look_job s i = Some l" "job_advances l j" "terminal_status (j_status l)"
      using True by (auto simp: may_write_def split: option.splits)
    then obtain v c where j: "j = l\<lparr>j_schema := v, j_control := c\<rparr>" by (auto simp: job_advances_def)
    from ev l obtain r where "look_receipt s (receipt_of_job i) = Some r"
      "receipt_matches_terminal_job r l" unfolding evidenced_def by blast
    with j matches_same_evidence show ?thesis unfolding kj by auto
  qed
next
  fix i r assume "look_receipt (put_job j s) i = Some r"
  with evidencedD(2) [OF ev, of i r] obtain l
    where l: "look_job s (r_job_id r) = Some l" "terminal_status (j_status l)"
    by auto
  show "\<exists>k. look_job (put_job j s) (r_job_id r) = Some k \<and> terminal_status (j_status k)"
  proof (cases "r_job_id r = j_id j")
    case False
    with l show ?thesis by (simp add: job_dir.look_put)
  next
    case True
    with l may have "job_advances l j" by (simp add: may_write_def)
    with l(2) have "terminal_status (j_status j)" by (auto simp: job_advances_def)
    with True show ?thesis by (simp add: job_dir.look_put)
  qed
qed

lemma evidenced_finish:
  assumes ok: "store_ok env s" and ev: "evidenced s" and i: "job_id_ok (j_id k)"
    and r: "r_id r = receipt_of_job (j_id k)" "r_job_id r = j_id k"
    and t: "terminal_status (j_status k)" and m: "receipt_matches_terminal_job r k"
  shows "evidenced (put_job k (put_receipt r s))"
  unfolding evidenced_def
proof (intro conjI allI impI)
  fix i j assume "look_job (put_job k (put_receipt r s)) i = Some j \<and> terminal_status (j_status j)"
  then have j: "(i = j_id k \<and> j = k) \<or> (i \<noteq> j_id k \<and> look_job s i = Some j)"
    and tj: "terminal_status (j_status j)"
    by (auto simp: job_dir.look_put split: if_splits)
  show "\<exists>q. look_receipt (put_job k (put_receipt r s)) (receipt_of_job i) = Some q
          \<and> receipt_matches_terminal_job q j"
    using j
  proof (elim disjE conjE)
    assume "i = j_id k" and "j = k"
    with r m show ?thesis by (simp add: receipt_dir.look_put)
  next
    assume ne: "i \<noteq> j_id k" and l: "look_job s i = Some j"
    with ok have "job_id_ok i" using stored_job_id by blast
    with ne i receipt_of_job_inj have "receipt_of_job i \<noteq> r_id r" unfolding r by blast
    with evidencedD(1) [OF ev, of i j] l tj show ?thesis by (simp add: receipt_dir.look_put)
  qed
next
  fix i q assume q: "look_receipt (put_job k (put_receipt r s)) i = Some q"
  show "\<exists>j. look_job (put_job k (put_receipt r s)) (r_job_id q) = Some j \<and> terminal_status (j_status j)"
  proof (cases "i = r_id r")
    case True
    with q r t show ?thesis by (simp add: receipt_dir.look_put job_dir.look_put)
  next
    case False
    with q have "look_receipt s i = Some q" by (simp add: receipt_dir.look_put)
    with evidencedD(2) [OF ev, of i q] t show ?thesis by (auto simp: job_dir.look_put)
  qed
qed

lemma evidenced_frame:
  "st_jobs t = st_jobs s \<Longrightarrow> st_receipts t = st_receipts s \<Longrightarrow> evidenced t = evidenced s"
  using look_frame(1) [of t s] look_frame(2) [of t s] by (simp add: evidenced_def)

interpretation evidence: store_contract "evidence_step env" env for env
proof unfold_locales
  fix s t u :: store
  show "evidence_step env s s" by (simp add: evidence_step_def)
  show "evidence_step env s t \<Longrightarrow> evidence_step env t u \<Longrightarrow> evidence_step env s u"
    by (auto simp: evidence_step_def)
  show "(store_ok env s \<Longrightarrow> evidence_step env s t) \<Longrightarrow> evidence_step env s t"
    unfolding evidence_step_def by blast
next
  fix s :: store
  show "evidence_step env s (s\<lparr>st_present := True\<rparr>)"
    using evidenced_frame [of "s\<lparr>st_present := True\<rparr>" s] by (simp add: evidence_step_def)
next
  fix s j assume "store_ok env s" and "job_sound env j" and "may_write s j"
  then show "evidence_step env s (put_job j s)"
    by (auto simp: evidence_step_def store_ok_put_job evidenced_put_job)
next
  fix s j assume "store_ok env s" and "job_sound env j" and "may_reconcile s j"
  then show "evidence_step env s (put_job j s)"
    using no_receipt_before_end by (fastforce simp: evidence_step_def may_reconcile_def)
next
  fix s q assume "store_ok env s" and "policy_ok env q"
  then show "evidence_step env s (put_policy q s)"
    using evidenced_frame [of "put_policy q s" s] by (simp add: evidence_step_def store_ok_put_policy)
next
  fix s j st now cls code p net mut
  assume ok: "store_ok env s" and may: "may_finish env s j st now cls code"
  show "evidence_step env s (snd (finish_locked env j st now p cls code net mut s))"
    unfolding evidence_step_def
  proof (intro impI)
    assume pre: "fits env \<and> store_ok env s \<and> evidenced s"
    from may obtain k where k: "look_job s (j_id j) = Some k" "\<not> terminal_status (j_status k)"
      by (auto simp: may_finish_def)
    with pre ok have none: "look_receipt s (receipt_of_job (j_id j)) = None"
      using no_receipt_before_end by blast
    from k ok have i: "job_id_ok (j_id j)" using stored_job_id by blast
    have fits: "fits env" using pre by simp
    show "store_ok env (snd (finish_locked env j st now p cls code net mut s))
        \<and> evidenced (snd (finish_locked env j st now p cls code net mut s))"
    proof (cases rule: finish_effect [OF ok may fits none, of p net mut])
      case (1 e)
      with pre show ?thesis by simp
    next
      case (2 r k)
      with pre i show ?thesis
        by (simp add: store_ok_put_job store_ok_put_receipt evidenced_finish [of env])
    qed
  qed
qed

end
