(* ===== verification/Scheduler_Control.thy ===== *)
theory Scheduler_Control
  imports Scheduler_Contract
begin

text \<open>
  Durable commands on jobs (core/provelume/scheduler_control.py, lines 344 to 727): the
  revision that a command is bound to, the actions a job allows, the request that records a
  command once and carries it out, the completion of interrupted commands, and the
  cooperative boundary at which a running executor yields. The producer, which inspects the
  executor's own state, is an argument.
\<close>

section \<open>Revision and capabilities\<close>

definition revision_payload :: "job \<Rightarrow> json \<Rightarrow> json" where
  "revision_payload j producer =
     (let active = active_status (j_status j) in
      JObj
        [(''id'', JStr (j_id j)), (''policy_id'', JStr (j_policy_id j)),
         (''policy_revision'', JInt (j_policy_revision j)),
         (''job_kind'', JStr (kind_name (j_kind j))), (''scope'', scope_json (j_scope j)),
         (''status'', JStr (status_name (j_status j))), (''attempt'', JInt (j_attempt j)),
         (''retry'', retry_json (j_retry j)),
         (''retry_not_before'', opt_json instant_json (j_retry_not_before j)),
         (''recovery_state'', JStr (recovery_name (j_recovery_state j))),
         (''execution_plan'', opt_json id (j_plan j)),
         (''control'', JObj (case j_control j of None \<Rightarrow> [] | Some c \<Rightarrow>
            filter (\<lambda>kv. \<not> active \<or> fst kv \<notin> {''observation'', ''network_used''})
              (control_fields child_json c))),
         (''checkpoint'', if active then JNull else checkpoint_json (j_checkpoint j)),
         (''producer'', if active then JNull else producer)])"

definition revision :: "sched_env \<Rightarrow> job \<Rightarrow> json \<Rightarrow> string" where
  "revision env j producer = e_digest env (revision_payload j producer)"

definition CONTROL_ACTIONS :: "control_action list" where
  "CONTROL_ACTIONS = [Act_pause, Act_resume, Act_cancel, Act_retry, Act_restart]"

definition control_of :: "job \<Rightarrow> job_control" where
  "control_of j = (case j_control j of None \<Rightarrow> initial_control None | Some c \<Rightarrow> c)"

definition remaining :: "job \<Rightarrow> bool" where
  "remaining j \<longleftrightarrow> j_attempt j < max_attempts (j_retry j)"

definition denies :: "json \<Rightarrow> string \<Rightarrow> bool" where
  "denies producer field \<longleftrightarrow> is_obj producer \<and> jget producer field = JBool False"

text \<open>The first round of the loop body: eligibility by status, and the reason otherwise.\<close>

fun by_status :: "job \<Rightarrow> json \<Rightarrow> instant \<Rightarrow> control_action \<Rightarrow> bool \<times> string" where
  "by_status j producer now Act_pause =
     (cooperative (j_kind j) \<and> j_status j \<in> {Queued, Retry_wait, Running}, ''unsupported_state'')"
| "by_status j producer now Act_cancel =
     (j_status j \<in> {Queued, Retry_wait, Paused}
      \<or> (cooperative (j_kind j) \<and> j_status j \<in> {Running, Pausing}), ''unsupported_state'')"
| "by_status j producer now Act_resume =
     (let e = cooperative (j_kind j) \<and> j_status j = Paused \<and> remaining j in
      if e \<and> denies producer ''resumable'' then (False, ''checkpoint_changed'')
      else (e, if remaining j then ''unsupported_state'' else ''attempts_exhausted''))"
| "by_status j producer now Act_retry =
     (let e = cooperative (j_kind j) \<and> j_status j = Retry_wait \<and> remaining j in
      if e \<and> (case j_retry_not_before j of None \<Rightarrow> False | Some t \<Rightarrow> t > now)
      then (False, ''retry_not_before'') else (e, ''unsupported_state''))"
| "by_status j producer now Act_restart =
     (let e = cooperative (j_kind j) \<and> (j_status j = Paused \<or> terminal_status (j_status j)) in
      if denies producer ''restartable'' then (False, ''checkpoint_changed'')
      else (e, ''unsupported_state''))"

definition committing :: "job \<Rightarrow> bool" where
  "committing j \<longleftrightarrow> active_status (j_status j)
     \<and> (ctl_commit_started (control_of j) \<or> c_phase (j_checkpoint j) = Phase_committed)"

definition history_full :: "job \<Rightarrow> bool" where
  "history_full j \<longleftrightarrow> length (ctl_commands (control_of j)) \<ge> MAX_CONTROL_COMMANDS
     \<or> ctl_revision (control_of j) \<ge> 2 ^ 31 - 2"

definition recovering :: "job \<Rightarrow> bool" where
  "recovering j \<longleftrightarrow> ctl_completion (control_of j) \<noteq> None \<or> ctl_restart (control_of j) \<noteq> None"

definition action_state :: "job \<Rightarrow> json \<Rightarrow> instant \<Rightarrow> control_action \<Rightarrow> bool \<times> string" where
  "action_state j producer now a =
     (let r0 = by_status j producer now a;
          r1 = (if committing j then (False, ''commit_started'') else r0);
          r2 = (if history_full j then (False, ''control_history_full'') else r1);
          r3 = (if recovering j then (False, ''command_recovery'') else r2)
      in if \<not> cooperative (j_kind j) \<and> a \<noteq> Act_cancel
         then (fst r3, ''executor_not_cooperative'') else r3)"

record capability_view =
  cap_revision :: string
  cap_actions :: "control_action list"
  cap_unavailable :: "(control_action \<times> string) list"

definition capabilities :: "sched_env \<Rightarrow> job \<Rightarrow> json \<Rightarrow> instant \<Rightarrow> capability_view" where
  "capabilities env j producer now =
     \<lparr>cap_revision = revision env j producer,
      cap_actions = filter (\<lambda>a. fst (action_state j producer now a)) CONTROL_ACTIONS,
      cap_unavailable = map (\<lambda>a. (a, snd (action_state j producer now a)))
        (filter (\<lambda>a. \<not> fst (action_state j producer now a)) CONTROL_ACTIONS)\<rparr>"

section \<open>Interrupted commands\<close>

definition same_lineage :: "'a job_record \<Rightarrow> 'b job_record \<Rightarrow> bool" where
  "same_lineage a b \<longleftrightarrow>
     j_id a = j_id b \<and> j_key a = j_key b \<and> j_policy_id a = j_policy_id b
     \<and> j_policy_revision a = j_policy_revision b \<and> j_kind a = j_kind b \<and> j_scope a = j_scope b
     \<and> j_retry a = j_retry b \<and> j_plan a = j_plan b \<and> j_reason a = j_reason b
     \<and> j_scheduled_for a = j_scheduled_for b \<and> j_created_at a = j_created_at b"

definition restart_of :: "job \<Rightarrow> (string \<times> child_job) option" where
  "restart_of j = (case j_control j of None \<Rightarrow> None | Some c \<Rightarrow> ctl_restart c)"

definition parent_of :: "job \<Rightarrow> string option" where
  "parent_of j = (case j_control j of None \<Rightarrow> None | Some c \<Rightarrow> ctl_parent c)"

definition completion_of :: "job \<Rightarrow> control_action option" where
  "completion_of j = (case j_control j of None \<Rightarrow> None | Some c \<Rightarrow> ctl_completion c)"

definition validate_restart_lineage :: "job option \<Rightarrow> job \<Rightarrow> sched_error + unit" where
  "validate_restart_lineage parent child =
     (if (case parent of None \<Rightarrow> False | Some p \<Rightarrow>
            terminal_status (j_status p) \<and> parent_of child = Some (j_id p)
            \<and> (case restart_of p of None \<Rightarrow> False | Some (q, c) \<Rightarrow> same_lineage child c))
      then Inr () else Inl (Conflict_error ''restart child lineage changed''))"

text \<open>A restart child becomes a job of its own; its control holds no further restart.\<close>

definition widen_control :: "unit control \<Rightarrow> job_control" where
  "widen_control c =
     \<lparr>ctl_revision = ctl_revision c, ctl_pending = ctl_pending c,
      ctl_commit_started = ctl_commit_started c, ctl_commands = ctl_commands c,
      ctl_parent = ctl_parent c, ctl_restart = None, ctl_observation = ctl_observation c,
      ctl_network_used = ctl_network_used c, ctl_completion = ctl_completion c\<rparr>"

definition with_control :: "'a job_record \<Rightarrow> 'b option \<Rightarrow> 'b job_record" where
  "with_control j c =
     \<lparr>j_schema = j_schema j, j_id = j_id j, j_policy_id = j_policy_id j,
      j_policy_revision = j_policy_revision j, j_kind = j_kind j, j_scope = j_scope j,
      j_key = j_key j, j_reason = j_reason j, j_scheduled_for = j_scheduled_for j,
      j_eligible_at = j_eligible_at j, j_created_at = j_created_at j,
      j_updated_at = j_updated_at j, j_status = j_status j, j_attempt = j_attempt j,
      j_retry = j_retry j, j_retry_not_before = j_retry_not_before j, j_lease = j_lease j,
      j_checkpoint = j_checkpoint j, j_progress = j_progress j,
      j_recovery_state = j_recovery_state j, j_recovery_count = j_recovery_count j,
      j_attempts = j_attempts j, j_receipt_ref = j_receipt_ref j, j_control = c,
      j_plan = j_plan j\<rparr>"

definition widen :: "child_job \<Rightarrow> job" where
  "widen j = with_control j (map_option widen_control (j_control j))"

definition cancelled_at :: "sched_env \<Rightarrow> job \<Rightarrow> instant \<Rightarrow> job sched_act" where
  "cancelled_at env j now =
     bindA (get_receipt (receipt_of_job (j_id j))) (\<lambda>t.
       finish_locked env j Cancelled (case t of None \<Rightarrow> now | Some r \<Rightarrow> r_completed_at r)
         (j_progress j) (Some Cancelled_class) (Some ''cancelled_by_user'') False False)"

definition finish_restart :: "sched_env \<Rightarrow> job \<Rightarrow> instant \<Rightarrow> (job \<times> job option) sched_act" where
  "finish_restart env j now =
     (case restart_of j of
        None \<Rightarrow> ret (j, None)
      | Some (q, child) \<Rightarrow>
          bindA (if j_status j = Paused then cancelled_at env j now else ret j) (\<lambda>j.
          seqA (require (terminal_status (j_status j))
                  (Conflict_error ''restart parent has not stopped''))
          (bindA (get_receipt (receipt_of_job (j_id j))) (\<lambda>r.
           seqA (require (case r of None \<Rightarrow> False | Some x \<Rightarrow> receipt_matches_terminal_job x j)
                   (Conflict_error ''restart parent terminal evidence is incomplete''))
           (bindA (get_job env (j_id child)) (\<lambda>found.
            bindA (case found of None \<Rightarrow> write_job env (widen child) | Some c \<Rightarrow> ret c) (\<lambda>c.
            bindA (of_result (validate_restart_lineage (Some j) c)) (\<lambda>_.
            ret (j, Some c)))))))))"

definition finish_immediate :: "sched_env \<Rightarrow> job \<Rightarrow> instant \<Rightarrow> job sched_act" where
  "finish_immediate env j now =
     (if completion_of j \<noteq> Some Act_cancel then ret j else cancelled_at env j now)"

section \<open>Requests\<close>

record control_outcome =
  out_job :: job
  out_receipt :: command
  out_replayed :: bool
  out_successor :: "job option"

definition request_digest :: "sched_env \<Rightarrow> string \<Rightarrow> string" where
  "request_digest env request = e_digest env (JStr request)"

definition payload_digest ::
  "sched_env \<Rightarrow> string \<Rightarrow> control_action \<Rightarrow> string \<Rightarrow> checkpoint option \<Rightarrow> string" where
  "payload_digest env i a expected cp =
     e_digest env (JList [JStr i, JStr (action_name a), JStr expected, opt_json checkpoint_json cp])"

fun result_of_status :: "job_status \<Rightarrow> command_result" where
  "result_of_status Pausing = Res_pausing"
| "result_of_status Paused = Res_paused"
| "result_of_status Cancelling = Res_cancelling"
| "result_of_status Cancelled = Res_cancelled"
| "result_of_status _ = Res_queued"

definition target_status :: "job \<Rightarrow> control_action \<Rightarrow> job_status" where
  "target_status j a = (case a of
     Act_pause \<Rightarrow> if j_status j = Running then Pausing else Paused
   | Act_cancel \<Rightarrow> if active_status (j_status j) then Cancelling else Cancelled
   | Act_resume \<Rightarrow> Queued
   | Act_retry \<Rightarrow> Queued
   | Act_restart \<Rightarrow> j_status j)"

definition restart_child ::
  "sched_env \<Rightarrow> job \<Rightarrow> policy \<Rightarrow> string \<Rightarrow> json \<Rightarrow> instant \<Rightarrow> child_job" where
  "restart_child env j p rd producer now =
     \<lparr>j_schema = j_schema j,
      j_id = ''job_'' @ take 32 (e_digest env (JList [JStr (j_id j), JStr rd])),
      j_policy_id = j_policy_id j, j_policy_revision = p_revision p, j_kind = j_kind j,
      j_scope = j_scope j,
      j_key = e_digest env (JList [JStr ''restart'', JStr (j_id j), JStr rd]),
      j_reason = Reason_manual, j_scheduled_for = now, j_eligible_at = now, j_created_at = now,
      j_updated_at = now, j_status = Queued, j_attempt = 0, j_retry = p_retry p,
      j_retry_not_before = None, j_lease = None, j_checkpoint = no_checkpoint,
      j_progress = no_progress, j_recovery_state = Recovery_none, j_recovery_count = 0,
      j_attempts = [], j_receipt_ref = None, j_control = Some (initial_control (Some (j_id j))),
      j_plan = (if is_obj producer \<and> j_plan j \<noteq> None
                then (case jget producer ''execution_plan'' of JNull \<Rightarrow> None | v \<Rightarrow> Some v)
                else j_plan j)\<rparr>"

definition replay_request ::
  "sched_env \<Rightarrow> job \<Rightarrow> command \<Rightarrow> string \<Rightarrow> instant \<Rightarrow> control_outcome sched_act" where
  "replay_request env j c payload now =
     seqA (require (cmd_payload c = payload) (Conflict_error ''control request identity was reused''))
     (bindA (finish_immediate env j now) (\<lambda>j.
      bindA (finish_restart env j now) (\<lambda>(j, child).
      ret \<lparr>out_job = j, out_receipt = c, out_replayed = True, out_successor = child\<rparr>)))"

definition recorded_command ::
  "control_action \<Rightarrow> string \<Rightarrow> string \<Rightarrow> string \<Rightarrow> job_status \<Rightarrow> instant \<Rightarrow> child_job option \<Rightarrow> command" where
  "recorded_command a rd payload expected target now child =
     \<lparr>cmd_request = rd, cmd_payload = payload, cmd_action = a, cmd_expected = expected,
      cmd_result = (if child \<noteq> None then Res_restarted else result_of_status target),
      cmd_accepted_at = now, cmd_successor = map_option j_id child\<rparr>"

definition commanded_control ::
  "job_control \<Rightarrow> command \<Rightarrow> control_action \<Rightarrow> job_status \<Rightarrow> int \<Rightarrow> child_job option \<Rightarrow> job_control" where
  "commanded_control c cmd a target n child =
     c\<lparr>ctl_revision := ctl_revision c + 1, ctl_commands := ctl_commands c @ [cmd],
       ctl_pending := (if target \<in> {Pausing, Cancelling}
                       then Some \<lparr>pend_action = a, pend_request = cmd_request cmd, pend_attempt = n\<rparr>
                       else ctl_pending c),
       ctl_restart := (case child of None \<Rightarrow> ctl_restart c | Some k \<Rightarrow> Some (cmd_request cmd, k))\<rparr>"

definition child_for ::
  "sched_env \<Rightarrow> job \<Rightarrow> control_action \<Rightarrow> string \<Rightarrow> json \<Rightarrow> instant \<Rightarrow> child_job option sched_act" where
  "child_for env j a rd producer now =
     (if a \<noteq> Act_restart then ret None
      else bindA (get_policy env (j_policy_id j)) (\<lambda>p.
        case p of
          None \<Rightarrow> raise (Conflict_error ''restart policy changed'')
        | Some q \<Rightarrow>
            seqA (require (p_scope q = j_scope j \<and> p_kind q = j_kind j)
                    (Conflict_error ''restart policy changed''))
              (ret (Some (restart_child env j q rd producer now)))))"

definition admit_request ::
  "sched_env \<Rightarrow> job \<Rightarrow> control_action \<Rightarrow> string \<Rightarrow> string \<Rightarrow> string \<Rightarrow> json \<Rightarrow> instant
   \<Rightarrow> control_outcome sched_act" where
  "admit_request env j0 a rd payload expected producer now =
     (let j1 = promote j0; target = target_status j1 a;
          j = (if a = Act_pause \<and> j_status j1 = Retry_wait
               then j1\<lparr>j_eligible_at := max (j_eligible_at j1) (the (j_retry_not_before j1))\<rparr>
               else j1)
      in bindA (child_for env j a rd producer now) (\<lambda>child.
         let cmd = recorded_command a rd payload expected target now child;
             c = commanded_control (control_of j) cmd a target (j_attempt j) child
         in bindA (if target = Cancelled \<and> child = None
                   then bindA (write_job env (j\<lparr>j_control := Some (c\<lparr>ctl_completion := Some Act_cancel\<rparr>)\<rparr>))
                          (\<lambda>j. finish_immediate env j now)
                   else write_job env (j\<lparr>j_control := Some c, j_status := target,
                          j_retry_not_before := (if target \<noteq> Retry_wait then None
                                                 else j_retry_not_before j)\<rparr>)) (\<lambda>j.
            bindA (finish_restart env j now) (\<lambda>(j, successor).
            ret \<lparr>out_job = j, out_receipt = cmd, out_replayed = False,
                 out_successor = successor\<rparr>))))"

definition request_control ::
  "sched_env \<Rightarrow> (job \<Rightarrow> json) \<Rightarrow> string \<Rightarrow> control_action \<Rightarrow> string \<Rightarrow> string \<Rightarrow> checkpoint option
   \<Rightarrow> instant \<Rightarrow> control_outcome sched_act" where
  "request_control env producer i a expected request cp now =
     seqA (require (sha256_text expected \<and> 1 \<le> length request \<and> length request \<le> 200)
             (Scheduler_error ''invalid job control request''))
     (let rd = request_digest env request; payload = payload_digest env i a expected cp in
      seqA hold
      (bindA (found_job env i) (\<lambda>j.
       case find (\<lambda>c. cmd_request c = rd) (ctl_commands (control_of j)) of
         Some c \<Rightarrow> replay_request env j c payload now
       | None \<Rightarrow>
           let found = (if active_status (j_status j) then JNull else producer j);
               view = capabilities env j found now
           in seqA (require (cap_revision view = expected)
                      (Conflict_error ''job control preview is stale''))
              (seqA (require (a \<in> set (cap_actions view))
                      (Conflict_error (case map_of (cap_unavailable view) a of
                                         None \<Rightarrow> [] | Some reason \<Rightarrow> reason)))
              (seqA (require (cp = None \<or> cp = Some (j_checkpoint j))
                      (Conflict_error ''job checkpoint changed''))
                (admit_request env j a rd payload expected found now))))))"

section \<open>The cooperative boundary\<close>

record sample =
  sm_unit :: string
  sm_completed :: int
  sm_total :: int
  sm_plan :: string

datatype boundary_result = Continues | Stops job

definition sample_rate :: "observation option \<Rightarrow> job \<Rightarrow> sample \<Rightarrow> instant \<Rightarrow> rat option" where
  "sample_rate previous j b now =
     (case previous of
        None \<Rightarrow> None
      | Some q \<Rightarrow>
          if ob_attempt q = j_attempt j \<and> ob_plan_revision q = sm_plan b \<and> ob_unit q = sm_unit b
             \<and> now - ob_sampled_at q > 0 \<and> sm_completed b \<ge> ob_completed q
          then (let (n1, d1) = round_double (sm_completed b - ob_completed q) 1;
                    (n2, d2) = round_double (now - ob_sampled_at q) 1000000;
                    (n, d) = round_double (n1 * d2) (d1 * n2)
                in Some (Fract n d))
          else None)"

definition observed :: "job_control \<Rightarrow> job \<Rightarrow> sample \<Rightarrow> instant \<Rightarrow> job_control" where
  "observed c j b now =
     c\<lparr>ctl_observation := Some \<lparr>ob_unit = sm_unit b, ob_completed = sm_completed b,
        ob_total = sm_total b, ob_plan_revision = sm_plan b, ob_attempt = j_attempt j,
        ob_sampled_at = now, ob_rate = sample_rate (ctl_observation c) j b now\<rparr>\<rparr>"

definition paused_attempts :: "attempt list \<Rightarrow> instant \<Rightarrow> attempt list" where
  "paused_attempts as now =
     (if as = [] then [] else
      butlast as @ [(last as)\<lparr>a_outcome := Attempt_paused, a_completed_at := Some now\<rparr>])"

definition paused_job :: "job \<Rightarrow> instant \<Rightarrow> job" where
  "paused_job j now =
     j\<lparr>j_status := Paused, j_lease := None, j_attempts := paused_attempts (j_attempts j) now,
       j_updated_at := now,
       j_recovery_state := (if c_sequence (j_checkpoint j) > 2 then Resumable else Restart_only)\<rparr>"

definition boundary_owned ::
  "sched_env \<Rightarrow> job \<Rightarrow> bool \<Rightarrow> sample option \<Rightarrow> bool \<Rightarrow> instant \<Rightarrow> boundary_result sched_act" where
  "boundary_owned env j0 commit obs network now =
     (let j = promote j0; c0 = control_of j;
          changed = network \<and> \<not> ctl_network_used c0;
          c1 = c0\<lparr>ctl_network_used := ctl_network_used c0 \<or> network\<rparr>;
          c = (case obs of None \<Rightarrow> c1 | Some b \<Rightarrow> observed c1 j b now)
      in case ctl_pending c of
           Some intent \<Rightarrow>
             (let k = j\<lparr>j_control := Some (c\<lparr>ctl_pending := None, ctl_revision := ctl_revision c + 1\<rparr>)\<rparr>
              in bindA (if pend_action intent = Act_cancel
                        then finish_locked env k Cancelled now (j_progress j) (Some Cancelled_class)
                               (Some ''cancelled_by_user'') False False
                        else write_job env (paused_job k now)) (\<lambda>stopped.
                 ret (Stops stopped)))
         | None \<Rightarrow>
             if commit \<and> \<not> ctl_commit_started c
             then bindA (write_job env (j\<lparr>j_control := Some (c\<lparr>ctl_commit_started := True,
                                            ctl_revision := ctl_revision c + 1\<rparr>)\<rparr>)) (\<lambda>_. ret Continues)
             else if obs \<noteq> None \<or> changed
             then bindA (write_job env (j\<lparr>j_control := Some c\<rparr>)) (\<lambda>_. ret Continues)
             else ret Continues)"

definition boundary ::
  "sched_env \<Rightarrow> string \<Rightarrow> string \<Rightarrow> bool \<Rightarrow> sample option \<Rightarrow> bool \<Rightarrow> instant \<Rightarrow> boundary_result sched_act" where
  "boundary env i token commit obs network now =
     seqA hold
     (bindA (found_job env i) (\<lambda>j.
      seqA (owned j token now) (boundary_owned env j commit obs network now)))"

section \<open>Facts of the records\<close>

lemma promote_fields [simp]:
  "j_id (promote j) = j_id j" "j_policy_id (promote j) = j_policy_id j"
  "j_policy_revision (promote j) = j_policy_revision j" "j_kind (promote j) = j_kind j"
  "j_scope (promote j) = j_scope j" "j_key (promote j) = j_key j" "j_reason (promote j) = j_reason j"
  "j_scheduled_for (promote j) = j_scheduled_for j" "j_created_at (promote j) = j_created_at j"
  "j_retry (promote j) = j_retry j" "j_status (promote j) = j_status j"
  "j_attempt (promote j) = j_attempt j" "j_attempts (promote j) = j_attempts j"
  "j_checkpoint (promote j) = j_checkpoint j" "j_recovery_count (promote j) = j_recovery_count j"
  "j_retry_not_before (promote j) = j_retry_not_before j" "j_lease (promote j) = j_lease j"
  "j_progress (promote j) = j_progress j" "j_eligible_at (promote j) = j_eligible_at j"
  by (simp_all add: promote_def)

lemma schema_of_ok: "job_ok env j \<Longrightarrow> j_schema j = 1 \<and> j_control j = None \<and> j_plan j = None
    \<or> j_schema j = 2 \<and> j_control j \<noteq> None"
  by (drule job_ok_core) (auto simp: job_core_ladder_def controlled_schema_def Let_def split: if_splits)

lemma promote_plan [simp]: "job_ok env j \<Longrightarrow> j_plan (promote j) = j_plan j"
  using schema_of_ok [of env j] by (auto simp: promote_def)

lemma control_of_promote: "job_ok env j \<Longrightarrow> control_of (promote j) = control_of j"
  using schema_of_ok [of env j] by (auto simp: promote_def control_of_def)

lemma promote_control: "job_ok env j \<Longrightarrow> \<exists>c. j_control (promote j) = Some c"
  using schema_of_ok [of env j] by (auto simp: promote_def)

lemma promote_upgrade: "promote j = j\<lparr>j_schema := j_schema (promote j), j_control := j_control (promote j)\<rparr>"
  if "job_ok env j"
  using schema_of_ok [OF that] by (auto simp: promote_def)

lemma get_job_none:
  "get_job env i s = (Inr None, s') \<Longrightarrow> job_id_ok i \<Longrightarrow> s' = s \<and> look_job s i = None"
  by (auto simp: get_job_def split: option.splits sum.splits)

lemma get_job_state: "get_job env i s = (x, s') \<Longrightarrow> s' = s"
  by (simp add: get_job_def)

lemma get_receipt_state: "get_receipt i s = (x, s') \<Longrightarrow> s' = s"
  by (simp add: get_receipt_def)

lemma get_policy_state: "get_policy env i s = (x, s') \<Longrightarrow> s' = s"
  by (simp add: get_policy_def)

lemma write_job_result:
  "write_job env j s = (Inr k, s') \<longleftrightarrow> k = j \<and> job_ok env j \<and> s' = put_job j s"
  using validate_job_cases [of env j] by (auto simp: write_job_def)

lemma finish_stored:
  assumes "may_finish env s j st now cls code"
    and "finish_locked env j st now p cls code net mut s = (Inr k, s')"
  shows "look_job s' (j_id k) = Some k \<and> job_sound env k \<and> j_id k = j_id j \<and> terminal_status (j_status k)
         \<and> j_status k = st \<and> j_control k = map_option (\<lambda>c. c\<lparr>ctl_pending := None, ctl_completion := None\<rparr>) (j_control j)"
proof (cases rule: finish_locked_cases [of env j st now p cls code net mut s])
  case (refused e)
  with assms(2) show ?thesis by simp
next
  case attempted
  with assms(2) obtain r t where "write_job env (finished_job j st now p
      (close_attempt (finish_outcome st) now cls code (j_attempts j)) r) t = (Inr k, s')"
    by (auto simp: bindA_result)
  then show ?thesis
    using may_finish_sound [OF assms(1) attempted(1)] attempted(1)
    by (auto simp: write_job_result job_sound_def job_dir.look_put)
qed

lemma widen_fields [simp]:
  "j_id (widen j) = j_id j" "j_status (widen j) = j_status j" "j_attempts (widen j) = j_attempts j"
  "j_recovery_count (widen j) = j_recovery_count j" "j_key (widen j) = j_key j"
  "j_attempt (widen j) = j_attempt j"
  "j_control (widen j) = map_option widen_control (j_control j)"
  by (simp_all add: widen_def with_control_def)

lemma restart_child_facts:
  assumes ok: "job_ok env j" and r: "restart_of j = Some (q, c)"
  shows "j_status c = Queued" and "j_attempts c = []" and "job_id_ok (j_id c)"
    and "\<exists>cc. j_control c = Some cc \<and> ctl_parent cc = Some (j_id j)"
    and "(\<exists>cc. j_control c = Some cc \<and> ctl_pending cc = None)"
    and "j_attempt c = 0"
proof -
  from r obtain d where d: "j_control j = Some d" "ctl_restart d = Some (q, c)"
    by (auto simp: restart_of_def split: option.splits)
  with control_of_ok [OF ok] have l: "first_failure (restart_ladder env j d) = None"
    by (simp add: control_ladder_def)
  with d have child: "first_failure (child_ladder env c) = None"
    and lin: "j_status c = Queued" "j_attempt c = 0"
      "\<exists>cc. j_control c = Some cc \<and> ctl_parent cc = Some (j_id j)"
    by (auto simp: restart_ladder_def split: option.splits)
  from child have core: "first_failure (job_core_ladder c) = None" by (simp add: child_ladder_def)
  then have "int (length (j_attempts c)) = j_attempt c"
    by (simp add: job_core_ladder_def history_ladder_def Let_def)
  with lin show "j_status c = Queued" "j_attempt c = 0" "j_attempts c = []"
    "\<exists>cc. j_control c = Some cc \<and> ctl_parent cc = Some (j_id j)" by simp_all
  from core show "job_id_ok (j_id c)" by (simp add: job_core_ladder_def Let_def)
  from child lin show "\<exists>cc. j_control c = Some cc \<and> ctl_pending cc = None"
    by (auto simp: child_ladder_def control_head_ladder_def pending_ladder_def split: option.splits)
qed

lemma widen_bookkeeping:
  assumes "job_sound env j" and "restart_of j = Some (q, c)"
  shows "bookkeeping_ok (widen c)"
proof -
  from assms have ok: "job_ok env j" by (simp add: job_sound_def)
  note facts = restart_child_facts [OF ok assms(2)]
  have "j_recovery_count c = 0"
    using assms by (auto simp: job_sound_def bookkeeping_defs restart_of_def split: option.splits)
  with facts show ?thesis
    by (auto simp: bookkeeping_defs widen_control_def)
qed

lemma completion_waiting:
  assumes "job_ok env j" and "completion_of j \<noteq> None"
  shows "j_status j \<in> {Queued, Retry_wait, Paused}"
proof -
  from assms(2) obtain c where c: "j_control j = Some c" "ctl_completion c \<noteq> None"
    by (auto simp: completion_of_def split: option.splits)
  with control_of_ok [OF assms(1)] have "first_failure (control_head_ladder j c) = None"
    by (simp add: control_ladder_def)
  with c show ?thesis by (simp add: control_head_ladder_def)
qed

section \<open>Commands respect the contract\<close>

context store_contract
begin

lemma cancelled_at_step:
  assumes "look_job s (j_id j) = Some j" and "job_sound env j"
    and "j_status j \<in> {Queued, Retry_wait, Paused}"
  shows "R s (snd (cancelled_at env j now s))"
  unfolding cancelled_at_def get_receipt_def using assms
  by (intro step_query step_finish may_finish_waiting) auto

lemma finish_immediate_step:
  assumes "look_job s (j_id j) = Some j" and "job_sound env j"
  shows "R s (snd (finish_immediate env j now s))"
  using completion_waiting [of env j] assms
  by (auto simp: finish_immediate_def R_refl job_sound_def intro!: cancelled_at_step)

lemma finish_restart_step:
  assumes look: "look_job s (j_id j) = Some j" and snd: "job_sound env j"
  shows "R s (snd (finish_restart env j now s))"
proof (cases "restart_of j")
  case None
  then show ?thesis by (simp add: finish_restart_def R_refl)
next
  case (Some x)
  obtain q c where x: "x = (q, c)" by (cases x)
  have ok: "job_ok env j" using snd by (simp add: job_sound_def)
  note child = restart_child_facts [OF ok Some [unfolded x]]
  have child_write: "R t (snd (bindA (case found of None \<Rightarrow> write_job env (widen c) | Some d \<Rightarrow> ret d)
      (\<lambda>d. bindA (of_result (validate_restart_lineage (Some k) d)) (\<lambda>_. ret (k, Some d))) t))"
    if f: "get_job env (j_id c) u = (Inr found, t)" for k t u found
  proof (rule step_bind)
    show "R t (snd ((case found of None \<Rightarrow> write_job env (widen c) | Some d \<Rightarrow> ret d) t))"
    proof (cases found)
      case None
      with f child(3) have "look_job t (j_id (widen c)) = None"
        using get_job_none by fastforce
      then have "may_write t (widen c)" using child(1) by (simp add: may_write_def)
      with None child(2) widen_bookkeeping [OF snd Some [unfolded x]] show ?thesis
        by (simp add: step_write_job)
    qed (simp add: R_refl)
  qed (auto intro: step_result simp: R_refl)
  have first: "R s (snd ((if j_status j = Paused then cancelled_at env j now else ret j) s))"
    using look snd by (auto intro: cancelled_at_step simp: R_refl)
  show ?thesis
    unfolding finish_restart_def Some x option.case prod.case
    by (intro step_bind step_require first child_write)
       (auto simp: R_refl get_receipt_def get_job_def)
qed

end

lemma allowed_action:
  assumes "a \<in> set (cap_actions (capabilities env j pr now))"
  shows "fst (by_status j pr now a)" and "\<not> committing j" and "\<not> history_full j"
    and "\<not> recovering j"
  using assms by (auto simp: capabilities_def action_state_def Let_def split: if_splits)

text \<open>The record that an admitted command writes, from the stored one.\<close>

definition commanded_job :: "job \<Rightarrow> control_action \<Rightarrow> job_control \<Rightarrow> job" where
  "commanded_job j0 a c =
     (let j1 = promote j0; target = target_status j1 a;
          j = (if a = Act_pause \<and> j_status j1 = Retry_wait
               then j1\<lparr>j_eligible_at := max (j_eligible_at j1) (the (j_retry_not_before j1))\<rparr>
               else j1)
      in if target = Cancelled \<and> a = Act_cancel
         then j\<lparr>j_control := Some (c\<lparr>ctl_completion := Some Act_cancel\<rparr>)\<rparr>
         else j\<lparr>j_control := Some c, j_status := target,
                j_retry_not_before := (if target \<noteq> Retry_wait then None
                                       else j_retry_not_before j)\<rparr>)"

lemma target_allowed:
  assumes "fst (by_status j pr now a)"
  shows "terminal_status (target_status j a) \<Longrightarrow>
      (a = Act_cancel \<and> target_status j a = Cancelled) \<or> (a = Act_restart \<and> terminal_status (j_status j))"
    and "active_status (target_status j a) \<Longrightarrow> active_status (j_status j)"
    and "terminal_status (j_status j) \<Longrightarrow> a = Act_restart"
    and "target_status j a = Cancelled \<Longrightarrow> a = Act_cancel \<Longrightarrow> j_status j \<in> {Queued, Retry_wait, Paused}"
    and "a = Act_cancel \<Longrightarrow> target_status j a \<noteq> Cancelled \<Longrightarrow> active_status (j_status j)"
  using assms
  by (cases a; auto simp: target_status_def Let_def split: if_splits)+

lemma commanded_fields [simp]:
  "j_id (commanded_job j0 a c) = j_id j0"
  "j_attempts (commanded_job j0 a c) = j_attempts j0"
  "j_recovery_count (commanded_job j0 a c) = j_recovery_count j0"
  "j_checkpoint (commanded_job j0 a c) = j_checkpoint j0"
  "j_attempt (commanded_job j0 a c) = j_attempt j0" "j_retry (commanded_job j0 a c) = j_retry j0"
  by (simp_all add: commanded_job_def Let_def)

lemma target_promote [simp]: "target_status (promote j) a = target_status j a"
  by (cases a) (simp_all add: target_status_def)

lemma commanded_status:
  "j_status (commanded_job j0 a c) =
     (if target_status j0 a = Cancelled \<and> a = Act_cancel then j_status j0 else target_status j0 a)"
  by (cases "target_status j0 a = Cancelled"; cases "a = Act_cancel")
     (auto simp: commanded_job_def Let_def)

lemma commanded_control_of:
  "\<exists>x. j_control (commanded_job j0 a c) = Some (c\<lparr>ctl_completion := x\<rparr>)"
proof (cases "target_status j0 a = Cancelled \<and> a = Act_cancel")
  case True
  then have "j_control (commanded_job j0 a c) = Some (c\<lparr>ctl_completion := Some Act_cancel\<rparr>)"
    by (auto simp: commanded_job_def Let_def)
  then show ?thesis by blast
next
  case False
  then have "j_control (commanded_job j0 a c) = Some c"
    by (auto simp: commanded_job_def Let_def)
  then show ?thesis by (intro exI [of _ "ctl_completion c"]) simp
qed

lemma commanded_advances:
  assumes ok: "job_ok env j0" and by_st: "fst (by_status j0 pr now a)"
  shows "job_advances j0 (commanded_job j0 a c)"
proof -
  have adm: "same_admission j0 (commanded_job j0 a c)"
    using ok by (simp add: same_admission_def commanded_job_def Let_def)
  have "\<exists>v d. commanded_job j0 a c = j0\<lparr>j_schema := v, j_control := d\<rparr>"
    if t: "terminal_status (j_status j0)"
  proof -
    have a: "a = Act_restart" using target_allowed(3) [OF by_st t] .
    have rnb: "j_retry_not_before j0 = None" using job_ok_retry_instant [OF ok] t by auto
    moreover have "j_status j0 \<noteq> Retry_wait" using t by auto
    ultimately have "commanded_job j0 a c =
        (promote j0)\<lparr>j_control := Some c, j_status := j_status j0, j_retry_not_before := None\<rparr>"
      using a by (simp add: commanded_job_def target_status_def Let_def)
    also have "\<dots> = j0\<lparr>j_schema := j_schema (promote j0), j_control := Some c\<rparr>"
      using rnb schema_of_ok [OF ok] by (cases j0) (auto simp: promote_def)
    finally have "commanded_job j0 a c = j0\<lparr>j_schema := j_schema (promote j0), j_control := Some c\<rparr>" .
    then show ?thesis by blast
  qed
  with adm show ?thesis by (simp add: job_advances_def history_extends_refl)
qed

lemma child_for_result:
  "child_for env j a rd pr now s = (x, s') \<Longrightarrow> s' = s \<and> (\<forall>child. x = Inr child \<longrightarrow>
     (a = Act_restart \<longleftrightarrow> child \<noteq> None) \<and> (\<forall>k. child = Some k \<longrightarrow> j_recovery_count k = 0))"
  by (auto simp: child_for_def bindA_def seqA_def require_def get_policy_def restart_child_def
      split: if_splits sum.splits option.splits prod.splits)

lemma commanded_bookkeeping:
  assumes snd: "job_sound env j0" and by_st: "fst (by_status j0 pr now a)" and room: "\<not> history_full j0"
    and c: "c = commanded_control (control_of j0) cmd a t n child"
    and child: "\<And>k. child = Some k \<Longrightarrow> j_recovery_count k = 0"
  shows "bookkeeping_ok (commanded_job j0 a c)"
proof -
  obtain x where x: "j_control (commanded_job j0 a c) = Some (c\<lparr>ctl_completion := x\<rparr>)"
    using commanded_control_of by blast
  have "active_status (j_status (commanded_job j0 a c)) \<Longrightarrow> active_status (j_status j0)"
    using target_allowed(2) [OF by_st] by (simp add: commanded_status split: if_splits)
  then have "recoveries_bounded (commanded_job j0 a c)"
    using snd by (auto simp: job_sound_def bookkeeping_ok_def recoveries_bounded_def split: if_splits)
  moreover have "fresh_child (commanded_job j0 a c)"
  proof (cases child)
    case None
    have "case ctl_restart (control_of j0) of None \<Rightarrow> True | Some (q, k) \<Rightarrow> j_recovery_count k = 0"
      using snd
      by (cases "j_control j0") (simp_all add: control_of_def job_sound_def bookkeeping_ok_def fresh_child_def)
    moreover have "ctl_restart c = ctl_restart (control_of j0)"
      by (simp add: c commanded_control_def None)
    ultimately show ?thesis by (simp add: fresh_child_def x)
  next
    case (Some k)
    then have "ctl_restart c = Some (cmd_request cmd, k)" by (simp add: c commanded_control_def)
    with child [OF Some] show ?thesis by (simp add: fresh_child_def x)
  qed
  moreover have "pending_room (commanded_job j0 a c)"
  proof -
    have "ctl_revision c = ctl_revision (control_of j0) + 1" by (simp add: c commanded_control_def)
    with room show ?thesis by (simp add: pending_room_def x history_full_def)
  qed
  moreover have "attempts_bounded (commanded_job j0 a c)"
    using snd by (simp add: job_sound_def bookkeeping_ok_def attempts_bounded_def)
  ultimately show ?thesis by (simp add: bookkeeping_ok_def)
qed

lemma commanded_may_write:
  assumes look: "look_job s (j_id j0) = Some j0" and snd: "job_sound env j0"
    and by_st: "fst (by_status j0 pr now a)"
  shows "may_write s (commanded_job j0 a c)"
proof -
  have "job_advances j0 (commanded_job j0 a c)"
    using commanded_advances [of env j0 pr now a c] by_st snd by (simp add: job_sound_def)
  moreover have "terminal_status (j_status (commanded_job j0 a c)) \<Longrightarrow> terminal_status (j_status j0)"
    using target_allowed(1,4) [OF by_st] target_allowed(5) [OF by_st] active_not_terminal
    by (auto simp: commanded_status split: if_splits)
  ultimately show ?thesis using look by (simp add: may_write_def)
qed

lemma finish_immediate_stored:
  assumes "look_job s (j_id j) = Some j" and "job_sound env j"
    and "finish_immediate env j now s = (Inr k, s')"
  shows "look_job s' (j_id k) = Some k \<and> job_sound env k"
proof (cases "completion_of j = Some Act_cancel")
  case False
  with assms show ?thesis by (simp add: finish_immediate_def)
next
  case True
  then have "j_status j \<in> {Queued, Retry_wait, Paused}"
    using completion_waiting [of env j] assms(2) by (simp add: job_sound_def)
  then have may: "may_finish env s j Cancelled w cls code" for w cls code
    using assms(1,2) by (intro may_finish_waiting) auto
  from True assms(3) obtain t u where g: "get_receipt (receipt_of_job (j_id j)) s = (Inr t, u)"
    and f: "finish_locked env j Cancelled (case t of None \<Rightarrow> now | Some r \<Rightarrow> r_completed_at r)
      (j_progress j) (Some Cancelled_class) (Some ''cancelled_by_user'') False False u = (Inr k, s')"
    by (auto simp: finish_immediate_def cancelled_at_def bindA_result)
  from g have "u = s" by (rule get_receipt_state)
  with f finish_stored [OF may] show ?thesis by blast
qed

definition command_base :: "job \<Rightarrow> control_action \<Rightarrow> job" where
  "command_base j0 a =
     (if a = Act_pause \<and> j_status j0 = Retry_wait
      then (promote j0)\<lparr>j_eligible_at := max (j_eligible_at j0) (the (j_retry_not_before j0))\<rparr>
      else promote j0)"

definition command_control ::
  "job \<Rightarrow> control_action \<Rightarrow> string \<Rightarrow> string \<Rightarrow> string \<Rightarrow> instant \<Rightarrow> child_job option \<Rightarrow> job_control" where
  "command_control j0 a rd payload expected now child =
     commanded_control (control_of j0)
       (recorded_command a rd payload expected (target_status j0 a) now child) a (target_status j0 a)
       (j_attempt j0) child"

lemma commanded_sound:
  assumes snd: "job_sound env j0" and by_st: "fst (by_status j0 pr now a)" and room: "\<not> history_full j0"
    and child: "\<And>k. child = Some k \<Longrightarrow> j_recovery_count k = 0"
  shows "earlier_closed (j_attempts (commanded_job j0 a (command_control j0 a rd payload expected t child)))
       \<and> bookkeeping_ok (commanded_job j0 a (command_control j0 a rd payload expected t child))"
  using snd commanded_bookkeeping [OF snd by_st room command_control_def child]
  by (simp add: job_sound_def)

text \<open>An admitted command, in terms of the one record that it writes.\<close>

lemma admit_request_commanded:
  assumes ok: "job_ok env j0"
  shows "admit_request env j0 a rd payload expected producer now s =
    bindA (child_for env (command_base j0 a) a rd producer now) (\<lambda>child.
      bindA (if target_status j0 a = Cancelled \<and> child = None
          then bindA (write_job env (commanded_job j0 a (command_control j0 a rd payload expected now child)))
                 (\<lambda>j. finish_immediate env j now)
          else write_job env (commanded_job j0 a (command_control j0 a rd payload expected now child)))
        (\<lambda>k. bindA (finish_restart env k now) (\<lambda>(k, successor).
          ret \<lparr>out_job = k, out_receipt = recorded_command a rd payload expected (target_status j0 a) now child,
               out_replayed = False, out_successor = successor\<rparr>))) s"
proof -
  let ?j = "command_base j0 a"
  have base: "(if a = Act_pause \<and> j_status (promote j0) = Retry_wait
      then (promote j0)\<lparr>j_eligible_at := max (j_eligible_at (promote j0)) (the (j_retry_not_before (promote j0)))\<rparr>
      else promote j0) = ?j" by (simp add: command_base_def)
  have co: "control_of ?j = control_of j0"
    using control_of_promote [OF ok] by (simp add: command_base_def control_of_def)
  have at: "j_attempt ?j = j_attempt j0" by (simp add: command_base_def)
  have link: "target_status j0 a = Cancelled \<and> child = None \<longleftrightarrow> target_status j0 a = Cancelled \<and> a = Act_cancel"
    if "a = Act_restart \<longleftrightarrow> child \<noteq> None" for child :: "child_job option"
    using that by (cases a) (auto simp: target_status_def split: if_splits)
  have same: "(if target_status j0 a = Cancelled \<and> child = None
        then bindA (write_job env (?j\<lparr>j_control := Some (c\<lparr>ctl_completion := Some Act_cancel\<rparr>)\<rparr>))
               (\<lambda>j. finish_immediate env j now)
        else write_job env (?j\<lparr>j_control := Some c, j_status := target_status j0 a,
               j_retry_not_before := (if target_status j0 a \<noteq> Retry_wait then None
                                      else j_retry_not_before ?j)\<rparr>))
      = (if target_status j0 a = Cancelled \<and> child = None
        then bindA (write_job env (commanded_job j0 a c)) (\<lambda>j. finish_immediate env j now)
        else write_job env (commanded_job j0 a c))"
    if "a = Act_restart \<longleftrightarrow> child \<noteq> None" for child :: "child_job option" and c
    using link [OF that] by (auto simp: commanded_job_def command_base_def Let_def)
  obtain x t where ch: "child_for env ?j a rd producer now s = (x, t)"
    by (cases "child_for env ?j a rd producer now s")
  show ?thesis
  proof (cases x)
    case (Inl e)
    with ch show ?thesis by (simp add: admit_request_def Let_def base [simplified])
  next
    case (Inr child)
    with child_for_result ch have "a = Act_restart \<longleftrightarrow> child \<noteq> None" by blast
    with ch Inr show ?thesis
      by (simp only: admit_request_def Let_def base co at target_promote bindA_Inr same
          command_control_def)
  qed
qed

context store_contract
begin

lemma step_tail:
  "R s (snd (m s)) \<Longrightarrow> R s (snd (bindA m (\<lambda>x. ret (f x)) s))"
  by (rule step_bind) (simp_all add: R_refl)

lemma finish_restart_tail:
  assumes "look_job s (j_id j) = Some j" and "job_sound env j"
  shows "R s (snd (bindA (finish_restart env j now) (\<lambda>(j, child). ret (f j child)) s))"
  using finish_restart_step [OF assms] by (rule step_bind) (simp add: R_refl split: prod.splits)

lemma replay_request_step:
  assumes "look_job s (j_id j) = Some j" and "job_sound env j"
  shows "R s (snd (replay_request env j c payload now s))"
  unfolding replay_request_def
proof (rule step_require, rule step_bind, rule finish_immediate_step [OF assms])
  fix k s' assume "finish_immediate env j now s = (Inr k, s')"
  with assms have "look_job s' (j_id k) = Some k" "job_sound env k"
    using finish_immediate_stored by blast+
  then show "R s' (snd (bindA (finish_restart env k now) (\<lambda>(j, child). ret \<lparr>out_job = j,
      out_receipt = c, out_replayed = True, out_successor = child\<rparr>) s'))"
    by (rule finish_restart_tail)
qed

lemma admit_request_step:
  assumes look: "look_job s (j_id j0) = Some j0" and snd: "job_sound env j0"
    and by_st: "fst (by_status j0 pr now a)" and room: "\<not> history_full j0"
  shows "R s (snd (admit_request env j0 a rd payload expected producer now s))"
proof -
  have ok: "job_ok env j0" using snd by (simp add: job_sound_def)
  have wr: "R s (snd (write_job env (commanded_job j0 a (command_control j0 a rd payload expected now child)) s))"
    if "\<And>k. child = Some k \<Longrightarrow> j_recovery_count k = 0" for child
    using commanded_sound [OF snd by_st room that] commanded_may_write [OF look snd by_st]
    by (intro step_write_job) simp
  have stored: "look_job t (j_id k) = Some k \<and> job_sound env k"
    if "write_job env (commanded_job j0 a (command_control j0 a rd payload expected now child)) u = (Inr k, t)"
      and "\<And>k. child = Some k \<Longrightarrow> j_recovery_count k = 0" for child k t u
    using that(1) commanded_sound [OF snd by_st room that(2)]
    by (auto simp: write_job_result job_dir.look_put job_sound_def)
  show ?thesis
    unfolding admit_request_commanded [OF ok]
  proof (rule step_bind)
    show "R s (snd (child_for env (command_base j0 a) a rd producer now s))"
      using child_for_result [of env "command_base j0 a" a rd producer now s]
      by (cases "child_for env (command_base j0 a) a rd producer now s") (auto simp: R_refl)
  next
    fix child s' assume ch: "child_for env (command_base j0 a) a rd producer now s = (Inr child, s')"
    from child_for_result [OF ch] have s': "s' = s"
      and k: "\<And>k. child = Some k \<Longrightarrow> j_recovery_count k = 0" by auto
    let ?k = "commanded_job j0 a (command_control j0 a rd payload expected now child)"
    show "R s' (snd (bindA (if target_status j0 a = Cancelled \<and> child = None
          then bindA (write_job env ?k) (\<lambda>j. finish_immediate env j now)
          else write_job env ?k)
        (\<lambda>k. bindA (finish_restart env k now) (\<lambda>(k, successor).
          ret \<lparr>out_job = k, out_receipt = recorded_command a rd payload expected (target_status j0 a) now child,
               out_replayed = False, out_successor = successor\<rparr>)) s'))"
      unfolding s'
    proof (rule step_bind)
      show "R s (snd ((if target_status j0 a = Cancelled \<and> child = None
          then bindA (write_job env ?k) (\<lambda>j. finish_immediate env j now) else write_job env ?k) s))"
      proof (cases "target_status j0 a = Cancelled \<and> child = None")
        case True
        have "R s (snd (bindA (write_job env ?k) (\<lambda>j. finish_immediate env j now) s))"
          using wr [OF k] stored [OF _ k] by (simp add: step_bind finish_immediate_step)
        with True show ?thesis by simp
      next
        case False
        with wr [OF k] show ?thesis by (simp only: if_not_P if_False)
      qed
    next
      fix x t assume x: "(if target_status j0 a = Cancelled \<and> child = None
          then bindA (write_job env ?k) (\<lambda>j. finish_immediate env j now) else write_job env ?k) s = (Inr x, t)"
      have "look_job t (j_id x) = Some x \<and> job_sound env x"
      proof (cases "target_status j0 a = Cancelled \<and> child = None")
        case True
        with x obtain y u where "write_job env ?k s = (Inr y, u)" "finish_immediate env y now u = (Inr x, t)"
          by (auto simp: bindA_result)
        with stored [OF _ k] finish_immediate_stored show ?thesis by blast
      next
        case False
        with x stored [OF _ k] show ?thesis by (auto split: if_splits)
      qed
      then have "look_job t (j_id x) = Some x" "job_sound env x" by simp_all
      then show "R t (snd (bindA (finish_restart env x now) (\<lambda>(k, successor).
          ret \<lparr>out_job = k, out_receipt = recorded_command a rd payload expected (target_status j0 a) now child,
               out_replayed = False, out_successor = successor\<rparr>) t))"
        by (rule finish_restart_tail)
    qed
  qed
qed

lemma request_control_step: "R s (snd (request_control env producer i a expected request cp now s))"
  unfolding request_control_def Let_def
proof (intro step_require step_hold step_found_job)
  fix s j
  assume "store_ok env s" and look: "look_job s (j_id j) = Some j" and snd: "job_sound env j"
  show "R s (snd ((case find (\<lambda>c. cmd_request c = request_digest env request) (ctl_commands (control_of j)) of
         Some c \<Rightarrow> replay_request env j c (payload_digest env i a expected cp) now
       | None \<Rightarrow> seqA (require (cap_revision (capabilities env j
             (if active_status (j_status j) then JNull else producer j) now) = expected)
                      (Conflict_error ''job control preview is stale''))
              (seqA (require (a \<in> set (cap_actions (capabilities env j
             (if active_status (j_status j) then JNull else producer j) now)))
                      (Conflict_error (case map_of (cap_unavailable (capabilities env j
             (if active_status (j_status j) then JNull else producer j) now)) a of
                                         None \<Rightarrow> [] | Some reason \<Rightarrow> reason)))
              (seqA (require (cp = None \<or> cp = Some (j_checkpoint j))
                      (Conflict_error ''job checkpoint changed''))
                (admit_request env j a (request_digest env request) (payload_digest env i a expected cp)
                   expected (if active_status (j_status j) then JNull else producer j) now)))) s))"
  proof (cases "find (\<lambda>c. cmd_request c = request_digest env request) (ctl_commands (control_of j))")
    case (Some c)
    with replay_request_step [OF look snd] show ?thesis by simp
  next
    case None
    show ?thesis
      unfolding None option.case
      by (intro step_require) (rule admit_request_step [OF look snd allowed_action(1,3)])
  qed
qed

end

text \<open>What an executor must report at a boundary for its observation to be accepted.\<close>

definition sample_ok :: "job \<Rightarrow> sample \<Rightarrow> bool" where
  "sample_ok j b \<longleftrightarrow>
     sm_unit b = (if j_kind j = Source_reconcile then ''source_items'' else ''documents'')
   \<and> sha256_text (sm_plan b) \<and> \<not> out_of_range (sm_total b) 0 (2 ^ 63 - 1)
   \<and> \<not> out_of_range (sm_completed b) 0 (sm_total b)"

lemma round_double_sign:
  assumes "0 \<le> d"
  shows "0 \<le> fst (round_double n d) \<and> 0 < snd (round_double n d)"
proof -
  have he: "0 \<le> half_even a b" if "0 \<le> a" and "0 \<le> b" for a b
    using that by (simp add: half_even_def Let_def div_int_pos_iff)
  have sc: "0 \<le> half_even (fst (scaled n d k)) (snd (scaled n d k))" if "0 < n" for k
    using that assms by (intro he) (simp_all add: scaled_def)
  show ?thesis
    using sc by (simp add: round_double_def Let_def case_prod_beta)
qed

lemma sample_rate_nonneg: "sample_rate previous j b now = Some q \<Longrightarrow> 0 \<le> q"
proof -
  assume r: "sample_rate previous j b now = Some q"
  then obtain p where p: "previous = Some p" by (cases previous) (auto simp: sample_rate_def)
  obtain n1 d1 where a: "round_double (sm_completed b - ob_completed p) 1 = (n1, d1)"
    by (cases "round_double (sm_completed b - ob_completed p) 1")
  obtain n2 d2 where c: "round_double (now - ob_sampled_at p) 1000000 = (n2, d2)"
    by (cases "round_double (now - ob_sampled_at p) 1000000")
  obtain n d where e: "round_double (n1 * d2) (d1 * n2) = (n, d)"
    by (cases "round_double (n1 * d2) (d1 * n2)")
  have "0 < d1" "0 \<le> n2"
    using round_double_sign [of 1 "sm_completed b - ob_completed p"]
      round_double_sign [of 1000000 "now - ob_sampled_at p"] a c by simp_all
  then have "0 \<le> n \<and> 0 < d" using round_double_sign [of "d1 * n2" "n1 * d2"] e by simp
  moreover have "q = Fract n d" using r p a c e by (simp add: sample_rate_def split: if_splits)
  ultimately show ?thesis by (simp add: zero_le_Fract_iff)
qed

lemma core_ladder_control:
  assumes "j_control j \<noteq> None"
  shows "first_failure (job_core_ladder (j\<lparr>j_control := Some c\<rparr>)) = None
       \<longleftrightarrow> first_failure (job_core_ladder j) = None"
proof -
  have "history_ladder b (j\<lparr>j_control := Some c\<rparr>) = history_ladder b j" for b
    by (simp add: history_ladder_def Let_def)
  moreover have "receipt_ref_ladder (j\<lparr>j_control := Some c\<rparr>) = receipt_ref_ladder j"
    by (simp add: receipt_ref_ladder_def)
  moreover have "controlled_schema (j\<lparr>j_control := Some c\<rparr>) = controlled_schema j"
    by (simp add: controlled_schema_def)
  ultimately show ?thesis
    using assms by (cases "controlled_schema j") (simp_all add: job_core_ladder_def Let_def)
qed

lemma stop_finishable:
  assumes snd: "job_sound env j" and act: "active_status (j_status j)" and c0: "j_control j = Some c0"
    and pend: "ctl_pending c0 \<noteq> None"
    and c: "c = c0\<lparr>ctl_network_used := n, ctl_observation := ob\<rparr>"
    and ob: "ob = ctl_observation c0 \<or> (\<exists>b. sample_ok j b \<and>
        ob = Some \<lparr>ob_unit = sm_unit b, ob_completed = sm_completed b, ob_total = sm_total b,
          ob_plan_revision = sm_plan b, ob_attempt = j_attempt j, ob_sampled_at = now,
          ob_rate = sample_rate prev j b now\<rparr>)"
  shows "finishable env (j\<lparr>j_control := Some (c\<lparr>ctl_pending := None, ctl_revision := ctl_revision c + 1\<rparr>)\<rparr>)"
proof -
  let ?d = "c\<lparr>ctl_pending := None, ctl_revision := ctl_revision c + 1\<rparr>"
  let ?k = "j\<lparr>j_control := Some ?d\<rparr>"
  have ok: "job_ok env j" using snd by (simp add: job_sound_def)
  have fin: "finishable env j" using snd by (simp add: job_sound_def job_ok_finishable)
  have settled: "control_settled env j c0" using fin c0 by (simp add: finishable_def)
  have room: "ctl_revision c0 < 2 ^ 31 - 1"
    using snd c0 pend by (simp add: job_sound_def bookkeeping_ok_def pending_room_def)
  have coop: "cooperative (j_kind j)"
    using control_of_ok [OF ok c0] pend
    by (auto simp: control_ladder_def control_head_ladder_def pending_ladder_def split: option.splits)
  have att: "1 \<le> j_attempt j"
    using job_ok_running [OF ok] act job_ok_attempts(1) [OF ok] by (cases "j_attempts j") auto
  have "first_failure (control_head_ladder (?k\<lparr>j_status := Succeeded\<rparr>)
      (?d\<lparr>ctl_pending := None, ctl_completion := None\<rparr>)) = None"
    using settled room
    by (simp add: control_settled_def control_head_ladder_def pending_ladder_def c out_of_range_def
        cong: option.case_cong)
  moreover have "restart_ladder env ?k ?d = restart_ladder env j c0"
    by (rule restart_ladder_cong) (simp_all add: c)
  moreover have "first_failure (control_tail_ladder 0 ?k ?d) = None"
    using ob
  proof (elim disjE exE conjE)
    assume "ob = ctl_observation c0"
    with settled show ?thesis
      by (simp add: control_settled_def control_tail_ladder_def c cong: option.case_cong)
  next
    fix b assume "sample_ok j b" and "ob = Some \<lparr>ob_unit = sm_unit b, ob_completed = sm_completed b,
      ob_total = sm_total b, ob_plan_revision = sm_plan b, ob_attempt = j_attempt j,
      ob_sampled_at = now, ob_rate = sample_rate prev j b now\<rparr>"
    with coop att sample_rate_nonneg [of prev j b now] show ?thesis
      by (auto simp: control_tail_ladder_def c sample_ok_def out_of_range_def not_less
          split: option.splits)
  qed
  ultimately have "control_settled env ?k ?d" using settled by (simp add: control_settled_def)
  moreover have "job_tail_ladder env ?k = job_tail_ladder env j"
    by (simp add: job_tail_ladder_def controlled_schema_def)
  ultimately show ?thesis
    using fin c0 core_ladder_control [of j ?d] by (simp add: finishable_def)
qed

lemma paused_attempts_extend:
  "as \<noteq> [] \<Longrightarrow> a_outcome (last as) = Attempt_running \<Longrightarrow> history_extends as (paused_attempts as now)"
proof -
  assume ne: "as \<noteq> []" and run: "a_outcome (last as) = Attempt_running"
  have rows: "paused_attempts as now ! i = (if i = length as - 1
      then (last as)\<lparr>a_outcome := Attempt_paused, a_completed_at := Some now\<rparr> else as ! i)"
    if "i < length as" for i
    using that ne by (auto simp: paused_attempts_def nth_append nth_butlast)
  have "length (paused_attempts as now) = length as" using ne by (simp add: paused_attempts_def)
  with rows ne run show ?thesis by (auto simp: history_extends_def last_conv_nth)
qed

lemma paused_may_write:
  assumes look: "look_job s (j_id j) = Some j" and snd: "job_sound env j"
    and act: "active_status (j_status j)"
    and k: "k = paused_job (j\<lparr>j_schema := v, j_control := Some c, j_recovery_count := n\<rparr>) now"
    and n: "j_recovery_count j \<le> n" "n \<le> j_recovery_count j + 1"
    and c: "ctl_pending c = None" "ctl_restart c = ctl_restart (control_of j)"
  shows "earlier_closed (j_attempts k) \<and> bookkeeping_ok k \<and> may_write s k"
proof -
  have ok: "job_ok env j" using snd by (simp add: job_sound_def)
  have run: "j_attempts j \<noteq> []" "a_outcome (last (j_attempts j)) = Attempt_running"
    using job_ok_running [OF ok] act by simp_all
  have "case ctl_restart (control_of j) of None \<Rightarrow> True | Some (q, k) \<Rightarrow> j_recovery_count k = 0"
    using snd
    by (cases "j_control j") (simp_all add: control_of_def job_sound_def bookkeeping_ok_def fresh_child_def)
  then have "bookkeeping_ok k"
    using snd act n c run
    by (auto simp: k bookkeeping_defs job_sound_def paused_job_def paused_attempts_def)
  moreover have "earlier_closed (j_attempts k)"
    using snd run by (simp add: k job_sound_def paused_job_def paused_attempts_def earlier_closed_def)
  moreover have "may_write s k"
    using look n paused_attempts_extend [OF run] active_not_terminal [OF act]
    by (simp add: k may_write_def job_advances_def same_admission_def paused_job_def)
  ultimately show ?thesis by blast
qed

lemma control_may_write:
  assumes look: "look_job s (j_id j) = Some j" and snd: "job_sound env j"
    and act: "active_status (j_status j)"
    and d: "ctl_pending d = None" "ctl_restart d = ctl_restart (control_of j)"
  shows "earlier_closed (j_attempts ((promote j)\<lparr>j_control := Some d\<rparr>))
       \<and> bookkeeping_ok ((promote j)\<lparr>j_control := Some d\<rparr>) \<and> may_write s ((promote j)\<lparr>j_control := Some d\<rparr>)"
proof -
  have ok: "job_ok env j" using snd by (simp add: job_sound_def)
  have "case ctl_restart (control_of j) of None \<Rightarrow> True | Some (q, k) \<Rightarrow> j_recovery_count k = 0"
    using snd
    by (cases "j_control j") (simp_all add: control_of_def job_sound_def bookkeeping_ok_def fresh_child_def)
  then have "bookkeeping_ok ((promote j)\<lparr>j_control := Some d\<rparr>)"
    using snd d by (simp add: bookkeeping_defs job_sound_def)
  moreover have "may_write s ((promote j)\<lparr>j_control := Some d\<rparr>)"
    using look ok active_not_terminal [OF act]
    by (simp add: may_write_def job_advances_def same_admission_def history_extends_refl)
  ultimately show ?thesis using snd by (simp add: job_sound_def)
qed

lemma stop_may_finish:
  assumes look: "look_job s (j_id j) = Some j" and snd: "job_sound env j"
    and act: "active_status (j_status j)" and fin: "finishable env (j\<lparr>j_control := Some d\<rparr>)"
    and d: "ctl_pending d = None" "ctl_restart d = ctl_restart (control_of j)"
  shows "may_finish env s (j\<lparr>j_control := Some d\<rparr>) st now cls code"
proof -
  have ok: "job_ok env j" using snd by (simp add: job_sound_def)
  have "j_attempts j \<noteq> []" "a_outcome (last (j_attempts j)) = Attempt_running"
    using job_ok_running [OF ok] act by simp_all
  then have "closes_as (j\<lparr>j_control := Some d\<rparr>) st now cls code"
    by (auto simp: closes_as_def split: list.splits)
  moreover have "case ctl_restart (control_of j) of None \<Rightarrow> True | Some (q, k) \<Rightarrow> j_recovery_count k = 0"
    using snd
    by (cases "j_control j") (simp_all add: control_of_def job_sound_def bookkeeping_ok_def fresh_child_def)
  then have "bookkeeping_ok (j\<lparr>j_control := Some d, j_status := st\<rparr>)"
    using snd d act by (simp add: bookkeeping_defs job_sound_def)
  moreover have "job_advances j (j\<lparr>j_control := Some d\<rparr>)"
    using active_not_terminal [OF act]
    by (simp add: job_advances_def same_admission_def history_extends_refl)
  ultimately show ?thesis using fin look active_not_terminal [OF act] by (auto simp: may_finish_def)
qed

context store_contract
begin

lemma boundary_owned_step:
  assumes look: "look_job s (j_id j0) = Some j0" and snd: "job_sound env j0"
    and act: "active_status (j_status j0)" and sample: "\<And>b. obs = Some b \<Longrightarrow> sample_ok j0 b"
  shows "R s (snd (boundary_owned env j0 commit obs network now s))"
proof -
  have ok: "job_ok env j0" using snd by (simp add: job_sound_def)
  define c1 where "c1 = (control_of j0)\<lparr>ctl_network_used := ctl_network_used (control_of j0) \<or> network\<rparr>"
  define c where "c = (case obs of None \<Rightarrow> c1 | Some b \<Rightarrow> observed c1 (promote j0) b now)"
  have same: "ctl_pending c = ctl_pending (control_of j0)" "ctl_restart c = ctl_restart (control_of j0)"
    by (auto simp: c_def c1_def observed_def split: option.splits)
  note body = boundary_owned_def Let_def control_of_promote [OF ok] c1_def [symmetric] c_def [symmetric]
  show ?thesis
  proof (cases "ctl_pending c")
    case None
    have wr: "R s (snd (write_job env ((promote j0)\<lparr>j_control := Some d\<rparr>) s))"
      if "ctl_pending d = None" "ctl_restart d = ctl_restart c" for d
      using control_may_write [OF look snd act, of d] that same by (intro step_write_job) simp
    show ?thesis
      unfolding body None option.case
      by (auto intro!: step_tail wr simp: None R_refl)
  next
    case (Some intent)
    then have "ctl_pending (control_of j0) \<noteq> None" using same by simp
    then obtain c0 where c0: "j_control j0 = Some c0"
      by (auto simp: control_of_def split: option.splits)
    then have p: "promote j0 = j0" using schema_of_ok [OF ok] by (auto simp: promote_def)
    have co: "control_of j0 = c0" using c0 by (simp add: control_of_def)
    let ?d = "c\<lparr>ctl_pending := None, ctl_revision := ctl_revision c + 1\<rparr>"
    have shape: "c = c0\<lparr>ctl_network_used := ctl_network_used c1, ctl_observation := ctl_observation c\<rparr>"
      by (auto simp: c_def c1_def co observed_def split: option.splits)
    have ob: "ctl_observation c = ctl_observation c0 \<or> (\<exists>b. sample_ok j0 b \<and>
        ctl_observation c = Some \<lparr>ob_unit = sm_unit b, ob_completed = sm_completed b, ob_total = sm_total b,
          ob_plan_revision = sm_plan b, ob_attempt = j_attempt j0, ob_sampled_at = now,
          ob_rate = sample_rate (ctl_observation c0) j0 b now\<rparr>)"
      using sample by (auto simp: c_def c1_def co p observed_def split: option.splits)
    have pend: "ctl_pending c0 \<noteq> None" using Some same co by simp
    have fin: "finishable env (j0\<lparr>j_control := Some ?d\<rparr>)"
      by (rule stop_finishable [OF snd act c0 pend shape ob])
    have stop: "R s (snd (finish_locked env (j0\<lparr>j_control := Some ?d\<rparr>) Cancelled now (j_progress j0)
        (Some Cancelled_class) (Some ''cancelled_by_user'') False False s))"
      using stop_may_finish [OF look snd act fin] same by (intro step_finish) simp
    have "paused_job (j0\<lparr>j_control := Some ?d\<rparr>) now = paused_job (j0\<lparr>j_schema := j_schema j0,
        j_control := Some ?d, j_recovery_count := j_recovery_count j0\<rparr>) now" by simp
    then have pause: "R s (snd (write_job env (paused_job (j0\<lparr>j_control := Some ?d\<rparr>) now) s))"
      using paused_may_write [OF look snd act, where v = "j_schema j0" and c = ?d
          and n = "j_recovery_count j0" and now = now] same
      by (intro step_write_job) simp
    show ?thesis
      unfolding body Some option.case
      unfolding p
      using stop pause by (auto intro!: step_tail)
  qed
qed

lemma boundary_step:
  assumes "\<And>j b. look_job s i = Some j \<Longrightarrow> obs = Some b \<Longrightarrow> sample_ok j b"
  shows "R s (snd (boundary env i token commit obs network now s))"
  unfolding boundary_def
proof (rule step_hold_at, rule step_found_job, rule step_owned)
  fix j
  assume j: "look_job (s\<lparr>st_present := True\<rparr>) (j_id j) = Some j" "j_id j = i" "job_sound env j"
    "active_status (j_status j)"
  then have "look_job s i = Some j" by simp
  with assms j show "R (s\<lparr>st_present := True\<rparr>) (snd (boundary_owned env j commit obs network now
      (s\<lparr>st_present := True\<rparr>)))"
    by (intro boundary_owned_step)
qed

end

end
