(* ===== verification/Scheduler_Recovery.thy ===== *)
theory Scheduler_Recovery
  imports Scheduler_Control "HOL-Library.Multiset"
begin

text \<open>
  Recovery, evaluation and claiming (core/provelume/scheduler.py, lines 588 to 1090). Recovery
  walks over every job in the order of the file names: it completes interrupted commands,
  reconciles a job with a receipt that was written before its record, wakes a retry whose
  instant has come, and ends an expired lease. Evaluation turns due policies into jobs.
  Claiming leases the first eligible job. Jobs of the kind \<open>ai.execute\<close> need the schema-3
  record, which the model does not have, so no valid job is of that kind and the branches for
  it (recover_ai_locked, the admission callback) are not reached.
\<close>

section \<open>Recovery\<close>

record recovery_counts =
  n_expired :: nat
  n_ready :: nat
  n_reconciled :: nat
  n_clock :: nat

definition no_recovery :: recovery_counts where
  "no_recovery = \<lparr>n_expired = 0, n_ready = 0, n_reconciled = 0, n_clock = 0\<rparr>"

definition add_counts :: "recovery_counts \<Rightarrow> recovery_counts \<Rightarrow> recovery_counts" where
  "add_counts a b = \<lparr>n_expired = n_expired a + n_expired b, n_ready = n_ready a + n_ready b,
                     n_reconciled = n_reconciled a + n_reconciled b, n_clock = n_clock a + n_clock b\<rparr>"

definition read_job_file :: "sched_env \<Rightarrow> string \<Rightarrow> job sched_act" where
  "read_job_file env key = query (\<lambda>s. case look_job s key of
     None \<Rightarrow> Inl (Scheduler_error ''scheduler state is not a regular file'')
   | Some j \<Rightarrow> validate_job_record env j)"

definition read_receipt_file :: "string \<Rightarrow> receipt option sched_act" where
  "read_receipt_file i = query (\<lambda>s. case look_receipt s i of
     None \<Rightarrow> Inr None
   | Some r \<Rightarrow> (case validate_receipt_record r of Inl e \<Rightarrow> Inl e | Inr q \<Rightarrow> Inr (Some q)))"

definition reconciled_job :: "job \<Rightarrow> receipt \<Rightarrow> job" where
  "reconciled_job j r =
     (clear_intents j)\<lparr>j_status := r_status r, j_updated_at := r_completed_at r, j_lease := None,
        j_retry_not_before := None, j_progress := r_progress r,
        j_attempts := close_attempt (finish_outcome (r_status r)) (r_completed_at r)
          (r_error_class r) (r_error_code r) (j_attempts j),
        j_receipt_ref := Some (receipt_ref_of (receipt_of_job (j_id j)))\<rparr>"

definition reconcile :: "sched_env \<Rightarrow> job \<Rightarrow> receipt \<Rightarrow> instant \<Rightarrow> recovery_counts sched_act" where
  "reconcile env j r now =
     seqA (require (receipt_matches_job r j)
             (Conflict_error ''scheduler receipt does not match its job''))
     (bindA (write_job env (reconciled_job j r)) (\<lambda>k.
      bindA (finish_restart env k now) (\<lambda>_.
      ret (no_recovery\<lparr>n_reconciled := 1\<rparr>))))"

definition wake_retry :: "sched_env \<Rightarrow> job \<Rightarrow> instant \<Rightarrow> recovery_counts sched_act" where
  "wake_retry env j now =
     (let clock_reversed = now < j_updated_at j in
      case j_retry_not_before j of
        None \<Rightarrow> ret no_recovery
      | Some t \<Rightarrow>
          if t \<le> now \<or> clock_reversed
          then bindA (write_job env (j\<lparr>j_status := Queued, j_retry_not_before := None,
                                      j_updated_at := now\<rparr>)) (\<lambda>_.
               ret (no_recovery\<lparr>n_ready := 1, n_clock := (if clock_reversed then 1 else 0)\<rparr>))
          else ret no_recovery)"

definition resumable_kind :: "job_kind \<Rightarrow> bool" where
  "resumable_kind k \<longleftrightarrow> k \<in> {Search_reindex, Search_reindex_incremental, Source_reconcile,
                               Ocr_execute, Email_intake, Transcript_intake}"

definition recovery_of :: "job \<Rightarrow> recovery_state" where
  "recovery_of j =
     (if resumable_kind (j_kind j) \<and> c_sequence (j_checkpoint j) > 0 then Resumable
      else if c_phase (j_checkpoint j) = Phase_committed then Manual_recovery
      else if j_kind j = Source_refresh \<and> c_sequence (j_checkpoint j) > 0 then Resumable
      else Restart_only)"

definition terminal_recovery :: "job \<Rightarrow> bool" where
  "terminal_recovery j \<longleftrightarrow> recovery_of j = Manual_recovery \<or> \<not> remaining j"

definition recovery_code :: "job \<Rightarrow> bool \<Rightarrow> string" where
  "recovery_code j clock_reversed =
     (if recovery_of j = Manual_recovery then ''committed_checkpoint_needs_review''
      else if terminal_recovery j then ''lease_recovery_exhausted''
      else if clock_reversed then ''lease_clock_reversed''
      else ''lease_expired'')"

definition stop_expired :: "sched_env \<Rightarrow> job \<Rightarrow> job_control \<Rightarrow> control_action \<Rightarrow> instant \<Rightarrow> recovery_counts sched_act" where
  "stop_expired env j c a now =
     (let prepared = j\<lparr>j_control := Some (c\<lparr>ctl_pending := None, ctl_revision := ctl_revision c + 1\<rparr>)\<rparr>
      in bindA (if a = Act_cancel
                then finish_locked env prepared Cancelled now (j_progress j) (Some Cancelled_class)
                       (Some ''cancelled_by_user'') False False
                else write_job env (paused_job (prepared\<lparr>j_recovery_count := j_recovery_count j + 1\<rparr>) now)) (\<lambda>_.
         ret (no_recovery\<lparr>n_expired := 1\<rparr>)))"

definition end_lease :: "sched_env \<Rightarrow> job \<Rightarrow> bool \<Rightarrow> instant \<Rightarrow> recovery_counts sched_act" where
  "end_lease env j clock_reversed now =
     (let terminal = terminal_recovery j; code = recovery_code j clock_reversed;
          as = close_attempt (if terminal then Attempt_failed else Attempt_retry) now
                 (Some (if terminal then Manual_intervention_class else Transient)) (Some code)
                 (j_attempts j)
      in bindA
           (if terminal
            then finish_locked env (j\<lparr>j_attempts := as, j_lease := None,
                     j_recovery_state := Manual_recovery,
                     j_recovery_count := j_recovery_count j + 1\<rparr>)
                   Manual_intervention now (j_progress j) (Some Manual_intervention_class)
                   (Some code) False False
            else write_job env (j\<lparr>j_status := Queued, j_updated_at := now, j_lease := None,
                     j_retry_not_before := None, j_recovery_state := recovery_of j,
                     j_recovery_count := j_recovery_count j + 1, j_attempts := as\<rparr>)) (\<lambda>_.
         ret (no_recovery\<lparr>n_expired := 1, n_clock := (if clock_reversed then 1 else 0)\<rparr>)))"

definition recover_lease :: "sched_env \<Rightarrow> job \<Rightarrow> instant \<Rightarrow> recovery_counts sched_act" where
  "recover_lease env j now =
     (case j_lease j of
        None \<Rightarrow> ret no_recovery
      | Some l \<Rightarrow>
          (let clock_reversed = now < l_heartbeat_at l in
           if \<not> active_status (j_status j) \<or> (\<not> clock_reversed \<and> l_expires_at l > now)
           then ret no_recovery
           else case j_control j of
                  None \<Rightarrow> end_lease env j clock_reversed now
                | Some c \<Rightarrow> (case ctl_pending c of
                     None \<Rightarrow> end_lease env j clock_reversed now
                   | Some intent \<Rightarrow> stop_expired env j c (pend_action intent) now)))"

definition recover_job :: "sched_env \<Rightarrow> job \<Rightarrow> instant \<Rightarrow> recovery_counts sched_act" where
  "recover_job env j now =
     (if terminal_status (j_status j)
      then bindA (finish_restart env j now) (\<lambda>_. ret no_recovery)
      else bindA (read_receipt_file (receipt_of_job (j_id j))) (\<lambda>receipt.
        case receipt of
          Some r \<Rightarrow> reconcile env j r now
        | None \<Rightarrow>
            if completion_of j \<noteq> None
            then bindA (finish_immediate env j now) (\<lambda>_. ret no_recovery)
            else if restart_of j \<noteq> None
            then bindA (finish_restart env j now) (\<lambda>_. ret no_recovery)
            else if j_status j = Retry_wait then wake_retry env j now
            else recover_lease env j now))"

fun recover_all :: "sched_env \<Rightarrow> instant \<Rightarrow> string list \<Rightarrow> recovery_counts \<Rightarrow> recovery_counts sched_act" where
  "recover_all env now [] acc = ret acc"
| "recover_all env now (k # ks) acc =
     bindA (read_job_file env k) (\<lambda>j.
     bindA (recover_job env j now) (\<lambda>d.
     recover_all env now ks (add_counts acc d)))"

definition job_files :: "store \<Rightarrow> string list" where
  "job_files s = map fst (sort_key (\<lambda>kv. fst kv @ ''.json'') (st_jobs s))"

definition recover_locked :: "sched_env \<Rightarrow> instant \<Rightarrow> recovery_counts sched_act" where
  "recover_locked env now = bindA (reads job_files) (\<lambda>ks. recover_all env now ks no_recovery)"

definition recover :: "sched_env \<Rightarrow> instant \<Rightarrow> recovery_counts sched_act" where
  "recover env now =
     bindA (reads st_present) (\<lambda>present.
       if \<not> present then ret no_recovery else seqA hold (recover_locked env now))"

section \<open>Evaluation\<close>

definition MAX_MISSED_SCAN :: nat where "MAX_MISSED_SCAN = 10000"

record advanced =
  adv_future :: "(instant \<times> instant) option"
  adv_latest_nominal :: instant
  adv_latest_due :: instant
  adv_occurrences :: nat
  adv_capped :: bool

definition policy_occurrence :: "sched_env \<Rightarrow> policy \<Rightarrow> instant \<Rightarrow> sched_error + instant" where
  "policy_occurrence env p n = occurrence env (p_id p) (p_revision p) (p_schedule p) n"

text \<open>
  The scan over missed occurrences; the last argument counts the iterations that are left
  before \<open>MAX_MISSED_SCAN\<close> caps it.
\<close>

fun advance_loop :: "sched_env \<Rightarrow> policy \<Rightarrow> instant \<Rightarrow> instant \<Rightarrow> instant \<Rightarrow> nat \<Rightarrow> nat \<Rightarrow> sched_error + advanced" where
  "advance_loop env p now nominal due occ 0 =
     (case next_nominal_after (e_zones env) now (p_schedule p) of
        Inl e \<Rightarrow> Inl e
      | Inr None \<Rightarrow> Inr \<lparr>adv_future = None, adv_latest_nominal = nominal, adv_latest_due = due,
                        adv_occurrences = occ, adv_capped = True\<rparr>
      | Inr (Some f) \<Rightarrow> (case policy_occurrence env p f of
            Inl e \<Rightarrow> Inl e
          | Inr fd \<Rightarrow> Inr \<lparr>adv_future = Some (f, fd), adv_latest_nominal = nominal,
                          adv_latest_due = due, adv_occurrences = occ, adv_capped = True\<rparr>))"
| "advance_loop env p now nominal due occ (Suc n) =
     (case next_nominal_from_previous (e_zones env) nominal (p_schedule p) of
        Inl e \<Rightarrow> Inl e
      | Inr None \<Rightarrow> Inr \<lparr>adv_future = None, adv_latest_nominal = nominal, adv_latest_due = due,
                        adv_occurrences = occ, adv_capped = False\<rparr>
      | Inr (Some f) \<Rightarrow> (case policy_occurrence env p f of
            Inl e \<Rightarrow> Inl e
          | Inr fd \<Rightarrow>
              if fd > now
              then Inr \<lparr>adv_future = Some (f, fd), adv_latest_nominal = nominal,
                        adv_latest_due = due, adv_occurrences = occ, adv_capped = False\<rparr>
              else advance_loop env p now f fd (occ + 1) n))"

definition advance_occurrences :: "sched_env \<Rightarrow> policy \<Rightarrow> instant \<Rightarrow> instant \<Rightarrow> sched_error + advanced" where
  "advance_occurrences env p first now =
     (case policy_occurrence env p first of
        Inl e \<Rightarrow> Inl e
      | Inr due \<Rightarrow> advance_loop env p now first due 1 (MAX_MISSED_SCAN - 1))"

record evaluation =
  ev_created :: "string list"
  ev_duplicate :: "string list"
  ev_skipped :: "string list"
  ev_clock :: "string list"
  ev_capped :: "string list"

definition no_evaluation :: evaluation where
  "no_evaluation = \<lparr>ev_created = [], ev_duplicate = [], ev_skipped = [], ev_clock = [], ev_capped = []\<rparr>"

definition add_evaluation :: "evaluation \<Rightarrow> evaluation \<Rightarrow> evaluation" where
  "add_evaluation a b =
     \<lparr>ev_created = ev_created a @ ev_created b, ev_duplicate = ev_duplicate a @ ev_duplicate b,
      ev_skipped = ev_skipped a @ ev_skipped b, ev_clock = ev_clock a @ ev_clock b,
      ev_capped = ev_capped a @ ev_capped b\<rparr>"

definition evaluated_policy :: "policy \<Rightarrow> instant \<Rightarrow> (instant \<times> instant) option \<Rightarrow> policy" where
  "evaluated_policy p now occ =
     p\<lparr>p_last_evaluated_at := Some now, p_next_nominal_at := map_option fst occ,
       p_next_due_at := map_option snd occ, p_updated_at := now\<rparr>"

text \<open>What a backlog turns into: nothing, or a reason with its nominal and due instants.\<close>

definition missed_run ::
  "policy \<Rightarrow> instant \<Rightarrow> instant \<Rightarrow> instant \<Rightarrow> advanced \<Rightarrow> (run_reason \<times> instant \<times> instant) option" where
  "missed_run p now nominal due adv =
     (if adv_occurrences adv \<le> 1 then Some (Reason_scheduled, nominal, due)
      else case s_missed (p_schedule p) of
             Missed_skip \<Rightarrow> None
           | Missed_coalesce \<Rightarrow> Some (Reason_coalesced, now, now)
           | Missed_catch_up_one \<Rightarrow>
               Some (Reason_catch_up, adv_latest_nominal adv, adv_latest_due adv))"

definition scheduled_key :: "sched_env \<Rightarrow> policy \<Rightarrow> run_reason \<Rightarrow> instant \<Rightarrow> sched_error + string" where
  "scheduled_key env p reason nominal =
     idempotency_digest env [''scheduled'', p_id p, int_text (p_revision p), reason_name reason,
                             instant_text nominal]"

definition due_policy :: "sched_env \<Rightarrow> string \<Rightarrow> policy \<Rightarrow> instant \<Rightarrow> instant \<Rightarrow> instant \<Rightarrow> evaluation sched_act" where
  "due_policy env hex p nominal due now =
     bindA (of_result (advance_occurrences env p nominal now)) (\<lambda>adv.
     let capped = (if adv_capped adv then [p_id p] else []) in
     bindA (case missed_run p now nominal due adv of
              None \<Rightarrow> ret (no_evaluation\<lparr>ev_skipped := [p_id p], ev_capped := capped\<rparr>)
            | Some (reason, n, d) \<Rightarrow>
                bindA (of_result (scheduled_key env p reason nominal)) (\<lambda>key.
                bindA (new_job env hex p reason n d key now None) (\<lambda>(j, created).
                ret (if created then no_evaluation\<lparr>ev_created := [j_id j], ev_capped := capped\<rparr>
                     else no_evaluation\<lparr>ev_duplicate := [j_id j], ev_capped := capped\<rparr>)))) (\<lambda>ev.
     bindA (write_policy env (evaluated_policy p now (adv_future adv))) (\<lambda>_. ret ev)))"

definition evaluate_policy :: "sched_env \<Rightarrow> string \<Rightarrow> policy \<Rightarrow> instant \<Rightarrow> evaluation sched_act" where
  "evaluate_policy env hex p now =
     (if p_state p \<noteq> Policy_enabled \<or> s_mode (p_schedule p) = Manual_mode then ret no_evaluation
      else if (case p_last_evaluated_at p of None \<Rightarrow> False | Some t \<Rightarrow> now < t)
      then bindA (next_occurrence env (p_id p) (p_revision p) Policy_enabled (p_schedule p) now) (\<lambda>occ.
           bindA (write_policy env (evaluated_policy p now occ)) (\<lambda>_.
           ret (no_evaluation\<lparr>ev_clock := [p_id p]\<rparr>)))
      else bindA (case (p_next_nominal_at p, p_next_due_at p) of
                    (Some n, Some d) \<Rightarrow> ret (Some (n, d))
                  | _ \<Rightarrow> next_occurrence env (p_id p) (p_revision p) Policy_enabled (p_schedule p) now) (\<lambda>occ.
        case occ of
          None \<Rightarrow> ret no_evaluation
        | Some (nominal, due) \<Rightarrow>
            if due > now
            then bindA (write_policy env (evaluated_policy p now (Some (nominal, due)))) (\<lambda>_.
                 ret no_evaluation)
            else due_policy env hex p nominal due now))"

fun evaluate_all ::
  "sched_env \<Rightarrow> (string \<Rightarrow> string) \<Rightarrow> instant \<Rightarrow> policy list \<Rightarrow> evaluation \<Rightarrow> evaluation sched_act" where
  "evaluate_all env fresh now [] acc = ret acc"
| "evaluate_all env fresh now (p # ps) acc =
     bindA (evaluate_policy env (fresh (p_id p)) p now) (\<lambda>ev.
     evaluate_all env fresh now ps (add_evaluation acc ev))"

definition evaluate ::
  "sched_env \<Rightarrow> (string \<Rightarrow> string) \<Rightarrow> instant \<Rightarrow> (evaluation \<times> recovery_counts) sched_act" where
  "evaluate env fresh now =
     bindA (reads st_present) (\<lambda>present.
       if \<not> present then ret (no_evaluation, no_recovery)
       else seqA hold
         (bindA (recover_locked env now) (\<lambda>counts.
          bindA (list_policies env) (\<lambda>ps.
          bindA (evaluate_all env fresh now ps no_evaluation) (\<lambda>ev. ret (ev, counts))))))"

section \<open>Claiming\<close>

definition promotes_on_claim :: "job_kind \<Rightarrow> bool" where
  "promotes_on_claim k \<longleftrightarrow> k \<in> {Search_reindex, Search_reindex_incremental, Source_reconcile}"

definition claimable :: "job_kind list \<Rightarrow> string option \<Rightarrow> instant \<Rightarrow> job \<Rightarrow> bool" where
  "claimable kinds only now j \<longleftrightarrow>
     j_status j = Queued \<and> j_kind j \<in> set kinds \<and> j_kind j \<noteq> Ai_execute
     \<and> (case only of None \<Rightarrow> True | Some i \<Rightarrow> j_id j = i) \<and> j_eligible_at j \<le> now"

definition claim_order :: "job \<Rightarrow> instant \<times> instant \<times> string" where
  "claim_order j = (j_eligible_at j, j_created_at j, j_id j)"

definition claimed_job :: "job \<Rightarrow> string \<Rightarrow> string \<Rightarrow> int \<Rightarrow> instant \<Rightarrow> job" where
  "claimed_job j0 hex worker seconds now =
     (let j = (if promotes_on_claim (j_kind j0) then promote j0 else j0) in
      j\<lparr>j_status := Running, j_attempt := j_attempt j + 1, j_updated_at := now,
        j_retry_not_before := None,
        j_lease := Some \<lparr>l_token = ''lease_'' @ hex, l_worker = worker, l_acquired_at = now,
                         l_heartbeat_at = now, l_expires_at = now + seconds * SECOND\<rparr>,
        j_attempts := j_attempts j @ [\<lparr>a_number = j_attempt j + 1, a_started_at = now,
          a_completed_at = None, a_outcome = Attempt_running, a_error_class = None,
          a_error_code = None\<rparr>]\<rparr>)"

definition claim_job :: "sched_env \<Rightarrow> job \<Rightarrow> string \<Rightarrow> string \<Rightarrow> int \<Rightarrow> instant \<Rightarrow> job sched_act" where
  "claim_job env j hex worker seconds now =
     bindA (case parent_of j of
              None \<Rightarrow> ret ()
            | Some i \<Rightarrow> bindA (get_job env i) (\<lambda>p. of_result (validate_restart_lineage p j))) (\<lambda>_.
     seqA (require (remaining j) (Conflict_error ''queued job exceeded its attempt bound''))
       (write_job env (claimed_job j hex worker seconds now)))"

definition claim_next ::
  "sched_env \<Rightarrow> string \<Rightarrow> string \<Rightarrow> job_kind list \<Rightarrow> string option \<Rightarrow> int \<Rightarrow> instant \<Rightarrow> job option sched_act" where
  "claim_next env hex worker kinds only seconds now =
     seqA (case first_failure (worker_ladder worker) of
             None \<Rightarrow> ret () | Some m \<Rightarrow> raise (Scheduler_error m))
     (seqA (require_lease_seconds seconds)
     (seqA (require (kinds \<noteq> []) (Scheduler_error ''worker requested an unsupported executor kind''))
     (bindA (reads st_present) (\<lambda>present.
      if \<not> present then ret None
      else
        seqA (case only of None \<Rightarrow> ret () | Some i \<Rightarrow> bindA (found_job env i) (\<lambda>_. ret ()))
        (seqA hold
        (bindA (recover_locked env now) (\<lambda>_.
         bindA (all_jobs env) (\<lambda>js.
           case sort_key claim_order (filter (claimable kinds only now) js) of
             [] \<Rightarrow> ret None
           | j # _ \<Rightarrow> bindA (claim_job env j hex worker seconds now) (\<lambda>k. ret (Some k))))))))))"

section \<open>Facts of recovery\<close>

lemma read_job_file_result:
  "read_job_file env k s = (Inr j, s') \<Longrightarrow> s' = s \<and> look_job s k = Some j \<and> job_ok env j"
  by (auto simp: read_job_file_def validate_job_Inr split: option.splits)

lemma read_job_file_state [simp]: "snd (read_job_file env k s) = s"
  by (simp add: read_job_file_def)

lemma read_receipt_file_result:
  "read_receipt_file k s = (Inr r, s') \<Longrightarrow> s' = s \<and> r = look_receipt s k
     \<and> (\<forall>q. r = Some q \<longrightarrow> receipt_ok q)"
  by (auto simp: read_receipt_file_def validate_receipt_Inr split: option.splits sum.splits)

lemma read_receipt_file_state [simp]: "snd (read_receipt_file k s) = s"
  by (simp add: read_receipt_file_def)

lemma restart_none: "restart_of j = None \<Longrightarrow> finish_restart env j now = ret (j, None)"
  by (simp add: finish_restart_def)

lemma end_lease_finish:
  "finish_locked env (j\<lparr>j_attempts := close_attempt Attempt_failed now cls code (j_attempts j),
       j_lease := None, j_recovery_state := x, j_recovery_count := n\<rparr>) Manual_intervention now p cls code net mut
   = finish_locked env (j\<lparr>j_recovery_state := x, j_recovery_count := n\<rparr>) Manual_intervention now p cls code net mut"
  by (simp add: finish_locked_def finish_outcome_def terminal_receipt_def used_network_def
      finished_job_def clear_intents_def Let_def cong: if_cong)

lemma recovered_finishable:
  assumes snd: "job_sound env j" and act: "active_status (j_status j)"
  shows "finishable env (j\<lparr>j_recovery_state := x, j_recovery_count := j_recovery_count j + 1\<rparr>)"
proof -
  let ?k = "j\<lparr>j_recovery_state := x, j_recovery_count := j_recovery_count j + 1\<rparr>"
  have ok: "job_ok env j" using snd by (simp add: job_sound_def)
  have fin: "finishable env j" using snd by (simp add: job_sound_def job_ok_finishable)
  have old: "first_failure (job_core_ladder j) = None" using ok by (rule job_ok_core)
  then have "0 \<le> j_recovery_count j" by (simp add: job_core_ladder_def Let_def out_of_range_def)
  moreover have "j_recovery_count j + 1 \<le> 8"
    using snd act job_ok_attempts [OF ok] by (simp add: job_sound_def bookkeeping_defs)
  ultimately have count: "\<not> out_of_range (j_recovery_count j + 1) 0 (2 ^ 31 - 1)"
    by (simp add: out_of_range_def)
  have "history_ladder b ?k = history_ladder b j" for b by (simp add: history_ladder_def Let_def)
  moreover have "receipt_ref_ladder ?k = receipt_ref_ladder j" by (simp add: receipt_ref_ladder_def)
  moreover have c: "controlled_schema ?k = controlled_schema j" by (simp add: controlled_schema_def)
  ultimately have core: "first_failure (job_core_ladder ?k) = None"
    using old count by (cases "controlled_schema j") (auto simp: job_core_ladder_def Let_def)
  have "control_settled env ?k d = control_settled env j d" for d
  proof -
    have "restart_ladder env ?k d = restart_ladder env j d" by (rule restart_ladder_cong) simp_all
    then show ?thesis
      by (simp add: control_settled_def control_head_ladder_def control_tail_ladder_def
          pending_ladder_def cong: option.case_cong)
  qed
  moreover have "job_tail_ladder env ?k = job_tail_ladder env j"
    using c by (simp add: job_tail_ladder_def)
  ultimately show ?thesis using fin core by (simp add: finishable_def cong: option.case_cong)
qed

lemma recovered_may_finish:
  assumes look: "look_job s (j_id j) = Some j" and snd: "job_sound env j"
    and act: "active_status (j_status j)"
  shows "may_finish env s (j\<lparr>j_recovery_state := x, j_recovery_count := j_recovery_count j + 1\<rparr>)
    Manual_intervention now cls code"
proof -
  let ?k = "j\<lparr>j_recovery_state := x, j_recovery_count := j_recovery_count j + 1\<rparr>"
  have ok: "job_ok env j" using snd by (simp add: job_sound_def)
  have "j_attempts j \<noteq> []" "a_outcome (last (j_attempts j)) = Attempt_running"
    using job_ok_running [OF ok] act by simp_all
  then have "closes_as ?k Manual_intervention now cls code"
    by (auto simp: closes_as_def split: list.splits)
  moreover have "bookkeeping_ok (?k\<lparr>j_status := Manual_intervention\<rparr>)"
    using snd act by (simp add: job_sound_def bookkeeping_defs)
  moreover have "job_advances j ?k"
    using active_not_terminal [OF act]
    by (simp add: job_advances_def same_admission_def history_extends_refl)
  ultimately show ?thesis
    using recovered_finishable [OF snd act] look active_not_terminal [OF act]
    by (auto simp: may_finish_def)
qed

lemma reconciled_reconciles:
  assumes look: "look_job s (j_id j) = Some j" and snd: "job_sound env j"
    and nt: "\<not> terminal_status (j_status j)" and r: "receipt_ok r"
    and rec: "look_receipt s (receipt_of_job (j_id j)) = Some r"
  shows "earlier_closed (j_attempts (reconciled_job j r)) \<and> bookkeeping_ok (reconciled_job j r)
       \<and> may_reconcile s (reconciled_job j r) \<and> j_id (reconciled_job j r) = j_id j"
proof -
  have t: "terminal_status (r_status r)" using r by (auto simp: receipt_ok_def receipt_ladder_def)
  have na: "\<not> active_status (r_status r)" using active_not_terminal t by blast
  have "bookkeeping_ok (reconciled_job j r)"
    using snd na
    by (cases "j_control j")
       (auto simp: job_sound_def bookkeeping_defs reconciled_job_def clear_intents_def split: if_splits)
  moreover have "may_reconcile s (reconciled_job j r)"
    using look nt rec close_attempt_extends
    by (simp add: may_reconcile_def reconciled_job_def clear_intents_def job_advances_def
        same_admission_def)
  ultimately show ?thesis
    using snd by (simp add: job_sound_def reconciled_job_def clear_intents_def)
qed

context store_contract
begin

lemma step_write_reconciled:
  assumes "store_ok env s \<Longrightarrow> earlier_closed (j_attempts j) \<and> bookkeeping_ok j \<and> may_reconcile s j"
  shows "R s (snd (write_job env j s))"
proof (rule if_ok)
  assume ok: "store_ok env s"
  show ?thesis
  proof (cases "job_ok env j")
    case True
    with ok assms have "R s (put_job j s)" by (intro on_reconcile) (simp_all add: job_sound_def)
    with True show ?thesis by (simp add: write_job_def)
  next
    case False
    then obtain e where "validate_job_record env j = Inl e" using validate_job_cases by blast
    then show ?thesis by (simp add: write_job_def R_refl)
  qed
qed

lemma reconcile_step:
  assumes look: "look_job s (j_id j) = Some j" and snd: "job_sound env j"
    and nt: "\<not> terminal_status (j_status j)" and r: "receipt_ok r"
    and rec: "look_receipt s (receipt_of_job (j_id j)) = Some r"
  shows "R s (snd (reconcile env j r now s))"
  unfolding reconcile_def
proof (rule step_require, rule step_bind)
  note facts = reconciled_reconciles [OF look snd nt r rec]
  show "R s (snd (write_job env (reconciled_job j r) s))"
    by (rule step_write_reconciled) (use facts in blast)
  fix k s' assume "write_job env (reconciled_job j r) s = (Inr k, s')"
  with facts have "look_job s' (j_id k) = Some k" "job_sound env k"
    by (auto simp: write_job_result job_dir.look_put job_sound_def)
  then show "R s' (snd (bindA (finish_restart env k now) (\<lambda>_. ret (no_recovery\<lparr>n_reconciled := 1\<rparr>)) s'))"
    by (intro step_tail finish_restart_step)
qed

lemma wake_retry_step:
  assumes "look_job s (j_id j) = Some j" and "job_sound env j" and "j_status j = Retry_wait"
  shows "R s (snd (wake_retry env j now s))"
  unfolding wake_retry_def Let_def using assms
  by (auto simp: R_refl advance_simps split: option.splits intro!: step_tail step_write_job)

lemma stop_expired_step:
  assumes look: "look_job s (j_id j) = Some j" and snd: "job_sound env j"
    and act: "active_status (j_status j)" and c: "j_control j = Some c" "ctl_pending c \<noteq> None"
  shows "R s (snd (stop_expired env j c a now s))"
proof -
  let ?d = "c\<lparr>ctl_pending := None, ctl_revision := ctl_revision c + 1\<rparr>"
  have co: "control_of j = c" using c by (simp add: control_of_def)
  have fin: "finishable env (j\<lparr>j_control := Some ?d\<rparr>)"
    by (rule stop_finishable [OF snd act c, where n = "ctl_network_used c" and ob = "ctl_observation c"])
       simp_all
  have stop: "R s (snd (finish_locked env (j\<lparr>j_control := Some ?d\<rparr>) Cancelled now (j_progress j)
      (Some Cancelled_class) (Some ''cancelled_by_user'') False False s))"
    using stop_may_finish [OF look snd act fin] co by (intro step_finish) simp
  have "paused_job (j\<lparr>j_control := Some ?d, j_recovery_count := j_recovery_count j + 1\<rparr>) now =
      paused_job (j\<lparr>j_schema := j_schema j, j_control := Some ?d,
        j_recovery_count := j_recovery_count j + 1\<rparr>) now" by simp
  then have pause: "R s (snd (write_job env (paused_job (j\<lparr>j_control := Some ?d,
      j_recovery_count := j_recovery_count j + 1\<rparr>) now) s))"
    using paused_may_write [OF look snd act, where v = "j_schema j" and c = ?d
        and n = "j_recovery_count j + 1" and now = now] co
    by (intro step_write_job) simp
  show ?thesis
    unfolding stop_expired_def Let_def using stop pause by (auto intro!: step_tail)
qed

lemma end_lease_step:
  assumes look: "look_job s (j_id j) = Some j" and snd: "job_sound env j"
    and act: "active_status (j_status j)"
  shows "R s (snd (end_lease env j reversed now s))"
proof -
  have wr: "R s (snd (write_job env (j\<lparr>j_status := Queued, j_updated_at := now, j_lease := None,
      j_retry_not_before := None, j_recovery_state := x, j_recovery_count := j_recovery_count j + 1,
      j_attempts := close_attempt out now cls code (j_attempts j)\<rparr>) s))" for x out cls code
    using look snd act close_attempt_extends
    by (intro step_write_job) (auto simp: advance_simps dest: active_not_terminal)
  have fin: "R s (snd (finish_locked env (j\<lparr>j_attempts := close_attempt Attempt_failed now cls code
      (j_attempts j), j_lease := None, j_recovery_state := x,
      j_recovery_count := j_recovery_count j + 1\<rparr>) Manual_intervention now p cls code False False s))"
    for x cls code p
    unfolding end_lease_finish by (intro step_finish recovered_may_finish look snd act)
  show ?thesis
    unfolding end_lease_def Let_def by (cases "terminal_recovery j") (auto intro!: step_tail wr fin)
qed

lemma recover_lease_step:
  assumes "look_job s (j_id j) = Some j" and "job_sound env j"
  shows "R s (snd (recover_lease env j now s))"
  using end_lease_step [OF assms] stop_expired_step [OF assms]
  by (auto simp: recover_lease_def Let_def R_refl split: option.splits)

lemma recover_job_step:
  assumes look: "look_job s (j_id j) = Some j" and snd: "job_sound env j"
  shows "R s (snd (recover_job env j now s))"
proof (cases "terminal_status (j_status j)")
  case True
  then show ?thesis
    using finish_restart_step [OF assms] by (simp add: recover_job_def step_tail)
next
  case False
  have ok: "job_ok env j" using snd by (simp add: job_sound_def)
  show ?thesis
    unfolding recover_job_def if_not_P [OF False]
  proof (rule step_bind)
    show "R s (snd (read_receipt_file (receipt_of_job (j_id j)) s))" by (simp add: R_refl)
  next
    fix x s' assume rd: "read_receipt_file (receipt_of_job (j_id j)) s = (Inr x, s')"
    from read_receipt_file_result [OF rd] have s': "s' = s" by blast
    have some: "R s (snd (reconcile env j r now s))" if "x = Some r" for r
      using read_receipt_file_result [OF rd] that by (intro reconcile_step [OF assms False]) simp_all
    have none: "R s (snd ((if completion_of j \<noteq> None
            then bindA (finish_immediate env j now) (\<lambda>_. ret no_recovery)
            else if restart_of j \<noteq> None
            then bindA (finish_restart env j now) (\<lambda>_. ret no_recovery)
            else if j_status j = Retry_wait then wake_retry env j now
            else recover_lease env j now) s))"
      using finish_immediate_step [OF assms] finish_restart_step [OF assms] wake_retry_step [OF assms]
        recover_lease_step [OF assms] by (auto intro!: step_tail)
    show "R s' (snd ((case x of Some r \<Rightarrow> reconcile env j r now
        | None \<Rightarrow>
            if completion_of j \<noteq> None
            then bindA (finish_immediate env j now) (\<lambda>_. ret no_recovery)
            else if restart_of j \<noteq> None
            then bindA (finish_restart env j now) (\<lambda>_. ret no_recovery)
            else if j_status j = Retry_wait then wake_retry env j now
            else recover_lease env j now) s'))"
      unfolding s' using some none by (cases x) simp_all
  qed
qed

lemma recover_all_step: "R s (snd (recover_all env now ks acc s))"
proof (induction ks arbitrary: acc s)
  case Nil
  then show ?case by (simp add: R_refl)
next
  case (Cons k ks)
  show ?case
    unfolding recover_all.simps
  proof (rule if_ok, rule step_bind)
    show "R s (snd (read_job_file env k s))" by (simp add: R_refl)
  next
    fix j s' assume ok: "store_ok env s" and rd: "read_job_file env k s = (Inr j, s')"
    from read_job_file_result [OF rd] have "s' = s" "look_job s k = Some j" by simp_all
    with store_ok_job [OF ok, of k j] have j: "look_job s' (j_id j) = Some j" "job_sound env j"
      by simp_all
    show "R s' (snd (bindA (recover_job env j now) (\<lambda>d. recover_all env now ks (add_counts acc d)) s'))"
    proof (rule step_bind)
      show "R s' (snd (recover_job env j now s'))" by (rule recover_job_step [OF j])
    next
      fix d s'' show "R s'' (snd (recover_all env now ks (add_counts acc d) s''))" by (rule Cons.IH)
    qed
  qed
qed

lemma recover_locked_step: "R s (snd (recover_locked env now s))"
  unfolding recover_locked_def by (rule step_reads) (rule recover_all_step)

lemma recover_step: "R s (snd (recover env now s))"
  unfolding recover_def by (rule step_reads) (auto simp: R_refl intro: step_hold recover_locked_step)

end

section \<open>Facts of evaluation and claiming\<close>

definition same_job :: "string \<Rightarrow> store \<Rightarrow> store \<Rightarrow> bool" where
  "same_job i s t \<longleftrightarrow> look_job t i = look_job s i"

interpretation job_frame: step_contract "same_job i" for i
  by unfold_locales (simp_all add: same_job_def)

lemma frame_write_policy: "same_job i s (snd (write_policy env p s))"
  by (cases "validate_policy_record env p") (simp_all add: write_policy_def same_job_def)

lemma frame_write_job: "i \<noteq> j_id j \<Longrightarrow> same_job i s (snd (write_job env j s))"
  by (cases "validate_job_record env j")
     (auto simp: write_job_def same_job_def job_dir.look_put validate_job_Inr)

lemma frame_new_job:
  assumes "i \<noteq> ''job_'' @ hex"
  shows "same_job i s (snd (new_job env hex p reason nominal eligible key now plan s))"
proof -
  have w: "same_job i s (snd (bindA (write_job env
             (queued_job hex p reason nominal eligible key now plan)) (\<lambda>j. ret (j, True)) s))"
    using assms by (intro job_frame.step_bind frame_write_job) (simp_all add: job_frame.R_refl)
  show ?thesis
    unfolding new_job_def all_jobs_def
    by (rule job_frame.step_query, split option.split)
       (auto intro: w job_frame.step_require simp: job_frame.R_refl)
qed

lemma frame_due_policy:
  assumes "i \<noteq> ''job_'' @ hex"
  shows "same_job i s (snd (due_policy env hex p nominal due now s))"
  unfolding due_policy_def Let_def
proof (rule job_frame.step_result, rule job_frame.step_bind)
  fix adv
  show "same_job i s (snd ((case missed_run p now nominal due adv of
      None \<Rightarrow> ret (no_evaluation\<lparr>ev_skipped := [p_id p], ev_capped := (if adv_capped adv then [p_id p] else [])\<rparr>)
    | Some (reason, n, d) \<Rightarrow>
        bindA (of_result (scheduled_key env p reason nominal)) (\<lambda>key.
        bindA (new_job env hex p reason n d key now None) (\<lambda>(j, created).
        ret (if created then no_evaluation\<lparr>ev_created := [j_id j], ev_capped := (if adv_capped adv then [p_id p] else [])\<rparr>
             else no_evaluation\<lparr>ev_duplicate := [j_id j], ev_capped := (if adv_capped adv then [p_id p] else [])\<rparr>)))) s))"
    by (cases "missed_run p now nominal due adv")
       (auto simp: job_frame.R_refl split: prod.split
          intro!: job_frame.step_result job_frame.step_bind frame_new_job [OF assms])
qed (auto simp: job_frame.R_refl intro!: job_frame.step_bind frame_write_policy)

lemma frame_evaluate_policy:
  assumes "i \<noteq> ''job_'' @ hex"
  shows "same_job i s (snd (evaluate_policy env hex p now s))"
  unfolding evaluate_policy_def
  by (auto simp: job_frame.R_refl next_occurrence_state split: option.split
      intro!: job_frame.step_bind frame_write_policy frame_due_policy [OF assms])

text \<open>
  The identifiers that an evaluation draws are unused when it draws them: \<open>uuid4\<close> never returns
  the id of a stored job, nor the same id twice.
\<close>

definition draws_unused :: "sched_env \<Rightarrow> (string \<Rightarrow> string) \<Rightarrow> instant \<Rightarrow> store \<Rightarrow> bool" where
  "draws_unused env fresh now s \<longleftrightarrow>
     (let t = snd (recover_locked env now (s\<lparr>st_present := True\<rparr>)); ps = map fst (st_policies t)
      in distinct (map fresh ps) \<and> list_all (\<lambda>i. look_job t (''job_'' @ fresh i) = None) ps)"

context store_contract
begin

lemma due_policy_step:
  assumes "look_job s (''job_'' @ hex) = None"
  shows "R s (snd (due_policy env hex p nominal due now s))"
  unfolding due_policy_def Let_def
proof (rule step_result, rule step_bind)
  fix adv
  show "R s (snd ((case missed_run p now nominal due adv of
      None \<Rightarrow> ret (no_evaluation\<lparr>ev_skipped := [p_id p], ev_capped := (if adv_capped adv then [p_id p] else [])\<rparr>)
    | Some (reason, n, d) \<Rightarrow>
        bindA (of_result (scheduled_key env p reason nominal)) (\<lambda>key.
        bindA (new_job env hex p reason n d key now None) (\<lambda>(j, created).
        ret (if created then no_evaluation\<lparr>ev_created := [j_id j], ev_capped := (if adv_capped adv then [p_id p] else [])\<rparr>
             else no_evaluation\<lparr>ev_duplicate := [j_id j], ev_capped := (if adv_capped adv then [p_id p] else [])\<rparr>)))) s))"
    by (cases "missed_run p now nominal due adv")
       (auto simp: R_refl split: prod.split intro!: step_result step_bind new_job_step [OF assms])
qed (auto simp: R_refl intro!: step_bind step_write_policy)

lemma evaluate_policy_step:
  assumes "look_job s (''job_'' @ hex) = None"
  shows "R s (snd (evaluate_policy env hex p now s))"
proof -
  have *: "R s (snd (bindA (case (p_next_nominal_at p, p_next_due_at p) of
                    (Some n, Some d) \<Rightarrow> ret (Some (n, d))
                  | _ \<Rightarrow> next_occurrence env (p_id p) (p_revision p) Policy_enabled (p_schedule p) now) (\<lambda>occ.
        case occ of
          None \<Rightarrow> ret no_evaluation
        | Some (nominal, due) \<Rightarrow>
            if due > now
            then bindA (write_policy env (evaluated_policy p now (Some (nominal, due)))) (\<lambda>_.
                 ret no_evaluation)
            else due_policy env hex p nominal due now) s))" (is "R s (snd (bindA ?occ ?k s))")
  proof -
    have same: "snd (?occ s) = s" by (simp add: next_occurrence_state split: option.split)
    show ?thesis
    proof (rule step_bind)
      show "R s (snd (?occ s))" unfolding same by (rule R_refl)
    next
      fix x s' assume "?occ s = (Inr x, s')"
      with same have "s' = s" by simp
      then show "R s' (snd (?k x s'))"
        by (auto simp: R_refl split: option.split
            intro!: step_bind step_write_policy due_policy_step [OF assms])
    qed
  qed
  show ?thesis
    unfolding evaluate_policy_def using *
    by (auto simp: R_refl next_occurrence_state intro!: step_bind step_write_policy)
qed

lemma evaluate_all_step:
  assumes "distinct (map (\<lambda>p. fresh (p_id p)) ps)"
    and "\<And>p. p \<in> set ps \<Longrightarrow> look_job s (''job_'' @ fresh (p_id p)) = None"
  shows "R s (snd (evaluate_all env fresh now ps acc s))"
  using assms
proof (induction ps arbitrary: acc s)
  case Nil
  then show ?case by (simp add: R_refl)
next
  case (Cons p ps)
  show ?case
    unfolding evaluate_all.simps
  proof (rule step_bind)
    show "R s (snd (evaluate_policy env (fresh (p_id p)) p now s))"
      by (rule evaluate_policy_step) (use Cons.prems in simp)
  next
    fix ev s' assume ev: "evaluate_policy env (fresh (p_id p)) p now s = (Inr ev, s')"
    have "look_job s' (''job_'' @ fresh (p_id q)) = None" if q: "q \<in> set ps" for q
    proof -
      have "''job_'' @ fresh (p_id q) \<noteq> ''job_'' @ fresh (p_id p)"
        using Cons.prems(1) q by (auto simp: image_iff)
      from frame_evaluate_policy [OF this, of s env p now] ev Cons.prems(2) q
      show ?thesis by (simp add: same_job_def)
    qed
    then show "R s' (snd (evaluate_all env fresh now ps (add_evaluation acc ev) s'))"
      using Cons.prems(1) by (intro Cons.IH) simp_all
  qed
qed

lemma list_policies_step:
  assumes "\<And>ps. store_ok env s \<Longrightarrow> mset ps = mset (map snd (st_policies s)) \<Longrightarrow> R s (snd (k ps s))"
  shows "R s (snd (bindA (list_policies env) k s))"
proof (rule if_ok)
  assume ok: "store_ok env s"
  have "validate_policy_record env p = Inr p" if "(i, p) \<in> set (st_policies s)" for i p
    using ok that store_ok_policy [OF ok, of i p]
    by (simp add: store_ok_def look_policy_def policy_ok_def)
  then have "collect (\<lambda>kv. validate_policy_record env (snd kv)) (st_policies s) = Inr (map snd (st_policies s))"
    by (intro collect_all) auto
  then show ?thesis
    using assms [OF ok] by (simp add: list_policies_def)
qed

lemma evaluate_step:
  assumes "draws_unused env fresh now s"
  shows "R s (snd (evaluate env fresh now s))"
  unfolding evaluate_def
proof (rule step_reads, split if_split, intro conjI impI)
  show "R s (snd (ret (no_evaluation, no_recovery) s))" by (simp add: R_refl)
next
  let ?s = "s\<lparr>st_present := True\<rparr>"
  show "R s (snd (seqA hold
         (bindA (recover_locked env now) (\<lambda>counts.
          bindA (list_policies env) (\<lambda>ps.
          bindA (evaluate_all env fresh now ps no_evaluation) (\<lambda>ev. ret (ev, counts))))) s))"
  proof (rule step_hold_at, rule step_bind)
    show "R ?s (snd (recover_locked env now ?s))" by (rule recover_locked_step)
  next
    fix counts t assume t: "recover_locked env now ?s = (Inr counts, t)"
    show "R t (snd (bindA (list_policies env) (\<lambda>ps.
          bindA (evaluate_all env fresh now ps no_evaluation) (\<lambda>ev. ret (ev, counts))) t))"
    proof (rule list_policies_step, rule step_tail)
      fix ps assume ok: "store_ok env t" and ps: "mset ps = mset (map snd (st_policies t))"
      have ids: "map fst (st_policies t) = map p_id (map snd (st_policies t))"
        using ok store_ok_policy [OF ok]
        by (auto simp: store_ok_def look_policy_def)
      from ps have m: "mset (map (\<lambda>p. fresh (p_id p)) ps) = mset (map fresh (map fst (st_policies t)))"
        unfolding ids by (metis (no_types, lifting) list.map_comp comp_apply map_eq_conv mset_map)
      have set: "set ps = set (map snd (st_policies t))" using ps mset_eq_setD by blast
      have "distinct (map fresh (map fst (st_policies t)))"
        and none: "\<And>i. i \<in> set (map fst (st_policies t)) \<Longrightarrow> look_job t (''job_'' @ fresh i) = None"
        using assms t by (auto simp: draws_unused_def Let_def list_all_iff)
      then have "distinct (map (\<lambda>p. fresh (p_id p)) ps)"
        using mset_eq_imp_distinct_iff [OF m] by simp
      moreover have "look_job t (''job_'' @ fresh (p_id p)) = None" if "p \<in> set ps" for p
        using none [of "p_id p"] that set ids by force
      ultimately show "R t (snd (evaluate_all env fresh now ps no_evaluation t))"
        by (rule evaluate_all_step)
    qed
  qed
qed

end

lemma waiting_closed:
  assumes "job_sound env j" and "\<not> active_status (j_status j)" and "\<not> terminal_status (j_status j)"
  shows "list_all (\<lambda>a. a_outcome a \<noteq> Attempt_running) (j_attempts j)"
proof (cases "j_attempts j = []")
  case False
  then have as: "j_attempts j = butlast (j_attempts j) @ [last (j_attempts j)]" by simp
  have "a_outcome (last (j_attempts j)) \<in> {Attempt_retry, Attempt_paused}"
    using waiting_last [of env j] assms False by (simp add: job_sound_def)
  moreover have "list_all (\<lambda>a. a_outcome a \<noteq> Attempt_running) (butlast (j_attempts j))"
    using assms(1) by (simp add: job_sound_def earlier_closed_def)
  ultimately show ?thesis by (subst as) auto
qed simp

lemma history_extends_append: "history_extends as (as @ bs)"
  by (simp add: history_extends_def nth_append)

lemma claimed_may_write:
  assumes look: "look_job s (j_id j) = Some j" and snd: "job_sound env j" and q: "j_status j = Queued"
    and room: "remaining j"
  shows "earlier_closed (j_attempts (claimed_job j hex worker seconds now))
       \<and> bookkeeping_ok (claimed_job j hex worker seconds now)
       \<and> may_write s (claimed_job j hex worker seconds now)"
proof -
  have ok: "job_ok env j" using snd by (simp add: job_sound_def)
  have closed: "list_all (\<lambda>a. a_outcome a \<noteq> Attempt_running) (j_attempts j)"
    using waiting_closed [OF snd] q by (simp add: active_status_def terminal_status_def)
  have pr: "promote j = j\<lparr>j_schema := j_schema (promote j), j_control := j_control (promote j)\<rparr>"
    by (rule promote_upgrade [OF ok])
  have ctl: "j_control (promote j) = j_control j \<or> (\<exists>p. j_control (promote j) = Some (initial_control p))"
    by (auto simp: promote_def)
  define k where "k = (if promotes_on_claim (j_kind j) then promote j else j)"
  have k: "k = j\<lparr>j_schema := j_schema k, j_control := j_control k\<rparr>"
    unfolding k_def using pr by simp
  have kc: "j_control k = j_control j \<or> (\<exists>p. j_control k = Some (initial_control p))"
    unfolding k_def using ctl by simp
  obtain v c where kv: "k = j\<lparr>j_schema := v, j_control := c\<rparr>" and c: "c = j_control k"
    using k by blast
  have "bookkeeping_ok (claimed_job j hex worker seconds now)"
    using snd kc q room unfolding claimed_job_def k_def [symmetric] Let_def kv
    by (auto simp: job_sound_def bookkeeping_defs active_status_def remaining_def)
  moreover have "may_write s (claimed_job j hex worker seconds now)"
    using look q unfolding claimed_job_def k_def [symmetric] Let_def kv
    by (simp add: advance_simps history_extends_append terminal_status_def)
  moreover have "earlier_closed (j_attempts (claimed_job j hex worker seconds now))"
    using closed unfolding claimed_job_def k_def [symmetric] Let_def kv
    by (simp add: earlier_closed_def)
  ultimately show ?thesis by blast
qed

lemma all_jobs_state [simp]: "snd (all_jobs env s) = s"
  by (simp add: all_jobs_def)

context store_contract
begin

lemma claim_job_step:
  assumes "look_job s (j_id j) = Some j" and "job_sound env j" and "j_status j = Queued"
  shows "R s (snd (claim_job env j hex worker seconds now s))"
proof -
  have wr: "R s (snd (seqA (require (remaining j) (Conflict_error ''queued job exceeded its attempt bound''))
       (write_job env (claimed_job j hex worker seconds now)) s))"
    using claimed_may_write [OF assms] by (intro step_require step_write_job) blast
  show ?thesis
    unfolding claim_job_def
  proof (cases "parent_of j")
    case None
    then show "R s (snd (bindA (case parent_of j of
              None \<Rightarrow> ret ()
            | Some i \<Rightarrow> bindA (get_job env i) (\<lambda>p. of_result (validate_restart_lineage p j))) (\<lambda>_.
     seqA (require (remaining j) (Conflict_error ''queued job exceeded its attempt bound''))
       (write_job env (claimed_job j hex worker seconds now))) s))" using wr by simp
  next
    case (Some i)
    have st: "snd (get_job env i s) = s" by (auto simp: get_job_def split: option.split sum.split)
    have "snd (bindA (get_job env i) (\<lambda>p. of_result (validate_restart_lineage p j)) s) = s"
      using st by (cases "get_job env i s") (auto simp: bindA_def split: sum.split)
    note same = this
    show "R s (snd (bindA (case parent_of j of
              None \<Rightarrow> ret ()
            | Some i \<Rightarrow> bindA (get_job env i) (\<lambda>p. of_result (validate_restart_lineage p j))) (\<lambda>_.
     seqA (require (remaining j) (Conflict_error ''queued job exceeded its attempt bound''))
       (write_job env (claimed_job j hex worker seconds now))) s))"
      unfolding Some option.case
    proof (rule step_bind)
      show "R s (snd (bindA (get_job env i) (\<lambda>p. of_result (validate_restart_lineage p j)) s))"
        unfolding same by (rule R_refl)
    next
      fix x s' assume "bindA (get_job env i) (\<lambda>p. of_result (validate_restart_lineage p j)) s = (Inr x, s')"
      with same have "s' = s" by simp
      with wr show "R s' (snd (seqA (require (remaining j) (Conflict_error ''queued job exceeded its attempt bound''))
         (write_job env (claimed_job j hex worker seconds now)) s'))" by simp
    qed
  qed
qed

lemma claim_next_step: "R s (snd (claim_next env hex worker kinds only seconds now s))"
proof -
  have pick: "R t (snd (bindA (all_jobs env) (\<lambda>js.
           case sort_key claim_order (filter (claimable kinds only now) js) of
             [] \<Rightarrow> ret None
           | j # _ \<Rightarrow> bindA (claim_job env j hex worker seconds now) (\<lambda>k. ret (Some k))) t))" for t
  proof (rule if_ok)
    assume ok: "store_ok env t"
    show "R t (snd (bindA (all_jobs env) (\<lambda>js.
           case sort_key claim_order (filter (claimable kinds only now) js) of
             [] \<Rightarrow> ret None
           | j # _ \<Rightarrow> bindA (claim_job env j hex worker seconds now) (\<lambda>k. ret (Some k))) t))"
    proof (cases "sort_key claim_order (filter (claimable kinds only now) (map snd (st_jobs t)))")
      case Nil
      then show ?thesis by (simp add: bindA_def all_jobs_ok [OF ok] R_refl)
    next
      case (Cons j js)
      then have "j \<in> set (filter (claimable kinds only now) (map snd (st_jobs t)))"
        by (metis list.set_intros(1) set_sort)
      then have j: "j \<in> set (map snd (st_jobs t))" "claimable kinds only now j" by auto
      then have look: "look_job t (j_id j) = Some j" using look_job_member [OF ok] by simp
      have "job_sound env j" using store_ok_job [OF ok look] by simp
      moreover have "j_status j = Queued" using j(2) by (simp add: claimable_def)
      ultimately have "R t (snd (claim_job env j hex worker seconds now t))"
        by (rule claim_job_step [OF look])
      with Cons show ?thesis by (simp add: bindA_def [of "all_jobs env"] all_jobs_ok [OF ok] step_tail)
    qed
  qed
  have rest: "R t (snd (bindA (recover_locked env now) (\<lambda>_. bindA (all_jobs env) (\<lambda>js.
           case sort_key claim_order (filter (claimable kinds only now) js) of
             [] \<Rightarrow> ret None
           | j # _ \<Rightarrow> bindA (claim_job env j hex worker seconds now) (\<lambda>k. ret (Some k)))) t))" for t
    by (rule step_bind) (auto intro: recover_locked_step pick)
  have held: "R t (snd (seqA hold (bindA (recover_locked env now) (\<lambda>_. bindA (all_jobs env) (\<lambda>js.
           case sort_key claim_order (filter (claimable kinds only now) js) of
             [] \<Rightarrow> ret None
           | j # _ \<Rightarrow> bindA (claim_job env j hex worker seconds now) (\<lambda>k. ret (Some k))))) t))" for t
    by (rule step_hold) (rule rest)
  show ?thesis
    unfolding claim_next_def require_lease_seconds_def
  proof (rule step_seq, goal_cases)
    case 1
    show ?case by (simp add: R_refl split: option.split)
  next
    case 2
    show ?case
    proof (intro step_require step_reads, split if_split, intro conjI impI, goal_cases)
      case 1
      show ?case by (simp add: R_refl)
    next
      case 2
      show ?case
      proof (rule step_seq, goal_cases)
        case 1
        show ?case by (cases only) (simp_all add: R_refl step_bind)
      next
        case 2
        show ?case by (rule held)
      qed
    qed
  qed
qed

end

end
