(* ===== verification/Scheduler_Example.thy ===== *)
theory Scheduler_Example
  imports Scheduler_Recovery
begin

text \<open>
  A concrete store, built by running the transactions: an Instance with one policy of the kind
  \<open>search.reindex\<close>, a job of it that was queued by hand, the job leased by a worker, and
  later states. The properties of the scheduler are applied to it.
\<close>

section \<open>The environment and the inputs\<close>

definition lab_hex :: string where "lab_hex = replicate 32 (CHR ''a'')"

definition lab_utc :: zone where
  "lab_utc = \<lparr>z_offset = (\<lambda>_. 0), z_wall_offset = (\<lambda>_ _. 0)\<rparr>"

definition lab_env :: sched_env where
  "lab_env = \<lparr>e_instance = ''inst_'' @ lab_hex, e_sources = [],
     e_zones = (\<lambda>n. if n = ''UTC'' then Some lab_utc else None), e_seed = (\<lambda>_ _. 0),
     e_digest = (\<lambda>v. replicate 64 (if jget v ''status'' = JStr ''running'' then CHR ''d'' else CHR ''c'')), e_digest_utf8 = (\<lambda>_. replicate 64 (CHR ''e'')),
     e_digest_text = (\<lambda>_. replicate 64 (CHR ''f'')), e_size = (\<lambda>_. 0)\<rparr>"

definition lab_schedule :: schedule where
  "lab_schedule = \<lparr>s_mode = Interval_mode, s_timezone = ''UTC'', s_interval = Some 3600,
     s_calendar_time = None, s_weekdays = [], s_dst = Dst_earliest, s_quiet = None, s_jitter = 0,
     s_missed = Missed_coalesce\<rparr>"

definition lab_policy_id :: string where "lab_policy_id = ''policy_'' @ lab_hex"
definition lab_job_id :: string where "lab_job_id = ''job_'' @ lab_hex"
definition lab_token :: string where "lab_token = ''lease_'' @ lab_hex"
definition lab_worker :: string where "lab_worker = ''worker-1''"

definition lab_scope :: scope where
  "lab_scope = \<lparr>scope_kind = ''instance'', scope_id = e_instance lab_env\<rparr>"

definition lab_policy :: policy where
  "lab_policy = \<lparr>p_id = lab_policy_id, p_revision = 1, p_kind = Search_reindex, p_scope = lab_scope,
     p_state = Policy_enabled, p_schedule = lab_schedule, p_retry = default_retry,
     p_created_at = 0, p_updated_at = 0, p_last_evaluated_at = None,
     p_next_nominal_at = Some (3600 * SECOND), p_next_due_at = Some (3600 * SECOND)\<rparr>"

definition lab_queued_job :: job where
  "lab_queued_job = queued_job lab_hex lab_policy Reason_manual SECOND SECOND
     (replicate 64 (CHR ''f'')) SECOND None"

definition lab_job :: job where
  "lab_job = claimed_job lab_queued_job lab_hex lab_worker 120 (2 * SECOND)"

section \<open>The states\<close>

text \<open>The policy exists; a run was asked for; a worker holds the job.\<close>

definition lab_created :: store where
  "lab_created = \<lparr>st_present = True, st_policies = [(lab_policy_id, lab_policy)], st_jobs = [],
     st_receipts = []\<rparr>"

definition lab_queued :: store where
  "lab_queued = lab_created\<lparr>st_jobs := [(lab_job_id, lab_queued_job)]\<rparr>"

definition lab_claimed :: store where
  "lab_claimed = lab_created\<lparr>st_jobs := [(lab_job_id, lab_job)]\<rparr>"

section \<open>The transactions that lead to them\<close>

text \<open>The continuation of a bind is not simplified before it is applied.\<close>

lemma bindA_lazy: "m = n \<Longrightarrow> bindA m k s = bindA n k s"
  by simp

lemma seqA_lazy: "m = n \<Longrightarrow> seqA m k s = seqA n k s"
  by simp

lemma lab_schedule_ok: "normalise_schedule (e_zones lab_env) lab_schedule = Inr lab_schedule"
  by code_simp

lemma lab_scope_ok: "normalise_scope lab_env Search_reindex lab_scope = Inr lab_scope"
  by code_simp

lemma lab_retry_ok: "normalise_retry default_retry = Inr default_retry"
  by code_simp

lemma lab_next: "next_occurrence lab_env i n Policy_enabled lab_schedule 0 s =
    (Inr (Some (3600 * SECOND, 3600 * SECOND)), s)"
proof -
  have "next_nominal_after (e_zones lab_env) 0 lab_schedule = Inr (Some (3600 * SECOND))"
    by code_simp
  moreover have "occurrence lab_env i n lab_schedule (3600 * SECOND) = Inr (3600 * SECOND)"
  proof -
    have "quiet_until (e_zones lab_env) (3600 * SECOND) lab_schedule = Inr (3600 * SECOND)"
      by code_simp
    moreover have "jitter_seconds (e_seed lab_env) i n (s_jitter lab_schedule) = 0"
      by (simp add: jitter_seconds_def lab_schedule_def)
    ultimately show ?thesis by (simp add: occurrence_def eligible_instant_def lab_schedule_ok)
  qed
  ultimately show ?thesis by (simp add: next_occurrence_def lab_schedule_def)
qed

lemma lab_policy_ok: "validate_policy_record lab_env lab_policy = Inr lab_policy"
  by code_simp

lemma lab_creates: "create_policy lab_env lab_hex Search_reindex lab_scope Policy_enabled
     lab_schedule None 0 empty_store = (Inr lab_policy, lab_created)"
  unfolding create_policy_def Let_def
  by (simp add: lab_schedule_ok lab_scope_ok lab_retry_ok lab_next hold_def write_policy_def
      lab_policy_ok [unfolded lab_policy_def lab_policy_id_def, simplified] put_policy_def empty_store_def lab_created_def
      alist_put_def lab_policy_def lab_policy_id_def)

lemma lab_ids [simp]: "policy_id_ok lab_policy_id" "job_id_ok lab_job_id"
  "record_identifier lab_policy_id Policy_record" "record_identifier lab_job_id Job_record"
  by code_simp+

text \<open>Whether a job is valid; the byte length of its record is 0 here.\<close>

lemma lab_size [simp]: "e_size lab_env v = 0"
  by (simp add: lab_env_def)

lemma lab_fits: "fits lab_env"
  by (simp add: fits_def)

lemma lab_valid:
  assumes "first_failure (job_core_ladder j) = None"
    and "first_failure (job_tail_ladder lab_env j) = None"
    and "j_control j = Some c \<Longrightarrow> first_failure (control_head_ladder j c) = None
          \<and> ctl_restart c = None \<and> ctl_observation c = None"
    and "j_control j = None \<or> j_control j = Some c"
  shows "job_ok lab_env j"
  using assms
  by (auto simp: job_ok_def job_ladder_def control_ladder_def restart_ladder_def
      control_tail_ladder_def MAX_CONTROL_RECORD_BYTES_def)

lemma lab_queued_ok [simp]: "job_ok lab_env lab_queued_job"
proof (rule lab_valid)
  show "first_failure (job_core_ladder lab_queued_job) = None" by code_simp
  show "first_failure (job_tail_ladder lab_env lab_queued_job) = None" by code_simp
qed (simp_all add: lab_queued_job_def queued_job_def)

lemma lab_job_control: "j_control lab_job = Some (initial_control None)"
  by code_simp

lemma lab_job_head: "first_failure (control_head_ladder lab_job (initial_control None :: job_control)) = None"
  by code_simp

lemma lab_job_ok [simp]: "job_ok lab_env lab_job"
proof (rule lab_valid [where c = "initial_control None"])
  show "first_failure (job_core_ladder lab_job) = None" by code_simp
  show "first_failure (job_tail_ladder lab_env lab_job) = None" by code_simp
qed (simp_all only: lab_job_control lab_job_head initial_control_fields simp_thms)

lemma lab_look [simp]: "look_policy lab_created lab_policy_id = Some lab_policy"
  "look_job lab_queued lab_job_id = Some lab_queued_job" "look_job lab_claimed lab_job_id = Some lab_job"
  "st_policies lab_queued = [(lab_policy_id, lab_policy)]" "st_policies lab_claimed = [(lab_policy_id, lab_policy)]"
  "st_jobs lab_queued = [(lab_job_id, lab_queued_job)]" "st_jobs lab_claimed = [(lab_job_id, lab_job)]"
  "st_policies lab_created = [(lab_policy_id, lab_policy)]" "st_jobs lab_created = []" "st_receipts lab_created = []" "st_receipts lab_queued = []"
  "st_receipts lab_claimed = []"
  by (simp_all add: look_policy_def look_job_def lab_created_def lab_queued_def lab_claimed_def)

lemma lab_run:
  assumes "identity = lab_hex \<and> request = None \<or> identity = ''nightly'' \<and> request = Some ''nightly''"
  shows "run_now lab_env lab_hex lab_hex lab_policy_id request SECOND None lab_created
     = (Inr (lab_queued_job, True), lab_queued)"
proof -
  have f: "found_policy lab_env lab_policy_id s = (Inr lab_policy, s)"
    if "look_policy s lab_policy_id = Some lab_policy" for s
    using that by (simp add: found_policy_def get_policy_def lab_policy_ok)
  have k: "idempotency_digest lab_env [''manual'', p_id lab_policy, int_text (p_revision lab_policy), identity]
      = Inr (replicate 64 (CHR ''f''))"
    using assms by (elim disjE conjE; simp only:; code_simp)
  have h: "identity \<noteq> [] \<and> length identity \<le> 200"
    using assms by (elim disjE conjE; simp only:; code_simp)
  have i: "(case request of None \<Rightarrow> lab_hex | Some k \<Rightarrow> strip k) = identity"
    using assms by (elim disjE conjE; simp only:; code_simp)
  have "new_job lab_env lab_hex lab_policy Reason_manual SECOND SECOND (replicate 64 (CHR ''f'')) SECOND None lab_created
      = (Inr (lab_queued_job, True), lab_queued)"
    by (simp add: new_job_def all_jobs_def lab_queued_job_def [symmetric] write_job_def put_job_def
        alist_put_def lab_queued_def, simp add: lab_job_id_def lab_queued_job_def)
  moreover have "hold lab_created = (Inr (), lab_created)"
    by (simp add: hold_def lab_created_def)
  ultimately show ?thesis
    unfolding run_now_def Let_def i
    using f [of lab_created] k h by simp
qed

lemma lab_runs: "run_now lab_env lab_hex lab_hex lab_policy_id None SECOND None lab_created
     = (Inr (lab_queued_job, True), lab_queued)"
  by (rule lab_run) simp

lemma lab_runs_named: "run_now lab_env lab_hex lab_hex lab_policy_id (Some ''nightly'') SECOND None lab_created
     = (Inr (lab_queued_job, True), lab_queued)"
  by (rule lab_run [where identity = "''nightly''"]) simp

lemma lab_job_fields:
  "j_id lab_queued_job = lab_job_id" "j_status lab_queued_job = Queued" "restart_of lab_queued_job = None"
  "completion_of lab_queued_job = None" "parent_of lab_queued_job = None" "remaining lab_queued_job"
  "j_lease lab_queued_job = None" "j_id lab_job = lab_job_id"
  "claimable [Search_reindex] None (2 * SECOND) lab_queued_job"
  by code_simp+

lemma lab_recovers: "recover_locked lab_env now lab_queued = (Inr no_recovery, lab_queued)"
proof -
  have "recover_job lab_env lab_queued_job now lab_queued = (Inr no_recovery, lab_queued)"
    by (simp add: recover_job_def lab_job_fields read_receipt_file_def look_receipt_def recover_lease_def
        terminal_status_def)
  then show ?thesis
    by (simp add: recover_locked_def job_files_def read_job_file_def add_counts_def no_recovery_def)
qed

lemma lab_claim:
  assumes "kinds \<noteq> []" and "claimable kinds None (2 * SECOND) lab_queued_job"
  shows "claim_next lab_env lab_hex lab_worker kinds None 120 (2 * SECOND) lab_queued
    = (Inr (Some lab_job), lab_claimed)"
proof -
  have w: "first_failure (worker_ladder lab_worker) = None" by code_simp
  have "claim_job lab_env lab_queued_job lab_hex lab_worker 120 (2 * SECOND) lab_queued = (Inr lab_job, lab_claimed)"
    by (simp add: claim_job_def lab_job_fields lab_job_def [symmetric] write_job_def put_job_def
        alist_put_def lab_queued_def lab_claimed_def)
  moreover have "all_jobs lab_env lab_queued = (Inr [lab_queued_job], lab_queued)"
    by (simp add: all_jobs_def)
  moreover have "st_present lab_queued" by (simp add: lab_queued_def lab_created_def)
  moreover have "hold lab_queued = (Inr (), lab_queued)"
    by (simp add: hold_def lab_queued_def lab_created_def)
  moreover have "require_lease_seconds 120 lab_queued = (Inr (), lab_queued)"
    by (simp add: require_lease_seconds_def out_of_range_def MAX_LEASE_SECONDS_def)
  ultimately show ?thesis
    unfolding claim_next_def using assms
    by (simp add: w lab_recovers lab_job_fields)
qed

lemma lab_claims: "claim_next lab_env lab_hex lab_worker [Search_reindex] None 120 (2 * SECOND)
     lab_queued = (Inr (Some lab_job), lab_claimed)"
  by (rule lab_claim) (simp_all add: lab_job_fields)

lemma lab_claims_any: "claim_next lab_env lab_hex lab_worker SCHEDULER_JOB_KINDS None 120 (2 * SECOND)
     lab_queued = (Inr (Some lab_job), lab_claimed)"
proof (rule lab_claim)
  show "SCHEDULER_JOB_KINDS \<noteq> []" "claimable SCHEDULER_JOB_KINDS None (2 * SECOND) lab_queued_job"
    by code_simp+
qed

section \<open>The states are valid\<close>

lemma lab_job_sound: "job_sound lab_env lab_job" "job_sound lab_env lab_queued_job"
proof -
  have "earlier_closed (j_attempts lab_job)" "recoveries_bounded lab_job" "attempts_bounded lab_job"
    by code_simp+
  then show "job_sound lab_env lab_job"
    by (simp add: job_sound_def bookkeeping_ok_def fresh_child_def pending_room_def lab_job_control)
  have "earlier_closed (j_attempts lab_queued_job)" by code_simp
  then show "job_sound lab_env lab_queued_job"
    using bookkeeping_queued by (simp add: job_sound_def lab_queued_job_def [symmetric])
       (simp add: lab_queued_job_def bookkeeping_queued)
qed

lemma lab_policy_valid: "policy_ok lab_env lab_policy" "p_id lab_policy = lab_policy_id"
  using lab_policy_ok by (simp_all add: policy_ok_def lab_policy_def)

lemma lab_stores_ok: "store_ok lab_env lab_claimed" "store_ok lab_env lab_queued"
  "store_ok lab_env lab_created"
  by (auto simp: store_ok_def job_dir.keyed_def job_dir.all_records_def receipt_dir.keyed_def
      receipt_dir.all_records_def policy_dir.keyed_def policy_dir.all_records_def look_job_def
      look_receipt_def look_policy_def lab_job_sound lab_job_fields lab_policy_valid split: if_splits)

lemma lab_evidenced: "evidenced lab_claimed" and lab_queued_evidenced: "evidenced lab_queued"
proof -
  have "\<not> terminal_status (j_status lab_job)" "\<not> terminal_status (j_status lab_queued_job)" by code_simp+
  then show "evidenced lab_claimed" "evidenced lab_queued"
    by (auto simp: evidenced_def look_job_def look_receipt_def split: if_splits)
qed

lemma lab_lease: "active_status (j_status lab_job)" "j_status lab_job = Running"
  "j_lease lab_job = Some \<lparr>l_token = lab_token, l_worker = lab_worker, l_acquired_at = 2 * SECOND,
     l_heartbeat_at = 2 * SECOND, l_expires_at = 122 * SECOND\<rparr>"
  by code_simp+

lemma lab_other: "lab_token \<noteq> ''lease_other''"
  by code_simp

section \<open>A calendar schedule\<close>

definition lab_calendar :: schedule where
  "lab_calendar = lab_schedule\<lparr>s_mode := Calendar_mode, s_interval := None,
     s_calendar_time := Some ''08:30'', s_weekdays := [0, 4]\<rparr>"

text \<open>The epoch is a Thursday: the next run of the schedule is on Friday at half past eight.\<close>

lemma lab_friday: "next_nominal_after (e_zones lab_env) 0 lab_calendar
    = Inr (Some (DAY + 8 * 3600 * SECOND + 30 * MINUTE))"
  by code_simp

theorem next_nominal_sound_witness:
  "\<exists>s. normalise_schedule (e_zones lab_env) lab_calendar = Inr s \<and> s_mode s = Calendar_mode
     \<and> (\<exists>k < 371. weekday (int k) \<in> set (s_weekdays s)
          \<and> resolve_local_time (e_zones lab_env) (int k) (the (s_calendar_time s)) (s_timezone s) (s_dst s)
              = Inr (Some (DAY + 8 * 3600 * SECOND + 30 * MINUTE)))"
proof -
  have n: "normalise_schedule (e_zones lab_env) lab_calendar = Inr lab_calendar" by code_simp
  have m: "s_mode lab_calendar = Calendar_mode" by code_simp
  have "(0 + z_offset (the (e_zones lab_env (s_timezone lab_calendar))) 0) div DAY = 0" by code_simp
  then show ?thesis using next_nominal_sound [OF lab_friday] n m by (auto simp: Let_def)
qed

end
