(* ===== verification/Scheduler_Settled.thy ===== *)
theory Scheduler_Settled
  imports Scheduler_Example
begin

text \<open>
  What a recovery leaves behind: it touches one job at a time, each job ends up settled (no
  expired lease, no overdue retry, no interrupted command, no receipt without its terminal
  record), and a live lease survives it.
\<close>

section \<open>One job at a time\<close>

definition keeps_job :: "string \<Rightarrow> store \<Rightarrow> store \<Rightarrow> bool" where
  "keeps_job i s t \<longleftrightarrow> (\<forall>j. look_job s i = Some j \<longrightarrow> look_job t i = Some j)"

interpretation others: step_contract "keeps_job i" for i
  by unfold_locales (auto simp: keeps_job_def)

lemma others_write_job:
  assumes "i = j_id j \<Longrightarrow> look_job s i = None"
  shows "keeps_job i s (snd (write_job env j s))"
  using assms
  by (cases "validate_job_record env j")
     (auto simp: write_job_def keeps_job_def job_dir.look_put validate_job_Inr)

lemma others_write_receipt: "keeps_job i s (snd (write_receipt_once r s))"
  using write_receipt_frame [of r s] by (cases "write_receipt_once r s") (auto simp: keeps_job_def)

lemma finished_id [simp]: "j_id (finished_job j st now p as r) = j_id j"
  by simp

lemma others_finish_locked:
  assumes "i \<noteq> j_id j"
  shows "keeps_job i s (snd (finish_locked env j st now p cls code net mut s))"
proof (cases rule: finish_locked_cases [of env j st now p cls code net mut s])
  case attempted
  then show ?thesis
    using assms
    by (simp only: attempted(3)) (intro others.step_bind others_write_receipt others_write_job, simp)
qed (simp add: others.R_refl)

lemma others_cancelled_at: "i \<noteq> j_id j \<Longrightarrow> keeps_job i s (snd (cancelled_at env j now s))"
  unfolding cancelled_at_def get_receipt_def by (intro others.step_query others_finish_locked)

lemma finish_locked_id:
  "finish_locked env j st now p cls code net mut s = (Inr k, s') \<Longrightarrow> j_id k = j_id j"
  by (cases rule: finish_locked_cases [of env j st now p cls code net mut s])
     (auto simp: bindA_result write_job_result)

lemma cancelled_at_id: "cancelled_at env j now s = (Inr k, s') \<Longrightarrow> j_id k = j_id j"
  by (auto simp: cancelled_at_def bindA_result dest: finish_locked_id)

lemma others_finish_restart:
  assumes "i \<noteq> j_id j" and ok: "job_ok env j"
  shows "keeps_job i s (snd (finish_restart env j now s))"
proof (cases "restart_of j")
  case None
  then show ?thesis by (simp add: finish_restart_def others.R_refl)
next
  case (Some x)
  obtain q c where x: "x = (q, c)" by (cases x)
  note child = restart_child_facts [OF ok Some [unfolded x]]
  have child_write: "keeps_job i t (snd (bindA (case found of None \<Rightarrow> write_job env (widen c) | Some d \<Rightarrow> ret d)
      (\<lambda>d. bindA (of_result (validate_restart_lineage (Some k) d)) (\<lambda>_. ret (k, Some d))) t))"
    if f: "get_job env (j_id c) u = (Inr found, t)" for k t u found
  proof (rule others.step_bind)
    show "keeps_job i t (snd ((case found of None \<Rightarrow> write_job env (widen c) | Some d \<Rightarrow> ret d) t))"
    proof (cases found)
      case None
      with f child(3) have "look_job t (j_id (widen c)) = None" using get_job_none by fastforce
      with None show ?thesis by (simp add: others_write_job)
    qed (simp add: others.R_refl)
  qed (auto intro: others.step_result simp: others.R_refl)
  have first: "keeps_job i s (snd ((if j_status j = Paused then cancelled_at env j now else ret j) s))"
    using others_cancelled_at [OF assms(1)] by (simp add: others.R_refl)
  show ?thesis
    unfolding finish_restart_def Some x option.case prod.case
  proof (rule others.step_bind, goal_cases)
    case 1
    show ?case by (rule first)
  next
    case (2 k' t')
    show ?case
  proof (rule others.step_require, rule others.step_bind)
    fix k t show "keeps_job i t (snd (get_receipt (receipt_of_job (j_id k)) t))"
      by (simp add: get_receipt_def others.R_refl)
  next
    fix k t r u
    show "keeps_job i u (snd (seqA (require (case r of None \<Rightarrow> False | Some x \<Rightarrow> receipt_matches_terminal_job x k)
        (Conflict_error ''restart parent terminal evidence is incomplete''))
      (bindA (get_job env (j_id c)) (\<lambda>found. bindA (case found of None \<Rightarrow> write_job env (widen c) | Some d \<Rightarrow> ret d)
        (\<lambda>d. bindA (of_result (validate_restart_lineage (Some k) d)) (\<lambda>_. ret (k, Some d))))) u))"
    proof (rule others.step_require, rule others.step_bind)
      show "keeps_job i u (snd (get_job env (j_id c) u))" by (simp add: get_job_def others.R_refl)
    qed (rule child_write)
  qed
  qed
qed

lemma reconciled_id [simp]: "j_id (reconciled_job j r) = j_id j"
  by (simp add: reconciled_job_def clear_intents_def)

lemma others_tail:
  "keeps_job i s (snd (m s)) \<Longrightarrow> keeps_job i s (snd (bindA m (\<lambda>x. ret (f x)) s))"
  by (rule others.step_bind) (simp_all add: others.R_refl)

lemma others_recover_job:
  assumes "i \<noteq> j_id j" and ok: "job_ok env j"
  shows "keeps_job i s (snd (recover_job env j now s))"
proof -
  have restart: "keeps_job i t (snd (bindA (finish_restart env j now) (\<lambda>_. ret d) t))" for t and d :: recovery_counts
    by (intro others_tail others_finish_restart assms)
  have rec: "keeps_job i t (snd (reconcile env j r now t))" for r t
    unfolding reconcile_def using assms(1)
    by (intro others.step_require others.step_bind others_write_job others_tail)
       (auto simp: write_job_result intro: others_finish_restart)
  have imm: "keeps_job i t (snd (bindA (finish_immediate env j now) (\<lambda>_. ret d) t))" for t and d :: recovery_counts
    using assms(1) by (intro others_tail) (auto simp: finish_immediate_def others.R_refl intro: others_cancelled_at)
  have wake: "keeps_job i t (snd (wake_retry env j now t))" for t
    using assms(1)
    by (auto simp: wake_retry_def Let_def others.R_refl split: option.split
        intro!: others_tail others_write_job)
  have stop: "keeps_job i t (snd (stop_expired env j c a now t))" for c a t
    unfolding stop_expired_def Let_def using assms(1)
    by (auto intro!: others_tail others_write_job others_finish_locked simp: paused_job_def)
  have done': "keeps_job i t (snd (end_lease env j b now t))" for b t
    unfolding end_lease_def Let_def using assms(1)
    by (auto intro!: others_tail others_write_job others_finish_locked)
  have lease: "keeps_job i t (snd (recover_lease env j now t))" for t
    using stop done' by (auto simp: recover_lease_def Let_def others.R_refl split: option.split)
  show ?thesis
    unfolding recover_job_def
    by (auto intro!: others.step_bind restart rec imm wake lease simp: others.R_refl split: option.split)
qed

section \<open>A settled job\<close>

definition settled :: "instant \<Rightarrow> job \<Rightarrow> bool" where
  "settled now j \<longleftrightarrow> terminal_status (j_status j)
     \<or> (completion_of j = None \<and> restart_of j = None
        \<and> (active_status (j_status j) \<longrightarrow>
             (\<exists>l. j_lease j = Some l \<and> l_heartbeat_at l \<le> now \<and> now < l_expires_at l))
        \<and> (j_status j = Retry_wait \<longrightarrow>
             (\<exists>t. j_retry_not_before j = Some t \<and> now < t \<and> j_updated_at j \<le> now)))"

lemma settled_queued: "completion_of j = None \<Longrightarrow> restart_of j = None \<Longrightarrow> j_status j \<in> {Queued, Paused} \<Longrightarrow>
    settled now j"
  by (auto simp: settled_def active_status_def)

lemma wake_retry_settles:
  assumes ok: "job_ok env j" and look: "look_job s (j_id j) = Some j" and st: "j_status j = Retry_wait"
    and c: "completion_of j = None" "restart_of j = None" and run: "wake_retry env j now s = (Inr d, s')"
  shows "\<exists>k. look_job s' (j_id j) = Some k \<and> settled now k"
proof -
  obtain t where t: "j_retry_not_before j = Some t" using job_ok_retry_instant [OF ok] st by auto
  show ?thesis
  proof (cases "t \<le> now \<or> now < j_updated_at j")
    case True
    with run t have "s' = put_job (j\<lparr>j_status := Queued, j_retry_not_before := None, j_updated_at := now\<rparr>) s"
      by (auto simp: wake_retry_def Let_def bindA_result write_job_result)
    moreover have "settled now (j\<lparr>j_status := Queued, j_retry_not_before := None, j_updated_at := now\<rparr>)"
      using c by (intro settled_queued) (simp_all add: completion_of_def restart_of_def)
    ultimately show ?thesis by (simp add: job_dir.look_put)
  next
    case False
    with run t have "s' = s" by (simp add: wake_retry_def Let_def)
    with False look st t c show ?thesis by (simp add: settled_def active_status_def)
  qed
qed

lemma stop_expired_settles:
  assumes look: "look_job s (j_id j) = Some j" and snd: "job_sound env j"
    and act: "active_status (j_status j)" and c: "j_control j = Some c" "ctl_pending c \<noteq> None"
    and n: "completion_of j = None" "restart_of j = None"
    and run: "stop_expired env j c a now s = (Inr d, s')"
  shows "\<exists>k. look_job s' (j_id j) = Some k \<and> settled now k"
proof (cases "a = Act_cancel")
  case True
  let ?k = "j\<lparr>j_control := Some (c\<lparr>ctl_pending := None, ctl_revision := ctl_revision c + 1\<rparr>)\<rparr>"
  from run True obtain k where k: "finish_locked env ?k Cancelled now (j_progress j) (Some Cancelled_class)
      (Some ''cancelled_by_user'') False False s = (Inr k, s')"
    by (auto simp: stop_expired_def bindA_result)
  have co: "control_of j = c" using c by (simp add: control_of_def)
  have "finishable env ?k"
    by (rule stop_finishable [OF snd act c, where n = "ctl_network_used c" and ob = "ctl_observation c"])
       simp_all
  then have "may_finish env s ?k Cancelled now (Some Cancelled_class) (Some ''cancelled_by_user'')"
    using stop_may_finish [OF look snd act] co by simp
  from finish_stored [OF this k] show ?thesis by (auto simp: settled_def)
next
  case False
  let ?k = "paused_job (j\<lparr>j_control := Some (c\<lparr>ctl_pending := None, ctl_revision := ctl_revision c + 1\<rparr>),
      j_recovery_count := j_recovery_count j + 1\<rparr>) now"
  from run False have "s' = put_job ?k s"
    by (auto simp: stop_expired_def Let_def bindA_result write_job_result)
  moreover have "settled now ?k"
    using n c by (intro settled_queued) (simp_all add: completion_of_def restart_of_def paused_job_def)
  moreover have "j_id ?k = j_id j" by (simp add: paused_job_def)
  ultimately show ?thesis by (auto simp: job_dir.look_put)
qed

lemma end_lease_settles:
  assumes look: "look_job s (j_id j) = Some j" and snd: "job_sound env j"
    and act: "active_status (j_status j)" and n: "completion_of j = None" "restart_of j = None"
    and run: "end_lease env j b now s = (Inr d, s')"
  shows "\<exists>k. look_job s' (j_id j) = Some k \<and> settled now k"
proof (cases "terminal_recovery j")
  case True
  with run obtain k cls code p where "finish_locked env (j\<lparr>j_attempts := close_attempt Attempt_failed now cls code (j_attempts j),
       j_lease := None, j_recovery_state := Manual_recovery, j_recovery_count := j_recovery_count j + 1\<rparr>)
       Manual_intervention now p cls code False False s = (Inr k, s')"
    by (auto simp: end_lease_def Let_def bindA_result)
  then have "finish_locked env (j\<lparr>j_recovery_state := Manual_recovery, j_recovery_count := j_recovery_count j + 1\<rparr>)
       Manual_intervention now p cls code False False s = (Inr k, s')"
    unfolding end_lease_finish .
  from finish_stored [OF recovered_may_finish [OF look snd act] this] show ?thesis
    by (auto simp: settled_def)
next
  case False
  with run obtain as where "s' = put_job (j\<lparr>j_status := Queued, j_updated_at := now, j_lease := None,
      j_retry_not_before := None, j_recovery_state := recovery_of j,
      j_recovery_count := j_recovery_count j + 1, j_attempts := as\<rparr>) s"
    by (auto simp: end_lease_def Let_def bindA_result write_job_result)
  moreover have "settled now (j\<lparr>j_status := Queued, j_updated_at := now, j_lease := None,
      j_retry_not_before := None, j_recovery_state := recovery_of j,
      j_recovery_count := j_recovery_count j + 1, j_attempts := as\<rparr>)"
    using n by (intro settled_queued) (simp_all add: completion_of_def restart_of_def)
  ultimately show ?thesis by (auto simp: job_dir.look_put)
qed

lemma recover_lease_settles:
  assumes look: "look_job s (j_id j) = Some j" and snd: "job_sound env j"
    and st: "j_status j \<noteq> Retry_wait" and n: "completion_of j = None" "restart_of j = None"
    and run: "recover_lease env j now s = (Inr d, s')"
  shows "\<exists>k. look_job s' (j_id j) = Some k \<and> settled now k"
proof (cases "active_status (j_status j)")
  case False
  with run have "s' = s" by (auto simp: recover_lease_def Let_def split: option.splits)
  with False look st n show ?thesis by (simp add: settled_def)
next
  case act: True
  have ok: "job_ok env j" using snd by (simp add: job_sound_def)
  obtain l where l: "j_lease j = Some l" using job_ok_lease [OF ok] act by auto
  show ?thesis
  proof (cases "now < l_heartbeat_at l \<or> l_expires_at l \<le> now")
    case False
    with run l have "s' = s" by (simp add: recover_lease_def Let_def)
    with False look st n l show ?thesis by (simp add: settled_def)
  next
    case True
    with run l act show ?thesis
      using end_lease_settles [OF look snd act n] stop_expired_settles [OF look snd act _ _ n]
      by (auto simp: recover_lease_def Let_def split: option.splits)
  qed
qed

lemma completion_is_cancel:
  assumes "job_ok env j" and "completion_of j \<noteq> None"
  shows "completion_of j = Some Act_cancel"
proof -
  from assms(2) obtain c where c: "j_control j = Some c" "ctl_completion c \<noteq> None"
    by (auto simp: completion_of_def split: option.splits)
  with control_of_ok [OF assms(1)] have "first_failure (control_head_ladder j c) = None"
    by (simp add: control_ladder_def)
  with c show ?thesis by (auto simp: control_head_ladder_def completion_of_def)
qed

lemma terminal_stays:
  assumes "journal_step env s t" and "store_ok env s" and "look_job s i = Some j"
    and "terminal_status (j_status j)"
  shows "\<exists>k. look_job t i = Some k \<and> terminal_status (j_status k)"
proof -
  from assms(1-3) obtain k where "look_job t i = Some k" "job_advances j k"
    by (auto simp: journal_step_def jobs_advance_def)
  with assms(4) show ?thesis by (auto simp: job_advances_def)
qed

lemma restart_of_terminal:
  assumes ok: "store_ok env s" and look: "look_job s (j_id j) = Some j" and t: "terminal_status (j_status j)"
    and run: "finish_restart env j now s = (Inr d, s')"
  shows "\<exists>k. look_job s' (j_id j) = Some k \<and> terminal_status (j_status k)"
proof -
  have "job_sound env j" using store_ok_job [OF ok look] by simp
  from journal.finish_restart_step [OF look this, of now] run
  have "journal_step env s s'" by simp
  from terminal_stays [OF this ok look t] show ?thesis .
qed

lemma cancelled_at_stored:
  assumes look: "look_job s (j_id j) = Some j" and snd: "job_sound env j"
    and st: "j_status j \<in> {Queued, Retry_wait, Paused}"
    and run: "cancelled_at env j now s = (Inr k, s')"
  shows "look_job s' (j_id j) = Some k \<and> job_sound env k \<and> j_id k = j_id j
    \<and> terminal_status (j_status k) \<and> j_status k = Cancelled \<and> restart_of k = restart_of j
    \<and> completion_of k = None \<and> ctl_commands (control_of k) = ctl_commands (control_of j)"
proof -
  from run obtain t w where g: "get_receipt (receipt_of_job (j_id j)) s = (Inr t, w)"
    and f: "finish_locked env j Cancelled (case t of None \<Rightarrow> now | Some r \<Rightarrow> r_completed_at r)
      (j_progress j) (Some Cancelled_class) (Some ''cancelled_by_user'') False False w = (Inr k, s')"
    by (auto simp: cancelled_at_def bindA_result)
  from g have "w = s" by (rule get_receipt_state)
  moreover have "may_finish env s j Cancelled x cls code" for x cls code
    using look snd st by (intro may_finish_waiting) auto
  ultimately have "look_job s' (j_id j) = Some k \<and> job_sound env k \<and> j_id k = j_id j
      \<and> terminal_status (j_status k) \<and> j_status k = Cancelled
      \<and> j_control k = map_option (\<lambda>c. c\<lparr>ctl_pending := None, ctl_completion := None\<rparr>) (j_control j)"
    using finish_stored f by metis
  then show ?thesis by (simp add: restart_of_def completion_of_def control_of_def split: option.split)
qed

lemma finish_restart_stops:
  assumes ok: "store_ok env s" and look: "look_job s (j_id j) = Some j"
    and some: "restart_of j \<noteq> None" and run: "finish_restart env j now s = (Inr d, s')"
  shows "\<exists>k. look_job s' (j_id j) = Some k \<and> terminal_status (j_status k)"
proof (cases "j_status j = Paused")
  case False
  have "terminal_status (j_status j)"
    using some run False by (auto simp: finish_restart_def bindA_result seqA_result require_result)
  from restart_of_terminal [OF ok look this run] show ?thesis .
next
  case True
  have snd: "job_sound env j" using store_ok_job [OF ok look] by simp
  from some run True obtain k s1 where k: "cancelled_at env j now s = (Inr k, s1)"
    by (auto simp: finish_restart_def bindA_result)
  from cancelled_at_stored [OF look snd _ k] True
  have facts: "look_job s1 (j_id k) = Some k" "terminal_status (j_status k)"
    "restart_of k = restart_of j" "j_id k = j_id j" by simp_all
  have "journal_step env s s1"
    using journal.cancelled_at_step [OF look snd, of now] k True by simp
  with ok have ok1: "store_ok env s1" by (simp add: journal_step_def)
  have "finish_restart env k now s1 = (Inr d, s')"
    using run True some k facts
    by (auto simp: finish_restart_def terminal_status_def)
  from restart_of_terminal [OF ok1 facts(1,2) this] facts(4) show ?thesis by simp
qed

lemma reconcile_settles:
  assumes ok: "store_ok env s" and look: "look_job s (j_id j) = Some j"
    and nt: "\<not> terminal_status (j_status j)" and r: "receipt_ok r"
    and rec: "look_receipt s (receipt_of_job (j_id j)) = Some r"
    and run: "reconcile env j r now s = (Inr d, s')"
  shows "\<exists>k. look_job s' (j_id j) = Some k \<and> terminal_status (j_status k)"
proof -
  let ?k = "reconciled_job j r"
  have snd: "job_sound env j" using store_ok_job [OF ok look] by simp
  note facts = reconciled_reconciles [OF look snd nt r rec]
  from run obtain d' where w: "job_ok env ?k" "finish_restart env ?k now (put_job ?k s) = (Inr d', s')"
    by (auto simp: reconcile_def bindA_result seqA_result require_result write_job_result)
  with facts have "store_ok env (put_job ?k s)"
    by (intro store_ok_put_job ok) (simp add: job_sound_def)
  moreover have "terminal_status (j_status ?k)"
    using r by (auto simp: reconciled_job_def clear_intents_def receipt_ok_def receipt_ladder_def)
  ultimately show ?thesis
    using restart_of_terminal [of env "put_job ?k s" ?k] w(2) by (simp add: job_dir.look_put)
qed

lemma recover_job_settles:
  assumes ok: "store_ok env s" and look: "look_job s (j_id j) = Some j"
    and run: "recover_job env j now s = (Inr d, s')"
  shows "\<exists>k. look_job s' (j_id j) = Some k \<and> settled now k"
proof -
  have snd: "job_sound env j" using store_ok_job [OF ok look] by simp
  then have jok: "job_ok env j" by (simp add: job_sound_def)
  have end': "\<exists>k. look_job s' (j_id j) = Some k \<and> settled now k"
    if "\<exists>k. look_job s' (j_id j) = Some k \<and> terminal_status (j_status k)"
    using that by (auto simp: settled_def)
  show ?thesis
  proof (cases "terminal_status (j_status j)")
    case True
    with run restart_of_terminal [OF ok look True] end' show ?thesis
      by (auto simp: recover_job_def bindA_result)
  next
    case False
    from run False obtain x u where x: "read_receipt_file (receipt_of_job (j_id j)) s = (Inr x, u)"
      by (auto simp: recover_job_def bindA_result)
    from read_receipt_file_result [OF x] have u: "u = s" "x = look_receipt s (receipt_of_job (j_id j))"
      "\<And>q. x = Some q \<Longrightarrow> receipt_ok q" by simp_all
    show ?thesis
    proof (cases x)
      case (Some r)
      with run False x u(1) have "reconcile env j r now s = (Inr d, s')" by (simp add: recover_job_def)
      moreover have "receipt_ok r" "look_receipt s (receipt_of_job (j_id j)) = Some r"
        using u Some by simp_all
      ultimately show ?thesis using reconcile_settles [OF ok look False] end' by blast
    next
      case None
      have rest: "(if completion_of j \<noteq> None
            then bindA (finish_immediate env j now) (\<lambda>_. ret no_recovery)
            else if restart_of j \<noteq> None
            then bindA (finish_restart env j now) (\<lambda>_. ret no_recovery)
            else if j_status j = Retry_wait then wake_retry env j now
            else recover_lease env j now) s = (Inr d, s')"
        using run False x u(1) None by (simp add: recover_job_def)
      show ?thesis
      proof (cases "completion_of j = None")
        case False
        with rest completion_is_cancel [OF jok] obtain k where k: "cancelled_at env j now s = (Inr k, s')"
          by (auto simp: finish_immediate_def bindA_result)
        from cancelled_at_stored [OF look snd completion_waiting [OF jok False] k] end'
        show ?thesis by auto
      next
        case c: True
        show ?thesis
        proof (cases "restart_of j = None")
          case False
          with rest c finish_restart_stops [OF ok look] end' show ?thesis by (auto simp: bindA_result)
        next
          case True
          with rest c wake_retry_settles [OF jok look] recover_lease_settles [OF look snd]
          show ?thesis by (auto split: if_splits)
        qed
      qed
    qed
  qed
qed

section \<open>A whole recovery\<close>

lemma others_recover_all:
  "i \<notin> set ks \<Longrightarrow> store_ok env s \<Longrightarrow> keeps_job i s (snd (recover_all env now ks acc s))"
proof (induction ks arbitrary: acc s)
  case Nil
  then show ?case by (simp add: others.R_refl)
next
  case (Cons k ks)
  show ?case
    unfolding recover_all.simps
  proof (rule others.step_bind)
    show "keeps_job i s (snd (read_job_file env k s))" by (simp add: others.R_refl)
  next
    fix j s' assume rd: "read_job_file env k s = (Inr j, s')"
    from read_job_file_result [OF rd] have j: "s' = s" "look_job s k = Some j" "job_ok env j" by simp_all
    from store_ok_job [OF Cons.prems(2) j(2)] have id: "j_id j = k" "job_sound env j" by simp_all
    show "keeps_job i s' (snd (bindA (recover_job env j now) (\<lambda>d. recover_all env now ks (add_counts acc d)) s'))"
      unfolding j(1)
    proof (rule others.step_bind)
      show "keeps_job i s (snd (recover_job env j now s))"
        using Cons.prems(1) id by (intro others_recover_job j(3)) auto
    next
      fix d u assume "recover_job env j now s = (Inr d, u)"
      with journal.recover_job_step [of s j env now] j id Cons.prems(2) have "store_ok env u"
        by (simp add: journal_step_def)
      with Cons show "keeps_job i u (snd (recover_all env now ks (add_counts acc d) u))" by simp
    qed
  qed
qed

lemma recover_all_settles:
  "store_ok env s \<Longrightarrow> recover_all env now ks acc s = (Inr c, t) \<Longrightarrow> i \<in> set ks \<Longrightarrow>
   look_job s i \<noteq> None \<Longrightarrow> \<exists>k. look_job t i = Some k \<and> settled now k"
proof (induction ks arbitrary: acc s)
  case (Cons k ks)
  from Cons.prems(2) obtain j d u where rd: "read_job_file env k s = (Inr j, s)"
    and rj: "recover_job env j now s = (Inr d, u)"
    and ra: "recover_all env now ks (add_counts acc d) u = (Inr c, t)"
    by (auto simp: bindA_result dest: read_job_file_result)
  from read_job_file_result [OF rd] have j: "look_job s k = Some j" by simp
  from store_ok_job [OF Cons.prems(1) j] have id: "j_id j = k" "job_sound env j" by simp_all
  with journal.recover_job_step [of s j env now] j rj have "journal_step env s u" by simp
  with Cons.prems(1) have u: "store_ok env u" "jobs_advance s u" by (simp_all add: journal_step_def)
  show ?case
  proof (cases "i \<in> set ks")
    case True
    moreover have "look_job u i \<noteq> None" using u(2) Cons.prems(4) by (force simp: jobs_advance_def)
    ultimately show ?thesis using Cons.IH u(1) ra by blast
  next
    case False
    with Cons.prems(3) have i: "i = k" by simp
    with recover_job_settles [OF Cons.prems(1) _ rj] j id obtain x
      where "look_job u i = Some x" "settled now x" by auto
    moreover have "keeps_job i u t" using others_recover_all [OF False u(1), of now "add_counts acc d"] ra by simp
    ultimately show ?thesis by (auto simp: keeps_job_def)
  qed
qed simp

lemma job_files_all: "set (job_files s) = dom (look_job s)"
proof -
  have "look_job s = map_of (st_jobs s)" by (simp add: fun_eq_iff look_job_def)
  then show ?thesis by (simp add: job_files_def dom_map_of_conv_image_fst)
qed

text \<open>
  C9: a recovery that returns leaves every job it found settled. The job is terminal, or it has
  no interrupted command or restart left, its lease (if it is active) has neither expired nor a
  heartbeat in the future, and its retry instant (if it waits) is still ahead.
\<close>

theorem recovery_settles:
  assumes "store_ok env s" and "recover_locked env now s = (Inr c, t)" and "look_job s i = Some j"
  shows "\<exists>k. look_job t i = Some k \<and> job_advances j k \<and> settled now k"
proof -
  have "i \<in> set (job_files s)" using assms(3) job_files_all by auto
  with assms recover_all_settles [of env s now "job_files s" no_recovery c t i] obtain k
    where "look_job t i = Some k" "settled now k" by (auto simp: recover_locked_def)
  moreover have "journal_step env s t"
    using journal.recover_locked_step [of env s now] assms(2) by simp
  with assms(1,3) calculation(1) have "job_advances j k"
    by (fastforce simp: journal_step_def jobs_advance_def)
  ultimately show ?thesis by blast
qed

theorem recovery_settles_witness:
  "\<exists>k. look_job lab_queued lab_job_id = Some k \<and> job_advances lab_queued_job k \<and> settled (9 * SECOND) k"
  by (rule recovery_settles [OF lab_stores_ok(2) lab_recovers lab_look(2)])

end
