(* ===== verification/Scheduler_Lifecycle.thy ===== *)
theory Scheduler_Lifecycle
  imports Scheduler_Example
begin

text \<open>
  What the transactions of a leased job promise: a worker without the lease changes nothing, a
  finished job is accepted together with the receipt that matches it, a checkpoint advances by
  one, a failed attempt waits for its backoff, and a manual request is idempotent.
\<close>

section \<open>Fencing\<close>

definition holds_lease :: "job \<Rightarrow> string \<Rightarrow> instant \<Rightarrow> bool" where
  "holds_lease j token now \<longleftrightarrow> active_status (j_status j)
     \<and> (\<exists>l. j_lease j = Some l \<and> l_token l = token \<and> now < l_expires_at l)"

definition refused :: "store \<Rightarrow> (sched_error + 'a) \<times> store \<Rightarrow> bool" where
  "refused s out \<longleftrightarrow> (\<exists>e. fst out = Inl e) \<and> st_jobs (snd out) = st_jobs s
     \<and> st_receipts (snd out) = st_receipts s \<and> st_policies (snd out) = st_policies s"

lemma refused_require: "(b \<Longrightarrow> refused s (k s)) \<Longrightarrow> refused s (seqA (require b e) k s)"
  by (cases b) (simp_all add: refused_def)

lemma refused_hold: "(\<And>t. st_jobs t = st_jobs s \<Longrightarrow> st_receipts t = st_receipts s \<Longrightarrow>
    st_policies t = st_policies s \<Longrightarrow> refused t (k t)) \<Longrightarrow> refused s (seqA hold k s)"
  by (auto simp: hold_def refused_def)

lemma refused_error: "refused s (k s) \<Longrightarrow> refused s (seqA (require_error c) k s)"
  unfolding require_error_def by (rule refused_require)

lemma refused_progress:
  "(first_failure (progress_ladder p) = None \<Longrightarrow> refused s (k s)) \<Longrightarrow>
   refused s (seqA (require_progress p) k s)"
  by (cases "first_failure (progress_ladder p)") (simp_all add: require_progress_def refused_def)

lemma refused_found:
  assumes "\<And>j. look_job s i = Some j \<Longrightarrow> refused s (k j s)"
  shows "refused s (bindA (found_job env i) k s)"
proof (cases "fst (found_job env i s)")
  case (Inl e)
  then have "found_job env i s = (Inl e, s)" by (metis found_job_state prod.collapse)
  then show ?thesis by (simp add: refused_def)
next
  case (Inr j)
  then have f: "found_job env i s = (Inr j, s)" by (metis found_job_state prod.collapse)
  then have "look_job s i = Some j" by (simp add: found_job_result)
  with assms f show ?thesis by simp
qed

lemma refused_owned: "\<not> holds_lease j token now \<Longrightarrow> refused s (seqA (owned j token now) k s)"
proof -
  assume n: "\<not> holds_lease j token now"
  then have "fst (owned j token now s) \<noteq> Inr ()"
    using owned_result [of j token now s "()" "snd (owned j token now s)"]
    by (auto simp: holds_lease_def prod_eq_iff)
  then obtain e where "fst (owned j token now s) = Inl e" by (cases "fst (owned j token now s)") auto
  then have "owned j token now s = (Inl e, s)" by (metis owned_state prod.collapse)
  then show ?thesis by (simp add: refused_def)
qed

lemma refused_after_owned: "refused s (k s) \<Longrightarrow> refused s (seqA (owned j token now) k s)"
proof (cases "holds_lease j token now")
  case True
  then have "owned j token now s = (Inr (), s)" by (auto simp: holds_lease_def owned_result)
  then show "refused s (k s) \<Longrightarrow> ?thesis" by simp
qed (simp add: refused_owned)

text \<open>
  C10: a worker is fenced out. When the stored job is not active, or its lease has another
  token, or the lease has expired, then a heartbeat, a checkpoint, a success and a failure
  reported by that worker all raise and leave jobs, receipts and policies untouched, whatever
  the other arguments are.
\<close>

theorem stale_worker_is_fenced:
  assumes "\<And>j. look_job s i = Some j \<Longrightarrow> \<not> holds_lease j token now"
  shows "refused s (heartbeat env i token seconds now s)
       \<and> refused s (checkpoint_job env i token sequence phase p now s)
       \<and> refused s (succeed env i token p network mutation now s)
       \<and> refused s (fail env i token cls code p network mutation now s)"
proof -
  have fenced: "refused t (bindA (found_job env i) (\<lambda>j. seqA (owned j token now) (k j)) t)"
    if "st_jobs t = st_jobs s" for t and k :: "job \<Rightarrow> job sched_act"
  proof (rule refused_found)
    fix j assume "look_job t i = Some j"
    then have "look_job s i = Some j" using look_frame(1) [OF that] by simp
    then show "refused t (seqA (owned j token now) (k j) t)"
      by (rule refused_owned [OF assms])
  qed
  have "refused s (heartbeat env i token seconds now s)"
    unfolding heartbeat_def require_lease_seconds_def
    by (intro refused_require refused_hold fenced)
  moreover have "refused s (checkpoint_job env i token sequence phase p now s)"
    unfolding checkpoint_job_def by (intro refused_progress refused_require refused_hold fenced)
  moreover have "refused s (succeed env i token p network mutation now s)"
    unfolding succeed_def by (intro refused_hold fenced)
  moreover have "refused s (fail env i token cls code p network mutation now s)"
    unfolding fail_def by (intro refused_error refused_progress refused_hold fenced)
  ultimately show ?thesis by blast
qed

theorem stale_worker_is_fenced_witness:
  "refused lab_claimed (heartbeat lab_env lab_job_id ''lease_other'' 60 (3 * SECOND) lab_claimed)
 \<and> refused lab_claimed (succeed lab_env lab_job_id lab_token no_progress False False (122 * SECOND) lab_claimed)"
proof -
  have "\<not> holds_lease lab_job ''lease_other'' (3 * SECOND)" "\<not> holds_lease lab_job lab_token (122 * SECOND)"
    using lab_lease lab_other by (simp_all add: holds_lease_def)
  then show ?thesis
    using stale_worker_is_fenced [of lab_claimed lab_job_id "''lease_other''" "3 * SECOND"]
      stale_worker_is_fenced [of lab_claimed lab_job_id lab_token "122 * SECOND"] by simp
qed

section \<open>Checkpoints\<close>

lemma job_ok_active_update:
  assumes ok: "job_ok env j" and fits: "fits env"
    and c: "first_failure (checkpoint_ladder c) = None"
    and p: "first_failure (progress_ladder p) = None"
    and l: "first_failure (lease_ladder (j_status j) l) = None"
  shows "job_ok env (j\<lparr>j_checkpoint := c, j_progress := p, j_lease := l, j_updated_at := t\<rparr>)"
    (is "job_ok env ?k")
proof -
  have schema: "controlled_schema ?k = controlled_schema j" by (simp add: controlled_schema_def)
  have history: "history_ladder b ?k = history_ladder b j" for b
    by (simp add: history_ladder_def Let_def)
  have refs: "receipt_ref_ladder ?k = receipt_ref_ladder j" by (simp add: receipt_ref_ladder_def)
  have "first_failure (job_core_ladder ?k) = None"
    using job_ok_core [OF ok] c p l history refs
    by (cases "controlled_schema j") (auto simp: job_core_ladder_def Let_def schema)
  moreover have "first_failure (job_tail_ladder env ?k) = None"
    using ok by (cases "controlled_schema j")
      (simp_all add: job_ok_def job_ladder_def job_tail_ladder_def schema)
  moreover have "first_failure (control_ladder env ?k d) = None" if d: "j_control j = Some d" for d
  proof -
    from ok d have old: "first_failure (control_ladder env j d) = None"
      by (simp add: job_ok_def job_ladder_def)
    then have "first_failure (control_head_ladder ?k d) = None"
      by (simp add: control_ladder_def control_head_ladder_def pending_ladder_def
          cong: option.case_cong)
    moreover have "restart_ladder env ?k d = restart_ladder env j d"
      by (rule restart_ladder_cong) simp_all
    moreover have "first_failure (control_tail_ladder (e_size env (job_json ?k)) ?k d) = None"
      using old fits
      by (simp add: control_ladder_def control_tail_ladder_def fits_def not_less
          cong: option.case_cong)
    ultimately show ?thesis using old by (simp add: control_ladder_def)
  qed
  ultimately show ?thesis by (auto simp: job_ok_def job_ladder_def split: option.splits)
qed

lemma found_stored:
  assumes "store_ok env s" and "look_job s i = Some j" and "st_jobs t = st_jobs s"
  shows "found_job env i t = (Inr j, t)"
  using assms store_ok_job [OF assms(1,2)] stored_job_id [OF assms(1,2)] look_frame(1) [OF assms(3)]
  by (simp add: found_job_result job_sound_def)

lemma owned_holds:
  "holds_lease j token now \<Longrightarrow> owned j token now s = (Inr (), s)"
  by (auto simp: holds_lease_def owned_result)

lemma hold_bind: "seqA hold k s = k (s\<lparr>st_present := True\<rparr>)"
  by (simp add: hold_def)

lemma present_put_job: "put_job j (s\<lparr>st_present := b\<rparr>) = (put_job j s)\<lparr>st_present := b\<rparr>"
  by (simp add: put_job_def)

definition checkpoint_args :: "job \<Rightarrow> int \<Rightarrow> checkpoint_phase \<Rightarrow> progress \<Rightarrow> bool" where
  "checkpoint_args j sequence phase p \<longleftrightarrow>
     phase \<noteq> Phase_none \<and> first_failure (progress_ladder p) = None
   \<and> sequence = c_sequence (j_checkpoint j) + 1 \<and> \<not> progress_back p (j_progress j)"

definition checkpointed_job :: "job \<Rightarrow> int \<Rightarrow> checkpoint_phase \<Rightarrow> progress \<Rightarrow> instant \<Rightarrow> job" where
  "checkpointed_job j sequence phase p now =
     j\<lparr>j_checkpoint := \<lparr>c_sequence = sequence, c_phase = phase, c_committed_at = Some now\<rparr>,
       j_progress := p, j_updated_at := now\<rparr>"

lemma checkpoint_returns:
  assumes "store_ok env s" and "fits env" and "look_job s i = Some j" and "holds_lease j token now"
    and "c_sequence (j_checkpoint j) < 2 ^ 31 - 1" and "checkpoint_args j sequence phase p"
  shows "checkpoint_job env i token sequence phase p now s =
    (Inr (checkpointed_job j sequence phase p now),
     (put_job (checkpointed_job j sequence phase p now) s)\<lparr>st_present := True\<rparr>)"
proof -
  let ?c = "\<lparr>c_sequence = sequence, c_phase = phase, c_committed_at = Some now\<rparr>"
  have ok: "job_ok env j" using assms(1,3) store_ok_job by (auto simp: job_sound_def)
  have "first_failure (checkpoint_ladder (j_checkpoint j)) = None"
    using job_ok_core [OF ok] by (simp add: job_core_ladder_def Let_def)
  then have c: "first_failure (checkpoint_ladder ?c) = None"
    using assms(5,6)
    by (simp add: checkpoint_args_def checkpoint_ladder_def out_of_range_def)
  have l: "first_failure (lease_ladder (j_status j) (j_lease j)) = None"
    using job_ok_core [OF ok] by (simp add: job_core_ladder_def Let_def)
  have "job_ok env (j\<lparr>j_checkpoint := ?c, j_progress := p, j_lease := j_lease j, j_updated_at := now\<rparr>)"
    using assms(6) by (intro job_ok_active_update ok assms(2) c l) (simp add: checkpoint_args_def)
  then have "job_ok env (j\<lparr>j_checkpoint := ?c, j_progress := p, j_updated_at := now\<rparr>)" by simp
  with assms found_stored [OF assms(1,3)] owned_holds [OF assms(4)] show ?thesis
    by (simp add: checkpoint_job_def checkpoint_args_def require_progress_def hold_bind write_job_def
        present_put_job checkpointed_job_def)
qed



section \<open>Finishing\<close>

lemma receipt_accepted:
  assumes fin: "finishable env j" and ev: "terminal_evidence st cls code"
    and p: "first_failure (progress_ladder p) = None"
    and d: "attempt_duration_ms as < 2 ^ 63" "0 \<le> attempt_duration_ms as"
  shows "receipt_ok (terminal_receipt j st now p cls code net mut as)"
proof -
  from fin have core: "first_failure (job_core_ladder j) = None"
    and tail: "first_failure (job_tail_ladder env j) = None" by (simp_all add: finishable_def)
  have "terminal_status st" using ev by (rule terminal_evidence_status)
  moreover have "j_kind j \<noteq> Ai_execute" using tail by (simp add: job_tail_ladder_def)
  moreover have "case code of None \<Rightarrow> True | Some c \<Rightarrow> c \<in> set ERROR_CODES"
    using ev by (auto simp: terminal_evidence_def)
  moreover have "job_id_ok (j_id j)" "policy_id_ok (j_policy_id j)"
    "record_scope_ok (j_kind j) (j_scope j)" "\<not> out_of_range (j_policy_revision j) 1 (2 ^ 31 - 1)"
    "\<not> out_of_range (j_attempt j) 0 MAX_RETRY_ATTEMPTS"
    using core by (auto simp: job_core_ladder_def Let_def)
  ultimately show ?thesis
    using ev p d receipt_of_job_ok [of "j_id j"]
    by (cases code)
       (auto simp: receipt_ok_def receipt_ladder_def terminal_receipt_def terminal_evidence_def
          error_ladder_def out_of_range_def)
qed

lemma attempt_duration_nonneg: "0 \<le> attempt_duration_ms as"
  by (induction as) (auto simp: attempt_duration_ms_def split: option.splits)

lemma finish_returns:
  assumes ok: "store_ok env s" and may: "may_finish env s j st now cls code" and fits: "fits env"
    and none: "look_receipt s (receipt_of_job (j_id j)) = None"
    and ev: "terminal_evidence st cls code" and p: "first_failure (progress_ladder p) = None"
    and d: "attempt_duration_ms (close_attempt (finish_outcome st) now cls code (j_attempts j)) < 2 ^ 63"
  shows "let as = close_attempt (finish_outcome st) now cls code (j_attempts j);
             r = terminal_receipt j st now p cls code (used_network j net) mut as;
             k = finished_job j st now p as r
         in finish_locked env j st now p cls code net mut s = (Inr k, put_job k (put_receipt r s))
            \<and> receipt_matches_terminal_job r k"
proof -
  let ?as = "close_attempt (finish_outcome st) now cls code (j_attempts j)"
  let ?r = "terminal_receipt j st now p cls code (used_network j net) mut ?as"
  let ?k = "finished_job j st now p ?as ?r"
  from may have fin: "finishable env j" and cl: "closes_as j st now cls code"
    by (simp_all add: may_finish_def)
  have t: "terminal_status st" using ev by (rule terminal_evidence_status)
  have r: "receipt_ok ?r" using fin ev p d attempt_duration_nonneg by (rule receipt_accepted)
  have k: "job_ok env ?k" by (rule finished_ok [OF fin fits ev cl p _ refl]) simp
  have "case code of None \<Rightarrow> True | Some c \<Rightarrow> c \<in> set ERROR_CODES"
    using ev by (auto simp: terminal_evidence_def)
  then have "seqA (case code of None \<Rightarrow> ret () | Some c \<Rightarrow> require_error c) f s = f s"
    for f :: "job sched_act"
    by (cases code) (simp_all add: require_error_def)
  with t p r k none
  have "finish_locked env j st now p cls code net mut s = (Inr ?k, put_job ?k (put_receipt ?r s))"
    by (simp add: finish_locked_def require_progress_def write_receipt_once_def write_job_def Let_def)
  with finished_matches [OF fin cl] show ?thesis by (simp add: Let_def)
qed

lemma succeed_returns:
  assumes "store_ok env s" and "evidenced s" and "fits env" and "look_job s i = Some j"
    and "holds_lease j token now" and "first_failure (progress_ladder p) = None"
    and "attempt_duration_ms (close_attempt Attempt_succeeded now None None (j_attempts j)) < 2 ^ 63"
  shows "let as = close_attempt Attempt_succeeded now None None (j_attempts j);
             r = terminal_receipt j Succeeded now p None None (used_network j net) mut as;
             k = finished_job j Succeeded now p as r
         in succeed env i token p net mut now s = (Inr k, put_job k (put_receipt r (s\<lparr>st_present := True\<rparr>)))
            \<and> receipt_matches_terminal_job r k"
proof -
  let ?t = "s\<lparr>st_present := True\<rparr>"
  have i: "j_id j = i" and snd: "job_sound env j" using store_ok_job [OF assms(1,4)] by simp_all
  have act: "active_status (j_status j)" using assms(5) by (simp add: holds_lease_def)
  have may: "may_finish env ?t j Succeeded now None None"
    using assms(4) i snd act by (intro may_finish_active) simp_all
  have none: "look_receipt ?t (receipt_of_job (j_id j)) = None"
    using no_receipt_before_end [OF assms(1,2,4)] act active_not_terminal by (simp add: i)
  let ?as = "close_attempt (finish_outcome Succeeded) now None None (j_attempts j)"
  let ?r = "terminal_receipt j Succeeded now p None None (used_network j net) mut ?as"
  let ?k = "finished_job j Succeeded now p ?as ?r"
  have fin: "finish_locked env j Succeeded now p None None net mut ?t =
      (Inr ?k, put_job ?k (put_receipt ?r ?t))" and m: "receipt_matches_terminal_job ?r ?k"
    using finish_returns [OF _ may assms(3) none _ assms(6), of net mut] assms(1,7)
    by (simp_all add: terminal_evidence_def finish_outcome_def Let_def)
  have "succeed env i token p net mut now s = (Inr ?k, put_job ?k (put_receipt ?r ?t))"
    using fin found_stored [OF assms(1,4), of ?t] owned_holds [OF assms(5)]
    by (simp add: succeed_def hold_bind)
  with m show ?thesis by (simp add: finish_outcome_def Let_def)
qed



text \<open>
  C31: an executor that reports a cancellation with any code but \<open>cancelled_by_user\<close> is
  refused: nothing is recorded and the job stays as it was. The OCR, email and transcript
  executors report codes of their own.
\<close>

theorem cancelled_with_own_code_is_refused:
  assumes "code \<noteq> ''cancelled_by_user''"
  shows "refused s (fail env i token Cancelled_class code p net mut now s)"
  unfolding fail_def Let_def
proof (intro refused_error refused_progress refused_hold refused_found refused_after_owned)
  fix t j
  have bad: "\<not> receipt_ok (terminal_receipt k Cancelled now p (Some Cancelled_class) (Some code) n m as)"
    for k n m as
    using assms receipt_evidence [of k Cancelled now p "Some Cancelled_class" "Some code" n m as]
    by (auto simp: terminal_evidence_def)
  have "refused t (finish_locked env k Cancelled now p (Some Cancelled_class) (Some code) net mut t)" for k
  proof (cases rule: finish_locked_cases
      [of env k Cancelled now p "Some Cancelled_class" "Some code" net mut t])
    case attempted
    obtain e where "validate_receipt_record (terminal_receipt k Cancelled now p (Some Cancelled_class)
        (Some code) (used_network k net) mut (close_attempt (finish_outcome Cancelled) now
        (Some Cancelled_class) (Some code) (j_attempts k))) = Inl e"
      using validate_receipt_cases bad by blast
    with attempted(3) show ?thesis by (simp add: write_receipt_once_def refused_def)
  qed (simp add: refused_def)
  then show "refused t ((if retry_available j Cancelled_class
       then bindA (of_result (retry_delay_seconds (j_retry j) (j_attempt j)))
              (\<lambda>delay. write_job env
                 (j\<lparr>j_status := Retry_wait, j_updated_at := now,
                    j_retry_not_before := Some (now + delay * SECOND), j_lease := None,
                    j_progress := p,
                    j_attempts := close_attempt (if retry_available j Cancelled_class
                        then Attempt_retry else Attempt_failed) now (Some Cancelled_class)
                        (Some code) (j_attempts j)\<rparr>))
       else finish_locked env
              (j\<lparr>j_attempts := close_attempt (if retry_available j Cancelled_class
                        then Attempt_retry else Attempt_failed) now (Some Cancelled_class)
                        (Some code) (j_attempts j), j_lease := None\<rparr>)
              (failure_status Cancelled_class) now p (Some Cancelled_class) (Some code) net mut) t)"
    by (simp add: retry_available_def)
qed

theorem cancelled_with_own_code_is_refused_witness:
  "refused lab_claimed (fail lab_env lab_job_id lab_token Cancelled_class ''transcript_cancelled''
     no_progress False False (3 * SECOND) lab_claimed)"
  by (rule cancelled_with_own_code_is_refused) simp

section \<open>Retrying\<close>

definition retried_job :: "job \<Rightarrow> instant \<Rightarrow> int \<Rightarrow> string \<Rightarrow> progress \<Rightarrow> job" where
  "retried_job j now delay code p =
     j\<lparr>j_status := Retry_wait, j_updated_at := now,
       j_retry_not_before := Some (now + delay * SECOND), j_lease := None, j_progress := p,
       j_attempts := close_attempt Attempt_retry now (Some Transient) (Some code) (j_attempts j)\<rparr>"

definition has_pending :: "job \<Rightarrow> bool" where
  "has_pending j \<longleftrightarrow> (case j_control j of None \<Rightarrow> False | Some c \<Rightarrow> ctl_pending c \<noteq> None)"

lemma retried_rows:
  assumes rows: "\<And>i. i < length as \<Longrightarrow> first_failure (attempt_ladder b (Suc i) (as ! i)) = None"
    and code: "code \<in> set ERROR_CODES" and i: "i < length as"
  shows "first_failure (attempt_ladder b (Suc i)
           (close_attempt Attempt_retry now (Some Transient) (Some code) as ! i)) = None"
proof (cases "a_outcome (last as) = Attempt_running \<and> i = length as - 1")
  case True
  with i have "close_attempt Attempt_retry now (Some Transient) (Some code) as ! i =
      (as ! i)\<lparr>a_completed_at := Some now, a_outcome := Attempt_retry,
               a_error_class := Some Transient, a_error_code := Some code\<rparr>"
    by (auto simp: close_attempt_def nth_append last_conv_nth)
  with rows [OF i] code show ?thesis by (auto simp: attempt_ladder_def error_ladder_def)
next
  case False
  with i have "close_attempt Attempt_retry now (Some Transient) (Some code) as ! i = as ! i"
    by (auto simp: close_attempt_def nth_append nth_butlast)
  with rows [OF i] show ?thesis by simp
qed

lemma retried_history:
  assumes ok: "job_ok env j" and ec: "earlier_closed (j_attempts j)" and act: "active_status (j_status j)"
    and code: "code \<in> set ERROR_CODES"
  shows "first_failure (history_ladder (controlled_schema j) (retried_job j now delay code p)) = None"
proof -
  let ?as = "close_attempt Attempt_retry now (Some Transient) (Some code) (j_attempts j)"
  have run: "j_attempts j \<noteq> []" "a_outcome (last (j_attempts j)) = Attempt_running"
    using job_ok_running [OF ok] act by simp_all
  have len: "int (length (j_attempts j)) = j_attempt j" "length (j_attempts j) \<le> nat MAX_RETRY_ATTEMPTS"
    using job_ok_attempts [OF ok] by (simp_all add: MAX_RETRY_ATTEMPTS_def)
  have rows: "first_failure (concat (map (\<lambda>(n, a). attempt_ladder (controlled_schema j) n a)
      (enumerate 1 ?as))) = None"
    unfolding attempt_rows_None
    using retried_rows [OF job_ok_attempt [OF ok] code] by simp
  have none: "\<forall>a \<in> set ?as. a_outcome a \<noteq> Attempt_running"
    using close_attempt_none_running [OF ec, of Attempt_retry] by blast
  have final: "a_outcome (last ?as) = Attempt_retry" using run by (simp add: last_close_attempt)
  show ?thesis
    using len rows none final run by (simp add: history_ladder_def retried_job_def Let_def)
qed

lemma retried_ok:
  assumes ok: "job_ok env j" and ec: "earlier_closed (j_attempts j)" and act: "active_status (j_status j)"
    and fits: "fits env" and code: "code \<in> set ERROR_CODES"
    and p: "first_failure (progress_ladder p) = None"
  shows "job_ok env (retried_job j now delay code p) \<longleftrightarrow> \<not> has_pending j"
proof -
  let ?k = "retried_job j now delay code p"
  have same [simp]: "j_schema ?k = j_schema j" "j_control ?k = j_control j" "j_plan ?k = j_plan j"
    "j_kind ?k = j_kind j" "j_scope ?k = j_scope j" "j_id ?k = j_id j" "j_attempt ?k = j_attempt j"
    "j_status ?k = Retry_wait" "j_policy_id ?k = j_policy_id j" "j_key ?k = j_key j"
    "j_policy_revision ?k = j_policy_revision j" "j_retry ?k = j_retry j" "j_lease ?k = None"
    "j_retry_not_before ?k = Some (now + delay * SECOND)" "j_checkpoint ?k = j_checkpoint j"
    "j_progress ?k = p" "j_recovery_count ?k = j_recovery_count j"
    by (simp_all add: retried_job_def)
  have schema: "controlled_schema ?k = controlled_schema j" by (simp add: controlled_schema_def)
  have nt: "\<not> terminal_status (j_status j)" using act by (rule active_not_terminal)
  have "receipt_ref_ladder ?k = receipt_ref_ladder (j\<lparr>j_status := Retry_wait\<rparr>)"
    by (simp add: receipt_ref_ladder_def retried_job_def)
  then have refs: "first_failure (receipt_ref_ladder ?k) = None"
    using job_ok_receipt_ref [OF ok] nt by (simp add: receipt_ref_ladder_def)
  have "first_failure (job_core_ladder ?k) = None"
    using job_ok_core [OF ok] retried_history [OF ok ec act code, of now delay p] p refs
    by (cases "controlled_schema j")
       (auto simp: job_core_ladder_def Let_def schema lease_ladder_def)
  moreover have "first_failure (job_tail_ladder env ?k) = None"
    using ok by (cases "controlled_schema j")
      (simp_all add: job_ok_def job_ladder_def job_tail_ladder_def schema)
  moreover have "first_failure (control_ladder env ?k c) = None \<longleftrightarrow> ctl_pending c = None"
    if c: "j_control j = Some c" for c
  proof -
    have old: "first_failure (control_ladder env j c) = None" using ok c by (rule control_of_ok)
    then have comp: "ctl_completion c = None"
      using act by (auto simp: control_ladder_def control_head_ladder_def)
    have "first_failure (control_head_ladder ?k c) = None \<longleftrightarrow> ctl_pending c = None"
      using old comp
      by (cases "ctl_pending c")
         (auto simp: control_ladder_def control_head_ladder_def pending_ladder_def
            cong: option.case_cong)
    moreover have "restart_ladder env ?k c = restart_ladder env j c"
      by (rule restart_ladder_cong) simp_all
    moreover have "first_failure (control_tail_ladder (e_size env (job_json ?k)) ?k c) = None"
      using old fits
      by (simp add: control_ladder_def control_tail_ladder_def fits_def not_less
          cong: option.case_cong)
    ultimately show ?thesis using old by (simp add: control_ladder_def)
  qed
  ultimately show ?thesis
    by (auto simp: job_ok_def job_ladder_def has_pending_def split: option.splits)
qed



section \<open>Manual requests\<close>

lemma find_append_None: "find P xs = None \<Longrightarrow> find P (xs @ ys) = find P ys"
  by (induction xs) (auto split: if_splits)

lemma found_policy_same: "found_policy env i s = (Inr p, s') \<Longrightarrow> s' = s"
  by (metis found_policy_state snd_conv)

lemma found_policy_frame:
  assumes "found_policy env i s = (Inr p, s)" and "st_policies t = st_policies s"
  shows "found_policy env i t = (Inr p, t)"
proof -
  have g: "get_policy env i t = (fst (get_policy env i s), t)"
    using look_frame(3) [OF assms(2)] by (simp add: get_policy_def)
  obtain x where x: "get_policy env i s = (x, s)" by (simp add: get_policy_def)
  with assms(1) have "x = Inr (Some p)"
    by (cases x) (auto simp: found_policy_def split: option.splits)
  with g x show ?thesis by (simp add: found_policy_def)
qed

lemma new_job_present:
  assumes "new_job env hex p reason nominal eligible key now plan s = (Inr x, s')" and "st_present s"
  shows "st_present s'"
proof -
  have w: "write_job env q t = (Inr k, u) \<Longrightarrow> st_present u = st_present t" for q k t u
    by (auto simp: write_job_def act_results put_job_def)
  show ?thesis
    using assms by (auto simp: new_job_def all_jobs_def act_results dest!: w split: option.splits)
qed

lemma new_job_replay:
  assumes ok: "store_ok env s" and fresh: "look_job s (''job_'' @ hex) = None"
    and run: "new_job env hex p reason nominal eligible key now plan s = (Inr (j, c), s')"
  shows "new_job env hex' p' reason' nominal' eligible' key now' plan s' = (Inr (j, False), s')"
    and "st_policies s' = st_policies s"
proof -
  let ?find = "\<lambda>t. find (\<lambda>j. j_key j = key) (map snd (st_jobs t))"
  have at: "new_job env h q rs n e key w plan t =
      (case ?find t of Some x \<Rightarrow> seqA (require (j_plan x = plan) (Conflict_error
            ''manual request reused with a different execution plan'')) (ret (x, False)) t
       | None \<Rightarrow> bindA (write_job env (queued_job h q rs n e key w plan)) (\<lambda>j. ret (j, True)) t)"
    if "store_ok env t" for h q rs n e w t
    using all_jobs_ok [OF that] by (simp add: new_job_def split: option.split)
  have "new_job env hex' p' reason' nominal' eligible' key now' plan s' = (Inr (j, False), s')
        \<and> st_policies s' = st_policies s"
  proof (cases "?find s")
    case (Some x)
    with run at [OF ok] have "j_plan x = plan" "j = x" "s' = s"
      by (auto simp: act_results)
    with at [OF ok] Some show ?thesis by simp
  next
    case None
    let ?q = "queued_job hex p reason nominal eligible key now plan"
    from None run at [OF ok] have w: "job_ok env ?q" "j = ?q" "s' = put_job ?q s"
      using validate_job_cases [of env ?q] by (auto simp: write_job_def)
    have "may_write s ?q" using fresh by (simp only: may_write_def queued_job_simps option.case status_values not_False_eq_True)
    moreover have "job_sound env ?q" using w(1) by (simp add: job_sound_def bookkeeping_queued)
    ultimately have ok': "store_ok env s'" unfolding w(3) using ok by (intro store_ok_put_job)
    have "st_jobs s' = st_jobs s @ [(j_id ?q, ?q)]"
      unfolding w(3) put_fields by (rule alist_put_new) (use fresh in \<open>simp only: look_job_def queued_job_simps\<close>)
    then have "?find s' = Some ?q" using None by (simp add: find_append_None)
    with at [OF ok'] w show ?thesis by simp
  qed
  then show "new_job env hex' p' reason' nominal' eligible' key now' plan s' = (Inr (j, False), s')"
    and "st_policies s' = st_policies s" by blast+
qed

text \<open>
  A manual request is idempotent. Once a request with a key has been admitted, repeating
  it with the same plan, at any later time and with any fresh ids, returns the same job,
  reports that nothing was created, and changes no record.
\<close>

theorem run_now_replays:
  assumes "store_ok env s" and "look_job s (''job_'' @ hex) = None"
    and "run_now env hex hex2 pid (Some key) now plan s = (Inr (j, c), s')"
  shows "run_now env hex' hex2' pid (Some key) now' plan s' = (Inr (j, False), s')"
proof -
  let ?t = "s\<lparr>st_present := True\<rparr>"
  have ok: "store_ok env ?t" using assms(1) by simp
  from assms(3) obtain p k where found: "found_policy env pid ?t = (Inr p, ?t)"
    and key: "strip key \<noteq> []" "length (strip key) \<le> 200"
    and k: "idempotency_digest env [''manual'', p_id p, int_text (p_revision p), strip key] = Inr k"
    and new: "new_job env hex p Reason_manual now now k now plan ?t = (Inr (j, c), s')"
    by (auto simp: run_now_def hold_bind Let_def act_results dest: found_policy_same)
  have fresh: "look_job ?t (''job_'' @ hex) = None" using assms(2) by simp
  note replay = new_job_replay [OF ok fresh new]
  have "st_present s'" using new by (rule new_job_present) simp
  then have present: "s'\<lparr>st_present := True\<rparr> = s'" by simp
  have "found_policy env pid s' = (Inr p, s')"
    using found replay(2) by (rule found_policy_frame)
  with key k replay(1) present show ?thesis
    by (simp add: run_now_def hold_bind Let_def)
qed

theorem run_now_replays_witness:
  "\<exists>j s'. run_now lab_env lab_hex lab_hex lab_policy_id (Some ''nightly'') SECOND None lab_created = (Inr (j, True), s')
     \<and> run_now lab_env ''b'' ''b'' lab_policy_id (Some ''nightly'') (9 * SECOND) None s' = (Inr (j, False), s')"
proof -
  have r: "run_now lab_env lab_hex lab_hex lab_policy_id (Some ''nightly'') SECOND None lab_created
      = (Inr (lab_queued_job, True), lab_queued)" by (rule lab_runs_named)
  have n: "look_job lab_created (''job_'' @ lab_hex) = None" by (simp add: look_job_def)
  show ?thesis using run_now_replays [OF lab_stores_ok(3) n r] r by blast
qed

end
