(* ===== verification/Scheduler_System.thy ===== *)
theory Scheduler_System
  imports Scheduler_Settled Scheduler_Lifecycle
begin

text \<open>
  The scheduler as a transition system: one rule per transaction of SchedulerStore, in any
  order, by any caller, with the outcome that the transaction has (an error included), and a
  crash between the two writes of a finishing job. The properties of whole histories are
  proved by rule induction over it.
\<close>

section \<open>Steps and histories\<close>

inductive sched_step :: "sched_env \<Rightarrow> store \<Rightarrow> store \<Rightarrow> bool" for env :: sched_env where
  created: "sched_step env s (snd (create_policy env hex k sc st sch rt now s))"
| updated: "sched_step env s (snd (update_policy env pid st sch rt now s))"
| ran_now: "look_job s (''job_'' @ hex) = None \<Longrightarrow>
    sched_step env s (snd (run_now env hex hex2 pid key now plan s))"
| evaluated: "draws_unused env fresh now s \<Longrightarrow> sched_step env s (snd (evaluate env fresh now s))"
| recovered: "sched_step env s (snd (recover env now s))"
| claimed: "sched_step env s (snd (claim_next env hex worker kinds only seconds now s))"
| heartbeat: "sched_step env s (snd (heartbeat env i token n now s))"
| checkpointed: "sched_step env s (snd (checkpoint_job env i token n phase p now s))"
| succeeded: "sched_step env s (snd (succeed env i token p net mut now s))"
| failed: "sched_step env s (snd (fail env i token cls code p net mut now s))"
| cancelled: "sched_step env s (snd (cancel env i now s))"
| commanded: "sched_step env s (snd (request_control env producer i a expected request cp now s))"
| observed: "(\<And>j b. look_job s i = Some j \<Longrightarrow> obs = Some b \<Longrightarrow> sample_ok j b) \<Longrightarrow>
    sched_step env s (snd (boundary env i token commit obs network now s))"

text \<open>The process stops after the receipt of a finishing job is written, before its record is.\<close>

inductive sched_crash :: "store \<Rightarrow> store \<Rightarrow> bool" where
  interrupted: "sched_crash s (snd (write_receipt_once
     (terminal_receipt j st now p cls code net mut as) s))"

inductive sched_history :: "sched_env \<Rightarrow> store \<Rightarrow> store \<Rightarrow> bool" for env :: sched_env where
  start: "sched_history env s s"
| step: "sched_history env s t \<Longrightarrow> sched_step env t u \<Longrightarrow> sched_history env s u"
| crash: "sched_history env s t \<Longrightarrow> sched_crash t u \<Longrightarrow> sched_history env s u"

inductive smooth_history :: "sched_env \<Rightarrow> store \<Rightarrow> store \<Rightarrow> bool" for env :: sched_env where
  smooth_start: "smooth_history env s s"
| smooth_step: "smooth_history env s t \<Longrightarrow> sched_step env t u \<Longrightarrow> smooth_history env s u"

inductive_cases sched_crashE: "sched_crash s t"

context store_contract
begin

lemmas transaction_steps = create_policy_step update_policy_step run_now_step evaluate_step
  recover_step claim_next_step heartbeat_step checkpoint_step succeed_step fail_step cancel_step
  request_control_step boundary_step

lemma sched_step_R: "sched_step env s t \<Longrightarrow> R s t"
  by (induction rule: sched_step.induct) (auto intro: transaction_steps)

lemma smooth_history_R: "smooth_history env s t \<Longrightarrow> R s t"
  by (induction rule: smooth_history.induct) (auto intro: R_refl R_trans sched_step_R)

end

lemma crash_journal: "sched_crash s t \<Longrightarrow> journal_step env s t"
  by (erule sched_crashE) (simp add: journal_write_receipt)

lemma history_journal: "sched_history env s t \<Longrightarrow> journal_step env s t"
  by (induction rule: sched_history.induct)
     (auto intro: journal_order.R_refl journal_order.R_trans journal.sched_step_R crash_journal)

lemma store_ok_empty: "store_ok env empty_store"
  by (simp add: store_ok_def empty_store_def job_dir.keyed_def job_dir.all_records_def
      receipt_dir.keyed_def receipt_dir.all_records_def policy_dir.keyed_def
      policy_dir.all_records_def look_job_def look_receipt_def look_policy_def)

lemma evidenced_empty: "evidenced empty_store"
  by (simp add: evidenced_def empty_store_def look_job_def look_receipt_def)

definition reachable :: "sched_env \<Rightarrow> store \<Rightarrow> bool" where
  "reachable env s \<longleftrightarrow> sched_history env empty_store s"

lemma reachable_ok: "reachable env s \<Longrightarrow> store_ok env s"
  using history_journal store_ok_empty by (auto simp: reachable_def journal_step_def)

lemma smooth_history_journal: "smooth_history env s t \<Longrightarrow> journal_step env s t"
  by (rule journal.smooth_history_R)

lemma smooth_history_evidence: "smooth_history env s t \<Longrightarrow> evidence_step env s t"
  by (rule evidence.smooth_history_R)

lemma lab_reachable: "reachable lab_env lab_claimed"
proof -
  have "sched_history lab_env empty_store empty_store" by (rule start)
  from step [OF this created [of _ _ lab_hex Search_reindex lab_scope Policy_enabled lab_schedule None 0]]
  have "sched_history lab_env empty_store lab_created" by (simp add: lab_creates)
  from step [OF this ran_now [of _ lab_hex _ lab_hex lab_policy_id None SECOND None]]
  have "sched_history lab_env empty_store lab_queued" by (simp add: lab_runs look_job_def)
  from step [OF this claimed [of _ _ lab_hex lab_worker "[Search_reindex]" None 120 "2 * SECOND"]]
  show ?thesis by (simp add: lab_claims reachable_def)
qed

lemma lab_smooth: "smooth_history lab_env empty_store lab_claimed"
proof -
  have "smooth_history lab_env empty_store empty_store" by (rule smooth_start)
  from smooth_step [OF this created [of _ _ lab_hex Search_reindex lab_scope Policy_enabled lab_schedule None 0]]
  have "smooth_history lab_env empty_store lab_created" by (simp add: lab_creates)
  from smooth_step [OF this ran_now [of _ lab_hex _ lab_hex lab_policy_id None SECOND None]]
  have "smooth_history lab_env empty_store lab_queued" by (simp add: lab_runs look_job_def)
  from smooth_step [OF this claimed [of _ _ lab_hex lab_worker "[Search_reindex]" None 120 "2 * SECOND"]]
  show ?thesis by (simp add: lab_claims)
qed

section \<open>Properties of histories\<close>

text \<open>
  C28: whatever transactions ran, failed or were interrupted, every stored job can be read back,
  its attempts are numbered by the attempt count, never exceed the retry policy of its
  admission, and only the last one can be running; it has a lease exactly when it is active.
\<close>

theorem reachable_jobs_bounded:
  assumes "reachable env s" and "look_job s i = Some j"
  shows "get_job env i s = (Inr (Some j), s)
       \<and> int (length (j_attempts j)) = j_attempt j
       \<and> (0 < j_attempt j \<longrightarrow> j_attempt j \<le> max_attempts (j_retry j))
       \<and> (\<forall>n < length (j_attempts j) - 1. a_outcome (j_attempts j ! n) \<noteq> Attempt_running)
       \<and> (j_lease j \<noteq> None \<longleftrightarrow> active_status (j_status j))"
proof -
  have ok: "store_ok env s" using assms(1) by (rule reachable_ok)
  from store_ok_job [OF ok assms(2)] have j: "j_id j = i" "job_ok env j" "earlier_closed (j_attempts j)"
    "attempts_bounded j" by (simp_all add: job_sound_def bookkeeping_ok_def)
  have "\<forall>n < length (j_attempts j) - 1. a_outcome (j_attempts j ! n) \<noteq> Attempt_running"
    using j(3) by (auto simp: earlier_closed_def list_all_length nth_butlast)
  moreover have "job_id_ok i" using stored_job_id [OF ok assms(2)] by simp
  ultimately show ?thesis
    using j assms(2) job_ok_attempts(1) [OF j(2)] job_ok_lease [OF j(2)]
    by (simp add: get_job_some attempts_bounded_def)
qed

theorem reachable_jobs_bounded_witness:
  "get_job lab_env lab_job_id lab_claimed = (Inr (Some lab_job), lab_claimed)
 \<and> int (length (j_attempts lab_job)) = j_attempt lab_job \<and> j_lease lab_job \<noteq> None"
  using reachable_jobs_bounded [OF lab_reachable lab_look(3)] lab_lease by simp

text \<open>
  C7: the journal only grows. From any reachable store, however the history goes on, crashes
  included, no receipt is ever changed or lost, no job disappears, the fields of a job's
  admission and its closed attempts stay, its checkpoint and recovery count never go back, and a
  terminal job keeps everything but its control.
\<close>

theorem journal_only_grows:
  assumes "reachable env s" and "sched_history env s t"
  shows "receipts_kept s t \<and> jobs_advance s t"
  using history_journal [OF assms(2)] reachable_ok [OF assms(1)] by (simp add: journal_step_def)

theorem journal_only_grows_witness:
  "receipts_kept lab_claimed (snd (succeed lab_env lab_job_id lab_token no_progress False False (3 * SECOND) lab_claimed))
 \<and> jobs_advance lab_claimed (snd (succeed lab_env lab_job_id lab_token no_progress False False (3 * SECOND) lab_claimed))"
  by (rule journal_only_grows [OF lab_reachable step [OF start succeeded]])



end
