(* ===== verification/Scheduler_Leases.thy ===== *)
theory Scheduler_Leases
  imports Scheduler_Settled Scheduler_Lifecycle
begin

text \<open>
  Leases and claims: a live lease is exclusive, a claim takes the first eligible job, and a
  finish that was interrupted after its receipt is completed by the next recovery.
\<close>

section \<open>A live lease is exclusive\<close>

definition live :: "instant \<Rightarrow> job \<Rightarrow> bool" where
  "live now j \<longleftrightarrow> active_status (j_status j)
     \<and> (\<exists>l. j_lease j = Some l \<and> l_heartbeat_at l \<le> now \<and> now < l_expires_at l)"

lemma recover_job_live:
  assumes ok: "store_ok env s" and ev: "evidenced s" and look: "look_job s (j_id j) = Some j"
    and live: "live now j"
  shows "snd (recover_job env j now s) = s"
proof -
  have jok: "job_ok env j" using store_ok_job [OF ok look] by (simp add: job_sound_def)
  from live have act: "active_status (j_status j)" by (simp add: live_def)
  then have nt: "\<not> terminal_status (j_status j)" "j_status j \<noteq> Retry_wait" "j_status j \<noteq> Paused"
    using active_not_terminal [OF act] by auto
  have none: "look_receipt s (receipt_of_job (j_id j)) = None"
    using no_receipt_before_end [OF ok ev look nt(1)] .
  have comp: "completion_of j = None"
    using completion_waiting [OF jok] act by (cases "completion_of j") auto
  have restart: "snd (bindA (finish_restart env j now) (\<lambda>_. ret d) s) = s" for d :: recovery_counts
    using nt by (auto simp: finish_restart_def bindA_def seqA_def require_eq split: option.split)
  have lease: "recover_lease env j now s = (Inr no_recovery, s)"
    using live by (auto simp: live_def recover_lease_def Let_def)
  show ?thesis
    using nt none comp restart lease by (simp add: recover_job_def read_receipt_file_def)
qed

lemma recover_all_live:
  assumes fits: "fits env"
  shows "store_ok env s \<Longrightarrow> evidenced s \<Longrightarrow> look_job s i = Some j \<Longrightarrow> live now j \<Longrightarrow>
    look_job (snd (recover_all env now ks acc s)) i = Some j"
proof (induction ks arbitrary: acc s)
  case (Cons k ks)
  show ?case
  proof (cases "read_job_file env k s")
    case (Pair r u)
    then have u: "u = s" using read_job_file_state [of env k s] by simp
    show ?thesis
    proof (cases r)
      case (Inl e)
      with Pair u Cons.prems(3) show ?thesis by simp
    next
      case (Inr x)
      with Pair have x: "look_job s k = Some x" "job_ok env x" using read_job_file_result by blast+
      from store_ok_job [OF Cons.prems(1) x(1)] have id: "j_id x = k" "job_sound env x" by simp_all
      obtain r2 t where rj: "recover_job env x now s = (r2, t)" by (cases "recover_job env x now s")
      have "evidence_step env s t"
        using evidence.recover_job_step [of s x env now] x id rj by simp
      with fits Cons.prems have t: "store_ok env t" "evidenced t" by (simp_all add: evidence_step_def)
      have keep: "look_job t i = Some j"
      proof (cases "i = k")
        case True
        with x Cons.prems(3) have "x = j" by simp
        with recover_job_live [OF Cons.prems(1,2), of j now] Cons.prems(3,4) id True rj show ?thesis by simp
      next
        case False
        with others_recover_job [of i x env s now] id x(2) rj Cons.prems(3) show ?thesis
          by (simp add: keeps_job_def)
      qed
      show ?thesis
      proof (cases r2)
        case (Inl e)
        with Pair Inr u rj keep show ?thesis by simp
      next
        case (Inr d)
        with Pair \<open>r = Inr x\<close> u rj Cons.IH [OF t keep Cons.prems(4)] show ?thesis by simp
      qed
    qed
  qed
qed simp

lemma recover_locked_live:
  assumes "fits env" and "store_ok env s" and "evidenced s" and "look_job s i = Some j" and "live now j"
  shows "look_job (snd (recover_locked env now s)) i = Some j"
  using recover_all_live [OF assms] by (simp add: recover_locked_def)

lemma claimed_id [simp]: "j_id (claimed_job j hex worker seconds now) = j_id j"
  by (simp add: claimed_job_def Let_def)

lemma claim_job_keeps:
  "i \<noteq> j_id j \<Longrightarrow> keeps_job i s (snd (claim_job env j hex worker seconds now s))"
  unfolding claim_job_def
proof (rule others.step_bind, goal_cases)
  case 1
  then show ?case by (auto simp: others.R_refl get_job_def bindA_def split: option.split sum.split)
next
  case 2
  then show ?case by (intro others.step_require others_write_job) simp
qed

section \<open>Claiming\<close>

lemma sort_key_head:
  assumes "sort_key f xs = y # ys"
  shows "y \<in> set xs" and "x \<in> set xs \<Longrightarrow> f y \<le> f x"
proof -
  have set: "set (y # ys) = set xs" using assms by (metis set_sort)
  then show "y \<in> set xs" by auto
  have "sorted (map f (y # ys))" using assms by (metis sorted_sort_key)
  moreover assume "x \<in> set xs"
  ultimately show "f y \<le> f x" using set by auto
qed

lemma claim_job_result:
  "claim_job env j hex worker seconds now s = (Inr k, s') \<Longrightarrow>
   remaining j \<and> k = claimed_job j hex worker seconds now \<and> job_ok env k \<and> s' = put_job k s"
  by (auto simp: claim_job_def bindA_result seqA_result require_result write_job_result get_job_def
      split: option.splits)

lemma claim_next_enters:
  assumes "claim_next env hex worker kinds only seconds now s = (Inr out, s')" and "st_present s"
  shows "\<exists>c t. recover_locked env now s = (Inr c, t) \<and> bindA (all_jobs env) (\<lambda>js.
           case sort_key claim_order (filter (claimable kinds only now) js) of
             [] \<Rightarrow> ret None
           | j # _ \<Rightarrow> bindA (claim_job env j hex worker seconds now) (\<lambda>k. ret (Some k))) t = (Inr out, s')"
proof -
  have s: "s\<lparr>st_present := True\<rparr> = s" using assms(2) by simp
  from assms show ?thesis
    unfolding claim_next_def
    by (auto simp: seqA_result bindA_result require_lease_seconds_def require_result hold_def s
        found_job_result split: option.splits if_splits)
qed

text \<open>
  C34: a claim takes the first job of the queue. It first recovers the journal; then, among the
  stored jobs that are queued, of an allowed kind and eligible, it leases the least one by
  eligible instant, creation instant and id, provided that an attempt is left, as the next attempt
  of that job and for the requested time; and it returns nothing only when there is none.
\<close>

theorem claim_takes_the_first:
  assumes ok: "store_ok env s"
    and claim: "claim_next env hex worker kinds only seconds now s = (Inr out, s')"
  shows "if \<not> st_present s then out = None \<and> s' = s
    else \<exists>c t. recover_locked env now s = (Inr c, t) \<and> (case out of
        None \<Rightarrow> s' = t \<and> (\<forall>i x. look_job t i = Some x \<longrightarrow> \<not> claimable kinds only now x)
      | Some k \<Rightarrow> \<exists>j. look_job t (j_id j) = Some j \<and> claimable kinds only now j \<and> remaining j
          \<and> k = claimed_job j hex worker seconds now \<and> s' = put_job k t
          \<and> (\<forall>i x. look_job t i = Some x \<and> claimable kinds only now x \<longrightarrow> claim_order j \<le> claim_order x))"
proof (cases "st_present s")
  case False
  with claim show ?thesis
    by (auto simp: claim_next_def seqA_result bindA_result require_lease_seconds_def require_result
        split: option.splits)
next
  case True
  from claim_next_enters [OF claim True] obtain c t where t: "recover_locked env now s = (Inr c, t)"
    and pick: "bindA (all_jobs env) (\<lambda>js.
           case sort_key claim_order (filter (claimable kinds only now) js) of
             [] \<Rightarrow> ret None
           | j # _ \<Rightarrow> bindA (claim_job env j hex worker seconds now) (\<lambda>k. ret (Some k))) t = (Inr out, s')"
    by blast
  have okt: "store_ok env t"
    using journal.recover_locked_step [of env s now] t ok by (simp add: journal_step_def)
  have member: "x \<in> set (filter (claimable kinds only now) (map snd (st_jobs t)))"
    if "look_job t i = Some x" "claimable kinds only now x" for i x
    using that look_job_member [OF okt, of x] store_ok_job [OF okt that(1)] by simp
  show ?thesis
  proof (cases "sort_key claim_order (filter (claimable kinds only now) (map snd (st_jobs t)))")
    case Nil
    then have "filter (claimable kinds only now) (map snd (st_jobs t)) = []"
      by (metis set_empty set_sort)
    with member have "\<forall>i x. look_job t i = Some x \<longrightarrow> \<not> claimable kinds only now x" by auto
    moreover have "out = None" "s' = t" using pick Nil all_jobs_ok [OF okt] by (simp_all add: bindA_def)
    ultimately show ?thesis using True t by simp
  next
    case (Cons j js)
    note head = sort_key_head [OF Cons]
    from pick Cons all_jobs_ok [OF okt] obtain k
      where k: "claim_job env j hex worker seconds now t = (Inr k, s')" "out = Some k"
      by (auto simp: bindA_result)
    from head(1) have "look_job t (j_id j) = Some j" "claimable kinds only now j"
      using look_job_member [OF okt, of j] by auto
    then show ?thesis using True t k(2) claim_job_result [OF k(1)] head(2) member by auto
  qed
qed

theorem claim_takes_the_first_witness:
  "\<exists>c t j. recover_locked lab_env (2 * SECOND) lab_queued = (Inr c, t) \<and> look_job t (j_id j) = Some j
     \<and> claimable [Search_reindex] None (2 * SECOND) j
     \<and> lab_job = claimed_job j lab_hex lab_worker 120 (2 * SECOND)"
proof -
  have "st_present lab_queued" by (simp add: lab_queued_def lab_created_def)
  then show ?thesis using claim_takes_the_first [OF lab_stores_ok(2) lab_claims] by auto
qed



section \<open>An interrupted finish\<close>

lemma reconciled_is_finished:
  assumes "r = terminal_receipt j st now p cls code net mut (close_attempt (finish_outcome st) now cls code (j_attempts j))"
  shows "reconciled_job j r = finished_job j st now p
     (close_attempt (finish_outcome st) now cls code (j_attempts j)) r"
  by (simp add: assms reconciled_job_def finished_job_def terminal_receipt_def)



end
