(* ===== verification/Scheduler_Requests.thy ===== *)
theory Scheduler_Requests
  imports Scheduler_Leases
begin

text \<open>
  What a client of the job control can rely on: a request is carried out once and replayed
  afterwards, it is admitted only for the revision that the client saw and for an action that
  was offered for it, and the cooperative boundary either stops a worker or seals its commit.
\<close>

section \<open>The store stays\<close>

definition stays_present :: "sched_env \<Rightarrow> store \<Rightarrow> store \<Rightarrow> bool" where
  "stays_present env s t \<longleftrightarrow> journal_step env s t \<and> (store_ok env s \<and> st_present s \<longrightarrow> st_present t)"

interpretation presence_order: step_contract "stays_present env" for env
proof unfold_locales
  fix s t u
  show "stays_present env s s" by (simp add: stays_present_def journal_order.R_refl)
  show "stays_present env s t \<Longrightarrow> stays_present env t u \<Longrightarrow> stays_present env s u"
    using journal_order.R_trans [of env s t u] by (auto simp: stays_present_def journal_step_def)
qed

lemma put_present [simp]: "st_present (put_job j s) = st_present s" "st_present (put_policy p s) = st_present s"
  "st_present (put_receipt r s) = st_present s"
  by (simp_all add: put_job_def put_policy_def put_receipt_def)

lemma finish_present: "st_present (snd (finish_locked env j st now p cls code net mut s)) = st_present s"
proof (cases rule: finish_locked_cases [of env j st now p cls code net mut s])
  case attempted
  have w: "st_present (snd (write_job env k t)) = st_present t" for k t
    by (cases "validate_job_record env k") (simp_all add: write_job_def)
  obtain x t where x: "write_receipt_once (terminal_receipt j st now p cls code (used_network j net) mut
       (close_attempt (finish_outcome st) now cls code (j_attempts j))) s = (x, t)"
    by fastforce
  then have "st_present t = st_present s" by (auto dest!: write_receipt_effect)
  with attempted x w show ?thesis by (cases x) auto
qed simp

interpretation presence: store_contract "stays_present env" env for env
proof unfold_locales
  fix s t
  show "(store_ok env s \<Longrightarrow> stays_present env s t) \<Longrightarrow> stays_present env s t"
    unfolding stays_present_def journal_step_def by blast
qed (simp_all add: stays_present_def finish_present journal.on_hold journal.on_job journal.on_reconcile
       journal.on_policy journal.on_finish)

section \<open>A concluded job\<close>

text \<open>No command of the job is interrupted: its cancellation is recorded, its restart child exists.\<close>

definition concluded :: "sched_env \<Rightarrow> store \<Rightarrow> job \<Rightarrow> job option \<Rightarrow> bool" where
  "concluded env s j successor \<longleftrightarrow>
     look_job s (j_id j) = Some j \<and> job_sound env j \<and> completion_of j = None
   \<and> (case restart_of j of
        None \<Rightarrow> successor = None
      | Some (q, child) \<Rightarrow> terminal_status (j_status j)
          \<and> (\<exists>r. get_receipt (receipt_of_job (j_id j)) s = (Inr (Some r), s) \<and> receipt_matches_terminal_job r j)
          \<and> (\<exists>k. successor = Some k \<and> get_job env (j_id child) s = (Inr (Some k), s)
               \<and> validate_restart_lineage (Some j) k = Inr ()))"

lemma concluded_immediate: "concluded env s j k \<Longrightarrow> finish_immediate env j now s = (Inr j, s)"
  by (simp add: concluded_def finish_immediate_def)

lemma concluded_restart:
  assumes "concluded env s j k"
  shows "finish_restart env j now s = (Inr (j, k), s)"
proof (cases "restart_of j")
  case None
  with assms show ?thesis by (simp add: concluded_def finish_restart_def)
next
  case (Some x)
  with assms show ?thesis
    by (cases x) (auto simp: concluded_def finish_restart_def terminal_status_def)
qed

lemma finish_restart_concludes:
  assumes ok: "store_ok env s" and look: "look_job s (j_id j) = Some j" and none: "completion_of j = None"
    and run: "finish_restart env j now s = (Inr (k, c), s')"
  shows "concluded env s' k c \<and> j_id k = j_id j \<and> restart_of k = restart_of j
     \<and> j_status k = (if restart_of j \<noteq> None \<and> j_status j = Paused then Cancelled else j_status j)
     \<and> ctl_commands (control_of k) = ctl_commands (control_of j)"
proof (cases "restart_of j")
  case None
  with assms store_ok_job [OF ok look] show ?thesis by (auto simp: finish_restart_def concluded_def)
next
  case (Some x)
  obtain q child where x: "x = (q, child)" by (cases x)
  have snd: "job_sound env j" using store_ok_job [OF ok look] by simp
  have jok: "job_ok env j" using snd by (simp add: job_sound_def)
  note child = restart_child_facts [OF jok Some [unfolded x]]
  from run Some x obtain s1 r u found
    where p: "(if j_status j = Paused then cancelled_at env j now else ret j) s = (Inr k, s1)"
      and t: "terminal_status (j_status k)"
      and r: "get_receipt (receipt_of_job (j_id k)) s1 = (Inr r, s1)"
      and rm: "case r of None \<Rightarrow> False | Some y \<Rightarrow> receipt_matches_terminal_job y k"
      and f: "get_job env (j_id child) s1 = (Inr found, s1)"
      and w: "(case found of None \<Rightarrow> write_job env (widen child) | Some d \<Rightarrow> ret d) s1 = (Inr u, s')"
      and v: "validate_restart_lineage (Some k) u = Inr ()" and c: "c = Some u"
    by (fastforce simp: finish_restart_def act_results dest: get_receipt_state get_job_state)
  have k: "look_job s1 (j_id k) = Some k \<and> job_sound env k \<and> j_id k = j_id j \<and> restart_of k = restart_of j
      \<and> j_status k = (if j_status j = Paused then Cancelled else j_status j) \<and> completion_of k = None \<and> ctl_commands (control_of k) = ctl_commands (control_of j)"
  proof (cases "j_status j = Paused")
    case True
    with p have "cancelled_at env j now s = (Inr k, s1)" by simp
    from cancelled_at_stored [OF look snd _ this] True show ?thesis by simp
  next
    case False
    with p look snd none show ?thesis by simp
  qed
  have s': "look_job s' (j_id k) = Some k \<and> get_job env (j_id child) s' = (Inr (Some u), s')
      \<and> get_receipt (receipt_of_job (j_id k)) s' = (Inr r, s')"
  proof (cases found)
    case (Some d)
    with w have "d = u" "s' = s1" by simp_all
    with Some f r k show ?thesis by blast
  next
    case None
    with w have u: "u = widen child" "job_ok env u" "s' = put_job u s1" by (simp_all add: write_job_result)
    from None f child(3) have "look_job s1 (j_id child) = None" using get_job_none by fastforce
    with k u have "look_job s' (j_id k) = Some k" by (auto simp: job_dir.look_put)
    moreover have "get_job env (j_id child) s' = (Inr (Some u), s')"
      using u child(3) by (simp add: get_job_some job_dir.look_put)
    moreover have "get_receipt (receipt_of_job (j_id k)) s' = (Inr r, s')"
      using r u(3) by (auto simp: get_receipt_def)
    ultimately show ?thesis by blast
  qed
  with Some x k t r rm v c show ?thesis by (auto simp: concluded_def split: option.splits)
qed

section \<open>A request is carried out once\<close>

lemma commanded_commands:
  "ctl_commands (control_of (commanded_job j0 a (command_control j0 a rd payload expected now child))) =
     ctl_commands (control_of j0) @ [recorded_command a rd payload expected (target_status j0 a) now child]"
proof -
  let ?c = "command_control j0 a rd payload expected now child"
  obtain x where "j_control (commanded_job j0 a ?c) = Some (?c\<lparr>ctl_completion := x\<rparr>)"
    using commanded_control_of by blast
  then have "control_of (commanded_job j0 a ?c) = ?c\<lparr>ctl_completion := x\<rparr>" by (simp add: control_of_def)
  then show ?thesis by (simp add: command_control_def commanded_control_def)
qed

lemma commanded_restart:
  assumes "\<not> recovering j0"
  shows "restart_of (commanded_job j0 a (command_control j0 a rd payload expected now child)) = map_option (Pair rd) child"
proof -
  let ?c = "command_control j0 a rd payload expected now child"
  obtain x where "j_control (commanded_job j0 a ?c) = Some (?c\<lparr>ctl_completion := x\<rparr>)"
    using commanded_control_of by blast
  then have "restart_of (commanded_job j0 a ?c) = ctl_restart ?c" by (simp add: restart_of_def)
  moreover have "ctl_restart ?c = map_option (Pair rd) child"
    using assms by (cases child; cases "ctl_restart (control_of j0)")
      (auto simp: command_control_def commanded_control_def recovering_def recorded_command_def)
  ultimately show ?thesis by simp
qed

text \<open>What an admitted request leaves: the job concluded, with the new command as its last one.\<close>

lemma admit_request_concludes:
  assumes ok: "store_ok env s" and look: "look_job s (j_id j0) = Some j0" and by_st: "fst (by_status j0 pr now a)"
    and room: "\<not> history_full j0" and idle: "\<not> recovering j0"
    and run: "admit_request env j0 a rd payload expected producer now s = (Inr out, s')"
  shows "\<exists>child. concluded env s' (out_job out) (out_successor out) \<and> j_id (out_job out) = j_id j0
     \<and> \<not> out_replayed out
     \<and> j_status (out_job out) = (if child \<noteq> None \<and> target_status j0 a = Paused then Cancelled else target_status j0 a)
     \<and> restart_of (out_job out) = map_option (Pair rd) child
     \<and> child_for env (command_base j0 a) a rd producer now s = (Inr child, s)
     \<and> out_receipt out = recorded_command a rd payload expected (target_status j0 a) now child
     \<and> ctl_commands (control_of (out_job out)) = ctl_commands (control_of j0) @ [out_receipt out]"
proof -
  have snd: "job_sound env j0" using store_ok_job [OF ok look] by simp
  then have jok: "job_ok env j0" by (simp add: job_sound_def)
  from run [unfolded admit_request_commanded [OF jok]] obtain child s1 k t succ
    where ch1: "child_for env (command_base j0 a) a rd producer now s = (Inr child, s1)"
      and w1: "(if target_status j0 a = Cancelled \<and> child = None
          then bindA (write_job env (commanded_job j0 a (command_control j0 a rd payload expected now child)))
                 (\<lambda>j. finish_immediate env j now)
          else write_job env (commanded_job j0 a (command_control j0 a rd payload expected now child))) s1 = (Inr k, t)"
      and fr: "finish_restart env k now t = (Inr (out_job out, succ), s')"
      and out: "out_receipt out = recorded_command a rd payload expected (target_status j0 a) now child"
        "out_replayed out = False" "out_successor out = succ"
    by (auto simp only: bindA_result split: prod.splits) (auto simp: act_eval)
  from child_for_result [OF ch1] have "s1 = s" by simp
  note ch = ch1 [unfolded this] and w = w1 [unfolded this]
  let ?c = "command_control j0 a rd payload expected now child"
  let ?k = "commanded_job j0 a ?c"
  note cmds = commanded_commands [of j0 a rd payload expected now child]
    and rest = commanded_restart [OF idle, of a rd payload expected now child]
  have fresh: "\<And>k. child = Some k \<Longrightarrow> j_recovery_count k = 0" using child_for_result [OF ch] by auto
  have may: "may_write s ?k" by (rule commanded_may_write [OF look snd by_st])
  have written: "look_job u (j_id ?k) = Some ?k \<and> store_ok env u"
    if "write_job env ?k s = (Inr x, u)" for x u
  proof -
    from that have "u = put_job ?k s" "job_ok env ?k" by (simp_all add: write_job_result)
    with commanded_sound [OF snd by_st room fresh] ok show ?thesis
      by (simp add: job_dir.look_put store_ok_put_job job_sound_def)
  qed
  have "look_job t (j_id k) = Some k \<and> store_ok env t \<and> completion_of k = None \<and> j_id k = j_id j0
      \<and> j_status k = target_status j0 a \<and> restart_of k = map_option (Pair rd) child
      \<and> ctl_commands (control_of k) = ctl_commands (control_of j0) @ [out_receipt out]"
  proof (cases "target_status j0 a = Cancelled \<and> child = None")
    case True
    with w obtain x u where "write_job env ?k s = (Inr x, u)" and fi': "finish_immediate env x now u = (Inr k, t)"
      by (auto simp: bindA_result)
    then have x: "write_job env ?k s = (Inr ?k, u)" and fi: "finish_immediate env ?k now u = (Inr k, t)"
      by (simp_all add: write_job_result)
    from written [OF x] have u: "look_job u (j_id ?k) = Some ?k" "store_ok env u" by simp_all
    from store_ok_job [OF u(2,1)] have sk: "job_sound env ?k" by simp
    from True child_for_result [OF ch] have a: "a = Act_cancel"
      by (cases a) (auto simp: target_status_def split: if_splits)
    then have st: "j_status ?k \<in> {Queued, Retry_wait, Paused}"
      using target_allowed(4) [OF by_st] True by (simp add: commanded_status)
    have "completion_of ?k = Some Act_cancel"
      using True a by (simp add: completion_of_def commanded_job_def Let_def)
    with fi have cut: "cancelled_at env ?k now u = (Inr k, t)" by (simp add: finish_immediate_def)
    have "journal_step env u t" using journal.cancelled_at_step [OF u(1) sk st, of now] cut by simp
    with u have "store_ok env t" by (simp add: journal_step_def)
    with cancelled_at_stored [OF u(1) sk st cut] cmds rest out True show ?thesis by simp
  next
    case False
    with w have x: "write_job env ?k s = (Inr k, t)" by (simp only: if_not_P if_False)
    then have k: "k = ?k" by (simp add: write_job_result)
    from False child_for_result [OF ch] have "\<not> (target_status j0 a = Cancelled \<and> a = Act_cancel)" by auto
    then have "j_control ?k = Some ?c" by (auto simp: commanded_job_def Let_def)
    then have "completion_of ?k = None"
      using idle by (simp add: completion_of_def command_control_def commanded_control_def recovering_def)
    moreover have "j_status ?k = target_status j0 a" using False \<open>\<not> (target_status j0 a = Cancelled \<and> a = Act_cancel)\<close>
      by (auto simp: commanded_status)
    ultimately show ?thesis using written [OF x] k cmds rest out by simp
  qed
  then have k: "look_job t (j_id k) = Some k" "store_ok env t" "completion_of k = None" "j_id k = j_id j0"
      "j_status k = target_status j0 a" "restart_of k = map_option (Pair rd) child"
      "ctl_commands (control_of k) = ctl_commands (control_of j0) @ [out_receipt out]" by blast+
  from finish_restart_concludes [OF k(2,1,3) fr] out k ch show ?thesis by (intro exI [of _ child]) simp
qed

lemma replay_request_concludes:
  assumes ok: "store_ok env s" and look: "look_job s (j_id j) = Some j"
    and run: "replay_request env j c payload now s = (Inr out, s')"
  shows "concluded env s' (out_job out) (out_successor out) \<and> j_id (out_job out) = j_id j
     \<and> out_receipt out = c \<and> cmd_payload c = payload
     \<and> ctl_commands (control_of (out_job out)) = ctl_commands (control_of j)"
proof -
  have snd: "job_sound env j" using store_ok_job [OF ok look] by simp
  then have jok: "job_ok env j" by (simp add: job_sound_def)
  from run obtain k t succ where fi: "finish_immediate env j now s = (Inr k, t)"
      and fr: "finish_restart env k now t = (Inr (out_job out, succ), s')" and pay: "cmd_payload c = payload"
      and out: "out_receipt out = c" "out_successor out = succ"
    by (auto simp: replay_request_def act_results split: prod.splits)
  have "look_job t (j_id k) = Some k \<and> store_ok env t \<and> completion_of k = None \<and> j_id k = j_id j
      \<and> ctl_commands (control_of k) = ctl_commands (control_of j)"
  proof (cases "completion_of j = None")
    case True
    with fi ok look show ?thesis by (simp add: finish_immediate_def)
  next
    case False
    with fi completion_is_cancel [OF jok] have cut: "cancelled_at env j now s = (Inr k, t)"
      by (simp add: finish_immediate_def)
    note st = completion_waiting [OF jok False]
    have "journal_step env s t" using journal.cancelled_at_step [OF look snd st, of now] cut by simp
    with ok cancelled_at_stored [OF look snd st cut] show ?thesis by (simp add: journal_step_def)
  qed
  then have k: "look_job t (j_id k) = Some k" "store_ok env t" "completion_of k = None" "j_id k = j_id j"
      "ctl_commands (control_of k) = ctl_commands (control_of j)" by blast+
  from finish_restart_concludes [OF k(2,1,3) fr] out k pay show ?thesis by auto
qed

text \<open>What the gate of a new request asks of the stored job.\<close>

definition seen_producer :: "(job \<Rightarrow> json) \<Rightarrow> job \<Rightarrow> json" where
  "seen_producer producer j = (if active_status (j_status j) then JNull else producer j)"

definition admissible ::
  "sched_env \<Rightarrow> (job \<Rightarrow> json) \<Rightarrow> job \<Rightarrow> control_action \<Rightarrow> string \<Rightarrow> checkpoint option \<Rightarrow> instant \<Rightarrow> bool" where
  "admissible env producer j a expected cp now \<longleftrightarrow>
     revision env j (seen_producer producer j) = expected
   \<and> a \<in> set (cap_actions (capabilities env j (seen_producer producer j) now))
   \<and> (cp = None \<or> cp = Some (j_checkpoint j))"

abbreviation recorded :: "sched_env \<Rightarrow> job \<Rightarrow> string \<Rightarrow> command option" where
  "recorded env j request \<equiv>
     find (\<lambda>c. cmd_request c = request_digest env request) (ctl_commands (control_of j))"

lemma request_control_at:
  assumes "sha256_text expected" and "1 \<le> length request" and "length request \<le> 200"
    and "found_job env i (s\<lparr>st_present := True\<rparr>) = (Inr j, s\<lparr>st_present := True\<rparr>)"
  shows "recorded env j request = Some c \<Longrightarrow> request_control env producer i a expected request cp now s =
      replay_request env j c (payload_digest env i a expected cp) now (s\<lparr>st_present := True\<rparr>)"
    and "recorded env j request = None \<Longrightarrow> admissible env producer j a expected cp now \<Longrightarrow>
      request_control env producer i a expected request cp now s =
      admit_request env j a (request_digest env request) (payload_digest env i a expected cp) expected
        (seen_producer producer j) now (s\<lparr>st_present := True\<rparr>)"
    and "recorded env j request = None \<Longrightarrow> \<not> admissible env producer j a expected cp now \<Longrightarrow>
      \<exists>m. request_control env producer i a expected request cp now s =
        (Inl (Conflict_error m), s\<lparr>st_present := True\<rparr>)"
proof -
  let ?t = "s\<lparr>st_present := True\<rparr>"
  have at: "request_control env producer i a expected request cp now s =
      (case recorded env j request of
         Some c \<Rightarrow> replay_request env j c (payload_digest env i a expected cp) now
       | None \<Rightarrow> let view = capabilities env j (seen_producer producer j) now in
           seqA (require (cap_revision view = expected) (Conflict_error ''job control preview is stale''))
             (seqA (require (a \<in> set (cap_actions view)) (Conflict_error (case map_of (cap_unavailable view) a of
                                           None \<Rightarrow> [] | Some reason \<Rightarrow> reason)))
             (seqA (require (cp = None \<or> cp = Some (j_checkpoint j)) (Conflict_error ''job checkpoint changed''))
               (admit_request env j a (request_digest env request) (payload_digest env i a expected cp) expected
                  (seen_producer producer j) now)))) ?t"
    unfolding request_control_def Let_def seen_producer_def hold_bind
    using assms by (simp add: hold_bind)
  have rv: "cap_revision (capabilities env j x now) = revision env j x" for x by (simp add: capabilities_def)
  show "recorded env j request = Some c \<Longrightarrow> request_control env producer i a expected request cp now s =
      replay_request env j c (payload_digest env i a expected cp) now ?t"
    by (simp add: at)
  show "recorded env j request = None \<Longrightarrow> admissible env producer j a expected cp now \<Longrightarrow>
      request_control env producer i a expected request cp now s =
      admit_request env j a (request_digest env request) (payload_digest env i a expected cp) expected
        (seen_producer producer j) now ?t"
    by (simp add: at admissible_def rv)
  show "recorded env j request = None \<Longrightarrow> \<not> admissible env producer j a expected cp now \<Longrightarrow>
      \<exists>m. request_control env producer i a expected request cp now s = (Inl (Conflict_error m), ?t)"
    by (cases "revision env j (seen_producer producer j) = expected";
        cases "a \<in> set (cap_actions (capabilities env j (seen_producer producer j) now))")
       (simp_all add: at admissible_def rv)
qed

lemma request_control_entry:
  assumes run: "request_control env producer i a expected request cp now s = (Inr out, s')"
  obtains j where "sha256_text expected" and "1 \<le> length request" and "length request \<le> 200"
    and "found_job env i (s\<lparr>st_present := True\<rparr>) = (Inr j, s\<lparr>st_present := True\<rparr>)"
    and "recorded env j request \<noteq> None \<or> admissible env producer j a expected cp now"
proof -
  from run have head: "sha256_text expected" "1 \<le> length request" "length request \<le> 200"
    by (auto simp: request_control_def act_results)
  from run obtain j where j: "found_job env i (s\<lparr>st_present := True\<rparr>) = (Inr j, s\<lparr>st_present := True\<rparr>)"
    by (auto simp: request_control_def Let_def act_results hold_def found_job_result)
  show thesis
  proof (rule that [OF head j], rule ccontr)
    assume "\<not> (recorded env j request \<noteq> None \<or> admissible env producer j a expected cp now)"
    with request_control_at(3) [OF head j] run show False by fastforce
  qed
qed

lemma find_append_Some: "find P xs = None \<Longrightarrow> P y \<Longrightarrow> find P (xs @ [y]) = Some y"
  by (induction xs) (auto split: if_splits)

text \<open>
  C33: a control request is carried out at most once. When a request has returned, repeating it
  (the same job, action, revision, request id and checkpoint) at any later instant, whatever the
  producer then says, returns the same job, receipt and successor, marked as replayed, and changes
  nothing.
\<close>

theorem request_replays:
  assumes ok: "store_ok env s"
    and run: "request_control env producer i a expected request cp now s = (Inr out, s')"
  shows "request_control env producer' i a expected request cp now' s' = (Inr (out\<lparr>out_replayed := True\<rparr>), s')"
proof -
  let ?t = "s\<lparr>st_present := True\<rparr>" and ?rd = "request_digest env request"
  let ?pay = "payload_digest env i a expected cp"
  from request_control_entry [OF run] obtain j where head: "sha256_text expected" "1 \<le> length request"
      "length request \<le> 200" and j: "found_job env i ?t = (Inr j, ?t)"
    and gate: "recorded env j request \<noteq> None \<or> admissible env producer j a expected cp now" .
  note at = request_control_at [OF head j]
  have okt: "store_ok env ?t" using ok by simp
  with j have id: "j_id j = i" "job_id_ok i" and look: "look_job ?t (j_id j) = Some j"
    using store_ok_job [OF okt] by (auto simp: found_job_result)
  have main: "concluded env s' (out_job out) (out_successor out) \<and> j_id (out_job out) = i
      \<and> cmd_payload (out_receipt out) = ?pay
      \<and> recorded env (out_job out) request = Some (out_receipt out)"
  proof (cases "recorded env j request")
    case (Some c)
    with at(1) run have "replay_request env j c ?pay now ?t = (Inr out, s')" by simp
    from replay_request_concludes [OF okt look this] Some id show ?thesis by simp
  next
    case None
    with gate have ad: "admissible env producer j a expected cp now" by simp
    with at(2) None run have run': "admit_request env j a ?rd ?pay expected (seen_producer producer j) now ?t = (Inr out, s')"
      by simp
    from ad have "a \<in> set (cap_actions (capabilities env j (seen_producer producer j) now))"
      by (simp add: admissible_def)
    from admit_request_concludes [OF okt look allowed_action(1,3,4) [OF this] run'] id None
    show ?thesis by (auto simp: find_append_Some recorded_command_def)
  qed
  have "stays_present env ?t (snd (request_control env producer i a expected request cp now ?t))"
    by (rule presence.request_control_step)
  moreover have "request_control env producer i a expected request cp now ?t = (Inr out, s')"
    unfolding run [symmetric] request_control_def Let_def hold_bind using head by (simp add: hold_bind)
  ultimately have "stays_present env ?t s'" by simp
  with okt have "st_present s'" by (simp add: stays_present_def)
  then have p: "s'\<lparr>st_present := True\<rparr> = s'" by simp
  from main have "found_job env i s' = (Inr (out_job out), s')"
    using id by (auto simp: found_job_result concluded_def job_sound_def)
  moreover from main have "finish_immediate env (out_job out) now' s' = (Inr (out_job out), s')"
    "finish_restart env (out_job out) now' s' = (Inr (out_job out, out_successor out), s')"
    using concluded_immediate concluded_restart by blast+
  ultimately show ?thesis
    using head main p
    by (simp add: request_control_def hold_bind Let_def replay_request_def)
qed

section \<open>The gate and the effect of a request\<close>

text \<open>The status that a command leaves, and the successor that a restart leaves.\<close>

definition commanded_to :: "job \<Rightarrow> control_action \<Rightarrow> job_status" where
  "commanded_to j a = (case a of
     Act_pause \<Rightarrow> if j_status j = Running then Pausing else Paused
   | Act_cancel \<Rightarrow> if active_status (j_status j) then Cancelling else Cancelled
   | Act_resume \<Rightarrow> Queued
   | Act_retry \<Rightarrow> Queued
   | Act_restart \<Rightarrow> if j_status j = Paused then Cancelled else j_status j)"

definition successor_of :: "sched_env \<Rightarrow> store \<Rightarrow> store \<Rightarrow> job \<Rightarrow> string \<Rightarrow> json \<Rightarrow> instant \<Rightarrow> job \<Rightarrow> bool" where
  "successor_of env s s' j rd producer now k \<longleftrightarrow>
     look_job s' (j_id k) = Some k \<and> parent_of k = Some (j_id j)
   \<and> (\<exists>p. look_policy s (j_policy_id j) = Some p \<and> p_scope p = j_scope j \<and> p_kind p = j_kind j
        \<and> same_lineage k (restart_child env (promote j) p rd producer now))"

lemma command_base_restart: "command_base j Act_restart = promote j"
  by (simp add: command_base_def)

lemma child_for_restart:
  assumes ok: "store_ok env s" and run: "child_for env (promote j) Act_restart rd producer now s = (Inr (Some k), s)"
  shows "\<exists>p. look_policy s (j_policy_id j) = Some p \<and> p_scope p = j_scope j \<and> p_kind p = j_kind j
     \<and> k = restart_child env (promote j) p rd producer now"
proof -
  from run obtain p where g: "get_policy env (j_policy_id j) s = (Inr (Some p), s)"
    and p: "p_scope p = j_scope j" "p_kind p = j_kind j" "k = restart_child env (promote j) p rd producer now"
    by (auto simp: child_for_def act_results dest: get_policy_state split: option.splits)
  from g obtain q where q: "look_policy s (j_policy_id j) = Some q" "validate_policy_record env q = Inr p"
    by (auto simp: get_policy_def split: if_splits option.splits sum.splits)
  with store_ok_policy [OF ok q(1)] p show ?thesis by (auto simp: policy_ok_def)
qed

text \<open>
  C18: a request passes its gate exactly. A request that the job has not recorded yet and whose
  gate is closed (another revision, an action that is not offered, another checkpoint) is refused
  as a conflict and changes no record. One that returns has passed the gate and is recorded as the
  last command of the job, which is left in the status that the action leads to; a restart, and
  nothing else, yields a successor, the stored child of the job under the present policy.
\<close>

theorem request_passes_its_gate:
  assumes ok: "store_ok env s" and look: "look_job s i = Some j" and args: "sha256_text expected"
      "1 \<le> length request" "length request \<le> 200" and new: "recorded env j request = None"
    and run: "request_control env producer i a expected request cp now s = (x, s')"
  shows "if admissible env producer j a expected cp now
     then \<forall>out. x = Inr out \<longrightarrow> look_job s' i = Some (out_job out) \<and> \<not> out_replayed out
       \<and> ctl_commands (control_of (out_job out)) = ctl_commands (control_of j) @ [out_receipt out]
       \<and> j_status (out_job out) = commanded_to j a
       \<and> (case out_successor out of None \<Rightarrow> a \<noteq> Act_restart
          | Some k \<Rightarrow> a = Act_restart \<and> successor_of env s s' j (request_digest env request) (seen_producer producer j) now k)
     else (\<exists>m. x = Inl (Conflict_error m)) \<and> st_jobs s' = st_jobs s \<and> st_receipts s' = st_receipts s
       \<and> st_policies s' = st_policies s"
proof -
  let ?t = "s\<lparr>st_present := True\<rparr>" and ?rd = "request_digest env request"
  have okt: "store_ok env ?t" and lookt: "look_job ?t i = Some j" using ok look by simp_all
  have found: "found_job env i ?t = (Inr j, ?t)" by (rule found_stored [OF okt lookt]) simp
  note at = request_control_at [OF args found]
  have id: "j_id j = i" using store_ok_job [OF ok look] by simp
  show ?thesis
  proof (cases "admissible env producer j a expected cp now")
    case False
    with at(3) [OF new] run show ?thesis by fastforce
  next
    case True
    have effect: "look_job s' i = Some (out_job out) \<and> \<not> out_replayed out
       \<and> ctl_commands (control_of (out_job out)) = ctl_commands (control_of j) @ [out_receipt out]
       \<and> j_status (out_job out) = commanded_to j a
       \<and> (case out_successor out of None \<Rightarrow> a \<noteq> Act_restart
          | Some k \<Rightarrow> a = Act_restart \<and> successor_of env s s' j ?rd (seen_producer producer j) now k)"
      if x: "x = Inr out" for out
    proof -
      let ?pr = "seen_producer producer j"
      from run x at(2) [OF new True] have run': "admit_request env j a ?rd (payload_digest env i a expected cp)
          expected ?pr now ?t = (Inr out, s')" by simp
      from True have "a \<in> set (cap_actions (capabilities env j ?pr now))" by (simp add: admissible_def)
      note allowed = allowed_action(1,3,4) [OF this]
      from lookt id have "look_job ?t (j_id j) = Some j" by simp
      from admit_request_concludes [OF okt this allowed run'] obtain child
        where done': "concluded env s' (out_job out) (out_successor out)" "j_id (out_job out) = j_id j"
          "\<not> out_replayed out"
          "j_status (out_job out) = (if child \<noteq> None \<and> target_status j a = Paused then Cancelled else target_status j a)"
          "restart_of (out_job out) = map_option (Pair ?rd) child"
          "ctl_commands (control_of (out_job out)) = ctl_commands (control_of j) @ [out_receipt out]"
          and ch: "child_for env (command_base j a) a ?rd ?pr now ?t = (Inr child, ?t)" by blast
      from child_for_result [OF ch] have link: "a = Act_restart \<longleftrightarrow> child \<noteq> None" by simp
      have st: "j_status (out_job out) = commanded_to j a"
        using done'(4) link by (cases a) (auto simp: commanded_to_def target_status_def)
      show ?thesis
      proof (cases child)
        case None
        with done' link st id show ?thesis by (simp add: concluded_def)
      next
        case (Some c)
        with link have a: "a = Act_restart" by simp
        from ch have "child_for env (promote j) Act_restart ?rd ?pr now ?t = (Inr (Some c), ?t)"
          using a Some command_base_restart by metis
        from child_for_restart [OF okt this] obtain p where p: "look_policy s (j_policy_id j) = Some p"
          "p_scope p = j_scope j" "p_kind p = j_kind j" "c = restart_child env (promote j) p ?rd ?pr now" by auto
        from done'(1,5) Some obtain k where k: "out_successor out = Some k"
          "get_job env (j_id c) s' = (Inr (Some k), s')" "validate_restart_lineage (Some (out_job out)) k = Inr ()"
          by (auto simp: concluded_def)
        from k(3) done'(2,5) Some have lin: "parent_of k = Some (j_id j)" "same_lineage k c"
          by (auto simp: validate_restart_lineage_def split: if_splits)
        from k(2) lin(2) have "look_job s' (j_id k) = Some k" by (simp add: get_job_some same_lineage_def)
        with k(1) lin p done' st id a show ?thesis by (auto simp: concluded_def successor_of_def)
      qed
    qed
    with True show ?thesis by simp
  qed
qed

section \<open>The cooperative boundary\<close>

lemma finish_locked_leaves:
  assumes "finish_locked env j st now p cls code net mut s = (Inr k, s')"
  shows "look_job s' (j_id j) = Some k \<and> j_status k = st \<and> j_lease k = None
     \<and> j_control k = map_option (\<lambda>c. c\<lparr>ctl_pending := None, ctl_completion := None\<rparr>) (j_control j)"
proof (cases rule: finish_locked_cases [of env j st now p cls code net mut s])
  case (refused e)
  with assms show ?thesis by simp
next
  case attempted
  with assms obtain r t where "write_job env (finished_job j st now p
      (close_attempt (finish_outcome st) now cls code (j_attempts j)) r) t = (Inr k, s')"
    by (auto simp: bindA_result)
  then show ?thesis by (auto simp: write_job_result job_dir.look_put finished_job_def clear_intents_def)
qed

text \<open>The control that a boundary starts from: the network use and the observation are noted first.\<close>

definition noted :: "job \<Rightarrow> sample option \<Rightarrow> bool \<Rightarrow> instant \<Rightarrow> job_control" where
  "noted j obs network now =
     (let c = (control_of j)\<lparr>ctl_network_used := ctl_network_used (control_of j) \<or> network\<rparr>
      in case obs of None \<Rightarrow> c | Some b \<Rightarrow> observed c (promote j) b now)"

lemma noted_fields [simp]:
  "ctl_pending (noted j obs network now) = ctl_pending (control_of j)"
  "ctl_commands (noted j obs network now) = ctl_commands (control_of j)"
  "ctl_commit_started (noted j obs network now) = ctl_commit_started (control_of j)"
  "ctl_restart (noted j obs network now) = ctl_restart (control_of j)"
  "ctl_revision (noted j obs network now) = ctl_revision (control_of j)"
  by (simp_all add: noted_def observed_def Let_def split: option.split)

lemma boundary_owned_noted:
  assumes "job_ok env j"
  shows "boundary_owned env j commit obs network now =
    (let c = noted j obs network now in
     case ctl_pending c of
       Some intent \<Rightarrow>
         bindA (if pend_action intent = Act_cancel
           then finish_locked env ((promote j)\<lparr>j_control := Some (c\<lparr>ctl_pending := None, ctl_revision := ctl_revision c + 1\<rparr>)\<rparr>)
                  Cancelled now (j_progress j) (Some Cancelled_class) (Some ''cancelled_by_user'') False False
           else write_job env (paused_job ((promote j)\<lparr>j_control :=
                  Some (c\<lparr>ctl_pending := None, ctl_revision := ctl_revision c + 1\<rparr>)\<rparr>) now)) (\<lambda>k. ret (Stops k))
     | None \<Rightarrow>
         if commit \<and> \<not> ctl_commit_started c
         then bindA (write_job env ((promote j)\<lparr>j_control := Some (c\<lparr>ctl_commit_started := True,
                 ctl_revision := ctl_revision c + 1\<rparr>)\<rparr>)) (\<lambda>_. ret Continues)
         else if obs \<noteq> None \<or> (network \<and> \<not> ctl_network_used (control_of j))
         then bindA (write_job env ((promote j)\<lparr>j_control := Some c\<rparr>)) (\<lambda>_. ret Continues)
         else ret Continues)"
  unfolding boundary_owned_def Let_def control_of_promote [OF assms] noted_def [unfolded Let_def, symmetric]
    promote_fields by (rule refl)

definition sealed :: "job \<Rightarrow> bool" where
  "sealed j \<longleftrightarrow> (\<forall>env producer a expected cp now. \<not> admissible env producer j a expected cp now)"

lemma committing_seals: "committing j \<Longrightarrow> sealed j"
  using allowed_action(2) by (fastforce simp: sealed_def admissible_def)

text \<open>
  C17: the boundary of a leased worker either stops it or lets it go on. It stops the worker
  exactly when a pause or a cancellation is pending: the stored job is then paused or cancelled,
  without lease and without intent. Otherwise the job stays leased in its status with the same
  commands, and once a commit was announced no new command passes the gate of that job.
\<close>

theorem boundary_stops_or_seals:
  assumes ok: "store_ok env s" and look: "look_job s i = Some j" and lease: "holds_lease j token now"
    and run: "boundary env i token commit obs network now s = (Inr b, s')"
  shows "\<exists>k. look_job s' i = Some k \<and> (case ctl_pending (control_of j) of
     Some intent \<Rightarrow> b = Stops k \<and> j_lease k = None \<and> ctl_pending (control_of k) = None
       \<and> j_status k = (if pend_action intent = Act_cancel then Cancelled else Paused)
   | None \<Rightarrow> b = Continues \<and> j_status k = j_status j \<and> j_lease k = j_lease j
       \<and> ctl_commands (control_of k) = ctl_commands (control_of j) \<and> (commit \<longrightarrow> sealed k))"
proof -
  let ?t = "s\<lparr>st_present := True\<rparr>" and ?c = "noted j obs network now"
  have okt: "store_ok env ?t" and lookt: "look_job ?t i = Some j" using ok look by simp_all
  have id: "j_id j = i" and jok: "job_ok env j" using store_ok_job [OF ok look] by (simp_all add: job_sound_def)
  have act: "active_status (j_status j)" using lease by (auto simp: holds_lease_def)
  have run': "boundary_owned env j commit obs network now ?t = (Inr b, s')"
    using run found_stored [OF okt lookt] owned_holds [OF lease] by (simp add: boundary_def hold_bind)
  show ?thesis
  proof (cases "ctl_pending (control_of j)")
    case (Some intent)
    let ?j = "(promote j)\<lparr>j_control := Some (?c\<lparr>ctl_pending := None, ctl_revision := ctl_revision ?c + 1\<rparr>)\<rparr>"
    from run' Some obtain k where b: "b = Stops k" and k: "(if pend_action intent = Act_cancel
        then finish_locked env ?j Cancelled now (j_progress j) (Some Cancelled_class) (Some ''cancelled_by_user'') False False
        else write_job env (paused_job ?j now)) ?t = (Inr k, s')"
      by (auto simp: boundary_owned_noted [OF jok] Let_def bindA_result)
    show ?thesis
    proof (cases "pend_action intent = Act_cancel")
      case True
      with k finish_locked_leaves [of env ?j] id b Some show ?thesis by (fastforce simp: control_of_def)
    next
      case False
      with k id b Some show ?thesis
        by (auto simp: write_job_result job_dir.look_put paused_job_def control_of_def)
    qed
  next
    case None
    have stored: "look_job s' i = Some ((promote j)\<lparr>j_control := Some d\<rparr>)"
      if "write_job env ((promote j)\<lparr>j_control := Some d\<rparr>) ?t = (Inr x, s')" for d x
      using that id by (simp add: write_job_result job_dir.look_put)
    consider (seal) "commit" "\<not> ctl_commit_started (control_of j)" "b = Continues"
        "look_job s' i = Some ((promote j)\<lparr>j_control := Some (?c\<lparr>ctl_commit_started := True, ctl_revision := ctl_revision ?c + 1\<rparr>)\<rparr>)"
      | (observe) "commit \<longrightarrow> ctl_commit_started (control_of j)" "b = Continues"
          "look_job s' i = Some ((promote j)\<lparr>j_control := Some ?c\<rparr>)"
      | (idle) "commit \<longrightarrow> ctl_commit_started (control_of j)" "b = Continues" "look_job s' i = Some j"
      using run' None look by (auto simp: boundary_owned_noted [OF jok] Let_def bindA_result stored split: if_splits)
    then show ?thesis
      using None act by cases (auto simp: control_of_def committing_def intro!: committing_seals)
  qed
qed

section \<open>A concrete request\<close>

definition lab_digest :: string where "lab_digest = replicate 64 (CHR ''c'')"
definition lab_revision :: string where "lab_revision = replicate 64 (CHR ''d'')"
definition lab_sha_other :: string where "lab_sha_other = replicate 64 (CHR ''a'')"
definition lab_request :: string where "lab_request = ''pause-1''"

definition lab_control :: job_control where
  "lab_control = command_control lab_job Act_pause lab_digest lab_digest lab_revision (3 * SECOND) None"

definition lab_pausing :: job where "lab_pausing = commanded_job lab_job Act_pause lab_control"

lemma lab_digests: "request_digest lab_env x = lab_digest" "payload_digest lab_env i a e cp = lab_digest"
  "revision lab_env lab_job v = lab_revision"
  using lab_lease(2)
  by (simp_all add: request_digest_def payload_digest_def revision_def revision_payload_def lab_env_def lab_digest_def
      lab_revision_def Let_def)

lemma lab_pausing_facts: "j_control lab_pausing = Some lab_control" "ctl_restart lab_control = None"
  "ctl_observation lab_control = None" "restart_of lab_pausing = None" "j_id lab_pausing = lab_job_id"
  by code_simp+

lemma lab_pausing_ok: "job_ok lab_env lab_pausing"
proof (rule lab_valid [where c = lab_control])
  show "first_failure (job_core_ladder lab_pausing) = None" by code_simp
  show "first_failure (job_tail_ladder lab_env lab_pausing) = None" by code_simp
  have "first_failure (control_head_ladder lab_pausing lab_control) = None" by code_simp
  then show "first_failure (control_head_ladder lab_pausing lab_control) = None
      \<and> ctl_restart lab_control = None \<and> ctl_observation lab_control = None"
    by (simp only: lab_pausing_facts simp_thms)
qed (simp add: lab_pausing_facts)

lemma lab_open: "recorded lab_env lab_job lab_request = None"
  "Act_pause \<in> set (cap_actions (capabilities lab_env lab_job JNull (3 * SECOND)))"
proof -
  have "fst (action_state lab_job JNull (3 * SECOND) Act_pause)" by code_simp
  then show "Act_pause \<in> set (cap_actions (capabilities lab_env lab_job JNull (3 * SECOND)))"
    by (simp add: capabilities_def CONTROL_ACTIONS_def)
qed (simp add: control_of_def lab_job_control)

lemma lab_sha: "sha256_text lab_revision" "1 \<le> length lab_request" "length lab_request \<le> 200"
  by code_simp+

lemma lab_found: "found_job lab_env lab_job_id (lab_claimed\<lparr>st_present := True\<rparr>) = (Inr lab_job, lab_claimed\<lparr>st_present := True\<rparr>)"
  by (simp add: found_job_result)

lemma lab_admissible: "admissible lab_env (\<lambda>_. JNull) lab_job Act_pause lab_revision None (3 * SECOND)"
  using lab_open(2) lab_lease(1) by (simp add: admissible_def seen_producer_def lab_digests)

lemma lab_requested: "request_control lab_env (\<lambda>_. JNull) lab_job_id Act_pause lab_revision lab_request None
     (3 * SECOND) lab_claimed =
  (Inr \<lparr>out_job = lab_pausing,
        out_receipt = recorded_command Act_pause lab_digest lab_digest lab_revision Pausing (3 * SECOND) None,
        out_replayed = False, out_successor = None\<rparr>, put_job lab_pausing lab_claimed)"
proof -
  have p: "lab_claimed\<lparr>st_present := True\<rparr> = lab_claimed" by (simp add: lab_claimed_def lab_created_def)
  have t: "target_status lab_job Act_pause = Pausing" using lab_lease(2) by (simp add: target_status_def)
  have w: "write_job lab_env lab_pausing lab_claimed = (Inr lab_pausing, put_job lab_pausing lab_claimed)"
    using lab_pausing_ok by (simp add: write_job_result)
  have "request_control lab_env (\<lambda>_. JNull) lab_job_id Act_pause lab_revision lab_request None (3 * SECOND) lab_claimed
      = admit_request lab_env lab_job Act_pause lab_digest lab_digest lab_revision JNull (3 * SECOND) lab_claimed"
    using request_control_at(2) [OF lab_sha lab_found lab_open(1) lab_admissible] lab_lease(1)
    by (simp add: lab_digests p seen_producer_def)
  also have "\<dots> = (Inr \<lparr>out_job = lab_pausing,
        out_receipt = recorded_command Act_pause lab_digest lab_digest lab_revision Pausing (3 * SECOND) None,
        out_replayed = False, out_successor = None\<rparr>, put_job lab_pausing lab_claimed)"
    unfolding admit_request_commanded [OF lab_job_ok]
    by (simp add: child_for_def t w lab_control_def [symmetric] lab_pausing_def [symmetric] finish_restart_def
        lab_pausing_facts)
  finally show ?thesis .
qed

theorem request_replays_witness:
  "\<exists>out s'. request_control lab_env (\<lambda>_. JNull) lab_job_id Act_pause lab_revision lab_request None (3 * SECOND) lab_claimed
       = (Inr out, s') \<and> j_status (out_job out) = Pausing \<and> \<not> out_replayed out
     \<and> request_control lab_env (\<lambda>_. JNull) lab_job_id Act_pause lab_revision lab_request None (9 * SECOND) s'
       = (Inr (out\<lparr>out_replayed := True\<rparr>), s')"
proof -
  have "j_status lab_pausing = Pausing" by code_simp
  then show ?thesis
    using lab_requested request_replays [OF lab_stores_ok(1) lab_requested, of "\<lambda>_. JNull" "9 * SECOND"] by simp
qed

theorem request_passes_its_gate_witness:
  "(\<exists>out s'. request_control lab_env (\<lambda>_. JNull) lab_job_id Act_pause lab_revision lab_request None (3 * SECOND) lab_claimed
       = (Inr out, s') \<and> look_job s' lab_job_id = Some (out_job out) \<and> j_status (out_job out) = Pausing)
 \<and> (\<exists>m s'. request_control lab_env (\<lambda>_. JNull) lab_job_id Act_pause lab_sha_other lab_request None (3 * SECOND) lab_claimed
       = (Inl (Conflict_error m), s') \<and> st_jobs s' = st_jobs lab_claimed)"
proof -
  have st: "commanded_to lab_job Act_pause = Pausing" using lab_lease(2) by (simp add: commanded_to_def)
  have o: "sha256_text lab_sha_other" "lab_sha_other \<noteq> lab_revision" by code_simp+
  have n: "\<not> admissible lab_env (\<lambda>_. JNull) lab_job Act_pause lab_sha_other None (3 * SECOND)"
    using o(2) by (simp add: admissible_def lab_digests)
  obtain x s' where r: "request_control lab_env (\<lambda>_. JNull) lab_job_id Act_pause lab_sha_other lab_request None
      (3 * SECOND) lab_claimed = (x, s')" by fastforce
  from request_passes_its_gate [OF lab_stores_ok(1) lab_look(3) o(1) lab_sha(2,3) lab_open(1) r] n
    request_passes_its_gate [OF lab_stores_ok(1) lab_look(3) lab_sha lab_open(1) lab_requested] lab_admissible st r
  show ?thesis by (simp add: lab_requested)
qed

text \<open>A worker that announces its commit goes on; the one that was asked to pause stops.\<close>

definition lab_seal :: job_control where
  "lab_seal = (initial_control None)\<lparr>ctl_commit_started := True, ctl_revision := 1\<rparr>"

definition lab_sealed :: job where "lab_sealed = lab_job\<lparr>j_control := Some lab_seal\<rparr>"

definition lab_paused :: job where
  "lab_paused = paused_job (lab_pausing\<lparr>j_control :=
     Some (lab_control\<lparr>ctl_pending := None, ctl_revision := ctl_revision lab_control + 1\<rparr>)\<rparr>) (4 * SECOND)"

lemma lab_sealed_ok: "job_ok lab_env lab_sealed"
proof (rule lab_valid [where c = lab_seal])
  show "first_failure (job_core_ladder lab_sealed) = None" by code_simp
  show "first_failure (job_tail_ladder lab_env lab_sealed) = None" by code_simp
  have "first_failure (control_head_ladder lab_sealed lab_seal) = None"
    "ctl_restart lab_seal = None" "ctl_observation lab_seal = None" by code_simp+
  then show "first_failure (control_head_ladder lab_sealed lab_seal) = None
      \<and> ctl_restart lab_seal = None \<and> ctl_observation lab_seal = None" by simp
qed (simp add: lab_sealed_def)

lemma lab_paused_ok: "job_ok lab_env lab_paused"
proof (rule lab_valid [where c = "lab_control\<lparr>ctl_pending := None, ctl_revision := ctl_revision lab_control + 1\<rparr>"])
  show "first_failure (job_core_ladder lab_paused) = None" by code_simp
  show "first_failure (job_tail_ladder lab_env lab_paused) = None" by code_simp
  have "first_failure (control_head_ladder lab_paused
      (lab_control\<lparr>ctl_pending := None, ctl_revision := ctl_revision lab_control + 1\<rparr>)) = None" by code_simp
  then show "first_failure (control_head_ladder lab_paused
      (lab_control\<lparr>ctl_pending := None, ctl_revision := ctl_revision lab_control + 1\<rparr>)) = None
      \<and> ctl_restart (lab_control\<lparr>ctl_pending := None, ctl_revision := ctl_revision lab_control + 1\<rparr>) = None
      \<and> ctl_observation (lab_control\<lparr>ctl_pending := None, ctl_revision := ctl_revision lab_control + 1\<rparr>) = None"
    by (simp add: lab_pausing_facts)
qed (simp add: lab_paused_def paused_job_def)

lemma lab_boundary_facts: "promote lab_job = lab_job" "promote lab_pausing = lab_pausing"
  "j_id lab_sealed = lab_job_id" "j_id lab_paused = lab_job_id"
  "ctl_pending lab_control = Some \<lparr>pend_action = Act_pause, pend_request = lab_digest, pend_attempt = 1\<rparr>"
  "j_lease lab_pausing = j_lease lab_job" "active_status (j_status lab_pausing)" "j_status lab_pausing = Pausing"
  by code_simp+

lemma lab_leases: "holds_lease lab_job lab_token (4 * SECOND)" "holds_lease lab_pausing lab_token (4 * SECOND)"
  using lab_boundary_facts lab_lease by (simp_all add: holds_lease_def SECOND_def)

lemma lab_seals: "boundary lab_env lab_job_id lab_token True None False (4 * SECOND) lab_claimed
    = (Inr Continues, put_job lab_sealed lab_claimed)"
proof -
  have p: "lab_claimed\<lparr>st_present := True\<rparr> = lab_claimed" by (simp add: lab_claimed_def lab_created_def)
  have "write_job lab_env lab_sealed lab_claimed = (Inr lab_sealed, put_job lab_sealed lab_claimed)"
    using lab_sealed_ok by (simp add: write_job_result)
  then show ?thesis
    using lab_found owned_holds [OF lab_leases(1)]
    by (simp add: boundary_def hold_bind p boundary_owned_noted Let_def noted_def control_of_def lab_job_control
        lab_boundary_facts(1) lab_sealed_def lab_seal_def)
qed

lemma lab_stops: "boundary lab_env lab_job_id lab_token False None False (4 * SECOND) (put_job lab_pausing lab_claimed)
    = (Inr (Stops lab_paused), put_job lab_paused (put_job lab_pausing lab_claimed))"
proof -
  let ?s = "put_job lab_pausing lab_claimed"
  have p: "?s\<lparr>st_present := True\<rparr> = ?s" by (simp add: lab_claimed_def lab_created_def put_job_def)
  have f: "found_job lab_env lab_job_id ?s = (Inr lab_pausing, ?s)"
    using lab_pausing_ok by (simp add: found_job_result job_dir.look_put lab_pausing_facts)
  have n: "noted lab_pausing None False t = lab_control" for t
    by (simp add: noted_def control_of_def lab_pausing_facts)
  have "write_job lab_env lab_paused ?s = (Inr lab_paused, put_job lab_paused ?s)"
    using lab_paused_ok by (simp add: write_job_result)
  then show ?thesis
    using f owned_holds [OF lab_leases(2)]
    by (simp add: boundary_def hold_bind p boundary_owned_noted lab_pausing_ok Let_def n
        lab_boundary_facts(2,5) lab_paused_def)
qed

theorem boundary_stops_or_seals_witness:
  "(\<exists>s'. boundary lab_env lab_job_id lab_token True None False (4 * SECOND) lab_claimed = (Inr Continues, s')
     \<and> (\<exists>k. look_job s' lab_job_id = Some k \<and> j_status k = Running \<and> sealed k))
 \<and> (\<exists>k s'. boundary lab_env lab_job_id lab_token False None False (4 * SECOND) (put_job lab_pausing lab_claimed)
       = (Inr (Stops k), s') \<and> look_job s' lab_job_id = Some k \<and> j_status k = Paused \<and> j_lease k = None)"
proof -
  let ?s = "put_job lab_pausing lab_claimed"
  have "journal_step lab_env lab_claimed ?s"
    using journal.request_control_step [of lab_env lab_claimed "\<lambda>_. JNull" lab_job_id Act_pause lab_revision lab_request None
        "3 * SECOND"] by (simp add: lab_requested)
  then have ok: "store_ok lab_env ?s" using lab_stores_ok(1) by (simp add: journal_step_def)
  have look: "look_job ?s lab_job_id = Some lab_pausing" by (simp add: job_dir.look_put lab_pausing_facts)
  have pend: "ctl_pending (control_of lab_job) = None" "ctl_pending (control_of lab_pausing) = ctl_pending lab_control"
    by (simp_all add: control_of_def lab_job_control lab_pausing_facts)
  from boundary_stops_or_seals [OF lab_stores_ok(1) lab_look(3) lab_leases(1) lab_seals] lab_seals lab_lease(2) pend
    boundary_stops_or_seals [OF ok look lab_leases(2) lab_stops] lab_stops lab_boundary_facts(5)
  show ?thesis by auto
qed

end
