(* ===== verification/Scheduler_Coordinator.thy ===== *)
theory Scheduler_Coordinator
  imports Scheduler_System Scheduler_Requests
begin

text \<open>
  The coordinator on top of the journal (core/provelume/scheduler.py, class
  SchedulerCoordinator): what a client is shown before it controls a job, the run of one
  claimed job from its claim to its receipt, and the cycle of a worker. The executor of a job
  kind is an argument: it acts on the store only through the transactions of the journal, and
  what runs beside it (heartbeats, requests) is part of its effect. AI jobs are not modelled.
\<close>

section \<open>Previews\<close>

definition job_capabilities :: "sched_env \<Rightarrow> (job \<Rightarrow> json) \<Rightarrow> string \<Rightarrow> instant \<Rightarrow> capability_view sched_act" where
  "job_capabilities env producer i now =
     bindA (found_job env i) (\<lambda>j.
       ret (capabilities env j (if active_status (j_status j) then JNull else producer j) now))"

record control_preview =
  pv_job_id :: string
  pv_action :: control_action
  pv_revision :: string
  pv_job :: "job_control public_job"
  pv_checkpoint :: checkpoint
  pv_producer_revision :: string
  pv_capabilities :: capability_view
  pv_impact :: string
  pv_reversible :: bool

definition preview_job_control ::
  "sched_env \<Rightarrow> (job \<Rightarrow> json) \<Rightarrow> string \<Rightarrow> control_action \<Rightarrow> instant \<Rightarrow> control_preview sched_act" where
  "preview_job_control env producer i a now =
     bindA (found_job env i) (\<lambda>j.
       let found = (if active_status (j_status j) then JNull else producer j);
           view = capabilities env j found now
       in seqA (require (a \<in> set (cap_actions view))
                  (Conflict_error (case map_of (cap_unavailable view) a of
                                     None \<Rightarrow> ''unsupported_action'' | Some reason \<Rightarrow> reason)))
            (ret \<lparr>pv_job_id = i, pv_action = a, pv_revision = cap_revision view,
                  pv_job = public_job_record j, pv_checkpoint = j_checkpoint j,
                  pv_producer_revision = e_digest env found, pv_capabilities = view,
                  pv_impact = (if a = Act_restart then ''fresh_linked_job''
                               else if active_status (j_status j) then ''stop_at_safe_boundary''
                               else action_name a),
                  pv_reversible = (a = Act_pause)\<rparr>))"

record public_outcome =
  pub_job :: "job_control public_job"
  pub_receipt :: command
  pub_replayed :: bool
  pub_successor :: "job_control public_job option"

definition control_job ::
  "sched_env \<Rightarrow> (job \<Rightarrow> json) \<Rightarrow> string \<Rightarrow> control_action \<Rightarrow> string \<Rightarrow> string \<Rightarrow> checkpoint option
   \<Rightarrow> instant \<Rightarrow> public_outcome sched_act" where
  "control_job env producer i a expected request cp now =
     bindA (get_job env i) (\<lambda>_.
     bindA (request_control env producer i a expected request cp now) (\<lambda>out.
       ret \<lparr>pub_job = public_job_record (out_job out), pub_receipt = out_receipt out,
            pub_replayed = out_replayed out,
            pub_successor = map_option public_job_record (out_successor out)\<rparr>))"

section \<open>The run of one job\<close>

text \<open>
  The clock readings of a run. A run with a given instant reads that instant everywhere and
  sends no heartbeat of its own; a live run reads the clock anew for each transaction.
\<close>

record run_clock =
  t_live :: bool
  t_claim :: instant
  t_prepare :: instant
  t_prepare_beat :: instant
  t_execute :: instant
  t_execute_beat :: instant
  t_end_beat :: instant
  t_commit :: instant
  t_complete :: instant

definition reading :: "run_clock \<Rightarrow> (run_clock \<Rightarrow> instant) \<Rightarrow> instant" where
  "reading T r = (if t_live T then r T else t_claim T)"

record report =
  rep_ok :: bool
  rep_progress :: progress
  rep_class :: error_class
  rep_code :: string
  rep_network :: bool
  rep_mutation :: bool

datatype execution = Reported report | Stopped job

definition merged_progress :: "progress \<Rightarrow> progress \<Rightarrow> progress \<Rightarrow> progress" where
  "merged_progress current started attempt =
     \<lparr>processed = max (processed current) (processed started + processed attempt),
      skipped = max (skipped current) (skipped started + skipped attempt),
      errors = max (errors current) (errors started + errors attempt)\<rparr>"

text \<open>The end of a run: the executor's report is checkpointed and recorded.\<close>

definition conclude_run ::
  "sched_env \<Rightarrow> run_clock \<Rightarrow> int \<Rightarrow> job \<Rightarrow> string \<Rightarrow> report \<Rightarrow> job sched_act" where
  "conclude_run env T seconds j token rep =
     bindA (if t_live T then heartbeat env (j_id j) token seconds (t_end_beat T) else ret j) (\<lambda>_.
     bindA (get_job env (j_id j)) (\<lambda>found.
       case found of
         None \<Rightarrow> raise (Conflict_error ''scheduler job disappeared during execution'')
       | Some current \<Rightarrow>
           let p = merged_progress (j_progress current) (j_progress j) (rep_progress rep);
               completed = (if t_live T then max (t_claim T) (t_complete T) else t_claim T)
           in if rep_ok rep
              then bindA (checkpoint_job env (j_id current) token (c_sequence (j_checkpoint current) + 1)
                            Phase_committed p (reading T t_commit)) (\<lambda>k.
                   succeed env (j_id k) token p (rep_network rep) (rep_mutation rep) completed)
              else fail env (j_id current) token (rep_class rep) (rep_code rep) p
                     (rep_network rep) (rep_mutation rep) completed))"

definition run_claimed ::
  "sched_env \<Rightarrow> (job \<Rightarrow> execution sched_act) \<Rightarrow> run_clock \<Rightarrow> int \<Rightarrow> job \<Rightarrow> string \<Rightarrow> job sched_act" where
  "run_claimed env execute T seconds j token =
     bindA (checkpoint_job env (j_id j) token (c_sequence (j_checkpoint j) + 1) Phase_prepared
              (j_progress j) (reading T t_prepare)) (\<lambda>j1.
     bindA (if t_live T then heartbeat env (j_id j1) token seconds (t_prepare_beat T) else ret j1) (\<lambda>_.
     bindA (checkpoint_job env (j_id j1) token (c_sequence (j_checkpoint j1) + 1) Phase_executing
              (j_progress j1) (reading T t_execute)) (\<lambda>j2.
     bindA (if t_live T then heartbeat env (j_id j2) token seconds (t_execute_beat T) else ret j2) (\<lambda>j3.
     bindA (execute j3) (\<lambda>e. case e of
         Stopped k \<Rightarrow> ret k
       | Reported rep \<Rightarrow> conclude_run env T seconds j3 token rep)))))"

definition run_one_locked ::
  "sched_env \<Rightarrow> (job \<Rightarrow> execution sched_act) \<Rightarrow> string \<Rightarrow> string \<Rightarrow> int \<Rightarrow> run_clock \<Rightarrow> string option
   \<Rightarrow> job option sched_act" where
  "run_one_locked env execute hex worker seconds T only =
     bindA (claim_next env hex worker SCHEDULER_JOB_KINDS only seconds (t_claim T)) (\<lambda>claimed.
       case claimed of
         None \<Rightarrow> ret None
       | Some j \<Rightarrow> bindA (run_claimed env execute T seconds j
                            (case j_lease j of None \<Rightarrow> [] | Some l \<Rightarrow> l_token l)) (\<lambda>k. ret (Some k)))"

definition run_one ::
  "sched_env \<Rightarrow> (job \<Rightarrow> execution sched_act) \<Rightarrow> string \<Rightarrow> string \<Rightarrow> int \<Rightarrow> run_clock \<Rightarrow> string option
   \<Rightarrow> job option sched_act" where
  "run_one env execute hex worker seconds T only =
     bindA (reads st_present) (\<lambda>present.
       if \<not> present then ret None else run_one_locked env execute hex worker seconds T only)"

section \<open>The cycle of a worker\<close>

text \<open>One entry of the list per turn of the loop: the fresh id and the clock of the turn.\<close>

fun cycle_loop ::
  "sched_env \<Rightarrow> (job \<Rightarrow> execution sched_act) \<Rightarrow> string \<Rightarrow> (string \<times> run_clock) list \<Rightarrow> job list sched_act" where
  "cycle_loop env execute worker [] = ret []"
| "cycle_loop env execute worker ((hex, T) # turns) =
     bindA (run_one_locked env execute hex worker DEFAULT_LEASE_SECONDS T None) (\<lambda>result.
       case result of
         None \<Rightarrow> ret []
       | Some k \<Rightarrow> bindA (cycle_loop env execute worker turns) (\<lambda>ks. ret (k # ks)))"

record cycle_report =
  cy_evaluation :: "evaluation \<times> recovery_counts"
  cy_jobs :: "job list"

definition cycle ::
  "sched_env \<Rightarrow> (job \<Rightarrow> execution sched_act) \<Rightarrow> string \<Rightarrow> int \<Rightarrow> (string \<Rightarrow> string) \<Rightarrow> (nat \<Rightarrow> string \<times> run_clock)
   \<Rightarrow> instant \<Rightarrow> cycle_report sched_act" where
  "cycle env execute worker max_jobs fresh turn now =
     seqA (require (\<not> out_of_range max_jobs 1 100)
             (Scheduler_error ''max_jobs must be between 1 and 100''))
     (bindA (reads st_present) (\<lambda>present.
      bindA (evaluate env fresh now) (\<lambda>ev.
      if \<not> present then ret \<lparr>cy_evaluation = ev, cy_jobs = []\<rparr>
      else bindA (cycle_loop env execute worker (map turn [0..<nat max_jobs])) (\<lambda>ks.
             ret \<lparr>cy_evaluation = ev, cy_jobs = ks\<rparr>))))"

section \<open>A run is a history of the journal\<close>

text \<open>An executor acts on the store through the transactions of the journal only.\<close>

definition transacts :: "sched_env \<Rightarrow> 'a sched_act \<Rightarrow> bool" where
  "transacts env m \<longleftrightarrow> (\<forall>s. smooth_history env s (snd (m s)))"

lemma smooth_trans: "smooth_history env t u \<Longrightarrow> smooth_history env s t \<Longrightarrow> smooth_history env s u"
  by (induction rule: smooth_history.induct) (auto intro: smooth_step)

interpretation runs: step_contract "smooth_history env" for env
  by unfold_locales (auto intro: smooth_start smooth_trans)

lemma smooth_one: "sched_step env s t \<Longrightarrow> smooth_history env s t"
  by (rule smooth_step [OF smooth_start])

lemma transacts_obeys: "transacts env m = obeys (smooth_history env) m"
  by (simp add: transacts_def obeys_def)

lemma transacts_basic:
  "transacts env (ret x)" "transacts env (raise e)" "transacts env (get_job env' i)"
  "transacts env (require b e')"
  by (simp_all add: transacts_obeys runs.obeys_ret runs.obeys_raise runs.obeys_query get_job_def
      runs.obeys_require)

lemma transacts_steps:
  "transacts env (claim_next env hex worker kinds only seconds now)"
  "transacts env (heartbeat env i token seconds now)"
  "transacts env (checkpoint_job env i token n phase p now)"
  "transacts env (succeed env i token p net mut now)"
  "transacts env (fail env i token cls code p net mut now)"
  "transacts env (request_control env producer i a expected request cp now)"
  by (auto simp: transacts_def intro: smooth_one sched_step.intros)

lemma transacts_bind: "transacts env m \<Longrightarrow> (\<And>x. transacts env (k x)) \<Longrightarrow> transacts env (bindA m k)"
  by (simp add: transacts_obeys runs.obeys_bind)

lemma transacts_if: "(b \<Longrightarrow> transacts env m) \<Longrightarrow> (\<not> b \<Longrightarrow> transacts env n) \<Longrightarrow> transacts env (if b then m else n)"
  by simp

lemma transacts_conclude: "transacts env (conclude_run env T seconds j token rep)"
  unfolding conclude_run_def Let_def
  by (intro transacts_bind transacts_if) (auto intro!: transacts_bind transacts_basic transacts_steps split: option.split)

lemma transacts_run_claimed:
  assumes "\<And>k. transacts env (execute k)"
  shows "transacts env (run_claimed env execute T seconds j token)"
  unfolding run_claimed_def
  by (intro transacts_bind transacts_if)
     (auto intro!: transacts_basic transacts_steps transacts_conclude assms split: execution.split)

lemma transacts_run_one_locked:
  assumes "\<And>k. transacts env (execute k)"
  shows "transacts env (run_one_locked env execute hex worker seconds T only)"
  unfolding run_one_locked_def
  by (auto intro!: transacts_bind transacts_basic transacts_steps transacts_run_claimed assms split: option.split)

lemma transacts_cycle_loop:
  assumes "\<And>k. transacts env (execute k)"
  shows "transacts env (cycle_loop env execute worker turns)"
proof (induction turns)
  case Nil
  show ?case unfolding cycle_loop.simps by (rule transacts_basic)
next
  case (Cons t turns)
  obtain hex T where t: "t = (hex, T)" by (cases t)
  show ?case
    unfolding t cycle_loop.simps
    by (auto intro!: transacts_bind transacts_basic transacts_run_one_locked assms Cons.IH split: option.split)
qed

lemma transacts_cycle:
  assumes "\<And>k. transacts env (execute k)" and "draws_unused env fresh now s"
  shows "smooth_history env s (snd (cycle env execute worker max_jobs fresh turn now s))"
  unfolding cycle_def
proof (rule runs.step_require, rule runs.step_reads, rule runs.step_bind)
  show "smooth_history env s (snd (evaluate env fresh now s))"
    using assms(2) by (intro smooth_one sched_step.evaluated)
next
  fix ev t
  show "smooth_history env t (snd ((if \<not> st_present s then ret \<lparr>cy_evaluation = ev, cy_jobs = []\<rparr>
      else bindA (cycle_loop env execute worker (map turn [0..<nat max_jobs])) (\<lambda>ks.
             ret \<lparr>cy_evaluation = ev, cy_jobs = ks\<rparr>)) t))"
  proof -
    have "transacts env (bindA (cycle_loop env execute worker (map turn [0..<nat max_jobs])) (\<lambda>ks.
             ret \<lparr>cy_evaluation = ev, cy_jobs = ks\<rparr>))"
      by (intro transacts_bind transacts_cycle_loop transacts_basic assms(1))
    then show ?thesis by (simp add: transacts_def smooth_start)
  qed
qed


section \<open>A run to its end\<close>

lemma claim_next_guards:
  assumes "claim_next env hex worker kinds only seconds now s = (Inr (Some k), s')"
  shows "st_present s \<and> 1 \<le> seconds"
proof (cases "first_failure (worker_ladder worker)")
  case (Some m)
  with assms show ?thesis by (simp add: claim_next_def)
next
  case None
  with assms show ?thesis
    by (cases "out_of_range seconds 1 MAX_LEASE_SECONDS"; cases "st_present s"; cases "kinds = []")
       (auto simp: claim_next_def require_lease_seconds_def out_of_range_def)
qed

lemma claim_next_claimed:
  assumes "claim_next env hex worker kinds only seconds now s = (Inr (Some k), s')"
  shows "\<exists>j. k = claimed_job j hex worker seconds now \<and> look_job s' (j_id k) = Some k \<and> 1 \<le> seconds"
proof -
  from claim_next_guards [OF assms] have sec: "1 \<le> seconds" and "st_present s" by simp_all
  with claim_next_enters [OF assms] obtain t js where "(case sort_key claim_order (filter (claimable kinds only now) js) of
        [] \<Rightarrow> ret None
      | j # _ \<Rightarrow> bindA (claim_job env j hex worker seconds now) (\<lambda>k. ret (Some k))) t = (Inr (Some k), s')"
    by (auto simp: bindA_result)
  then obtain j where "claim_job env j hex worker seconds now t = (Inr k, s')"
    by (auto simp: bindA_result split: list.splits)
  from claim_job_result [OF this] sec show ?thesis by (auto simp: job_dir.look_put)
qed

lemma claimed_lease:
  "1 \<le> seconds \<Longrightarrow> holds_lease (claimed_job j hex worker seconds now) (''lease_'' @ hex) now"
  "j_lease (claimed_job j hex worker seconds now) = Some \<lparr>l_token = ''lease_'' @ hex, l_worker = worker,
     l_acquired_at = now, l_heartbeat_at = now, l_expires_at = now + seconds * SECOND\<rparr>"
  by (simp_all add: claimed_job_def Let_def holds_lease_def active_status_def SECOND_def)

lemma checkpointed_fields [simp]:
  "j_id (checkpointed_job j n ph p now) = j_id j" "j_lease (checkpointed_job j n ph p now) = j_lease j"
  "j_status (checkpointed_job j n ph p now) = j_status j" "j_progress (checkpointed_job j n ph p now) = p"
  "j_attempts (checkpointed_job j n ph p now) = j_attempts j" "j_attempt (checkpointed_job j n ph p now) = j_attempt j"
  "j_checkpoint (checkpointed_job j n ph p now) = \<lparr>c_sequence = n, c_phase = ph, c_committed_at = Some now\<rparr>"
  "holds_lease (checkpointed_job j n ph p now) token at' = holds_lease j token at'"
  by (simp_all add: checkpointed_job_def holds_lease_def)

text \<open>One checkpoint of the owner, with what the next one needs.\<close>

lemma next_phase:
  assumes st: "store_ok env s" "evidenced s" "fits env" "st_present s" and look: "look_job s (j_id j) = Some j"
    and lease: "holds_lease j token now" and n: "c_sequence (j_checkpoint j) < 2 ^ 31 - 1"
    and ph: "phase \<noteq> Phase_none" and p: "first_failure (progress_ladder p) = None" "\<not> progress_back p (j_progress j)"
  shows "\<exists>t. checkpoint_job env (j_id j) token (c_sequence (j_checkpoint j) + 1) phase p now s =
      (Inr (checkpointed_job j (c_sequence (j_checkpoint j) + 1) phase p now), t)
    \<and> store_ok env t \<and> evidenced t \<and> st_present t
    \<and> look_job t (j_id j) = Some (checkpointed_job j (c_sequence (j_checkpoint j) + 1) phase p now)"
proof -
  let ?k = "checkpointed_job j (c_sequence (j_checkpoint j) + 1) phase p now"
  let ?t = "(put_job ?k s)\<lparr>st_present := True\<rparr>"
  have run: "checkpoint_job env (j_id j) token (c_sequence (j_checkpoint j) + 1) phase p now s = (Inr ?k, ?t)"
    using ph p by (intro checkpoint_returns [OF st(1,3) look lease n]) (simp add: checkpoint_args_def)
  have "evidence_step env s ?t"
    using evidence.checkpoint_step [of env s "j_id j" token "c_sequence (j_checkpoint j) + 1" phase p now] run by simp
  with st have "store_ok env ?t" "evidenced ?t" by (auto simp: evidence_step_def)
  with run show ?thesis by (auto simp: job_dir.look_put)
qed


section \<open>A concrete run\<close>

definition lab_clock :: run_clock where
  "lab_clock = \<lparr>t_live = False, t_claim = 2 * SECOND, t_prepare = 0, t_prepare_beat = 0, t_execute = 0,
     t_execute_beat = 0, t_end_beat = 0, t_commit = 0, t_complete = 0\<rparr>"

definition lab_report :: report where
  "lab_report = \<lparr>rep_ok = True, rep_progress = \<lparr>processed = 7, skipped = 1, errors = 0\<rparr>, rep_class = Permanent,
     rep_code = [], rep_network = False, rep_mutation = False\<rparr>"

definition lab_fresh :: "string \<Rightarrow> string" where "lab_fresh i = ''x''"

lemma lab_draws: "draws_unused lab_env lab_fresh now lab_queued"
proof -
  have "lab_queued\<lparr>st_present := True\<rparr> = lab_queued" by (simp add: lab_queued_def lab_created_def)
  moreover have "look_job lab_queued (''job_'' @ ''x'') = None"
    by (simp add: look_job_def lab_job_id_def lab_hex_def numeral_eq_Suc)
  ultimately show ?thesis by (simp add: draws_unused_def lab_recovers lab_fresh_def)
qed



end
