(* ===== verification/Scheduler_Preview.thy ===== *)
theory Scheduler_Preview
  imports Scheduler_Coordinator
begin

text \<open>
  A preview and the request that follows it: the revision shown with a preview is accepted for
  the job as it was seen, and refused once the job has moved on.
\<close>

section \<open>What the revision of a job fixes\<close>

lemma status_name_inj: "status_name a = status_name b \<Longrightarrow> a = b"
  by (cases a; cases b) simp_all

definition same_view :: "job \<Rightarrow> json \<Rightarrow> job \<Rightarrow> json \<Rightarrow> bool" where
  "same_view j p k q \<longleftrightarrow>
     j_id j = j_id k \<and> j_policy_id j = j_policy_id k \<and> j_policy_revision j = j_policy_revision k
   \<and> j_scope j = j_scope k \<and> j_status j = j_status k \<and> j_attempt j = j_attempt k \<and> j_retry j = j_retry k
   \<and> map_option ctl_revision (j_control j) = map_option ctl_revision (j_control k)
   \<and> (\<not> active_status (j_status j) \<longrightarrow> c_sequence (j_checkpoint j) = c_sequence (j_checkpoint k) \<and> p = q)"

lemma control_revision_json:
  assumes "filter P (control_fields f c) = filter P (control_fields f d)" and "\<And>v. P (''revision'', v)"
  shows "ctl_revision c = ctl_revision d"
proof -
  have at: "map_of (filter P (control_fields f x)) ''revision'' = Some (JInt (ctl_revision x))" for x
  proof (rule map_of_is_SomeI)
    have "distinct (map fst (control_fields f x))" by (simp add: control_fields_def)
    then show "distinct (map fst (filter P (control_fields f x)))" by (rule distinct_map_filter)
    show "(''revision'', JInt (ctl_revision x)) \<in> set (filter P (control_fields f x))"
      using assms(2) by (simp add: control_fields_def)
  qed
  show ?thesis using at [of c] at [of d] unfolding assms(1) by simp
qed

lemma control_fields_kept: "(\<And>v. P (''revision'', v)) \<Longrightarrow> filter P (control_fields f c) \<noteq> []"
  by (auto simp: control_fields_def filter_empty_conv)

lemma optional_control:
  assumes same: "(case x of None \<Rightarrow> [] | Some c \<Rightarrow> filter P (control_fields f c))
      = (case y of None \<Rightarrow> [] | Some c \<Rightarrow> filter P (control_fields f c))" and rv: "\<And>v. P (''revision'', v)"
  shows "map_option ctl_revision x = map_option ctl_revision y"
proof (cases x)
  case None
  with same control_fields_kept [of P f, OF rv, THEN not_sym] show ?thesis by (cases y) auto
next
  case (Some c)
  with same control_fields_kept [of P f, OF rv] obtain d where "y = Some d" by (cases y) auto
  with Some same control_revision_json [of P f c d, OF _ rv] show ?thesis by simp
qed

lemma revision_payload_fixes:
  assumes "revision_payload j p = revision_payload k q"
  shows "same_view j p k q"
proof -
  have st: "j_status j = j_status k"
    using assms status_name_inj by (simp add: revision_payload_def Let_def)
  let ?P = "\<lambda>kv. \<not> active_status (j_status k) \<or> fst kv \<notin> {''observation'', ''network_used''}"
  have "(case j_control j of None \<Rightarrow> [] | Some c \<Rightarrow> filter ?P (control_fields child_json c))
      = (case j_control k of None \<Rightarrow> [] | Some c \<Rightarrow> filter ?P (control_fields child_json c))"
    using assms st by (simp add: revision_payload_def Let_def)
  then have "map_option ctl_revision (j_control j) = map_option ctl_revision (j_control k)"
    by (rule optional_control) simp
  moreover have "j_scope j = j_scope k" "j_retry j = j_retry k"
    using assms by (simp_all add: revision_payload_def Let_def scope_json_def retry_json_def)
  moreover have "\<not> active_status (j_status j) \<Longrightarrow>
      c_sequence (j_checkpoint j) = c_sequence (j_checkpoint k) \<and> p = q"
    using assms st by (simp add: revision_payload_def Let_def checkpoint_json_def)
  ultimately show ?thesis
    using assms st by (simp add: same_view_def revision_payload_def Let_def)
qed

section \<open>From a preview to a request\<close>

lemma preview_result:
  assumes "preview_job_control env producer i a now s = (Inr v, s')"
  shows "\<exists>j. s' = s \<and> look_job s i = Some j \<and> job_ok env j \<and> pv_checkpoint v = j_checkpoint j
     \<and> pv_revision v = revision env j (seen_producer producer j)
     \<and> a \<in> set (cap_actions (capabilities env j (seen_producer producer j) now))"
  using assms
  by (auto simp: preview_job_control_def Let_def act_results found_job_result seen_producer_def capabilities_def)

text \<open>
  A preview is bound to the job it showed. A request with the revision of the preview passes
  the gate for the job, producer and instant of the preview, with its checkpoint or with none. But
  when the stored job has moved on, in its status, attempt, policy revision or retry bound, in the
  revision of its control, or (when no worker holds it) in its checkpoint or producer, then a new
  request with that revision is refused and changes no record, provided that the digest does not
  collide on the two.
\<close>

theorem preview_is_bound:
  assumes pv: "preview_job_control env producer i a now s = (Inr v, s0)" and j: "look_job s i = Some j"
    and t: "store_ok env t" and k: "look_job t i = Some k"
    and digest: "e_digest env (revision_payload j (seen_producer producer j))
        = e_digest env (revision_payload k (seen_producer producer' k)) \<Longrightarrow>
      revision_payload j (seen_producer producer j) = revision_payload k (seen_producer producer' k)"
    and args: "sha256_text (pv_revision v)" "1 \<le> length request" "length request \<le> 200"
    and new: "recorded env k request = None"
  shows "(cp = None \<or> cp = Some (pv_checkpoint v) \<longrightarrow> admissible env producer j a (pv_revision v) cp now)
     \<and> (\<not> same_view j (seen_producer producer j) k (seen_producer producer' k) \<longrightarrow>
          (\<exists>m t'. request_control env producer' i a (pv_revision v) request cp now' t = (Inl (Conflict_error m), t')
             \<and> st_jobs t' = st_jobs t \<and> st_receipts t' = st_receipts t \<and> st_policies t' = st_policies t))"
proof -
  from preview_result [OF pv] j have v: "pv_checkpoint v = j_checkpoint j"
    "pv_revision v = revision env j (seen_producer producer j)"
    "a \<in> set (cap_actions (capabilities env j (seen_producer producer j) now))" by auto
  have stale: "\<not> admissible env producer' k a (pv_revision v) cp now'"
    if "\<not> same_view j (seen_producer producer j) k (seen_producer producer' k)"
  proof
    assume "admissible env producer' k a (pv_revision v) cp now'"
    with v(2) have "e_digest env (revision_payload j (seen_producer producer j))
        = e_digest env (revision_payload k (seen_producer producer' k))"
      by (simp add: admissible_def revision_def)
    with digest revision_payload_fixes that show False by blast
  qed
  have found: "found_job env i (t\<lparr>st_present := True\<rparr>) = (Inr k, t\<lparr>st_present := True\<rparr>)"
    by (rule found_stored [of env "t\<lparr>st_present := True\<rparr>"]) (use t k in simp_all)
  have "\<exists>m. request_control env producer' i a (pv_revision v) request cp now' t =
      (Inl (Conflict_error m), t\<lparr>st_present := True\<rparr>)"
    if "\<not> same_view j (seen_producer producer j) k (seen_producer producer' k)"
    using request_control_at(3) [OF args found new stale [OF that]] .
  with v show ?thesis by (fastforce simp: admissible_def)
qed

text \<open>A pause is previewed while a worker runs the job; the job is back in the queue when the request comes.\<close>

lemma lab_previewed: "\<exists>v. preview_job_control lab_env (\<lambda>_. JNull) lab_job_id Act_pause (3 * SECOND) lab_claimed = (Inr v, lab_claimed)
    \<and> pv_revision v = lab_revision \<and> pv_checkpoint v = j_checkpoint lab_job"
proof -
  have "found_job lab_env lab_job_id lab_claimed = (Inr lab_job, lab_claimed)"
    by (simp add: found_job_result)
  moreover have "cap_revision (capabilities lab_env lab_job JNull (3 * SECOND)) = lab_revision"
    by (simp add: capabilities_def lab_digests)
  ultimately show ?thesis using lab_open(2) lab_lease(1)
    by (simp add: preview_job_control_def Let_def)
qed

theorem preview_is_bound_witness:
  "\<exists>v. preview_job_control lab_env (\<lambda>_. JNull) lab_job_id Act_pause (3 * SECOND) lab_claimed = (Inr v, lab_claimed)
     \<and> admissible lab_env (\<lambda>_. JNull) lab_job Act_pause (pv_revision v) None (3 * SECOND)
     \<and> (\<exists>m t'. request_control lab_env (\<lambda>_. JNull) lab_job_id Act_pause (pv_revision v) lab_request None (9 * SECOND) lab_queued
          = (Inl (Conflict_error m), t') \<and> st_jobs t' = st_jobs lab_queued)"
proof -
  obtain v where v: "preview_job_control lab_env (\<lambda>_. JNull) lab_job_id Act_pause (3 * SECOND) lab_claimed = (Inr v, lab_claimed)"
    and r: "pv_revision v = lab_revision" using lab_previewed by blast
  let ?q = "seen_producer (\<lambda>_. JNull)"
  have d: "e_digest lab_env (revision_payload lab_job (?q lab_job)) = e_digest lab_env (revision_payload lab_queued_job (?q lab_queued_job))
      \<Longrightarrow> revision_payload lab_job (?q lab_job) = revision_payload lab_queued_job (?q lab_queued_job)"
    using lab_lease(2) lab_job_fields(2) by (simp add: revision_payload_def Let_def lab_env_def)
  have n: "recorded lab_env lab_queued_job lab_request = None" by (simp add: control_of_def lab_queued_job_def queued_job_def)
  have moved: "\<not> same_view lab_job (?q lab_job) lab_queued_job (?q lab_queued_job)"
    using lab_lease(2) lab_job_fields(2) by (simp add: same_view_def)
  have a: "sha256_text (pv_revision v)" using lab_sha(1) r by simp
  from preview_is_bound [where cp = None and now' = "9 * SECOND", OF v lab_look(3) lab_stores_ok(2) lab_look(2) d a lab_sha(2,3) n] moved
  show ?thesis using v by auto
qed

end
