(* ===== verification/Scheduler_Audit.thy ===== *)
theory Scheduler_Audit
  imports Scheduler_Leases
begin

text \<open>
  The audit of the durable scheduler state (core/provelume/scheduler.py, function
  scheduler_state_findings), which reads the three record directories without executing work:
  every file is read and validated, and then the records are compared with each other. The AI
  state files beside them are not modelled.
\<close>

section \<open>The state directory\<close>

text \<open>
  An entry of a record directory is not a regular JSON file, or it is one: its name without
  the suffix, and what reading it gives, an error message or the raw record.
\<close>

datatype 'r entry = Odd_entry string | Record_file string "string + 'r"

datatype 'r directory = Missing | Not_a_directory | Directory "'r entry list"

record scheduler_root =
  root_present :: bool
  root_regular :: bool
  root_odd_children :: "string list"
  root_policies :: "policy directory"
  root_jobs :: "job directory"
  root_receipts :: "receipt directory"

record finding =
  f_code :: string
  f_message :: string
  f_path :: string

definition finding_of :: "string \<Rightarrow> string \<Rightarrow> string \<Rightarrow> finding" where
  "finding_of code message path = \<lparr>f_code = code, f_message = message, f_path = path\<rparr>"

fun error_text :: "sched_error \<Rightarrow> string" where
  "error_text (Scheduler_error m) = m"
| "error_text (Conflict_error m) = m"
| "error_text (Not_found_error m) = m"
| "error_text (Lease_error m) = m"
| "error_text (Busy_error m) = m"
| "error_text (Index_error m) = m"

text \<open>An IndexError of a validator is not caught by the audit.\<close>

fun escapes :: "sched_error \<Rightarrow> bool" where
  "escapes (Index_error m) = True"
| "escapes e = False"

section \<open>Reading a directory\<close>

definition read_record ::
  "('r \<Rightarrow> sched_error + 'r) \<Rightarrow> ('r \<Rightarrow> string) \<Rightarrow> string \<Rightarrow> string + 'r \<Rightarrow> sched_error + 'r" where
  "read_record validator key stem content =
     (case content of
        Inl m \<Rightarrow> Inl (Scheduler_error m)
      | Inr raw \<Rightarrow> (case validator raw of
           Inl e \<Rightarrow> Inl e
         | Inr r \<Rightarrow> if stem \<noteq> key r
                    then Inl (Scheduler_error ''scheduler filename does not match its record ID'')
                    else Inr r))"

fun scan_files ::
  "('r \<Rightarrow> sched_error + 'r) \<Rightarrow> ('r \<Rightarrow> string) \<Rightarrow> string \<Rightarrow> string \<Rightarrow> 'r entry list
   \<Rightarrow> finding list \<times> 'r list \<Rightarrow> sched_error + finding list \<times> 'r list" where
  "scan_files validator key kind path [] acc = Inr acc"
| "scan_files validator key kind path (Odd_entry name # files) (fs, rs) =
     scan_files validator key kind path files
       (fs @ [finding_of ''scheduler_record_invalid''
                (''scheduler '' @ kind @ '' record is not a regular file'') (path @ name)], rs)"
| "scan_files validator key kind path (Record_file stem content # files) (fs, rs) =
     (case read_record validator key stem content of
        Inl e \<Rightarrow>
          if escapes e then Inl e
          else scan_files validator key kind path files
                 (fs @ [finding_of ''scheduler_record_invalid'' (error_text e) (path @ stem @ ''.json'')], rs)
      | Inr r \<Rightarrow>
          if key r \<in> set (map key rs)
          then scan_files validator key kind path files
                 (fs @ [finding_of ''scheduler_record_duplicate''
                          (''scheduler '' @ kind @ '' record ID is duplicated'') (path @ stem @ ''.json'')], rs)
          else scan_files validator key kind path files (fs, rs @ [r]))"

definition scan_directory ::
  "('r \<Rightarrow> sched_error + 'r) \<Rightarrow> ('r \<Rightarrow> string) \<Rightarrow> string \<Rightarrow> string \<Rightarrow> 'r directory
   \<Rightarrow> sched_error + finding list \<times> 'r list" where
  "scan_directory validator key kind path d =
     (case d of
        Missing \<Rightarrow> Inr ([], [])
      | Not_a_directory \<Rightarrow>
          Inr ([finding_of ''scheduler_directory_invalid'' (''scheduler '' @ kind @ '' directory is invalid'') path], [])
      | Directory files \<Rightarrow> scan_files validator key kind (path @ ''/'') files ([], []))"

section \<open>Comparing the records\<close>

definition job_path :: "string \<Rightarrow> string" where
  "job_path i = ''state/scheduler/jobs/'' @ i @ ''.json''"

definition receipt_path :: "string \<Rightarrow> string" where
  "receipt_path i = ''state/scheduler/receipts/'' @ i @ ''.json''"

text \<open>\<open>Path(p).stem\<close>: the last component without its last suffix.\<close>

definition base_name :: "string \<Rightarrow> string" where
  "base_name p = rev (takeWhile (\<lambda>c. c \<noteq> CHR ''/'') (rev p))"

definition path_stem :: "string \<Rightarrow> string" where
  "path_stem p =
     (let b = base_name p; suffix = takeWhile (\<lambda>c. c \<noteq> CHR ''.'') (rev b);
          n = length b - length suffix
      in if suffix = [] \<or> n \<le> 1 then b else take (n - 1) b)"

definition found_in :: "('r \<Rightarrow> string) \<Rightarrow> 'r list \<Rightarrow> string \<Rightarrow> 'r option" where
  "found_in key rs i = find (\<lambda>r. key r = i) rs"

definition policy_findings :: "policy list \<Rightarrow> job \<Rightarrow> finding list" where
  "policy_findings ps j =
     (case found_in p_id ps (j_policy_id j) of
        None \<Rightarrow> [finding_of ''scheduler_policy_missing'' ''scheduler job references a missing policy'' (job_path (j_id j))]
      | Some p \<Rightarrow>
          if j_kind j \<noteq> p_kind p \<or> j_scope j \<noteq> p_scope p \<or> j_policy_revision j > p_revision p
          then [finding_of ''scheduler_policy_mismatch'' ''scheduler job does not match its policy identity''
                  (job_path (j_id j))]
          else [])"

definition evidence_findings :: "receipt list \<Rightarrow> job \<Rightarrow> finding list" where
  "evidence_findings rs j =
     (case j_receipt_ref j of
        None \<Rightarrow> []
      | Some ref \<Rightarrow>
          if (case found_in r_id rs (path_stem ref) of None \<Rightarrow> True | Some r \<Rightarrow> \<not> receipt_matches_terminal_job r j)
          then [finding_of ''scheduler_receipt_missing''
                  ''terminal scheduler job receipt is missing or mismatched'' (job_path (j_id j))]
          else [])"

definition lineage_findings :: "job list \<Rightarrow> job \<Rightarrow> finding list" where
  "lineage_findings js j =
     (case parent_of j of
        None \<Rightarrow> []
      | Some p \<Rightarrow> (case validate_restart_lineage (found_in j_id js p) j of
           Inl e \<Rightarrow> [finding_of ''scheduler_restart_lineage_invalid'' (error_text e) (job_path (j_id j))]
         | Inr _ \<Rightarrow> []))"

definition receipt_findings :: "job list \<Rightarrow> receipt \<Rightarrow> finding list" where
  "receipt_findings js r =
     (case found_in j_id js (r_job_id r) of
        None \<Rightarrow> [finding_of ''scheduler_job_missing'' ''scheduler receipt references a missing job''
                   (receipt_path (r_id r))]
      | Some j \<Rightarrow>
          if j_receipt_ref j \<noteq> Some (receipt_path (r_id r)) \<or> \<not> receipt_matches_terminal_job r j
          then [finding_of ''scheduler_job_receipt_mismatch''
                  ''scheduler receipt evidence does not match its terminal job'' (receipt_path (r_id r))]
          else [])"

definition cross_findings :: "policy list \<Rightarrow> job list \<Rightarrow> receipt list \<Rightarrow> finding list" where
  "cross_findings ps js rs =
     concat (map (\<lambda>j. policy_findings ps j @ evidence_findings rs j @ lineage_findings js j) js)
   @ concat (map (receipt_findings js) rs)"

definition scheduler_state_findings :: "sched_env \<Rightarrow> scheduler_root \<Rightarrow> sched_error + finding list" where
  "scheduler_state_findings env d =
     (if \<not> root_present d then Inr []
      else if \<not> root_regular d then
        Inr [finding_of ''scheduler_directory_invalid'' ''scheduler state root is invalid'' ''state/scheduler'']
      else
        let odd = map (\<lambda>n. finding_of ''scheduler_record_invalid''
              ''scheduler state contains an unsupported entry'' (''state/scheduler/'' @ n)) (root_odd_children d)
        in case scan_directory (validate_policy_record env) p_id ''policy'' ''state/scheduler/policies'' (root_policies d) of
             Inl e \<Rightarrow> Inl e
           | Inr (pf, ps) \<Rightarrow>
        (case scan_directory (validate_job_record env) j_id ''job'' ''state/scheduler/jobs'' (root_jobs d) of
             Inl e \<Rightarrow> Inl e
           | Inr (jf, js) \<Rightarrow>
        (case scan_directory validate_receipt_record r_id ''receipt'' ''state/scheduler/receipts'' (root_receipts d) of
             Inl e \<Rightarrow> Inl e
           | Inr (rf, rs) \<Rightarrow> Inr (odd @ pf @ jf @ rf @ cross_findings ps js rs))))"

section \<open>The directory that the store writes\<close>

definition files_of :: "(string \<times> 'r) list \<Rightarrow> 'r directory" where
  "files_of kvs = Directory (map (\<lambda>kv. Record_file (fst kv) (Inr (snd kv))) (sort_key fst kvs))"

definition root_of :: "store \<Rightarrow> scheduler_root" where
  "root_of s = \<lparr>root_present = st_present s, root_regular = True, root_odd_children = [],
     root_policies = files_of (st_policies s), root_jobs = files_of (st_jobs s),
     root_receipts = files_of (st_receipts s)\<rparr>"

lemma scan_valid_files:
  assumes "distinct (map fst kvs)" and "\<And>k r. (k, r) \<in> set kvs \<Longrightarrow> validator r = Inr r \<and> key r = k"
    and "set (map fst kvs) \<inter> set (map key rs) = {}"
  shows "scan_files validator key kind path (map (\<lambda>kv. Record_file (fst kv) (Inr (snd kv))) kvs) (fs, rs)
    = Inr (fs, rs @ map snd kvs)"
  using assms
proof (induction kvs arbitrary: rs)
  case (Cons kv kvs)
  obtain k r where kv: "kv = (k, r)" by (cases kv)
  with Cons.prems(2) have r: "validator r = Inr r" "key r = k" by auto
  have fresh: "k \<notin> set (map key rs)" "k \<notin> set (map fst kvs)" using Cons.prems(1,3) kv by auto
  have "read_record validator key k (Inr r) = Inr r" using r by (simp add: read_record_def)
  then have "scan_files validator key kind path (map (\<lambda>kv. Record_file (fst kv) (Inr (snd kv))) (kv # kvs)) (fs, rs)
      = scan_files validator key kind path (map (\<lambda>kv. Record_file (fst kv) (Inr (snd kv))) kvs) (fs, rs @ [r])"
    using r(2) fresh(1) kv by simp
  also have "\<dots> = Inr (fs, (rs @ [r]) @ map snd kvs)"
    using Cons.prems fresh r(2) kv by (intro Cons.IH) auto
  finally show ?case using kv by simp
qed simp

lemma scan_written:
  assumes "distinct (map fst kvs)" and "\<And>k r. (k, r) \<in> set kvs \<Longrightarrow> validator r = Inr r \<and> key r = k"
  shows "scan_directory validator key kind path (files_of kvs) = Inr ([], map snd (sort_key fst kvs))"
  using scan_valid_files [of "sort_key fst kvs" validator key "[]" kind "path @ ''/''" "[]"] assms
  by (simp add: scan_directory_def files_of_def distinct_map inj_on_def)

lemma find_member: "find P xs = Some q \<Longrightarrow> q \<in> set xs \<and> P q"
  by (induction xs) (auto split: if_splits)

lemma found_written:
  assumes "distinct (map fst kvs)" and "\<And>k r. (k, r) \<in> set kvs \<Longrightarrow> key r = k"
  shows "found_in key (map snd (sort_key fst kvs)) i = map_of kvs i"
proof (cases "map_of kvs i")
  case None
  then have "\<forall>r \<in> snd ` set kvs. key r \<noteq> i" using assms(2) by (force simp: map_of_eq_None_iff)
  with None show ?thesis by (simp add: found_in_def find_None_iff)
next
  case (Some r)
  then have r: "(i, r) \<in> set kvs" by (rule map_of_SomeD)
  have uniq: "q = r" if q: "q \<in> snd ` set kvs" "key q = i" for q
  proof -
    from q assms(2) have "(i, q) \<in> set kvs" by force
    then show "q = r" using eq_key_imp_eq_value [OF assms(1) _ r] by simp
  qed
  have "key r = i" "r \<in> snd ` set kvs" using r assms(2) by force+
  then have "find (\<lambda>q. key q = i) (map snd (sort_key fst kvs)) \<noteq> None"
    by (auto simp only: find_None_iff set_map set_sort)
  then obtain q where q: "find (\<lambda>q. key q = i) (map snd (sort_key fst kvs)) = Some q" by blast
  then have "q \<in> set (map snd (sort_key fst kvs)) \<and> key q = i" by (rule find_member)
  with uniq have "q = r" by simp
  with q Some show ?thesis by (simp add: found_in_def)
qed

section \<open>The audit decides the evidence\<close>

lemma path_stem_ref:
  assumes "set x \<subseteq> - {CHR ''/'', CHR ''.''}" and "x \<noteq> []"
  shows "path_stem (receipt_ref_of x) = x"
proof -
  let ?tail = "rev ''.json''"
  have b: "base_name (receipt_ref_of x) = x @ ''.json''"
  proof -
    have split: "rev (receipt_ref_of x) = (?tail @ rev x) @ (CHR ''/'' # rev ''state/scheduler/receipts'')"
      by (simp add: receipt_ref_of_def)
    have "takeWhile (\<lambda>c. c \<noteq> CHR ''/'') (rev (receipt_ref_of x)) = ?tail @ rev x"
      unfolding split by (subst takeWhile_tail) (use assms(1) in auto)
    then show ?thesis by (simp add: base_name_def)
  qed
  have "takeWhile (\<lambda>c. c \<noteq> CHR ''.'') (rev (x @ ''.json'')) = rev ''json''" by simp
  with assms(2) show ?thesis unfolding path_stem_def b Let_def by (cases x) simp_all
qed

lemma receipt_ref_stem: "receipt_id_ok i \<Longrightarrow> path_stem (receipt_ref_of i) = i"
proof (rule path_stem_ref)
  assume "receipt_id_ok i"
  then obtain x where i: "i = ''receipt_'' @ x" "list_all hexchar x"
    unfolding receipt_id_ok_def by (rule prefixed_hexE)
  have hex: "hexchar c \<Longrightarrow> c \<noteq> CHR ''/'' \<and> c \<noteq> CHR ''.''" for c by (auto simp: hexchar_def)
  show "set i \<subseteq> - {CHR ''/'', CHR ''.''}" using i(2) hex by (auto simp: i(1) list_all_iff)
  show "i \<noteq> []" using i(1) by simp
qed

lemma receipt_ref_path: "receipt_path = receipt_ref_of"
  by (simp add: fun_eq_iff receipt_path_def receipt_ref_of_def)

definition written :: "(string \<times> 'r) list \<Rightarrow> 'r list" where
  "written kvs = map snd (sort_key fst kvs)"

lemma set_written: "set (written kvs) = snd ` set kvs"
  by (simp add: written_def)

lemma written_found:
  assumes "store_ok env s"
  shows "found_in j_id (written (st_jobs s)) = look_job s"
    and "found_in r_id (written (st_receipts s)) = look_receipt s"
proof -
  show "found_in j_id (written (st_jobs s)) = look_job s"
    using assms found_written [of "st_jobs s" j_id] stored_job_entry [OF assms]
    by (fastforce simp: fun_eq_iff look_job_def store_ok_def written_def)
  have "r_id r = k" if "(k, r) \<in> set (st_receipts s)" for k r
    using that assms by (force simp: store_ok_def receipt_dir.keyed_def look_receipt_def)
  then show "found_in r_id (written (st_receipts s)) = look_receipt s"
    using assms found_written [of "st_receipts s" r_id]
    by (simp add: fun_eq_iff look_receipt_def store_ok_def written_def)
qed

lemma audit_written:
  assumes ok: "store_ok env s" and p: "st_present s"
  shows "scheduler_state_findings env (root_of s) =
    Inr (cross_findings (written (st_policies s)) (written (st_jobs s)) (written (st_receipts s)))"
proof -
  have "scan_directory (validate_policy_record env) p_id k path (files_of (st_policies s)) = Inr ([], written (st_policies s))" for k path
    unfolding written_def using ok
    by (intro scan_written) (force simp: store_ok_def policy_dir.keyed_def policy_dir.all_records_def policy_ok_def look_policy_def)+
  moreover have "scan_directory (validate_job_record env) j_id k path (files_of (st_jobs s)) = Inr ([], written (st_jobs s))" for k path
    unfolding written_def
  proof (rule scan_written)
    show "distinct (map fst (st_jobs s))" using ok by (simp add: store_ok_def)
    show "validate_job_record env r = Inr r \<and> j_id r = i" if "(i, r) \<in> set (st_jobs s)" for i r
      using stored_job_entry [OF ok that] by (simp add: job_sound_def)
  qed
  moreover have "scan_directory validate_receipt_record r_id k path (files_of (st_receipts s)) = Inr ([], written (st_receipts s))" for k path
    unfolding written_def using ok
    by (intro scan_written) (force simp: store_ok_def receipt_dir.keyed_def receipt_dir.all_records_def look_receipt_def
        receipt_ok_def validate_receipt_record_def)+
  ultimately show ?thesis by (simp add: scheduler_state_findings_def root_of_def p)
qed

lemma evidence_findings_none:
  assumes ok: "store_ok env s" and j: "look_job s (j_id j) = Some j"
  shows "evidence_findings (written (st_receipts s)) j = [] \<longleftrightarrow>
    (terminal_status (j_status j) \<longrightarrow>
       (\<exists>r. look_receipt s (receipt_of_job (j_id j)) = Some r \<and> receipt_matches_terminal_job r j))"
proof -
  have jok: "job_ok env j" using store_ok_job [OF ok j] by (simp add: job_sound_def)
  have "path_stem (receipt_ref_of (receipt_of_job (j_id j))) = receipt_of_job (j_id j)"
    using stored_job_id [OF ok j] receipt_of_job_ok by (intro receipt_ref_stem) simp
  then show ?thesis
    by (auto simp: evidence_findings_def written_found [OF ok] job_ok_receipt_ref [OF jok] split: option.splits)
qed

lemma receipt_findings_none:
  assumes ok: "store_ok env s" and r: "look_receipt s (r_id r) = Some r"
  shows "receipt_findings (written (st_jobs s)) r = [] \<longleftrightarrow>
    (\<exists>j. look_job s (r_job_id r) = Some j \<and> terminal_status (j_status j) \<and> receipt_matches_terminal_job r j)"
proof (cases "look_job s (r_job_id r)")
  case None
  then show ?thesis by (simp add: receipt_findings_def written_found [OF ok])
next
  case (Some j)
  from store_ok_job [OF ok Some] have id: "j_id j = r_job_id r" and jok: "job_ok env j" by (simp_all add: job_sound_def)
  have "r_id r = receipt_of_job (r_job_id r)" using stored_receipt_id [OF ok r] by simp
  then show ?thesis using Some id
    by (simp add: receipt_findings_def written_found [OF ok] receipt_ref_path job_ok_receipt_ref [OF jok])
qed

definition EVIDENCE_CODES :: "string list" where
  "EVIDENCE_CODES = [''scheduler_receipt_missing'', ''scheduler_job_missing'', ''scheduler_job_receipt_mismatch'']"

definition REFERENCE_CODES :: "string list" where
  "REFERENCE_CODES = [''scheduler_policy_missing'', ''scheduler_policy_mismatch'', ''scheduler_restart_lineage_invalid'']"

lemma reference_findings:
  "f \<in> set (policy_findings ps j) \<Longrightarrow> f_code f \<in> set REFERENCE_CODES"
  "f \<in> set (lineage_findings js j) \<Longrightarrow> f_code f \<in> set REFERENCE_CODES"
  by (auto simp: policy_findings_def lineage_findings_def finding_of_def REFERENCE_CODES_def
      split: option.splits if_splits sum.splits)

lemma evidence_coded:
  "f \<in> set (evidence_findings rs j) \<Longrightarrow> f_code f \<in> set EVIDENCE_CODES"
  "f \<in> set (receipt_findings js r) \<Longrightarrow> f_code f \<in> set EVIDENCE_CODES"
  by (auto simp: evidence_findings_def receipt_findings_def finding_of_def EVIDENCE_CODES_def
      split: option.splits if_splits)

lemma codes_apart: "c \<in> set REFERENCE_CODES \<Longrightarrow> c \<notin> set EVIDENCE_CODES"
  by (auto simp: REFERENCE_CODES_def EVIDENCE_CODES_def)

text \<open>
  C11: the audit decides the agreement of jobs and receipts. On the files of a store whose records
  are valid it returns, finds only faults between records, and finds one about receipts exactly
  when some terminal job lacks its matching receipt or some receipt its terminal job.
\<close>

theorem audit_decides_evidence:
  assumes ok: "store_ok env s" and present: "st_present s"
  shows "\<exists>fs. scheduler_state_findings env (root_of s) = Inr fs
     \<and> (\<forall>f \<in> set fs. f_code f \<in> set (REFERENCE_CODES @ EVIDENCE_CODES))
     \<and> ((\<exists>f \<in> set fs. f_code f \<in> set EVIDENCE_CODES) \<longleftrightarrow> \<not> evidenced s)"
proof -
  let ?ps = "written (st_policies s)" and ?js = "written (st_jobs s)" and ?rs = "written (st_receipts s)"
  let ?fs = "cross_findings ?ps ?js ?rs"
  have jobs: "j \<in> set ?js \<longleftrightarrow> look_job s (j_id j) = Some j" for j
    by (simp add: set_written look_job_member [OF ok])
  have recs: "r \<in> set ?rs \<longleftrightarrow> look_receipt s (r_id r) = Some r" for r
  proof
    assume "r \<in> set ?rs"
    then obtain k where "(k, r) \<in> set (st_receipts s)" by (auto simp: set_written)
    then have "look_receipt s k = Some r" using ok by (simp add: look_receipt_def store_ok_def)
    with store_ok_receipt [OF ok this] show "look_receipt s (r_id r) = Some r" by simp
  next
    assume "look_receipt s (r_id r) = Some r"
    then show "r \<in> set ?rs" by (force simp: set_written look_receipt_def dest: map_of_SomeD)
  qed
  have codes: "\<forall>f \<in> set ?fs. f_code f \<in> set (REFERENCE_CODES @ EVIDENCE_CODES)"
    using reference_findings evidence_coded by (fastforce simp: cross_findings_def)
  have "(\<exists>f \<in> set ?fs. f_code f \<in> set EVIDENCE_CODES) \<longleftrightarrow>
      (\<exists>j \<in> set ?js. evidence_findings ?rs j \<noteq> []) \<or> (\<exists>r \<in> set ?rs. receipt_findings ?js r \<noteq> [])"
    (is "?found \<longleftrightarrow> ?fault")
  proof
    assume ?found
    then obtain f where f: "f \<in> set ?fs" "f_code f \<in> set EVIDENCE_CODES" by blast
    have "f \<notin> set (policy_findings ?ps j)" "f \<notin> set (lineage_findings ?js j)" for j
      using reference_findings codes_apart f(2) by blast+
    with f(1) have "(\<exists>j \<in> set ?js. f \<in> set (evidence_findings ?rs j)) \<or> (\<exists>r \<in> set ?rs. f \<in> set (receipt_findings ?js r))"
      by (simp add: cross_findings_def)
    then show ?fault by (elim disjE bexE) (auto simp del: set_map)
  next
    assume ?fault
    then show ?found
    proof (elim disjE bexE)
      fix j assume j: "j \<in> set ?js" and "evidence_findings ?rs j \<noteq> []"
      then have f: "last (evidence_findings ?rs j) \<in> set (evidence_findings ?rs j)" by simp
      with j have "last (evidence_findings ?rs j) \<in> set ?fs" by (auto simp: cross_findings_def)
      with evidence_coded(1) [OF f] show ?found by blast
    next
      fix r assume r: "r \<in> set ?rs" and "receipt_findings ?js r \<noteq> []"
      then have f: "last (receipt_findings ?js r) \<in> set (receipt_findings ?js r)" by simp
      with r have "last (receipt_findings ?js r) \<in> set ?fs" by (auto simp: cross_findings_def)
      with evidence_coded(2) [OF f] show ?found by blast
    qed
  qed
  also have "\<dots> \<longleftrightarrow> \<not> evidenced s"
  proof -
    let ?A = "\<lambda>j. terminal_status (j_status j) \<longrightarrow>
        (\<exists>r. look_receipt s (receipt_of_job (j_id j)) = Some r \<and> receipt_matches_terminal_job r j)"
      and ?B = "\<lambda>r. \<exists>j. look_job s (r_job_id r) = Some j \<and> terminal_status (j_status j) \<and> receipt_matches_terminal_job r j"
    have "?fault \<longleftrightarrow> \<not> ((\<forall>j. look_job s (j_id j) = Some j \<longrightarrow> ?A j) \<and> (\<forall>r. look_receipt s (r_id r) = Some r \<longrightarrow> ?B r))"
      by (simp add: Bex_def jobs recs evidence_findings_none [OF ok] receipt_findings_none [OF ok] cong: conj_cong)
    also have "\<dots> \<longleftrightarrow> \<not> evidenced s"
    proof (rule arg_cong [where f = Not], rule iffI)
      assume *: "(\<forall>j. look_job s (j_id j) = Some j \<longrightarrow> ?A j) \<and> (\<forall>r. look_receipt s (r_id r) = Some r \<longrightarrow> ?B r)"
      show "evidenced s"
        unfolding evidenced_def
      proof (intro conjI allI impI)
        fix i j assume "look_job s i = Some j \<and> terminal_status (j_status j)"
        with * store_ok_job [OF ok] show "\<exists>r. look_receipt s (receipt_of_job i) = Some r \<and> receipt_matches_terminal_job r j"
          by blast
      next
        fix i r assume "look_receipt s i = Some r"
        with * store_ok_receipt [OF ok] show "\<exists>j. look_job s (r_job_id r) = Some j \<and> terminal_status (j_status j)"
          by blast
      qed
    next
      assume ev: "evidenced s"
      have "?B r" if r: "look_receipt s (r_id r) = Some r" for r
      proof -
        from evidencedD(2) [OF ev r] obtain j where j: "look_job s (r_job_id r) = Some j" "terminal_status (j_status j)" by blast
        with evidencedD(1) [OF ev] obtain q where "look_receipt s (receipt_of_job (r_job_id r)) = Some q"
          "receipt_matches_terminal_job q j" by blast
        moreover have "r_id r = receipt_of_job (r_job_id r)" using stored_receipt_id [OF ok r] by simp
        ultimately show ?thesis using j r by simp
      qed
      with evidencedD(1) [OF ev] show "(\<forall>j. look_job s (j_id j) = Some j \<longrightarrow> ?A j) \<and> (\<forall>r. look_receipt s (r_id r) = Some r \<longrightarrow> ?B r)"
        by blast
    qed
    finally show ?thesis .
  qed
  finally show ?thesis using audit_written [OF ok present] codes by blast
qed

theorem audit_decides_evidence_witness:
  "\<exists>fs. scheduler_state_findings lab_env (root_of lab_claimed) = Inr fs
     \<and> (\<forall>f \<in> set fs. f_code f \<notin> set EVIDENCE_CODES)"
proof -
  have "st_present lab_claimed" by (simp add: lab_claimed_def lab_created_def)
  from audit_decides_evidence [OF lab_stores_ok(1) this] lab_evidenced show ?thesis by blast
qed

end
