(* ===== verification/Fault_Logic.thy ===== *)
theory Fault_Logic
  imports Provelume_Prelude
begin

text \<open>
  Actions on a disk whose writes may fail or never happen, and a logic for them. A component
  that writes several files gives its disk the fates of the writes to come; a stopped process
  is an error that no handler catches. A triple has a postcondition, a condition that holds
  when the action raises, and one that holds on the disk when the process stops.
\<close>

section \<open>Fates\<close>

text \<open>
  A write goes through, fails with an \<open>OSError\<close>, or never happens because the process stops
  before it. When the list of fates is used up, every write goes through.
\<close>

datatype fate = Goes | Fails | Stops

text \<open>\<open>except Exception\<close>: a stopped process runs no handler.\<close>

definition catch :: "'e \<Rightarrow> ('s, 'e, 'a) act \<Rightarrow> ('e \<Rightarrow> ('s, 'e, 'a) act) \<Rightarrow> ('s, 'e, 'a) act" where
  "catch stop m h = (\<lambda>s. case m s of
       (Inl e, t) \<Rightarrow> if e = stop then (Inl e, t) else h e t
     | (Inr x, t) \<Rightarrow> (Inr x, t))"

section \<open>Triples\<close>

definition hoare ::
  "'e \<Rightarrow> ('s \<Rightarrow> bool) \<Rightarrow> ('s, 'e, 'a) act \<Rightarrow> ('a \<Rightarrow> 's \<Rightarrow> bool) \<Rightarrow> ('s \<Rightarrow> bool) \<Rightarrow> ('s \<Rightarrow> bool) \<Rightarrow> bool" where
  "hoare stop P m Q E C \<longleftrightarrow>
     (\<forall>s. P s \<longrightarrow> (case m s of (Inr x, t) \<Rightarrow> Q x t | (Inl e, t) \<Rightarrow> if e = stop then C t else E t))"

lemma hoare_conseq:
  assumes "hoare stop P m Q E C" and "\<And>s. P' s \<Longrightarrow> P s" and "\<And>x s. Q x s \<Longrightarrow> Q' x s"
    and "\<And>s. E s \<Longrightarrow> E' s" and "\<And>s. C s \<Longrightarrow> C' s"
  shows "hoare stop P' m Q' E' C'"
  unfolding hoare_def
proof (intro allI impI)
  fix s
  assume "P' s"
  with assms(1,2) have "case m s of (Inr x, t) \<Rightarrow> Q x t | (Inl e, t) \<Rightarrow> if e = stop then C t else E t"
    by (simp add: hoare_def)
  then show "case m s of (Inr x, t) \<Rightarrow> Q' x t | (Inl e, t) \<Rightarrow> if e = stop then C' t else E' t"
    using assms(3-5) by (auto split: prod.splits sum.splits if_splits)
qed

lemma hoare_ret: "(\<And>s. P s \<Longrightarrow> Q x s) \<Longrightarrow> hoare stop P (ret x) Q E C"
  by (simp add: hoare_def)

lemma hoare_raise: "(\<And>s. P s \<Longrightarrow> E s) \<Longrightarrow> e \<noteq> stop \<Longrightarrow> hoare stop P (raise e) Q E C"
  by (simp add: hoare_def)

lemma hoare_bind:
  assumes "hoare stop P m R E C" and "\<And>x. hoare stop (R x) (k x) Q E C"
  shows "hoare stop P (bindA m k) Q E C"
  using assms unfolding hoare_def bindA_def
  by (fastforce split: prod.splits sum.splits if_splits)

lemma hoare_seq: "hoare stop P m R E C \<Longrightarrow> hoare stop (R ()) k Q E C \<Longrightarrow> hoare stop P (seqA m k) Q E C"
  unfolding seqA_def by (rule hoare_bind) auto

lemma hoare_reads:
  "(\<And>s. P s \<Longrightarrow> hoare stop (\<lambda>t. t = s) (k (f s)) Q E C) \<Longrightarrow> hoare stop P (bindA (reads f) k) Q E C"
  by (auto simp: hoare_def)

lemma hoare_require:
  "(\<And>s. P s \<Longrightarrow> \<not> b \<Longrightarrow> E s) \<Longrightarrow> e \<noteq> stop \<Longrightarrow> (\<And>s. P s \<Longrightarrow> b \<Longrightarrow> Q () s) \<Longrightarrow> hoare stop P (require b e) Q E C"
  by (cases b) (simp_all add: hoare_def)

lemma hoare_catch:
  assumes "hoare stop P m Q E C" and "\<And>e. e \<noteq> stop \<Longrightarrow> hoare stop E (h e) Q E' C"
  shows "hoare stop P (catch stop m h) Q E' C"
  unfolding hoare_def
proof (intro allI impI)
  fix s
  assume s: "P s"
  obtain r t where m: "m s = (r, t)" by (cases "m s")
  show "case catch stop m h s of (Inr x, t) \<Rightarrow> Q x t | (Inl e, t) \<Rightarrow> if e = stop then C t else E' t"
  proof (cases r)
    case (Inr x)
    with assms(1) s m show ?thesis by (auto simp: hoare_def catch_def)
  next
    case (Inl e)
    show ?thesis
    proof (cases "e = stop")
      case True
      with assms(1) s m Inl show ?thesis by (auto simp: hoare_def catch_def)
    next
      case False
      with assms(1) s m Inl have "E t" by (auto simp: hoare_def)
      with assms(2) [of e] m Inl False show ?thesis by (simp add: hoare_def catch_def)
    qed
  qed
qed

lemma hoare_for_each:
  assumes "\<And>xs x ys. zs = xs @ x # ys \<Longrightarrow> hoare stop (I xs) (f x) (\<lambda>_. I (xs @ [x])) E C"
  shows "hoare stop (I []) (for_each f zs) (\<lambda>_. I zs) E C"
proof -
  have "hoare stop (I xs) (for_each f ys) (\<lambda>_. I zs) E C" if "zs = xs @ ys" for xs ys
    using that
  proof (induction ys arbitrary: xs)
    case Nil
    then show ?case unfolding for_each.simps by (intro hoare_ret) simp
  next
    case (Cons y ys)
    then show ?case using assms [of xs y ys] Cons.IH [of "xs @ [y]"]
      by (simp add: hoare_seq [where R = "\<lambda>_. I (xs @ [y])"])
  qed
  from this [of "[]" zs] show ?thesis by simp
qed

lemma hoare_pre: "(\<And>s. P s \<Longrightarrow> hoare stop (\<lambda>t. t = s) m Q E C) \<Longrightarrow> hoare stop P m Q E C"
  by (simp add: hoare_def)

lemma hoare_at:
  assumes "m s = m' s" and "hoare stop P m' Q E C" and "P s"
  shows "hoare stop (\<lambda>t. t = s) m Q E C"
  using assms by (simp add: hoare_def)

lemma hoare_both:
  assumes "hoare stop P m Q E C" and "hoare stop P m Q' E' C'"
  shows "hoare stop P m (\<lambda>x s. Q x s \<and> Q' x s) E C"
  unfolding hoare_def
proof (intro allI impI)
  fix s
  assume "P s"
  with assms have "case m s of (Inr x, t) \<Rightarrow> Q x t | (Inl e, t) \<Rightarrow> if e = stop then C t else E t"
    "case m s of (Inr x, t) \<Rightarrow> Q' x t | (Inl e, t) \<Rightarrow> if e = stop then C' t else E' t"
    by (simp_all add: hoare_def)
  then show "case m s of (Inr x, t) \<Rightarrow> Q x t \<and> Q' x t | (Inl e, t) \<Rightarrow> if e = stop then C t else E t"
    by (cases "m s") (auto split: sum.splits)
qed

lemma hoareD:
  assumes "hoare stop P m Q E C" and "P s"
  shows "m s = (Inr x, t) \<Longrightarrow> Q x t" and "m s = (Inl stop, t) \<Longrightarrow> C t"
    and "m s = (Inl e, t) \<Longrightarrow> e \<noteq> stop \<Longrightarrow> E t"
  using assms by (auto simp: hoare_def)

lemma hoare_when:
  assumes "B \<Longrightarrow> hoare stop P m Q E C"
  shows "hoare stop (\<lambda>s. B \<and> P s) m (\<lambda>x s. B \<and> Q x s) (\<lambda>s. B \<and> E s) (\<lambda>s. B \<and> C s)"
  using assms by (cases B) (simp_all add: hoare_def)

lemma hoare_any:
  assumes "hoare stop P m Q E C" and "P s" and "m s = (r, t)"
    and "\<And>x u. Q x u \<Longrightarrow> G u" and "\<And>u. E u \<Longrightarrow> G u" and "\<And>u. C u \<Longrightarrow> G u"
  shows "G t"
proof (cases r)
  case (Inl e)
  with hoareD(2,3) [OF assms(1,2)] assms(3,5,6) show ?thesis by (cases "e = stop") blast+
next
  case (Inr x)
  with hoareD(1) [OF assms(1,2)] assms(3,4) show ?thesis by blast
qed

section \<open>Parts of the state that stay\<close>

text \<open>The action leaves the value of \<open>f\<close> as it was, on every exit.\<close>

definition keeps :: "('s \<Rightarrow> 'b) \<Rightarrow> ('s, 'e, 'a) act \<Rightarrow> bool" where
  "keeps f m \<longleftrightarrow> (\<forall>s. f (snd (m s)) = f s)"

lemma keepsD: "keeps f m \<Longrightarrow> m s = (r, t) \<Longrightarrow> f t = f s"
  unfolding keeps_def by (metis snd_conv)

lemma keeps_bind: "keeps f m \<Longrightarrow> (\<And>x. keeps f (k x)) \<Longrightarrow> keeps f (bindA m k)"
  unfolding keeps_def bindA_def by (auto split: prod.splits sum.splits) (metis snd_conv)+

lemma keeps_seq: "keeps f m \<Longrightarrow> keeps f k \<Longrightarrow> keeps f (seqA m k)"
  unfolding seqA_def by (rule keeps_bind)

lemma keeps_basic:
  "keeps f (ret x)" "keeps f (raise e)" "keeps f (reads g)" "keeps f (query h)" "keeps f (of_result r)" "keeps f (require b e)"
  by (simp_all add: keeps_def require_def)

lemma keeps_for_each: "(\<And>x. x \<in> set xs \<Longrightarrow> keeps f (g x)) \<Longrightarrow> keeps f (for_each g xs)"
  by (induction xs) (simp_all add: keeps_basic keeps_seq)

lemma keeps_option: "keeps f a \<Longrightarrow> (\<And>x. keeps f (g x)) \<Longrightarrow> keeps f (case y of None \<Rightarrow> a | Some x \<Rightarrow> g x)"
  by (cases y) auto

lemma keeps_if: "keeps f a \<Longrightarrow> keeps f b \<Longrightarrow> keeps f (if c then a else b)"
  by simp

lemma keeps_catch:
  assumes "keeps f m" and "\<And>e. keeps f (h e)"
  shows "keeps f (catch stop m h)"
  unfolding keeps_def
proof (intro allI)
  fix s
  obtain r u where m: "m s = (r, u)" by (cases "m s")
  obtain r' v where h: "h (projl r) u = (r', v)" by (cases "h (projl r) u")
  show "f (snd (catch stop m h s)) = f s"
    using m h keepsD [OF assms(1) m] keepsD [OF assms(2) h] by (cases r) (auto simp: catch_def)
qed

lemmas keeping = keeps_bind keeps_seq keeps_basic keeps_for_each

lemma keeps_observed: "keeps (\<lambda>s. s) m \<Longrightarrow> keeps f m"
  by (simp add: keeps_def)

section \<open>Contract: a disk with fates\<close>

text \<open>One write of the disk happens as a whole or not at all, and uses up one fate.\<close>

locale fated_disk =
  fixes fates :: "'s \<Rightarrow> fate list"
    and set_fates :: "fate list \<Rightarrow> 's \<Rightarrow> 's"
    and put :: "('s \<Rightarrow> 's) \<Rightarrow> ('s, 'e, unit) act"
    and io :: 'e and stop :: 'e
  assumes put_eq: "put f s = (case fates s of
       [] \<Rightarrow> (Inr (), f s)
     | Goes # fs \<Rightarrow> (Inr (), f (set_fates fs s))
     | Fails # fs \<Rightarrow> (Inl io, set_fates fs s)
     | Stops # fs \<Rightarrow> (Inl stop, set_fates fs s))"
    and io_stop: "io \<noteq> stop"
begin

text \<open>A condition that does not look at the fates.\<close>

definition fateless :: "('s \<Rightarrow> bool) \<Rightarrow> bool" where
  "fateless G \<longleftrightarrow> (\<forall>s fs. G s \<longrightarrow> G (set_fates fs s))"

lemma hoare_put:
  assumes "fateless G" and "\<And>s. G s \<Longrightarrow> Q () (f s)" and "\<And>s. G s \<Longrightarrow> E s" and "\<And>s. G s \<Longrightarrow> C s"
  shows "hoare stop G (put f) Q E C"
  unfolding hoare_def
proof (intro allI impI)
  fix s
  assume "G s"
  moreover have "G (set_fates fs s)" for fs using assms(1) \<open>G s\<close> by (simp add: fateless_def)
  ultimately show "case put f s of (Inr x, t) \<Rightarrow> Q x t | (Inl e, t) \<Rightarrow> if e = stop then C t else E t"
    using assms(2-4) io_stop by (auto simp: put_eq split: list.splits fate.splits)
qed

lemma put_calm: "fates s = [] \<Longrightarrow> put f s = (Inr (), f s)"
  by (simp add: put_eq)

end

section \<open>Contract: a change that recoveries settle\<close>

text \<open>Any number of recoveries, each with writes of its own fate.\<close>

inductive recovered :: "('t \<Rightarrow> ('s, 'e, 'r) act) \<Rightarrow> (fate list \<Rightarrow> 's \<Rightarrow> 's) \<Rightarrow> 's \<Rightarrow> 's \<Rightarrow> bool"
  for recover refate where
  none_yet: "recovered recover refate s s"
| again: "recovered recover refate s t \<Longrightarrow> recover now (refate fs t) = (r, u) \<Longrightarrow> recovered recover refate s u"

text \<open>
  An interrupted change is undecided, and every recovery that returns takes it back, or decided,
  and every recovery that returns completes it; a recovery that fails or stops decides nothing.
\<close>

locale journaled_change =
  fixes recover :: "'t \<Rightarrow> ('s, 'e, 'r) act"
    and refate :: "fate list \<Rightarrow> 's \<Rightarrow> 's"
    and stop :: 'e
    and undecided decided taken_back completed :: "'s \<Rightarrow> bool"
  assumes undecided_refate: "undecided s \<Longrightarrow> undecided (refate fs s)"
    and decided_refate: "decided s \<Longrightarrow> decided (refate fs s)"
    and takes_back: "hoare stop undecided (recover now) (\<lambda>_. taken_back) undecided undecided"
    and completes: "hoare stop decided (recover now) (\<lambda>_. completed) decided decided"
    and taken_back_undecided: "taken_back s \<Longrightarrow> undecided s"
    and completed_decided: "completed s \<Longrightarrow> decided s"
begin

lemma recovered_undecided: "recovered recover refate s t \<Longrightarrow> undecided s \<Longrightarrow> undecided t"
proof (induction rule: recovered.induct)
  case (again s t now fs r u)
  show ?case
    by (rule hoare_any [OF takes_back undecided_refate again.hyps(2)])
       (use again taken_back_undecided in auto)
qed

lemma recovered_decided: "recovered recover refate s t \<Longrightarrow> decided s \<Longrightarrow> decided t"
proof (induction rule: recovered.induct)
  case (again s t now fs r u)
  show ?case
    by (rule hoare_any [OF completes decided_refate again.hyps(2)])
       (use again completed_decided in auto)
qed

lemma settles:
  assumes "recovered recover refate s t" and "recover now (refate fs t) = (Inr a, u)"
  shows "undecided s \<Longrightarrow> taken_back u" and "decided s \<Longrightarrow> completed u"
  using hoareD(1) [OF takes_back undecided_refate assms(2)] recovered_undecided [OF assms(1)]
    hoareD(1) [OF completes decided_refate assms(2)] recovered_decided [OF assms(1)] by blast+

end

end
