(* ===== verification/Atomic_Commit.thy ===== *)
theory Atomic_Commit
  imports Fault_Logic
begin

text \<open>
  The atomic commit of several Instance files (core/provelume/atomic_commit.py): a transaction
  collects writes, prepares a journal with every candidate and every preimage, publishes the
  candidates by renames, marks the journal committed and removes it; the recovery that runs
  when an Instance is opened rolls a prepared journal back and cleans a committed one up.
  The disk takes one write at a time; any of them may fail, and the process may stop before
  any of them.
\<close>

section \<open>The disk\<close>

type_synonym bytes = string

datatype ac_error = Integrity_error | Limit_error | Commit_error | Recovery_error | Io_error | Crash

datatype operation = Op_write | Op_remove

record entry =
  e_relative :: string
  e_immutable :: bool
  e_had :: bool
  e_pre_ref :: "string option"
  e_pre_sha :: "string option"
  e_cand_ref :: string
  e_cand_sha :: string
  e_operation :: "operation option"

datatype tx_status = Prepared | Committed

record manifest =
  m_schema :: nat
  m_transaction :: string
  m_kind :: string
  m_status :: tx_status
  m_owner :: string
  m_prepared_at :: string
  m_committed_at :: "string option"
  m_entries :: "entry list"

text \<open>The file manifest.json of a stage: absent, unreadable, or a manifest.\<close>

datatype marker = No_marker | Bad_marker | Marker manifest

record stage =
  sg_files :: "string \<Rightarrow> bytes option"
  sg_marker :: marker

text \<open>
  The live files of the Instance, the stages of the journal, and the fates of the writes to
  come.
\<close>

record disk =
  d_live :: "string \<Rightarrow> bytes option"
  d_stages :: "(string \<times> stage) list"
  d_fates :: "fate list"

type_synonym 'a disk_act = "(disk, ac_error, 'a) act"

text \<open>One write that either happens as a whole or not at all.\<close>

definition disk_write :: "(disk \<Rightarrow> disk) \<Rightarrow> unit disk_act" where
  "disk_write f = (\<lambda>s. case d_fates s of
       [] \<Rightarrow> (Inr (), f s)
     | Goes # fs \<Rightarrow> (Inr (), f (s\<lparr>d_fates := fs\<rparr>))
     | Fails # fs \<Rightarrow> (Inl Io_error, s\<lparr>d_fates := fs\<rparr>)
     | Stops # fs \<Rightarrow> (Inl Crash, s\<lparr>d_fates := fs\<rparr>))"

interpretation journal_disk: fated_disk d_fates "\<lambda>fs s. s\<lparr>d_fates := fs\<rparr>" disk_write Io_error Crash
  by unfold_locales (simp_all add: disk_write_def)

abbreviation on_error :: "'a disk_act \<Rightarrow> (ac_error \<Rightarrow> 'a disk_act) \<Rightarrow> 'a disk_act" where
  "on_error \<equiv> catch Crash"

definition stage_at :: "disk \<Rightarrow> string \<Rightarrow> stage option" where
  "stage_at s i = map_of (d_stages s) i"

definition set_stage :: "string \<Rightarrow> stage \<Rightarrow> disk \<Rightarrow> disk" where
  "set_stage i g s = s\<lparr>d_stages := AList.update i g (d_stages s)\<rparr>"

definition drop_stage :: "string \<Rightarrow> disk \<Rightarrow> disk" where
  "drop_stage i s = s\<lparr>d_stages := AList.delete i (d_stages s)\<rparr>"

definition set_live :: "string \<Rightarrow> bytes option \<Rightarrow> disk \<Rightarrow> disk" where
  "set_live p b s = s\<lparr>d_live := (d_live s)(p := b)\<rparr>"

definition empty_stage :: stage where
  "empty_stage = \<lparr>sg_files = (\<lambda>_. None), sg_marker = No_marker\<rparr>"

definition the_stage :: "disk \<Rightarrow> string \<Rightarrow> stage" where
  "the_stage s i = (case stage_at s i of None \<Rightarrow> empty_stage | Some g \<Rightarrow> g)"

definition set_file :: "string \<Rightarrow> string \<Rightarrow> bytes option \<Rightarrow> disk \<Rightarrow> disk" where
  "set_file i ref b s =
     (let g = the_stage s i in set_stage i (g\<lparr>sg_files := (sg_files g)(ref := b)\<rparr>) s)"

definition set_marker :: "string \<Rightarrow> marker \<Rightarrow> disk \<Rightarrow> disk" where
  "set_marker i m s = (let g = the_stage s i in set_stage i (g\<lparr>sg_marker := m\<rparr>) s)"

section \<open>Profiles\<close>

record limits =
  max_entries :: nat
  max_entry_bytes :: nat
  max_candidate_bytes :: nat
  max_preimage_bytes :: nat
  max_journal_bytes :: nat

definition limits_ok :: "limits \<Rightarrow> bool" where
  "limits_ok l \<longleftrightarrow>
     1 \<le> max_entries l \<and> 1 \<le> max_entry_bytes l \<and> 1 \<le> max_candidate_bytes l
   \<and> 1 \<le> max_preimage_bytes l \<and> 1 \<le> max_journal_bytes l
   \<and> max_candidate_bytes l \<le> max_journal_bytes l \<and> max_preimage_bytes l \<le> max_journal_bytes l"

text \<open>The owner pattern of a profile is a prefix and a number of hexadecimal digits.\<close>

record profile =
  pf_key :: string
  pf_kind :: string
  pf_owner :: string
  pf_owner_digits :: nat
  pf_limits :: limits

definition mib :: nat where "mib = 1024 * 1024"

definition MANUAL_WEB_PROFILE :: profile where
  "MANUAL_WEB_PROFILE = \<lparr>pf_key = ''manual-web'', pf_kind = ''connector.web.acquire'', pf_owner = ''op_'',
     pf_owner_digits = 32,
     pf_limits = \<lparr>max_entries = 2048, max_entry_bytes = 64 * mib, max_candidate_bytes = 128 * mib,
                  max_preimage_bytes = 64 * mib, max_journal_bytes = 192 * mib\<rparr>\<rparr>"

definition EMAIL_INTAKE_PROFILE :: profile where
  "EMAIL_INTAKE_PROFILE = \<lparr>pf_key = ''email-intake'', pf_kind = ''email.intake'', pf_owner = ''job_'',
     pf_owner_digits = 32,
     pf_limits = \<lparr>max_entries = 4096, max_entry_bytes = 64 * mib, max_candidate_bytes = 256 * mib,
                  max_preimage_bytes = 128 * mib, max_journal_bytes = 384 * mib\<rparr>\<rparr>"

definition GOOGLE_INTAKE_PROFILE :: profile where
  "GOOGLE_INTAKE_PROFILE = \<lparr>pf_key = ''google-intake'', pf_kind = ''google.intake'', pf_owner = ''job_'',
     pf_owner_digits = 32,
     pf_limits = \<lparr>max_entries = 4096, max_entry_bytes = 256 * mib, max_candidate_bytes = 512 * mib,
                  max_preimage_bytes = 128 * mib, max_journal_bytes = 768 * mib\<rparr>\<rparr>"

definition TRANSCRIPT_INTAKE_PROFILE :: profile where
  "TRANSCRIPT_INTAKE_PROFILE = \<lparr>pf_key = ''transcript-intake'', pf_kind = ''transcript.intake'', pf_owner = ''job_'',
     pf_owner_digits = 32,
     pf_limits = \<lparr>max_entries = 2048, max_entry_bytes = 64 * mib, max_candidate_bytes = 192 * mib,
                  max_preimage_bytes = 64 * mib, max_journal_bytes = 256 * mib\<rparr>\<rparr>"

definition REVIEW_PROFILE :: profile where
  "REVIEW_PROFILE = \<lparr>pf_key = ''review'', pf_kind = ''review-domain'', pf_owner = ''review_'',
     pf_owner_digits = 32,
     pf_limits = \<lparr>max_entries = 257, max_entry_bytes = 8 * mib, max_candidate_bytes = 40 * mib,
                  max_preimage_bytes = 32 * mib, max_journal_bytes = 72 * mib\<rparr>\<rparr>"

fun key_run :: "bool \<Rightarrow> string \<Rightarrow> bool" where
  "key_run inside [] = inside"
| "key_run inside (c # cs) =
     (if c \<in> set ''abcdefghijklmnopqrstuvwxyz0123456789'' then key_run True cs
      else c = CHR ''-'' \<and> inside \<and> key_run False cs)"

definition profile_key_ok :: "string \<Rightarrow> bool" where
  "profile_key_ok k \<longleftrightarrow>
     k \<noteq> [] \<and> hd k \<in> set ''abcdefghijklmnopqrstuvwxyz'' \<and> key_run False k"

definition profile_ok :: "profile \<Rightarrow> bool" where
  "profile_ok p \<longleftrightarrow> limits_ok (pf_limits p) \<and> profile_key_ok (pf_key p)
     \<and> pf_kind p \<noteq> [] \<and> length (pf_kind p) \<le> 120 \<and> max_entries (pf_limits p) \<le> 10000"

definition transaction_ok :: "profile \<Rightarrow> string \<Rightarrow> bool" where
  "transaction_ok p = prefixed_hex (pf_key p @ ''-'') 32"

definition accepts_owner :: "profile \<Rightarrow> string \<Rightarrow> bool" where
  "accepts_owner p = prefixed_hex (pf_owner p) (pf_owner_digits p)"

definition manifest_byte_limit :: "nat \<Rightarrow> nat" where
  "manifest_byte_limit n = 64 * 1024 + n * (8 * 1024)"

section \<open>Locators and journal files\<close>

fun split_slash :: "string \<Rightarrow> string \<Rightarrow> string list" where
  "split_slash acc [] = [acc]"
| "split_slash acc (c # cs) =
     (if c = CHR ''/'' then acc # split_slash [] cs else split_slash (acc @ [c]) cs)"

fun join_slash :: "string list \<Rightarrow> string" where
  "join_slash [] = ''.''"
| "join_slash [p] = p"
| "join_slash (p # q # ps) = p @ ''/'' @ join_slash (q # ps)"

text \<open>A POSIX path drops empty and dot components.\<close>

definition normalise_locator :: "string \<Rightarrow> string option" where
  "normalise_locator v =
     (let c = map (\<lambda>x. if x = CHR 0x5C then CHR ''/'' else x) v;
          parts = filter (\<lambda>p. p \<noteq> [] \<and> p \<noteq> ''.'') (split_slash [] c)
      in if (c \<noteq> [] \<and> hd c = CHR ''/'') \<or> ''..'' \<in> set parts
            \<or> (parts \<noteq> [] \<and> hd parts \<noteq> [] \<and> last (hd parts) = CHR '':'')
         then None else Some (join_slash parts))"

text \<open>
  What the commit takes from its surroundings: the digest, whether every component of a
  locator is free of links, the size of a written manifest, the clock, and the order in which
  the file system lists the files of a stage when it is removed.
\<close>

datatype stage_item = Journal_file string | Marker_file

record commit_env =
  ce_sha :: "bytes \<Rightarrow> string"
  ce_plain :: "string \<Rightarrow> bool"
  ce_manifest_size :: "manifest \<Rightarrow> nat"
  ce_now :: string
  ce_listing :: "stage \<Rightarrow> stage_item list"

definition instance_target :: "commit_env \<Rightarrow> string \<Rightarrow> string option" where
  "instance_target env r =
     (case normalise_locator r of
        None \<Rightarrow> None
      | Some p \<Rightarrow> if p = ''.'' \<or> \<not> ce_plain env p then None else Some p)"

definition target_or :: "commit_env \<Rightarrow> ac_error \<Rightarrow> string \<Rightarrow> string disk_act" where
  "target_or env e r = (case instance_target env r of None \<Rightarrow> raise e | Some p \<Rightarrow> ret p)"

definition digit_of :: "nat \<Rightarrow> char" where
  "digit_of n = ''0123456789'' ! (n mod 10)"

definition four_digits :: "nat \<Rightarrow> string" where
  "four_digits n = [digit_of (n div 1000), digit_of (n div 100), digit_of (n div 10), digit_of n]"

definition journal_ref :: "string \<Rightarrow> nat \<Rightarrow> string" where
  "journal_ref dir n = dir @ ''/'' @ four_digits n @ ''.bin''"

definition journal_file_in :: "string \<Rightarrow> string \<Rightarrow> bool" where
  "journal_file_in dir r \<longleftrightarrow>
     (let n = length dir + 1 in
      take n r = dir @ ''/'' \<and> length r = n + 8 \<and> drop (n + 4) r = ''.bin''
      \<and> list_all (\<lambda>c. c \<in> set ''0123456789'') (take 4 (drop n r)))"

definition classification_file :: "string \<Rightarrow> bool" where
  "classification_file r \<longleftrightarrow>
     (let p = ''knowledge/classifications/classification_''; n = length p in
      take n r = p \<and> length r = n + 37 \<and> drop (n + 32) r = ''.json''
      \<and> list_all hexchar (take 32 (drop n r)))"

section \<open>Collecting the writes\<close>

text \<open>A write of \<open>None\<close> removes a reviewed classification, of the given digest.\<close>

record transaction =
  tx_profile :: profile
  tx_owner :: string
  tx_writes :: "(string \<times> bytes option \<times> bool) list"
  tx_removals :: "(string \<times> string) list"
  tx_bytes :: nat

definition new_transaction :: "profile \<Rightarrow> string \<Rightarrow> ac_error + transaction" where
  "new_transaction p owner =
     (if \<not> accepts_owner p owner then Inl Integrity_error
      else Inr \<lparr>tx_profile = p, tx_owner = owner, tx_writes = [], tx_removals = [], tx_bytes = 0\<rparr>)"

definition add_write :: "commit_env \<Rightarrow> transaction \<Rightarrow> string \<Rightarrow> bytes \<Rightarrow> bool \<Rightarrow> ac_error + transaction" where
  "add_write env t r data imm =
     (case instance_target env r of
        None \<Rightarrow> Inl Integrity_error
      | Some p \<Rightarrow>
          (case map_of (tx_writes t) p of
             Some current \<Rightarrow> if current \<noteq> (Some data, imm) then Inl Integrity_error else Inr t
           | None \<Rightarrow>
               let l = pf_limits (tx_profile t) in
               if length (tx_writes t) \<ge> max_entries l \<or> length data > max_entry_bytes l
                  \<or> tx_bytes t + length data > max_candidate_bytes l
                  \<or> tx_bytes t + length data > max_journal_bytes l
               then Inl Limit_error
               else Inr (t\<lparr>tx_writes := tx_writes t @ [(p, Some data, imm)],
                           tx_bytes := tx_bytes t + length data\<rparr>)))"

definition remove_classification ::
  "commit_env \<Rightarrow> transaction \<Rightarrow> string \<Rightarrow> string \<Rightarrow> ac_error + transaction" where
  "remove_classification env t r expected =
     (if tx_profile t \<noteq> REVIEW_PROFILE \<or> \<not> classification_file r \<or> \<not> sha256_text expected
      then Inl Integrity_error
      else case instance_target env r of
        None \<Rightarrow> Inl Integrity_error
      | Some p \<Rightarrow>
          (case map_of (tx_writes t) p of
             Some current \<Rightarrow>
               if current \<noteq> (None, False) \<or> map_of (tx_removals t) p \<noteq> Some expected
               then Inl Integrity_error else Inr t
           | None \<Rightarrow>
               if length (tx_writes t) \<ge> max_entries (pf_limits (tx_profile t)) then Inl Limit_error
               else Inr (t\<lparr>tx_writes := tx_writes t @ [(p, None, False)],
                           tx_removals := tx_removals t @ [(p, expected)]\<rparr>)))"

section \<open>Preparing the journal\<close>

definition live_bytes :: "nat \<Rightarrow> ac_error \<Rightarrow> ac_error \<Rightarrow> string \<Rightarrow> bytes option disk_act" where
  "live_bytes limit integrity too_big p =
     query (\<lambda>s. case d_live s p of
         None \<Rightarrow> Inr None
       | Some b \<Rightarrow> if length b > limit then Inl too_big else Inr (Some b))"

definition journal_bytes :: "nat \<Rightarrow> ac_error \<Rightarrow> string \<Rightarrow> string \<Rightarrow> bytes disk_act" where
  "journal_bytes limit e i ref =
     query (\<lambda>s. case sg_files (the_stage s i) ref of
         None \<Rightarrow> Inl e
       | Some b \<Rightarrow> if length b > limit then Inl e else Inr b)"

record prepared =
  pr_entries :: "entry list"
  pr_payloads :: "(string \<times> bytes) list"
  pr_candidate_bytes :: nat
  pr_preimage_bytes :: nat

definition prepare_entry ::
  "commit_env \<Rightarrow> transaction \<Rightarrow> nat \<Rightarrow> string \<times> bytes option \<times> bool \<Rightarrow> prepared \<Rightarrow> prepared disk_act" where
  "prepare_entry env t n w acc =
     (let (r, data, imm) = w; l = pf_limits (tx_profile t); removing = (data = None) in
      bindA (target_or env Integrity_error r) (\<lambda>p.
      bindA (live_bytes (max_entry_bytes l) Integrity_error Limit_error p) (\<lambda>before.
      seqA (require (\<not> (removing \<and> (before = None \<or> Some (ce_sha env (the before)) \<noteq> map_of (tx_removals t) r)))
              Integrity_error)
      (seqA (require (\<not> (before \<noteq> None \<and> imm \<and> before \<noteq> data)) Integrity_error)
      (if before = data then ret acc
       else
         let candidate = (if removing then the before else the data);
             cb = pr_candidate_bytes acc + length candidate;
             pb = pr_preimage_bytes acc + (case before of None \<Rightarrow> 0 | Some b \<Rightarrow> length b);
             cref = journal_ref ''candidates'' n; pref = journal_ref ''preimages'' n
         in seqA (require (\<not> (cb > max_candidate_bytes l \<or> pb > max_preimage_bytes l
                             \<or> cb + pb > max_journal_bytes l)) Limit_error)
              (ret \<lparr>pr_entries = pr_entries acc @
                      [\<lparr>e_relative = r, e_immutable = imm, e_had = (before \<noteq> None),
                        e_pre_ref = (if before \<noteq> None then Some pref else None),
                        e_pre_sha = map_option (ce_sha env) before,
                        e_cand_ref = cref, e_cand_sha = ce_sha env candidate,
                        e_operation = (if tx_removals t = [] then None
                                       else if map_of (tx_removals t) r \<noteq> None then Some Op_remove
                                       else Some Op_write)\<rparr>],
                    pr_payloads = pr_payloads acc @ (if removing then [] else [(cref, candidate)])
                      @ (case before of None \<Rightarrow> [] | Some b \<Rightarrow> [(pref, b)]),
                    pr_candidate_bytes = cb, pr_preimage_bytes = pb\<rparr>))))))"

fun prepare_entries ::
  "commit_env \<Rightarrow> transaction \<Rightarrow> nat \<Rightarrow> (string \<times> bytes option \<times> bool) list \<Rightarrow> prepared \<Rightarrow> prepared disk_act" where
  "prepare_entries env t n [] acc = ret acc"
| "prepare_entries env t n (w # ws) acc =
     bindA (prepare_entry env t n w acc) (\<lambda>acc'. prepare_entries env t (Suc n) ws acc')"

definition no_entries :: prepared where
  "no_entries = \<lparr>pr_entries = [], pr_payloads = [], pr_candidate_bytes = 0, pr_preimage_bytes = 0\<rparr>"

definition write_marker ::
  "commit_env \<Rightarrow> nat \<Rightarrow> ac_error \<Rightarrow> string \<Rightarrow> manifest \<Rightarrow> unit disk_act" where
  "write_marker env n e i m =
     seqA (require (ce_manifest_size env m \<le> manifest_byte_limit n) e)
       (disk_write (set_marker i (Marker m)))"

text \<open>\<open>shutil.rmtree\<close> removes one file after the other, in the order of the listing.\<close>

definition remove_item :: "string \<Rightarrow> stage_item \<Rightarrow> unit disk_act" where
  "remove_item i x = disk_write (case x of
       Journal_file ref \<Rightarrow> set_file i ref None
     | Marker_file \<Rightarrow> set_marker i No_marker)"

definition remove_stage :: "commit_env \<Rightarrow> string \<Rightarrow> unit disk_act" where
  "remove_stage env i =
     bindA (reads (\<lambda>s. ce_listing env (the_stage s i))) (\<lambda>items.
     seqA (for_each (remove_item i) items) (disk_write (drop_stage i)))"

text \<open>With \<open>ignore_errors\<close> the walk goes on after a failure; the directory then stays.\<close>

fun remove_items_quietly :: "string \<Rightarrow> stage_item list \<Rightarrow> bool disk_act" where
  "remove_items_quietly i [] = ret True"
| "remove_items_quietly i (x # xs) =
     bindA (on_error (seqA (remove_item i x) (ret True)) (\<lambda>_. ret False)) (\<lambda>gone.
     bindA (remove_items_quietly i xs) (\<lambda>rest. ret (gone \<and> rest)))"

definition remove_stage_quietly :: "commit_env \<Rightarrow> string \<Rightarrow> unit disk_act" where
  "remove_stage_quietly env i =
     bindA (reads (\<lambda>s. ce_listing env (the_stage s i))) (\<lambda>items.
     bindA (remove_items_quietly i items) (\<lambda>gone.
       if gone then on_error (disk_write (drop_stage i)) (\<lambda>_. ret ()) else ret ()))"

definition prepare_stage :: "commit_env \<Rightarrow> transaction \<Rightarrow> string \<Rightarrow> manifest disk_act" where
  "prepare_stage env t i =
     (let l = pf_limits (tx_profile t) in
      bindA (prepare_entries env t 0 (sort_key fst (tx_writes t)) no_entries) (\<lambda>pr.
      seqA (require (pr_entries pr \<noteq> []) Integrity_error)
      (seqA (for_each (\<lambda>(ref, b). disk_write (set_file i ref (Some b))) (pr_payloads pr))
      (let m = \<lparr>m_schema = (if tx_removals t = [] then 1 else 2), m_transaction = i,
                m_kind = pf_kind (tx_profile t), m_status = Prepared, m_owner = tx_owner t,
                m_prepared_at = ce_now env, m_committed_at = None, m_entries = pr_entries pr\<rparr>
       in seqA (write_marker env (max_entries l) Limit_error i m) (ret m)))))"

definition prepare :: "commit_env \<Rightarrow> transaction \<Rightarrow> string \<Rightarrow> (string \<times> manifest) disk_act" where
  "prepare env t hex =
     seqA (require (tx_writes t \<noteq> []) Integrity_error)
     (let i = pf_key (tx_profile t) @ ''-'' @ hex in
      seqA (disk_write (set_stage i empty_stage))
        (bindA (on_error (prepare_stage env t i)
                  (\<lambda>e. seqA (remove_stage_quietly env i) (raise e))) (\<lambda>m. ret (i, m))))"

section \<open>Publishing\<close>

definition removes :: "entry \<Rightarrow> bool" where
  "removes e \<longleftrightarrow> e_operation e = Some Op_remove"

definition publish_entry :: "commit_env \<Rightarrow> profile \<Rightarrow> string \<Rightarrow> entry \<Rightarrow> unit disk_act" where
  "publish_entry env p i e =
     (let n = max_entry_bytes (pf_limits p) in
      bindA (target_or env Commit_error (e_relative e)) (\<lambda>target.
      bindA (live_bytes n Commit_error Commit_error target) (\<lambda>before.
      bindA (if e_had e then bindA (journal_bytes n Commit_error i (the (e_pre_ref e))) (\<lambda>b. ret (Some b))
             else ret None) (\<lambda>expected.
      seqA (require (before = expected) Commit_error)
      (if removes e
       then bindA (reads (\<lambda>s. sg_files (the_stage s i) (e_cand_ref e))) (\<lambda>candidate.
            seqA (require (candidate = None) Commit_error)
            (seqA (disk_write (\<lambda>s. set_file i (e_cand_ref e) (d_live s target) (set_live target None s)))
            (bindA (journal_bytes n Commit_error i (e_cand_ref e)) (\<lambda>moved.
             require (Some (ce_sha env moved) = e_pre_sha e) Commit_error))))
       else bindA (journal_bytes n Commit_error i (e_cand_ref e)) (\<lambda>candidate.
            seqA (require (ce_sha env candidate = e_cand_sha e) Commit_error)
              (disk_write (\<lambda>s. set_live target (Some candidate) (set_file i (e_cand_ref e) None s)))))))))"

section \<open>Rolling back\<close>

text \<open>\<open>err\<close> is the error type that the caller passes.\<close>

definition live_digest :: "commit_env \<Rightarrow> nat \<Rightarrow> ac_error \<Rightarrow> string \<Rightarrow> string disk_act" where
  "live_digest env n err p =
     query (\<lambda>s. case d_live s p of
         None \<Rightarrow> Inl err
       | Some b \<Rightarrow> if length b > n then Inl err else Inr (ce_sha env b))"

definition rollback_removal ::
  "commit_env \<Rightarrow> nat \<Rightarrow> ac_error \<Rightarrow> string \<Rightarrow> entry \<Rightarrow> string \<Rightarrow> unit disk_act" where
  "rollback_removal env n err i e target =
     bindA (reads (\<lambda>s. sg_files (the_stage s i) (e_cand_ref e))) (\<lambda>c.
       if c = None then ret ()
       else bindA (journal_bytes n err i (e_cand_ref e)) (\<lambda>removed.
            bindA (journal_bytes n err i (the (e_pre_ref e))) (\<lambda>before.
            seqA (require (removed = before \<and> Some (ce_sha env before) = e_pre_sha e) err)
            (bindA (live_bytes n err err target) (\<lambda>live.
             seqA (require (live = None \<or> live = Some before) err)
               (if live = None then disk_write (set_live target (Some before)) else ret ()))))))"

definition rollback_write ::
  "commit_env \<Rightarrow> nat \<Rightarrow> ac_error \<Rightarrow> string \<Rightarrow> entry \<Rightarrow> string \<Rightarrow> unit disk_act" where
  "rollback_write env n err i e target =
     bindA (reads (\<lambda>s. sg_files (the_stage s i) (e_cand_ref e))) (\<lambda>c.
     seqA (require (case c of None \<Rightarrow> True | Some b \<Rightarrow> length b \<le> n \<and> ce_sha env b = e_cand_sha e) err)
     (if e_had e
      then bindA (journal_bytes n err i (the (e_pre_ref e))) (\<lambda>before.
           seqA (require (Some (ce_sha env before) = e_pre_sha e) err)
           (bindA (live_digest env n err target) (\<lambda>live.
            if Some live = e_pre_sha e then ret ()
            else if live \<noteq> e_cand_sha e
            then (if c \<noteq> None then ret () else raise err)
            else disk_write (set_live target (Some before)))))
      else bindA (reads (\<lambda>s. d_live s target)) (\<lambda>now.
           if now = None then ret ()
           else bindA (live_digest env n err target) (\<lambda>live.
                if live \<noteq> e_cand_sha e
                then (if c \<noteq> None then ret () else raise err)
                else disk_write (set_live target None)))))"

definition rollback_entry ::
  "commit_env \<Rightarrow> profile \<Rightarrow> ac_error \<Rightarrow> string \<Rightarrow> entry \<Rightarrow> unit disk_act" where
  "rollback_entry env p err i e =
     bindA (target_or env err (e_relative e)) (\<lambda>target.
       if removes e then rollback_removal env (max_entry_bytes (pf_limits p)) err i e target
       else rollback_write env (max_entry_bytes (pf_limits p)) err i e target)"

definition rollback ::
  "commit_env \<Rightarrow> profile \<Rightarrow> ac_error \<Rightarrow> string \<Rightarrow> manifest \<Rightarrow> unit disk_act" where
  "rollback env p err i m = for_each (rollback_entry env p err i) (rev (m_entries m))"

section \<open>The commit\<close>

definition seal_commit :: "commit_env \<Rightarrow> profile \<Rightarrow> string \<Rightarrow> manifest \<Rightarrow> unit disk_act" where
  "seal_commit env p i m =
     write_marker env (max_entries (pf_limits p)) Commit_error i
       (m\<lparr>m_status := Committed, m_committed_at := Some (ce_now env)\<rparr>)"

definition public_error :: "ac_error \<Rightarrow> ac_error" where
  "public_error e = (if e \<in> {Integrity_error, Limit_error, Commit_error} then e else Commit_error)"

definition commit :: "commit_env \<Rightarrow> transaction \<Rightarrow> string \<Rightarrow> unit disk_act" where
  "commit env t hex =
     (let p = tx_profile t in
      bindA (on_error (prepare env t hex) (\<lambda>e. raise (public_error e))) (\<lambda>(i, m).
      seqA (on_error (seqA (for_each (publish_entry env p i) (m_entries m)) (seal_commit env p i m))
              (\<lambda>e. seqA (on_error (seqA (rollback env p Commit_error i m) (remove_stage env i))
                             (\<lambda>_. raise Commit_error))
                     (raise (public_error e))))
        (remove_stage_quietly env i)))"

end
