(* ===== verification/Atomic_Recovery.thy ===== *)
theory Atomic_Recovery
  imports Atomic_Commit
begin

text \<open>
  The recovery of interrupted commits (core/provelume/atomic_commit.py, functions
  _load_transaction_manifest, _validate_transaction_manifest and recover_atomic_transactions):
  every stage of a registered profile is validated, then rolled back or cleaned up.
\<close>

section \<open>Validation of a journal\<close>

record journal_scan =
  js_seen :: "string list"
  js_candidates :: "string list"
  js_preimages :: "string list"
  js_candidate_bytes :: nat
  js_preimage_bytes :: nat

definition no_scan :: journal_scan where
  "no_scan = \<lparr>js_seen = [], js_candidates = [], js_preimages = [], js_candidate_bytes = 0,
     js_preimage_bytes = 0\<rparr>"

text \<open>The digest and size of a journal or live file, if it is there within the bound.\<close>

definition file_digest :: "commit_env \<Rightarrow> nat \<Rightarrow> bytes option \<Rightarrow> (string \<times> nat) option" where
  "file_digest env n b = (case b of
       None \<Rightarrow> None
     | Some x \<Rightarrow> if length x > n then None else Some (ce_sha env x, length x))"

definition entry_shape_ok :: "commit_env \<Rightarrow> nat \<Rightarrow> journal_scan \<Rightarrow> entry \<Rightarrow> bool" where
  "entry_shape_ok env schema acc e \<longleftrightarrow>
     instance_target env (e_relative e) = Some (e_relative e) \<and> e_relative e \<notin> set (js_seen acc)
   \<and> journal_file_in ''candidates'' (e_cand_ref e) \<and> e_cand_ref e \<notin> set (js_candidates acc)
   \<and> sha256_text (e_cand_sha e) \<and> (schema = 2 \<longleftrightarrow> e_operation e \<noteq> None)
   \<and> (removes e \<longrightarrow> classification_file (e_relative e) \<and> \<not> e_immutable e \<and> e_had e
        \<and> Some (e_cand_sha e) = e_pre_sha e)"

text \<open>The size of the preimage of an entry, or none when the entry is rejected.\<close>

definition preimage_size :: "commit_env \<Rightarrow> nat \<Rightarrow> stage \<Rightarrow> journal_scan \<Rightarrow> entry \<Rightarrow> nat option" where
  "preimage_size env n g acc e =
     (if e_had e
      then (case (e_pre_ref e, e_pre_sha e) of
              (Some ref, Some sha) \<Rightarrow>
                if journal_file_in ''preimages'' ref \<and> ref \<notin> set (js_preimages acc) \<and> sha256_text sha
                then (case file_digest env n (sg_files g ref) of
                        Some (d, len) \<Rightarrow> if d = sha then Some len else None
                      | None \<Rightarrow> None)
                else None
            | _ \<Rightarrow> None)
      else if e_pre_ref e = None \<and> e_pre_sha e = None then Some 0 else None)"

definition removal_state_ok ::
  "commit_env \<Rightarrow> nat \<Rightarrow> tx_status \<Rightarrow> bytes option \<Rightarrow> bytes option \<Rightarrow> nat \<Rightarrow> entry \<Rightarrow> bool" where
  "removal_state_ok env n status candidate live len e =
     (if candidate \<noteq> None
      then (case file_digest env n candidate of
              None \<Rightarrow> False
            | Some (d, k) \<Rightarrow> Some d = e_pre_sha e \<and> k = len)
           \<and> (live = None \<or> (case file_digest env n live of
                None \<Rightarrow> False
              | Some (d, _) \<Rightarrow> status = Prepared \<and> Some d = e_pre_sha e))
      else status = Prepared)"

text \<open>The candidate bytes of a written entry: in the journal, already live, or rolled back.\<close>

definition written_bytes ::
  "commit_env \<Rightarrow> nat \<Rightarrow> tx_status \<Rightarrow> bytes option \<Rightarrow> bytes option \<Rightarrow> entry \<Rightarrow> nat option" where
  "written_bytes env n status candidate live e =
     (if candidate \<noteq> None
      then (case file_digest env n candidate of
              None \<Rightarrow> None | Some (d, k) \<Rightarrow> if d = e_cand_sha e then Some k else None)
      else if live \<noteq> None
      then (case file_digest env n live of
              None \<Rightarrow> None
            | Some (d, k) \<Rightarrow>
                if d = e_cand_sha e then Some k
                else if status = Prepared \<and> e_had e \<and> Some d = e_pre_sha e then Some 0
                else None)
      else if status \<noteq> Prepared \<or> e_had e then None else Some 0)"

definition validate_entry ::
  "commit_env \<Rightarrow> profile \<Rightarrow> nat \<Rightarrow> tx_status \<Rightarrow> disk \<Rightarrow> stage \<Rightarrow> journal_scan \<Rightarrow> entry \<Rightarrow> journal_scan option" where
  "validate_entry env p schema status s g acc e =
     (let l = pf_limits p; n = max_entry_bytes l; live = d_live s (e_relative e);
          candidate = sg_files g (e_cand_ref e) in
      if \<not> entry_shape_ok env schema acc e then None
      else case preimage_size env n g acc e of
        None \<Rightarrow> None
      | Some len \<Rightarrow>
          let pb = js_preimage_bytes acc + len in
          if pb > max_preimage_bytes l then None
          else case (if removes e
                     then (if removal_state_ok env n status candidate live len e then Some len else None)
                     else written_bytes env n status candidate live e) of
            None \<Rightarrow> None
          | Some k \<Rightarrow>
              let cb = js_candidate_bytes acc + k in
              if cb > max_candidate_bytes l \<or> cb + pb > max_journal_bytes l then None
              else Some \<lparr>js_seen = e_relative e # js_seen acc,
                         js_candidates = e_cand_ref e # js_candidates acc,
                         js_preimages = (case e_pre_ref e of None \<Rightarrow> [] | Some r \<Rightarrow> [r]) @ js_preimages acc,
                         js_candidate_bytes = cb, js_preimage_bytes = pb\<rparr>)"

fun validate_entries ::
  "commit_env \<Rightarrow> profile \<Rightarrow> nat \<Rightarrow> tx_status \<Rightarrow> disk \<Rightarrow> stage \<Rightarrow> journal_scan \<Rightarrow> entry list \<Rightarrow> bool" where
  "validate_entries env p schema status s g acc [] = True"
| "validate_entries env p schema status s g acc (e # es) =
     (case validate_entry env p schema status s g acc e of
        None \<Rightarrow> False
      | Some acc' \<Rightarrow> validate_entries env p schema status s g acc' es)"

definition validate_manifest :: "commit_env \<Rightarrow> profile \<Rightarrow> string \<Rightarrow> disk \<Rightarrow> stage \<Rightarrow> manifest \<Rightarrow> bool" where
  "validate_manifest env p i s g m \<longleftrightarrow>
     (m_schema m = 1 \<or> (m_schema m = 2 \<and> p = REVIEW_PROFILE))
   \<and> m_transaction m = i \<and> transaction_ok p i \<and> m_kind m = pf_kind p \<and> accepts_owner p (m_owner m)
   \<and> (m_status m = Prepared \<longleftrightarrow> m_committed_at m = None)
   \<and> 1 \<le> length (m_entries m) \<and> length (m_entries m) \<le> max_entries (pf_limits p)
   \<and> validate_entries env p (m_schema m) (m_status m) s g no_scan (m_entries m)"

section \<open>Recovery\<close>

record recovery_handler =
  rh_profile :: profile
  rh_interrupted :: "(string \<Rightarrow> unit disk_act) option"

record recovery_report =
  rr_rolled_back :: nat
  rr_cleaned :: nat

definition check_committed :: "commit_env \<Rightarrow> profile \<Rightarrow> entry \<Rightarrow> unit disk_act" where
  "check_committed env p e =
     bindA (target_or env Recovery_error (e_relative e)) (\<lambda>target.
       if removes e
       then bindA (reads (\<lambda>s. d_live s target)) (\<lambda>live. require (live = None) Recovery_error)
       else bindA (live_digest env (max_entry_bytes (pf_limits p)) Recovery_error target) (\<lambda>d.
              require (d = e_cand_sha e) Recovery_error))"

definition load_manifest :: "commit_env \<Rightarrow> profile \<Rightarrow> string \<Rightarrow> manifest option disk_act" where
  "load_manifest env p i =
     query (\<lambda>s. case sg_marker (the_stage s i) of
         No_marker \<Rightarrow> Inr None
       | Bad_marker \<Rightarrow> Inl Recovery_error
       | Marker m \<Rightarrow> if ce_manifest_size env m > manifest_byte_limit (max_entries (pf_limits p))
                     then Inl Recovery_error else Inr (Some m))"

definition recover_prepared ::
  "commit_env \<Rightarrow> recovery_handler \<Rightarrow> string \<Rightarrow> manifest \<Rightarrow> recovery_report \<Rightarrow> recovery_report disk_act" where
  "recover_prepared env h i m rep =
     seqA (rollback env (rh_profile h) Recovery_error i m)
     (seqA (case rh_interrupted h of None \<Rightarrow> ret () | Some f \<Rightarrow> f (m_owner m))
     (seqA (remove_stage env i) (ret (rep\<lparr>rr_rolled_back := rr_rolled_back rep + 1\<rparr>))))"

definition recover_committed ::
  "commit_env \<Rightarrow> recovery_handler \<Rightarrow> string \<Rightarrow> manifest \<Rightarrow> recovery_report \<Rightarrow> recovery_report disk_act" where
  "recover_committed env h i m rep =
     seqA (for_each (check_committed env (rh_profile h)) (m_entries m))
     (seqA (remove_stage env i) (ret (rep\<lparr>rr_cleaned := rr_cleaned rep + 1\<rparr>)))"

definition recover_stage ::
  "commit_env \<Rightarrow> recovery_handler \<Rightarrow> string \<Rightarrow> recovery_report \<Rightarrow> recovery_report disk_act" where
  "recover_stage env h i rep =
     on_error
       (bindA (load_manifest env (rh_profile h) i) (\<lambda>found.
          case found of
            None \<Rightarrow> seqA (remove_stage env i) (ret rep)
          | Some m \<Rightarrow>
              bindA (reads (\<lambda>s. validate_manifest env (rh_profile h) i s (the_stage s i) m)) (\<lambda>valid.
              seqA (require valid Recovery_error)
                (if m_status m = Prepared then recover_prepared env h i m rep
                 else recover_committed env h i m rep))))
       (\<lambda>_. raise Recovery_error)"

fun recover_stages ::
  "commit_env \<Rightarrow> (string \<times> recovery_handler) list \<Rightarrow> recovery_report \<Rightarrow> recovery_report disk_act" where
  "recover_stages env [] rep = ret rep"
| "recover_stages env ((i, h) # rest) rep =
     bindA (recover_stage env h i rep) (\<lambda>rep'. recover_stages env rest rep')"

definition matching_stages :: "recovery_handler list \<Rightarrow> disk \<Rightarrow> (string \<times> recovery_handler) list" where
  "matching_stages hs s =
     sort_key fst (concat (map (\<lambda>h. map (\<lambda>i. (i, h))
       (filter (\<lambda>i. take (length (pf_key (rh_profile h)) + 1) i = pf_key (rh_profile h) @ ''-'')
          (map fst (d_stages s)))) hs))"

definition recover_transactions ::
  "commit_env \<Rightarrow> recovery_handler list \<Rightarrow> recovery_report option disk_act" where
  "recover_transactions env hs =
     seqA (require (hs \<noteq> [] \<and> distinct (map (pf_key \<circ> rh_profile) hs)) Recovery_error)
     (bindA (reads (matching_stages hs)) (\<lambda>stages.
      bindA (recover_stages env stages \<lparr>rr_rolled_back = 0, rr_cleaned = 0\<rparr>) (\<lambda>rep.
        ret (if rr_rolled_back rep = 0 \<and> rr_cleaned rep = 0 then None else Some rep))))"

end
