(* ===== verification/Atomic_Locators.thy ===== *)
theory Atomic_Locators
  imports Atomic_Recovery
begin

text \<open>
  Facts on locators and journal references: a normalised locator is its own normal form,
  a classification locator is already normal, and the references of a journal are distinct.
\<close>

section \<open>Splitting and joining\<close>

lemma split_plain: "CHR ''/'' \<notin> set xs \<Longrightarrow> split_slash acc xs = [acc @ xs]"
  by (induction xs arbitrary: acc) auto

lemma split_slash_step:
  "CHR ''/'' \<notin> set xs \<Longrightarrow> split_slash acc (xs @ CHR ''/'' # ys) = (acc @ xs) # split_slash [] ys"
  by (induction xs arbitrary: acc) auto

lemma split_join:
  assumes "ps \<noteq> []" and "\<forall>p \<in> set ps. CHR ''/'' \<notin> set p"
  shows "split_slash [] (join_slash ps) = ps"
  using assms by (induction ps rule: join_slash.induct) (auto simp: split_plain split_slash_step)

lemma split_no_slash:
  "CHR ''/'' \<notin> set acc \<Longrightarrow> p \<in> set (split_slash acc xs) \<Longrightarrow> CHR ''/'' \<notin> set p"
proof (induction xs arbitrary: acc)
  case Nil
  then show ?case by auto
next
  case (Cons c cs)
  show ?case
  proof (cases "c = CHR ''/''")
    case True
    with Cons.prems consider "p = acc" | "p \<in> set (split_slash [] cs)" by auto
    then show ?thesis using Cons.prems(1) Cons.IH [of "[]"] by cases auto
  next
    case False
    with Cons.prems Cons.IH [of "acc @ [c]"] show ?thesis by auto
  qed
qed

lemma split_chars: "p \<in> set (split_slash acc xs) \<Longrightarrow> set p \<subseteq> set acc \<union> set xs"
  by (induction xs arbitrary: acc) (fastforce split: if_splits)+

lemma set_join: "set (join_slash ps) \<subseteq> {CHR ''/'', CHR ''.''} \<union> (\<Union>p \<in> set ps. set p)"
  by (induction ps rule: join_slash.induct) auto

lemma join_head: "p \<noteq> [] \<Longrightarrow> hd (join_slash (p # ps)) = hd p \<and> join_slash (p # ps) \<noteq> []"
  by (cases ps) auto

definition slashes :: "string \<Rightarrow> string" where
  "slashes v = map (\<lambda>x. if x = CHR 0x5C then CHR ''/'' else x) v"

definition parts :: "string \<Rightarrow> string list" where
  "parts v = filter (\<lambda>p. p \<noteq> [] \<and> p \<noteq> ''.'') (split_slash [] (slashes v))"

lemma normalise_locator_alt:
  "normalise_locator v =
     (if (slashes v \<noteq> [] \<and> hd (slashes v) = CHR ''/'') \<or> ''..'' \<in> set (parts v)
         \<or> (parts v \<noteq> [] \<and> hd (parts v) \<noteq> [] \<and> last (hd (parts v)) = CHR '':'')
      then None else Some (join_slash (parts v)))"
  by (simp add: normalise_locator_def parts_def slashes_def Let_def)

lemma slashes_id: "CHR 0x5C \<notin> set v \<Longrightarrow> slashes v = v"
  by (induction v) (auto simp: slashes_def)

lemma parts_chars: "p \<in> set (parts v) \<Longrightarrow> CHR 0x5C \<notin> set p \<and> CHR ''/'' \<notin> set p"
  using split_chars [of p "[]" "slashes v"] split_no_slash [of "[]" p "slashes v"]
  by (auto simp: parts_def slashes_def split: if_splits)

lemma parts_join:
  assumes "parts v \<noteq> []"
  shows "parts (join_slash (parts v)) = parts v" and "slashes (join_slash (parts v)) = join_slash (parts v)"
proof -
  have chars: "\<forall>p \<in> set (parts v). CHR 0x5C \<notin> set p \<and> CHR ''/'' \<notin> set p"
    using parts_chars by blast
  then have "CHR 0x5C \<notin> set (join_slash (parts v))"
    using set_join [of "parts v"] by auto
  then show same: "slashes (join_slash (parts v)) = join_slash (parts v)" by (rule slashes_id)
  have "split_slash [] (join_slash (parts v)) = parts v"
    using assms chars by (intro split_join) auto
  then show "parts (join_slash (parts v)) = parts v"
    using same by (simp add: parts_def)
qed

lemma normalise_locator_idem:
  assumes "normalise_locator v = Some p" and "p \<noteq> ''.''"
  shows "normalise_locator p = Some p"
proof -
  from assms have p: "p = join_slash (parts v)" by (auto simp: normalise_locator_alt split: if_splits)
  with assms(2) have ne: "parts v \<noteq> []" by auto
  then obtain q qs where q: "parts v = q # qs" by (cases "parts v") auto
  then have "q \<in> set (parts v)" by simp
  then have "q \<noteq> []" "CHR ''/'' \<notin> set q" using parts_chars by (auto simp: parts_def)
  then have "hd p \<noteq> CHR ''/''" using p q join_head [of q qs] by (cases q) auto
  moreover from assms(1) have "''..'' \<notin> set (parts v)"
      "\<not> (parts v \<noteq> [] \<and> hd (parts v) \<noteq> [] \<and> last (hd (parts v)) = CHR '':'')"
    unfolding normalise_locator_alt [of v] by (metis option.distinct(1))+
  moreover have "parts p = parts v" "slashes p = p" using p parts_join [OF ne] by simp_all
  ultimately have "normalise_locator p = Some (join_slash (parts v))"
    by (subst normalise_locator_alt) simp
  with p show ?thesis by simp
qed

lemma instance_target_idem:
  "instance_target env r = Some p \<Longrightarrow> instance_target env p = Some p"
  by (auto simp: instance_target_def split: option.splits if_splits dest: normalise_locator_idem)

text \<open>
  A locator that is accepted stays inside the Instance: its normal form is relative, none of
  its components is empty, a dot or a double dot, and it is its own normal form, so a locator
  read back from a journal selects the file it selected when the journal was written.
\<close>

theorem locator_is_confined:
  assumes "instance_target env r = Some p"
  shows "instance_target env p = Some p \<and> hd p \<noteq> CHR ''/''
    \<and> (\<forall>c \<in> set (split_slash [] p). c \<noteq> [] \<and> c \<noteq> ''.'' \<and> c \<noteq> ''..'')"
proof -
  have norm: "normalise_locator r = Some p" and "p \<noteq> ''.''"
    using assms by (auto simp: instance_target_def split: option.splits if_splits)
  then have p: "p = join_slash (parts r)" and "''..'' \<notin> set (parts r)" and ne: "parts r \<noteq> []"
    by (auto simp: normalise_locator_alt split: if_splits)
  then obtain q qs where q: "parts r = q # qs" by (cases "parts r") auto
  then have "q \<in> set (parts r)" by simp
  then have "q \<noteq> []" "CHR ''/'' \<notin> set q" using parts_chars by (auto simp: parts_def)
  then have "hd p \<noteq> CHR ''/''" using p q join_head [of q qs] by (cases q) auto
  moreover have "split_slash [] p = parts r"
    using split_join [OF ne] parts_chars by (auto simp: p)
  then have "\<forall>c \<in> set (split_slash [] p). c \<noteq> [] \<and> c \<noteq> ''.'' \<and> c \<noteq> ''..''"
    using \<open>''..'' \<notin> set (parts r)\<close> by (auto simp: parts_def)
  ultimately show ?thesis using instance_target_idem [OF assms] by simp
qed

lemma locator_is_confined_witness:
  "instance_target \<lparr>ce_sha = id, ce_plain = (\<lambda>_. True), ce_manifest_size = (\<lambda>_. 0), ce_now = [],
     ce_listing = (\<lambda>_. [])\<rparr> ''notes/./a.md'' = Some ''notes/a.md''
   \<and> hd ''notes/a.md'' \<noteq> CHR ''/''"
proof -
  let ?env = "\<lparr>ce_sha = id, ce_plain = (\<lambda>_. True), ce_manifest_size = (\<lambda>_. 0), ce_now = [],
     ce_listing = (\<lambda>_. [])\<rparr>"
  have "instance_target ?env ''notes/./a.md'' = Some ''notes/a.md''"
    by (simp add: instance_target_def normalise_locator_def)
  with locator_is_confined [OF this] show ?thesis by blast
qed

section \<open>Classifications\<close>

lemma classification_split:
  assumes "classification_file r"
  obtains x where "r = ''knowledge/classifications/classification_'' @ x @ ''.json''"
    and "list_all hexchar x"
proof -
  define pre where "pre = ''knowledge/classifications/classification_''"
  define n where "n = length pre"
  from assms have r: "take n r = pre" "drop (n + 32) r = ''.json''"
      "list_all hexchar (take 32 (drop n r))"
    unfolding classification_file_def Let_def pre_def n_def by blast+
  have "drop n r = take 32 (drop n r) @ drop (n + 32) r"
    using append_take_drop_id [of 32 "drop n r"] by (simp add: add.commute)
  then have "r = pre @ take 32 (drop n r) @ ''.json''"
    using r append_take_drop_id [of n r] by simp
  then show thesis using r(3) that unfolding pre_def by blast
qed

lemma hex_no_slash: "list_all hexchar x \<Longrightarrow> CHR ''/'' \<notin> set x \<and> CHR 0x5C \<notin> set x"
proof -
  have "\<not> hexchar (CHR ''/'')" "\<not> hexchar (CHR 0x5C)" by (simp_all add: hexchar_def)
  then show "list_all hexchar x \<Longrightarrow> ?thesis" unfolding list_all_iff by blast
qed

lemma normalise_classification:
  assumes "classification_file r"
  shows "normalise_locator r = Some r"
proof -
  obtain x where r: "r = ''knowledge/classifications/classification_'' @ x @ ''.json''"
    and x: "list_all hexchar x"
    using assms by (rule classification_split)
  have chars: "CHR ''/'' \<notin> set x" "CHR 0x5C \<notin> set x" using hex_no_slash [OF x] by auto
  have "slashes r = r" using chars by (intro slashes_id) (simp add: r)
  moreover have "split_slash [] r = [''knowledge'', ''classifications'', ''classification_'' @ x @ ''.json'']"
    using chars by (simp add: r split_plain)
  ultimately have "parts r = [''knowledge'', ''classifications'', ''classification_'' @ x @ ''.json'']"
    by (simp add: parts_def)
  then show ?thesis using \<open>slashes r = r\<close> by (simp add: normalise_locator_alt r)
qed

lemma classification_target:
  "classification_file r \<Longrightarrow> instance_target env r = Some p \<Longrightarrow> p = r"
  by (auto simp: instance_target_def normalise_classification split: if_splits)

section \<open>Journal references\<close>

lemma digit_of_inj: "digit_of a = digit_of b \<Longrightarrow> a mod 10 = b mod 10"
proof -
  have d: "distinct ''0123456789''" by simp
  assume "digit_of a = digit_of b"
  then show ?thesis unfolding digit_of_def
    using nth_eq_iff_index_eq [OF d, of "a mod 10" "b mod 10"] by simp
qed

lemma decimal_digits:
  fixes n :: nat
  assumes "n < 10000"
  shows "n = 1000 * (n div 1000 mod 10) + 100 * (n div 100 mod 10) + 10 * (n div 10 mod 10) + n mod 10"
proof -
  have "n div 10 div 10 = n div 100" "n div 100 div 10 = n div 1000"
    by (simp_all flip: div_mult2_eq)
  moreover have "n div 1000 mod 10 = n div 1000" using assms by simp
  moreover have "n = 10 * (n div 10) + n mod 10" "n div 10 = 10 * (n div 10 div 10) + n div 10 mod 10"
      "n div 100 = 10 * (n div 100 div 10) + n div 100 mod 10"
    by simp_all
  ultimately show ?thesis by linarith
qed

lemma four_digits_inj:
  assumes "four_digits a = four_digits b" and "a < 10000" and "b < 10000"
  shows "a = b"
proof -
  from assms(1) have "a div 1000 mod 10 = b div 1000 mod 10" "a div 100 mod 10 = b div 100 mod 10"
      "a div 10 mod 10 = b div 10 mod 10" "a mod 10 = b mod 10"
    by (auto simp: four_digits_def dest!: digit_of_inj)
  then show ?thesis using decimal_digits [OF assms(2)] decimal_digits [OF assms(3)] by metis
qed

lemma journal_ref_inj:
  "journal_ref dir a = journal_ref dir b \<Longrightarrow> a < 10000 \<Longrightarrow> b < 10000 \<Longrightarrow> a = b"
  by (rule four_digits_inj) (simp_all add: journal_ref_def four_digits_def)

lemma journal_ref_dirs: "journal_ref ''candidates'' a \<noteq> journal_ref ''preimages'' b"
  by (simp add: journal_ref_def)

lemma digits_of_four: "list_all (\<lambda>c. c \<in> set ''0123456789'') (four_digits n)"
proof -
  have "digit_of k \<in> set ''0123456789''" for k
    unfolding digit_of_def by (rule nth_mem) simp
  then show ?thesis by (simp only: four_digits_def list.pred_inject simp_thms)
qed

lemma journal_ref_file:
  "journal_file_in ''candidates'' (journal_ref ''candidates'' n)"
  "journal_file_in ''preimages'' (journal_ref ''preimages'' n)"
proof -
  have four: "length (four_digits n) = 4" by (simp add: four_digits_def)
  have "journal_file_in dir (journal_ref dir n)" for dir
    using digits_of_four [of n] four by (simp add: journal_file_in_def journal_ref_def)
  then show "journal_file_in ''candidates'' (journal_ref ''candidates'' n)"
    "journal_file_in ''preimages'' (journal_ref ''preimages'' n)" by blast+
qed

end
