(* ===== verification/Atomic_Plan.thy ===== *)
theory Atomic_Plan
  imports Atomic_Locators
begin

text \<open>
  What a prepared transaction promises: the well-formedness that every operation on a
  transaction keeps, the plan that a prepared manifest carries between the old and the new
  live files, and the proof that preparing a well-formed transaction yields a plan.
\<close>

section \<open>Well-formed transactions\<close>

definition write_ok :: "commit_env \<Rightarrow> transaction \<Rightarrow> string \<times> bytes option \<times> bool \<Rightarrow> bool" where
  "write_ok env t w \<longleftrightarrow>
     (case w of (r, data, imm) \<Rightarrow>
        instance_target env r = Some r
      \<and> (case data of
           Some b \<Rightarrow> length b \<le> max_entry_bytes (pf_limits (tx_profile t)) \<and> map_of (tx_removals t) r = None
         | None \<Rightarrow> \<not> imm \<and> classification_file r \<and> map_of (tx_removals t) r \<noteq> None))"

definition tx_ok :: "commit_env \<Rightarrow> transaction \<Rightarrow> bool" where
  "tx_ok env t \<longleftrightarrow>
     accepts_owner (tx_profile t) (tx_owner t) \<and> distinct (map fst (tx_writes t))
   \<and> length (tx_writes t) \<le> max_entries (pf_limits (tx_profile t))
   \<and> (\<forall>w \<in> set (tx_writes t). write_ok env t w)
   \<and> set (map fst (tx_removals t)) \<subseteq> set (map fst (tx_writes t))
   \<and> (tx_removals t \<noteq> [] \<longrightarrow> tx_profile t = REVIEW_PROFILE)"

lemma tx_ok_new: "new_transaction p owner = Inr t \<Longrightarrow> tx_ok env t"
  by (auto simp: new_transaction_def tx_ok_def split: if_splits)

lemma map_of_fst_None: "map_of xs k = None \<longleftrightarrow> k \<notin> set (map fst xs)"
  by (simp add: map_of_eq_None_iff)

lemma tx_ok_add:
  assumes ok: "tx_ok env t" and add: "add_write env t r data imm = Inr t'"
  shows "tx_ok env t'"
proof -
  obtain p where p: "instance_target env r = Some p"
    using add by (auto simp: add_write_def split: option.splits)
  then have idem: "instance_target env p = Some p" by (rule instance_target_idem)
  show ?thesis
  proof (cases "map_of (tx_writes t) p")
    case (Some current)
    with add p ok show ?thesis by (auto simp: add_write_def split: if_splits)
  next
    case None
    with add p have t': "t' = t\<lparr>tx_writes := tx_writes t @ [(p, Some data, imm)],
        tx_bytes := tx_bytes t + length data\<rparr>"
      and fits: "length (tx_writes t) < max_entries (pf_limits (tx_profile t))"
        "length data \<le> max_entry_bytes (pf_limits (tx_profile t))"
      by (auto simp: add_write_def Let_def split: if_splits)
    have fresh: "p \<notin> set (map fst (tx_writes t))" using None unfolding map_of_fst_None .
    then have "map_of (tx_removals t) p = None"
      using ok unfolding tx_ok_def map_of_fst_None by blast
    then have "write_ok env t' (p, Some data, imm)" using idem fits by (simp add: write_ok_def t')
    moreover have "write_ok env t' w" if "w \<in> set (tx_writes t)" for w
      using ok that by (cases w; cases "fst (snd w)") (auto simp: tx_ok_def write_ok_def t')
    ultimately show ?thesis using ok fits fresh by (auto simp: tx_ok_def t')
  qed
qed

lemma tx_ok_remove:
  assumes ok: "tx_ok env t" and rm: "remove_classification env t r expected = Inr t'"
  shows "tx_ok env t'"
proof -
  from rm have review: "tx_profile t = REVIEW_PROFILE" and cls: "classification_file r"
    by (auto simp: remove_classification_def split: if_splits)
  obtain p where p: "instance_target env r = Some p"
    using rm by (auto simp: remove_classification_def split: if_splits option.splits)
  then have pr: "p = r" using classification_target [OF cls] by blast
  show ?thesis
  proof (cases "map_of (tx_writes t) p")
    case (Some current)
    with rm p ok show ?thesis by (auto simp: remove_classification_def split: if_splits)
  next
    case None
    with rm p have t': "t' = t\<lparr>tx_writes := tx_writes t @ [(p, None, False)],
        tx_removals := tx_removals t @ [(p, expected)]\<rparr>"
      and fits: "length (tx_writes t) < max_entries (pf_limits (tx_profile t))"
      by (auto simp: remove_classification_def split: if_splits)
    have fresh: "p \<notin> set (map fst (tx_writes t))" using None unfolding map_of_fst_None .
    then have none: "map_of (tx_removals t) p = None"
      using ok unfolding tx_ok_def map_of_fst_None by blast
    have old: "write_ok env t' w" if "w \<in> set (tx_writes t)" for w
    proof -
      obtain q d i where w: "w = (q, d, i)" by (cases w)
      have "q \<noteq> p" using that fresh w by force
      then have "map_of (tx_removals t') q = map_of (tx_removals t) q"
        by (simp add: t' map_add_def split: option.splits)
      moreover have "write_ok env t w" using ok that by (simp add: tx_ok_def)
      ultimately show ?thesis by (cases d) (simp_all add: write_ok_def w t')
    qed
    have "write_ok env t' (p, None, False)"
      using p pr cls by (simp add: write_ok_def t' map_add_def split: option.splits)
    then show ?thesis using ok fits fresh old review
      by (auto simp: tx_ok_def t')
  qed
qed



section \<open>Plans\<close>

type_synonym files = "string \<Rightarrow> bytes option"

text \<open>The live files that a transaction wants.\<close>

definition new_live :: "transaction \<Rightarrow> files \<Rightarrow> files" where
  "new_live t L = (\<lambda>r. case map_of (tx_writes t) r of None \<Rightarrow> L r | Some (data, _) \<Rightarrow> data)"

text \<open>The digest tells the old content of every written file from its new one.\<close>

definition no_collision :: "commit_env \<Rightarrow> files \<Rightarrow> files \<Rightarrow> bool" where
  "no_collision env L N \<longleftrightarrow>
     (\<forall>r b c. L r = Some b \<longrightarrow> N r = Some c \<longrightarrow> b \<noteq> c \<longrightarrow> ce_sha env b \<noteq> ce_sha env c)"

definition cand_of :: "files \<Rightarrow> files \<Rightarrow> entry \<Rightarrow> bytes" where
  "cand_of L N e = (case N (e_relative e) of Some b \<Rightarrow> b | None \<Rightarrow> the (L (e_relative e)))"

definition pre_len :: "files \<Rightarrow> entry \<Rightarrow> nat" where
  "pre_len L e = (case L (e_relative e) of None \<Rightarrow> 0 | Some b \<Rightarrow> length b)"

definition fits :: "profile \<Rightarrow> bytes option \<Rightarrow> bool" where
  "fits p b \<longleftrightarrow> (case b of None \<Rightarrow> True | Some x \<Rightarrow> length x \<le> max_entry_bytes (pf_limits p))"

definition entry_for :: "commit_env \<Rightarrow> profile \<Rightarrow> nat \<Rightarrow> files \<Rightarrow> files \<Rightarrow> entry \<Rightarrow> bool" where
  "entry_for env p schema L N e \<longleftrightarrow>
     (let r = e_relative e in
        instance_target env r = Some r \<and> L r \<noteq> N r
      \<and> e_had e = (L r \<noteq> None) \<and> e_pre_sha e = map_option (ce_sha env) (L r)
      \<and> (e_pre_ref e \<noteq> None \<longleftrightarrow> L r \<noteq> None)
      \<and> journal_file_in ''candidates'' (e_cand_ref e)
      \<and> (\<forall>ref. e_pre_ref e = Some ref \<longrightarrow> journal_file_in ''preimages'' ref)
      \<and> e_cand_sha e = ce_sha env (cand_of L N e) \<and> (schema = 2 \<longleftrightarrow> e_operation e \<noteq> None)
      \<and> (removes e \<longleftrightarrow> N r = None) \<and> (removes e \<longrightarrow> classification_file r \<and> \<not> e_immutable e)
      \<and> fits p (L r) \<and> fits p (N r))"

definition plan :: "commit_env \<Rightarrow> profile \<Rightarrow> string \<Rightarrow> files \<Rightarrow> files \<Rightarrow> manifest \<Rightarrow> bool" where
  "plan env p i L N m \<longleftrightarrow>
     (m_schema m = 1 \<or> (m_schema m = 2 \<and> p = REVIEW_PROFILE))
   \<and> m_transaction m = i \<and> transaction_ok p i \<and> m_kind m = pf_kind p \<and> accepts_owner p (m_owner m)
   \<and> (m_status m = Prepared \<longleftrightarrow> m_committed_at m = None)
   \<and> ce_manifest_size env m \<le> manifest_byte_limit (max_entries (pf_limits p))
   \<and> 1 \<le> length (m_entries m) \<and> length (m_entries m) \<le> max_entries (pf_limits p)
   \<and> (\<forall>e \<in> set (m_entries m). entry_for env p (m_schema m) L N e)
   \<and> distinct (map e_relative (m_entries m)) \<and> distinct (map e_cand_ref (m_entries m))
   \<and> distinct (concat (map (\<lambda>e. case e_pre_ref e of None \<Rightarrow> [] | Some r \<Rightarrow> [r]) (m_entries m)))
   \<and> sum_list (map (pre_len L) (m_entries m)) \<le> max_preimage_bytes (pf_limits p)
   \<and> sum_list (map (length \<circ> cand_of L N) (m_entries m)) \<le> max_candidate_bytes (pf_limits p)
   \<and> sum_list (map (length \<circ> cand_of L N) (m_entries m)) + sum_list (map (pre_len L) (m_entries m))
       \<le> max_journal_bytes (pf_limits p)
   \<and> (\<forall>r. r \<notin> e_relative ` set (m_entries m) \<longrightarrow> L r = N r)"

text \<open>The preimage of an entry is in the stage; its candidate is where preparation puts it.\<close>

definition kept :: "files \<Rightarrow> entry \<Rightarrow> files \<Rightarrow> bool" where
  "kept L e F \<longleftrightarrow> (\<forall>ref. e_pre_ref e = Some ref \<longrightarrow> F ref = L (e_relative e))"

definition staged :: "files \<Rightarrow> files \<Rightarrow> entry \<Rightarrow> files \<Rightarrow> bool" where
  "staged L N e F \<longleftrightarrow> kept L e F \<and> F (e_cand_ref e) = N (e_relative e)"

section \<open>Preparing yields a plan\<close>

definition refs_below :: "nat \<Rightarrow> string set" where
  "refs_below n = journal_ref ''candidates'' ` {..<n} \<union> journal_ref ''preimages'' ` {..<n}"

definition pre_refs :: "entry list \<Rightarrow> string list" where
  "pre_refs es = concat (map (\<lambda>e. case e_pre_ref e of None \<Rightarrow> [] | Some r \<Rightarrow> [r]) es)"

definition built ::
  "commit_env \<Rightarrow> transaction \<Rightarrow> files \<Rightarrow> (string \<times> bytes option \<times> bool) list \<Rightarrow> prepared \<Rightarrow> bool" where
  "built env t L ws acc \<longleftrightarrow>
     (let p = tx_profile t; N = new_live t L; es = pr_entries acc; n = length ws;
          schema = (if tx_removals t = [] then 1 else 2) in
      (\<forall>e \<in> set es. entry_for env p schema L N e \<and> staged L N e (map_of (pr_payloads acc))
         \<and> e_cand_ref e \<in> refs_below n)
    \<and> distinct (map fst (pr_payloads acc)) \<and> fst ` set (pr_payloads acc) \<subseteq> refs_below n
    \<and> distinct (map e_relative es) \<and> distinct (map e_cand_ref es)
    \<and> distinct (pre_refs es) \<and> set (pre_refs es) \<subseteq> refs_below n
    \<and> pr_preimage_bytes acc = sum_list (map (pre_len L) es)
    \<and> pr_candidate_bytes acc = sum_list (map (length \<circ> cand_of L N) es)
    \<and> (es \<noteq> [] \<longrightarrow> pr_preimage_bytes acc \<le> max_preimage_bytes (pf_limits p)
         \<and> pr_candidate_bytes acc \<le> max_candidate_bytes (pf_limits p)
         \<and> pr_candidate_bytes acc + pr_preimage_bytes acc \<le> max_journal_bytes (pf_limits p))
    \<and> e_relative ` set es \<subseteq> fst ` set ws \<and> length es \<le> n
    \<and> (\<forall>r \<in> fst ` set ws. r \<in> e_relative ` set es \<or> L r = N r))"

lemma refs_below_Suc:
  "refs_below (Suc n) = insert (journal_ref ''candidates'' n) (insert (journal_ref ''preimages'' n) (refs_below n))"
  by (auto simp: refs_below_def lessThan_Suc)

lemma refs_below_mono: "m \<le> n \<Longrightarrow> refs_below m \<subseteq> refs_below n"
  by (auto simp: refs_below_def)

lemma refs_fresh:
  assumes "n < 10000"
  shows "journal_ref ''candidates'' n \<notin> refs_below n" and "journal_ref ''preimages'' n \<notin> refs_below n"
proof -
  have "k = n" if "journal_ref dir n = journal_ref dir k" "k < n" for dir k
    using that assms journal_ref_inj [of dir n k] by simp
  then show "journal_ref ''candidates'' n \<notin> refs_below n" "journal_ref ''preimages'' n \<notin> refs_below n"
    using journal_ref_dirs [of n] journal_ref_dirs [of _ n] by (fastforce simp: refs_below_def)+
qed

lemma built_start: "built env t L [] no_entries"
  by (simp add: built_def no_entries_def pre_refs_def Let_def)

lemma builtD:
  assumes "built env t L ws acc"
  shows "e \<in> set (pr_entries acc) \<Longrightarrow>
      entry_for env (tx_profile t) (if tx_removals t = [] then 1 else 2) L (new_live t L) e"
    and "e \<in> set (pr_entries acc) \<Longrightarrow> staged L (new_live t L) e (map_of (pr_payloads acc))"
    and "e \<in> set (pr_entries acc) \<Longrightarrow> e_cand_ref e \<in> refs_below (length ws)"
    and "distinct (map fst (pr_payloads acc))"
    and "fst ` set (pr_payloads acc) \<subseteq> refs_below (length ws)"
    and "distinct (map e_relative (pr_entries acc))" and "distinct (map e_cand_ref (pr_entries acc))"
    and "distinct (pre_refs (pr_entries acc))" and "set (pre_refs (pr_entries acc)) \<subseteq> refs_below (length ws)"
    and "pr_preimage_bytes acc = sum_list (map (pre_len L) (pr_entries acc))"
    and "pr_candidate_bytes acc = sum_list (map (length \<circ> cand_of L (new_live t L)) (pr_entries acc))"
    and "pr_entries acc \<noteq> [] \<Longrightarrow>
       pr_preimage_bytes acc \<le> max_preimage_bytes (pf_limits (tx_profile t))
     \<and> pr_candidate_bytes acc \<le> max_candidate_bytes (pf_limits (tx_profile t))
     \<and> pr_candidate_bytes acc + pr_preimage_bytes acc \<le> max_journal_bytes (pf_limits (tx_profile t))"
    and "e_relative ` set (pr_entries acc) \<subseteq> fst ` set ws" and "length (pr_entries acc) \<le> length ws"
    and "q \<in> fst ` set ws \<Longrightarrow> q \<in> e_relative ` set (pr_entries acc) \<or> L q = new_live t L q"
  using assms unfolding built_def Let_def
  by - (elim conjE, (assumption | (drule (1) bspec, (elim conjE)?, assumption) | (drule (1) mp, assumption)))+

lemma map_of_fresh: "k \<notin> fst ` set ys \<Longrightarrow> map_of (xs @ ys) k = map_of xs k"
  by (simp add: map_add_def map_of_eq_None_iff [THEN iffD2] split: option.splits)

lemma pre_refs_snoc:
  "pre_refs (es @ [e]) = pre_refs es @ (case e_pre_ref e of None \<Rightarrow> [] | Some r \<Rightarrow> [r])"
  by (simp add: pre_refs_def)

lemma pre_refs_mem: "e \<in> set es \<Longrightarrow> e_pre_ref e = Some ref \<Longrightarrow> ref \<in> set (pre_refs es)"
  by (force simp: pre_refs_def)

lemma built_skip:
  assumes built: "built env t L ws acc" and "L r = new_live t L r"
  shows "built env t L (ws @ [(r, w)]) acc"
proof -
  let ?n = "length (ws @ [(r, w)])"
  note old = builtD [OF built]
  have mono: "refs_below (length ws) \<subseteq> refs_below ?n" by (rule refs_below_mono) simp
  have "\<forall>q \<in> fst ` set (ws @ [(r, w)]). q \<in> e_relative ` set (pr_entries acc) \<or> L q = new_live t L q"
    using old(15) assms(2) by auto
  moreover have "e_relative ` set (pr_entries acc) \<subseteq> fst ` set (ws @ [(r, w)])" using old(13) by auto
  moreover have "length (pr_entries acc) \<le> ?n" using old(14) by simp
  moreover have "fst ` set (pr_payloads acc) \<subseteq> refs_below ?n" using old(5) mono by (rule subset_trans)
  moreover have "set (pre_refs (pr_entries acc)) \<subseteq> refs_below ?n" using old(9) mono by (rule subset_trans)
  moreover have "\<forall>e \<in> set (pr_entries acc).
      entry_for env (tx_profile t) (if tx_removals t = [] then 1 else 2) L (new_live t L) e
      \<and> staged L (new_live t L) e (map_of (pr_payloads acc)) \<and> e_cand_ref e \<in> refs_below ?n"
    using old(1-3) mono by blast
  moreover note old(4) old(6) old(7) old(8) old(10) old(11) impI [OF old(12)]
  ultimately show ?thesis
    unfolding built_def Let_def by (intro conjI)
qed

lemma disjoint_of_two: "X \<subseteq> {a, b} \<Longrightarrow> a \<notin> R \<Longrightarrow> b \<notin> R \<Longrightarrow> R \<inter> X = {}"
  by auto

lemma built_snoc:
  fixes t :: transaction and L :: files
  defines "N \<equiv> new_live t L" and "l \<equiv> pf_limits (tx_profile t)"
  assumes built: "built env t L ws acc" and n: "length ws < 10000" and new: "r \<notin> fst ` set ws"
    and e: "entry_for env (tx_profile t) (if tx_removals t = [] then 1 else 2) L N e" "e_relative e = r"
    and cref: "e_cand_ref e = journal_ref ''candidates'' (length ws)"
    and pref: "e_pre_ref e = (if L r = None then None else Some (journal_ref ''preimages'' (length ws)))"
    and acc': "pr_entries acc' = pr_entries acc @ [e]"
      "pr_payloads acc' = pr_payloads acc @ (case N r of None \<Rightarrow> [] | Some b \<Rightarrow> [(e_cand_ref e, b)])
         @ (case L r of None \<Rightarrow> [] | Some b \<Rightarrow> [(journal_ref ''preimages'' (length ws), b)])"
      "pr_candidate_bytes acc' = pr_candidate_bytes acc + length (cand_of L N e)"
      "pr_preimage_bytes acc' = pr_preimage_bytes acc + pre_len L e"
    and bounds: "pr_candidate_bytes acc' \<le> max_candidate_bytes l" "pr_preimage_bytes acc' \<le> max_preimage_bytes l"
      "pr_candidate_bytes acc' + pr_preimage_bytes acc' \<le> max_journal_bytes l"
  shows "built env t L (ws @ [(r, w)]) acc'"
proof -
  let ?n = "length ws" and ?schema = "if tx_removals t = [] then 1 else (2::nat)"
  let ?es = "pr_entries acc" and ?pay = "pr_payloads acc"
  define more where "more = (case N r of None \<Rightarrow> [] | Some b \<Rightarrow> [(e_cand_ref e, b)])
         @ (case L r of None \<Rightarrow> [] | Some b \<Rightarrow> [(journal_ref ''preimages'' ?n, b)])"
  have pay': "pr_payloads acc' = ?pay @ more" by (simp add: acc'(2) more_def)
  note old = builtD [OF built, folded N_def l_def]
  have more_keys: "fst ` set more \<subseteq> {journal_ref ''candidates'' ?n, journal_ref ''preimages'' ?n}"
    by (auto simp: more_def cref split: option.splits)
  have more_distinct: "distinct (map fst more)"
    using journal_ref_dirs [of ?n ?n] by (auto simp: more_def cref split: option.splits)
  note fresh = refs_fresh [OF n]
  have apart: "refs_below ?n \<inter> fst ` set more = {}" by (rule disjoint_of_two [OF more_keys fresh])
  have dirs: "journal_ref ''candidates'' ?n \<noteq> journal_ref ''preimages'' ?n" by (rule journal_ref_dirs)
  have keep: "staged L N d (map_of (?pay @ more))" if d: "d \<in> set ?es" for d
  proof -
    have st: "staged L N d (map_of ?pay)" and c: "e_cand_ref d \<in> refs_below ?n" by (rule old(2) [OF d], rule old(3) [OF d])
    have "map_of (?pay @ more) (e_cand_ref d) = map_of ?pay (e_cand_ref d)"
      using c apart by (intro map_of_fresh) blast
    moreover have "map_of (?pay @ more) ref = map_of ?pay ref" if "e_pre_ref d = Some ref" for ref
      using pre_refs_mem [OF d that] old(9) apart by (intro map_of_fresh) blast
    ultimately show ?thesis using st by (auto simp: staged_def kept_def)
  qed
  have absent: "map_of ?pay k = None" if "k \<notin> refs_below ?n" for k
    using that old(5) by (auto simp: map_of_eq_None_iff)
  have mine: "staged L N e (map_of (?pay @ more))"
    using absent fresh dirs
    by (auto simp: staged_def kept_def e(2) more_def cref pref map_add_def split: option.splits if_splits)
  have entries: "\<forall>d \<in> set (?es @ [e]). entry_for env (tx_profile t) ?schema L N d
      \<and> staged L N d (map_of (?pay @ more)) \<and> e_cand_ref d \<in> refs_below (Suc ?n)"
    using keep mine old(1,3) e(1) cref refs_below_Suc [of ?n] by auto
  have keys: "distinct (map fst (?pay @ more))" "fst ` set (?pay @ more) \<subseteq> refs_below (Suc ?n)"
    using old(4,5) more_distinct apart more_keys refs_below_Suc [of ?n] by (auto simp: image_Un)
  have "r \<notin> e_relative ` set ?es" using new old(13) by blast
  moreover have "e_cand_ref e \<notin> e_cand_ref ` set ?es" using old(3) fresh cref by auto
  moreover have "\<forall>ref. e_pre_ref e = Some ref \<longrightarrow> ref \<notin> set (pre_refs ?es)"
    using old(9) fresh pref by auto
  ultimately have names: "distinct (map e_relative (?es @ [e]))" "distinct (map e_cand_ref (?es @ [e]))"
      "distinct (pre_refs (?es @ [e]))"
    using old(6-8) e(2) by (auto simp: pre_refs_snoc split: option.splits)
  have pres: "set (pre_refs (?es @ [e])) \<subseteq> refs_below (Suc ?n)"
    using old(9) pref refs_below_Suc [of ?n] by (auto simp: pre_refs_snoc split: option.splits if_splits)
  have sums: "pr_preimage_bytes acc' = sum_list (map (pre_len L) (?es @ [e]))"
      "pr_candidate_bytes acc' = sum_list (map (length \<circ> cand_of L N) (?es @ [e]))"
    using old(10,11) acc' by simp_all
  have len: "length (ws @ [(r, w)]) = Suc ?n" by simp
  have cover: "\<forall>q \<in> fst ` set (ws @ [(r, w)]). q \<in> e_relative ` set (?es @ [e]) \<or> L q = N q"
      "e_relative ` set (?es @ [e]) \<subseteq> fst ` set (ws @ [(r, w)])"
      "length (?es @ [e]) \<le> length (ws @ [(r, w)])"
    using old(13-15) e(2) by auto
  show ?thesis
    unfolding built_def Let_def N_def [symmetric] l_def [symmetric] acc'(1) pay' len
    using entries keys names pres sums bounds cover [unfolded len] by (intro conjI impI)
qed

lemma live_bytes_result:
  "live_bytes n e1 e2 p s = (Inr b, s') \<longleftrightarrow>
     s' = s \<and> b = d_live s p \<and> (\<forall>x. d_live s p = Some x \<longrightarrow> length x \<le> n)"
  by (auto simp: live_bytes_def split: option.splits)

lemma target_or_result: "target_or env e r s = (Inr p, s') \<longleftrightarrow> s' = s \<and> instance_target env r = Some p"
  by (auto simp: target_or_def split: option.splits)

lemma journal_bytes_result:
  "journal_bytes n e i ref s = (Inr b, s') \<longleftrightarrow>
     s' = s \<and> sg_files (the_stage s i) ref = Some b \<and> length b \<le> n"
  by (auto simp: journal_bytes_def split: option.splits)

lemma ret_result: "ret x s = (Inr y, s') \<longleftrightarrow> y = x \<and> s' = s"
  by auto

definition entry_of ::
  "commit_env \<Rightarrow> transaction \<Rightarrow> nat \<Rightarrow> string \<times> bytes option \<times> bool \<Rightarrow> bytes option \<Rightarrow> entry" where
  "entry_of env t n w before =
     (case w of (r, data, imm) \<Rightarrow>
       \<lparr>e_relative = r, e_immutable = imm, e_had = (before \<noteq> None),
        e_pre_ref = (if before \<noteq> None then Some (journal_ref ''preimages'' n) else None),
        e_pre_sha = map_option (ce_sha env) before, e_cand_ref = journal_ref ''candidates'' n,
        e_cand_sha = ce_sha env (case data of None \<Rightarrow> the before | Some b \<Rightarrow> b),
        e_operation = (if tx_removals t = [] then None
                       else if map_of (tx_removals t) r \<noteq> None then Some Op_remove else Some Op_write)\<rparr>)"

lemma prepare_entry_result:
  assumes run: "prepare_entry env t n (r, data, imm) acc s = (Inr acc', s')"
    and target: "instance_target env r = Some r"
  shows "s' = s \<and> fits (tx_profile t) (d_live s r) \<and> (data = None \<longrightarrow> d_live s r \<noteq> None)
    \<and> (if d_live s r = data then acc' = acc
       else let cb = pr_candidate_bytes acc + length (case data of None \<Rightarrow> the (d_live s r) | Some b \<Rightarrow> b);
                pb = pr_preimage_bytes acc + (case d_live s r of None \<Rightarrow> 0 | Some b \<Rightarrow> length b);
                l = pf_limits (tx_profile t) in
         cb \<le> max_candidate_bytes l \<and> pb \<le> max_preimage_bytes l \<and> cb + pb \<le> max_journal_bytes l
       \<and> acc' = \<lparr>pr_entries = pr_entries acc @ [entry_of env t n (r, data, imm) (d_live s r)],
                  pr_payloads = pr_payloads acc
                    @ (case data of None \<Rightarrow> [] | Some b \<Rightarrow> [(journal_ref ''candidates'' n, b)])
                    @ (case d_live s r of None \<Rightarrow> [] | Some b \<Rightarrow> [(journal_ref ''preimages'' n, b)]),
                  pr_candidate_bytes = cb, pr_preimage_bytes = pb\<rparr>)"
  using run unfolding prepare_entry_def Let_def prod.case
  by (cases data; cases "d_live s r")
     (auto simp: act_results live_bytes_result target_or_result target fits_def entry_of_def split: if_splits)

lemma new_live_write:
  assumes "tx_ok env t" and "(r, data, imm) \<in> set (tx_writes t)"
  shows "new_live t L r = data"
proof -
  have "map_of (tx_writes t) r = Some (data, imm)"
    using assms by (intro map_of_is_SomeI) (simp_all add: tx_ok_def)
  then show ?thesis by (simp add: new_live_def)
qed

lemma prepare_entry_built:
  assumes ok: "tx_ok env t" and w: "(r, data, imm) \<in> set (tx_writes t)"
    and n: "length ws < 10000" and new: "r \<notin> fst ` set ws"
    and built: "built env t (d_live s) ws acc"
    and run: "prepare_entry env t (length ws) (r, data, imm) acc s = (Inr acc', s')"
  shows "s' = s \<and> built env t (d_live s) (ws @ [(r, data, imm)]) acc'"
proof -
  let ?L = "d_live s" and ?N = "new_live t (d_live s)"
  have wok: "write_ok env t (r, data, imm)" using ok w by (simp add: tx_ok_def)
  then have target: "instance_target env r = Some r" by (simp add: write_ok_def)
  have N: "?N r = data" using ok w by (rule new_live_write)
  note res = prepare_entry_result [OF run target]
  show ?thesis
  proof (cases "?L r = data")
    case True
    then have "?L r = ?N r" using N by simp
    with built_skip [OF built this] res True show ?thesis by simp
  next
    case False
    let ?e = "entry_of env t (length ws) (r, data, imm) (?L r)"
    have entry: "entry_for env (tx_profile t) (if tx_removals t = [] then 1 else 2) ?L ?N ?e"
      using res wok False target N journal_ref_file [of "length ws"]
      by (cases data) (auto simp: entry_for_def entry_of_def cand_of_def fits_def write_ok_def removes_def)
    have "built env t ?L (ws @ [(r, data, imm)]) acc'"
      by (rule built_snoc [OF built n new entry])
         (use res False N in \<open>auto simp: entry_of_def Let_def cand_of_def pre_len_def split: option.splits\<close>)
    with res show ?thesis by simp
  qed
qed

lemma prepare_entries_built:
  assumes "tx_ok env t" and "set vs \<subseteq> set (tx_writes t)" and "distinct (map fst (ws @ vs))"
    and "length (ws @ vs) \<le> 10000" and "built env t (d_live s) ws acc"
    and "prepare_entries env t (length ws) vs acc s = (Inr pr, s')"
  shows "s' = s \<and> built env t (d_live s) (ws @ vs) pr"
  using assms
proof (induction vs arbitrary: ws acc)
  case Nil
  then show ?case by simp
next
  case (Cons w vs)
  obtain r data imm where w: "w = (r, data, imm)" by (cases w)
  from Cons.prems(6) obtain acc1 s1 where
    one: "prepare_entry env t (length ws) w acc s = (Inr acc1, s1)" and
    rest: "prepare_entries env t (Suc (length ws)) vs acc1 s1 = (Inr pr, s')"
    by (auto simp: act_results)
  have "s1 = s \<and> built env t (d_live s) (ws @ [(r, data, imm)]) acc1"
    by (rule prepare_entry_built [OF Cons.prems(1) _ _ _ Cons.prems(5)])
       (use Cons.prems(2-4) one w in auto)
  then show ?case
    using Cons.IH [of "ws @ [w]" acc1] Cons.prems(1-4) rest w by simp
qed

end
