(* ===== verification/Atomic_Crash.thy ===== *)
theory Atomic_Crash
  imports Atomic_Plan
begin

text \<open>
  A logic for actions that may fail or stop at any write: a triple has a postcondition, a
  condition that holds when the action raises, and one that holds on the disk when the process
  stops. The states of a commit between the old and the new live files are stated in it, and
  the removal of a stage is shown to keep them.
\<close>

section \<open>Triples\<close>

abbreviation triple ::
  "(disk \<Rightarrow> bool) \<Rightarrow> 'a disk_act \<Rightarrow> ('a \<Rightarrow> disk \<Rightarrow> bool) \<Rightarrow> (disk \<Rightarrow> bool) \<Rightarrow> (disk \<Rightarrow> bool) \<Rightarrow> bool" where
  "triple \<equiv> hoare Crash"

text \<open>A condition on the files and stages only.\<close>

definition upon :: "(files \<Rightarrow> (string \<times> stage) list \<Rightarrow> bool) \<Rightarrow> disk \<Rightarrow> bool" where
  "upon G s = G (d_live s) (d_stages s)"

lemmas triple_def = hoare_def [where stop = Crash]
lemmas triple_conseq = hoare_conseq [where stop = Crash]
lemmas triple_ret = hoare_ret [where stop = Crash]
lemmas triple_raise = hoare_raise [where stop = Crash]
lemmas triple_bind = hoare_bind [where stop = Crash]
lemmas triple_seq = hoare_seq [where stop = Crash]
lemmas triple_reads = hoare_reads [where stop = Crash]
lemmas triple_require = hoare_require [where stop = Crash]
lemmas triple_on_error = hoare_catch [where stop = Crash]
lemmas triple_for_each = hoare_for_each [where stop = Crash]
lemmas triple_pre = hoare_pre [where stop = Crash]
lemmas triple_at = hoare_at [where stop = Crash]
lemmas tripleD = hoareD [where stop = Crash]

lemma triple_write:
  assumes "\<And>s. upon G s \<Longrightarrow> Q () (f s)" and "\<And>s. upon G s \<Longrightarrow> E s" and "\<And>s. upon G s \<Longrightarrow> C s"
  shows "triple (upon G) (disk_write f) Q E C"
  by (rule journal_disk.hoare_put) (use assms in \<open>simp_all add: journal_disk.fateless_def upon_def\<close>)

section \<open>One stage\<close>

definition in_stage :: "string \<Rightarrow> (stage \<Rightarrow> files \<Rightarrow> bool) \<Rightarrow> disk \<Rightarrow> bool" where
  "in_stage i J = upon (\<lambda>V S. \<exists>g. S = [(i, g)] \<and> J g V)"

lemma in_stageD: "in_stage i J s \<Longrightarrow> d_stages s = [(i, the_stage s i)] \<and> J (the_stage s i) (d_live s)"
  by (auto simp: in_stage_def upon_def the_stage_def stage_at_def)

lemma in_stageI: "d_stages s = [(i, g)] \<Longrightarrow> J g (d_live s) \<Longrightarrow> in_stage i J s"
  by (auto simp: in_stage_def upon_def)

lemma the_stage_one: "d_stages s = [(i, g)] \<Longrightarrow> the_stage s i = g"
  by (simp add: the_stage_def stage_at_def)

lemma set_file_one:
  "d_stages s = [(i, g)] \<Longrightarrow> d_stages (set_file i ref b s) = [(i, g\<lparr>sg_files := (sg_files g)(ref := b)\<rparr>)]"
  by (simp add: set_file_def set_stage_def the_stage_one Let_def)

lemma set_marker_one:
  "d_stages s = [(i, g)] \<Longrightarrow> d_stages (set_marker i m s) = [(i, g\<lparr>sg_marker := m\<rparr>)]"
  by (simp add: set_marker_def set_stage_def the_stage_one Let_def)

lemma disk_parts [simp]:
  "d_live (set_file i ref b s) = d_live s" "d_live (set_marker i m s) = d_live s"
  "d_live (set_stage i g s) = d_live s" "d_live (drop_stage i s) = d_live s"
  "d_live (set_live p b s) = (d_live s)(p := b)" "d_stages (set_live p b s) = d_stages s"
  by (simp_all add: set_file_def set_marker_def set_stage_def drop_stage_def set_live_def Let_def)

lemma in_stage_mono: "in_stage i J s \<Longrightarrow> (\<And>g V. J g V \<Longrightarrow> K g V) \<Longrightarrow> in_stage i K s"
  by (auto simp: in_stage_def upon_def)

lemma triple_stage_write:
  assumes "\<And>g s. d_stages s = [(i, g)] \<Longrightarrow> J g (d_live s) \<Longrightarrow> Q () (f s)"
    and "\<And>s. in_stage i J s \<Longrightarrow> E s" and "\<And>s. in_stage i J s \<Longrightarrow> C s"
  shows "triple (in_stage i J) (disk_write f) Q E C"
  unfolding in_stage_def
  by (rule triple_write) (use assms in \<open>auto simp: in_stage_def upon_def\<close>)

section \<open>Removing a stage\<close>

definition shrinks :: "(stage \<Rightarrow> files \<Rightarrow> bool) \<Rightarrow> bool" where
  "shrinks J \<longleftrightarrow> (\<forall>g V. J g V \<longrightarrow>
     J (g\<lparr>sg_marker := No_marker\<rparr>) V \<and> (\<forall>ref. J (g\<lparr>sg_files := (sg_files g)(ref := None)\<rparr>) V))"

lemma remove_item_keeps:
  assumes "shrinks J"
  shows "triple (in_stage i J) (remove_item i x) (\<lambda>_. in_stage i J) (in_stage i J) (in_stage i J)"
  unfolding remove_item_def
  by (rule triple_stage_write)
     (use assms in \<open>auto simp: shrinks_def set_file_one set_marker_one intro: in_stageI split: stage_item.splits\<close>)

definition cleared :: "(stage \<Rightarrow> files \<Rightarrow> bool) \<Rightarrow> disk \<Rightarrow> bool" where
  "cleared J = upon (\<lambda>V S. S = [] \<and> (\<exists>g. J g V))"

lemma drop_clears:
  "triple (in_stage i J) (disk_write (drop_stage i)) (\<lambda>_. cleared J) (in_stage i J) (in_stage i J)"
  by (rule triple_stage_write) (auto simp: cleared_def upon_def drop_stage_def)

lemma remove_stage_clears:
  assumes "shrinks J"
  shows "triple (in_stage i J) (remove_stage env i) (\<lambda>_. cleared J) (in_stage i J) (in_stage i J)"
proof -
  have walk: "triple (in_stage i J) (for_each (remove_item i) items) (\<lambda>_. in_stage i J)
      (in_stage i J) (in_stage i J)" for items
    by (rule triple_for_each [where I = "\<lambda>_. in_stage i J"]) (rule remove_item_keeps [OF assms])
  show ?thesis unfolding remove_stage_def
  proof (rule triple_reads)
    fix s
    assume "in_stage i J s"
    then show "triple (\<lambda>t. t = s) (seqA (for_each (remove_item i) (ce_listing env (the_stage s i)))
        (disk_write (drop_stage i))) (\<lambda>_. cleared J) (in_stage i J) (in_stage i J)"
      by (intro triple_seq [OF _ drop_clears] triple_conseq [OF walk]) auto
  qed
qed

lemma remove_items_quietly_keeps:
  assumes "shrinks J"
  shows "triple (in_stage i J) (remove_items_quietly i items) (\<lambda>_. in_stage i J) E (in_stage i J)"
proof (induction items)
  case Nil
  show ?case unfolding remove_items_quietly.simps by (rule triple_ret)
next
  case (Cons x xs)
  have one: "triple (in_stage i J) (on_error (seqA (remove_item i x) (ret True)) (\<lambda>_. ret False))
      (\<lambda>_. in_stage i J) E (in_stage i J)"
    by (rule triple_on_error [OF triple_seq [OF remove_item_keeps [OF assms]]]) (auto intro: triple_ret)
  show ?case unfolding remove_items_quietly.simps
    by (intro triple_bind [OF one] triple_bind [OF Cons.IH] triple_ret)
qed

lemma remove_stage_quietly_keeps:
  assumes "shrinks J"
  shows "triple (in_stage i J) (remove_stage_quietly env i)
    (\<lambda>_ s. in_stage i J s \<or> cleared J s) E (in_stage i J)"
proof -
  have last: "triple (in_stage i J)
      (if gone then on_error (disk_write (drop_stage i)) (\<lambda>_. ret ()) else ret ())
      (\<lambda>_ s. in_stage i J s \<or> cleared J s) E (in_stage i J)" for gone
  proof (cases gone)
    case True
    have "triple (in_stage i J) (on_error (disk_write (drop_stage i)) (\<lambda>_. ret ()))
      (\<lambda>_ s. in_stage i J s \<or> cleared J s) E (in_stage i J)"
      by (rule triple_on_error [where E = "in_stage i J"], rule triple_conseq [OF drop_clears])
         (auto intro: triple_ret)
    with True show ?thesis by simp
  next
    case False
    then show ?thesis by (simp del: act_eval add: triple_ret)
  qed
  show ?thesis unfolding remove_stage_quietly_def
  proof (rule triple_reads)
    fix s
    assume "in_stage i J s"
    then show "triple (\<lambda>t. t = s) (bindA (remove_items_quietly i (ce_listing env (the_stage s i)))
        (\<lambda>gone. if gone then on_error (disk_write (drop_stage i)) (\<lambda>_. ret ()) else ret ()))
        (\<lambda>_ s. in_stage i J s \<or> cleared J s) E (in_stage i J)"
      by (intro triple_bind [OF _ last] triple_conseq [OF remove_items_quietly_keeps [OF assms]]) auto
  qed
qed

end
