(* ===== verification/Atomic_Safety.thy ===== *)
theory Atomic_Safety
  imports Atomic_Crash
begin

text \<open>
  The states of a commit: undecided (the manifest, if there is one, says prepared, and every
  file is old, or new with its preimage and the proof of its publication in the stage) and
  decided (every file is new). The steps of the commit move from one to the other at the write
  of the committed manifest only.
\<close>

section \<open>Entries in flight\<close>

definition applied :: "files \<Rightarrow> files \<Rightarrow> entry \<Rightarrow> files \<Rightarrow> files \<Rightarrow> bool" where
  "applied L N e F V \<longleftrightarrow> kept L e F \<and> V (e_relative e) = N (e_relative e)
     \<and> F (e_cand_ref e) = (if N (e_relative e) = None then L (e_relative e) else None)"

text \<open>A journal file is gone or holds what the commit put there.\<close>

definition traces :: "files \<Rightarrow> files \<Rightarrow> entry \<Rightarrow> files \<Rightarrow> bool" where
  "traces L N e F \<longleftrightarrow>
     (F (e_cand_ref e) = None \<or> F (e_cand_ref e) = Some (cand_of L N e))
   \<and> (\<forall>ref. e_pre_ref e = Some ref \<longrightarrow> F ref = None \<or> F ref = L (e_relative e))"

definition pending :: "files \<Rightarrow> files \<Rightarrow> entry \<Rightarrow> files \<Rightarrow> files \<Rightarrow> bool" where
  "pending L N e F V \<longleftrightarrow> traces L N e F \<and> (V (e_relative e) = L (e_relative e) \<or> applied L N e F V)"

definition untouched :: "files \<Rightarrow> manifest \<Rightarrow> files \<Rightarrow> bool" where
  "untouched L m V \<longleftrightarrow> (\<forall>r. r \<notin> e_relative ` set (m_entries m) \<longrightarrow> V r = L r)"

lemma entry_had:
  assumes "entry_for env p k L N e"
  obtains (none) "L (e_relative e) = None" "e_had e = False" "e_pre_ref e = None" "e_pre_sha e = None"
      "N (e_relative e) \<noteq> None" "\<not> removes e"
  | (some) b ref where "L (e_relative e) = Some b" "e_had e = True" "e_pre_ref e = Some ref"
      "e_pre_sha e = Some (ce_sha env b)" "length b \<le> max_entry_bytes (pf_limits p)"
  using assms unfolding entry_for_def Let_def fits_def
  by (cases "L (e_relative e)"; cases "N (e_relative e)"; cases "e_pre_ref e") auto

lemma cand_of_new: "N (e_relative e) = Some c \<Longrightarrow> cand_of L N e = c"
  by (simp add: cand_of_def)

lemma cand_of_old: "N (e_relative e) = None \<Longrightarrow> cand_of L N e = the (L (e_relative e))"
  by (simp add: cand_of_def)

lemma refs_apart:
  "entry_for env p k L N e \<Longrightarrow> entry_for env p k L N d \<Longrightarrow> e_pre_ref d = Some ref \<Longrightarrow> ref \<noteq> e_cand_ref e"
proof -
  assume "entry_for env p k L N e" "entry_for env p k L N d" "e_pre_ref d = Some ref"
  then have c: "journal_file_in ''candidates'' (e_cand_ref e)" and p: "journal_file_in ''preimages'' ref"
    by (auto simp: entry_for_def Let_def)
  have "take 1 (e_cand_ref e) = ''c''" using c
    by (cases "e_cand_ref e") (auto simp: journal_file_in_def)
  moreover have "take 1 ref = ''p''" using p
    by (cases ref) (auto simp: journal_file_in_def)
  ultimately show "ref \<noteq> e_cand_ref e" by auto
qed

section \<open>Publishing one entry\<close>

text \<open>The renames of a publication, on an entry that is staged.\<close>

definition move :: "files \<Rightarrow> files \<Rightarrow> string \<Rightarrow> entry \<Rightarrow> disk \<Rightarrow> disk" where
  "move L N i e s = set_live (e_relative e) (N (e_relative e))
     (set_file i (e_cand_ref e) (if N (e_relative e) = None then L (e_relative e) else None) s)"

lemma set_live_file: "set_file i ref b (set_live p x s) = set_live p x (set_file i ref b s)"
  by (simp add: set_file_def set_live_def set_stage_def the_stage_def stage_at_def Let_def)

lemma disk_write_cong: "(\<And>fs. f (s\<lparr>d_fates := fs\<rparr>) = g (s\<lparr>d_fates := fs\<rparr>)) \<Longrightarrow> disk_write f s = disk_write g s"
proof -
  assume eq: "\<And>fs. f (s\<lparr>d_fates := fs\<rparr>) = g (s\<lparr>d_fates := fs\<rparr>)"
  from eq [of "d_fates s"] have "f s = g s" by simp
  with eq show ?thesis by (simp add: disk_write_def split: list.split fate.split)
qed

lemma publish_entry_moves:
  assumes e: "entry_for env p k L N e" and st: "d_stages s = [(i, g)]"
    and staged: "staged L N e (sg_files g)" and live: "d_live s (e_relative e) = L (e_relative e)"
  shows "publish_entry env p i e s = disk_write (move L N i e) s"
proof -
  let ?r = "e_relative e" and ?n = "max_entry_bytes (pf_limits p)"
  have target: "instance_target env ?r = Some ?r" and fit: "fits p (L ?r)" "fits p (N ?r)"
    and sha: "e_cand_sha e = ce_sha env (cand_of L N e)" and rm: "removes e \<longleftrightarrow> N ?r = None"
    using e by (auto simp: entry_for_def Let_def)
  note here = the_stage_one [OF st]
  have before: "live_bytes ?n Commit_error Commit_error ?r s = (Inr (L ?r), s)"
    using fit(1) live by (simp add: live_bytes_result fits_def split: option.splits)
  have expected: "(if e_had e then bindA (journal_bytes ?n Commit_error i (the (e_pre_ref e))) (\<lambda>b. ret (Some b))
      else ret None) s = (Inr (L ?r), s)"
    using e staged fit(1) here
    by (cases rule: entry_had) (auto simp: staged_def kept_def act_results journal_bytes_result)
  show ?thesis
  proof (cases "N ?r")
    case (Some c)
    have cand: "journal_bytes ?n Commit_error i (e_cand_ref e) s = (Inr c, s)"
      using staged fit(2) Some here by (simp add: journal_bytes_result staged_def fits_def)
    have "publish_entry env p i e s =
      disk_write (\<lambda>s. set_live ?r (Some c) (set_file i (e_cand_ref e) None s)) s"
      using target before expected cand sha Some rm
      by (simp add: publish_entry_def Let_def target_or_def cand_of_new)
    then show ?thesis using Some by (simp add: move_def [abs_def])
  next
    case None
    with e obtain b where b: "L ?r = Some b" "e_pre_sha e = Some (ce_sha env b)" "length b \<le> ?n"
      by (cases rule: entry_had) auto
    have absent: "sg_files (the_stage s i) (e_cand_ref e) = None"
      using staged None here by (simp add: staged_def)
    let ?f = "\<lambda>s. set_file i (e_cand_ref e) (d_live s ?r) (set_live ?r None s)"
    let ?rest = "bindA (journal_bytes ?n Commit_error i (e_cand_ref e)) (\<lambda>moved.
             require (Some (ce_sha env moved) = e_pre_sha e) Commit_error)"
    have same: "disk_write ?f s = disk_write (move L N i e) s"
      using None live by (intro disk_write_cong) (simp add: move_def set_live_file)
    have check: "?rest (move L N i e s') = (Inr (), move L N i e s')" if "d_stages s' = [(i, g)]" for s'
    proof -
      have "d_stages (move L N i e s') = [(i, g\<lparr>sg_files := (sg_files g)(e_cand_ref e := Some b)\<rparr>)]"
        using that None b by (simp add: move_def set_file_one)
      from the_stage_one [OF this] show ?thesis using b
        by (simp add: bindA_Inr [of _ _ b] journal_bytes_result)
    qed
    have "publish_entry env p i e s = seqA (disk_write ?f) ?rest s"
      using target before expected absent None rm
      by (simp add: publish_entry_def Let_def target_or_def)
    also have "\<dots> = seqA (disk_write (move L N i e)) ?rest s"
      using same by (simp add: seqA_def bindA_def)
    also have "\<dots> = disk_write (move L N i e) s"
      using check st by (simp add: seqA_def bindA_def disk_write_def split: list.splits fate.splits)
    finally show ?thesis .
  qed
qed

section \<open>The states of a commit\<close>

definition undecided_stage :: "commit_env \<Rightarrow> profile \<Rightarrow> string \<Rightarrow> files \<Rightarrow> files \<Rightarrow> stage \<Rightarrow> files \<Rightarrow> bool" where
  "undecided_stage env p i L N g V = (case sg_marker g of
       No_marker \<Rightarrow> V = L
     | Bad_marker \<Rightarrow> False
     | Marker m \<Rightarrow> m_status m = Prepared \<and> plan env p i L N m \<and> untouched L m V
         \<and> (\<forall>e \<in> set (m_entries m). pending L N e (sg_files g) V))"

definition decided_stage :: "commit_env \<Rightarrow> profile \<Rightarrow> string \<Rightarrow> files \<Rightarrow> files \<Rightarrow> stage \<Rightarrow> files \<Rightarrow> bool" where
  "decided_stage env p i L N g V \<longleftrightarrow> V = N \<and> (case sg_marker g of
       No_marker \<Rightarrow> True
     | Bad_marker \<Rightarrow> False
     | Marker m \<Rightarrow> m_status m = Committed \<and> plan env p i L N m
         \<and> (\<forall>e \<in> set (m_entries m). traces L N e (sg_files g)))"

definition restored_stage :: "commit_env \<Rightarrow> profile \<Rightarrow> string \<Rightarrow> files \<Rightarrow> files \<Rightarrow> stage \<Rightarrow> files \<Rightarrow> bool" where
  "restored_stage env p i L N g V \<longleftrightarrow> V = L \<and> undecided_stage env p i L N g V"

definition undecided :: "commit_env \<Rightarrow> profile \<Rightarrow> string \<Rightarrow> files \<Rightarrow> files \<Rightarrow> disk \<Rightarrow> bool" where
  "undecided env p i L N s \<longleftrightarrow>
     (d_stages s = [] \<and> d_live s = L) \<or> in_stage i (undecided_stage env p i L N) s"

definition decided :: "commit_env \<Rightarrow> profile \<Rightarrow> string \<Rightarrow> files \<Rightarrow> files \<Rightarrow> disk \<Rightarrow> bool" where
  "decided env p i L N s \<longleftrightarrow>
     (d_stages s = [] \<and> d_live s = N) \<or> in_stage i (decided_stage env p i L N) s"

lemma traces_shrink: "traces L N e F \<Longrightarrow> traces L N e (F(ref := None))"
  by (auto simp: traces_def)

lemma shrinks_decided: "shrinks (decided_stage env p i L N)"
  by (auto simp: shrinks_def decided_stage_def traces_shrink split: marker.splits)

lemma shrinks_restored: "shrinks (restored_stage env p i L N)"
  by (auto simp: shrinks_def restored_stage_def undecided_stage_def pending_def traces_shrink
        split: marker.splits)

lemma cleared_decided: "cleared (decided_stage env p i L N) s \<Longrightarrow> d_stages s = [] \<and> d_live s = N"
  by (auto simp: cleared_def upon_def decided_stage_def)

lemma cleared_restored: "cleared (restored_stage env p i L N) s \<Longrightarrow> d_stages s = [] \<and> d_live s = L"
  by (auto simp: cleared_def upon_def restored_stage_def)

lemma restored_undecided: "in_stage i (restored_stage env p i L N) s \<Longrightarrow> undecided env p i L N s"
  unfolding undecided_def by (rule disjI2, erule in_stage_mono) (simp add: restored_stage_def)

section \<open>Publishing all entries\<close>

lemma planD:
  assumes "plan env p i L N m"
  shows "e \<in> set (m_entries m) \<Longrightarrow> entry_for env p (m_schema m) L N e"
    and "distinct (map e_relative (m_entries m))" and "distinct (map e_cand_ref (m_entries m))"
    and "r \<notin> e_relative ` set (m_entries m) \<Longrightarrow> L r = N r"
    and "ce_manifest_size env m \<le> manifest_byte_limit (max_entries (pf_limits p))"
  using assms by (auto simp: plan_def)

lemma plan_apart:
  assumes "plan env p i L N m" and "m_entries m = xs @ e # ys" and "d \<in> set (xs @ ys)"
  shows "e_relative d \<noteq> e_relative e" and "e_cand_ref d \<noteq> e_cand_ref e"
    and "e_pre_ref d = Some ref \<Longrightarrow> ref \<noteq> e_cand_ref e"
proof -
  show "e_relative d \<noteq> e_relative e" "e_cand_ref d \<noteq> e_cand_ref e"
    using planD(2,3) [OF assms(1)] imageI [OF assms(3), of e_relative] imageI [OF assms(3), of e_cand_ref]
    by (auto simp: assms(2))
  show "ref \<noteq> e_cand_ref e" if "e_pre_ref d = Some ref"
    using assms(2,3) that by (intro refs_apart [OF planD(1) planD(1)]) (use assms(1) in auto)
qed

definition publishing ::
  "files \<Rightarrow> files \<Rightarrow> manifest \<Rightarrow> entry list \<Rightarrow> entry list \<Rightarrow> stage \<Rightarrow> files \<Rightarrow> bool" where
  "publishing L N m ds ts g V \<longleftrightarrow> sg_marker g = Marker m \<and> untouched L m V
     \<and> (\<forall>e \<in> set ds. applied L N e (sg_files g) V)
     \<and> (\<forall>e \<in> set ts. staged L N e (sg_files g) \<and> V (e_relative e) = L (e_relative e))"

text \<open>The journal of a prepared manifest, with every preimage still in the stage.\<close>

definition guarded :: "files \<Rightarrow> files \<Rightarrow> manifest \<Rightarrow> stage \<Rightarrow> files \<Rightarrow> bool" where
  "guarded L N m g V \<longleftrightarrow> sg_marker g = Marker m \<and> untouched L m V
     \<and> (\<forall>e \<in> set (m_entries m). pending L N e (sg_files g) V \<and> kept L e (sg_files g))"

lemma applied_pending:
  assumes "entry_for env p k L N e" and "applied L N e F V"
  shows "pending L N e F V \<and> kept L e F"
  using assms by (cases rule: entry_had)
    (auto simp: pending_def applied_def traces_def kept_def cand_of_def split: option.splits)

lemma staged_pending:
  assumes "staged L N e F" and "V (e_relative e) = L (e_relative e)"
  shows "pending L N e F V \<and> kept L e F"
  using assms by (auto simp: pending_def staged_def traces_def kept_def cand_of_def split: option.splits)

lemma publishing_guarded:
  assumes "plan env p i L N m" and "m_entries m = ds @ ts" and "publishing L N m ds ts g V"
  shows "guarded L N m g V"
  using assms applied_pending [OF planD(1) [OF assms(1)]] staged_pending
  by (fastforce simp: guarded_def publishing_def)

lemma guarded_undecided:
  assumes "plan env p i L N m" and "m_status m = Prepared" and "in_stage i (guarded L N m) s"
  shows "undecided env p i L N s"
  unfolding undecided_def
  by (rule disjI2, rule in_stage_mono [OF assms(3)])
     (use assms in \<open>auto simp: guarded_def undecided_stage_def\<close>)

lemma move_parts:
  assumes "d_stages s = [(i, g)]"
  shows "d_stages (move L N i e s) = [(i, g\<lparr>sg_files := (sg_files g)(e_cand_ref e :=
           (if N (e_relative e) = None then L (e_relative e) else None))\<rparr>)]"
    and "d_live (move L N i e s) = (d_live s)(e_relative e := N (e_relative e))"
  using assms by (simp_all add: move_def set_file_one)

lemma publishing_step:
  assumes plan: "plan env p i L N m" and es: "m_entries m = xs @ e # ys" and st: "d_stages s = [(i, g)]"
    and now: "publishing L N m xs (e # ys) g (d_live s)"
  shows "in_stage i (publishing L N m (xs @ [e]) ys) (move L N i e s)"
proof (rule in_stageI [OF move_parts(1) [OF st]])
  let ?r = "e_relative e" and ?c = "e_cand_ref e"
  let ?x = "if N ?r = None then L ?r else None"
  let ?F = "(sg_files g)(?c := ?x)" and ?V = "(d_live s)(?r := N ?r)"
  have e: "entry_for env p (m_schema m) L N e" using es by (intro planD(1) [OF plan]) simp
  have other: "kept L d ?F = kept L d (sg_files g)" "?F (e_cand_ref d) = sg_files g (e_cand_ref d)"
      "?V (e_relative d) = d_live s (e_relative d)" if "d \<in> set (xs @ ys)" for d
    using plan_apart [OF plan es that] by (auto simp: kept_def)
  have own: "kept L e ?F"
    using now refs_apart [OF e e] by (auto simp: publishing_def staged_def kept_def)
  have "untouched L m ?V" using now es by (auto simp: untouched_def publishing_def)
  moreover have "applied L N d ?F ?V" if "d \<in> set (xs @ [e])" for d
    using that now own other [of d] by (auto simp: publishing_def applied_def)
  moreover have "staged L N d ?F \<and> ?V (e_relative d) = L (e_relative d)" if "d \<in> set ys" for d
    using that now other [of d] by (auto simp: publishing_def staged_def)
  ultimately show "publishing L N m (xs @ [e]) ys (g\<lparr>sg_files := ?F\<rparr>) (d_live (move L N i e s))"
    using now by (simp add: publishing_def move_parts(2) [OF st])
qed

lemma publish_all:
  assumes plan: "plan env p i L N m"
  shows "triple (in_stage i (publishing L N m [] (m_entries m)))
    (for_each (publish_entry env p i) (m_entries m))
    (\<lambda>_. in_stage i (publishing L N m (m_entries m) []))
    (in_stage i (guarded L N m)) (in_stage i (guarded L N m))"
proof -
  define I where "I xs = in_stage i (publishing L N m xs (drop (length xs) (m_entries m)))" for xs
  have "triple (I []) (for_each (publish_entry env p i) (m_entries m)) (\<lambda>_. I (m_entries m))
    (in_stage i (guarded L N m)) (in_stage i (guarded L N m))"
  proof (rule triple_for_each)
    fix xs e ys
    assume es: "m_entries m = xs @ e # ys"
    have here: "I xs = in_stage i (publishing L N m xs (e # ys))"
      and further: "I (xs @ [e]) = in_stage i (publishing L N m (xs @ [e]) ys)"
      using es by (simp_all add: I_def)
    have act: "triple (in_stage i (publishing L N m xs (e # ys))) (disk_write (move L N i e))
      (\<lambda>_. in_stage i (publishing L N m (xs @ [e]) ys)) (in_stage i (guarded L N m)) (in_stage i (guarded L N m))"
      by (rule triple_stage_write)
         (auto intro: publishing_step [OF plan es] in_stage_mono publishing_guarded [OF plan es])
    show "triple (I xs) (publish_entry env p i e) (\<lambda>_. I (xs @ [e]))
      (in_stage i (guarded L N m)) (in_stage i (guarded L N m))"
      unfolding here further
    proof (rule triple_pre)
      fix s
      assume s: "in_stage i (publishing L N m xs (e # ys)) s"
      from in_stageD [OF s] have "publish_entry env p i e s = disk_write (move L N i e) s"
        using es by (intro publish_entry_moves [OF planD(1) [OF plan]]) (auto simp: publishing_def)
      then show "triple (\<lambda>t. t = s) (publish_entry env p i e)
        (\<lambda>_. in_stage i (publishing L N m (xs @ [e]) ys)) (in_stage i (guarded L N m)) (in_stage i (guarded L N m))"
        by (rule triple_at [where m' = "disk_write (move L N i e)", OF _ act s])
    qed
  qed
  then show ?thesis by (simp add: I_def)
qed

section \<open>Sealing\<close>

lemma seal_decides:
  assumes plan: "plan env p i L N m" and st: "m_status m = Prepared"
  shows "triple (in_stage i (publishing L N m (m_entries m) [])) (seal_commit env p i m)
    (\<lambda>_. in_stage i (decided_stage env p i L N))
    (in_stage i (guarded L N m)) (in_stage i (guarded L N m))"
proof -
  let ?m = "m\<lparr>m_status := Committed, m_committed_at := Some (ce_now env)\<rparr>"
  let ?ok = "ce_manifest_size env ?m \<le> manifest_byte_limit (max_entries (pf_limits p))"
  have guard: "in_stage i (guarded L N m) s" if "in_stage i (publishing L N m (m_entries m) []) s" for s
    by (rule in_stage_mono [OF that]) (rule publishing_guarded [OF plan], simp_all)
  have new: "decided_stage env p i L N (g\<lparr>sg_marker := Marker ?m\<rparr>) V"
    if ?ok and pub: "publishing L N m (m_entries m) [] g V" for g V
  proof -
    have "V r = N r" for r
      using pub planD(4) [OF plan] by (cases "r \<in> e_relative ` set (m_entries m)")
        (auto simp: publishing_def untouched_def applied_def)
    moreover have "plan env p i L N ?m" using plan \<open>?ok\<close> by (simp add: plan_def)
    moreover have "traces L N e (sg_files g)" if "e \<in> set (m_entries m)" for e
      using applied_pending [OF planD(1) [OF plan that], of "sg_files g" V] that pub
      by (auto simp: publishing_def pending_def)
    ultimately show ?thesis by (auto simp: decided_stage_def)
  qed
  show ?thesis unfolding seal_commit_def write_marker_def
  proof (rule triple_seq)
    show "triple (in_stage i (publishing L N m (m_entries m) [])) (require ?ok Commit_error)
      (\<lambda>_. in_stage i (\<lambda>g V. ?ok \<and> publishing L N m (m_entries m) [] g V))
      (in_stage i (guarded L N m)) (in_stage i (guarded L N m))"
      by (rule triple_require) (auto intro: guard elim: in_stage_mono)
    show "triple (in_stage i (\<lambda>g V. ?ok \<and> publishing L N m (m_entries m) [] g V))
      (disk_write (set_marker i (Marker ?m))) (\<lambda>_. in_stage i (decided_stage env p i L N))
      (in_stage i (guarded L N m)) (in_stage i (guarded L N m))"
    proof (rule triple_stage_write)
      fix g and s :: disk
      assume "d_stages s = [(i, g)]" "?ok \<and> publishing L N m (m_entries m) [] g (d_live s)"
      then show "in_stage i (decided_stage env p i L N) (set_marker i (Marker ?m) s)"
        using new [of g "d_live s"] by (intro in_stageI [OF set_marker_one]) simp_all
    qed (auto intro: in_stage_mono [THEN guard])
  qed
qed

end
