(* ===== verification/Atomic_Rollback.thy ===== *)
theory Atomic_Rollback
  imports Atomic_Safety
begin

text \<open>
  Rolling back restores every old file, whatever part of the publication had happened, as long
  as the preimages are in the stage; preparing a transaction stages every entry; and the commit
  as a whole ends decided when it returns and undecided when it raises.
\<close>

section \<open>Rolling back\<close>

definition restore :: "files \<Rightarrow> entry \<Rightarrow> unit disk_act" where
  "restore L e = (\<lambda>s. if d_live s (e_relative e) = L (e_relative e) then (Inr (), s)
     else disk_write (set_live (e_relative e) (L (e_relative e))) s)"

lemma journal_bytes_has:
  "sg_files (the_stage s i) ref = Some b \<Longrightarrow> length b \<le> n \<Longrightarrow> journal_bytes n err i ref s = (Inr b, s)"
  by (simp add: journal_bytes_result)

lemma live_digest_has: "d_live s p = Some b \<Longrightarrow> length b \<le> n \<Longrightarrow> live_digest env n err p s = (Inr (ce_sha env b), s)"
  by (simp add: live_digest_def)

lemma entry_fits:
  assumes "entry_for env p k L N e"
  shows "L (e_relative e) = Some b \<Longrightarrow> length b \<le> max_entry_bytes (pf_limits p)"
    and "N (e_relative e) = Some b \<Longrightarrow> length b \<le> max_entry_bytes (pf_limits p)"
  using assms by (auto simp: entry_for_def Let_def fits_def)

lemma rollback_removal_restores:
  assumes e: "entry_for env p k L N e" and rm: "N (e_relative e) = None" and st: "d_stages s = [(i, g)]"
    and pend: "pending L N e (sg_files g) (d_live s)" and kept: "kept L e (sg_files g)"
  shows "rollback_removal env (max_entry_bytes (pf_limits p)) err i e (e_relative e) s = restore L e s"
proof -
  note here = the_stage_one [OF st]
  obtain b ref where old: "L (e_relative e) = Some b" "e_pre_ref e = Some ref"
      "e_pre_sha e = Some (ce_sha env b)" "length b \<le> max_entry_bytes (pf_limits p)"
    using e rm by (cases rule: entry_had) auto
  have pre: "sg_files (the_stage s i) ref = Some b" using kept old here by (simp add: kept_def)
  have tr: "sg_files g (e_cand_ref e) = None \<or> sg_files g (e_cand_ref e) = Some b"
    using pend rm old by (simp add: pending_def traces_def cand_of_def)
  show ?thesis
  proof (cases "sg_files g (e_cand_ref e)")
    case None
    then have "d_live s (e_relative e) = L (e_relative e)"
      using pend rm old by (auto simp: pending_def applied_def)
    with None here show ?thesis by (simp add: rollback_removal_def restore_def)
  next
    case (Some c)
    with tr have c: "sg_files (the_stage s i) (e_cand_ref e) = Some b" using here by simp
    have live: "d_live s (e_relative e) = None \<or> d_live s (e_relative e) = Some b"
      using pend rm old by (auto simp: pending_def applied_def)
    have "live_bytes (max_entry_bytes (pf_limits p)) err err (e_relative e) s = (Inr (d_live s (e_relative e)), s)"
      using live old(4) by (auto simp: live_bytes_result)
    then show ?thesis using live old c pre journal_bytes_has [OF c old(4)] journal_bytes_has [OF pre old(4)]
      by (auto simp: rollback_removal_def restore_def)
  qed
qed

lemma rollback_write_restores:
  assumes e: "entry_for env p k L N e" and new: "N (e_relative e) = Some c" and st: "d_stages s = [(i, g)]"
    and pend: "pending L N e (sg_files g) (d_live s)" and kept: "kept L e (sg_files g)"
    and apart: "no_collision env L N"
  shows "rollback_write env (max_entry_bytes (pf_limits p)) err i e (e_relative e) s = restore L e s"
proof -
  let ?n = "max_entry_bytes (pf_limits p)" and ?r = "e_relative e"
  note here = the_stage_one [OF st]
  have sha: "e_cand_sha e = ce_sha env c" and diff: "L ?r \<noteq> Some c"
    using e new by (auto simp: entry_for_def Let_def cand_of_def)
  have fit: "length c \<le> ?n" using entry_fits(2) [OF e new] .
  have live: "d_live s ?r = L ?r \<or> d_live s ?r = Some c"
    using pend new by (auto simp: pending_def applied_def)
  have cand: "case sg_files (the_stage s i) (e_cand_ref e) of None \<Rightarrow> True
      | Some b \<Rightarrow> length b \<le> ?n \<and> ce_sha env b = e_cand_sha e"
    using pend here new sha fit by (auto simp: pending_def traces_def cand_of_def split: option.splits)
  from e show ?thesis
  proof (cases rule: entry_had)
    case none
    with live here cand sha fit diff live_digest_has [of s ?r c ?n env err] show ?thesis
      by (auto simp: rollback_write_def restore_def)
  next
    case (some b ref)
    have pre: "sg_files (the_stage s i) ref = Some b" using kept some here by (simp add: kept_def)
    have "ce_sha env b \<noteq> ce_sha env c" using apart some new diff by (auto simp: no_collision_def)
    with live here cand sha fit diff some journal_bytes_has [OF pre some(5)]
      live_digest_has [of s ?r c ?n env err] live_digest_has [of s ?r b ?n env err]
    show ?thesis by (auto simp: rollback_write_def restore_def)
  qed
qed

lemma rollback_entry_restores:
  assumes e: "entry_for env p k L N e" and st: "d_stages s = [(i, g)]"
    and pend: "pending L N e (sg_files g) (d_live s)" and kept: "kept L e (sg_files g)"
    and apart: "no_collision env L N"
  shows "rollback_entry env p err i e s = restore L e s"
proof -
  have target: "instance_target env (e_relative e) = Some (e_relative e)"
    and rm: "removes e \<longleftrightarrow> N (e_relative e) = None"
    using e by (auto simp: entry_for_def Let_def)
  show ?thesis
    using rollback_removal_restores [OF e _ st pend kept]
      rollback_write_restores [OF e _ st pend kept apart] target rm
    by (cases "N (e_relative e)") (auto simp: rollback_entry_def target_or_def)
qed

definition restoring :: "files \<Rightarrow> files \<Rightarrow> manifest \<Rightarrow> entry list \<Rightarrow> stage \<Rightarrow> files \<Rightarrow> bool" where
  "restoring L N m ds g V \<longleftrightarrow> guarded L N m g V \<and> (\<forall>e \<in> set ds. V (e_relative e) = L (e_relative e))"

lemma restoring_step:
  assumes "restoring L N m ds g V" and "e \<in> set (m_entries m)"
  shows "restoring L N m (ds @ [e]) g (V(e_relative e := L (e_relative e)))"
  using assms by (auto simp: restoring_def guarded_def pending_def applied_def untouched_def)

lemma rollback_all:
  assumes plan: "plan env p i L N m" and apart: "no_collision env L N"
  shows "triple (in_stage i (guarded L N m)) (rollback env p err i m)
    (\<lambda>_. in_stage i (\<lambda>g V. guarded L N m g V \<and> V = L))
    (in_stage i (guarded L N m)) (in_stage i (guarded L N m))"
proof -
  define I where "I xs = in_stage i (restoring L N m xs)" for xs
  have "triple (I []) (rollback env p err i m) (\<lambda>_. I (rev (m_entries m)))
    (in_stage i (guarded L N m)) (in_stage i (guarded L N m))"
    unfolding rollback_def
  proof (rule triple_for_each)
    fix xs e ys
    assume "rev (m_entries m) = xs @ e # ys"
    then have e: "e \<in> set (m_entries m)" by (metis in_set_conv_decomp set_rev)
    have act: "triple (I xs) (disk_write (set_live (e_relative e) (L (e_relative e)))) (\<lambda>_. I (xs @ [e]))
      (in_stage i (guarded L N m)) (in_stage i (guarded L N m))"
      unfolding I_def
    proof (rule triple_stage_write)
      fix g and s :: disk
      assume "d_stages s = [(i, g)]" "restoring L N m xs g (d_live s)"
      then show "in_stage i (restoring L N m (xs @ [e])) (set_live (e_relative e) (L (e_relative e)) s)"
        using restoring_step [OF _ e] by (intro in_stageI) auto
    qed (auto simp: restoring_def elim: in_stage_mono)
    show "triple (I xs) (rollback_entry env p err i e) (\<lambda>_. I (xs @ [e]))
      (in_stage i (guarded L N m)) (in_stage i (guarded L N m))"
    proof (rule triple_pre)
      fix s
      assume s: "I xs s"
      then have now: "d_stages s = [(i, the_stage s i)]" "restoring L N m xs (the_stage s i) (d_live s)"
        unfolding I_def using in_stageD by blast+
      then have same: "rollback_entry env p err i e s = restore L e s"
        using e by (intro rollback_entry_restores [OF planD(1) [OF plan e] _ _ _ apart])
          (auto simp: restoring_def guarded_def)
      show "triple (\<lambda>t. t = s) (rollback_entry env p err i e) (\<lambda>_. I (xs @ [e]))
        (in_stage i (guarded L N m)) (in_stage i (guarded L N m))"
      proof (cases "d_live s (e_relative e) = L (e_relative e)")
        case True
        with same now have "rollback_entry env p err i e s = (Inr (), s)" "I (xs @ [e]) s"
          by (auto simp: restore_def I_def restoring_def intro: in_stageI)
        then show ?thesis by (simp add: triple_def)
      next
        case False
        with same have "rollback_entry env p err i e s = disk_write (set_live (e_relative e) (L (e_relative e))) s"
          by (simp add: restore_def)
        then show ?thesis
          by (rule triple_at [where m' = "disk_write (set_live (e_relative e) (L (e_relative e)))", OF _ act s])
      qed
    qed
  qed
  then show ?thesis
  proof (rule triple_conseq)
    fix s
    assume "I (rev (m_entries m)) s"
    then show "in_stage i (\<lambda>g V. guarded L N m g V \<and> V = L) s"
      unfolding I_def
    proof (rule in_stage_mono)
      fix g V
      assume *: "restoring L N m (rev (m_entries m)) g V"
      then have "V r = L r" for r
        by (cases "r \<in> e_relative ` set (m_entries m)") (auto simp: restoring_def guarded_def untouched_def)
      with * show "guarded L N m g V \<and> V = L" by (auto simp: restoring_def)
    qed
  qed (auto simp: I_def restoring_def elim: in_stage_mono)
qed

section \<open>Preparing\<close>

definition observes :: "'a disk_act \<Rightarrow> bool" where
  "observes m \<longleftrightarrow> (\<forall>s. snd (m s) = s \<and> fst (m s) \<noteq> Inl Crash)"

lemma observes_bind: "observes m \<Longrightarrow> (\<And>x. observes (k x)) \<Longrightarrow> observes (bindA m k)"
  by (auto simp: observes_def bindA_def split: prod.splits sum.splits) (metis fst_conv snd_conv)+

lemma observes_seq: "observes m \<Longrightarrow> observes k \<Longrightarrow> observes (seqA m k)"
  unfolding seqA_def by (rule observes_bind)

lemma observes_basic:
  "observes (ret x)" "e \<noteq> Crash \<Longrightarrow> observes (require b e)"
  "e \<noteq> Crash \<Longrightarrow> observes (target_or env e r)"
  "e1 \<noteq> Crash \<Longrightarrow> e2 \<noteq> Crash \<Longrightarrow> observes (live_bytes n e1 e2 r)"
  by (auto simp: observes_def require_def target_or_def live_bytes_def split: option.splits)

lemma prepare_entry_observes: "observes (prepare_entry env t n w acc)"
proof -
  obtain r data imm where w: "w = (r, data, imm)" by (cases w)
  have choice: "observes (if b then m else m')" if "observes m" "observes m'" for b and m m' :: "prepared disk_act"
    using that by (cases b) simp_all
  show ?thesis unfolding prepare_entry_def w Let_def prod.case
    by (intro observes_bind observes_seq choice observes_basic) simp_all
qed

lemma prepare_entries_observes: "observes (prepare_entries env t n ws acc)"
  by (induction ws arbitrary: n acc)
     (simp_all only: prepare_entries.simps observes_basic(1) observes_bind prepare_entry_observes)

definition fresh_stage :: "files \<Rightarrow> (string \<times> bytes) list \<Rightarrow> stage \<Rightarrow> files \<Rightarrow> bool" where
  "fresh_stage L written g V \<longleftrightarrow> sg_marker g = No_marker \<and> sg_files g = map_of written \<and> V = L"

definition unmarked :: "files \<Rightarrow> stage \<Rightarrow> files \<Rightarrow> bool" where
  "unmarked L g V \<longleftrightarrow> sg_marker g = No_marker \<and> V = L"

lemma fresh_unmarked: "in_stage i (fresh_stage L w) s \<Longrightarrow> in_stage i (unmarked L) s"
  by (erule in_stage_mono) (simp add: fresh_stage_def unmarked_def)

lemma shrinks_unmarked: "shrinks (unmarked L)"
  by (simp add: shrinks_def unmarked_def)

lemma unmarked_undecided: "in_stage i (unmarked L) s \<Longrightarrow> undecided env p i L N s"
  unfolding undecided_def
  by (rule disjI2, erule in_stage_mono) (auto simp: unmarked_def undecided_stage_def)

lemma cleared_undecided: "cleared (unmarked L) s \<Longrightarrow> undecided env p i L N s"
  by (auto simp: cleared_def upon_def unmarked_def undecided_def)

lemma write_payloads:
  assumes "distinct (map fst pay)"
  shows "triple (in_stage i (fresh_stage L [])) (for_each (\<lambda>(ref, b). disk_write (set_file i ref (Some b))) pay)
    (\<lambda>_. in_stage i (fresh_stage L pay)) (in_stage i (unmarked L)) (in_stage i (unmarked L))"
proof (rule triple_for_each)
  fix xs x ys
  assume pay: "pay = xs @ x # ys"
  obtain ref b where x: "x = (ref, b)" by (cases x)
  have "ref \<notin> fst ` set xs" using assms pay x by auto
  then have "map_of xs ref = None" by (simp add: map_of_eq_None_iff)
  then have more: "(map_of xs)(ref := Some b) = map_of (xs @ [x])"
    by (auto simp: x map_add_def fun_eq_iff split: option.splits)
  have "triple (in_stage i (fresh_stage L xs)) (disk_write (set_file i ref (Some b)))
    (\<lambda>_. in_stage i (fresh_stage L (xs @ [x]))) (in_stage i (unmarked L)) (in_stage i (unmarked L))"
  proof (rule triple_stage_write)
    fix g and s :: disk
    assume "d_stages s = [(i, g)]" "fresh_stage L xs g (d_live s)"
    then show "in_stage i (fresh_stage L (xs @ [x])) (set_file i ref (Some b) s)"
      by (intro in_stageI [OF set_file_one]) (auto simp: fresh_stage_def more simp del: map_of_append)
  qed (auto intro: fresh_unmarked)
  then show "triple (in_stage i (fresh_stage L xs)) (case x of (ref, b) \<Rightarrow> disk_write (set_file i ref (Some b)))
    (\<lambda>_. in_stage i (fresh_stage L (xs @ [x]))) (in_stage i (unmarked L)) (in_stage i (unmarked L))"
    by (simp add: x)
qed

definition manifest_of :: "commit_env \<Rightarrow> transaction \<Rightarrow> string \<Rightarrow> prepared \<Rightarrow> manifest" where
  "manifest_of env t i pr =
     \<lparr>m_schema = (if tx_removals t = [] then 1 else 2), m_transaction = i,
      m_kind = pf_kind (tx_profile t), m_status = Prepared, m_owner = tx_owner t,
      m_prepared_at = ce_now env, m_committed_at = None, m_entries = pr_entries pr\<rparr>"

lemma built_plan:
  assumes ok: "tx_ok env t" and built: "built env t L (sort_key fst (tx_writes t)) pr"
    and ne: "pr_entries pr \<noteq> []" and i: "transaction_ok (tx_profile t) i"
    and len: "ce_manifest_size env (manifest_of env t i pr) \<le> manifest_byte_limit (max_entries (pf_limits (tx_profile t)))"
  shows "plan env (tx_profile t) i L (new_live t L) (manifest_of env t i pr)"
proof -
  let ?m = "manifest_of env t i pr" and ?p = "tx_profile t" and ?N = "new_live t L"
  note b = builtD [OF built]
  have "L r = ?N r" if "r \<notin> e_relative ` set (pr_entries pr)" for r
    using b(15) [of r] that
    by (cases "r \<in> fst ` set (tx_writes t)") (auto simp: new_live_def map_of_eq_None_iff [THEN iffD2])
  moreover have "pr_entries pr \<noteq> [] \<longrightarrow> 1 \<le> length (pr_entries pr)" by (cases "pr_entries pr") auto
  moreover have "length (pr_entries pr) \<le> max_entries (pf_limits ?p)"
    using b(14) ok by (simp add: tx_ok_def)
  moreover have "\<forall>e \<in> set (m_entries ?m). entry_for env ?p (m_schema ?m) L ?N e"
    using b(1) by (simp add: manifest_of_def)
  moreover have "distinct (concat (map (\<lambda>e. case e_pre_ref e of None \<Rightarrow> [] | Some r \<Rightarrow> [r]) (m_entries ?m)))"
    using b(8) by (simp add: pre_refs_def manifest_of_def)
  moreover have "tx_removals t = [] \<or> ?p = REVIEW_PROFILE" "accepts_owner ?p (tx_owner t)"
    using ok by (auto simp: tx_ok_def)
  ultimately show ?thesis
    using b(6,7,10-12) ne i len unfolding plan_def by (auto simp: manifest_of_def)
qed

lemma triple_observes:
  assumes "observes m" and "\<And>s x. P s \<Longrightarrow> m s = (Inr x, s) \<Longrightarrow> Q x s" and "\<And>s. P s \<Longrightarrow> E s"
  shows "triple P m Q E C"
  unfolding triple_def
proof (intro allI impI)
  fix s
  assume "P s"
  obtain r t where m: "m s = (r, t)" by (cases "m s")
  with assms(1) have "t = s" "r \<noteq> Inl Crash" by (auto simp: observes_def dest: spec [of _ s])
  with m assms(2,3) \<open>P s\<close> show "case m s of (Inr x, t) \<Rightarrow> Q x t | (Inl e, t) \<Rightarrow> if e = Crash then C t else E t"
    by (cases r) auto
qed

lemma triple_pure: "(B \<Longrightarrow> triple P m Q E C) \<Longrightarrow> triple (\<lambda>s. B \<and> P s) m Q E C"
  by (auto simp: triple_def)

definition ready :: "commit_env \<Rightarrow> profile \<Rightarrow> string \<Rightarrow> files \<Rightarrow> files \<Rightarrow> manifest \<Rightarrow> disk \<Rightarrow> bool" where
  "ready env p i L N m s \<longleftrightarrow> (plan env p i L N m \<and> m_status m = Prepared)
     \<and> in_stage i (publishing L N m [] (m_entries m)) s"

lemma prepare_stage_readies:
  assumes ok: "tx_ok env t" and prof: "profile_ok (tx_profile t)" and i: "transaction_ok (tx_profile t) i"
  shows "triple (in_stage i (fresh_stage L [])) (prepare_stage env t i)
    (ready env (tx_profile t) i L (new_live t L)) (in_stage i (unmarked L)) (in_stage i (unmarked L))"
proof -
  let ?ws = "sort_key fst (tx_writes t)" and ?l = "pf_limits (tx_profile t)" and ?N = "new_live t L"
  let ?start = "in_stage i (fresh_stage L [])" and ?err = "in_stage i (unmarked L)"
  have keys: "distinct (map fst ([] @ ?ws))" "length ([] @ ?ws) \<le> 10000"
    using ok prof by (auto simp: tx_ok_def profile_ok_def distinct_map inj_on_def intro: distinct_sort)
  have read: "triple ?start (prepare_entries env t 0 ?ws no_entries)
      (\<lambda>pr s. built env t L ?ws pr \<and> ?start s) ?err ?err"
  proof (rule triple_observes [OF prepare_entries_observes])
    fix s pr
    assume s: "?start s" and run: "prepare_entries env t 0 ?ws no_entries s = (Inr pr, s)"
    have "d_live s = L" using in_stageD [OF s] by (simp add: fresh_stage_def)
    then show "built env t L ?ws pr \<and> ?start s"
      using prepare_entries_built [OF ok _ keys, of s no_entries pr s] built_start run s by simp
  qed (rule fresh_unmarked)
  have rest: "triple (\<lambda>s. built env t L ?ws pr \<and> ?start s)
    (seqA (require (pr_entries pr \<noteq> []) Integrity_error)
      (seqA (for_each (\<lambda>(ref, b). disk_write (set_file i ref (Some b))) (pr_payloads pr))
      (seqA (write_marker env (max_entries ?l) Limit_error i (manifest_of env t i pr))
        (ret (manifest_of env t i pr)))))
    (ready env (tx_profile t) i L ?N) ?err ?err" for pr
  proof (rule triple_pure)
    assume built: "built env t L ?ws pr"
    let ?m = "manifest_of env t i pr"
    let ?fits = "ce_manifest_size env ?m \<le> manifest_byte_limit (max_entries ?l)"
    have staged: "publishing L ?N ?m [] (m_entries ?m) (g\<lparr>sg_marker := Marker ?m\<rparr>) V"
      if "fresh_stage L (pr_payloads pr) g V" for g V
      using that builtD(2) [OF built]
      by (auto simp: publishing_def untouched_def fresh_stage_def manifest_of_def)
    have mark: "triple (in_stage i (fresh_stage L (pr_payloads pr))) (disk_write (set_marker i (Marker ?m)))
      (\<lambda>_. in_stage i (publishing L ?N ?m [] (m_entries ?m))) ?err ?err"
    proof (rule triple_stage_write)
      fix g and s :: disk
      assume "d_stages s = [(i, g)]" "fresh_stage L (pr_payloads pr) g (d_live s)"
      then show "in_stage i (publishing L ?N ?m [] (m_entries ?m)) (set_marker i (Marker ?m) s)"
        using staged by (intro in_stageI [OF set_marker_one]) simp_all
    qed (rule fresh_unmarked, assumption)+
    show "triple ?start
      (seqA (require (pr_entries pr \<noteq> []) Integrity_error)
        (seqA (for_each (\<lambda>(ref, b). disk_write (set_file i ref (Some b))) (pr_payloads pr))
        (seqA (write_marker env (max_entries ?l) Limit_error i ?m) (ret ?m))))
      (ready env (tx_profile t) i L ?N) ?err ?err"
    proof (rule triple_seq)
      show "triple ?start (require (pr_entries pr \<noteq> []) Integrity_error)
        (\<lambda>_ s. pr_entries pr \<noteq> [] \<and> ?start s) ?err ?err"
        by (rule triple_require) (auto intro: fresh_unmarked)
      show "triple (\<lambda>s. pr_entries pr \<noteq> [] \<and> ?start s)
        (seqA (for_each (\<lambda>(ref, b). disk_write (set_file i ref (Some b))) (pr_payloads pr))
          (seqA (write_marker env (max_entries ?l) Limit_error i ?m) (ret ?m)))
        (ready env (tx_profile t) i L ?N) ?err ?err"
      proof (rule triple_pure)
        assume ne: "pr_entries pr \<noteq> []"
        have sealed: "triple (\<lambda>s. ?fits \<and> in_stage i (fresh_stage L (pr_payloads pr)) s)
          (seqA (disk_write (set_marker i (Marker ?m))) (ret ?m)) (ready env (tx_profile t) i L ?N) ?err ?err"
        proof (rule triple_pure)
          assume ?fits
          then have "plan env (tx_profile t) i L ?N ?m" by (rule built_plan [OF ok built ne i])
          then show "triple (in_stage i (fresh_stage L (pr_payloads pr)))
            (seqA (disk_write (set_marker i (Marker ?m))) (ret ?m)) (ready env (tx_profile t) i L ?N) ?err ?err"
            by (intro triple_seq [OF mark] triple_ret) (simp add: ready_def manifest_of_def)
        qed
        have check: "triple (in_stage i (fresh_stage L (pr_payloads pr))) (require ?fits Limit_error)
          (\<lambda>_ s. ?fits \<and> in_stage i (fresh_stage L (pr_payloads pr)) s) ?err ?err"
          by (rule triple_require) (auto intro: fresh_unmarked)
        have "seqA (write_marker env (max_entries ?l) Limit_error i ?m) (ret ?m) =
          seqA (require ?fits Limit_error) (seqA (disk_write (set_marker i (Marker ?m))) (ret ?m))"
          by (auto simp: write_marker_def seqA_def bindA_def fun_eq_iff require_def)
        then show "triple ?start
          (seqA (for_each (\<lambda>(ref, b). disk_write (set_file i ref (Some b))) (pr_payloads pr))
            (seqA (write_marker env (max_entries ?l) Limit_error i ?m) (ret ?m)))
          (ready env (tx_profile t) i L ?N) ?err ?err"
          using triple_seq [OF write_payloads [OF builtD(4) [OF built]] triple_seq [OF check sealed]] by simp
      qed
    qed
  qed
  show ?thesis
    using triple_bind [OF read rest] by (simp add: prepare_stage_def manifest_of_def Let_def)
qed

definition idle :: "files \<Rightarrow> disk \<Rightarrow> bool" where
  "idle L = upon (\<lambda>V S. S = [] \<and> V = L)"

lemma idle_undecided: "idle L s \<Longrightarrow> undecided env p i L N s"
  by (simp add: idle_def upon_def undecided_def)

definition stage_name :: "transaction \<Rightarrow> string \<Rightarrow> string" where
  "stage_name t hex = pf_key (tx_profile t) @ ''-'' @ hex"

lemma stage_name_ok: "length hex = 32 \<Longrightarrow> list_all hexchar hex \<Longrightarrow> transaction_ok (tx_profile t) (stage_name t hex)"
  using prefixed_hex_append [of "pf_key (tx_profile t) @ ''-''" 32 hex]
  by (simp add: transaction_ok_def stage_name_def)

lemma prepare_readies:
  fixes t :: transaction and hex :: string
  defines "i \<equiv> stage_name t hex"
  assumes ok: "tx_ok env t" and prof: "profile_ok (tx_profile t)" and i: "transaction_ok (tx_profile t) i"
  shows "triple (idle L) (prepare env t hex)
    (\<lambda>(j, m) s. j = i \<and> ready env (tx_profile t) i L (new_live t L) m s)
    (undecided env (tx_profile t) i L (new_live t L)) (undecided env (tx_profile t) i L (new_live t L))"
proof -
  let ?p = "tx_profile t" and ?N = "new_live t L"
  let ?un = "undecided env ?p i L ?N"
  have made: "triple (idle L) (disk_write (set_stage i empty_stage)) (\<lambda>_. in_stage i (fresh_stage L [])) ?un ?un"
    unfolding idle_def
  proof (rule triple_write)
    fix s :: disk
    assume "upon (\<lambda>V S. S = [] \<and> V = L) s"
    then show "in_stage i (fresh_stage L []) (set_stage i empty_stage s)"
      by (intro in_stageI [of _ _ empty_stage]) (auto simp: upon_def set_stage_def fresh_stage_def empty_stage_def)
  qed (simp_all add: upon_def undecided_def)
  have clean: "triple (in_stage i (unmarked L)) (seqA (remove_stage_quietly env i) (raise e)) Q ?un ?un"
    if "e \<noteq> Crash" for e and Q :: "manifest \<Rightarrow> disk \<Rightarrow> bool"
    by (intro triple_seq [OF triple_conseq [OF remove_stage_quietly_keeps [OF shrinks_unmarked]] triple_raise])
       (use that in \<open>auto intro: unmarked_undecided cleared_undecided\<close>)
  have staged: "triple (in_stage i (fresh_stage L []))
      (on_error (prepare_stage env t i) (\<lambda>e. seqA (remove_stage_quietly env i) (raise e)))
      (ready env ?p i L ?N) ?un ?un"
    by (rule triple_on_error [where E = "in_stage i (unmarked L)"],
        rule triple_conseq [OF prepare_stage_readies [OF ok prof i]])
       (auto intro: unmarked_undecided clean)
  have paired: "triple (ready env ?p i L ?N m) (ret (i, m)) (\<lambda>(j, m) s. j = i \<and> ready env ?p i L ?N m s) ?un ?un" for m
    by (rule triple_ret) simp
  have prep: "prepare env t hex = seqA (require (tx_writes t \<noteq> []) Integrity_error)
      (seqA (disk_write (set_stage i empty_stage))
        (bindA (on_error (prepare_stage env t i) (\<lambda>e. seqA (remove_stage_quietly env i) (raise e)))
           (\<lambda>m. ret (i, m))))"
    by (simp add: prepare_def i_def stage_name_def Let_def)
  have nonempty: "triple (idle L) (require (tx_writes t \<noteq> []) Integrity_error) (\<lambda>_. idle L) ?un ?un"
    by (rule triple_require) (auto intro: idle_undecided)
  show ?thesis unfolding prep
    by (rule triple_seq [OF nonempty triple_seq [OF made triple_bind [OF staged paired]]])
qed

section \<open>The commit as a whole\<close>

lemma guarded_restored:
  assumes "plan env p i L N m" and "m_status m = Prepared"
    and "in_stage i (\<lambda>g V. guarded L N m g V \<and> V = L) s"
  shows "in_stage i (restored_stage env p i L N) s"
  by (rule in_stage_mono [OF assms(3)])
     (use assms(1,2) in \<open>auto simp: restored_stage_def undecided_stage_def guarded_def\<close>)

lemma undo_restores:
  assumes plan: "plan env p i L N m" and st: "m_status m = Prepared" and apart: "no_collision env L N"
  shows "triple (in_stage i (guarded L N m)) (seqA (rollback env p err i m) (remove_stage env i))
    (\<lambda>_ s. d_stages s = [] \<and> d_live s = L) (undecided env p i L N) (undecided env p i L N)"
proof (rule triple_seq)
  show "triple (in_stage i (guarded L N m)) (rollback env p err i m)
    (\<lambda>_. in_stage i (restored_stage env p i L N)) (undecided env p i L N) (undecided env p i L N)"
    by (rule triple_conseq [OF rollback_all [OF plan apart]])
       (auto intro: guarded_restored [OF plan st] guarded_undecided [OF plan st])
  show "triple (in_stage i (restored_stage env p i L N)) (remove_stage env i)
    (\<lambda>_ s. d_stages s = [] \<and> d_live s = L) (undecided env p i L N) (undecided env p i L N)"
    by (rule triple_conseq [OF remove_stage_clears [OF shrinks_restored]])
       (auto intro: restored_undecided dest: cleared_restored)
qed

lemma commit_triple:
  fixes t :: transaction and hex :: string and L :: files
  defines "i \<equiv> stage_name t hex" and "N \<equiv> new_live t L" and "p \<equiv> tx_profile t"
  assumes ok: "tx_ok env t" and prof: "profile_ok p" and i: "transaction_ok p i"
    and apart: "no_collision env L N"
  shows "triple (idle L) (commit env t hex) (\<lambda>_. decided env p i L N) (undecided env p i L N)
    (\<lambda>s. undecided env p i L N s \<or> decided env p i L N s)"
proof -
  let ?un = "undecided env p i L N" and ?de = "in_stage i (decided_stage env p i L N)"
  let ?C = "\<lambda>s. undecided env p i L N s \<or> decided env p i L N s"
  let ?undo = "\<lambda>m e. seqA (on_error (seqA (rollback env p Commit_error i m) (remove_stage env i))
      (\<lambda>_. raise Commit_error)) (raise (public_error e))"
  let ?go = "\<lambda>m. seqA (for_each (publish_entry env p i) (m_entries m)) (seal_commit env p i m)"
  have prep: "triple (idle L) (on_error (prepare env t hex) (\<lambda>e. raise (public_error e)))
      (\<lambda>(j, m) s. j = i \<and> ready env p i L N m s) ?un ?C"
  proof (rule triple_on_error [where E = ?un])
    show "triple (idle L) (prepare env t hex) (\<lambda>(j, m) s. j = i \<and> ready env p i L N m s) ?un ?C"
      unfolding i_def p_def N_def
      by (rule triple_conseq [OF prepare_readies]) (use ok prof i in \<open>auto simp: i_def p_def\<close>)
    show "triple ?un (raise (public_error e)) (\<lambda>(j, m) s. j = i \<and> ready env p i L N m s) ?un ?C" for e
      by (rule triple_raise) (auto simp: public_error_def)
  qed
  have cleaned: "triple ?de (remove_stage_quietly env i) (\<lambda>_. decided env p i L N) ?un ?C"
    by (rule triple_conseq [OF remove_stage_quietly_keeps [OF shrinks_decided]])
       (auto simp: decided_def dest: cleared_decided)
  have body: "triple (ready env p i L N m)
      (seqA (on_error (?go m) (?undo m)) (remove_stage_quietly env i)) (\<lambda>_. decided env p i L N) ?un ?C" for m
    unfolding ready_def
  proof (rule triple_pure)
    assume "plan env p i L N m \<and> m_status m = Prepared"
    then have plan: "plan env p i L N m" and st: "m_status m = Prepared" by auto
    let ?g = "in_stage i (guarded L N m)"
    have go: "triple (in_stage i (publishing L N m [] (m_entries m))) (?go m) (\<lambda>_. ?de) ?g ?C"
      by (rule triple_seq [OF triple_conseq [OF publish_all [OF plan]] triple_conseq [OF seal_decides [OF plan st]]])
         (auto intro: guarded_undecided [OF plan st])
    have undo: "triple ?g (?undo m e) (\<lambda>_. ?de) ?un ?C" for e
      by (rule triple_seq [where R = "\<lambda>_ s. d_stages s = [] \<and> d_live s = L"],
          rule triple_on_error [where E = ?un], rule triple_conseq [OF undo_restores [OF plan st apart]])
         (auto intro!: triple_raise simp: undecided_def public_error_def)
    show "triple (in_stage i (publishing L N m [] (m_entries m)))
      (seqA (on_error (?go m) (?undo m)) (remove_stage_quietly env i)) (\<lambda>_. decided env p i L N) ?un ?C"
      by (rule triple_seq [OF triple_on_error [OF go undo] cleaned])
  qed
  have "triple (\<lambda>s. j = i \<and> ready env p i L N m s)
      (seqA (on_error (seqA (for_each (publish_entry env p j) (m_entries m)) (seal_commit env p j m))
         (\<lambda>e. seqA (on_error (seqA (rollback env p Commit_error j m) (remove_stage env j))
             (\<lambda>_. raise Commit_error)) (raise (public_error e))))
        (remove_stage_quietly env j)) (\<lambda>_. decided env p i L N) ?un ?C" for j m
    by (rule triple_pure) (use body in simp)
  then show ?thesis
    unfolding commit_def Let_def p_def [symmetric]
    by (intro triple_bind [OF prep]) (auto split: prod.splits)
qed

end
