(* ===== verification/Atomic_Opening.thy ===== *)
theory Atomic_Opening
  imports Atomic_Rollback
begin

text \<open>
  Opening an Instance after an interrupted commit: the recovery takes an undecided disk back to
  the old files and cleans a decided one up, or stops and leaves it as undecided or as decided
  as it was. The commit is atomic with all the recoveries that follow it.
\<close>

section \<open>What a valid journal guarantees\<close>

lemma validate_entries_all:
  "validate_entries env p k st s g acc es \<Longrightarrow> e \<in> set es \<Longrightarrow> \<exists>a. validate_entry env p k st s g a e \<noteq> None"
  by (induction es arbitrary: acc) (auto split: option.splits)

lemma validate_entry_preimage:
  assumes "validate_entry env p k st s g acc e \<noteq> None" and "e_had e" and "e_pre_ref e = Some ref"
  shows "sg_files g ref \<noteq> None"
proof -
  from assms(1) have "preimage_size env (max_entry_bytes (pf_limits p)) g acc e \<noteq> None"
    by (auto simp: validate_entry_def Let_def split: if_splits option.splits)
  with assms(2,3) show ?thesis
    by (auto simp: preimage_size_def file_digest_def split: option.splits if_splits)
qed

lemma valid_kept:
  assumes plan: "plan env p i L N m" and tr: "\<forall>e \<in> set (m_entries m). traces L N e (sg_files g)"
    and valid: "validate_manifest env p i s g m" and e: "e \<in> set (m_entries m)"
  shows "kept L e (sg_files g)"
  unfolding kept_def
proof (intro allI impI)
  fix ref
  assume ref: "e_pre_ref e = Some ref"
  from planD(1) [OF plan e] ref have had: "e_had e" by (cases rule: entry_had) auto
  obtain a where "validate_entry env p (m_schema m) (m_status m) s g a e \<noteq> None"
    using valid e validate_entries_all unfolding validate_manifest_def by blast
  from validate_entry_preimage [OF this had ref] tr e ref
  show "sg_files g ref = L (e_relative e)" by (auto simp: traces_def)
qed

section \<open>Recovery of one stage\<close>

lemma observes_for_each: "(\<And>x. x \<in> set xs \<Longrightarrow> observes (f x)) \<Longrightarrow> observes (for_each f xs)"
  by (induction xs) (simp_all add: observes_basic observes_seq del: act_eval)

lemma check_committed_observes: "observes (check_committed env p e)"
proof -
  have "observes (live_digest env n Recovery_error r)" for n r
    by (auto simp: observes_def live_digest_def split: option.splits)
  moreover have "observes (reads f)" for f :: "disk \<Rightarrow> bytes option" by (simp add: observes_def)
  ultimately show ?thesis unfolding check_committed_def
    by (cases "removes e") (auto intro!: observes_bind observes_basic)
qed

lemma undecided_traces:
  "undecided_stage env p i L N g V \<Longrightarrow> sg_marker g = Marker m \<Longrightarrow>
   plan env p i L N m \<and> m_status m = Prepared \<and> (\<forall>e \<in> set (m_entries m). traces L N e (sg_files g))"
  by (auto simp: undecided_stage_def pending_def)

definition plain_handler :: "recovery_handler \<Rightarrow> profile \<Rightarrow> bool" where
  "plain_handler h p \<longleftrightarrow> rh_profile h = p \<and> rh_interrupted h = None"

definition gone :: "files \<Rightarrow> 'a \<Rightarrow> disk \<Rightarrow> bool" where
  "gone L x s \<longleftrightarrow> d_stages s = [] \<and> d_live s = L"

lemma load_manifest_eq:
  "load_manifest env p i s = (case sg_marker (the_stage s i) of
      No_marker \<Rightarrow> (Inr None, s) | Bad_marker \<Rightarrow> (Inl Recovery_error, s)
    | Marker m \<Rightarrow> if ce_manifest_size env m > manifest_byte_limit (max_entries (pf_limits p))
                  then (Inl Recovery_error, s) else (Inr (Some m), s))"
  by (simp add: load_manifest_def split: marker.split)

lemma recover_prepared_restores:
  assumes h: "plain_handler h p" and plan: "plan env p i L N m" and prep: "m_status m = Prepared"
    and apart: "no_collision env L N"
  shows "triple (in_stage i (guarded L N m)) (recover_prepared env h i m rep) (gone L)
    (undecided env p i L N) (undecided env p i L N)"
proof -
  have split: "recover_prepared env h i m rep = seqA (seqA (rollback env p Recovery_error i m) (remove_stage env i))
      (ret (rep\<lparr>rr_rolled_back := rr_rolled_back rep + 1\<rparr>))"
    using h by (auto simp: plain_handler_def recover_prepared_def seqA_def bindA_def fun_eq_iff
        split: prod.splits sum.splits)
  show ?thesis unfolding split
    by (intro triple_seq [OF undo_restores [OF plan prep apart] triple_ret]) (simp add: gone_def)
qed

lemma recover_undecided:
  assumes h: "plain_handler h p" and apart: "no_collision env L N"
  shows "triple (in_stage i (undecided_stage env p i L N)) (recover_stage env h i rep) (gone L)
    (undecided env p i L N) (undecided env p i L N)"
proof (rule triple_pre)
  let ?un = "undecided env p i L N"
  fix s
  assume s: "in_stage i (undecided_stage env p i L N) s"
  let ?g = "the_stage s i"
  from in_stageD [OF s] have st: "d_stages s = [(i, ?g)]" and un: "undecided_stage env p i L N ?g (d_live s)"
    by auto
  have here: "?un s" using s by (simp add: undecided_def)
  show "triple (\<lambda>t. t = s) (recover_stage env h i rep) (gone L) ?un ?un"
    unfolding recover_stage_def
  proof (rule triple_on_error [where E = ?un])
    show "triple ?un (raise Recovery_error) (gone L) ?un ?un" for e :: ac_error
      by (rule triple_raise) simp_all
    let ?act = "bindA (load_manifest env (rh_profile h) i) (\<lambda>found. case found of
            None \<Rightarrow> seqA (remove_stage env i) (ret rep)
          | Some m \<Rightarrow> bindA (reads (\<lambda>s. validate_manifest env (rh_profile h) i s (the_stage s i) m)) (\<lambda>valid.
              seqA (require valid Recovery_error)
                (if m_status m = Prepared then recover_prepared env h i m rep
                 else recover_committed env h i m rep)))"
    show "triple (\<lambda>t. t = s) ?act (gone L) ?un ?un"
    proof (cases "sg_marker ?g")
      case No_marker
      then have "in_stage i (unmarked L) s"
        using un st by (intro in_stageI) (auto simp: unmarked_def undecided_stage_def)
      moreover have "?act s = seqA (remove_stage env i) (ret rep) s"
        using No_marker by (simp add: bindA_def load_manifest_eq)
      moreover have "triple (in_stage i (unmarked L)) (seqA (remove_stage env i) (ret rep)) (gone L) ?un ?un"
        by (intro triple_seq [OF triple_conseq [OF remove_stage_clears [OF shrinks_unmarked]] triple_ret])
           (auto simp: cleared_def upon_def unmarked_def gone_def intro: unmarked_undecided)
      ultimately show ?thesis by (intro triple_at)
    next
      case Bad_marker
      with un show ?thesis by (simp add: undecided_stage_def)
    next
      case (Marker m)
      from undecided_traces [OF un Marker] have plan: "plan env p i L N m" and prep: "m_status m = Prepared"
        and tr: "\<forall>e \<in> set (m_entries m). traces L N e (sg_files ?g)" by auto
      have p: "rh_profile h = p" "rh_interrupted h = None" using h by (auto simp: plain_handler_def)
      have load: "load_manifest env p i s = (Inr (Some m), s)"
        using Marker planD(5) [OF plan] by (simp add: load_manifest_eq)
      show ?thesis
      proof (cases "validate_manifest env p i s ?g m")
        case False
        then have "?act s = (Inl Recovery_error, s)"
          using load p by simp
        with here show ?thesis by (simp add: triple_def)
      next
        case True
        have "in_stage i (guarded L N m) s"
          using un Marker valid_kept [OF plan tr True] st
          by (intro in_stageI) (auto simp: guarded_def undecided_stage_def)
        moreover have "?act s = recover_prepared env h i m rep s"
          using load True prep p by simp
        ultimately show ?thesis
          by (intro triple_at [OF _ recover_prepared_restores [OF h plan prep apart]])
      qed
    qed
  qed
qed

text \<open>A decided disk stays decided, and its journal is removed.\<close>

lemma recover_committed_cleans:
  assumes "plain_handler h p"
  shows "triple (in_stage i (decided_stage env p i L N)) (recover_committed env h i m rep) (gone N)
    (in_stage i (decided_stage env p i L N)) (in_stage i (decided_stage env p i L N))"
proof -
  let ?de = "in_stage i (decided_stage env p i L N)"
  have check: "triple ?de (for_each (check_committed env (rh_profile h)) (m_entries m)) (\<lambda>_. ?de) ?de ?de"
    by (rule triple_observes [OF observes_for_each [OF check_committed_observes]])
  have clear: "triple ?de (remove_stage env i) (\<lambda>_ s. d_stages s = [] \<and> d_live s = N) ?de ?de"
    by (rule triple_conseq [OF remove_stage_clears [OF shrinks_decided]]) (auto dest: cleared_decided)
  show ?thesis unfolding recover_committed_def
    by (intro triple_seq [OF check triple_seq [OF clear triple_ret]]) (simp add: gone_def)
qed

lemma recover_decided:
  assumes h: "plain_handler h p"
  shows "triple (in_stage i (decided_stage env p i L N)) (recover_stage env h i rep) (gone N)
    (in_stage i (decided_stage env p i L N)) (in_stage i (decided_stage env p i L N))"
proof (rule triple_pre)
  let ?de = "in_stage i (decided_stage env p i L N)"
  fix s
  assume s: "?de s"
  let ?g = "the_stage s i"
  from in_stageD [OF s] have st: "d_stages s = [(i, ?g)]" and de: "decided_stage env p i L N ?g (d_live s)"
    by auto
  let ?act = "bindA (load_manifest env (rh_profile h) i) (\<lambda>found. case found of
            None \<Rightarrow> seqA (remove_stage env i) (ret rep)
          | Some m \<Rightarrow> bindA (reads (\<lambda>s. validate_manifest env (rh_profile h) i s (the_stage s i) m)) (\<lambda>valid.
              seqA (require valid Recovery_error)
                (if m_status m = Prepared then recover_prepared env h i m rep
                 else recover_committed env h i m rep)))"
  have clear: "triple ?de (seqA (remove_stage env i) (ret rep)) (gone N) ?de ?de"
    by (intro triple_seq [OF remove_stage_clears [OF shrinks_decided] triple_ret])
       (auto dest: cleared_decided simp: gone_def)
  have "triple (\<lambda>t. t = s) ?act (gone N) ?de ?de"
  proof (cases "sg_marker ?g")
    case No_marker
    then have "?act s = seqA (remove_stage env i) (ret rep) s"
      by (simp add: bindA_def load_manifest_eq)
    then show ?thesis using s by (intro triple_at [OF _ clear])
  next
    case Bad_marker
    with de show ?thesis by (simp add: decided_stage_def)
  next
    case (Marker m)
    with de have plan: "plan env p i L N m" and com: "m_status m = Committed"
      by (auto simp: decided_stage_def)
    have p: "rh_profile h = p" using h by (simp add: plain_handler_def)
    have load: "load_manifest env p i s = (Inr (Some m), s)"
      using Marker planD(5) [OF plan] by (simp add: load_manifest_eq)
    show ?thesis
    proof (cases "validate_manifest env p i s ?g m")
      case False
      then have "?act s = (Inl Recovery_error, s)" using load p by simp
      with s show ?thesis by (simp add: triple_def)
    next
      case True
      then have "?act s = recover_committed env h i m rep s" using load com p by simp
      then show ?thesis using s by (intro triple_at [OF _ recover_committed_cleans [OF h]])
    qed
  qed
  then show "triple (\<lambda>t. t = s) (recover_stage env h i rep) (gone N) ?de ?de"
    unfolding recover_stage_def
    by (rule triple_on_error) (simp add: triple_raise del: act_eval)
qed

section \<open>Recovery of the journal\<close>

lemma transaction_prefix:
  "transaction_ok p i \<Longrightarrow> take (length (pf_key p) + 1) i = pf_key p @ ''-''"
  by (simp add: transaction_ok_def prefixed_hex_def)

lemma matching_one:
  "plain_handler h p \<Longrightarrow> transaction_ok p i \<Longrightarrow> d_stages s = [(i, g)] \<Longrightarrow> matching_stages [h] s = [(i, h)]"
  using transaction_prefix [of p i] by (simp add: matching_stages_def plain_handler_def)

lemma matching_none: "d_stages s = [] \<Longrightarrow> matching_stages [h] s = []"
  by (simp add: matching_stages_def)

lemma recover_journal:
  assumes h: "plain_handler h p" and i: "transaction_ok p i"
    and one: "\<And>rep. triple (in_stage i J) (recover_stage env h i rep) (gone L) B B"
    and B: "\<And>s. d_stages s = [] \<Longrightarrow> d_live s = L \<Longrightarrow> B s"
  shows "triple (\<lambda>s. (d_stages s = [] \<and> d_live s = L) \<or> in_stage i J s) (recover_transactions env [h])
    (gone L) B B"
proof (rule triple_pre)
  fix s
  assume s: "(d_stages s = [] \<and> d_live s = L) \<or> in_stage i J s"
  show "triple (\<lambda>t. t = s) (recover_transactions env [h]) (gone L) B B"
  proof (cases "d_stages s = []")
    case True
    then have "d_live s = L" using s by (auto dest: in_stageD)
    with True show ?thesis
      by (simp add: triple_def recover_transactions_def matching_none gone_def)
  next
    case False
    with s have st: "in_stage i J s" by blast
    then have "d_stages s = [(i, the_stage s i)]" using in_stageD by blast
    then have "matching_stages [h] s = [(i, h)]" by (rule matching_one [OF h i])
    then have "recover_transactions env [h] s = bindA (recover_stage env h i \<lparr>rr_rolled_back = 0, rr_cleaned = 0\<rparr>)
        (\<lambda>rep. ret (if rr_rolled_back rep = 0 \<and> rr_cleaned rep = 0 then None else Some rep)) s"
      by (simp add: recover_transactions_def bindA_def split: prod.splits sum.splits)
    then show ?thesis
      by (rule triple_at [OF _ triple_bind [OF one triple_ret] st]) (simp add: gone_def)
  qed
qed

text \<open>Any number of recoveries, and then writes with fates of their own.\<close>

definition reopened :: "commit_env \<Rightarrow> recovery_handler \<Rightarrow> disk \<Rightarrow> disk \<Rightarrow> bool" where
  "reopened env h s d \<longleftrightarrow>
     (\<exists>t fs. recovered (\<lambda>_ :: unit. recover_transactions env [h]) (\<lambda>fs s. s\<lparr>d_fates := fs\<rparr>) s t
       \<and> d = t\<lparr>d_fates := fs\<rparr>)"

lemma reopened_at_once: "reopened env h s (s\<lparr>d_fates := fs\<rparr>)"
  unfolding reopened_def by (blast intro: recovered.none_yet)

lemma fates_free [simp]:
  "undecided env p i L N (s\<lparr>d_fates := fs\<rparr>) = undecided env p i L N s"
  "decided env p i L N (s\<lparr>d_fates := fs\<rparr>) = decided env p i L N s"
  by (simp_all add: undecided_def decided_def in_stage_def upon_def)

lemma recover_undecided_journal:
  assumes "plain_handler h p" and "transaction_ok p i" and "no_collision env L N"
  shows "triple (undecided env p i L N) (recover_transactions env [h]) (gone L)
    (undecided env p i L N) (undecided env p i L N)"
  using recover_journal [OF assms(1,2) recover_undecided [OF assms(1,3)]]
  by (simp add: undecided_def [abs_def])

lemma recover_decided_journal:
  assumes "plain_handler h p" and "transaction_ok p i"
  shows "triple (decided env p i L N) (recover_transactions env [h]) (gone N)
    (decided env p i L N) (decided env p i L N)"
proof -
  have "triple (in_stage i (decided_stage env p i L N)) (recover_stage env h i rep) (gone N)
    (decided env p i L N) (decided env p i L N)" for rep
    by (rule triple_conseq [OF recover_decided [OF assms(1)]]) (auto simp: decided_def)
  from recover_journal [OF assms this] show ?thesis by (simp add: decided_def [abs_def])
qed

definition commit_plain :: "recovery_handler \<Rightarrow> profile \<Rightarrow> string \<Rightarrow> commit_env \<Rightarrow> files \<Rightarrow> files \<Rightarrow> bool" where
  "commit_plain h p i env L N \<longleftrightarrow> plain_handler h p \<and> transaction_ok p i \<and> no_collision env L N"

lemma gone_again: "gone L x s \<Longrightarrow> undecided env p i L N s" "gone N x s \<Longrightarrow> decided env p i L N s"
  by (simp_all add: gone_def undecided_def decided_def)

lemma recover_decided_plain:
  "triple (\<lambda>s. commit_plain h p i env L N \<and> decided env p i L N s) (recover_transactions env [h])
     (\<lambda>x s. commit_plain h p i env L N \<and> gone N () s)
     (\<lambda>s. commit_plain h p i env L N \<and> decided env p i L N s) (\<lambda>s. commit_plain h p i env L N \<and> decided env p i L N s)"
  by (rule hoare_when, rule triple_conseq [OF recover_decided_journal]) (auto simp: commit_plain_def gone_def)

lemma recover_undecided_plain:
  "triple (\<lambda>s. commit_plain h p i env L N \<and> undecided env p i L N s) (recover_transactions env [h])
     (\<lambda>x s. commit_plain h p i env L N \<and> gone L () s)
     (\<lambda>s. commit_plain h p i env L N \<and> undecided env p i L N s) (\<lambda>s. commit_plain h p i env L N \<and> undecided env p i L N s)"
  by (rule hoare_when, rule triple_conseq [OF recover_undecided_journal]) (auto simp: commit_plain_def gone_def)

interpretation commit_change: journaled_change "\<lambda>_ :: unit. recover_transactions env [h]"
  "\<lambda>fs s. s\<lparr>d_fates := fs\<rparr>" Crash
  "\<lambda>s. commit_plain h p i env L N \<and> undecided env p i L N s" "\<lambda>s. commit_plain h p i env L N \<and> decided env p i L N s"
  "\<lambda>s. commit_plain h p i env L N \<and> gone L () s" "\<lambda>s. commit_plain h p i env L N \<and> gone N () s"
  for env h p i L N
  by unfold_locales (auto intro: recover_undecided_plain recover_decided_plain gone_again)

lemma reopened_keeps:
  assumes "reopened env h s d" and "plain_handler h p" and "transaction_ok p i" and "no_collision env L N"
  shows "undecided env p i L N s \<Longrightarrow> undecided env p i L N d"
    and "decided env p i L N s \<Longrightarrow> decided env p i L N d"
proof -
  obtain t fs where t: "recovered (\<lambda>_ :: unit. recover_transactions env [h]) (\<lambda>fs s. s\<lparr>d_fates := fs\<rparr>) s t"
    and d: "d = t\<lparr>d_fates := fs\<rparr>" using assms(1) by (auto simp: reopened_def)
  have "commit_plain h p i env L N" using assms(2-4) by (simp add: commit_plain_def)
  with commit_change.recovered_undecided [OF t] commit_change.recovered_decided [OF t]
  show "undecided env p i L N s \<Longrightarrow> undecided env p i L N d" "decided env p i L N s \<Longrightarrow> decided env p i L N d"
    by (auto simp: d)
qed

section \<open>The commit is atomic\<close>

lemma commit_then_opening:
  assumes "tx_ok env t" and "profile_ok (tx_profile t)" and "length hex = 32" and "list_all hexchar hex"
    and "d_stages s = []" and "no_collision env (d_live s) (new_live t (d_live s))"
    and "plain_handler h (tx_profile t)"
    and "commit env t hex s = (r, s')" and "reopened env h s' d"
    and "recover_transactions env [h] d = (Inr rep, d')"
  shows "d_stages d' = [] \<and> d_live d' \<in> {d_live s, new_live t (d_live s)}
    \<and> (r = Inr () \<longrightarrow> d_live s' = new_live t (d_live s) \<and> d_live d' = new_live t (d_live s))
    \<and> (\<forall>e. r = Inl e \<longrightarrow> e \<noteq> Crash \<longrightarrow> d_live d' = d_live s)"
proof -
  let ?L = "d_live s" and ?N = "new_live t (d_live s)" and ?p = "tx_profile t" and ?i = "stage_name t hex"
  let ?un = "undecided env ?p ?i ?L ?N" and ?de = "decided env ?p ?i ?L ?N"
  have i: "transaction_ok ?p ?i" using assms(3,4) by (rule stage_name_ok)
  have start: "idle ?L s" using assms(5) by (simp add: idle_def upon_def)
  note finished = tripleD [OF commit_triple [OF assms(1,2) i assms(6)] start]
  have un: "gone ?L rep d'" if "?un s'"
    by (rule tripleD(1) [OF recover_undecided_journal [OF assms(7) i assms(6)] _ assms(10)])
       (rule reopened_keeps(1) [OF assms(9,7) i assms(6) that])
  have de: "gone ?N rep d'" if "?de s'"
    by (rule tripleD(1) [OF recover_decided_journal [OF assms(7) i] _ assms(10)])
       (rule reopened_keeps(2) [OF assms(9,7) i assms(6) that])
  show ?thesis
  proof (cases r)
    case (Inr x)
    then have "?de s'" using finished(1) assms(8) by simp
    moreover from this have "d_live s' = ?N" by (auto simp: decided_def decided_stage_def dest: in_stageD)
    ultimately show ?thesis using de Inr by (auto simp: gone_def)
  next
    case (Inl e)
    then show ?thesis using finished(2,3) assms(8) un de by (cases "e = Crash") (auto simp: gone_def)
  qed
qed


end
