(* ===== verification/Atomic_Liveness.thy ===== *)
theory Atomic_Liveness
  imports Atomic_Opening
begin

text \<open>
  When does an interrupted Instance open? A journal of which no file is lost passes the
  validation, and its recovery succeeds; a journal that has lost a preimage never does.
\<close>

section \<open>A whole journal is valid\<close>

text \<open>The state of an entry that the validation accepts.\<close>

definition sound :: "files \<Rightarrow> files \<Rightarrow> tx_status \<Rightarrow> entry \<Rightarrow> files \<Rightarrow> files \<Rightarrow> bool" where
  "sound L N st e F V \<longleftrightarrow> kept L e F \<and>
     (if st = Prepared then pending L N e F V
      else traces L N e F \<and> V (e_relative e) = N (e_relative e)
         \<and> (N (e_relative e) = None \<longrightarrow> F (e_cand_ref e) = L (e_relative e)))"

definition cand_len :: "files \<Rightarrow> files \<Rightarrow> entry \<Rightarrow> nat" where
  "cand_len L N e = length (cand_of L N e)"

lemma preimage_size_ok:
  assumes e: "entry_for env p k L N e" and kept: "kept L e (sg_files g)" and sha: "\<forall>x. sha256_text (ce_sha env x)"
    and new: "\<And>ref. e_pre_ref e = Some ref \<Longrightarrow> ref \<notin> set (js_preimages acc)"
  shows "preimage_size env (max_entry_bytes (pf_limits p)) g acc e = Some (pre_len L e)"
  using e
proof (cases rule: entry_had)
  case none
  then show ?thesis by (simp add: preimage_size_def pre_len_def)
next
  case (some b ref)
  have "journal_file_in ''preimages'' ref" using e some(3) by (simp add: entry_for_def Let_def)
  moreover have "sg_files g ref = Some b" using kept some by (simp add: kept_def)
  ultimately show ?thesis using some new sha by (simp add: preimage_size_def pre_len_def file_digest_def)
qed

lemma removal_sound:
  assumes e: "entry_for env p k L N e" and rm: "N (e_relative e) = None" and so: "sound L N st e F V"
  shows "removal_state_ok env (max_entry_bytes (pf_limits p)) st (F (e_cand_ref e)) (V (e_relative e)) (pre_len L e) e"
  using e
proof (cases rule: entry_had)
  case (some b ref)
  then have cand: "F (e_cand_ref e) = None \<or> F (e_cand_ref e) = Some b" and len: "pre_len L e = length b"
    using so rm by (auto simp: sound_def pending_def traces_def cand_of_def pre_len_def split: if_splits)
  show ?thesis
  proof (cases "st = Prepared")
    case True
    then have "V (e_relative e) = None \<or> V (e_relative e) = Some b" and "F (e_cand_ref e) = None \<longrightarrow> V (e_relative e) = Some b"
      using so rm some by (auto simp: sound_def pending_def applied_def)
    with cand True some len show ?thesis by (auto simp: removal_state_ok_def file_digest_def)
  next
    case False
    with so rm some len show ?thesis by (auto simp: removal_state_ok_def file_digest_def sound_def)
  qed
qed (use rm in simp)

lemma written_sound:
  assumes e: "entry_for env p k L N e" and new: "N (e_relative e) = Some c" and so: "sound L N st e F V"
    and apart: "no_collision env L N"
  shows "\<exists>n. written_bytes env (max_entry_bytes (pf_limits p)) st (F (e_cand_ref e)) (V (e_relative e)) e = Some n
    \<and> n \<le> cand_len L N e"
proof -
  have fit: "length c \<le> max_entry_bytes (pf_limits p)" using entry_fits(2) [OF e new] .
  have sha: "e_cand_sha e = ce_sha env c" using e new by (simp add: entry_for_def Let_def cand_of_def)
  have len: "cand_len L N e = length c" using new by (simp add: cand_len_def cand_of_def)
  have cand: "F (e_cand_ref e) = None \<or> F (e_cand_ref e) = Some c"
    using so new by (auto simp: sound_def pending_def traces_def cand_of_def split: if_splits)
  have live: "V (e_relative e) = Some c \<or> (st = Prepared \<and> V (e_relative e) = L (e_relative e))"
    using so new by (auto simp: sound_def pending_def applied_def split: if_splits)
  from e show ?thesis
  proof (cases rule: entry_had)
    case none
    with cand live sha fit len show ?thesis by (auto simp: written_bytes_def file_digest_def)
  next
    case (some b ref)
    have "ce_sha env b \<noteq> ce_sha env c"
      using e apart some(1) new by (auto simp: no_collision_def entry_for_def Let_def)
    with some cand live sha fit len show ?thesis by (auto simp: written_bytes_def file_digest_def)
  qed
qed

text \<open>What the scan of a prefix of the entries has seen.\<close>

definition scanned :: "files \<Rightarrow> files \<Rightarrow> entry list \<Rightarrow> journal_scan \<Rightarrow> bool" where
  "scanned L N es acc \<longleftrightarrow>
     set (js_seen acc) = e_relative ` set es \<and> set (js_candidates acc) = e_cand_ref ` set es
   \<and> set (js_preimages acc) = set (pre_refs es)
   \<and> js_candidate_bytes acc \<le> sum_list (map (cand_len L N) es)
   \<and> js_preimage_bytes acc = sum_list (map (pre_len L) es)"

lemma plan_sums:
  assumes "plan env p i L N m" and "m_entries m = xs @ e # ys"
  shows "sum_list (map (pre_len L) xs) + pre_len L e \<le> max_preimage_bytes (pf_limits p)"
    and "sum_list (map (cand_len L N) xs) + cand_len L N e \<le> max_candidate_bytes (pf_limits p)"
    and "sum_list (map (cand_len L N) xs) + cand_len L N e + (sum_list (map (pre_len L) xs) + pre_len L e)
       \<le> max_journal_bytes (pf_limits p)"
proof -
  have c: "cand_len L N = length \<circ> cand_of L N" by (auto simp: cand_len_def)
  show "sum_list (map (pre_len L) xs) + pre_len L e \<le> max_preimage_bytes (pf_limits p)"
    "sum_list (map (cand_len L N) xs) + cand_len L N e \<le> max_candidate_bytes (pf_limits p)"
    "sum_list (map (cand_len L N) xs) + cand_len L N e + (sum_list (map (pre_len L) xs) + pre_len L e)
       \<le> max_journal_bytes (pf_limits p)"
    using assms by (simp_all add: plan_def c)
qed

lemma plan_pre_new:
  assumes "plan env p i L N m" and "m_entries m = xs @ e # ys" and "e_pre_ref e = Some ref"
  shows "ref \<notin> set (pre_refs xs)"
  using assms by (simp add: plan_def pre_refs_def)

lemma validate_entry_ok:
  assumes plan: "plan env p i L N m" and es: "m_entries m = xs @ e # ys"
    and so: "sound L N (m_status m) e (sg_files g) (d_live s)" and sha: "\<forall>x. sha256_text (ce_sha env x)"
    and apart: "no_collision env L N" and acc: "scanned L N xs acc"
  shows "\<exists>acc'. validate_entry env p (m_schema m) (m_status m) s g acc e = Some acc' \<and> scanned L N (xs @ [e]) acc'"
proof -
  let ?r = "e_relative e" and ?n = "max_entry_bytes (pf_limits p)"
  have e: "entry_for env p (m_schema m) L N e" using es by (intro planD(1) [OF plan]) simp
  have shape: "entry_shape_ok env (m_schema m) acc e"
  proof -
    have "?r \<notin> set (js_seen acc)" "e_cand_ref e \<notin> set (js_candidates acc)"
      using planD(2,3) [OF plan] acc by (auto simp: es scanned_def)
    moreover have "removes e \<longrightarrow> Some (e_cand_sha e) = e_pre_sha e \<and> e_had e"
    proof
      assume "removes e"
      with e have "N ?r = None" "e_cand_sha e = ce_sha env (cand_of L N e)" by (auto simp: entry_for_def Let_def)
      with e show "Some (e_cand_sha e) = e_pre_sha e \<and> e_had e"
        by (cases rule: entry_had) (auto simp: cand_of_def)
    qed
    ultimately show ?thesis using e sha by (auto simp: entry_shape_ok_def entry_for_def Let_def)
  qed
  have pre: "preimage_size env ?n g acc e = Some (pre_len L e)"
    using e so sha plan_pre_new [OF plan es] acc
    by (intro preimage_size_ok) (auto simp: sound_def scanned_def)
  obtain n where n: "n \<le> cand_len L N e" and cand: "(if removes e
       then (if removal_state_ok env ?n (m_status m) (sg_files g (e_cand_ref e)) (d_live s ?r) (pre_len L e) e
             then Some (pre_len L e) else None)
       else written_bytes env ?n (m_status m) (sg_files g (e_cand_ref e)) (d_live s ?r) e) = Some n"
  proof (cases "N ?r")
    case None
    then have "removes e" "pre_len L e \<le> cand_len L N e"
      using e by (auto simp: entry_for_def Let_def pre_len_def cand_len_def cand_of_def)
    with that removal_sound [OF e None so] show thesis by simp
  next
    case (Some c)
    then have "\<not> removes e" using e by (simp add: entry_for_def Let_def)
    with that written_sound [OF e Some so apart] show thesis by auto
  qed
  note bounds = plan_sums [OF plan es]
  have "\<not> (js_preimage_bytes acc + pre_len L e > max_preimage_bytes (pf_limits p))"
    "\<not> (js_candidate_bytes acc + n > max_candidate_bytes (pf_limits p))"
    "\<not> (js_candidate_bytes acc + n + (js_preimage_bytes acc + pre_len L e) > max_journal_bytes (pf_limits p))"
    using bounds acc n by (auto simp: scanned_def)
  then have "validate_entry env p (m_schema m) (m_status m) s g acc e =
      Some \<lparr>js_seen = ?r # js_seen acc, js_candidates = e_cand_ref e # js_candidates acc,
        js_preimages = (case e_pre_ref e of None \<Rightarrow> [] | Some r \<Rightarrow> [r]) @ js_preimages acc,
        js_candidate_bytes = js_candidate_bytes acc + n, js_preimage_bytes = js_preimage_bytes acc + pre_len L e\<rparr>"
    using shape pre cand by (simp add: validate_entry_def Let_def)
  moreover have "set ((case e_pre_ref e of None \<Rightarrow> [] | Some r \<Rightarrow> [r]) @ js_preimages acc) = set (pre_refs (xs @ [e]))"
    using acc by (auto simp: scanned_def pre_refs_snoc)
  ultimately show ?thesis using acc n by (auto simp: scanned_def)
qed

lemma validate_entries_ok:
  assumes "plan env p i L N m" and "\<forall>e \<in> set (m_entries m). sound L N (m_status m) e (sg_files g) (d_live s)"
    and "\<forall>x. sha256_text (ce_sha env x)" and "no_collision env L N"
    and "m_entries m = xs @ ys" and "scanned L N xs acc"
  shows "validate_entries env p (m_schema m) (m_status m) s g acc ys"
  using assms(5,6)
proof (induction ys arbitrary: xs acc)
  case Nil
  show ?case by simp
next
  case (Cons e ys)
  have "sound L N (m_status m) e (sg_files g) (d_live s)" using assms(2) Cons.prems(1) by simp
  from validate_entry_ok [OF assms(1) Cons.prems(1) this assms(3,4) Cons.prems(2)]
  obtain acc' where "validate_entry env p (m_schema m) (m_status m) s g acc e = Some acc'"
    and "scanned L N (xs @ [e]) acc'" by blast
  with Cons.IH [of "xs @ [e]" acc'] Cons.prems(1) show ?case by simp
qed

lemma whole_valid:
  assumes "plan env p i L N m" and "\<forall>e \<in> set (m_entries m). sound L N (m_status m) e (sg_files g) (d_live s)"
    and "\<forall>x. sha256_text (ce_sha env x)" and "no_collision env L N"
  shows "validate_manifest env p i s g m"
proof -
  have "scanned L N [] no_scan" by (simp add: scanned_def no_scan_def pre_refs_def)
  then have "validate_entries env p (m_schema m) (m_status m) s g no_scan (m_entries m)"
    using validate_entries_ok [OF assms, of "[]" "m_entries m" no_scan] by simp
  then show ?thesis using assms(1) by (auto simp: validate_manifest_def plan_def)
qed

section \<open>Recovery without faults\<close>

definition calm :: "disk \<Rightarrow> bool" where
  "calm s \<longleftrightarrow> d_fates s = []"

lemma fates_kept [simp]:
  "d_fates (set_file i ref b s) = d_fates s" "d_fates (set_marker i m s) = d_fates s"
  "d_fates (set_stage i g s) = d_fates s" "d_fates (drop_stage i s) = d_fates s"
  "d_fates (set_live p b s) = d_fates s"
  by (simp_all add: set_file_def set_marker_def set_stage_def drop_stage_def set_live_def Let_def)

lemma calm_write: "calm s \<Longrightarrow> disk_write f s = (Inr (), f s)"
  by (simp add: calm_def disk_write_def)

lemma calm_remove_item: "calm s \<Longrightarrow> \<exists>t. remove_item i x s = (Inr (), t) \<and> calm t"
  by (auto simp: remove_item_def calm_write calm_def split: stage_item.split)

lemma calm_for_each:
  assumes "\<And>x s. x \<in> set xs \<Longrightarrow> calm s \<Longrightarrow> \<exists>t. f x s = (Inr (), t) \<and> calm t"
  shows "calm s \<Longrightarrow> \<exists>t. for_each f xs s = (Inr (), t) \<and> calm t"
  using assms
proof (induction xs arbitrary: s)
  case Nil
  then show ?case by simp
next
  case (Cons x xs)
  from Cons.prems(2) [of x s] Cons.prems(1) obtain t where "f x s = (Inr (), t)" "calm t" by auto
  with Cons.IH [of t] Cons.prems(2) show ?case by simp
qed

lemma calm_remove_stage: "calm s \<Longrightarrow> \<exists>t. remove_stage env i s = (Inr (), t)"
proof -
  assume "calm s"
  then obtain t where "for_each (remove_item i) (ce_listing env (the_stage s i)) s = (Inr (), t)" "calm t"
    using calm_for_each [where f = "remove_item i", OF calm_remove_item] by blast
  then show ?thesis by (simp add: remove_stage_def calm_write)
qed

lemma calm_rollback:
  assumes plan: "plan env p i L N m" and apart: "no_collision env L N"
    and s: "in_stage i (guarded L N m) s" and "calm s"
  shows "\<exists>t. rollback env p err i m s = (Inr (), t) \<and> calm t"
proof -
  have "\<exists>t. for_each (rollback_entry env p err i) ys s = (Inr (), t) \<and> calm t"
    if "set ys \<subseteq> set (m_entries m)" "in_stage i (restoring L N m xs) s" "calm s" for xs ys s
    using that
  proof (induction ys arbitrary: xs s)
    case Nil
    then show ?case by simp
  next
    case (Cons e ys)
    let ?t = "if d_live s (e_relative e) = L (e_relative e) then s
      else set_live (e_relative e) (L (e_relative e)) s"
    from Cons.prems have e: "e \<in> set (m_entries m)" by simp
    from in_stageD [OF Cons.prems(2)] have st: "d_stages s = [(i, the_stage s i)]"
      and now: "restoring L N m xs (the_stage s i) (d_live s)" by auto
    have "rollback_entry env p err i e s = restore L e s"
      using now e by (intro rollback_entry_restores [OF planD(1) [OF plan e] st _ _ apart])
        (auto simp: restoring_def guarded_def)
    then have one: "rollback_entry env p err i e s = (Inr (), ?t)"
      using Cons.prems(3) by (simp add: restore_def calm_write)
    have "in_stage i (restoring L N m (xs @ [e])) ?t"
      using now st restoring_step [OF now e]
      by (auto intro!: in_stageI [OF st] in_stageI [of "set_live _ _ s"] simp: restoring_def)
    moreover have "calm ?t" using Cons.prems(3) by (simp add: calm_def)
    ultimately show ?case using Cons.IH [of "xs @ [e]" ?t] Cons.prems(1) one by simp
  qed
  moreover have "in_stage i (restoring L N m []) s"
    using s by (rule in_stage_mono) (simp add: restoring_def)
  ultimately show ?thesis using \<open>calm s\<close> by (simp add: rollback_def)
qed

lemma calm_recover_prepared:
  assumes h: "plain_handler h p" and plan: "plan env p i L N m" and apart: "no_collision env L N"
    and s: "in_stage i (guarded L N m) s" and "calm s"
  shows "\<exists>r t. recover_prepared env h i m rep s = (Inr r, t)"
proof -
  obtain t where t: "rollback env p Recovery_error i m s = (Inr (), t)" "calm t"
    using calm_rollback [OF plan apart s \<open>calm s\<close>] by blast
  with calm_remove_stage [OF t(2), of env i] h show ?thesis
    by (auto simp: recover_prepared_def plain_handler_def)
qed

lemma check_committed_passes:
  assumes e: "entry_for env p k L N e" and live: "d_live s = N"
  shows "check_committed env p e s = (Inr (), s)"
proof (cases "N (e_relative e)")
  case None
  with e live show ?thesis by (simp add: check_committed_def target_or_def entry_for_def Let_def)
next
  case (Some c)
  with e live live_digest_has [of s "e_relative e" c] entry_fits(2) [OF e Some] show ?thesis
    by (auto simp: check_committed_def target_or_def entry_for_def Let_def cand_of_def)
qed

lemma for_each_passes: "(\<And>x. x \<in> set xs \<Longrightarrow> f x s = (Inr (), s)) \<Longrightarrow> for_each f xs s = (Inr (), s)"
  by (induction xs) simp_all

text \<open>No journal file that the manifest relies on is missing.\<close>

definition stage_whole :: "stage \<Rightarrow> bool" where
  "stage_whole g = (case sg_marker g of
       Marker m \<Rightarrow> list_all (\<lambda>e. (case e_pre_ref e of None \<Rightarrow> True | Some ref \<Rightarrow> sg_files g ref \<noteq> None)
         \<and> (m_status m = Committed \<and> removes e \<longrightarrow> sg_files g (e_cand_ref e) \<noteq> None)) (m_entries m)
     | _ \<Rightarrow> True)"

definition journal_whole :: "disk \<Rightarrow> bool" where
  "journal_whole s = list_all (stage_whole \<circ> snd) (d_stages s)"

lemma whole_kept:
  assumes "stage_whole g" and "sg_marker g = Marker m" and "e \<in> set (m_entries m)" and "traces L N e (sg_files g)"
  shows "kept L e (sg_files g)"
  unfolding kept_def
proof (intro allI impI)
  fix ref
  assume ref: "e_pre_ref e = Some ref"
  with assms(1-3) have "sg_files g ref \<noteq> None" by (auto simp: stage_whole_def list_all_iff)
  with assms(4) ref show "sg_files g ref = L (e_relative e)" by (auto simp: traces_def)
qed

lemma calm_recover_stage:
  assumes h: "plain_handler h p" and sha: "\<forall>x. sha256_text (ce_sha env x)" and apart: "no_collision env L N"
    and st: "d_stages s = [(i, g)]" and whole: "stage_whole g" and "calm s"
    and state: "undecided_stage env p i L N g (d_live s) \<or> decided_stage env p i L N g (d_live s)"
  shows "\<exists>r t. recover_stage env h i rep s = (Inr r, t)"
proof -
  note here = the_stage_one [OF st]
  have p: "rh_profile h = p" using h by (simp add: plain_handler_def)
  show ?thesis
  proof (cases "sg_marker g")
    case No_marker
    with here calm_remove_stage [OF \<open>calm s\<close>, of env i] show ?thesis
      by (auto simp: recover_stage_def catch_def load_manifest_eq bindA_def)
  next
    case Bad_marker
    with state show ?thesis by (simp add: undecided_stage_def decided_stage_def)
  next
    case (Marker m)
    with state have plan: "plan env p i L N m" by (auto simp: undecided_stage_def decided_stage_def)
    have tr: "traces L N e (sg_files g)" if "e \<in> set (m_entries m)" for e
      using state Marker that by (auto simp: undecided_stage_def decided_stage_def pending_def)
    have kept: "kept L e (sg_files g)" if "e \<in> set (m_entries m)" for e
      using whole_kept [OF whole Marker that tr [OF that]] .
    have "sound L N (m_status m) e (sg_files g) (d_live s)" if e: "e \<in> set (m_entries m)" for e
    proof -
      have "sg_files g (e_cand_ref e) = L (e_relative e)" if "m_status m = Committed" "N (e_relative e) = None"
      proof -
        have "removes e" using planD(1) [OF plan e] that(2) by (simp add: entry_for_def Let_def)
        then have "sg_files g (e_cand_ref e) \<noteq> None"
          using whole Marker e that(1) by (auto simp: stage_whole_def list_all_iff)
        with tr [OF e] that(2) have "sg_files g (e_cand_ref e) = Some (the (L (e_relative e)))"
          by (auto simp: traces_def cand_of_def)
        with planD(1) [OF plan e] that(2) show ?thesis by (auto simp: entry_for_def Let_def)
      qed
      with state Marker e kept [OF e] tr [OF e] show ?thesis
        by (auto simp: sound_def undecided_stage_def decided_stage_def)
    qed
    then have valid: "validate_manifest env p i s g m"
      using whole_valid [OF plan _ sha apart] by blast
    have load: "load_manifest env p i s = (Inr (Some m), s)"
      using Marker here planD(5) [OF plan] by (simp add: load_manifest_eq)
    show ?thesis
    proof (cases "m_status m")
      case Prepared
      then have "in_stage i (guarded L N m) s"
        using state Marker kept by (intro in_stageI [OF st])
          (auto simp: guarded_def undecided_stage_def decided_stage_def)
      from calm_recover_prepared [OF h plan apart this \<open>calm s\<close>] obtain r t
        where "recover_prepared env h i m rep s = (Inr r, t)" by blast
      then show ?thesis using load valid Prepared here p by (simp add: recover_stage_def catch_def)
    next
      case Committed
      then have "d_live s = N" using state Marker by (auto simp: undecided_stage_def decided_stage_def)
      then have "for_each (check_committed env p) (m_entries m) s = (Inr (), s)"
        by (intro for_each_passes check_committed_passes [OF planD(1) [OF plan]])
      moreover obtain t where "remove_stage env i s = (Inr (), t)"
        using calm_remove_stage [OF \<open>calm s\<close>] by blast
      ultimately show ?thesis using load valid Committed here p
        by (simp add: recover_stage_def catch_def recover_committed_def)
    qed
  qed
qed

section \<open>Which interrupted Instances open\<close>

lemma calm_recover:
  assumes h: "plain_handler h p" and i: "transaction_ok p i" and sha: "\<forall>x. sha256_text (ce_sha env x)"
    and apart: "no_collision env L N" and "journal_whole s" and "calm s"
    and state: "undecided env p i L N s \<or> decided env p i L N s"
  shows "\<exists>r t. recover_transactions env [h] s = (Inr r, t)"
proof (cases "d_stages s = []")
  case True
  then show ?thesis by (simp add: recover_transactions_def matching_none)
next
  case False
  then obtain g where st: "d_stages s = [(i, g)]"
    and "undecided_stage env p i L N g (d_live s) \<or> decided_stage env p i L N g (d_live s)"
    using state by (auto simp: undecided_def decided_def in_stage_def upon_def)
  moreover have "stage_whole g" using \<open>journal_whole s\<close> st by (simp add: journal_whole_def)
  ultimately obtain r t where
    "recover_stage env h i \<lparr>rr_rolled_back = 0, rr_cleaned = 0\<rparr> s = (Inr r, t)"
    using calm_recover_stage [OF h sha apart st _ \<open>calm s\<close>] by blast
  then show ?thesis
    using matching_one [OF h i st] by (simp add: recover_transactions_def)
qed


text \<open>
  C36: a journal that has lost the preimage of one of its entries is refused by every opening,
  also when its manifest says committed and all the new files are in place: the removal of a
  stage that stops between a preimage and the manifest leaves an Instance that does not open.
\<close>

theorem lost_preimage_blocks:
  assumes "plain_handler h p" and "transaction_ok p i" and "d_stages d = [(i, g)]"
    and "sg_marker g = Marker m" and "e \<in> set (m_entries m)" and "e_had e"
    and "e_pre_ref e = Some ref" and "sg_files g ref = None"
  shows "recover_transactions env [h] d = (Inl Recovery_error, d)"
proof -
  have p: "rh_profile h = p" using assms(1) by (simp add: plain_handler_def)
  have "\<not> validate_manifest env p i d g m"
  proof
    assume "validate_manifest env p i d g m"
    then obtain a where "validate_entry env p (m_schema m) (m_status m) d g a e \<noteq> None"
      using assms(5) validate_entries_all unfolding validate_manifest_def by blast
    from validate_entry_preimage [OF this assms(6,7)] assms(8) show False by simp
  qed
  then have "recover_stage env h i rep d = (Inl Recovery_error, d)" for rep
    using assms(4) p the_stage_one [OF assms(3)]
    by (simp add: recover_stage_def catch_def load_manifest_eq bindA_def)
  then show ?thesis
    using matching_one [OF assms(1-3)] by (simp add: recover_transactions_def)
qed

end
