(* ===== verification/Atomic_Example.thy ===== *)
theory Atomic_Example
  imports Atomic_Liveness
begin

text \<open>
  A commit of two files, one new and one replaced, in the profile of the manual web source:
  stopped while it publishes, and stopped while it cleans up. The witnesses of the properties
  of the atomic commit are evaluated on it.
\<close>

definition demo_env :: commit_env where
  "demo_env = \<lparr>ce_sha = (\<lambda>b. replicate 64 (if b = ''old'' then CHR ''a'' else CHR ''b'')),
     ce_plain = (\<lambda>_. True), ce_manifest_size = (\<lambda>_. 900), ce_now = ''2026-01-01T00:00:00Z'',
     ce_listing = (\<lambda>_. [Journal_file ''preimages/0001.bin'', Marker_file])\<rparr>"

definition demo_hex :: string where
  "demo_hex = replicate 32 (CHR ''0'')"

definition demo_tx :: transaction where
  "demo_tx = \<lparr>tx_profile = MANUAL_WEB_PROFILE, tx_owner = ''op_'' @ demo_hex,
     tx_writes = [(''a.md'', Some ''fresh'', True), (''n.md'', Some ''new'', False)], tx_removals = [], tx_bytes = 8\<rparr>"

definition demo_handler :: recovery_handler where
  "demo_handler = \<lparr>rh_profile = MANUAL_WEB_PROFILE, rh_interrupted = None\<rparr>"

definition demo_disk :: "fate list \<Rightarrow> disk" where
  "demo_disk fs = \<lparr>d_live = (\<lambda>_. None)(''n.md'' := Some ''old''), d_stages = [], d_fates = fs\<rparr>"

lemma demo_target: "instance_target demo_env ''a.md'' = Some ''a.md''" "instance_target demo_env ''n.md'' = Some ''n.md''"
  by (simp_all add: instance_target_def normalise_locator_def demo_env_def)

lemma demo_profile_ok: "profile_ok (tx_profile demo_tx)"
  by (simp add: profile_ok_def demo_tx_def MANUAL_WEB_PROFILE_def limits_ok_def mib_def profile_key_ok_def)

lemma demo_hex_ok: "length demo_hex = 32" "list_all hexchar demo_hex"
  by (simp_all add: demo_hex_def list_all_iff hexchar_def)

definition demo_stage :: string where
  "demo_stage = ''manual-web-'' @ demo_hex"

definition demo_first :: entry where
  "demo_first = entry_of demo_env demo_tx 0 (''a.md'', Some ''fresh'', True) None"

definition demo_second :: entry where
  "demo_second = entry_of demo_env demo_tx 1 (''n.md'', Some ''new'', False) (Some ''old'')"

definition demo_manifest :: manifest where
  "demo_manifest = \<lparr>m_schema = 1, m_transaction = demo_stage, m_kind = ''connector.web.acquire'',
     m_status = Prepared, m_owner = ''op_'' @ demo_hex, m_prepared_at = ''2026-01-01T00:00:00Z'',
     m_committed_at = None, m_entries = [demo_first, demo_second]\<rparr>"

lemma demo_parts [simp]:
  "tx_profile demo_tx = MANUAL_WEB_PROFILE" "tx_removals demo_tx = []" "tx_owner demo_tx = ''op_'' @ demo_hex"
  "tx_writes demo_tx = [(''a.md'', Some ''fresh'', True), (''n.md'', Some ''new'', False)]"
  "ce_manifest_size demo_env m = 900" "ce_now demo_env = ''2026-01-01T00:00:00Z''"
  "ce_listing demo_env g = [Journal_file ''preimages/0001.bin'', Marker_file]"
  "ce_sha demo_env ''old'' = replicate 64 (CHR ''a'')" "ce_sha demo_env ''new'' = replicate 64 (CHR ''b'')"
  "ce_sha demo_env ''fresh'' = replicate 64 (CHR ''b'')"
  by (simp_all add: demo_tx_def demo_env_def)

lemma web_limits [simp]:
  "max_entries (pf_limits MANUAL_WEB_PROFILE) = 2048"
  "max_entry_bytes (pf_limits MANUAL_WEB_PROFILE) = 67108864"
  "max_candidate_bytes (pf_limits MANUAL_WEB_PROFILE) = 134217728"
  "max_preimage_bytes (pf_limits MANUAL_WEB_PROFILE) = 67108864"
  "max_journal_bytes (pf_limits MANUAL_WEB_PROFILE) = 201326592"
  "pf_key MANUAL_WEB_PROFILE = ''manual-web''" "pf_kind MANUAL_WEB_PROFILE = ''connector.web.acquire''"
  by (simp_all add: MANUAL_WEB_PROFILE_def mib_def)

lemma demo_tx_ok: "tx_ok demo_env demo_tx"
proof -
  have "accepts_owner MANUAL_WEB_PROFILE (''op_'' @ demo_hex)"
    using prefixed_hex_append [of "''op_''" 32 demo_hex] demo_hex_ok
    by (simp add: accepts_owner_def MANUAL_WEB_PROFILE_def)
  then show ?thesis by (simp add: tx_ok_def write_ok_def demo_target)
qed

lemma demo_refs:
  "journal_ref ''candidates'' 0 = ''candidates/0000.bin''" "journal_ref ''candidates'' 1 = ''candidates/0001.bin''"
  "journal_ref ''preimages'' 1 = ''preimages/0001.bin''"
  by (simp_all add: journal_ref_def four_digits_def digit_of_def)

lemma demo_entries:
  assumes "d_live s ''a.md'' = None" and "d_live s ''n.md'' = Some ''old''"
  shows "prepare_entries demo_env demo_tx 0 (sort_key fst (tx_writes demo_tx)) no_entries s =
    (Inr \<lparr>pr_entries = [demo_first, demo_second],
       pr_payloads = [(''candidates/0000.bin'', ''fresh''), (''candidates/0001.bin'', ''new''),
         (''preimages/0001.bin'', ''old'')],
       pr_candidate_bytes = 8, pr_preimage_bytes = 3\<rparr>, s)"
  using assms
  by (simp add: prepare_entry_def target_or_def demo_target live_bytes_def no_entries_def demo_first_def
      demo_second_def entry_of_def demo_refs [simplified] bindA_def seqA_def Let_def)

definition demo_files :: files where
  "demo_files = Map.empty(''candidates/0000.bin'' := Some ''fresh'', ''candidates/0001.bin'' := Some ''new'',
     ''preimages/0001.bin'' := Some ''old'')"

text \<open>The disk with one stage.\<close>

definition demo_at :: "files \<Rightarrow> files \<Rightarrow> marker \<Rightarrow> fate list \<Rightarrow> disk" where
  "demo_at V F m fs =
     \<lparr>d_live = V, d_stages = [(demo_stage, \<lparr>sg_files = F, sg_marker = m\<rparr>)], d_fates = fs\<rparr>"

definition demo_old :: files where
  "demo_old = Map.empty(''n.md'' := Some ''old'')"

lemma demo_at_parts [simp]:
  "d_live (demo_at V F m fs) = V" "the_stage (demo_at V F m fs) demo_stage = \<lparr>sg_files = F, sg_marker = m\<rparr>"
  "d_fates (demo_at V F m fs) = fs" "d_stages (demo_at V F m fs) = [(demo_stage, \<lparr>sg_files = F, sg_marker = m\<rparr>)]"
  by (simp_all add: demo_at_def the_stage_def stage_at_def)

lemma demo_at_updates [simp]:
  "set_file demo_stage ref b (demo_at V F m fs) = demo_at V (F(ref := b)) m fs"
  "set_marker demo_stage m' (demo_at V F m fs) = demo_at V F m' fs"
  "set_live r b (demo_at V F m fs) = demo_at (V(r := b)) F m fs"
  "demo_at V F m fs\<lparr>d_fates := gs\<rparr> = demo_at V F m gs"
  by (simp_all add: demo_at_def set_file_def set_marker_def set_live_def set_stage_def the_stage_def stage_at_def Let_def)

lemma demo_write [simp]:
  "disk_write f (demo_at V F m (Goes # fs)) = (Inr (), f (demo_at V F m fs))"
  "disk_write f (demo_at V F m (Stops # fs)) = (Inl Crash, demo_at V F m fs)"
  by (simp_all add: disk_write_def)

lemma demo_prepare:
  "prepare demo_env demo_tx demo_hex (demo_disk (Goes # Goes # Goes # Goes # Goes # fs)) =
     (Inr (demo_stage, demo_manifest), demo_at demo_old demo_files (Marker demo_manifest) fs)"
proof -
  have made: "disk_write (set_stage demo_stage empty_stage) (demo_disk (Goes # gs)) =
      (Inr (), demo_at demo_old Map.empty No_marker gs)" for gs
    by (simp add: disk_write_def demo_disk_def set_stage_def demo_at_def demo_old_def empty_stage_def)
  have staged: "prepare_stage demo_env demo_tx demo_stage
      (demo_at demo_old Map.empty No_marker (Goes # Goes # Goes # Goes # fs)) =
      (Inr demo_manifest, demo_at demo_old demo_files (Marker demo_manifest) fs)"
    using demo_entries [of "demo_at demo_old Map.empty No_marker (Goes # Goes # Goes # Goes # fs)"]
    by (simp add: prepare_stage_def demo_old_def write_marker_def manifest_byte_limit_def seqA_def bindA_def
        Let_def demo_files_def demo_manifest_def)
  show ?thesis
    using made staged by (simp add: prepare_def Let_def catch_def demo_stage_def [simplified, symmetric])
qed

definition demo_half :: files where
  "demo_half = demo_old(''a.md'' := Some ''fresh'')"

definition demo_new :: files where
  "demo_new = demo_half(''n.md'' := Some ''new'')"

definition demo_files1 :: files where
  "demo_files1 = demo_files(''candidates/0000.bin'' := None)"

definition demo_files2 :: files where
  "demo_files2 = demo_files1(''candidates/0001.bin'' := None)"

lemma demo_entry_parts [simp]:
  "e_relative demo_first = ''a.md''" "e_had demo_first = False" "e_pre_ref demo_first = None"
  "e_cand_ref demo_first = ''candidates/0000.bin''" "e_cand_sha demo_first = replicate 64 (CHR ''b'')"
  "e_operation demo_first = None" "e_pre_sha demo_first = None"
  "e_relative demo_second = ''n.md''" "e_had demo_second = True" "e_pre_ref demo_second = Some ''preimages/0001.bin''"
  "e_cand_ref demo_second = ''candidates/0001.bin''" "e_cand_sha demo_second = replicate 64 (CHR ''b'')"
  "e_operation demo_second = None" "e_pre_sha demo_second = Some (replicate 64 (CHR ''a''))"
  using demo_refs by (simp_all add: demo_first_def demo_second_def entry_of_def)

lemma demo_kind [simp]: "removes demo_first = False" "removes demo_second = False"
  by (simp_all add: removes_def)

lemma demo_manifest_parts [simp]:
  "m_entries demo_manifest = [demo_first, demo_second]" "m_status demo_manifest = Prepared"
  by (simp_all add: demo_manifest_def)

lemma demo_publish:
  "publish_entry demo_env MANUAL_WEB_PROFILE demo_stage demo_first (demo_at demo_old demo_files m fs) =
     disk_write (\<lambda>s. set_live ''a.md'' (Some ''fresh'') (set_file demo_stage ''candidates/0000.bin'' None s))
       (demo_at demo_old demo_files m fs)"
  "publish_entry demo_env MANUAL_WEB_PROFILE demo_stage demo_second (demo_at demo_half demo_files1 m fs) =
     disk_write (\<lambda>s. set_live ''n.md'' (Some ''new'') (set_file demo_stage ''candidates/0001.bin'' None s))
       (demo_at demo_half demo_files1 m fs)"
  by (simp_all add: publish_entry_def target_or_def demo_target live_bytes_def journal_bytes_def
      demo_old_def demo_half_def demo_files_def demo_files1_def Let_def bindA_def seqA_def)

text \<open>Stopped before the second file is published.\<close>

lemma demo_stopped_publishing:
  "commit demo_env demo_tx demo_hex (demo_disk [Goes, Goes, Goes, Goes, Goes, Goes, Stops]) =
     (Inl Crash, demo_at demo_half demo_files1 (Marker demo_manifest) [])"
proof -
  have "for_each (publish_entry demo_env MANUAL_WEB_PROFILE demo_stage) [demo_first, demo_second]
      (demo_at demo_old demo_files (Marker demo_manifest) [Goes, Stops]) =
    (Inl Crash, demo_at demo_half demo_files1 (Marker demo_manifest) [])"
    using demo_publish by (simp add: demo_half_def [symmetric] demo_files1_def [symmetric])
  then show ?thesis
    by (simp add: commit_def Let_def demo_prepare catch_def bindA_def seqA_def)
qed

definition demo_committed :: manifest where
  "demo_committed = demo_manifest\<lparr>m_status := Committed, m_committed_at := Some ''2026-01-01T00:00:00Z''\<rparr>"

text \<open>Stopped while the stage of the finished commit is removed, after the preimage.\<close>

lemma demo_stopped_cleaning:
  "commit demo_env demo_tx demo_hex (demo_disk [Goes, Goes, Goes, Goes, Goes, Goes, Goes, Goes, Goes, Stops]) =
     (Inl Crash, demo_at demo_new (demo_files2(''preimages/0001.bin'' := None)) (Marker demo_committed) [])"
proof -
  have "for_each (publish_entry demo_env MANUAL_WEB_PROFILE demo_stage) [demo_first, demo_second]
      (demo_at demo_old demo_files (Marker demo_manifest) [Goes, Goes, Goes, Goes, Stops]) =
    (Inr (), demo_at demo_new demo_files2 (Marker demo_manifest) [Goes, Goes, Stops])"
    using demo_publish
    by (simp add: demo_half_def [symmetric] demo_files1_def [symmetric] demo_new_def demo_files2_def)
  moreover have "seal_commit demo_env MANUAL_WEB_PROFILE demo_stage demo_manifest
      (demo_at demo_new demo_files2 (Marker demo_manifest) [Goes, Goes, Stops]) =
    (Inr (), demo_at demo_new demo_files2 (Marker demo_committed) [Goes, Stops])"
    by (simp add: seal_commit_def write_marker_def manifest_byte_limit_def demo_committed_def)
  moreover have "remove_stage_quietly demo_env demo_stage
      (demo_at demo_new demo_files2 (Marker demo_committed) [Goes, Stops]) =
    (Inl Crash, demo_at demo_new (demo_files2(''preimages/0001.bin'' := None)) (Marker demo_committed) [])"
    by (simp add: remove_stage_quietly_def remove_item_def catch_def bindA_def seqA_def)
  ultimately show ?thesis
    by (simp add: commit_def Let_def demo_prepare catch_def bindA_def seqA_def)
qed

section \<open>The openings that follow\<close>

lemma demo_sha: "\<forall>x. sha256_text (ce_sha demo_env x)"
  by (simp add: demo_env_def sha256_text_def list_all_iff hexchar_def)

lemma demo_new_live: "new_live demo_tx demo_old = demo_new"
  by (auto simp: new_live_def demo_old_def demo_new_def demo_half_def fun_eq_iff)

lemma demo_apart: "no_collision demo_env demo_old (new_live demo_tx demo_old)"
  unfolding demo_new_live
  by (auto simp: no_collision_def demo_old_def demo_new_def demo_half_def split: if_splits)

lemma demo_plain: "plain_handler demo_handler (tx_profile demo_tx)"
  by (simp add: plain_handler_def demo_handler_def)

lemma demo_start: "d_stages (demo_disk fs) = []" "d_live (demo_disk fs) = demo_old"
  by (simp_all add: demo_disk_def demo_old_def)

lemma demo_stage_ok: "transaction_ok MANUAL_WEB_PROFILE demo_stage"
  using stage_name_ok [OF demo_hex_ok, of demo_tx] by (simp add: stage_name_def demo_stage_def)

lemma demo_reopened: "reopened demo_env demo_handler (demo_at V F m []) (demo_at V F m [])"
  using reopened_at_once [of demo_env demo_handler "demo_at V F m []" "[]"] by simp

lemma demo_valid:
  "validate_manifest demo_env MANUAL_WEB_PROFILE demo_stage (demo_at demo_half demo_files1 (Marker demo_manifest) [])
     \<lparr>sg_files = demo_files1, sg_marker = Marker demo_manifest\<rparr> demo_manifest"
proof -
  have "accepts_owner MANUAL_WEB_PROFILE (''op_'' @ demo_hex)"
    using demo_tx_ok by (simp add: tx_ok_def)
  moreover have "journal_file_in ''candidates'' ''candidates/0000.bin''" "journal_file_in ''candidates'' ''candidates/0001.bin''"
    "journal_file_in ''preimages'' ''preimages/0001.bin''"
    using journal_ref_file [of 0] journal_ref_file [of 1] demo_refs by simp_all
  moreover have "sha256_text (replicate 64 (CHR ''a''))" "sha256_text (replicate 64 (CHR ''b''))"
    by (simp_all add: sha256_text_def list_all_iff hexchar_def)
  ultimately show ?thesis
    using demo_stage_ok
    by (simp add: validate_manifest_def demo_manifest_def validate_entry_def entry_shape_ok_def preimage_size_def
        written_bytes_def file_digest_def no_scan_def demo_target demo_files1_def demo_files_def demo_half_def
        demo_old_def Let_def)
qed

lemma demo_recovery:
  "\<exists>t. recover_transactions demo_env [demo_handler] (demo_at demo_half demo_files1 (Marker demo_manifest) []) =
     (Inr (Some \<lparr>rr_rolled_back = 1, rr_cleaned = 0\<rparr>), t)"
proof -
  let ?s = "demo_at demo_half demo_files1 (Marker demo_manifest) []"
  have undone: "rollback demo_env MANUAL_WEB_PROFILE Recovery_error demo_stage demo_manifest ?s =
      (Inr (), demo_at (demo_half(''a.md'' := None)) demo_files1 (Marker demo_manifest) [])"
    by (simp add: rollback_def rollback_entry_def target_or_def demo_target rollback_write_def live_digest_def
        journal_bytes_def demo_files1_def demo_files_def demo_half_def demo_old_def disk_write_def bindA_def seqA_def)
  have "recover_stage demo_env demo_handler demo_stage rep ?s =
      (Inr (rep\<lparr>rr_rolled_back := rr_rolled_back rep + 1\<rparr>),
       drop_stage demo_stage (demo_at (demo_half(''a.md'' := None)) (demo_files1(''preimages/0001.bin'' := None)) No_marker []))" for rep
    using undone demo_valid
    by (simp add: recover_stage_def recover_prepared_def demo_handler_def load_manifest_eq catch_def
        manifest_byte_limit_def remove_stage_def remove_item_def disk_write_def)
  then show ?thesis
    using matching_one [OF demo_plain _ demo_at_parts(4)] demo_stage_ok
    by (simp add: recover_transactions_def)
qed



lemma lost_preimage_blocks_witness:
  "\<exists>d. commit demo_env demo_tx demo_hex
        (demo_disk [Goes, Goes, Goes, Goes, Goes, Goes, Goes, Goes, Goes, Stops]) = (Inl Crash, d)
     \<and> d_live d = demo_new \<and> recover_transactions demo_env [demo_handler] d = (Inl Recovery_error, d)"
proof -
  let ?d = "demo_at demo_new (demo_files2(''preimages/0001.bin'' := None)) (Marker demo_committed) []"
  have "recover_transactions demo_env [demo_handler] ?d = (Inl Recovery_error, ?d)"
    by (rule lost_preimage_blocks [OF demo_plain _ demo_at_parts(4), where m = demo_committed and e = demo_second
          and ref = "''preimages/0001.bin''"])
       (use demo_stage_ok in \<open>simp_all add: demo_committed_def\<close>)
  then show ?thesis using demo_stopped_cleaning by simp
qed

end
