(* ===== verification/Hierarchy_Model.thy ===== *)
theory Hierarchy_Model
  imports Provelume_Prelude
begin

text \<open>
  The records of the hierarchy (core/provelume/hierarchy_model.py): nodes of three kinds that
  form a forest of bounded depth, the classifications of documents by nodes, the names, slugs
  and identities they are made of, and the validator of a stored state. Stored records are JSON
  objects: each field is a JSON value until it has been validated.
\<close>

section \<open>Vocabulary\<close>

text \<open>
  The error types of the hierarchy, a \<open>KeyError\<close>, and the outcome of a loop that does not
  end, which is kept as a value so that a theorem can exclude it.
\<close>

datatype hierarchy_error =
    Hierarchy_error string
  | Not_found string
  | Conflict string
  | Integrity string
  | Key_error
  | Hangs

definition HIERARCHY_KINDS :: "string list" where
  "HIERARCHY_KINDS = [''area'', ''project'', ''collection'']"

definition MAX_HIERARCHY_DEPTH :: nat where "MAX_HIERARCHY_DEPTH = 64"
definition MAX_NODE_NAME_CHARS :: nat where "MAX_NODE_NAME_CHARS = 120"
definition MAX_SLUG_BASE_CHARS :: nat where "MAX_SLUG_BASE_CHARS = 64"

definition kind_order :: "string \<Rightarrow> nat" where
  "kind_order k = (if k = ''area'' then 0 else if k = ''project'' then 1 else 2)"

definition ALLOWED_PARENT_KINDS :: "string \<Rightarrow> string list" where
  "ALLOWED_PARENT_KINDS k =
     (if k = ''area'' then [''area'']
      else if k = ''project'' then [''area'', ''project'']
      else if k = ''collection'' then [''collection''] else [])"

definition node_id_ok :: "string \<Rightarrow> bool" where
  "node_id_ok s = list_ex (\<lambda>k. prefixed_hex (k @ ''_'') 32 s) HIERARCHY_KINDS"

definition classification_id_ok :: "string \<Rightarrow> bool" where
  "classification_id_ok = prefixed_hex ''classification_'' 32"

record node =
  nd_schema :: json
  nd_id :: json
  nd_kind :: json
  nd_name :: json
  nd_slug :: json
  nd_parent :: json
  nd_created :: json
  nd_updated :: json

record classification =
  cl_schema :: json
  cl_id :: json
  cl_document :: json
  cl_primary :: json
  cl_secondary :: json
  cl_created :: json
  cl_updated :: json

record edge =
  ed_id :: json
  ed_from_kind :: json
  ed_from :: json
  ed_relation :: json
  ed_to_kind :: json
  ed_to :: json
  ed_created :: json

fun str_of :: "json \<Rightarrow> string" where
  "str_of (JStr s) = s"
| "str_of _ = []"

fun is_text :: "json \<Rightarrow> bool" where
  "is_text (JStr s) = True"
| "is_text _ = False"

text \<open>Python's \<open>x == 1\<close> on a JSON value.\<close>

definition is_one :: "json \<Rightarrow> bool" where
  "is_one j \<longleftrightarrow> j = JInt 1 \<or> j = JBool True \<or> j = JFloat 1"

text \<open>
  What the model takes from Python's Unicode tables and hash functions: the NFC form of a
  stripped text, the casefolded ASCII part of the NFKD form, the control characters, the
  emptiness of a stripped text, casefolding and SHA-256.
\<close>

record hierarchy_env =
  he_nfc :: "string \<Rightarrow> string"
  he_ascii :: "string \<Rightarrow> string"
  he_control :: "char \<Rightarrow> bool"
  he_blank :: "string \<Rightarrow> bool"
  he_casefold :: "string \<Rightarrow> string"
  he_sha :: "string \<Rightarrow> string"

section \<open>Names, slugs and identities\<close>

definition name_ladder :: "hierarchy_env \<Rightarrow> string \<Rightarrow> ladder" where
  "name_ladder env s =
     [(s = [], ''hierarchy node name is required''),
      (length s > MAX_NODE_NAME_CHARS, ''hierarchy node name exceeds 120 characters''),
      (s = ''.'' \<or> s = ''..'', ''hierarchy node name cannot be dot or dot-dot''),
      (list_ex (\<lambda>c. c = CHR ''/'' \<or> c = CHR 0x5C) s, ''hierarchy node name cannot contain path separators''),
      (list_ex (he_control env) s, ''hierarchy node name cannot contain control characters'')]"

definition normalise_node_name :: "hierarchy_env \<Rightarrow> string \<Rightarrow> hierarchy_error + string" where
  "normalise_node_name env v =
     (case first_failure (name_ladder env (he_nfc env v)) of
        Some msg \<Rightarrow> Inl (Hierarchy_error msg)
      | None \<Rightarrow> Inr (he_nfc env v))"

definition slug_char :: "char \<Rightarrow> bool" where
  "slug_char c \<longleftrightarrow> c \<in> set ''abcdefghijklmnopqrstuvwxyz0123456789''"

text \<open>The substitution of every run of other characters by one dash.\<close>

fun dash_runs :: "bool \<Rightarrow> string \<Rightarrow> string" where
  "dash_runs inside [] = []"
| "dash_runs inside (c # cs) =
     (if slug_char c then c # dash_runs False cs
      else if inside then dash_runs True cs else CHR ''-'' # dash_runs True cs)"

definition lstrip_dash :: "string \<Rightarrow> string" where
  "lstrip_dash s = dropWhile (\<lambda>c. c = CHR ''-'') s"

definition rstrip_dash :: "string \<Rightarrow> string" where
  "rstrip_dash s = rev (dropWhile (\<lambda>c. c = CHR ''-'') (rev s))"

definition slug_base :: "hierarchy_env \<Rightarrow> string \<Rightarrow> string \<Rightarrow> string" where
  "slug_base env name kind =
     (let base = rstrip_dash (lstrip_dash (dash_runs False (he_ascii env name)));
          base = (if base = [] then kind else base);
          base = rstrip_dash (take MAX_SLUG_BASE_CHARS base)
      in if base = [] then kind else base)"

definition portable_slug_ok :: "string \<Rightarrow> bool" where
  "portable_slug_ok s \<longleftrightarrow>
     (let n = length s - 34; base = take n s in
      34 < length s \<and> drop n s \<noteq> [] \<and> take 2 (drop n s) = ''--'' \<and> list_all hexchar (drop (n + 2) s)
      \<and> slug_char (hd base) \<and> slug_char (last base)
      \<and> list_all (\<lambda>c. slug_char c \<or> c = CHR ''-'') base)"

definition id_suffix :: "string \<Rightarrow> string" where
  "id_suffix s = rev (takeWhile (\<lambda>c. c \<noteq> CHR ''_'') (rev s))"

definition portable_node_slug ::
  "hierarchy_env \<Rightarrow> string \<Rightarrow> string \<Rightarrow> string \<Rightarrow> hierarchy_error + string" where
  "portable_node_slug env name i kind =
     (case normalise_node_name env name of
        Inl e \<Rightarrow> Inl e
      | Inr selected \<Rightarrow>
          (case first_failure
             [(kind \<notin> set HIERARCHY_KINDS \<or> \<not> node_id_ok i, ''invalid hierarchy node identity''),
              (take (length kind + 1) i \<noteq> kind @ ''_'', ''hierarchy node kind does not match its identity'')] of
             Some msg \<Rightarrow> Inl (Hierarchy_error msg)
           | None \<Rightarrow>
               let slug = slug_base env selected kind @ ''--'' @ id_suffix i in
               if \<not> portable_slug_ok slug then Inl (Hierarchy_error ''cannot derive a portable hierarchy slug'')
               else Inr slug))"

definition classification_key :: "hierarchy_env \<Rightarrow> string \<Rightarrow> string" where
  "classification_key env d = ''classification_'' @ take 32 (he_sha env d)"

definition classification_id :: "hierarchy_env \<Rightarrow> string \<Rightarrow> hierarchy_error + string" where
  "classification_id env d =
     (if he_blank env d then Inl (Hierarchy_error ''document identity is required'')
      else Inr (classification_key env d))"

definition newline :: string where
  "newline = [CHR 0x0A]"

definition classification_edge_id :: "hierarchy_env \<Rightarrow> string \<Rightarrow> string \<Rightarrow> string \<Rightarrow> string" where
  "classification_edge_id env d rel n = ''edge_'' @ take 32 (he_sha env (d @ newline @ rel @ newline @ n))"

section \<open>Validation of a stored state\<close>

text \<open>A fault is its code, its message and the path of the record.\<close>

type_synonym fault = "string \<times> string \<times> string"

type_synonym nodes = "(string \<times> node) list"
type_synonym classifications = "(string \<times> classification) list"

definition node_path :: "string \<Rightarrow> string" where
  "node_path i = ''knowledge/hierarchy/'' @ i @ ''.json''"

definition classification_path :: "string \<Rightarrow> string" where
  "classification_path i = ''knowledge/classifications/'' @ i @ ''.json''"

definition when_fault :: "bool \<Rightarrow> string \<Rightarrow> string \<Rightarrow> string \<Rightarrow> fault list" where
  "when_fault b code msg path = (if b then [(code, msg, path)] else [])"

definition stamped :: "hierarchy_env \<Rightarrow> json \<Rightarrow> bool" where
  "stamped env j \<longleftrightarrow> is_text j \<and> \<not> he_blank env (str_of j)"

definition node_identity_bad :: "string \<Rightarrow> node \<Rightarrow> bool" where
  "node_identity_bad i v \<longleftrightarrow>
     \<not> is_one (nd_schema v) \<or> \<not> node_id_ok i \<or> nd_id v \<noteq> JStr i
   \<or> \<not> is_text (nd_kind v) \<or> str_of (nd_kind v) \<notin> set HIERARCHY_KINDS
   \<or> take (length (str_of (nd_kind v)) + 1) i \<noteq> str_of (nd_kind v) @ ''_''"

definition name_faults :: "hierarchy_env \<Rightarrow> string \<Rightarrow> node \<Rightarrow> fault list" where
  "name_faults env i v =
     (if \<not> is_text (nd_name v) \<or> normalise_node_name env (str_of (nd_name v)) \<noteq> Inr (str_of (nd_name v))
      then [(''hierarchy_node_name_invalid'', ''Hierarchy node name is empty, unsafe or not normalized'', node_path i)]
      else when_fault
        (nd_slug v \<noteq> (case portable_node_slug env (str_of (nd_name v)) i (str_of (nd_kind v)) of
                         Inl _ \<Rightarrow> JNull | Inr s \<Rightarrow> JStr s))
        ''hierarchy_node_slug_invalid'' ''Hierarchy node slug is not the deterministic portable slug'' (node_path i))"

definition node_record_errors :: "hierarchy_env \<Rightarrow> string \<Rightarrow> node \<Rightarrow> fault list" where
  "node_record_errors env i v =
     (if node_identity_bad i v
      then [(''hierarchy_node_identity_invalid'', ''Hierarchy node schema, ID or kind is invalid'', node_path i)]
      else name_faults env i v
        @ when_fault (nd_parent v \<noteq> JNull \<and> \<not> (is_text (nd_parent v) \<and> node_id_ok (str_of (nd_parent v))))
            ''hierarchy_parent_identity_invalid'' ''Hierarchy parent identity is invalid'' (node_path i)
        @ when_fault (\<not> (stamped env (nd_created v) \<and> stamped env (nd_updated v)))
            ''hierarchy_node_timestamp_invalid'' ''Hierarchy node timestamps are invalid'' (node_path i))"

definition parent_of :: "node \<Rightarrow> string option" where
  "parent_of v = (if is_text (nd_parent v) then Some (str_of (nd_parent v)) else None)"

definition sound_nodes :: "hierarchy_env \<Rightarrow> nodes \<Rightarrow> nodes" where
  "sound_nodes env ns = filter (\<lambda>(i, v). node_record_errors env i v = []) ns"

definition parent_faults :: "nodes \<Rightarrow> string \<times> node \<Rightarrow> fault list" where
  "parent_faults sound = (\<lambda>(i, v). case parent_of v of
       None \<Rightarrow> []
     | Some p \<Rightarrow> (case map_of sound p of
          None \<Rightarrow> [(''hierarchy_parent_missing'', ''Hierarchy node references a missing parent'', node_path i)]
        | Some w \<Rightarrow> when_fault (str_of (nd_kind w) \<notin> set (ALLOWED_PARENT_KINDS (str_of (nd_kind v))))
            ''hierarchy_parent_kind_invalid'' ''Hierarchy parent kind is not allowed for this node kind'' (node_path i)))"

text \<open>The walk from a node to its root; the counter is the number of levels still allowed.\<close>

datatype chain_fault = Cycle | Too_deep

fun chain_walk :: "nodes \<Rightarrow> nat \<Rightarrow> string list \<Rightarrow> string option \<Rightarrow> chain_fault option" where
  "chain_walk sound left seen None = None"
| "chain_walk sound left seen (Some c) =
     (case map_of sound c of
        None \<Rightarrow> None
      | Some v \<Rightarrow>
          if c \<in> set seen then Some Cycle
          else (case left of 0 \<Rightarrow> Some Too_deep | Suc l \<Rightarrow> chain_walk sound l (c # seen) (parent_of v)))"

definition chain_faults :: "nodes \<Rightarrow> string \<Rightarrow> fault list" where
  "chain_faults sound i = (case chain_walk sound MAX_HIERARCHY_DEPTH [] (Some i) of
       None \<Rightarrow> []
     | Some Cycle \<Rightarrow> [(''hierarchy_cycle'', ''Hierarchy parent relationships contain a cycle'', node_path i)]
     | Some Too_deep \<Rightarrow> [(''hierarchy_depth_exceeded'', ''Hierarchy exceeds the 64-level limit'', node_path i)])"

definition all_text :: "json list \<Rightarrow> bool" where
  "all_text js = list_all is_text js"

fun json_list :: "json \<Rightarrow> json list option" where
  "json_list (JList js) = Some js"
| "json_list _ = None"

definition secondary_ids :: "json \<Rightarrow> string list option" where
  "secondary_ids j = (case json_list j of
       None \<Rightarrow> None | Some js \<Rightarrow> if all_text js then Some (map str_of js) else None)"

definition classification_identity_bad :: "hierarchy_env \<Rightarrow> string \<Rightarrow> classification \<Rightarrow> bool" where
  "classification_identity_bad env i c \<longleftrightarrow>
     \<not> is_one (cl_schema c) \<or> \<not> classification_id_ok i \<or> cl_id c \<noteq> JStr i
   \<or> \<not> is_text (cl_document c) \<or> he_blank env (str_of (cl_document c))
   \<or> classification_id env (str_of (cl_document c)) \<noteq> Inr i"

definition classification_errors ::
  "hierarchy_env \<Rightarrow> nodes \<Rightarrow> string list \<Rightarrow> string \<times> classification \<Rightarrow> fault list" where
  "classification_errors env sound docs = (\<lambda>(i, c).
     if classification_identity_bad env i c
     then [(''classification_identity_invalid'', ''Document classification schema or identity is invalid'',
            classification_path i)]
     else when_fault (str_of (cl_document c) \<notin> set docs)
         ''classification_document_missing'' ''Classification references a missing Document'' (classification_path i)
       @ when_fault (\<not> is_text (cl_primary c) \<or> map_of sound (str_of (cl_primary c)) = None)
         ''classification_primary_missing'' ''Classification references a missing primary hierarchy node''
         (classification_path i)
       @ (case secondary_ids (cl_secondary c) of
            Some ss \<Rightarrow>
              if ss \<noteq> sort (remdups ss) \<or> (is_text (cl_primary c) \<and> str_of (cl_primary c) \<in> set ss)
              then [(''classification_secondary_invalid'',
                     ''Secondary classifications must be sorted, unique and exclude the primary'', classification_path i)]
              else when_fault (list_ex (\<lambda>x. map_of sound x = None) ss)
                ''classification_secondary_missing'' ''Classification references a missing secondary hierarchy node''
                (classification_path i)
          | None \<Rightarrow> [(''classification_secondary_invalid'',
                     ''Secondary classifications must be sorted, unique and exclude the primary'', classification_path i)])
       @ when_fault (\<not> (stamped env (cl_created c) \<and> stamped env (cl_updated c)))
         ''classification_timestamp_invalid'' ''Classification timestamps are invalid'' (classification_path i))"

definition canonical_hierarchy_errors ::
  "hierarchy_env \<Rightarrow> nodes \<Rightarrow> classifications \<Rightarrow> string list \<Rightarrow> fault list" where
  "canonical_hierarchy_errors env ns cs docs =
     (let sound = sound_nodes env ns in
        concat (map (\<lambda>(i, v). node_record_errors env i v) ns)
      @ concat (map (parent_faults sound) sound)
      @ concat (map (\<lambda>(i, v). chain_faults sound i) sound)
      @ concat (map (classification_errors env sound docs) cs))"

section \<open>Provenance of classifications\<close>

definition edge_matches :: "string \<Rightarrow> string \<Rightarrow> string \<Rightarrow> edge \<Rightarrow> bool" where
  "edge_matches d rel n e \<longleftrightarrow>
     ed_from_kind e = JStr ''document'' \<and> ed_from e = JStr d \<and> ed_relation e = JStr rel
   \<and> ed_to_kind e = JStr ''hierarchy_node'' \<and> ed_to e = JStr n"

definition associations :: "string \<Rightarrow> string list \<Rightarrow> (string \<times> string) list" where
  "associations primary secondary =
     (''classified_primary_as'', primary) # map (\<lambda>n. (''classified_secondary_as'', n)) secondary"

definition edge_faults ::
  "hierarchy_env \<Rightarrow> (string \<times> edge) list \<Rightarrow> string \<Rightarrow> string \<Rightarrow> string \<times> string \<Rightarrow> fault list" where
  "edge_faults env edges i d = (\<lambda>(rel, n).
     let k = classification_edge_id env d rel n in
     case map_of edges k of
       None \<Rightarrow> [(''classification_provenance_missing'', ''Classification is missing its deterministic provenance edge'',
                 classification_path i)]
     | Some e \<Rightarrow> when_fault (\<not> edge_matches d rel n e) ''classification_provenance_invalid''
         ''Classification provenance edge does not match its association'' (''knowledge/provenance/'' @ k @ ''.json''))"

definition classification_provenance_errors ::
  "hierarchy_env \<Rightarrow> classifications \<Rightarrow> (string \<times> edge) list \<Rightarrow> fault list" where
  "classification_provenance_errors env cs edges = concat (map (\<lambda>(i, c).
     case secondary_ids (cl_secondary c) of
       Some ss \<Rightarrow> if is_text (cl_document c) \<and> is_text (cl_primary c)
         then concat (map (edge_faults env edges i (str_of (cl_document c)))
                (associations (str_of (cl_primary c)) ss))
         else []
     | None \<Rightarrow> []) cs)"

end
