(* ===== verification/Hierarchy.thy ===== *)
theory Hierarchy
  imports Hierarchy_Model
begin

text \<open>
  The operations of the hierarchy (core/provelume/hierarchy.py, class HierarchyManager): reading
  the validated state, walking it, and creating, renaming and moving nodes and classifying
  documents. The directories of nodes, classifications and provenance edges are keyed by the
  identity of their records, and the documents are known by their identities. The lifecycle
  lock makes every operation one step.
\<close>

section \<open>The store\<close>

record hstore =
  hs_nodes :: nodes
  hs_classes :: classifications
  hs_docs :: "string list"
  hs_edges :: "(string \<times> edge) list"

type_synonym 'a hact = "(hstore, hierarchy_error, 'a) act"

definition write_node :: "node \<Rightarrow> unit hact" where
  "write_node n = modify (\<lambda>s. s\<lparr>hs_nodes := alist_put (str_of \<circ> nd_id) n (hs_nodes s)\<rparr>)"

definition write_classification :: "classification \<Rightarrow> unit hact" where
  "write_classification c = modify (\<lambda>s. s\<lparr>hs_classes := alist_put (str_of \<circ> cl_id) c (hs_classes s)\<rparr>)"

definition write_provenance :: "edge \<Rightarrow> unit hact" where
  "write_provenance e = modify (\<lambda>s. s\<lparr>hs_edges := alist_put (str_of \<circ> ed_id) e (hs_edges s)\<rparr>)"

interpretation node_dir: record_directory map_of "alist_put (str_of \<circ> nd_id)" "str_of \<circ> nd_id"
  by unfold_locales (simp add: map_of_alist_put)

interpretation class_dir: record_directory map_of "alist_put (str_of \<circ> cl_id)" "str_of \<circ> cl_id"
  by unfold_locales (simp add: map_of_alist_put)

interpretation edge_dir: record_directory map_of "alist_put (str_of \<circ> ed_id)" "str_of \<circ> ed_id"
  by unfold_locales (simp add: map_of_alist_put)

definition state_errors :: "hierarchy_env \<Rightarrow> hstore \<Rightarrow> fault list" where
  "state_errors env s = canonical_hierarchy_errors env (hs_nodes s) (hs_classes s) (hs_docs s)"

definition hierarchy_state :: "hierarchy_env \<Rightarrow> (nodes \<times> classifications) hact" where
  "hierarchy_state env = query (\<lambda>s. case state_errors env s of
       [] \<Rightarrow> Inr (hs_nodes s, hs_classes s)
     | (_, msg, _) # _ \<Rightarrow> Inl (Integrity msg))"

section \<open>Walking the forest\<close>

text \<open>The loop from a node to its root; \<open>None\<close> when it does not end.\<close>

partial_function (option) lineage_loop ::
  "nodes \<Rightarrow> node list \<Rightarrow> string \<Rightarrow> (hierarchy_error + node list) option" where
  "lineage_loop ns acc c =
     (case map_of ns c of
        None \<Rightarrow> Some (Inl Key_error)
      | Some v \<Rightarrow>
          (case parent_of v of
             None \<Rightarrow> Some (Inr (acc @ [v]))
           | Some p \<Rightarrow> lineage_loop ns (acc @ [v]) p))"

definition ended :: "(hierarchy_error + 'a) option \<Rightarrow> hierarchy_error + 'a" where
  "ended r = (case r of None \<Rightarrow> Inl Hangs | Some x \<Rightarrow> x)"

definition lineage :: "nodes \<Rightarrow> string \<Rightarrow> hierarchy_error + node list" where
  "lineage ns c = map_sum id rev (ended (lineage_loop ns [] c))"

definition node_sort_key :: "hierarchy_env \<Rightarrow> node \<Rightarrow> string \<times> nat \<times> string" where
  "node_sort_key env v =
     (he_casefold env (str_of (nd_name v)), kind_order (str_of (nd_kind v)), str_of (nd_id v))"

definition children :: "hierarchy_env \<Rightarrow> nodes \<Rightarrow> string option \<Rightarrow> node list" where
  "children env ns p = sort_key (node_sort_key env) (filter (\<lambda>v. parent_of v = p) (map snd ns))"

definition child_ids :: "hierarchy_env \<Rightarrow> nodes \<Rightarrow> string \<Rightarrow> string list" where
  "child_ids env ns p = map (str_of \<circ> nd_id) (children env ns (Some p))"

text \<open>The stacks are kept with their top first.\<close>

partial_function (option) collect_descendants ::
  "hierarchy_env \<Rightarrow> nodes \<Rightarrow> string set \<Rightarrow> string list \<Rightarrow> string set option" where
  "collect_descendants env ns selected pending =
     (if pending = [] then Some selected
      else collect_descendants env ns (selected \<union> set (child_ids env ns (hd pending)))
             (rev (child_ids env ns (hd pending)) @ tl pending))"

definition descendant_ids :: "hierarchy_env \<Rightarrow> nodes \<Rightarrow> string \<Rightarrow> hierarchy_error + string set" where
  "descendant_ids env ns i = ended (map_option Inr (collect_descendants env ns {i} [i]))"

partial_function (option) measure_height ::
  "hierarchy_env \<Rightarrow> nodes \<Rightarrow> nat \<Rightarrow> (string \<times> nat) list \<Rightarrow> nat option" where
  "measure_height env ns height pending =
     (if pending = [] then Some height
      else measure_height env ns (max height (snd (hd pending)))
             (rev (map (\<lambda>c. (c, snd (hd pending) + 1)) (child_ids env ns (fst (hd pending)))) @ tl pending))"

definition subtree_height :: "hierarchy_env \<Rightarrow> nodes \<Rightarrow> string \<Rightarrow> hierarchy_error + nat" where
  "subtree_height env ns i = ended (map_option Inr (measure_height env ns 0 [(i, 1)]))"

declare lineage_loop.simps [code] collect_descendants.simps [code] measure_height.simps [code]

section \<open>Views\<close>

definition class_secondary :: "classification \<Rightarrow> string list" where
  "class_secondary c = (case secondary_ids (cl_secondary c) of None \<Rightarrow> [] | Some ss \<Rightarrow> ss)"

definition primary_docs :: "classifications \<Rightarrow> string \<Rightarrow> string set" where
  "primary_docs cs i = set (map (\<lambda>c. str_of (cl_document c)) (filter (\<lambda>c. str_of (cl_primary c) = i) (map snd cs)))"

definition secondary_docs :: "classifications \<Rightarrow> string \<Rightarrow> string set" where
  "secondary_docs cs i = set (map (\<lambda>c. str_of (cl_document c)) (filter (\<lambda>c. i \<in> set (class_secondary c)) (map snd cs)))"

record node_view =
  nv_node :: node
  nv_depth :: nat
  nv_breadcrumbs :: "node list"
  nv_path :: "string list"
  nv_primary :: nat
  nv_secondary :: nat
  nv_associated :: nat
  nv_subtree :: nat

definition node_view :: "hierarchy_env \<Rightarrow> nodes \<Rightarrow> classifications \<Rightarrow> node \<Rightarrow> hierarchy_error + node_view" where
  "node_view env ns cs v =
     (let i = str_of (nd_id v) in
      case lineage ns i of
        Inl e \<Rightarrow> Inl e
      | Inr line \<Rightarrow>
          (case descendant_ids env ns i of
             Inl e \<Rightarrow> Inl e
           | Inr ds \<Rightarrow>
               Inr \<lparr>nv_node = v, nv_depth = length line - 1, nv_breadcrumbs = line,
                 nv_path = map (\<lambda>w. str_of (nd_slug w)) line,
                 nv_primary = card (primary_docs cs i), nv_secondary = card (secondary_docs cs i),
                 nv_associated = card (primary_docs cs i \<union> secondary_docs cs i),
                 nv_subtree = card (\<Union>d \<in> ds. primary_docs cs d \<union> secondary_docs cs d)\<rparr>))"

text \<open>
  The nested calls of \<open>append_children\<close>; the counter bounds their depth, as the stack of
  the interpreter does.
\<close>

fun append_children ::
  "hierarchy_env \<Rightarrow> nodes \<Rightarrow> classifications \<Rightarrow> nat \<Rightarrow> string option \<Rightarrow> hierarchy_error + node_view list" and
  append_each ::
  "hierarchy_env \<Rightarrow> nodes \<Rightarrow> classifications \<Rightarrow> nat \<Rightarrow> node list \<Rightarrow> hierarchy_error + node_view list" where
  "append_children env ns cs 0 p = Inl Hangs"
| "append_children env ns cs (Suc k) p = append_each env ns cs k (children env ns p)"
| "append_each env ns cs k [] = Inr []"
| "append_each env ns cs k (v # vs) =
     (case node_view env ns cs v of
        Inl e \<Rightarrow> Inl e
      | Inr w \<Rightarrow>
          (case append_children env ns cs k (Some (str_of (nd_id v))) of
             Inl e \<Rightarrow> Inl e
           | Inr below \<Rightarrow>
               (case append_each env ns cs k vs of
                  Inl e \<Rightarrow> Inl e
                | Inr rest \<Rightarrow> Inr (w # below @ rest))))"

definition list_nodes :: "hierarchy_env \<Rightarrow> nat \<Rightarrow> node_view list hact" where
  "list_nodes env depth =
     bindA (hierarchy_state env) (\<lambda>(ns, cs). of_result (append_children env ns cs depth None))"

definition get_node :: "hierarchy_env \<Rightarrow> string \<Rightarrow> node_view option hact" where
  "get_node env i =
     bindA (hierarchy_state env) (\<lambda>(ns, cs). case map_of ns i of
         None \<Rightarrow> ret None
       | Some v \<Rightarrow> of_result (map_sum id Some (node_view env ns cs v)))"

section \<open>Changing nodes\<close>

fun comma_join :: "string list \<Rightarrow> string" where
  "comma_join [] = []"
| "comma_join [x] = x"
| "comma_join (x # y # xs) = x @ '', '' @ comma_join (y # xs)"

definition allowed_text :: "string \<Rightarrow> string" where
  "allowed_text kind = comma_join (sort (ALLOWED_PARENT_KINDS kind))"

definition validate_parent_kind :: "string \<Rightarrow> string option \<Rightarrow> nodes \<Rightarrow> unit hact" where
  "validate_parent_kind kind p ns = (case p of
       None \<Rightarrow> ret ()
     | Some q \<Rightarrow> (case map_of ns q of
          None \<Rightarrow> raise Key_error
        | Some w \<Rightarrow> require (str_of (nd_kind w) \<in> set (ALLOWED_PARENT_KINDS kind))
            (Conflict (kind @ '' parent must have one of these kinds: '' @ allowed_text kind))))"

fun json_parent :: "string option \<Rightarrow> json" where
  "json_parent None = JNull"
| "json_parent (Some p) = JStr p"

text \<open>\<open>hex\<close> and \<open>now\<close> are the fresh uuid and the instant that the code takes.\<close>

definition new_node ::
  "string \<Rightarrow> string \<Rightarrow> string \<Rightarrow> string \<Rightarrow> string option \<Rightarrow> string \<Rightarrow> string \<Rightarrow> node" where
  "new_node i kind name slug p created updated =
     \<lparr>nd_schema = JInt 1, nd_id = JStr i, nd_kind = JStr kind, nd_name = JStr name, nd_slug = JStr slug,
      nd_parent = json_parent p, nd_created = JStr created, nd_updated = JStr updated\<rparr>"

definition create_node ::
  "hierarchy_env \<Rightarrow> string \<Rightarrow> string \<Rightarrow> string \<Rightarrow> string \<Rightarrow> string option \<Rightarrow> node_view option hact" where
  "create_node env hex now kind name p =
     seqA (require (kind \<in> set HIERARCHY_KINDS)
             (Hierarchy_error ''hierarchy kind must be one of: area, project, collection''))
     (bindA (of_result (normalise_node_name env name)) (\<lambda>selected.
      bindA (hierarchy_state env) (\<lambda>(ns, _).
      seqA (require (case p of None \<Rightarrow> True | Some q \<Rightarrow> map_of ns q \<noteq> None)
              (Not_found (''hierarchy node not found: '' @ (case p of None \<Rightarrow> [] | Some q \<Rightarrow> q))))
      (seqA (validate_parent_kind kind p ns)
      (seqA (case p of
               None \<Rightarrow> ret ()
             | Some q \<Rightarrow> bindA (of_result (lineage ns q)) (\<lambda>line.
                 require (\<not> length line \<ge> MAX_HIERARCHY_DEPTH)
                   (Conflict ''hierarchy creation exceeds the 64-level limit'')))
      (let i = kind @ ''_'' @ hex in
       bindA (of_result (portable_node_slug env selected i kind)) (\<lambda>slug.
       seqA (write_node (new_node i kind selected slug p now now)) (get_node env i))))))))"

definition rename_node ::
  "hierarchy_env \<Rightarrow> string \<Rightarrow> string \<Rightarrow> string \<Rightarrow> node_view option hact" where
  "rename_node env now i name =
     bindA (of_result (normalise_node_name env name)) (\<lambda>selected.
     bindA (hierarchy_state env) (\<lambda>(ns, _).
       case map_of ns i of
         None \<Rightarrow> raise (Not_found (''hierarchy node not found: '' @ i))
       | Some v \<Rightarrow>
           if nd_name v = JStr selected then get_node env i
           else bindA (of_result (portable_node_slug env selected i (str_of (nd_kind v)))) (\<lambda>slug.
                seqA (write_node (new_node i (str_of (nd_kind v)) selected slug (parent_of v)
                        (str_of (nd_created v)) now))
                  (get_node env i))))"

definition move_checks ::
  "hierarchy_env \<Rightarrow> nodes \<Rightarrow> string \<Rightarrow> string \<Rightarrow> unit hact" where
  "move_checks env ns i q =
     bindA (of_result (descendant_ids env ns i)) (\<lambda>ds.
     seqA (require (q \<notin> ds) (Conflict ''hierarchy movement would create a cycle''))
     (bindA (of_result (lineage ns q)) (\<lambda>line.
      bindA (of_result (subtree_height env ns i)) (\<lambda>h.
        require (\<not> length line + h > MAX_HIERARCHY_DEPTH)
          (Conflict ''hierarchy movement exceeds the 64-level limit'')))))"

definition move_node ::
  "hierarchy_env \<Rightarrow> string \<Rightarrow> string \<Rightarrow> string option \<Rightarrow> node_view option hact" where
  "move_node env now i p =
     bindA (hierarchy_state env) (\<lambda>(ns, _).
       case map_of ns i of
         None \<Rightarrow> raise (Not_found (''hierarchy node not found: '' @ i))
       | Some v \<Rightarrow>
           seqA (require (case p of None \<Rightarrow> True | Some q \<Rightarrow> map_of ns q \<noteq> None)
                   (Not_found (''hierarchy node not found: '' @ (case p of None \<Rightarrow> [] | Some q \<Rightarrow> q))))
           (seqA (require (p \<noteq> Some i) (Conflict ''hierarchy node cannot be its own parent''))
           (seqA (validate_parent_kind (str_of (nd_kind v)) p ns)
           (seqA (case p of None \<Rightarrow> ret () | Some q \<Rightarrow> move_checks env ns i q)
           (if nd_parent v = json_parent p then get_node env i
            else seqA (write_node (new_node i (str_of (nd_kind v)) (str_of (nd_name v)) (str_of (nd_slug v)) p
                         (str_of (nd_created v)) now))
                   (get_node env i))))))"

section \<open>Classifying documents\<close>

definition existing_edge :: "hierarchy_env \<Rightarrow> string \<Rightarrow> string \<times> string \<Rightarrow> hstore \<Rightarrow> edge option" where
  "existing_edge env d = (\<lambda>(rel, n) s. map_of (hs_edges s) (classification_edge_id env d rel n))"

definition check_edge :: "hierarchy_env \<Rightarrow> string \<Rightarrow> string \<times> string \<Rightarrow> unit hact" where
  "check_edge env d a =
     bindA (reads (existing_edge env d a)) (\<lambda>e.
       require (case e of None \<Rightarrow> True | Some x \<Rightarrow> edge_matches d (fst a) (snd a) x)
         (Integrity ''deterministic classification provenance edge is invalid''))"

definition new_edge :: "hierarchy_env \<Rightarrow> string \<Rightarrow> string \<times> string \<Rightarrow> string \<Rightarrow> edge" where
  "new_edge env d a now =
     \<lparr>ed_id = JStr (classification_edge_id env d (fst a) (snd a)), ed_from_kind = JStr ''document'',
      ed_from = JStr d, ed_relation = JStr (fst a), ed_to_kind = JStr ''hierarchy_node'',
      ed_to = JStr (snd a), ed_created = JStr now\<rparr>"

text \<open>The edges to write are those that were missing before the classification was written.\<close>

definition write_edge ::
  "hierarchy_env \<Rightarrow> string \<Rightarrow> string \<Rightarrow> hstore \<Rightarrow> string \<times> string \<Rightarrow> unit hact" where
  "write_edge env d now earlier a =
     (if existing_edge env d a earlier \<noteq> None then ret () else write_provenance (new_edge env d a now))"

definition new_classification ::
  "string \<Rightarrow> string \<Rightarrow> string \<Rightarrow> string list \<Rightarrow> string \<Rightarrow> string \<Rightarrow> classification" where
  "new_classification i d primary ss created updated =
     \<lparr>cl_schema = JInt 1, cl_id = JStr i, cl_document = JStr d, cl_primary = JStr primary,
      cl_secondary = JList (map JStr ss), cl_created = JStr created, cl_updated = JStr updated\<rparr>"

record class_view =
  cv_class :: classification
  cv_primary :: "node list"
  cv_secondary :: "node list list"

definition classification_view :: "nodes \<Rightarrow> classification \<Rightarrow> hierarchy_error + class_view" where
  "classification_view ns c =
     (case lineage ns (str_of (cl_primary c)) of
        Inl e \<Rightarrow> Inl e
      | Inr primary \<Rightarrow>
          (case collect (lineage ns) (class_secondary c) of
             Inl e \<Rightarrow> Inl e
           | Inr seconds \<Rightarrow> Inr \<lparr>cv_class = c, cv_primary = primary, cv_secondary = seconds\<rparr>))"

definition classification_views :: "hierarchy_env \<Rightarrow> (string \<times> class_view) list hact" where
  "classification_views env =
     bindA (hierarchy_state env) (\<lambda>(ns, cs).
     bindA (of_result (collect (classification_view ns) (map snd cs))) (\<lambda>vs.
       ret (map (\<lambda>v. (str_of (cl_document (cv_class v)), v)) vs)))"

definition get_classification :: "hierarchy_env \<Rightarrow> string \<Rightarrow> class_view option hact" where
  "get_classification env d =
     bindA (classification_views env) (\<lambda>vs. ret (map_of (rev vs) d))"

definition classified_as :: "classification \<Rightarrow> string \<Rightarrow> string list \<Rightarrow> bool" where
  "classified_as c primary ss \<longleftrightarrow> cl_primary c = JStr primary \<and> secondary_ids (cl_secondary c) = Some ss"

definition store_classification ::
  "hierarchy_env \<Rightarrow> string \<Rightarrow> string \<Rightarrow> string \<Rightarrow> string list \<Rightarrow> string \<Rightarrow> classification option \<Rightarrow> unit hact" where
  "store_classification env now d primary ss i existing =
     bindA (reads id) (\<lambda>earlier.
     (case existing of
        Some c \<Rightarrow>
          if classified_as c primary ss
          then for_each (write_edge env d (str_of (cl_updated c)) earlier) (associations primary ss)
          else seqA (write_classification (new_classification i d primary ss (str_of (cl_created c)) now))
                 (for_each (write_edge env d now earlier) (associations primary ss))
      | None \<Rightarrow>
          seqA (write_classification (new_classification i d primary ss now now))
            (for_each (write_edge env d now earlier) (associations primary ss))))"

definition classify_document ::
  "hierarchy_env \<Rightarrow> string \<Rightarrow> string \<Rightarrow> string \<Rightarrow> string list \<Rightarrow> class_view option hact" where
  "classify_document env now d primary secondary =
     bindA (hierarchy_state env) (\<lambda>(ns, cs).
     bindA (reads hs_docs) (\<lambda>docs.
     seqA (require (d \<in> set docs) (Not_found (''document not found: '' @ d)))
     (seqA (require (map_of ns primary \<noteq> None) (Not_found (''hierarchy node not found: '' @ primary)))
     (let ss = sort (remdups secondary); missing = filter (\<lambda>x. map_of ns x = None) ss in
      seqA (require (primary \<notin> set ss)
              (Conflict ''primary hierarchy node cannot also be a secondary association''))
      (seqA (require (missing = []) (Not_found (''hierarchy node not found: '' @ hd missing)))
      (seqA (for_each (check_edge env d) (associations primary ss))
      (bindA (of_result (classification_id env d)) (\<lambda>i.
       seqA (store_classification env now d primary ss i (map_of cs i)) (get_classification env d)))))))))"

definition document_ids_for_node :: "hierarchy_env \<Rightarrow> string \<Rightarrow> bool \<Rightarrow> string set hact" where
  "document_ids_for_node env i below =
     bindA (hierarchy_state env) (\<lambda>(ns, cs).
     seqA (require (map_of ns i \<noteq> None) (Not_found (''hierarchy node not found: '' @ i)))
     (bindA (if below then of_result (descendant_ids env ns i) else ret {i}) (\<lambda>selected.
        ret (set (map (\<lambda>c. str_of (cl_document c))
          (filter (\<lambda>c. \<exists>x \<in> set (str_of (cl_primary c) # class_secondary c). x \<in> selected) (map snd cs)))))))"

end
