(* ===== verification/Hierarchy_Forest.thy ===== *)
theory Hierarchy_Forest
  imports Hierarchy
begin

text \<open>
  The forest: the chain of a node up to its root, the reachability of an ancestor, and the
  proofs that the loops of the hierarchy compute them. A stored state without chain faults is a
  forest of bounded depth, on which every loop ends.
\<close>

section \<open>Chains\<close>

inductive rooted :: "nodes \<Rightarrow> string \<Rightarrow> node list \<Rightarrow> bool" for ns where
  root: "map_of ns i = Some v \<Longrightarrow> parent_of v = None \<Longrightarrow> rooted ns i [v]"
| step: "map_of ns i = Some v \<Longrightarrow> parent_of v = Some p \<Longrightarrow> rooted ns p vs \<Longrightarrow> rooted ns i (v # vs)"

inductive_cases rootedE: "rooted ns i vs"

inductive reaches :: "nodes \<Rightarrow> string \<Rightarrow> string \<Rightarrow> bool" for ns where
  self: "map_of ns i \<noteq> None \<Longrightarrow> reaches ns i i"
| up: "map_of ns i = Some v \<Longrightarrow> parent_of v = Some p \<Longrightarrow> reaches ns p a \<Longrightarrow> reaches ns i a"

inductive_cases reachesE: "reaches ns i a"

lemma rooted_unique: "rooted ns i vs \<Longrightarrow> rooted ns i ws \<Longrightarrow> vs = ws"
proof (induction arbitrary: ws rule: rooted.induct)
  case (root i v)
  from root.prems show ?case by (cases rule: rootedE) (use root.hyps in auto)
next
  case (step i v p vs)
  from step.prems obtain us where "ws = v # us" "rooted ns p us"
    by (cases rule: rootedE) (use step.hyps in auto)
  with step.IH [of us] show ?case by simp
qed

lemma rooted_nonempty: "rooted ns i vs \<Longrightarrow> vs \<noteq> []"
  by (cases rule: rootedE) auto

lemma rooted_here: "rooted ns i vs \<Longrightarrow> map_of ns i = Some (hd vs)"
  by (cases rule: rootedE) auto

definition dep :: "nodes \<Rightarrow> string \<Rightarrow> nat" where
  "dep ns i = (case lineage ns i of Inl _ \<Rightarrow> 0 | Inr l \<Rightarrow> length l)"

lemma lineage_loop_rooted: "rooted ns i vs \<Longrightarrow> lineage_loop ns acc i = Some (Inr (acc @ vs))"
  by (induction arbitrary: acc rule: rooted.induct) (simp_all add: lineage_loop.simps)

lemma lineage_rooted: "rooted ns i vs \<Longrightarrow> lineage ns i = Inr (rev vs)"
  by (simp add: lineage_def lineage_loop_rooted ended_def)

lemma dep_rooted: "rooted ns i vs \<Longrightarrow> dep ns i = length vs"
  by (simp add: dep_def lineage_rooted)

section \<open>Forests\<close>

definition forest :: "nodes \<Rightarrow> bool" where
  "forest ns \<longleftrightarrow> (\<forall>i v. map_of ns i = Some v \<longrightarrow> (\<exists>vs. rooted ns i vs \<and> length vs \<le> MAX_HIERARCHY_DEPTH))"

text \<open>Every parent is a node.\<close>

definition closed_up :: "nodes \<Rightarrow> bool" where
  "closed_up ns \<longleftrightarrow> (\<forall>i v p. map_of ns i = Some v \<longrightarrow> parent_of v = Some p \<longrightarrow> map_of ns p \<noteq> None)"

lemma forest_closed: "forest ns \<Longrightarrow> closed_up ns"
  unfolding forest_def closed_up_def by (metis option.distinct(1) rootedE rooted_here option.inject)

lemma forestD:
  assumes "forest ns" and "map_of ns i \<noteq> None"
  obtains vs where "rooted ns i vs" and "length vs \<le> 64" and "dep ns i = length vs" and "lineage ns i = Inr (rev vs)"
  using assms dep_rooted lineage_rooted unfolding forest_def MAX_HIERARCHY_DEPTH_def by (metis option.exhaust)

lemma dep_step:
  assumes "forest ns" and "map_of ns i = Some v" and "parent_of v = Some p"
  shows "dep ns i = Suc (dep ns p)" and "map_of ns p \<noteq> None"
proof -
  from assms(1,2) obtain vs where vs: "rooted ns i vs" by (auto simp: forest_def)
  then obtain ws where ws: "rooted ns p ws" "vs = v # ws"
    using assms(2,3) by (cases rule: rootedE) auto
  then show "dep ns i = Suc (dep ns p)" "map_of ns p \<noteq> None"
    using vs dep_rooted rooted_here by fastforce+
qed

lemma dep_root:
  assumes "map_of ns i = Some v" and "parent_of v = None"
  shows "dep ns i = 1"
  using dep_rooted [OF root [OF assms]] by simp

lemma dep_bound: "forest ns \<Longrightarrow> map_of ns i \<noteq> None \<Longrightarrow> 1 \<le> dep ns i \<and> dep ns i \<le> 64"
  by (erule (1) forestD) (use rooted_nonempty in \<open>fastforce simp: Suc_le_eq\<close>)

lemma reaches_dom: "reaches ns i a \<Longrightarrow> map_of ns i \<noteq> None \<and> map_of ns a \<noteq> None"
  by (induction rule: reaches.induct) auto

lemma reaches_dep: "reaches ns i a \<Longrightarrow> forest ns \<Longrightarrow> dep ns a \<le> dep ns i \<and> (dep ns a = dep ns i \<longrightarrow> a = i)"
  by (induction rule: reaches.induct) (auto simp: dep_step)

lemma reaches_trans: "reaches ns i a \<Longrightarrow> reaches ns a b \<Longrightarrow> reaches ns i b"
  by (induction rule: reaches.induct) (auto intro: up)

text \<open>Below a node are the node itself and what is below its children.\<close>

lemma reaches_last:
  assumes "reaches ns d a" and "d \<noteq> a"
  shows "\<exists>c v. map_of ns c = Some v \<and> parent_of v = Some a \<and> reaches ns d c"
  using assms
proof (induction rule: reaches.induct)
  case (up i v p a)
  show ?case
  proof (cases "p = a")
    case True
    with up.hyps show ?thesis using self [of ns i] by blast
  next
    case False
    with up.IH up.hyps show ?thesis using reaches.up by blast
  qed
qed simp

lemma reaches_below:
  "map_of ns c = Some v \<Longrightarrow> parent_of v = Some a \<Longrightarrow> map_of ns a \<noteq> None \<Longrightarrow> reaches ns d c \<Longrightarrow> reaches ns d a"
  using reaches_trans up self by blast

section \<open>The validator's walk\<close>

lemma chain_walk_rooted:
  assumes "chain_walk ns left seen (Some i) = None" and "closed_up ns" and "map_of ns i \<noteq> None"
  shows "\<exists>vs. rooted ns i vs \<and> length vs \<le> left"
  using assms(1,3)
proof (induction left arbitrary: seen i)
  case 0
  then show ?case by (auto split: if_splits)
next
  case (Suc l)
  then obtain v where v: "map_of ns i = Some v" by auto
  with Suc.prems(1) have rest: "chain_walk ns l (i # seen) (parent_of v) = None"
    by (auto split: if_splits)
  show ?case
  proof (cases "parent_of v")
    case None
    with v root [of ns i v] show ?thesis by fastforce
  next
    case (Some p)
    with v assms(2) have "map_of ns p \<noteq> None" by (auto simp: closed_up_def)
    with Suc.IH [of "i # seen" p] rest Some obtain vs where "rooted ns p vs" "length vs \<le> l" by auto
    with v Some step [of ns i v p vs] show ?thesis by fastforce
  qed
qed

lemma rooted_chain_walk:
  assumes "rooted ns i vs" and "length vs \<le> left" and "\<forall>c \<in> set seen. \<exists>ws. rooted ns c ws \<and> length vs < length ws"
  shows "chain_walk ns left seen (Some i) = None"
  using assms
proof (induction arbitrary: left seen rule: rooted.induct)
  case (root i v)
  have "i \<notin> set seen"
  proof
    assume "i \<in> set seen"
    then obtain ws where "rooted ns i ws" "length [v] < length ws" using root.prems(2) by blast
    with rooted_unique [OF rooted.root [OF root.hyps]] show False by fastforce
  qed
  with root show ?case by (cases left) auto
next
  case (step i v p vs)
  have "i \<notin> set seen"
  proof
    assume "i \<in> set seen"
    then obtain ws where "rooted ns i ws" "length (v # vs) < length ws" using step.prems(2) by blast
    with rooted_unique [OF rooted.step [OF step.hyps]] show False by fastforce
  qed
  moreover have "\<forall>c \<in> set (i # seen). \<exists>ws. rooted ns c ws \<and> length vs < length ws"
    using step.prems(2) rooted.step [OF step.hyps] by fastforce
  moreover obtain l where "left = Suc l" "length vs \<le> l" using step.prems(1) by (cases left) auto
  ultimately show ?case using step.IH [of l "i # seen"] step.hyps by simp
qed

lemma forest_chain:
  "closed_up ns \<Longrightarrow> forest ns \<longleftrightarrow> (\<forall>i v. map_of ns i = Some v \<longrightarrow> chain_walk ns MAX_HIERARCHY_DEPTH [] (Some i) = None)"
  unfolding forest_def
  using chain_walk_rooted [where seen = "[]"] rooted_chain_walk [where seen = "[]"]
  by (metis empty_iff empty_set option.distinct(1))

section \<open>The walks down\<close>

definition keyed_nodes :: "nodes \<Rightarrow> bool" where
  "keyed_nodes ns \<longleftrightarrow> distinct (map fst ns) \<and> (\<forall>(i, v) \<in> set ns. str_of (nd_id v) = i)"

lemma keyed_look: "keyed_nodes ns \<Longrightarrow> map_of ns i = Some v \<longleftrightarrow> v \<in> snd ` set ns \<and> str_of (nd_id v) = i"
  by (force simp: keyed_nodes_def dest: map_of_SomeD intro: map_of_is_SomeI)

lemma keyed_id: "keyed_nodes ns \<Longrightarrow> map_of ns i = Some v \<Longrightarrow> str_of (nd_id v) = i"
  by (simp add: keyed_look)

lemma set_children: "set (children env ns p) = {v \<in> snd ` set ns. parent_of v = p}"
  by (auto simp: children_def)

lemma child_ids_iff:
  assumes "keyed_nodes ns"
  shows "c \<in> set (child_ids env ns p) \<longleftrightarrow> (\<exists>v. map_of ns c = Some v \<and> parent_of v = Some p)"
  using keyed_look [OF assms] by (force simp: child_ids_def set_children)

definition beneath :: "nodes \<Rightarrow> string \<Rightarrow> string set" where
  "beneath ns i = {d. reaches ns d i \<and> d \<noteq> i}"

lemma beneath_children:
  assumes "keyed_nodes ns" and "forest ns" and "map_of ns i \<noteq> None"
  shows "beneath ns i = (\<Union>c \<in> set (child_ids env ns i). insert c (beneath ns c))"
proof (rule set_eqI)
  fix d
  show "d \<in> beneath ns i \<longleftrightarrow> d \<in> (\<Union>c \<in> set (child_ids env ns i). insert c (beneath ns c))"
  proof
    assume "d \<in> beneath ns i"
    then obtain c v where c: "map_of ns c = Some v" "parent_of v = Some i" "reaches ns d c"
      using reaches_last [of ns d i] by (auto simp: beneath_def)
    then have "c \<in> set (child_ids env ns i)" using child_ids_iff [OF assms(1)] by blast
    with c(3) show "d \<in> (\<Union>c \<in> set (child_ids env ns i). insert c (beneath ns c))"
      by (auto simp: beneath_def)
  next
    assume "d \<in> (\<Union>c \<in> set (child_ids env ns i). insert c (beneath ns c))"
    then obtain c where "c \<in> set (child_ids env ns i)" and d: "d = c \<or> reaches ns d c"
      by (auto simp: beneath_def)
    then obtain v where v: "map_of ns c = Some v" "parent_of v = Some i"
      using child_ids_iff [OF assms(1)] by blast
    then have dc: "reaches ns d c" using d self [of ns c] by auto
    have "dep ns d \<ge> Suc (dep ns i)"
      using reaches_dep [OF dc assms(2)] dep_step [OF assms(2) v] by simp
    then show "d \<in> beneath ns i"
      using reaches_below [OF v assms(3) dc] by (auto simp: beneath_def)
  qed
qed

lemma collect_one:
  assumes key: "keyed_nodes ns" and ft: "forest ns"
  shows "map_of ns i \<noteq> None \<Longrightarrow>
    collect_descendants env ns sel (i # rest) = collect_descendants env ns (sel \<union> beneath ns i) rest"
proof (induction "64 - dep ns i" arbitrary: i sel rest rule: less_induct)
  case less
  have kid: "map_of ns c \<noteq> None \<and> 64 - dep ns c < 64 - dep ns i" if "c \<in> set (child_ids env ns i)" for c
  proof -
    obtain v where v: "map_of ns c = Some v" "parent_of v = Some i"
      using \<open>c \<in> _\<close> child_ids_iff [OF key] by blast
    then have "dep ns c = Suc (dep ns i)" by (rule dep_step [OF ft])
    moreover have "dep ns c \<le> 64" using dep_bound [OF ft] v by simp
    ultimately show ?thesis using v by simp
  qed
  have each: "collect_descendants env ns s (ks @ rest) =
      collect_descendants env ns (s \<union> (\<Union>c \<in> set ks. beneath ns c)) rest"
    if "set ks \<subseteq> set (child_ids env ns i)" for s ks
    using that
  proof (induction ks arbitrary: s)
    case Nil
    then show ?case by simp
  next
    case (Cons k ks)
    then have "collect_descendants env ns s (k # (ks @ rest)) =
        collect_descendants env ns (s \<union> beneath ns k) (ks @ rest)"
      using kid [of k] by (intro less.hyps) auto
    with Cons show ?case by (simp add: Un_assoc)
  qed
  have "collect_descendants env ns sel (i # rest) =
      collect_descendants env ns (sel \<union> set (child_ids env ns i)) (rev (child_ids env ns i) @ rest)"
    by (subst collect_descendants.simps) simp
  also have "\<dots> = collect_descendants env ns
      (sel \<union> set (child_ids env ns i) \<union> (\<Union>c \<in> set (child_ids env ns i). beneath ns c)) rest"
    using each [of "rev (child_ids env ns i)"] by simp
  also have "sel \<union> set (child_ids env ns i) \<union> (\<Union>c \<in> set (child_ids env ns i). beneath ns c) = sel \<union> beneath ns i"
    unfolding beneath_children [OF key ft less.prems, of env] by blast
  finally show ?case .
qed

lemma descendant_ids_forest:
  assumes "keyed_nodes ns" and "forest ns" and "map_of ns i \<noteq> None"
  shows "descendant_ids env ns i = Inr {d. reaches ns d i}"
proof -
  have "collect_descendants env ns {i} [i] = Some ({i} \<union> beneath ns i)"
    using collect_one [OF assms, of env "{i}" "[]"] by (simp add: collect_descendants.simps)
  moreover have "{i} \<union> beneath ns i = {d. reaches ns d i}"
    using self [OF assms(3)] by (auto simp: beneath_def)
  ultimately show ?thesis by (simp add: descendant_ids_def ended_def)
qed

text \<open>The deepest level below a node, counted from \<open>d\<close> at the node itself.\<close>

definition deepest :: "nodes \<Rightarrow> string \<Rightarrow> nat \<Rightarrow> nat \<Rightarrow> bool" where
  "deepest ns i d m \<longleftrightarrow> (\<forall>x. reaches ns x i \<longrightarrow> d + (dep ns x - dep ns i) \<le> m)
     \<and> (\<exists>x. reaches ns x i \<and> m = d + (dep ns x - dep ns i))"

lemma deepest_children:
  assumes key: "keyed_nodes ns" and ft: "forest ns" and i: "map_of ns i \<noteq> None"
    and kids: "\<And>c. c \<in> set (child_ids env ns i) \<Longrightarrow> deepest ns c (Suc d) (m c)"
  shows "deepest ns i d (Max (insert d (m ` set (child_ids env ns i))))"
proof -
  let ?K = "set (child_ids env ns i)" and ?M = "Max (insert d (m ` set (child_ids env ns i)))"
  have level: "dep ns c = Suc (dep ns i)" if c: "c \<in> ?K" for c
  proof -
    obtain v where v: "map_of ns c = Some v" "parent_of v = Some i"
      using c child_ids_iff [OF key] by blast
    then show ?thesis by (rule dep_step [OF ft])
  qed
  have shift: "Suc d + (dep ns x - dep ns c) = d + (dep ns x - dep ns i)" if "c \<in> ?K" "reaches ns x c" for c x
    using level [OF that(1)] conjunct1 [OF reaches_dep [OF that(2) ft]] by arith
  have "d + (dep ns x - dep ns i) \<le> ?M" if x: "reaches ns x i" for x
  proof (cases "x = i")
    case True
    then show ?thesis by simp
  next
    case False
    with x have "x \<in> beneath ns i" by (simp add: beneath_def)
    then obtain c where c: "c \<in> ?K" "x = c \<or> reaches ns x c"
      unfolding beneath_children [OF key ft i, of env] by (auto simp: beneath_def)
    then obtain v where "map_of ns c = Some v" using child_ids_iff [OF key] by blast
    then have xc: "reaches ns x c" using c(2) self [of ns c] by auto
    then have "Suc d + (dep ns x - dep ns c) \<le> m c" using kids [OF c(1)] by (simp add: deepest_def)
    then have "d + (dep ns x - dep ns i) \<le> m c" unfolding shift [OF c(1) xc] .
    also have "m c \<le> ?M" using c(1) by simp
    finally show ?thesis .
  qed
  moreover have "\<exists>x. reaches ns x i \<and> ?M = d + (dep ns x - dep ns i)"
  proof -
    have "?M \<in> insert d (m ` ?K)" by (rule Max_in) auto
    then consider "?M = d" | c where "c \<in> ?K" "?M = m c" by blast
    then show ?thesis
    proof cases
      case 1
      then show ?thesis using self [OF i] by (intro exI [of _ i]) simp
    next
      case 2
      then obtain x where x: "reaches ns x c" "m c = Suc d + (dep ns x - dep ns c)"
        using kids by (auto simp: deepest_def)
      moreover obtain v where "map_of ns c = Some v" "parent_of v = Some i"
        using 2(1) child_ids_iff [OF key] by blast
      ultimately show ?thesis using shift [OF 2(1) x(1)] reaches_below [of ns c v i x] i 2(2) by auto
    qed
  qed
  ultimately show ?thesis by (simp add: deepest_def)
qed

lemma measure_one:
  assumes key: "keyed_nodes ns" and ft: "forest ns"
  shows "map_of ns i \<noteq> None \<Longrightarrow> \<exists>m. deepest ns i d m \<and>
    (\<forall>h rest. measure_height env ns h ((i, d) # rest) = measure_height env ns (max h m) rest)"
proof (induction "64 - dep ns i" arbitrary: i d rule: less_induct)
  case less
  let ?K = "child_ids env ns i"
  have "\<exists>m. deepest ns c (Suc d) m \<and>
      (\<forall>h rest. measure_height env ns h ((c, Suc d) # rest) = measure_height env ns (max h m) rest)"
    if c: "c \<in> set ?K" for c
  proof -
    obtain v where v: "map_of ns c = Some v" "parent_of v = Some i"
      using c child_ids_iff [OF key] by blast
    then have "dep ns c = Suc (dep ns i)" by (rule dep_step [OF ft])
    moreover have "dep ns c \<le> 64" using dep_bound [OF ft] v by simp
    ultimately show ?thesis using v by (intro less.hyps) simp_all
  qed
  then obtain m where m: "\<And>c. c \<in> set ?K \<Longrightarrow> deepest ns c (Suc d) (m c)"
    "\<And>c h rest. c \<in> set ?K \<Longrightarrow>
       measure_height env ns h ((c, Suc d) # rest) = measure_height env ns (max h (m c)) rest"
    by metis
  have each: "measure_height env ns h (map (\<lambda>c. (c, Suc d)) ks @ rest) =
      measure_height env ns (Max (insert h (m ` set ks))) rest" if "set ks \<subseteq> set ?K" for h ks rest
    using that
  proof (induction ks arbitrary: h)
    case Nil
    then show ?case by simp
  next
    case (Cons k ks)
    then have "Max (insert h (m ` set (k # ks))) = Max (insert (max h (m k)) (m ` set ks))"
      by (cases "ks = []") (simp_all add: max.assoc max.left_commute)
    with Cons m(2) [of k] show ?case by simp
  qed
  have "measure_height env ns h ((i, d) # rest) =
      measure_height env ns (max h (Max (insert d (m ` set ?K)))) rest" for h rest
  proof -
    have "measure_height env ns h ((i, d) # rest) =
        measure_height env ns (max h d) (map (\<lambda>c. (c, Suc d)) (rev ?K) @ rest)"
      by (subst measure_height.simps) (simp add: rev_map)
    also have "\<dots> = measure_height env ns (Max (insert (max h d) (m ` set ?K))) rest"
      using each [of "rev ?K"] by simp
    also have "Max (insert (max h d) (m ` set ?K)) = max h (Max (insert d (m ` set ?K)))"
      by (cases "?K = []") (simp_all add: max.assoc)
    finally show ?thesis .
  qed
  then show ?case using deepest_children [OF key ft less.prems m(1)] by blast
qed

lemma subtree_height_forest:
  assumes "keyed_nodes ns" and "forest ns" and "map_of ns i \<noteq> None"
  obtains m where "subtree_height env ns i = Inr m" and "deepest ns i 1 m"
proof -
  obtain m where "deepest ns i 1 m" "measure_height env ns 0 [(i, 1)] = measure_height env ns (max 0 m) []"
    using measure_one [OF assms, of 1 env] by blast
  with that show thesis by (simp add: subtree_height_def ended_def measure_height.simps)
qed

end
