(* ===== verification/Hierarchy_Valid.thy ===== *)
theory Hierarchy_Valid
  imports Hierarchy_Forest
begin

text \<open>
  Validity of a stored hierarchy, split into the parts that the operations touch: the records,
  the parent relation (closed, of allowed kinds, a forest of bounded depth) and the
  classifications, which depend on the nodes only through their identities.
\<close>

section \<open>The parts of validity\<close>

definition records_ok :: "hierarchy_env \<Rightarrow> nodes \<Rightarrow> bool" where
  "records_ok env ns \<longleftrightarrow> (\<forall>i v. (i, v) \<in> set ns \<longrightarrow> node_record_errors env i v = [])"

definition kinds_ok :: "nodes \<Rightarrow> bool" where
  "kinds_ok ns \<longleftrightarrow> (\<forall>i v p w. map_of ns i = Some v \<longrightarrow> parent_of v = Some p \<longrightarrow> map_of ns p = Some w \<longrightarrow>
     str_of (nd_kind w) \<in> set (ALLOWED_PARENT_KINDS (str_of (nd_kind v))))"

definition classes_ok :: "hierarchy_env \<Rightarrow> nodes \<Rightarrow> string list \<Rightarrow> classifications \<Rightarrow> bool" where
  "classes_ok env ns docs cs \<longleftrightarrow> (\<forall>ic \<in> set cs. classification_errors env ns docs ic = [])"

definition valid :: "hierarchy_env \<Rightarrow> hstore \<Rightarrow> bool" where
  "valid env s \<longleftrightarrow> distinct (map fst (hs_nodes s)) \<and> distinct (map fst (hs_classes s)) \<and> state_errors env s = []"

lemma when_fault_nil [simp]: "when_fault b c m p = [] \<longleftrightarrow> \<not> b"
  by (simp add: when_fault_def)

lemma sound_all: "records_ok env ns \<Longrightarrow> sound_nodes env ns = ns"
  by (auto simp: sound_nodes_def records_ok_def filter_id_conv)

lemma mem_look: "distinct (map fst ns) \<Longrightarrow> (i, v) \<in> set ns \<longleftrightarrow> map_of ns i = Some v"
  by (auto intro: map_of_is_SomeI dest: map_of_SomeD)

lemma ball_look: "distinct (map fst ns) \<Longrightarrow> (\<forall>x \<in> set ns. P x) \<longleftrightarrow> (\<forall>i v. map_of ns i = Some v \<longrightarrow> P (i, v))"
  using mem_look [of ns] by (metis surj_pair)

lemma parent_faults_nil:
  assumes "distinct (map fst ns)"
  shows "concat (map (parent_faults ns) ns) = [] \<longleftrightarrow> closed_up ns \<and> kinds_ok ns"
proof -
  have one: "parent_faults ns (i, v) = [] \<longleftrightarrow> (\<forall>p. parent_of v = Some p \<longrightarrow> (\<exists>w. map_of ns p = Some w
      \<and> str_of (nd_kind w) \<in> set (ALLOWED_PARENT_KINDS (str_of (nd_kind v)))))" for i v
    by (cases "parent_of v"; cases "map_of ns (the (parent_of v))") (auto simp: parent_faults_def)
  have "concat (map (parent_faults ns) ns) = [] \<longleftrightarrow> (\<forall>x \<in> set ns. parent_faults ns x = [])" by simp
  also have "\<dots> \<longleftrightarrow> (\<forall>i v. map_of ns i = Some v \<longrightarrow> parent_faults ns (i, v) = [])"
    by (rule ball_look [OF assms])
  also have "\<dots> \<longleftrightarrow> closed_up ns \<and> kinds_ok ns"
    unfolding one closed_up_def kinds_ok_def by fastforce
  finally show ?thesis .
qed

lemma chain_faults_nil: "chain_faults ns i = [] \<longleftrightarrow> chain_walk ns MAX_HIERARCHY_DEPTH [] (Some i) = None"
  by (auto simp: chain_faults_def split: option.splits chain_fault.splits)

lemma state_errors_nil:
  assumes "distinct (map fst (hs_nodes s))"
  shows "state_errors env s = [] \<longleftrightarrow>
    records_ok env (hs_nodes s) \<and> kinds_ok (hs_nodes s) \<and> forest (hs_nodes s)
    \<and> classes_ok env (hs_nodes s) (hs_docs s) (hs_classes s)"
proof -
  let ?ns = "hs_nodes s"
  have rec: "concat (map (\<lambda>(i, v). node_record_errors env i v) ?ns) = [] \<longleftrightarrow> records_ok env ?ns"
    by (auto simp: records_ok_def)
  have chain: "concat (map (\<lambda>(i, v). chain_faults ?ns i) ?ns) = [] \<longleftrightarrow>
      (\<forall>i v. map_of ?ns i = Some v \<longrightarrow> chain_walk ?ns MAX_HIERARCHY_DEPTH [] (Some i) = None)"
  proof -
    have "concat (map (\<lambda>(i, v). chain_faults ?ns i) ?ns) = [] \<longleftrightarrow> (\<forall>x \<in> set ?ns. chain_faults ?ns (fst x) = [])"
      by (simp add: case_prod_beta)
    then show ?thesis unfolding ball_look [OF assms] chain_faults_nil fst_conv .
  qed
  have cls: "concat (map (classification_errors env ?ns (hs_docs s)) (hs_classes s)) = [] \<longleftrightarrow>
      classes_ok env ?ns (hs_docs s) (hs_classes s)"
    by (auto simp: classes_ok_def)
  show ?thesis
  proof (cases "records_ok env ?ns")
    case True
    then have "state_errors env s = [] \<longleftrightarrow> closed_up ?ns \<and> kinds_ok ?ns
        \<and> (\<forall>i v. map_of ?ns i = Some v \<longrightarrow> chain_walk ?ns MAX_HIERARCHY_DEPTH [] (Some i) = None)
        \<and> classes_ok env ?ns (hs_docs s) (hs_classes s)"
      unfolding state_errors_def canonical_hierarchy_errors_def Let_def sound_all [OF True] append_is_Nil_conv
        rec parent_faults_nil [OF assms] chain cls by blast
    then show ?thesis using True forest_chain [of ?ns] forest_closed [of ?ns] by blast
  next
    case False
    with rec show ?thesis by (simp add: state_errors_def canonical_hierarchy_errors_def Let_def)
  qed
qed

lemma validD:
  assumes "valid env s"
  shows "records_ok env (hs_nodes s)" and "kinds_ok (hs_nodes s)" and "forest (hs_nodes s)"
    and "classes_ok env (hs_nodes s) (hs_docs s) (hs_classes s)" and "distinct (map fst (hs_nodes s))"
    and "distinct (map fst (hs_classes s))" and "state_errors env s = []"
  using assms state_errors_nil by (auto simp: valid_def)

lemma validI:
  assumes "distinct (map fst (hs_nodes s))" and "distinct (map fst (hs_classes s))"
    and "records_ok env (hs_nodes s)" and "kinds_ok (hs_nodes s)" and "forest (hs_nodes s)"
    and "classes_ok env (hs_nodes s) (hs_docs s) (hs_classes s)"
  shows "valid env s"
  using assms state_errors_nil by (auto simp: valid_def)

lemma valid_state: "valid env s \<Longrightarrow> hierarchy_state env s = (Inr (hs_nodes s, hs_classes s), s)"
  by (simp add: hierarchy_state_def validD)

section \<open>Records\<close>

lemma is_text_str [simp]: "is_text j \<Longrightarrow> JStr (str_of j) = j"
  by (cases j) auto

lemma record_parts:
  assumes "node_record_errors env i v = []"
  shows "is_one (nd_schema v)" and "node_id_ok i" and "nd_id v = JStr i" and "is_text (nd_kind v)"
    and "str_of (nd_kind v) \<in> set HIERARCHY_KINDS"
    and "take (length (str_of (nd_kind v)) + 1) i = str_of (nd_kind v) @ ''_''"
    and "is_text (nd_name v)" and "normalise_node_name env (str_of (nd_name v)) = Inr (str_of (nd_name v))"
    and "nd_parent v = JNull \<or> is_text (nd_parent v) \<and> node_id_ok (str_of (nd_parent v))"
    and "stamped env (nd_created v)" and "stamped env (nd_updated v)"
  using assms
  by (auto simp: node_record_errors_def node_identity_bad_def name_faults_def split: if_splits)

lemma records_keyed: "distinct (map fst ns) \<Longrightarrow> records_ok env ns \<Longrightarrow> keyed_nodes ns"
  using record_parts(3) by (fastforce simp: keyed_nodes_def records_ok_def)

lemma valid_keyed: "valid env s \<Longrightarrow> keyed_nodes (hs_nodes s)"
  by (rule records_keyed) (auto dest: validD)

lemma valid_record: "valid env s \<Longrightarrow> map_of (hs_nodes s) i = Some v \<Longrightarrow> node_record_errors env i v = []"
  using validD(1) [of env s] by (auto simp: records_ok_def dest: map_of_SomeD)

lemma parent_json: "nd_parent v = JNull \<or> is_text (nd_parent v) \<Longrightarrow> nd_parent v = json_parent (parent_of v)"
  by (auto simp: parent_of_def)

lemma parent_json_eq [simp]: "json_parent p = json_parent q \<longleftrightarrow> p = q"
  by (cases p; cases q) auto

lemma parent_of_new [simp]: "parent_of (new_node i kind name slug p created updated) = p"
  by (cases p) (simp_all add: new_node_def parent_of_def)

lemma new_node_parts [simp]:
  "nd_id (new_node i kind name slug p created updated) = JStr i"
  "nd_kind (new_node i kind name slug p created updated) = JStr kind"
  "nd_name (new_node i kind name slug p created updated) = JStr name"
  "nd_slug (new_node i kind name slug p created updated) = JStr slug"
  "nd_created (new_node i kind name slug p created updated) = JStr created"
  "nd_updated (new_node i kind name slug p created updated) = JStr updated"
  "nd_schema (new_node i kind name slug p created updated) = JInt 1"
  "nd_parent (new_node i kind name slug p created updated) = json_parent p"
  by (simp_all add: new_node_def)

lemma new_record_ok:
  assumes "node_id_ok i" and "kind \<in> set HIERARCHY_KINDS" and "take (length kind + 1) i = kind @ ''_''"
    and "normalise_node_name env name = Inr name" and "portable_node_slug env name i kind = Inr slug"
    and "case p of None \<Rightarrow> True | Some q \<Rightarrow> node_id_ok q"
    and "\<not> he_blank env created" and "\<not> he_blank env updated"
  shows "node_record_errors env i (new_node i kind name slug p created updated) = []"
  using assms
  by (auto simp: node_record_errors_def node_identity_bad_def name_faults_def stamped_def is_one_def
      split: option.splits)

section \<open>Changing one record\<close>

lemma look_put_node:
  "map_of (alist_put (str_of \<circ> nd_id) n ns) i = (if i = str_of (nd_id n) then Some n else map_of ns i)"
  by (simp add: map_of_alist_put)

lemma records_put:
  assumes "records_ok env ns" and "distinct (map fst ns)" and "node_record_errors env (str_of (nd_id n)) n = []"
  shows "records_ok env (alist_put (str_of \<circ> nd_id) n ns)"
  unfolding records_ok_def
proof (intro allI impI)
  fix i v
  assume "(i, v) \<in> set (alist_put (str_of \<circ> nd_id) n ns)"
  then have "map_of (alist_put (str_of \<circ> nd_id) n ns) i = Some v"
    using mem_look [OF distinct_alist_put [OF assms(2)]] by blast
  then show "node_record_errors env i v = []"
  proof (cases "i = str_of (nd_id n)")
    case True
    with \<open>map_of _ i = Some v\<close> assms(3) show ?thesis by (simp add: look_put_node)
  next
    case False
    with \<open>map_of _ i = Some v\<close> have "(i, v) \<in> set ns" by (auto simp: look_put_node dest: map_of_SomeD)
    with assms(1) show ?thesis by (simp add: records_ok_def)
  qed
qed

text \<open>The classifications see the identities of the nodes only.\<close>

lemma classes_same_domain:
  assumes "\<And>i. map_of ns i = None \<longleftrightarrow> map_of ns' i = None"
  shows "classes_ok env ns docs cs = classes_ok env ns' docs cs"
  unfolding classes_ok_def classification_errors_def assms ..

lemma classes_more_nodes:
  assumes "classes_ok env ns docs cs" and "\<And>i. map_of ns i \<noteq> None \<Longrightarrow> map_of ns' i \<noteq> None"
  shows "classes_ok env ns' docs cs"
  unfolding classes_ok_def
proof
  fix ic
  assume "ic \<in> set cs"
  with assms(1) have ok: "classification_errors env ns docs ic = []" by (simp add: classes_ok_def)
  obtain i c where ic: "ic = (i, c)" by (cases ic)
  show "classification_errors env ns' docs ic = []"
    using ok assms(2) unfolding classification_errors_def ic prod.case
    by (auto simp: list_ex_iff split: if_splits option.splits)
qed

end
