(* ===== verification/Hierarchy_Slugs.thy ===== *)
theory Hierarchy_Slugs
  imports Hierarchy_Model
begin

text \<open>
  Slugs are derived for every accepted name: the part of the name that survives the
  transliteration, or the kind of the node when nothing does, with the hexadecimal suffix of
  the identity.
\<close>

section \<open>Dashes\<close>

abbreviation slug_or_dash :: "char \<Rightarrow> bool" where
  "slug_or_dash c \<equiv> slug_char c \<or> c = CHR ''-''"

definition slug_part :: "string \<Rightarrow> bool" where
  "slug_part s \<longleftrightarrow> list_all slug_or_dash s \<and> (s \<noteq> [] \<longrightarrow> slug_char (hd s) \<and> slug_char (last s))"

lemma dash_runs_chars: "list_all slug_or_dash (dash_runs b s)"
  by (induction b s rule: dash_runs.induct) auto

lemma list_all_dropWhile: "list_all P s \<Longrightarrow> list_all P (dropWhile Q s)"
  by (induction s) auto

lemma list_all_rev': "list_all P (rev s) = list_all P s"
  by (induction s) auto

lemma lstrip_head:
  assumes "list_all slug_or_dash s"
  shows "list_all slug_or_dash (lstrip_dash s)" and "lstrip_dash s \<noteq> [] \<Longrightarrow> slug_char (hd (lstrip_dash s))"
proof -
  show "list_all slug_or_dash (lstrip_dash s)"
    unfolding lstrip_dash_def by (rule list_all_dropWhile [OF assms])
  moreover have "lstrip_dash s \<noteq> [] \<Longrightarrow> hd (lstrip_dash s) \<noteq> CHR ''-''"
    unfolding lstrip_dash_def by (rule hd_dropWhile) simp
  ultimately show "lstrip_dash s \<noteq> [] \<Longrightarrow> slug_char (hd (lstrip_dash s))"
    by (cases "lstrip_dash s") auto
qed

lemma rstrip_last:
  assumes "list_all slug_or_dash s" and "s \<noteq> []" and "slug_char (hd s)"
  shows "rstrip_dash s \<noteq> []" and "slug_part (rstrip_dash s)" and "hd (rstrip_dash s) = hd s"
    and "length (rstrip_dash s) \<le> length s"
proof -
  have dash: "\<not> slug_char (CHR ''-'')" by (simp add: slug_char_def)
  have r: "rstrip_dash s = rev (lstrip_dash (rev s))" by (simp add: rstrip_dash_def lstrip_dash_def)
  have "hd s \<in> set (rev s)" and "hd s \<noteq> CHR ''-''" using assms(2,3) dash by auto
  then have ne: "lstrip_dash (rev s) \<noteq> []" by (auto simp: lstrip_dash_def)
  show "rstrip_dash s \<noteq> []" using ne by (simp add: r)
  have pre: "\<exists>t. s = rstrip_dash s @ t"
    using takeWhile_dropWhile_id [of "\<lambda>c. c = CHR ''-''" "rev s"]
    by (metis r lstrip_dash_def rev_append rev_rev_ident)
  then obtain t where t: "s = rstrip_dash s @ t" ..
  show h: "hd (rstrip_dash s) = hd s"
    using ne by (subst (2) t) (simp add: r hd_append)
  show "length (rstrip_dash s) \<le> length s"
    using arg_cong [OF t, of length] by simp
  have "list_all slug_or_dash (rev s)" using assms(1) by (simp add: list_all_rev')
  note tl = lstrip_head [OF this]
  have "last (rstrip_dash s) = hd (lstrip_dash (rev s))" using ne by (simp add: r last_rev)
  then show "slug_part (rstrip_dash s)"
    using tl ne h assms(3) by (simp add: slug_part_def r list_all_rev')
qed

lemma slug_part_take:
  assumes "slug_part s" and "s \<noteq> []" and "0 < n"
  shows "rstrip_dash (take n s) \<noteq> []" and "slug_part (rstrip_dash (take n s))"
    and "length (rstrip_dash (take n s)) \<le> n"
proof -
  have all: "list_all slug_or_dash (take n s)"
    using assms(1) by (auto simp: slug_part_def list_all_iff dest: in_set_takeD)
  have ne: "take n s \<noteq> []" using assms(2,3) by simp
  have hd: "slug_char (hd (take n s))" using assms by (simp add: slug_part_def hd_take)
  show "rstrip_dash (take n s) \<noteq> []" "slug_part (rstrip_dash (take n s))"
    using rstrip_last [OF all ne hd] by simp_all
  show "length (rstrip_dash (take n s)) \<le> n"
    using rstrip_last(4) [OF all ne hd] by simp
qed

lemma kind_slug_part: "kind \<in> set HIERARCHY_KINDS \<Longrightarrow> slug_part kind \<and> kind \<noteq> [] \<and> length kind \<le> 64"
  by (auto simp: HIERARCHY_KINDS_def slug_part_def slug_char_def)

lemma slug_base_ok:
  assumes "kind \<in> set HIERARCHY_KINDS"
  shows "slug_part (slug_base env name kind)" and "slug_base env name kind \<noteq> []"
    and "length (slug_base env name kind) \<le> MAX_SLUG_BASE_CHARS"
proof -
  let ?l = "lstrip_dash (dash_runs False (he_ascii env name))"
  let ?b = "rstrip_dash ?l"
  let ?c = "if ?b = [] then kind else ?b"
  have l: "list_all slug_or_dash ?l" "?l \<noteq> [] \<Longrightarrow> slug_char (hd ?l)"
    using lstrip_head [OF dash_runs_chars] by auto
  have c: "slug_part ?c" "?c \<noteq> []"
    using kind_slug_part [OF assms] rstrip_last [OF l(1) _ l(2)]
    by (cases "?l = []"; simp add: rstrip_dash_def)+
  have "slug_base env name kind = rstrip_dash (take MAX_SLUG_BASE_CHARS ?c)"
    using slug_part_take(1) [OF c, of 64] by (simp add: slug_base_def Let_def MAX_SLUG_BASE_CHARS_def)
  then show "slug_part (slug_base env name kind)" "slug_base env name kind \<noteq> []"
    "length (slug_base env name kind) \<le> MAX_SLUG_BASE_CHARS"
    using slug_part_take [OF c, of 64] by (simp_all add: MAX_SLUG_BASE_CHARS_def)
qed

section \<open>Identities\<close>

lemma id_suffix_hex:
  assumes "list_all hexchar x"
  shows "id_suffix (kind @ ''_'' @ x) = x"
proof -
  have "c \<noteq> CHR ''_''" if "c \<in> set (rev x)" for c using that assms by (auto simp: list_all_iff hexchar_def)
  then have "takeWhile (\<lambda>c. c \<noteq> CHR ''_'') (rev x @ (CHR ''_'' # rev kind)) = rev x"
    by (subst takeWhile_append2) simp_all
  then show ?thesis by (simp add: id_suffix_def)
qed

lemma node_id_parts:
  assumes "node_id_ok i" and "kind \<in> set HIERARCHY_KINDS" and "take (length kind + 1) i = kind @ ''_''"
  obtains x where "i = kind @ ''_'' @ x" and "length x = 32" and "list_all hexchar x"
proof -
  obtain k where k: "k \<in> set HIERARCHY_KINDS" "prefixed_hex (k @ ''_'') 32 i"
    using assms(1) by (auto simp: node_id_ok_def list_ex_iff)
  obtain x where x: "i = (k @ ''_'') @ x" "length x = 32" "list_all hexchar x"
    by (rule prefixed_hexE [OF k(2)])
  have "k = kind" using assms(2,3) k(1) x(1) by (auto simp: HIERARCHY_KINDS_def)
  with x that show thesis by simp
qed

lemma new_id_ok:
  assumes "kind \<in> set HIERARCHY_KINDS" and "length x = 32" and "list_all hexchar x"
  shows "node_id_ok (kind @ ''_'' @ x)" and "take (length kind + 1) (kind @ ''_'' @ x) = kind @ ''_''"
proof -
  have "prefixed_hex (kind @ ''_'') 32 ((kind @ ''_'') @ x)" using assms by (simp only: prefixed_hex_append)
  then show "node_id_ok (kind @ ''_'' @ x)" using assms(1) by (auto simp: node_id_ok_def list_ex_iff)
qed simp

lemma slug_total:
  assumes "normalise_node_name env name = Inr selected" and "node_id_ok i"
    and "kind \<in> set HIERARCHY_KINDS" and "take (length kind + 1) i = kind @ ''_''"
  obtains slug where "portable_node_slug env name i kind = Inr slug" and "portable_slug_ok slug"
    and "length slug \<le> 98" and "slug = slug_base env selected kind @ ''--'' @ drop (length kind + 1) i"
proof -
  obtain x where x: "i = kind @ ''_'' @ x" "length x = 32" "list_all hexchar x"
    by (rule node_id_parts [OF assms(2-4)])
  note b = slug_base_ok [OF assms(3), of env selected]
  let ?s = "slug_base env selected kind @ ''--'' @ x"
  have "portable_slug_ok ?s"
    using b x(2,3) by (auto simp: portable_slug_ok_def slug_part_def Let_def)
  then show thesis
    using that [of ?s] assms x b(3) id_suffix_hex [OF x(3), of kind]
    by (simp add: portable_node_slug_def first_failure.simps Let_def MAX_SLUG_BASE_CHARS_def)
qed

text \<open>The name and the identity decide the slug, and two nodes never share one.\<close>

lemma slug_suffix:
  assumes "portable_node_slug env name i kind = Inr slug"
  shows "i = kind @ ''_'' @ drop (length slug - 32) slug"
proof -
  obtain selected where n: "normalise_node_name env name = Inr selected"
    and k: "kind \<in> set HIERARCHY_KINDS" "node_id_ok i" "take (length kind + 1) i = kind @ ''_''"
    using assms by (auto simp: portable_node_slug_def first_failure.simps split: sum.splits if_splits)
  obtain x where x: "i = kind @ ''_'' @ x" "length x = 32" "list_all hexchar x"
    by (rule node_id_parts [OF k(2,1,3)])
  have "slug = slug_base env selected kind @ ''--'' @ x"
    using slug_total [OF n k(2,1,3)] assms x(1) by (metis append_assoc append_eq_append_conv length_append list.size(3) One_nat_def add_Suc_right append_Nil2 append_take_drop_id k(3) sum.inject(2))
  with x show ?thesis by simp
qed

end
