(* ===== verification/Hierarchy_Moves.thy ===== *)
theory Hierarchy_Moves
  imports Hierarchy_Valid Hierarchy_Slugs
begin

text \<open>
  Moving a node: what the change of one parent does to the forest, and the equivalence of the
  checks of a movement with the validity of its result.
\<close>

section \<open>Views on a valid state\<close>

lemma node_view_valid:
  assumes "valid env s" and "map_of (hs_nodes s) i = Some v"
  obtains w where "node_view env (hs_nodes s) cs v = Inr w" and "nv_node w = v"
    and "Suc (nv_depth w) = dep (hs_nodes s) i" and "last (nv_breadcrumbs w) = v"
    and "parent_of (hd (nv_breadcrumbs w)) = None"
proof -
  let ?ns = "hs_nodes s"
  have dom: "map_of ?ns i \<noteq> None" using assms(2) by simp
  obtain vs where vs: "rooted ?ns i vs" "lineage ?ns i = Inr (rev vs)" "dep ?ns i = length vs"
    by (rule forestD [OF validD(3) [OF assms(1)] dom])
  have i: "str_of (nd_id v) = i" by (rule keyed_id [OF valid_keyed [OF assms(1)] assms(2)])
  have "parent_of (last vs) = None"
    using vs(1) by (induction rule: rooted.induct) (auto dest: rooted_nonempty)
  moreover have "hd vs = v" using rooted_here [OF vs(1)] assms(2) by simp
  ultimately show thesis
    using that [of "\<lparr>nv_node = v, nv_depth = length (rev vs) - 1, nv_breadcrumbs = rev vs,
          nv_path = map (\<lambda>w. str_of (nd_slug w)) (rev vs),
          nv_primary = card (primary_docs cs i), nv_secondary = card (secondary_docs cs i),
          nv_associated = card (primary_docs cs i \<union> secondary_docs cs i),
          nv_subtree = card (\<Union>d \<in> {d. reaches ?ns d i}. primary_docs cs d \<union> secondary_docs cs d)\<rparr>"]
      vs rooted_nonempty [OF vs(1)] i
      descendant_ids_forest [OF valid_keyed [OF assms(1)] validD(3) [OF assms(1)] dom, of env]
    by (simp add: node_view_def Let_def hd_rev last_rev Suc_diff_1)
qed

lemma get_node_valid:
  assumes "valid env s"
  shows "\<exists>w. get_node env i s = (Inr w, s) \<and> (w = None \<longleftrightarrow> map_of (hs_nodes s) i = None)"
proof (cases "map_of (hs_nodes s) i")
  case None
  then show ?thesis by (simp add: get_node_def valid_state [OF assms])
next
  case (Some v)
  obtain w where "node_view env (hs_nodes s) (hs_classes s) v = Inr w"
    by (rule node_view_valid [OF assms Some])
  with Some show ?thesis by (simp add: get_node_def valid_state [OF assms])
qed

section \<open>The forest with one parent changed\<close>

lemma rooted_other:
  assumes "rooted ns x vs" and "\<not> reaches ns x i" and "\<And>y. y \<noteq> i \<Longrightarrow> map_of ns' y = map_of ns y"
  shows "rooted ns' x vs"
  using assms(1,2)
proof (induction rule: rooted.induct)
  case (root x v)
  then have "x \<noteq> i" using self [of ns x] by auto
  with root assms(3) show ?case by (intro rooted.root) simp_all
next
  case (step x v p vs)
  then have "x \<noteq> i" "\<not> reaches ns p i" using self [of ns x] up [of ns x v p i] by auto
  with step assms(3) show ?case by (intro rooted.step [where p = p]) simp_all
qed

lemma rooted_below:
  assumes "reaches ns x i" and "forest ns" and "rooted ns' i us"
    and "\<And>y. y \<noteq> i \<Longrightarrow> map_of ns' y = map_of ns y"
  shows "\<exists>vs. rooted ns' x vs \<and> length vs = length us + (dep ns x - dep ns i)"
  using assms(1,3,4)
proof (induction rule: reaches.induct)
  case (self x)
  then show ?case by auto
next
  case (up x v p i)
  show ?case
  proof (cases "x = i")
    case True
    with up.prems(1) show ?thesis by auto
  next
    case False
    obtain vs where vs: "rooted ns' p vs" "length vs = length us + (dep ns p - dep ns i)"
      using up.IH [OF up.prems] by blast
    moreover have "rooted ns' x (v # vs)"
      using False up.hyps(1,2) up.prems(2) vs(1) by (intro rooted.step [where p = p]) simp_all
    moreover have "dep ns i \<le> dep ns p" using reaches_dep [OF up.hyps(3) assms(2)] by simp
    ultimately show ?thesis using dep_step(1) [OF assms(2) up.hyps(1,2)]
      by (intro exI [of _ "v # vs"]) simp
  qed
qed

lemma forest_to_root:
  assumes ft: "forest ns" and i: "map_of ns i \<noteq> None"
    and look: "\<And>y. map_of ns' y = (if y = i then Some n else map_of ns y)"
    and root: "parent_of n = None"
  shows "forest ns'"
  unfolding forest_def
proof (intro allI impI)
  fix x v
  assume x: "map_of ns' x = Some v"
  have other: "\<And>y. y \<noteq> i \<Longrightarrow> map_of ns' y = map_of ns y" by (simp add: look)
  have here: "rooted ns' i [n]" using root look by (intro rooted.root) simp_all
  have dom: "map_of ns x \<noteq> None" using x i by (cases "x = i") (simp_all add: look)
  show "\<exists>vs. rooted ns' x vs \<and> length vs \<le> MAX_HIERARCHY_DEPTH"
  proof (cases "reaches ns x i")
    case True
    obtain vs where "rooted ns' x vs" "length vs = length [n] + (dep ns x - dep ns i)"
      using rooted_below [OF True ft here other] by blast
    moreover have "1 \<le> dep ns i" "dep ns x \<le> 64" using dep_bound [OF ft] i dom by auto
    ultimately show ?thesis by (intro exI [of _ vs]) (auto simp: MAX_HIERARCHY_DEPTH_def)
  next
    case False
    obtain vs where "rooted ns x vs" "length vs \<le> 64" by (rule forestD [OF ft dom])
    then show ?thesis using rooted_other [OF _ False other] by (auto simp: MAX_HIERARCHY_DEPTH_def)
  qed
qed

lemma forest_below:
  assumes ft: "forest ns" and i: "map_of ns i \<noteq> None"
    and look: "\<And>y. map_of ns' y = (if y = i then Some n else map_of ns y)"
    and p: "parent_of n = Some q" and q: "map_of ns q \<noteq> None" and deep: "deepest ns i 1 m"
  shows "forest ns' \<longleftrightarrow> \<not> reaches ns q i \<and> dep ns q + m \<le> 64"
proof -
  have other: "\<And>y. y \<noteq> i \<Longrightarrow> map_of ns' y = map_of ns y" by (simp add: look)
  have dom: "map_of ns' x \<noteq> None \<longleftrightarrow> map_of ns x \<noteq> None" for x using i by (simp add: look)
  obtain ws where ws: "rooted ns q ws" "dep ns q = length ws" by (rule forestD [OF ft q])
  show ?thesis
  proof (cases "reaches ns q i")
    case True
    have "\<not> forest ns'"
    proof
      assume "forest ns'"
      moreover have "map_of ns' i \<noteq> None" by (simp add: look)
      ultimately obtain us where us: "rooted ns' i us" by (rule forestD)
      then obtain vs where "rooted ns' q vs" "length us = Suc (length vs)"
        using look p by (cases rule: rootedE) auto
      moreover obtain vs' where "rooted ns' q vs'" "length vs' \<ge> length us"
        using rooted_below [OF True ft us other] by auto
      ultimately show False using rooted_unique by fastforce
    qed
    with True show ?thesis by simp
  next
    case False
    have here: "rooted ns' i (n # ws)"
      using look p rooted_other [OF ws(1) False other] by (intro rooted.step) simp_all
    have below: "\<exists>vs. rooted ns' x vs \<and> length vs = Suc (dep ns q) + (dep ns x - dep ns i)" if "reaches ns x i" for x
      using rooted_below [OF that ft here other] ws(2) by simp
    have "forest ns' \<longleftrightarrow> (\<forall>x. reaches ns x i \<longrightarrow> Suc (dep ns q) + (dep ns x - dep ns i) \<le> 64)"
    proof
      assume ft': "forest ns'"
      show "\<forall>x. reaches ns x i \<longrightarrow> Suc (dep ns q) + (dep ns x - dep ns i) \<le> 64"
      proof (intro allI impI)
        fix x
        assume x: "reaches ns x i"
        obtain vs where vs: "rooted ns' x vs" "length vs = Suc (dep ns q) + (dep ns x - dep ns i)"
          using below [OF x] by blast
        obtain us where "rooted ns' x us" "length us \<le> 64"
          by (rule forestD [OF ft', of x]) (use dom reaches_dom [OF x] in auto)
        with rooted_unique [OF vs(1)] vs(2) show "Suc (dep ns q) + (dep ns x - dep ns i) \<le> 64" by simp
      qed
    next
      assume bound: "\<forall>x. reaches ns x i \<longrightarrow> Suc (dep ns q) + (dep ns x - dep ns i) \<le> 64"
      show "forest ns'" unfolding forest_def
      proof (intro allI impI)
        fix x v
        assume x: "map_of ns' x = Some v"
        show "\<exists>vs. rooted ns' x vs \<and> length vs \<le> MAX_HIERARCHY_DEPTH"
        proof (cases "reaches ns x i")
          case True
          then obtain vs where "rooted ns' x vs" "length vs = Suc (dep ns q) + (dep ns x - dep ns i)"
            using below by blast
          with bound True show ?thesis by (intro exI [of _ vs]) (simp add: MAX_HIERARCHY_DEPTH_def)
        next
          case outside: False
          obtain vs where "rooted ns x vs" "length vs \<le> 64"
            by (rule forestD [OF ft, of x]) (use dom x in auto)
          then show ?thesis using rooted_other [OF _ outside other] by (auto simp: MAX_HIERARCHY_DEPTH_def)
        qed
      qed
    qed
    also have "\<dots> \<longleftrightarrow> dep ns q + m \<le> 64"
    proof -
      obtain x where x: "reaches ns x i" "m = 1 + (dep ns x - dep ns i)" using deep by (auto simp: deepest_def)
      have most: "\<And>y. reaches ns y i \<Longrightarrow> 1 + (dep ns y - dep ns i) \<le> m" using deep by (auto simp: deepest_def)
      show ?thesis
      proof
        assume "\<forall>y. reaches ns y i \<longrightarrow> Suc (dep ns q) + (dep ns y - dep ns i) \<le> 64"
        with x(1) have "Suc (dep ns q) + (dep ns x - dep ns i) \<le> 64" by blast
        with x(2) show "dep ns q + m \<le> 64" by simp
      next
        assume "dep ns q + m \<le> 64"
        with most show "\<forall>y. reaches ns y i \<longrightarrow> Suc (dep ns q) + (dep ns y - dep ns i) \<le> 64" by fastforce
      qed
    qed
    finally show ?thesis using False by simp
  qed
qed

section \<open>The record that a movement writes\<close>

definition moved_node :: "node \<Rightarrow> string \<Rightarrow> string option \<Rightarrow> string \<Rightarrow> node" where
  "moved_node v i p now = new_node i (str_of (nd_kind v)) (str_of (nd_name v)) (str_of (nd_slug v)) p
     (str_of (nd_created v)) now"

definition with_node :: "node \<Rightarrow> hstore \<Rightarrow> hstore" where
  "with_node n s = s\<lparr>hs_nodes := alist_put (str_of \<circ> nd_id) n (hs_nodes s)\<rparr>"

lemma write_node_eval [simp]: "write_node n s = (Inr (), with_node n s)"
  by (simp add: write_node_def with_node_def)

lemma with_node_parts [simp]:
  "map_of (hs_nodes (with_node n s)) x = (if x = str_of (nd_id n) then Some n else map_of (hs_nodes s) x)"
  "hs_classes (with_node n s) = hs_classes s" "hs_docs (with_node n s) = hs_docs s"
  "hs_edges (with_node n s) = hs_edges s"
  by (simp_all add: with_node_def map_of_alist_put)

lemma moved_node_parts [simp]:
  "nd_id (moved_node v i p now) = JStr i" "nd_kind (moved_node v i p now) = JStr (str_of (nd_kind v))"
  "parent_of (moved_node v i p now) = p"
  by (simp_all add: moved_node_def)

lemma record_slug:
  assumes "node_record_errors env i v = []"
  shows "portable_node_slug env (str_of (nd_name v)) i (str_of (nd_kind v)) = Inr (str_of (nd_slug v))
    \<or> nd_slug v = JNull \<and> (\<exists>e. portable_node_slug env (str_of (nd_name v)) i (str_of (nd_kind v)) = Inl e)"
  using assms
  by (auto simp: node_record_errors_def name_faults_def node_identity_bad_def split: if_splits sum.splits)

end
