(* ===== verification/Hierarchy_Changes.thy ===== *)
theory Hierarchy_Changes
  imports Hierarchy_Moves
begin

text \<open>
  The operations on nodes keep the hierarchy valid, leave it as it was when they raise, and a
  movement is accepted exactly when the validator accepts its result.
\<close>

section \<open>Changing one node of a valid state\<close>

definition parent_allowed :: "nodes \<Rightarrow> string \<Rightarrow> string option \<Rightarrow> bool" where
  "parent_allowed ns kind p = (case p of None \<Rightarrow> True
     | Some q \<Rightarrow> (case map_of ns q of None \<Rightarrow> False
                  | Some w \<Rightarrow> str_of (nd_kind w) \<in> set (ALLOWED_PARENT_KINDS kind)))"

text \<open>What the code relies on in Unicode normalisation and SHA-256.\<close>

definition env_ok :: "hierarchy_env \<Rightarrow> bool" where
  "env_ok env \<longleftrightarrow> (\<forall>x. he_nfc env (he_nfc env x) = he_nfc env x) \<and> (\<forall>x. sha256_text (he_sha env x))"

lemma normalise_twice:
  "env_ok env \<Longrightarrow> normalise_node_name env x = Inr y \<Longrightarrow> normalise_node_name env y = Inr y"
  by (auto simp: env_ok_def normalise_node_name_def split: option.splits)

lemma record_slug_text:
  assumes "node_record_errors env i v = []"
  shows "portable_node_slug env (str_of (nd_name v)) i (str_of (nd_kind v)) = Inr (str_of (nd_slug v))"
  using record_slug [OF assms] slug_total [OF record_parts(8) [OF assms] record_parts(2) [OF assms]
      record_parts(5) [OF assms] record_parts(6) [OF assms]] by fastforce

lemma parent_id_ok:
  assumes "valid env s" and "map_of (hs_nodes s) q \<noteq> None"
  shows "node_id_ok q"
  using assms valid_record [OF assms(1)] record_parts(2) by blast

lemma moved_record_ok:
  assumes "valid env s" and "map_of (hs_nodes s) i = Some v" and "\<not> he_blank env now"
    and "case p of None \<Rightarrow> True | Some q \<Rightarrow> node_id_ok q"
  shows "node_record_errors env i (moved_node v i p now) = []"
proof -
  have r: "node_record_errors env i v = []" using valid_record [OF assms(1,2)] .
  show ?thesis unfolding moved_node_def
    using record_parts [OF r] record_slug_text [OF r] assms(3,4)
    by (intro new_record_ok) (simp_all add: stamped_def)
qed

lemma with_node_distinct:
  "distinct (map fst (hs_nodes s)) \<Longrightarrow> distinct (map fst (hs_nodes (with_node n s)))"
  by (simp add: with_node_def distinct_alist_put)

lemma with_node_records:
  assumes "valid env s" and "nd_id n = JStr i" and "node_record_errors env i n = []"
  shows "records_ok env (hs_nodes (with_node n s))"
  using records_put [OF validD(1) [OF assms(1)] validD(5) [OF assms(1)], of n] assms(2,3)
  by (simp add: with_node_def)

lemma with_node_classes:
  assumes "valid env s"
  shows "classes_ok env (hs_nodes (with_node n s)) (hs_docs s) (hs_classes s)"
  by (rule classes_more_nodes [OF validD(4) [OF assms]]) simp

lemma parent_allowed_kinds:
  assumes "kinds_ok ns" and "map_of ns i = Some v" and "str_of (nd_kind n) = str_of (nd_kind v)"
    and "\<And>x. map_of ns' x = (if x = i then Some n else map_of ns x)"
  shows "kinds_ok ns' \<and> closed_up ns' \<longrightarrow> parent_allowed ns (str_of (nd_kind v)) (parent_of n)"
    and "parent_allowed ns (str_of (nd_kind v)) (parent_of n) \<Longrightarrow> kinds_ok ns'"
proof -
  have kind: "\<exists>w. map_of ns x = Some w \<and> str_of (nd_kind w) = str_of (nd_kind w')" if "map_of ns' x = Some w'" for x w'
    using that assms(2-4) by (cases "x = i") auto
  show "kinds_ok ns' \<and> closed_up ns' \<longrightarrow> parent_allowed ns (str_of (nd_kind v)) (parent_of n)"
  proof
    assume ok: "kinds_ok ns' \<and> closed_up ns'"
    have n: "map_of ns' i = Some n" by (simp add: assms(4))
    show "parent_allowed ns (str_of (nd_kind v)) (parent_of n)"
    proof (cases "parent_of n")
      case None
      then show ?thesis by (simp add: parent_allowed_def)
    next
      case (Some q)
      obtain w' where w': "map_of ns' q = Some w'" using ok n Some unfolding closed_up_def by blast
      then have "str_of (nd_kind w') \<in> set (ALLOWED_PARENT_KINDS (str_of (nd_kind n)))"
        using ok n Some unfolding kinds_ok_def by blast
      moreover obtain w where "map_of ns q = Some w" "str_of (nd_kind w) = str_of (nd_kind w')"
        using kind [OF w'] by blast
      ultimately show ?thesis using Some assms(3) by (simp add: parent_allowed_def)
    qed
  qed
  show "kinds_ok ns'" if ok: "parent_allowed ns (str_of (nd_kind v)) (parent_of n)"
    unfolding kinds_ok_def
  proof (intro allI impI)
    fix x u q w'
    assume u: "map_of ns' x = Some u" "parent_of u = Some q" and w': "map_of ns' q = Some w'"
    obtain w where w: "map_of ns q = Some w" "str_of (nd_kind w) = str_of (nd_kind w')"
      using kind [OF w'] by blast
    show "str_of (nd_kind w') \<in> set (ALLOWED_PARENT_KINDS (str_of (nd_kind u)))"
    proof (cases "x = i")
      case True
      with u ok w assms(3,4) show ?thesis by (simp add: parent_allowed_def)
    next
      case False
      with u(1) have "map_of ns x = Some u" by (simp add: assms(4))
      then show ?thesis using assms(1) u(2) w unfolding kinds_ok_def by metis
    qed
  qed
qed

lemma valid_change_iff:
  assumes "valid env s" and "map_of (hs_nodes s) i = Some v" and "nd_id n = JStr i"
    and "str_of (nd_kind n) = str_of (nd_kind v)" and "node_record_errors env i n = []"
  shows "valid env (with_node n s) \<longleftrightarrow>
    parent_allowed (hs_nodes s) (str_of (nd_kind v)) (parent_of n) \<and> forest (hs_nodes (with_node n s))"
proof -
  have look: "map_of (hs_nodes (with_node n s)) x = (if x = i then Some n else map_of (hs_nodes s) x)" for x
    using assms(3) by simp
  note kinds = parent_allowed_kinds [OF validD(2) [OF assms(1)] assms(2,4) look]
  show ?thesis
  proof
    assume v: "valid env (with_node n s)"
    show "parent_allowed (hs_nodes s) (str_of (nd_kind v)) (parent_of n) \<and> forest (hs_nodes (with_node n s))"
      using kinds(1) validD(2,3) [OF v] forest_closed [OF validD(3) [OF v]] by blast
  next
    assume r: "parent_allowed (hs_nodes s) (str_of (nd_kind v)) (parent_of n) \<and> forest (hs_nodes (with_node n s))"
    show "valid env (with_node n s)"
      using r kinds(2) with_node_records [OF assms(1,3,5)] with_node_classes [OF assms(1), of n]
        with_node_distinct validD(5,6) [OF assms(1)] by (intro validI) simp_all
  qed
qed

lemma valid_errors:
  assumes "valid env s"
  shows "valid env (with_node n s) \<longleftrightarrow> state_errors env (with_node n s) = []"
  using validD(5,6) [OF assms] with_node_distinct by (simp add: valid_def)

text \<open>A node that keeps its parent keeps the forest.\<close>

lemma forest_same_parent:
  assumes "keyed_nodes ns" and "forest ns" and "map_of ns i = Some v" and "parent_of n = parent_of v"
    and "\<And>y. map_of ns' y = (if y = i then Some n else map_of ns y)"
  shows "forest ns'"
proof (cases "parent_of v")
  case None
  then show ?thesis using assms(3,4) by (intro forest_to_root [OF assms(2) _ assms(5)]) simp_all
next
  case (Some q)
  have i: "map_of ns i \<noteq> None" using assms(3) by simp
  obtain m where m: "deepest ns i 1 m"
    by (rule subtree_height_forest [OF assms(1,2) i])
  note q = dep_step [OF assms(2,3) Some]
  have "\<not> reaches ns q i" using reaches_dep [OF _ assms(2)] q(1) by fastforce
  moreover have "dep ns q + m \<le> 64"
  proof -
    obtain x where x: "reaches ns x i" "m = 1 + (dep ns x - dep ns i)" using m by (auto simp: deepest_def)
    have "dep ns x \<le> 64" using dep_bound [OF assms(2)] reaches_dom [OF x(1)] by simp
    with x(2) q(1) dep_bound [OF assms(2) i] reaches_dep [OF x(1) assms(2)] show ?thesis by simp
  qed
  ultimately show ?thesis
    using forest_below [OF assms(2) i assms(5) _ q(2) m] Some assms(4) by simp
qed

text \<open>A new node below a node that is not at the last level keeps the forest.\<close>

lemma forest_leaf:
  assumes "forest ns" and "map_of ns i = None"
    and "\<And>y. map_of ns' y = (if y = i then Some n else map_of ns y)"
    and "case parent_of n of None \<Rightarrow> True | Some q \<Rightarrow> map_of ns q \<noteq> None \<and> dep ns q < 64"
  shows "forest ns'"
  unfolding forest_def
proof (intro allI impI)
  fix x u
  assume u: "map_of ns' x = Some u"
  have out: "\<not> reaches ns y i" for y using reaches_dom [of ns y i] assms(2) by blast
  have old: "\<exists>vs. rooted ns' y vs \<and> length vs = dep ns y" if y: "map_of ns y \<noteq> None" for y
  proof -
    obtain vs where vs: "rooted ns y vs" "dep ns y = length vs" by (rule forestD [OF assms(1) y])
    show ?thesis using rooted_other [OF vs(1) out, of ns'] vs(2) assms(3) by auto
  qed
  have n: "map_of ns' i = Some n" by (simp add: assms(3))
  show "\<exists>vs. rooted ns' x vs \<and> length vs \<le> MAX_HIERARCHY_DEPTH"
  proof (cases "x = i")
    case False
    with u assms(3) have "map_of ns x \<noteq> None" by simp
    then show ?thesis using old dep_bound [OF assms(1)] by (fastforce simp: MAX_HIERARCHY_DEPTH_def)
  next
    case True
    show ?thesis
    proof (cases "parent_of n")
      case None
      with n True show ?thesis by (intro exI [of _ "[n]"]) (simp add: rooted.root MAX_HIERARCHY_DEPTH_def)
    next
      case (Some q)
      then have q: "map_of ns q \<noteq> None" "dep ns q < 64" using assms(4) by simp_all
      obtain vs where "rooted ns' q vs" "length vs = dep ns q" using old [OF q(1)] by blast
      with n True Some q(2) show ?thesis
        by (intro exI [of _ "n # vs"]) (simp add: rooted.step MAX_HIERARCHY_DEPTH_def)
    qed
  qed
qed

section \<open>Movement\<close>

lemma descendants_valid:
  "valid env s \<Longrightarrow> map_of (hs_nodes s) i \<noteq> None \<Longrightarrow>
   descendant_ids env (hs_nodes s) i = Inr {d. reaches (hs_nodes s) d i}"
  by (intro descendant_ids_forest valid_keyed) (auto dest: validD)

lemma lineage_valid:
  assumes "valid env s" and "map_of (hs_nodes s) i \<noteq> None"
  obtains line where "lineage (hs_nodes s) i = Inr line" and "length line = dep (hs_nodes s) i"
  by (rule forestD [OF validD(3) [OF assms(1)] assms(2)]) (use that in simp)

lemma move_checks_forest:
  assumes "valid env s" and "map_of (hs_nodes s) i \<noteq> None" and "map_of (hs_nodes s) q \<noteq> None"
    and "parent_of n = Some q" and "nd_id n = JStr i"
  shows "move_checks env (hs_nodes s) i q s = (Inr (), s) \<and> forest (hs_nodes (with_node n s))
    \<or> (\<exists>e. move_checks env (hs_nodes s) i q s = (Inl e, s)) \<and> \<not> forest (hs_nodes (with_node n s))"
proof -
  obtain m where m: "subtree_height env (hs_nodes s) i = Inr m" "deepest (hs_nodes s) i 1 m"
    by (rule subtree_height_forest [OF valid_keyed [OF assms(1)] validD(3) [OF assms(1)] assms(2)])
  obtain line where line: "lineage (hs_nodes s) q = Inr line" "length line = dep (hs_nodes s) q"
    by (rule lineage_valid [OF assms(1,3)])
  have look: "map_of (hs_nodes (with_node n s)) x = (if x = i then Some n else map_of (hs_nodes s) x)" for x
    using assms(5) by simp
  have "forest (hs_nodes (with_node n s)) \<longleftrightarrow> \<not> reaches (hs_nodes s) q i \<and> dep (hs_nodes s) q + m \<le> 64"
    by (rule forest_below [OF validD(3) [OF assms(1)] assms(2) look assms(4,3) m(2)])
  then show ?thesis
    using m(1) line descendants_valid [OF assms(1,2)]
    by (auto simp: move_checks_def MAX_HIERARCHY_DEPTH_def require_eq seqA_def bindA_def)
qed

lemma validate_parent_kind_eval:
  "map_of ns q \<noteq> None \<Longrightarrow> (if parent_allowed ns kind (Some q) then validate_parent_kind kind (Some q) ns s = (Inr (), s)
    else \<exists>e. validate_parent_kind kind (Some q) ns s = (Inl e, s))"
  by (auto simp: validate_parent_kind_def parent_allowed_def require_eq)

lemma get_node_there:
  assumes "valid env s" and "map_of (hs_nodes s) i \<noteq> None"
  shows "\<exists>w. get_node env i s = (Inr (Some w), s)"
  using get_node_valid [OF assms(1), of i] assms(2) by fastforce

lemma keep_parent_valid:
  assumes "valid env s" and "map_of (hs_nodes s) i = Some v" and "nd_id n = JStr i"
    and "str_of (nd_kind n) = str_of (nd_kind v)" and "node_record_errors env i n = []"
    and "parent_of n = parent_of v"
  shows "valid env (with_node n s)"
proof -
  have "forest (hs_nodes (with_node n s))"
    using forest_same_parent [OF valid_keyed [OF assms(1)] validD(3) [OF assms(1)] assms(2,6), of "hs_nodes (with_node n s)"]
      assms(3) by simp
  moreover have "parent_allowed (hs_nodes s) (str_of (nd_kind v)) (parent_of v)"
    using validD(2) [OF assms(1)] forest_closed [OF validD(3) [OF assms(1)]] assms(2)
    unfolding parent_allowed_def kinds_ok_def closed_up_def
    by (fastforce split: option.splits)
  ultimately show ?thesis unfolding valid_change_iff [OF assms(1-5)] assms(6) by simp
qed

lemma move_to_root:
  assumes "valid env s" and "map_of (hs_nodes s) i = Some v" and "\<not> he_blank env now"
  shows "valid env (with_node (moved_node v i None now) s)"
proof -
  have rec: "node_record_errors env i (moved_node v i None now) = []"
    by (rule moved_record_ok [OF assms]) simp
  have "forest (hs_nodes (with_node (moved_node v i None now) s))"
    using assms(2) by (intro forest_to_root [OF validD(3) [OF assms(1)], where n = "moved_node v i None now"]) auto
  then show ?thesis
    using valid_change_iff [OF assms(1,2) _ _ rec] by (simp add: parent_allowed_def)
qed

lemma move_node_valid:
  fixes p
  assumes "valid env s" and "map_of (hs_nodes s) i = Some v" and "\<not> he_blank env now"
  defines "t \<equiv> with_node (moved_node v i p now) s"
  shows "if valid env t then \<exists>w. move_node env now i p s = (Inr (Some w), if parent_of v = p then s else t)
         else \<exists>e. move_node env now i p s = (Inl e, s)"
proof -
  let ?ns = "hs_nodes s"
  have dom: "map_of ?ns i \<noteq> None" using assms(2) by simp
  have "nd_parent v = json_parent (parent_of v)"
    by (rule parent_json) (use record_parts(9) [OF valid_record [OF assms(1,2)]] in blast)
  then have same: "nd_parent v = json_parent p \<longleftrightarrow> parent_of v = p" by (simp only: parent_json_eq)
  have here: "\<exists>w. get_node env i s = (Inr (Some w), s)" by (rule get_node_there [OF assms(1) dom])
  have there: "\<exists>w. get_node env i t = (Inr (Some w), t)" if "valid env t"
    by (rule get_node_there [OF that]) (simp add: t_def)
  define fin where "fin = (if nd_parent v = json_parent p then get_node env i
    else seqA (write_node (moved_node v i p now)) (get_node env i))"
  have finish: "\<exists>w. fin s = (Inr (Some w), if parent_of v = p then s else t)" if "valid env t"
    using here there [OF that] by (simp add: fin_def same t_def)
  have steps: "move_node env now i p s =
      seqA (require (case p of None \<Rightarrow> True | Some q \<Rightarrow> map_of ?ns q \<noteq> None)
              (Not_found (''hierarchy node not found: '' @ (case p of None \<Rightarrow> [] | Some q \<Rightarrow> q))))
      (seqA (require (p \<noteq> Some i) (Conflict ''hierarchy node cannot be its own parent''))
      (seqA (validate_parent_kind (str_of (nd_kind v)) p ?ns)
      (seqA (case p of None \<Rightarrow> ret () | Some q \<Rightarrow> move_checks env ?ns i q) fin))) s"
    by (simp add: move_node_def valid_state [OF assms(1)] assms(2) fin_def moved_node_def)
  show ?thesis
  proof (cases p)
    case None
    then have "valid env t" using move_to_root [OF assms(1-3)] by (simp add: t_def)
    with finish steps show ?thesis by (simp add: None validate_parent_kind_def)
  next
    case (Some q)
    show ?thesis
    proof (cases "map_of ?ns q = None")
      case True
      have "\<not> valid env t"
      proof
        assume v: "valid env t"
        have "map_of (hs_nodes t) i = Some (moved_node v i p now)" by (simp add: t_def)
        then have "map_of (hs_nodes t) q \<noteq> None"
          using forest_closed [OF validD(3) [OF v]] Some unfolding closed_up_def by fastforce
        with True dom show False by (auto simp: t_def split: if_splits)
      qed
      with True Some steps show ?thesis by simp
    next
      case q: False
      have rec: "node_record_errors env i (moved_node v i p now) = []"
        using Some parent_id_ok [OF assms(1) q] by (intro moved_record_ok [OF assms(1-3)]) simp
      have iff: "valid env t \<longleftrightarrow> parent_allowed ?ns (str_of (nd_kind v)) p \<and> forest (hs_nodes t)"
        unfolding t_def using valid_change_iff [OF assms(1,2) _ _ rec] by simp
      have checks: "move_checks env ?ns i q s = (Inr (), s) \<and> forest (hs_nodes t)
          \<or> (\<exists>e. move_checks env ?ns i q s = (Inl e, s)) \<and> \<not> forest (hs_nodes t)"
        unfolding t_def by (rule move_checks_forest [OF assms(1) dom q]) (simp_all add: Some)
      have own: "\<not> forest (hs_nodes t)" if "q = i"
        using checks that descendants_valid [OF assms(1) dom] reaches.self [OF dom]
        by (auto simp: move_checks_def)
      note kind = validate_parent_kind_eval [OF q, of "str_of (nd_kind v)" s]
      show ?thesis
        using finish iff checks own kind q steps
        by (auto simp: Some require_eq seqA_def bindA_def split: if_splits)
    qed
  qed
qed

section \<open>Creation and renaming\<close>

text \<open>When a node is created: its kind, its name, its parent and the depth are all right.\<close>

definition creatable :: "hierarchy_env \<Rightarrow> nodes \<Rightarrow> string \<Rightarrow> string \<Rightarrow> string option \<Rightarrow> bool" where
  "creatable env ns kind name p \<longleftrightarrow>
     kind \<in> set HIERARCHY_KINDS \<and> first_failure (name_ladder env (he_nfc env name)) = None
   \<and> parent_allowed ns kind p \<and> (case p of None \<Rightarrow> True | Some q \<Rightarrow> dep ns q < MAX_HIERARCHY_DEPTH)"

definition created_node :: "hierarchy_env \<Rightarrow> string \<Rightarrow> string \<Rightarrow> string \<Rightarrow> string \<Rightarrow> string option \<Rightarrow> node" where
  "created_node env hex now kind name p =
     new_node (kind @ ''_'' @ hex) kind (he_nfc env name)
       (slug_base env (he_nfc env name) kind @ ''--'' @ hex) p now now"

lemma created_node_parts [simp]:
  "nd_id (created_node env hex now kind name p) = JStr (kind @ ''_'' @ hex)"
  "nd_kind (created_node env hex now kind name p) = JStr kind"
  "parent_of (created_node env hex now kind name p) = p"
  by (simp_all add: created_node_def)

lemma created_slug:
  assumes "env_ok env" and "normalise_node_name env name = Inr selected" and "kind \<in> set HIERARCHY_KINDS"
    and "length hex = 32" and "list_all hexchar hex"
  shows "portable_node_slug env selected (kind @ ''_'' @ hex) kind = Inr (slug_base env selected kind @ ''--'' @ hex)"
  using slug_total [OF normalise_twice [OF assms(1,2)] new_id_ok(1) [OF assms(3-5)] assms(3) new_id_ok(2) [OF assms(3-5)]]
  by fastforce

lemma kinds_of_children: "parent_allowed ns kind (Some q) \<Longrightarrow> map_of ns q \<noteq> None"
  by (auto simp: parent_allowed_def split: option.splits)

lemma created_valid:
  assumes "valid env s" and "env_ok env" and "creatable env (hs_nodes s) kind name p"
    and "length hex = 32" and "list_all hexchar hex" and "map_of (hs_nodes s) (kind @ ''_'' @ hex) = None"
    and "\<not> he_blank env now"
  shows "valid env (with_node (created_node env hex now kind name p) s)"
proof -
  let ?n = "created_node env hex now kind name p" and ?i = "kind @ ''_'' @ hex" and ?ns = "hs_nodes s"
  have name: "normalise_node_name env name = Inr (he_nfc env name)" and kind: "kind \<in> set HIERARCHY_KINDS"
    and par: "parent_allowed ?ns kind p" and deep: "case p of None \<Rightarrow> True | Some q \<Rightarrow> dep ?ns q < 64"
    using assms(3) by (auto simp: creatable_def normalise_node_name_def MAX_HIERARCHY_DEPTH_def split: option.splits)
  have there: "case p of None \<Rightarrow> True | Some q \<Rightarrow> map_of ?ns q \<noteq> None"
    using par kinds_of_children by (auto split: option.splits)
  have rec: "node_record_errors env ?i ?n = []"
    unfolding created_node_def
    using new_id_ok [OF kind assms(4,5)] kind normalise_twice [OF assms(2) name]
      created_slug [OF assms(2) name kind assms(4,5)] assms(7) there parent_id_ok [OF assms(1)]
    by (intro new_record_ok) (auto split: option.splits)
  have "kinds_ok (hs_nodes (with_node ?n s))"
    unfolding kinds_ok_def
  proof (intro allI impI)
    fix x u q w
    assume u: "map_of (hs_nodes (with_node ?n s)) x = Some u" "parent_of u = Some q"
      and w: "map_of (hs_nodes (with_node ?n s)) q = Some w"
    show "str_of (nd_kind w) \<in> set (ALLOWED_PARENT_KINDS (str_of (nd_kind u)))"
    proof (cases "x = ?i")
      case True
      with u there assms(6) w par show ?thesis by (auto simp: parent_allowed_def split: if_splits)
    next
      case False
      with u have x: "map_of ?ns x = Some u" by simp
      then have "map_of ?ns q \<noteq> None" using forest_closed [OF validD(3) [OF assms(1)]] u(2) unfolding closed_up_def by blast
      with w assms(6) have "map_of ?ns q = Some w" by (auto split: if_splits)
      with x u(2) validD(2) [OF assms(1)] show ?thesis unfolding kinds_ok_def by blast
    qed
  qed
  moreover have "forest (hs_nodes (with_node ?n s))"
    by (rule forest_leaf [OF validD(3) [OF assms(1)] assms(6), where n = ?n])
      (use there deep in \<open>auto split: option.splits\<close>)
  moreover have "records_ok env (hs_nodes (with_node ?n s))"
    by (rule with_node_records [OF assms(1) _ rec]) simp
  ultimately show ?thesis
    using with_node_classes [OF assms(1), of ?n] with_node_distinct validD(5,6) [OF assms(1)]
    by (intro validI) simp_all
qed

lemma create_node_spec:
  assumes "valid env s" and "env_ok env" and "length hex = 32" and "list_all hexchar hex"
    and "map_of (hs_nodes s) (kind @ ''_'' @ hex) = None" and "\<not> he_blank env now"
  shows "if creatable env (hs_nodes s) kind name p
    then \<exists>w. create_node env hex now kind name p s = (Inr (Some w), with_node (created_node env hex now kind name p) s)
    else \<exists>e. create_node env hex now kind name p s = (Inl e, s)"
proof -
  let ?ns = "hs_nodes s" and ?n = "created_node env hex now kind name p"
  have depth: "case p of None \<Rightarrow> True | Some q \<Rightarrow> map_of ?ns q = None
      \<or> (\<exists>line. lineage ?ns q = Inr line \<and> length line = dep ?ns q)"
    by (auto split: option.splits elim: lineage_valid [OF assms(1)])
  show ?thesis
  proof (cases "creatable env ?ns kind name p")
    case True
    then have name: "normalise_node_name env name = Inr (he_nfc env name)" and kind: "kind \<in> set HIERARCHY_KINDS"
      and rest: "parent_allowed ?ns kind p" "case p of None \<Rightarrow> True | Some q \<Rightarrow> dep ?ns q < MAX_HIERARCHY_DEPTH"
      by (auto simp: creatable_def normalise_node_name_def)
    obtain w where "get_node env (kind @ ''_'' @ hex) (with_node ?n s) = (Inr (Some w), with_node ?n s)"
      using get_node_there [OF created_valid [OF assms(1,2) True assms(3-6)], of "kind @ ''_'' @ hex"] by auto
    then show ?thesis
      using True name kind rest depth created_slug [OF assms(2) name kind assms(3,4)] kinds_of_children [of ?ns kind]
      by (cases p) (auto simp: create_node_def valid_state [OF assms(1)] validate_parent_kind_def Let_def
          created_node_def parent_allowed_def not_le split: option.splits)
  next
    case False
    then consider "kind \<notin> set HIERARCHY_KINDS" | msg where "first_failure (name_ladder env (he_nfc env name)) = Some msg"
      | q where "p = Some q" "map_of ?ns q = None"
      | q where "p = Some q" "map_of ?ns q \<noteq> None" "\<not> parent_allowed ?ns kind p"
      | q where "p = Some q" "map_of ?ns q \<noteq> None" "dep ?ns q \<ge> MAX_HIERARCHY_DEPTH"
      using kinds_of_children [of ?ns kind]
      by (cases p) (auto simp: creatable_def parent_allowed_def not_less)
    then have "\<exists>e. create_node env hex now kind name p s = (Inl e, s)"
    proof cases
      case 1
      then show ?thesis by (simp add: create_node_def)
    next
      case 2
      then show ?thesis by (simp add: create_node_def normalise_node_name_def require_eq seqA_def bindA_def)
    next
      case 3
      then show ?thesis by (simp add: create_node_def valid_state [OF assms(1)] require_eq seqA_def bindA_def split: sum.splits)
    next
      case 4
      then show ?thesis
        using validate_parent_kind_eval [OF 4(2), of kind s]
        by (auto simp: create_node_def valid_state [OF assms(1)] require_eq seqA_def bindA_def split: sum.splits)
    next
      case 5
      then show ?thesis
        using validate_parent_kind_eval [OF 5(2), of kind s] depth
        by (auto simp: create_node_def valid_state [OF assms(1)] require_eq seqA_def bindA_def split: sum.splits if_splits)
    qed
    with False show ?thesis by simp
  qed
qed

definition renamed_node :: "hierarchy_env \<Rightarrow> node \<Rightarrow> string \<Rightarrow> string \<Rightarrow> string \<Rightarrow> node" where
  "renamed_node env v i now name = new_node i (str_of (nd_kind v)) (he_nfc env name)
     (slug_base env (he_nfc env name) (str_of (nd_kind v)) @ ''--'' @ drop (length (str_of (nd_kind v)) + 1) i)
     (parent_of v) (str_of (nd_created v)) now"

lemma rename_node_spec:
  fixes name
  assumes "valid env s" and "env_ok env" and "map_of (hs_nodes s) i = Some v" and "\<not> he_blank env now"
  defines "t \<equiv> with_node (renamed_node env v i now name) s"
  shows "if first_failure (name_ladder env (he_nfc env name)) = None
    then valid env t \<and> (\<exists>w. rename_node env now i name s = (Inr (Some w), if str_of (nd_name v) = he_nfc env name then s else t))
    else \<exists>e. rename_node env now i name s = (Inl e, s)"
proof (cases "first_failure (name_ladder env (he_nfc env name))")
  case (Some msg)
  then show ?thesis by (simp add: rename_node_def normalise_node_name_def)
next
  case None
  then have name: "normalise_node_name env name = Inr (he_nfc env name)" by (simp add: normalise_node_name_def)
  note r = record_parts [OF valid_record [OF assms(1,3)]]
  obtain slug where slug: "portable_node_slug env (he_nfc env name) i (str_of (nd_kind v)) = Inr slug"
    "slug = slug_base env (he_nfc env name) (str_of (nd_kind v)) @ ''--'' @ drop (length (str_of (nd_kind v)) + 1) i"
    by (rule slug_total [OF normalise_twice [OF assms(2) name] r(2,5,6)])
  have "case parent_of v of None \<Rightarrow> True | Some q \<Rightarrow> node_id_ok q"
    using r(9) by (auto simp: parent_of_def)
  then have "node_record_errors env i (renamed_node env v i now name) = []"
    unfolding renamed_node_def slug(2) [symmetric]
    using r slug(1) normalise_twice [OF assms(2) name] assms(4)
    by (intro new_record_ok) (simp_all add: stamped_def)
  then have v: "valid env t"
    unfolding t_def by (intro keep_parent_valid [OF assms(1,3)]) (simp_all add: renamed_node_def)
  obtain w where "get_node env i s = (Inr (Some w), s)" using get_node_there [OF assms(1), of i] assms(3) by auto
  moreover obtain w' where "get_node env i t = (Inr (Some w'), t)"
    using get_node_there [OF v, of i] by (auto simp: t_def renamed_node_def)
  moreover have "nd_name v = JStr (he_nfc env name) \<longleftrightarrow> str_of (nd_name v) = he_nfc env name"
    using is_text_str [OF r(7)] by auto
  ultimately show ?thesis
    using None name v slug
    by (auto simp: rename_node_def valid_state [OF assms(1)] assms(3) t_def renamed_node_def)
qed

end
