(* ===== verification/Hierarchy_Classes.thy ===== *)
theory Hierarchy_Classes
  imports Hierarchy_Changes
begin

text \<open>
  Classifying a document: the stored classification, the views on it and its provenance edges.
  A stored edge is never touched, the missing ones are written, and a second classification
  with the same nodes writes nothing.
\<close>

section \<open>Classifications of a valid state\<close>

lemma class_parts:
  assumes "classification_errors env ns docs (i, c) = []"
  shows "cl_id c = JStr i" and "is_text (cl_document c)" and "str_of (cl_document c) \<in> set docs"
    and "i = classification_key env (str_of (cl_document c))" and "is_text (cl_primary c)"
    and "map_of ns (str_of (cl_primary c)) \<noteq> None"
    and "secondary_ids (cl_secondary c) = Some (class_secondary c)"
    and "\<forall>x \<in> set (class_secondary c). map_of ns x \<noteq> None"
    and "stamped env (cl_created c)" and "stamped env (cl_updated c)"
  using assms
  by (auto simp: classification_errors_def classification_identity_bad_def classification_id_def
      class_secondary_def list_ex_iff split: if_splits option.splits)

lemma valid_class:
  assumes "valid env s" and "(i, c) \<in> set (hs_classes s)"
  shows "classification_errors env (hs_nodes s) (hs_docs s) (i, c) = []"
  using validD(4) [OF assms(1)] assms(2) by (auto simp: classes_ok_def)

lemma secondary_ids_map [simp]: "secondary_ids (JList (map JStr ss)) = Some ss"
  by (simp add: secondary_ids_def all_text_def list_all_iff comp_def)

lemma classification_view_valid:
  assumes "valid env s" and "(i, c) \<in> set (hs_classes s)"
  obtains w where "classification_view (hs_nodes s) c = Inr w" and "cv_class w = c"
proof -
  note p = class_parts [OF valid_class [OF assms]]
  obtain line where line: "lineage (hs_nodes s) (str_of (cl_primary c)) = Inr line"
    by (rule lineage_valid [OF assms(1) p(6)])
  have "\<forall>x \<in> set (class_secondary c). \<exists>l. lineage (hs_nodes s) x = Inr l"
    using lineage_valid [OF assms(1)] p(8) by metis
  then obtain g where "\<And>x. x \<in> set (class_secondary c) \<Longrightarrow> lineage (hs_nodes s) x = Inr (g x)" by metis
  then have "collect (lineage (hs_nodes s)) (class_secondary c) = Inr (map g (class_secondary c))"
    by (rule collect_all)
  with line that show thesis by (simp add: classification_view_def)
qed

lemma classification_views_valid:
  assumes "valid env s"
  obtains f where "classification_views env s = (Inr (map (\<lambda>(i, c). (str_of (cl_document c), f c)) (hs_classes s)), s)"
    and "\<And>i c. (i, c) \<in> set (hs_classes s) \<Longrightarrow> cv_class (f c) = c"
proof -
  have "\<forall>c \<in> snd ` set (hs_classes s). \<exists>w. classification_view (hs_nodes s) c = Inr w \<and> cv_class w = c"
  proof
    fix c
    assume "c \<in> snd ` set (hs_classes s)"
    then obtain i where "(i, c) \<in> set (hs_classes s)" by auto
    then obtain w where "classification_view (hs_nodes s) c = Inr w" "cv_class w = c"
      by (rule classification_view_valid [OF assms])
    then show "\<exists>w. classification_view (hs_nodes s) c = Inr w \<and> cv_class w = c" by blast
  qed
  from bchoice [OF this] obtain f where f: "\<And>c. c \<in> snd ` set (hs_classes s) \<Longrightarrow> classification_view (hs_nodes s) c = Inr (f c)"
    "\<And>c. c \<in> snd ` set (hs_classes s) \<Longrightarrow> cv_class (f c) = c"
    by blast
  have "collect (classification_view (hs_nodes s)) (map snd (hs_classes s)) = Inr (map f (map snd (hs_classes s)))"
    by (rule collect_all) (use f(1) in simp)
  moreover have "map (\<lambda>v. (str_of (cl_document (cv_class v)), v)) (map f (map snd (hs_classes s)))
      = map (\<lambda>(i, c). (str_of (cl_document c), f c)) (hs_classes s)"
  proof -
    have "\<forall>x \<in> set (hs_classes s). cv_class (f (snd x)) = snd x" using f(2) by simp
    then show ?thesis by (simp add: case_prod_beta)
  qed
  ultimately have "classification_views env s = (Inr (map (\<lambda>(i, c). (str_of (cl_document c), f c)) (hs_classes s)), s)"
    by (simp add: classification_views_def valid_state [OF assms])
  moreover have "cv_class (f c) = c" if "(i, c) \<in> set (hs_classes s)" for i c
    using f(2) [of c] that by force
  ultimately show thesis using that by blast
qed

lemma documents_distinct:
  assumes "valid env s"
  shows "distinct (map (\<lambda>(i, c). str_of (cl_document c)) (hs_classes s))"
proof -
  let ?doc = "\<lambda>(i, c). str_of (cl_document c)"
  have "map fst (hs_classes s) = map (classification_key env) (map ?doc (hs_classes s))"
    using class_parts(4) [OF valid_class [OF assms]] by auto
  then have "distinct (map (classification_key env) (map ?doc (hs_classes s)))"
    using validD(6) [OF assms] by metis
  then show ?thesis by (simp only: distinct_map)
qed

lemma get_classification_valid:
  assumes "valid env s" and "map_of (hs_classes s) i = Some c"
  obtains w where "get_classification env (str_of (cl_document c)) s = (Inr (Some w), s)" and "cv_class w = c"
proof -
  obtain f where f: "classification_views env s = (Inr (map (\<lambda>(i, c). (str_of (cl_document c), f c)) (hs_classes s)), s)"
    "\<And>i c. (i, c) \<in> set (hs_classes s) \<Longrightarrow> cv_class (f c) = c"
    by (rule classification_views_valid [OF assms(1)]) blast
  let ?vs = "map (\<lambda>(i, c). (str_of (cl_document c), f c)) (hs_classes s)"
  have keys: "distinct (map fst (rev ?vs))"
  proof -
    have "map fst (rev ?vs) = rev (map (\<lambda>(i, c). str_of (cl_document c)) (hs_classes s))"
      by (simp add: rev_map case_prod_beta)
    then show ?thesis using documents_distinct [OF assms(1)] by (metis distinct_rev)
  qed
  have c: "(i, c) \<in> set (hs_classes s)" using assms(2) by (rule map_of_SomeD)
  then have "(str_of (cl_document c), f c) \<in> set (rev ?vs)" by force
  then have "map_of (rev ?vs) (str_of (cl_document c)) = Some (f c)"
    by (rule map_of_is_SomeI [OF keys])
  then show thesis
    using that [of "f c"] f(1) f(2) [OF c] by (simp add: get_classification_def)
qed

section \<open>Edges\<close>

definition edge_key :: "hierarchy_env \<Rightarrow> string \<Rightarrow> string \<times> string \<Rightarrow> string" where
  "edge_key env d a = classification_edge_id env d (fst a) (snd a)"

lemma existing_edge_key: "existing_edge env d a s = map_of (hs_edges s) (edge_key env d a)"
  by (cases a) (simp add: existing_edge_def edge_key_def)

lemma new_edge_matches: "edge_matches d (fst a) (snd a) (new_edge env d a now)"
  by (simp add: edge_matches_def new_edge_def)

lemma new_edge_key [simp]: "str_of (ed_id (new_edge env d a now)) = edge_key env d a"
  by (simp add: new_edge_def edge_key_def)

lemma write_edges:
  "\<exists>es. for_each (write_edge env d now before) as s = (Inr (), s\<lparr>hs_edges := es\<rparr>)
     \<and> (\<forall>k. (\<forall>a \<in> set as. existing_edge env d a before = None \<longrightarrow> edge_key env d a \<noteq> k) \<longrightarrow>
          map_of es k = map_of (hs_edges s) k)
     \<and> (inj_on (edge_key env d) (set as) \<longrightarrow> (\<forall>a \<in> set as. existing_edge env d a before = None \<longrightarrow>
          map_of es (edge_key env d a) = Some (new_edge env d a now)))"
proof (induction "as" arbitrary: s)
  case Nil
  show ?case by (intro exI [of _ "hs_edges s"]) simp
next
  case (Cons a as)
  show ?case
  proof (cases "existing_edge env d a before")
    case (Some e)
    then have head: "write_edge env d now before a s = (Inr (), s)" by (simp add: write_edge_def)
    obtain es where "for_each (write_edge env d now before) as s = (Inr (), s\<lparr>hs_edges := es\<rparr>)"
      "\<forall>k. (\<forall>a \<in> set as. existing_edge env d a before = None \<longrightarrow> edge_key env d a \<noteq> k) \<longrightarrow>
          map_of es k = map_of (hs_edges s) k"
      "inj_on (edge_key env d) (set as) \<longrightarrow> (\<forall>a \<in> set as. existing_edge env d a before = None \<longrightarrow>
          map_of es (edge_key env d a) = Some (new_edge env d a now))"
      using Cons.IH [of s] by blast
    with head Some show ?thesis by (intro exI [of _ es]) auto
  next
    case None
    let ?s = "s\<lparr>hs_edges := alist_put (str_of \<circ> ed_id) (new_edge env d a now) (hs_edges s)\<rparr>"
    have head: "write_edge env d now before a s = (Inr (), ?s)"
      using None by (simp add: write_edge_def write_provenance_def)
    have look: "map_of (alist_put (str_of \<circ> ed_id) (new_edge env d a now) (hs_edges s)) k = (if k = edge_key env d a then Some (new_edge env d a now) else map_of (hs_edges s) k)" for k
      by (simp add: map_of_alist_put)
    obtain es where es: "for_each (write_edge env d now before) as ?s = (Inr (), ?s\<lparr>hs_edges := es\<rparr>)"
      "\<And>k. (\<And>a. a \<in> set as \<Longrightarrow> existing_edge env d a before = None \<Longrightarrow> edge_key env d a \<noteq> k) \<Longrightarrow>
          map_of es k = map_of (hs_edges ?s) k"
      "\<And>a. inj_on (edge_key env d) (set as) \<Longrightarrow> a \<in> set as \<Longrightarrow> existing_edge env d a before = None \<Longrightarrow>
          map_of es (edge_key env d a) = Some (new_edge env d a now)"
      using Cons.IH [of ?s] by blast
    have mine: "map_of es (edge_key env d a) = Some (new_edge env d a now)"
      if inj: "inj_on (edge_key env d) (set (a # as))"
    proof (cases "a \<in> set as")
      case True
      then show ?thesis using es(3) [of a] inj None by (auto simp: inj_on_def)
    next
      case False
      then have "map_of es (edge_key env d a) = map_of (hs_edges ?s) (edge_key env d a)"
        using inj by (intro es(2)) (auto simp: inj_on_def)
      then show ?thesis by (simp add: look)
    qed
    have "map_of es k = map_of (hs_edges s) k"
      if "\<forall>b \<in> set (a # as). existing_edge env d b before = None \<longrightarrow> edge_key env d b \<noteq> k" for k
      using es(2) [of k] that None look [of k] by auto
    moreover have "map_of es (edge_key env d b) = Some (new_edge env d b now)"
      if "inj_on (edge_key env d) (set (a # as))" "b \<in> set (a # as)" "existing_edge env d b before = None" for b
      using mine es(3) [of b] that by (auto simp: inj_on_def)
    ultimately show ?thesis using head es(1) by (intro exI [of _ es]) simp
  qed
qed

lemma edges_kept_and_added:
  assumes same: "hs_edges s' = hs_edges s" and inj: "inj_on (edge_key env d) (set as)"
    and ok: "\<forall>a \<in> set as. case existing_edge env d a s of None \<Rightarrow> True | Some x \<Rightarrow> edge_matches d (fst a) (snd a) x"
  obtains es where "for_each (write_edge env d now s) as s' = (Inr (), s'\<lparr>hs_edges := es\<rparr>)"
    and "map_of (hs_edges s) \<subseteq>\<^sub>m map_of es"
    and "\<forall>a \<in> set as. \<exists>e. map_of es (edge_key env d a) = Some e \<and> edge_matches d (fst a) (snd a) e"
proof -
  obtain es where es: "for_each (write_edge env d now s) as s' = (Inr (), s'\<lparr>hs_edges := es\<rparr>)"
    "\<And>k. (\<forall>a \<in> set as. existing_edge env d a s = None \<longrightarrow> edge_key env d a \<noteq> k) \<Longrightarrow>
       map_of es k = map_of (hs_edges s') k"
    "\<And>a. a \<in> set as \<Longrightarrow> existing_edge env d a s = None \<Longrightarrow> map_of es (edge_key env d a) = Some (new_edge env d a now)"
    using write_edges [of env d now s "as" s'] inj by blast
  have kept: "map_of es k = Some e" if "map_of (hs_edges s) k = Some e" for k e
  proof -
    have "\<forall>a \<in> set as. existing_edge env d a s = None \<longrightarrow> edge_key env d a \<noteq> k"
      using that by (auto simp: existing_edge_key)
    then show ?thesis using es(2) [of k] that same by simp
  qed
  show thesis
  proof (rule that [OF es(1)])
    show "map_of (hs_edges s) \<subseteq>\<^sub>m map_of es" using kept by (auto simp: map_le_def)
    show "\<forall>a \<in> set as. \<exists>e. map_of es (edge_key env d a) = Some e \<and> edge_matches d (fst a) (snd a) e"
    proof
      fix a
      assume a: "a \<in> set as"
      show "\<exists>e. map_of es (edge_key env d a) = Some e \<and> edge_matches d (fst a) (snd a) e"
        using bspec [OF ok a] es(3) [OF a] kept [of "edge_key env d a"] new_edge_matches
        by (cases "existing_edge env d a s") (auto simp: existing_edge_key)
    qed
  qed
qed

lemma check_edges:
  "for_each (check_edge env d) as s = (if \<forall>a \<in> set as. case existing_edge env d a s of None \<Rightarrow> True
      | Some x \<Rightarrow> edge_matches d (fst a) (snd a) x then (Inr (), s)
    else (Inl (Integrity ''deterministic classification provenance edge is invalid''), s))"
  by (induction "as") (auto simp: check_edge_def require_eq seqA_def bindA_def)

section \<open>Classifying\<close>

text \<open>No two documents share a classification, no two associations of the document an edge.\<close>

definition collision_free :: "hierarchy_env \<Rightarrow> hstore \<Rightarrow> string \<Rightarrow> (string \<times> string) list \<Rightarrow> bool" where
  "collision_free env s d as \<longleftrightarrow>
     inj_on (classification_key env) (set (hs_docs s)) \<and> inj_on (edge_key env d) (set as)"

definition requested :: "string \<Rightarrow> string list \<Rightarrow> (string \<times> string) list" where
  "requested primary secondary = associations primary (sort (remdups secondary))"

lemma new_class_ok:
  assumes "env_ok env" and "d \<in> set docs" and "\<not> he_blank env d" and "map_of ns primary \<noteq> None"
    and "ss = sort (remdups secondary)" and "primary \<notin> set ss" and "\<forall>x \<in> set ss. map_of ns x \<noteq> None"
    and "\<not> he_blank env created" and "\<not> he_blank env updated"
  shows "classification_errors env ns docs (classification_key env d,
    new_classification (classification_key env d) d primary ss created updated) = []"
proof -
  have "classification_id_ok (classification_key env d)"
    unfolding classification_id_ok_def classification_key_def prefixed_hex_append
    using assms(1) by (auto simp: env_ok_def sha256_text_def list_all_iff dest: in_set_takeD)
  moreover have "ss = sort (remdups ss)"
    using assms(5) by (simp add: sorted_sort_id distinct_remdups_id)
  ultimately show ?thesis
    using assms(2-4,6-)
    by (auto simp: classification_errors_def classification_identity_bad_def classification_id_def
        new_classification_def is_one_def stamped_def list_ex_iff)
qed

text \<open>The record that is stored for the document after a successful call.\<close>

definition stored_as :: "hierarchy_env \<Rightarrow> string \<Rightarrow> string \<Rightarrow> string list \<Rightarrow> hstore \<Rightarrow> bool" where
  "stored_as env d primary ss t \<longleftrightarrow> (\<exists>c. map_of (hs_classes t) (classification_key env d) = Some c
     \<and> str_of (cl_document c) = d \<and> classified_as c primary ss)"

lemma valid_put_class:
  assumes "valid env s" and "cl_id c = JStr i" and "classification_errors env (hs_nodes s) (hs_docs s) (i, c) = []"
  shows "valid env (s\<lparr>hs_classes := alist_put (str_of \<circ> cl_id) c (hs_classes s), hs_edges := es\<rparr>)"
proof (rule validI)
  let ?cs = "alist_put (str_of \<circ> cl_id) c (hs_classes s)"
  note v = validD [OF assms(1)]
  show "classes_ok env (hs_nodes (s\<lparr>hs_classes := ?cs, hs_edges := es\<rparr>)) (hs_docs (s\<lparr>hs_classes := ?cs, hs_edges := es\<rparr>))
      (hs_classes (s\<lparr>hs_classes := ?cs, hs_edges := es\<rparr>))"
    unfolding classes_ok_def
  proof
    fix jc
    assume "jc \<in> set (hs_classes (s\<lparr>hs_classes := ?cs, hs_edges := es\<rparr>))"
    then have "jc \<in> set ?cs" by simp
    then obtain j e where jc: "jc = (j, e)" "map_of ?cs j = Some e"
      using mem_look [OF distinct_alist_put [OF v(6)]] by (metis surj_pair)
    then show "classification_errors env (hs_nodes (s\<lparr>hs_classes := ?cs, hs_edges := es\<rparr>))
        (hs_docs (s\<lparr>hs_classes := ?cs, hs_edges := es\<rparr>)) jc = []"
      using assms(2,3) valid_class [OF assms(1), of j e]
      by (auto simp: map_of_alist_put split: if_splits dest: map_of_SomeD)
  qed
qed (use validD [OF assms(1)] in \<open>simp_all add: distinct_alist_put\<close>)

lemma valid_edges: "valid env (s\<lparr>hs_edges := es\<rparr>) = valid env s"
  by (simp add: valid_def state_errors_def)

text \<open>What a classification that got past its checks does to the store.\<close>

lemma store_classification_spec:
  assumes "valid env s" and "env_ok env" and "\<not> he_blank env now"
    and "inj_on (classification_key env) (set (hs_docs s))"
    and "d \<in> set (hs_docs s)" and "\<not> he_blank env d" and "map_of (hs_nodes s) primary \<noteq> None"
    and "ss = sort (remdups secondary)" and "primary \<notin> set ss" and "\<forall>x \<in> set ss. map_of (hs_nodes s) x \<noteq> None"
  obtains cs stamp es where
    "store_classification env now d primary ss (classification_key env d)
       (map_of (hs_classes s) (classification_key env d)) s = (Inr (), s\<lparr>hs_classes := cs, hs_edges := es\<rparr>)"
    and "for_each (write_edge env d stamp s) (associations primary ss) (s\<lparr>hs_classes := cs\<rparr>)
       = (Inr (), s\<lparr>hs_classes := cs, hs_edges := es\<rparr>)"
    and "valid env (s\<lparr>hs_classes := cs, hs_edges := es\<rparr>)"
    and "stored_as env d primary ss (s\<lparr>hs_classes := cs, hs_edges := es\<rparr>)"
    and "cs = hs_classes s \<or> (\<exists>c. cs = alist_put (str_of \<circ> cl_id) c (hs_classes s)
       \<and> cl_id c = JStr (classification_key env d) \<and> cl_document c = JStr d
       \<and> cl_primary c = JStr primary \<and> secondary_ids (cl_secondary c) = Some ss)"
    and "stored_as env d primary ss s \<longrightarrow> cs = hs_classes s"
proof -
  note result = that
  let ?i = "classification_key env d" and ?as = "associations primary ss"
  have each: "\<exists>es. for_each (write_edge env d w s) ?as s' = (Inr (), s'\<lparr>hs_edges := es\<rparr>)" for w s'
    using write_edges [of env d w s ?as s'] by blast
  have put: thesis if created: "\<not> he_blank env created"
    and go: "store_classification env now d primary ss ?i (map_of (hs_classes s) ?i) s =
      seqA (write_classification (new_classification ?i d primary ss created now))
        (for_each (write_edge env d now s) ?as) s"
    and new: "\<not> stored_as env d primary ss s" for created
  proof -
    let ?c = "new_classification ?i d primary ss created now"
    let ?cs = "alist_put (str_of \<circ> cl_id) ?c (hs_classes s)"
    have id: "cl_id ?c = JStr ?i" by (simp add: new_classification_def)
    have ok: "classification_errors env (hs_nodes s) (hs_docs s) (?i, ?c) = []"
      by (rule new_class_ok) (use assms created in simp_all)
    obtain es where es: "for_each (write_edge env d now s) ?as (s\<lparr>hs_classes := ?cs\<rparr>) = (Inr (), s\<lparr>hs_classes := ?cs, hs_edges := es\<rparr>)"
      using each [of now "s\<lparr>hs_classes := ?cs\<rparr>"] by auto
    show thesis
    proof (rule result [of es ?cs now])
      show "stored_as env d primary ss (s\<lparr>hs_classes := ?cs, hs_edges := es\<rparr>)"
        by (simp add: stored_as_def map_of_alist_put new_classification_def classified_as_def)
    qed (use es go new valid_put_class [OF assms(1) id ok, of es] id in
        \<open>auto simp: write_classification_def new_classification_def\<close>)
  qed
  show thesis
  proof (cases "map_of (hs_classes s) ?i")
    case None
    then show thesis
      by (intro put [of now]) (use assms(3) in \<open>simp_all add: store_classification_def stored_as_def\<close>)
  next
    case (Some c)
    note p = class_parts [OF valid_class [OF assms(1) map_of_SomeD [OF Some]]]
    have doc: "str_of (cl_document c) = d"
      using p(3,4) assms(4,5) by (auto simp: inj_on_def)
    show thesis
    proof (cases "classified_as c primary ss")
      case True
      obtain es where es: "for_each (write_edge env d (str_of (cl_updated c)) s) ?as s = (Inr (), s\<lparr>hs_edges := es\<rparr>)"
        using each by blast
      show thesis
      proof (rule result [of es "hs_classes s" "str_of (cl_updated c)"])
        show "stored_as env d primary ss (s\<lparr>hs_classes := hs_classes s, hs_edges := es\<rparr>)"
          using Some doc True by (simp add: stored_as_def)
      qed (use True es Some valid_edges [of env es s] assms(1) in \<open>simp_all add: store_classification_def\<close>)
    next
      case False
      then show thesis
        using Some p(9) by (intro put [of "str_of (cl_created c)"])
          (simp_all add: store_classification_def stamped_def stored_as_def)
    qed
  qed
qed

definition edge_there :: "hierarchy_env \<Rightarrow> (string \<times> edge) list \<Rightarrow> string \<Rightarrow> string \<times> string \<Rightarrow> bool" where
  "edge_there env es d a \<longleftrightarrow> (\<exists>e. map_of es (edge_key env d a) = Some e \<and> edge_matches d (fst a) (snd a) e)"

lemma edge_faults_nil: "edge_faults env es i d a = [] \<longleftrightarrow> edge_there env es d a"
  by (cases a) (auto simp: edge_faults_def Let_def edge_there_def edge_key_def split: option.splits)

lemma provenance_nil:
  "classification_provenance_errors env cs es = [] \<longleftrightarrow>
   (\<forall>(i, c) \<in> set cs. \<forall>ss. secondary_ids (cl_secondary c) = Some ss \<longrightarrow> is_text (cl_document c) \<longrightarrow> is_text (cl_primary c) \<longrightarrow>
      (\<forall>a \<in> set (associations (str_of (cl_primary c)) ss). edge_there env es (str_of (cl_document c)) a))"
  by (auto simp: classification_provenance_errors_def edge_faults_nil split: option.splits)

lemma edge_there_mono: "map_of es \<subseteq>\<^sub>m map_of es' \<Longrightarrow> edge_there env es d a \<Longrightarrow> edge_there env es' d a"
  unfolding edge_there_def map_le_def by (metis domI)

lemma provenance_put:
  assumes "classification_provenance_errors env (hs_classes s) (hs_edges s) = []" and "map_of (hs_edges s) \<subseteq>\<^sub>m map_of es"
    and "valid env s" and "str_of (cl_document c) = d" and "classified_as c primary ss"
    and "\<forall>a \<in> set (associations primary ss). edge_there env es d a"
  shows "classification_provenance_errors env (alist_put (str_of \<circ> cl_id) c (hs_classes s)) es = []"
  unfolding provenance_nil
proof (rule ballI)
  fix jc
  assume "jc \<in> set (alist_put (str_of \<circ> cl_id) c (hs_classes s))"
  then obtain j e where jc: "jc = (j, e)" "map_of (alist_put (str_of \<circ> cl_id) c (hs_classes s)) j = Some e"
    using mem_look [OF distinct_alist_put [OF validD(6) [OF assms(3)]]] by (metis surj_pair)
  show "case jc of (i, c) \<Rightarrow> \<forall>ss. secondary_ids (cl_secondary c) = Some ss \<longrightarrow> is_text (cl_document c) \<longrightarrow>
      is_text (cl_primary c) \<longrightarrow> (\<forall>a \<in> set (associations (str_of (cl_primary c)) ss). edge_there env es (str_of (cl_document c)) a)"
  proof (cases "j = str_of (cl_id c)")
    case True
    then have "e = c" using jc(2) by (simp add: map_of_alist_put)
    then show ?thesis using assms(4-6) jc(1) by (auto simp: classified_as_def)
  next
    case False
    then have "(j, e) \<in> set (hs_classes s)" using jc(2) by (simp add: map_of_alist_put map_of_SomeD)
    then show ?thesis
      using assms(1) jc(1) edge_there_mono [OF assms(2)] unfolding provenance_nil by fastforce
  qed
qed

lemma provenance_same:
  assumes "classification_provenance_errors env cs es = []" and "map_of es \<subseteq>\<^sub>m map_of es'"
  shows "classification_provenance_errors env cs es' = []"
  using assms edge_there_mono [OF assms(2)] unfolding provenance_nil by fast

lemma write_edges_there:
  "(\<forall>a \<in> set as. existing_edge env d a before \<noteq> None) \<Longrightarrow> for_each (write_edge env d now before) as s = (Inr (), s)"
  by (induction "as") (simp_all add: write_edge_def)

definition classifiable :: "hierarchy_env \<Rightarrow> hstore \<Rightarrow> string \<Rightarrow> string \<Rightarrow> string list \<Rightarrow> bool" where
  "classifiable env s d primary secondary \<longleftrightarrow>
     d \<in> set (hs_docs s) \<and> \<not> he_blank env d \<and> map_of (hs_nodes s) primary \<noteq> None \<and> primary \<notin> set secondary
   \<and> (\<forall>x \<in> set secondary. map_of (hs_nodes s) x \<noteq> None)
   \<and> (\<forall>a \<in> set (requested primary secondary). case existing_edge env d a s of None \<Rightarrow> True
        | Some x \<Rightarrow> edge_matches d (fst a) (snd a) x)"

lemma classify_refused:
  assumes "valid env s" and "\<not> classifiable env s d primary secondary"
  shows "\<exists>e. classify_document env now d primary secondary s = (Inl e, s)"
proof -
  consider "d \<notin> set (hs_docs s)" | "map_of (hs_nodes s) primary = None" | "primary \<in> set secondary"
    | x where "x \<in> set secondary" "map_of (hs_nodes s) x = None"
    | "\<not> (\<forall>a \<in> set (requested primary secondary). case existing_edge env d a s of None \<Rightarrow> True
        | Some x \<Rightarrow> edge_matches d (fst a) (snd a) x)"
    | "he_blank env d"
    using assms(2) unfolding classifiable_def by blast
  then show ?thesis
    by cases (auto simp: classify_document_def valid_state [OF assms(1)] Let_def require_eq seqA_def bindA_def
        check_edges classification_id_def requested_def filter_empty_conv)
qed

lemma classify_accepted:
  assumes "valid env s" and "env_ok env" and "\<not> he_blank env now"
    and "collision_free env s d (requested primary secondary)" and ok: "classifiable env s d primary secondary"
  obtains w cs es where
    "classify_document env now d primary secondary s = (Inr (Some w), s\<lparr>hs_classes := cs, hs_edges := es\<rparr>)"
    and "valid env (s\<lparr>hs_classes := cs, hs_edges := es\<rparr>)"
    and "stored_as env d primary (sort (remdups secondary)) (s\<lparr>hs_classes := cs, hs_edges := es\<rparr>)"
    and "map_of cs (classification_key env d) = Some (cv_class w)"
    and "map_of (hs_edges s) \<subseteq>\<^sub>m map_of es"
    and "\<forall>a \<in> set (requested primary secondary). edge_there env es d a"
    and "classification_provenance_errors env (hs_classes s) (hs_edges s) = [] \<longrightarrow> classification_provenance_errors env cs es = []"
    and "stored_as env d primary (sort (remdups secondary)) s \<longrightarrow>
       (\<forall>a \<in> set (requested primary secondary). existing_edge env d a s \<noteq> None) \<longrightarrow>
       s\<lparr>hs_classes := cs, hs_edges := es\<rparr> = s"
proof -
  define ss where "ss = sort (remdups secondary)"
  let ?as = "associations primary ss" and ?i = "classification_key env d"
  have req: "requested primary secondary = ?as" by (simp add: requested_def ss_def)
  have d: "d \<in> set (hs_docs s)" "\<not> he_blank env d" "map_of (hs_nodes s) primary \<noteq> None" "primary \<notin> set ss"
    "\<forall>x \<in> set ss. map_of (hs_nodes s) x \<noteq> None"
    and edges: "\<forall>a \<in> set ?as. case existing_edge env d a s of None \<Rightarrow> True | Some x \<Rightarrow> edge_matches d (fst a) (snd a) x"
    using ok unfolding classifiable_def req by (auto simp: ss_def)
  have inj: "inj_on (classification_key env) (set (hs_docs s))" "inj_on (edge_key env d) (set ?as)"
    using assms(4) unfolding collision_free_def req by auto
  obtain cs stamp es where st: "store_classification env now d primary ss ?i (map_of (hs_classes s) ?i) s
        = (Inr (), s\<lparr>hs_classes := cs, hs_edges := es\<rparr>)"
    and we: "for_each (write_edge env d stamp s) ?as (s\<lparr>hs_classes := cs\<rparr>) = (Inr (), s\<lparr>hs_classes := cs, hs_edges := es\<rparr>)"
    and v: "valid env (s\<lparr>hs_classes := cs, hs_edges := es\<rparr>)"
    and stored: "stored_as env d primary ss (s\<lparr>hs_classes := cs, hs_edges := es\<rparr>)"
    and how: "cs = hs_classes s \<or> (\<exists>c. cs = alist_put (str_of \<circ> cl_id) c (hs_classes s)
       \<and> cl_id c = JStr ?i \<and> cl_document c = JStr d \<and> cl_primary c = JStr primary \<and> secondary_ids (cl_secondary c) = Some ss)"
    and same: "stored_as env d primary ss s \<longrightarrow> cs = hs_classes s"
    by (rule store_classification_spec [OF assms(1-3) inj(1) d(1-3) ss_def d(4,5)])
  obtain es' where es': "for_each (write_edge env d stamp s) ?as (s\<lparr>hs_classes := cs\<rparr>) = (Inr (), s\<lparr>hs_classes := cs\<rparr>\<lparr>hs_edges := es'\<rparr>)"
    "map_of (hs_edges s) \<subseteq>\<^sub>m map_of es'"
    "\<forall>a \<in> set ?as. \<exists>e. map_of es' (edge_key env d a) = Some e \<and> edge_matches d (fst a) (snd a) e"
    by (rule edges_kept_and_added [OF _ inj(2) edges, where now = stamp and s' = "s\<lparr>hs_classes := cs\<rparr>"]) simp
  have eq: "s\<lparr>hs_classes := cs\<rparr>\<lparr>hs_edges := es'\<rparr> = s\<lparr>hs_classes := cs, hs_edges := es\<rparr>" using es'(1) we by simp
  then have es: "es' = es" using arg_cong [OF eq, of hs_edges] by simp
  have le: "map_of (hs_edges s) \<subseteq>\<^sub>m map_of es" and there: "\<forall>a \<in> set ?as. edge_there env es d a"
    using es'(2,3) by (auto simp: es edge_there_def)
  let ?t = "s\<lparr>hs_classes := cs, hs_edges := es\<rparr>"
  obtain c where c: "map_of (hs_classes ?t) ?i = Some c" "str_of (cl_document c) = d"
    using stored by (auto simp: stored_as_def)
  obtain w where w: "get_classification env d ?t = (Inr (Some w), ?t)" "cv_class w = c"
    using get_classification_valid [OF v c(1)] c(2) by metis
  have "classify_document env now d primary secondary s = (Inr (Some w), ?t)"
  proof -
    have "filter (\<lambda>x. map_of (hs_nodes s) x = None) ss = []" using d(5) by (simp add: filter_empty_conv)
    then show ?thesis
      using d edges st w(1) unfolding classify_document_def Let_def ss_def [symmetric]
      by (simp add: valid_state [OF assms(1)] check_edges classification_id_def)
  qed
  moreover have "classification_provenance_errors env cs es = []"
    if none: "classification_provenance_errors env (hs_classes s) (hs_edges s) = []"
    using how
  proof
    assume "cs = hs_classes s"
    then show ?thesis using provenance_same [OF none le] by simp
  next
    assume "\<exists>c. cs = alist_put (str_of \<circ> cl_id) c (hs_classes s)
       \<and> cl_id c = JStr ?i \<and> cl_document c = JStr d \<and> cl_primary c = JStr primary \<and> secondary_ids (cl_secondary c) = Some ss"
    then show ?thesis using provenance_put [OF none le assms(1) _ _ there] by (auto simp: classified_as_def)
  qed
  moreover have "?t = s" if "stored_as env d primary ss s" and "\<forall>a \<in> set ?as. existing_edge env d a s \<noteq> None"
  proof -
    have cs: "cs = hs_classes s" using same that(1) by simp
    have "s = ?t" using we write_edges_there [OF that(2), of stamp "s\<lparr>hs_classes := cs\<rparr>"] by (simp add: cs)
    then show ?thesis by simp
  qed
  ultimately show thesis
    using that [of w es cs] v stored w(2) c(1) le there unfolding req ss_def [symmetric] by simp
qed

text \<open>A second classification by the same nodes writes nothing.\<close>

lemma classify_again:
  assumes "valid env s" and "env_ok env" and "\<not> he_blank env now"
    and "collision_free env s d (requested primary secondary)" and "classifiable env s d primary secondary"
  obtains w t where "classify_document env now d primary secondary s = (Inr (Some w), t)"
    and "\<forall>later. \<not> he_blank env later \<longrightarrow> (\<exists>w'. classify_document env later d primary secondary t = (Inr (Some w'), t) \<and> cv_class w' = cv_class w)"
proof -
  obtain w cs es where one: "classify_document env now d primary secondary s = (Inr (Some w), s\<lparr>hs_classes := cs, hs_edges := es\<rparr>)"
    and v: "valid env (s\<lparr>hs_classes := cs, hs_edges := es\<rparr>)"
    and stored: "stored_as env d primary (sort (remdups secondary)) (s\<lparr>hs_classes := cs, hs_edges := es\<rparr>)"
    and view: "map_of cs (classification_key env d) = Some (cv_class w)"
    and there: "\<forall>a \<in> set (requested primary secondary). edge_there env es d a"
    by (rule classify_accepted [OF assms])
  let ?t = "s\<lparr>hs_classes := cs, hs_edges := es\<rparr>"
  have ex: "\<forall>a \<in> set (requested primary secondary). existing_edge env d a ?t \<noteq> None"
    using there by (auto simp: edge_there_def existing_edge_key)
  have ok: "classifiable env ?t d primary secondary"
    using assms(5) there by (auto simp: classifiable_def edge_there_def existing_edge_key split: option.splits)
  have cf: "collision_free env ?t d (requested primary secondary)"
    using assms(4) by (simp add: collision_free_def)
  have "\<exists>w'. classify_document env later d primary secondary ?t = (Inr (Some w'), ?t) \<and> cv_class w' = cv_class w"
    if later: "\<not> he_blank env later" for later
  proof -
    obtain w' cs' es' where two: "classify_document env later d primary secondary ?t = (Inr (Some w'), ?t\<lparr>hs_classes := cs', hs_edges := es'\<rparr>)"
      and view': "map_of cs' (classification_key env d) = Some (cv_class w')"
      and same: "stored_as env d primary (sort (remdups secondary)) ?t \<longrightarrow>
        (\<forall>a \<in> set (requested primary secondary). existing_edge env d a ?t \<noteq> None) \<longrightarrow> ?t\<lparr>hs_classes := cs', hs_edges := es'\<rparr> = ?t"
      by (rule classify_accepted [OF v assms(2) later cf ok])
    have eq: "?t\<lparr>hs_classes := cs', hs_edges := es'\<rparr> = ?t" using same stored ex by simp
    have "hs_classes (?t\<lparr>hs_classes := cs', hs_edges := es'\<rparr>) = hs_classes ?t" by (simp only: eq)
    then have "cs' = cs" by simp
    with two eq view view' show ?thesis by auto
  qed
  with one that show thesis by blast
qed

end
