(* ===== verification/Hierarchy_System.thy ===== *)
theory Hierarchy_System
  imports Hierarchy_Classes "HOL-Library.Multiset"
begin

text \<open>
  The hierarchy as a whole: every request keeps the stored state valid, every read of a valid
  state ends, and the listing is a walk of the forest with parents before children.
\<close>

section \<open>Listing the forest\<close>

lemma reaches_linear: "reaches ns x a \<Longrightarrow> reaches ns x b \<Longrightarrow> reaches ns a b \<or> reaches ns b a"
proof (induction arbitrary: b rule: reaches.induct)
  case (self i)
  then show ?case by simp
next
  case (up i v p a)
  have ia: "reaches ns i a" by (rule reaches.up [OF up.hyps])
  from up.prems have "b = i \<or> reaches ns p b"
    by (rule reachesE) (use up.hyps in auto)
  then show ?case using ia up.IH by blast
qed

lemma reaches_same_level:
  assumes "forest ns" and "reaches ns x a" and "reaches ns x b" and "dep ns a = dep ns b"
  shows "a = b"
  using reaches_linear [OF assms(2,3)] reaches_dep [OF _ assms(1)] assms(4) by metis

definition view_id :: "node_view \<Rightarrow> string" where
  "view_id w = str_of (nd_id (nv_node w))"

fun parents_first :: "string option \<Rightarrow> string set \<Rightarrow> node_view list \<Rightarrow> bool" where
  "parents_first p seen [] = True"
| "parents_first p seen (w # ws) =
     ((parent_of (nv_node w) = p \<or> parent_of (nv_node w) \<in> Some ` seen) \<and> parents_first p (insert (view_id w) seen) ws)"

lemma parents_first_append:
  "parents_first p seen (xs @ ys) \<longleftrightarrow> parents_first p seen xs \<and> parents_first p (seen \<union> view_id ` set xs) ys"
  by (induction xs arbitrary: seen) simp_all

lemma parents_first_mono: "parents_first p seen ws \<Longrightarrow> seen \<subseteq> seen' \<Longrightarrow> parents_first p seen' ws"
proof (induction ws arbitrary: seen seen')
  case (Cons w ws)
  then show ?case using Cons.IH [of "insert (view_id w) seen" "insert (view_id w) seen'"] by auto
qed simp

lemma parents_first_below: "parents_first (Some q) seen ws \<Longrightarrow> q \<in> seen \<Longrightarrow> parents_first p seen ws"
  by (induction ws arbitrary: seen) auto

text \<open>What a list of views lists: the nodes of a set, each once.\<close>

definition lists :: "nodes \<Rightarrow> node_view list \<Rightarrow> string set \<Rightarrow> bool" where
  "lists ns ws I \<longleftrightarrow> distinct (map view_id ws) \<and> view_id ` set ws = I
     \<and> (\<forall>w \<in> set ws. map_of ns (view_id w) = Some (nv_node w) \<and> nv_depth w < 64)"

lemma lists_append: "lists ns xs I \<Longrightarrow> lists ns ys J \<Longrightarrow> I \<inter> J = {} \<Longrightarrow> lists ns (xs @ ys) (I \<union> J)"
  by (auto simp: lists_def)

definition under :: "nodes \<Rightarrow> string option \<Rightarrow> string set" where
  "under ns p = (case p of None \<Rightarrow> {i. map_of ns i \<noteq> None} | Some q \<Rightarrow> beneath ns q)"

definition level :: "nodes \<Rightarrow> string option \<Rightarrow> nat" where
  "level ns p = (case p of None \<Rightarrow> 0 | Some q \<Rightarrow> dep ns q)"

definition top_ids :: "hierarchy_env \<Rightarrow> nodes \<Rightarrow> string option \<Rightarrow> string list" where
  "top_ids env ns p = map (str_of \<circ> nd_id) (children env ns p)"

lemma child_level:
  assumes "forest ns" and "map_of ns c = Some v" and "parent_of v = p"
  shows "dep ns c = Suc (level ns p)"
  using assms dep_root [of ns c v] dep_step(1) [OF assms(1,2)] by (cases p) (auto simp: level_def)

lemma reaches_root:
  assumes "forest ns" and "map_of ns i \<noteq> None"
  shows "\<exists>r v. reaches ns i r \<and> map_of ns r = Some v \<and> parent_of v = None"
proof -
  obtain vs where "rooted ns i vs" by (rule forestD [OF assms])
  then show ?thesis
  proof (induction rule: rooted.induct)
    case (root i v)
    then show ?case using self [of ns i] by auto
  next
    case (step i v p vs)
    then show ?case using reaches.up by blast
  qed
qed

lemma under_children:
  assumes "keyed_nodes ns" and "forest ns" and "case p of None \<Rightarrow> True | Some q \<Rightarrow> map_of ns q \<noteq> None"
  shows "under ns p = (\<Union>v \<in> set (children env ns p). insert (str_of (nd_id v)) (beneath ns (str_of (nd_id v))))"
proof (cases p)
  case (Some q)
  then show ?thesis using beneath_children [OF assms(1,2), of q env] assms(3)
    by (simp add: under_def child_ids_def)
next
  case None
  have kid: "v \<in> set (children env ns None) \<longleftrightarrow> map_of ns (str_of (nd_id v)) = Some v \<and> parent_of v = None" for v
    using keyed_look [OF assms(1)] by (auto simp: set_children)
  have "map_of ns i \<noteq> None \<longleftrightarrow> (\<exists>v \<in> set (children env ns None). i = str_of (nd_id v) \<or> i \<in> beneath ns (str_of (nd_id v)))" for i
  proof
    assume "map_of ns i \<noteq> None"
    then obtain r v where r: "reaches ns i r" "map_of ns r = Some v" "parent_of v = None"
      using reaches_root [OF assms(2)] by blast
    then have "str_of (nd_id v) = r" using keyed_id [OF assms(1)] by blast
    with r kid [of v] show "\<exists>v \<in> set (children env ns None). i = str_of (nd_id v) \<or> i \<in> beneath ns (str_of (nd_id v))"
      by (intro bexI [of _ v]) (auto simp: beneath_def)
  next
    assume "\<exists>v \<in> set (children env ns None). i = str_of (nd_id v) \<or> i \<in> beneath ns (str_of (nd_id v))"
    then show "map_of ns i \<noteq> None" using kid reaches_dom by (fastforce simp: beneath_def)
  qed
  with None show ?thesis by (auto simp: under_def)
qed

lemma children_distinct:
  assumes "keyed_nodes ns"
  shows "distinct (map (str_of \<circ> nd_id) (children env ns p))"
proof -
  have "map fst ns = map (str_of \<circ> nd_id) (map snd ns)"
    using assms by (auto simp: keyed_nodes_def)
  then have "distinct (map (str_of \<circ> nd_id) (map snd ns))" using assms by (metis keyed_nodes_def)
  then have "distinct (map (str_of \<circ> nd_id) (filter (\<lambda>v. parent_of v = p) (map snd ns)))"
    by (rule distinct_map_filter)
  moreover have "mset (children env ns p) = mset (filter (\<lambda>v. parent_of v = p) (map snd ns))"
    by (simp add: children_def)
  ultimately show ?thesis by (metis mset_eq_imp_distinct_iff mset_map)
qed

lemma walk_below:
  assumes v: "valid env s"
  shows "(case p of None \<Rightarrow> True | Some q \<Rightarrow> map_of (hs_nodes s) q \<noteq> None) \<Longrightarrow> 64 < k + level (hs_nodes s) p \<Longrightarrow>
    \<exists>ws. append_children env (hs_nodes s) cs k p = Inr ws \<and> lists (hs_nodes s) ws (under (hs_nodes s) p)
      \<and> parents_first p {} ws"
proof (induction k arbitrary: p)
  case 0
  have "level (hs_nodes s) p \<le> 64"
    using 0(1) dep_bound [OF validD(3) [OF v]] by (auto simp: level_def split: option.splits)
  with 0(2) show ?case by simp
next
  case (Suc k)
  let ?ns = "hs_nodes s" and ?id = "\<lambda>v. str_of (nd_id v)"
  note key = valid_keyed [OF v] and ft = validD(3) [OF v]
  have kid: "map_of ?ns (?id c) = Some c \<and> parent_of c = p \<and> dep ?ns (?id c) = Suc (level ?ns p)"
    if "c \<in> set (children env ?ns p)" for c
  proof -
    have "map_of ?ns (?id c) = Some c" "parent_of c = p"
      using that keyed_look [OF key] by (auto simp: set_children)
    then show ?thesis using child_level [OF ft] by blast
  qed
  have each: "\<exists>ws. append_each env ?ns cs k vs = Inr ws
      \<and> lists ?ns ws (\<Union>v \<in> set vs. insert (?id v) (beneath ?ns (?id v))) \<and> parents_first p {} ws"
    if "set vs \<subseteq> set (children env ?ns p)" "distinct (map ?id vs)" for vs
    using that
  proof (induction vs)
    case Nil
    show ?case by (simp add: lists_def)
  next
    case (Cons c vs)
    have c: "map_of ?ns (?id c) = Some c" "parent_of c = p" "dep ?ns (?id c) = Suc (level ?ns p)"
      using kid [of c] Cons.prems(1) by auto
    have dom: "map_of ?ns (?id c) \<noteq> None" using c(1) by simp
    obtain w where w: "node_view env ?ns cs c = Inr w" "nv_node w = c" "Suc (nv_depth w) = dep ?ns (?id c)"
      by (rule node_view_valid [OF v c(1), of cs])
    obtain below where below: "append_children env ?ns cs k (Some (?id c)) = Inr below"
      "lists ?ns below (beneath ?ns (?id c))" "parents_first (Some (?id c)) {} below"
      using Suc.IH [of "Some (?id c)"] Suc.prems(2) c(3) dom by (auto simp: level_def under_def)
    obtain rest where rest: "append_each env ?ns cs k vs = Inr rest"
      "lists ?ns rest (\<Union>v \<in> set vs. insert (?id v) (beneath ?ns (?id v)))" "parents_first p {} rest"
      using Cons.IH Cons.prems by auto
    let ?R = "\<Union>v \<in> set vs. insert (?id v) (beneath ?ns (?id v))"
    have apart: "insert (?id c) (beneath ?ns (?id c)) \<inter> ?R = {}"
    proof (rule ccontr)
      assume "insert (?id c) (beneath ?ns (?id c)) \<inter> ?R \<noteq> {}"
      then obtain x u where x: "x = ?id c \<or> x \<in> beneath ?ns (?id c)" "u \<in> set vs" "x = ?id u \<or> x \<in> beneath ?ns (?id u)"
        by blast
      have u: "map_of ?ns (?id u) = Some u" "dep ?ns (?id u) = Suc (level ?ns p)"
        using kid [of u] x(2) Cons.prems(1) by auto
      have own: "reaches ?ns (?id c) (?id c)" "reaches ?ns (?id u) (?id u)"
        by (rule self, use c(1) in simp, rule self, use u(1) in simp)
      have xc: "reaches ?ns x (?id c)" using x(1) own(1) by (elim disjE) (simp_all add: beneath_def)
      have xu: "reaches ?ns x (?id u)" using x(3) own(2) by (elim disjE) (simp_all add: beneath_def)
      have "?id c = ?id u"
        by (rule reaches_same_level [OF ft xc xu]) (use c(3) u(2) in simp)
      with x(2) Cons.prems(2) show False by auto
    qed
    have wid: "view_id w = ?id c" by (simp add: view_id_def w(2))
    have one: "lists ?ns [w] {?id c}"
      using w c(1) dep_bound [OF ft dom] by (simp add: lists_def wid)
    have two: "lists ?ns ([w] @ below) ({?id c} \<union> beneath ?ns (?id c))"
      by (rule lists_append [OF one below(2)]) (simp add: beneath_def)
    have "lists ?ns (([w] @ below) @ rest) (({?id c} \<union> beneath ?ns (?id c)) \<union> ?R)"
      by (rule lists_append [OF two rest(2)]) (use apart in simp)
    then have "lists ?ns (w # below @ rest) (\<Union>v \<in> set (c # vs). insert (?id v) (beneath ?ns (?id v)))" by simp
    moreover have "parents_first p {} (w # below @ rest)"
      using parents_first_below [OF parents_first_mono [OF below(3)], of "{?id c}" p]
        parents_first_mono [OF rest(3), of "{?id c} \<union> view_id ` set below"] c(2)
      by (simp add: parents_first_append w(2) wid)
    moreover have "append_each env ?ns cs k (c # vs) = Inr (w # below @ rest)"
      by (simp add: w(1) below(1) rest(1))
    ultimately show ?case by blast
  qed
  show ?case
    using each [of "children env ?ns p"] children_distinct [OF key, of env p] under_children [OF key ft Suc.prems(1), of env]
    by (simp add: comp_def)
qed

lemma list_nodes_valid:
  assumes "valid env s"
  obtains ws where "list_nodes env 65 s = (Inr ws, s)" and "distinct (map nv_node ws)"
    and "set (map nv_node ws) = snd ` set (hs_nodes s)" and "parents_first None {} ws"
    and "\<forall>w \<in> set ws. nv_depth w < MAX_HIERARCHY_DEPTH"
proof -
  obtain ws where ws: "append_children env (hs_nodes s) (hs_classes s) 65 None = Inr ws"
    "lists (hs_nodes s) ws {i. map_of (hs_nodes s) i \<noteq> None}" "parents_first None {} ws"
    using walk_below [OF assms, of None 65 "hs_classes s"] by (auto simp: under_def level_def)
  note key = valid_keyed [OF assms]
  have "distinct (map nv_node ws)"
  proof -
    have "map view_id ws = map (str_of \<circ> nd_id) (map nv_node ws)" by (simp add: view_id_def)
    with ws(2) have "distinct (map (str_of \<circ> nd_id) (map nv_node ws))" by (simp add: lists_def)
    then show ?thesis by (simp only: distinct_map)
  qed
  moreover have "set (map nv_node ws) = snd ` set (hs_nodes s)"
  proof
    show "set (map nv_node ws) \<subseteq> snd ` set (hs_nodes s)"
      using ws(2) by (force simp: lists_def dest: map_of_SomeD)
    show "snd ` set (hs_nodes s) \<subseteq> set (map nv_node ws)"
    proof
      fix v
      assume "v \<in> snd ` set (hs_nodes s)"
      then have v: "map_of (hs_nodes s) (str_of (nd_id v)) = Some v" using keyed_look [OF key] by blast
      then have "str_of (nd_id v) \<in> view_id ` set ws" using ws(2) by (simp add: lists_def)
      then obtain w where "w \<in> set ws" "view_id w = str_of (nd_id v)" by auto
      with v ws(2) show "v \<in> set (map nv_node ws)" by (auto simp: lists_def)
    qed
  qed
  ultimately show thesis
    using that ws by (auto simp: list_nodes_def valid_state [OF assms] lists_def MAX_HIERARCHY_DEPTH_def)
qed

section \<open>Requests\<close>

datatype hrequest =
    Create string string string string "string option"
  | Rename string string string
  | Move string string "string option"
  | Classify string string string "string list"

definition done_or_raised :: "('e + 'a) \<times> 's \<Rightarrow> ('e + unit) \<times> 's" where
  "done_or_raised = map_prod (map_sum id (\<lambda>_. ())) id"

fun perform :: "hierarchy_env \<Rightarrow> hrequest \<Rightarrow> unit hact" where
  "perform env (Create hex now kind name p) s = done_or_raised (create_node env hex now kind name p s)"
| "perform env (Rename now i name) s = done_or_raised (rename_node env now i name s)"
| "perform env (Move now i p) s = done_or_raised (move_node env now i p s)"
| "perform env (Classify now d primary secondary) s = done_or_raised (classify_document env now d primary secondary s)"

text \<open>
  The clock returns a text, the uuid of a new node is fresh and of 32 hexadecimal digits, and
  the digests that a classification is keyed by do not collide.
\<close>

fun admissible :: "hierarchy_env \<Rightarrow> hstore \<Rightarrow> hrequest \<Rightarrow> bool" where
  "admissible env s (Create hex now kind name p) \<longleftrightarrow> \<not> he_blank env now \<and> length hex = 32 \<and> list_all hexchar hex
     \<and> map_of (hs_nodes s) (kind @ ''_'' @ hex) = None"
| "admissible env s (Rename now i name) \<longleftrightarrow> \<not> he_blank env now"
| "admissible env s (Move now i p) \<longleftrightarrow> \<not> he_blank env now"
| "admissible env s (Classify now d primary secondary) \<longleftrightarrow> \<not> he_blank env now
     \<and> collision_free env s d (requested primary secondary)"

definition empty_hierarchy :: "string list \<Rightarrow> hstore" where
  "empty_hierarchy docs = \<lparr>hs_nodes = [], hs_classes = [], hs_docs = docs, hs_edges = []\<rparr>"

inductive hreached :: "hierarchy_env \<Rightarrow> hstore \<Rightarrow> bool" for env where
  start: "hreached env (empty_hierarchy docs)"
| request: "hreached env s \<Longrightarrow> admissible env s r \<Longrightarrow> perform env r s = (res, t) \<Longrightarrow> hreached env t"

definition provenance_ok :: "hierarchy_env \<Rightarrow> hstore \<Rightarrow> bool" where
  "provenance_ok env s \<longleftrightarrow> classification_provenance_errors env (hs_classes s) (hs_edges s) = []"

lemma provenance_with_node [simp]: "provenance_ok env (with_node n s) = provenance_ok env s"
  by (simp add: provenance_ok_def)

lemma raised [simp]: "done_or_raised (Inl e, t) = (Inl e, t)" "done_or_raised (Inr x, t) = (Inr (), t)"
  by (simp_all add: done_or_raised_def)

text \<open>What one request does to a valid store.\<close>

lemma perform_step:
  assumes "valid env s" and "env_ok env" and "admissible env s r"
  shows "(\<exists>e. perform env r s = (Inl e, s)) \<or> (\<exists>t. perform env r s = (Inr (), t) \<and> valid env t \<and> hs_docs t = hs_docs s
     \<and> (provenance_ok env s \<longrightarrow> provenance_ok env t))"
proof (cases r)
  case (Create hex now kind name p)
  with assms have a: "length hex = 32" "list_all hexchar hex" "map_of (hs_nodes s) (kind @ ''_'' @ hex) = None" "\<not> he_blank env now"
    by simp_all
  show ?thesis
  proof (cases "creatable env (hs_nodes s) kind name p")
    case True
    then show ?thesis
      using create_node_spec [OF assms(1,2) a, of name p] created_valid [OF assms(1,2) True a] by (auto simp: Create)
  next
    case False
    then show ?thesis using create_node_spec [OF assms(1,2) a, of name p] by (auto simp: Create)
  qed
next
  case (Rename now i name)
  with assms have a: "\<not> he_blank env now" by simp
  show ?thesis
  proof (cases "map_of (hs_nodes s) i")
    case None
    then show ?thesis
      by (cases "normalise_node_name env name") (simp_all add: Rename rename_node_def valid_state [OF assms(1)])
  next
    case (Some v)
    show ?thesis using rename_node_spec [OF assms(1,2) Some a, of name] assms(1) by (auto simp: Rename split: if_splits)
  qed
next
  case (Move now i p)
  with assms have a: "\<not> he_blank env now" by simp
  show ?thesis
  proof (cases "map_of (hs_nodes s) i")
    case None
    then show ?thesis by (simp add: Move move_node_def valid_state [OF assms(1)])
  next
    case (Some v)
    show ?thesis using move_node_valid [OF assms(1) Some a, of p] assms(1) by (auto simp: Move split: if_splits)
  qed
next
  case (Classify now d primary secondary)
  with assms have a: "\<not> he_blank env now" "collision_free env s d (requested primary secondary)" by simp_all
  show ?thesis
  proof (cases "classifiable env s d primary secondary")
    case True
    obtain w cs es where c: "classify_document env now d primary secondary s = (Inr (Some w), s\<lparr>hs_classes := cs, hs_edges := es\<rparr>)"
      "valid env (s\<lparr>hs_classes := cs, hs_edges := es\<rparr>)"
      "classification_provenance_errors env (hs_classes s) (hs_edges s) = [] \<longrightarrow> classification_provenance_errors env cs es = []"
      by (rule classify_accepted [OF assms(1,2) a True])
    then show ?thesis by (simp add: Classify provenance_ok_def)
  next
    case False
    then show ?thesis using classify_refused [OF assms(1) False, of now] by (auto simp: Classify)
  qed
qed

lemma empty_valid: "valid env (empty_hierarchy docs)"
  by (rule validI) (auto simp: empty_hierarchy_def records_ok_def kinds_ok_def forest_def classes_ok_def)

lemma hreached_ok: "hreached env s \<Longrightarrow> env_ok env \<Longrightarrow> valid env s \<and> provenance_ok env s"
proof (induction rule: hreached.induct)
  case (start docs)
  show ?case using empty_valid by (simp add: provenance_ok_def empty_hierarchy_def classification_provenance_errors_def)
next
  case (request s r res t)
  then show ?case using perform_step [of env s r] by auto
qed

text \<open>C5: The stored hierarchy stays valid: starting from an empty one, after any sequence of
  creations, renamings, movements and classifications, accepted or refused, the validator finds
  no fault in the nodes, in the parent relation or in the classifications, and every
  classification has its provenance edges.\<close>

theorem hierarchy_stays_valid:
  assumes "hreached env s" and "env_ok env"
  shows "canonical_hierarchy_errors env (hs_nodes s) (hs_classes s) (hs_docs s) = []
    \<and> classification_provenance_errors env (hs_classes s) (hs_edges s) = []"
  using hreached_ok [OF assms] validD(7) [of env s] by (simp add: provenance_ok_def state_errors_def)


text \<open>C8: A movement is accepted exactly when its result is valid: the checks of the parent's
  existence and kind, of cycles and of the depth of the whole subtree let a movement pass if and
  only if the validator accepts the store with the new parent; then that store is written
  (nothing, when the parent is the same), and otherwise nothing is.\<close>

theorem move_is_validity:
  assumes "hreached env s" and "env_ok env" and "map_of (hs_nodes s) i = Some v" and "\<not> he_blank env now"
  shows "if state_errors env (with_node (moved_node v i p now) s) = []
    then \<exists>w. move_node env now i p s = (Inr (Some w), if parent_of v = p then s else with_node (moved_node v i p now) s)
    else \<exists>e. move_node env now i p s = (Inl e, s)"
proof -
  have v: "valid env s" using hreached_ok [OF assms(1,2)] by simp
  show ?thesis
    using move_node_valid [OF v assms(3,4), where p = p] valid_errors [OF v, of "moved_node v i p now"] by simp
qed

text \<open>C27: The walks of a reachable hierarchy end: the loop to the root, the two loops over
  descendants and the nested listing return for every node, 65 nested calls are enough, and the
  listing shows every node once, each after its parent, at a depth below 64.\<close>

theorem hierarchy_walks_end:
  assumes "hreached env s" and "env_ok env"
  shows "(\<exists>ws. list_nodes env 65 s = (Inr ws, s) \<and> distinct (map nv_node ws)
      \<and> set (map nv_node ws) = snd ` set (hs_nodes s) \<and> parents_first None {} ws
      \<and> list_all (\<lambda>w. nv_depth w < MAX_HIERARCHY_DEPTH) ws)
    \<and> list_all (\<lambda>(i, v). (\<exists>line. lineage (hs_nodes s) i = Inr line \<and> length line \<le> MAX_HIERARCHY_DEPTH)
        \<and> descendant_ids env (hs_nodes s) i = Inr {d. reaches (hs_nodes s) d i}
        \<and> (\<exists>h. subtree_height env (hs_nodes s) i = Inr h \<and> h \<le> MAX_HIERARCHY_DEPTH)) (hs_nodes s)"
proof
  have v: "valid env s" using hreached_ok [OF assms] by simp
  show "\<exists>ws. list_nodes env 65 s = (Inr ws, s) \<and> distinct (map nv_node ws)
      \<and> set (map nv_node ws) = snd ` set (hs_nodes s) \<and> parents_first None {} ws
      \<and> list_all (\<lambda>w. nv_depth w < MAX_HIERARCHY_DEPTH) ws"
    by (rule list_nodes_valid [OF v]) (auto simp: list_all_iff)
  have "(\<exists>line. lineage (hs_nodes s) i = Inr line \<and> length line \<le> MAX_HIERARCHY_DEPTH)
      \<and> descendant_ids env (hs_nodes s) i = Inr {d. reaches (hs_nodes s) d i}
      \<and> (\<exists>h. subtree_height env (hs_nodes s) i = Inr h \<and> h \<le> MAX_HIERARCHY_DEPTH)"
    if "(i, n) \<in> set (hs_nodes s)" for i n
  proof -
    have dom: "map_of (hs_nodes s) i \<noteq> None" using weak_map_of_SomeI [OF that] by auto
    obtain line where "lineage (hs_nodes s) i = Inr line" "length line = dep (hs_nodes s) i"
      by (rule lineage_valid [OF v dom])
    moreover obtain m where m: "subtree_height env (hs_nodes s) i = Inr m" "deepest (hs_nodes s) i 1 m"
      by (rule subtree_height_forest [OF valid_keyed [OF v] validD(3) [OF v] dom])
    moreover have "m \<le> 64"
    proof -
      obtain x where "reaches (hs_nodes s) x i" "m = 1 + (dep (hs_nodes s) x - dep (hs_nodes s) i)"
        using m(2) by (auto simp: deepest_def)
      then show ?thesis using dep_bound [OF validD(3) [OF v], of x] dep_bound [OF validD(3) [OF v] dom] reaches_dom
        by fastforce
    qed
    ultimately show ?thesis
      using descendants_valid [OF v dom] dep_bound [OF validD(3) [OF v] dom] by (simp add: MAX_HIERARCHY_DEPTH_def)
  qed
  then show "list_all (\<lambda>(i, v). (\<exists>line. lineage (hs_nodes s) i = Inr line \<and> length line \<le> MAX_HIERARCHY_DEPTH)
        \<and> descendant_ids env (hs_nodes s) i = Inr {d. reaches (hs_nodes s) d i}
        \<and> (\<exists>h. subtree_height env (hs_nodes s) i = Inr h \<and> h \<le> MAX_HIERARCHY_DEPTH)) (hs_nodes s)"
    by (auto simp: list_all_iff)
qed

text \<open>C23: Classifying a document is exact: the call is accepted exactly when the document and
  all the nodes exist, the primary is not among the secondary ones and no stored edge contradicts
  it; then the classification of the document names the primary and the sorted distinct
  secondary nodes, every association has its provenance edge, no stored edge was touched, and
  classifying again later by the same nodes returns the same record and writes nothing.\<close>

theorem classification_is_exact:
  assumes "hreached env s" and "env_ok env" and "\<not> he_blank env now"
    and "collision_free env s d (requested primary secondary)"
  shows "if classifiable env s d primary secondary
    then \<exists>w t. classify_document env now d primary secondary s = (Inr (Some w), t)
      \<and> map_of (hs_classes t) (classification_key env d) = Some (cv_class w)
      \<and> classified_as (cv_class w) primary (sort (remdups secondary))
      \<and> list_all (edge_there env (hs_edges t) d) (requested primary secondary)
      \<and> map_of (hs_edges s) \<subseteq>\<^sub>m map_of (hs_edges t)
      \<and> (\<forall>later. he_blank env later \<or> (\<exists>w'. classify_document env later d primary secondary t = (Inr (Some w'), t)
            \<and> cv_class w' = cv_class w))
    else \<exists>e. classify_document env now d primary secondary s = (Inl e, s)"
proof (cases "classifiable env s d primary secondary")
  case True
  have v: "valid env s" using hreached_ok [OF assms(1,2)] by simp
  obtain w cs es where one: "classify_document env now d primary secondary s = (Inr (Some w), s\<lparr>hs_classes := cs, hs_edges := es\<rparr>)"
    and stored: "stored_as env d primary (sort (remdups secondary)) (s\<lparr>hs_classes := cs, hs_edges := es\<rparr>)"
    and view: "map_of cs (classification_key env d) = Some (cv_class w)"
    and le: "map_of (hs_edges s) \<subseteq>\<^sub>m map_of es" and there: "\<forall>a \<in> set (requested primary secondary). edge_there env es d a"
    by (rule classify_accepted [OF v assms(2-4) True])
  obtain w2 t2 where two: "classify_document env now d primary secondary s = (Inr (Some w2), t2)"
    "\<forall>later. \<not> he_blank env later \<longrightarrow> (\<exists>w'. classify_document env later d primary secondary t2 = (Inr (Some w'), t2) \<and> cv_class w' = cv_class w2)"
    by (rule classify_again [OF v assms(2-4) True])
  have "classified_as (cv_class w) primary (sort (remdups secondary))"
    using stored view by (auto simp: stored_as_def)
  then show ?thesis
    using True one view le there two by (auto simp: list_all_iff)
next
  case False
  then show ?thesis using classify_refused [of env s] hreached_ok [OF assms(1,2)] by simp
qed

text \<open>Every accepted name gives a slug, and the slug gives the identity back: for a name that
  passes the ladder and an identity of its kind, the derivation never fails, the slug is portable
  and at most 98 characters long, and its last 32 characters after the kind are the identity.\<close>

theorem slug_gives_identity_back:
  assumes "normalise_node_name env name = Inr selected" and "node_id_ok i"
    and "kind \<in> set HIERARCHY_KINDS" and "take (length kind + 1) i = kind @ ''_''"
  shows "\<exists>slug. portable_node_slug env name i kind = Inr slug \<and> portable_slug_ok slug \<and> length slug \<le> 98
    \<and> kind @ ''_'' @ drop (length slug - 32) slug = i"
proof -
  obtain slug where "portable_node_slug env name i kind = Inr slug" "portable_slug_ok slug" "length slug \<le> 98"
    by (rule slug_total [OF assms])
  then show ?thesis using slug_suffix by metis
qed

end
