(* ===== verification/Hierarchy_Example.thy ===== *)
theory Hierarchy_Example
  imports Hierarchy_System
begin

text \<open>
  A small hierarchy, built by requests, at which the properties of the hierarchy are
  instantiated: an area with two projects and one classified document.
\<close>

definition digit_of :: "char \<Rightarrow> char" where
  "digit_of c = ''0123456789abcdef'' ! (of_char c mod 16)"

definition tail_digest :: "string \<Rightarrow> string" where
  "tail_digest x = (let h = map digit_of (take 64 (rev x)) in h @ replicate (64 - length h) (CHR ''0''))"

definition env_x :: hierarchy_env where
  "env_x = \<lparr>he_nfc = (\<lambda>x. x), he_ascii = (\<lambda>x. x), he_control = (\<lambda>_. False), he_blank = (\<lambda>x. x = []),
     he_casefold = (\<lambda>x. x), he_sha = tail_digest\<rparr>"

definition area_x :: string where "area_x = ''area_'' @ replicate 32 (CHR ''1'')"
definition roof_x :: string where "roof_x = ''project_'' @ replicate 32 (CHR ''2'')"
definition wall_x :: string where "wall_x = ''project_'' @ replicate 32 (CHR ''3'')"

definition create_area :: hrequest where
  "create_area = Create (replicate 32 (CHR ''1'')) ''t1'' ''area'' ''home'' None"
definition create_roof :: hrequest where
  "create_roof = Create (replicate 32 (CHR ''2'')) ''t2'' ''project'' ''roof'' (Some area_x)"
definition create_wall :: hrequest where
  "create_wall = Create (replicate 32 (CHR ''3'')) ''t3'' ''project'' ''wall'' (Some area_x)"

text \<open>The records that the requests write, and the stores after each of them.\<close>

definition area_node :: node where
  "area_node = new_node area_x ''area'' ''home'' (''home--'' @ replicate 32 (CHR ''1'')) None ''t1'' ''t1''"
definition roof_node :: node where
  "roof_node = new_node roof_x ''project'' ''roof'' (''roof--'' @ replicate 32 (CHR ''2'')) (Some area_x) ''t2'' ''t2''"
definition wall_node :: node where
  "wall_node = new_node wall_x ''project'' ''wall'' (''wall--'' @ replicate 32 (CHR ''3'')) (Some area_x) ''t3'' ''t3''"

definition h0 :: hstore where "h0 = empty_hierarchy [''d1'']"
definition h1 :: hstore where "h1 = h0\<lparr>hs_nodes := [(area_x, area_node)]\<rparr>"
definition h2 :: hstore where "h2 = h0\<lparr>hs_nodes := [(area_x, area_node), (roof_x, roof_node)]\<rparr>"
definition h3 :: hstore where "h3 = h0\<lparr>hs_nodes := [(area_x, area_node), (roof_x, roof_node), (wall_x, wall_node)]\<rparr>"

lemma env_x_ok: "env_ok env_x"
proof -
  have "hexchar (digit_of c)" for c
  proof -
    have "(of_char c :: nat) mod 16 \<in> set [0..<16]" by simp
    then show ?thesis unfolding digit_of_def hexchar_def by (auto simp: upt_rec nth_Cons')
  qed
  then have "sha256_text (tail_digest x)" for x
    by (auto simp: sha256_text_def tail_digest_def Let_def list_all_iff hexchar_def)
  then show ?thesis by (simp add: env_ok_def env_x_def)
qed

lemma created:
  "perform env_x create_area h0 = (Inr (), h1)"
  "perform env_x create_roof h1 = (Inr (), h2)"
  "perform env_x create_wall h2 = (Inr (), h3)"
  by code_simp+

lemma fresh: "admissible env_x h0 create_area" "admissible env_x h1 create_roof" "admissible env_x h2 create_wall"
  by code_simp+

lemma hreached_h3: "hreached env_x h3"
  using start [of env_x "[''d1'']"] hreached.request [OF _ fresh(1) created(1)] hreached.request [OF _ fresh(2) created(2)]
    hreached.request [OF _ fresh(3) created(3)] by (simp add: h0_def)

section \<open>Witnesses\<close>

lemma hierarchy_stays_valid_witness:
  "length (hs_nodes h3) = 3 \<and> canonical_hierarchy_errors env_x (hs_nodes h3) (hs_classes h3) (hs_docs h3) = []"
proof
  show "length (hs_nodes h3) = 3" by code_simp
  show "canonical_hierarchy_errors env_x (hs_nodes h3) (hs_classes h3) (hs_docs h3) = []"
    using hierarchy_stays_valid [OF hreached_h3 env_x_ok] ..
qed

text \<open>A project cannot hold the area above it: the request is refused.\<close>

definition bad_move :: hrequest where "bad_move = Move ''t4'' area_x (Some roof_x)"


text \<open>The roof moves under the wall.\<close>

lemma move_is_validity_witness:
  "\<exists>w. move_node env_x ''t4'' roof_x (Some wall_x) h3
     = (Inr (Some w), with_node (moved_node roof_node roof_x (Some wall_x) ''t4'') h3)"
proof -
  have "map_of (hs_nodes h3) roof_x = Some roof_node" "\<not> he_blank env_x ''t4''" "parent_of roof_node \<noteq> Some wall_x"
    "state_errors env_x (with_node (moved_node roof_node roof_x (Some wall_x) ''t4'') h3) = []"
    by code_simp+
  then show ?thesis
    using move_is_validity [OF hreached_h3 env_x_ok, of roof_x roof_node "''t4''" "Some wall_x"] by simp
qed

lemma hierarchy_walks_end_witness:
  "\<exists>ws. list_nodes env_x 65 h3 = (Inr ws, h3) \<and> parents_first None {} ws"
  using hierarchy_walks_end [OF hreached_h3 env_x_ok] by blast

lemma classification_is_exact_witness:
  "\<exists>w t. classify_document env_x ''t5'' ''d1'' roof_x [wall_x, wall_x] h3 = (Inr (Some w), t)
     \<and> classified_as (cv_class w) roof_x [wall_x]"
proof -
  have "\<not> he_blank env_x ''t5''" "collision_free env_x h3 ''d1'' (requested roof_x [wall_x, wall_x])"
    "classifiable env_x h3 ''d1'' roof_x [wall_x, wall_x]" "sort (remdups [wall_x, wall_x]) = [wall_x]"
    by code_simp+
  then show ?thesis
    using classification_is_exact [OF hreached_h3 env_x_ok, of "''t5''" "''d1''" roof_x "[wall_x, wall_x]"] by auto
qed

lemma slug_gives_identity_back_witness:
  "\<exists>slug. portable_node_slug env_x ''roof'' roof_x ''project'' = Inr slug
     \<and> ''project_'' @ drop (length slug - 32) slug = roof_x"
proof -
  have "normalise_node_name env_x ''roof'' = Inr ''roof''" "node_id_ok roof_x" "''project'' \<in> set HIERARCHY_KINDS"
    "take (length ''project'' + 1) roof_x = ''project'' @ ''_''"
    by code_simp+
  from slug_gives_identity_back [OF this] show ?thesis by auto
qed

end
