(* ===== verification/Retention_Model.thy ===== *)
theory Retention_Model
  imports Fault_Logic "HOL-Library.Sublist"
begin

text \<open>
  Dispositions of documents (core/provelume/retention_model.py): a document is active, archived
  or in the trash, and shown in the library or not; a trashed one remembers what it was. The
  files of the Instance, the ledger of operations (core/provelume/operations.py) and the readers
  of canonical records (core/provelume/storage.py) that the retention manager works with.
\<close>

section \<open>Errors and surroundings\<close>

text \<open>\<open>Ret_stop\<close> is the stop of the process, \<open>Ret_io\<close> an \<open>OSError\<close> of a write.\<close>

datatype retention_error =
    Ret_not_found string
  | Ret_conflict string
  | Ret_integrity string
  | Purge_authorization string
  | Purge_transaction string
  | Ret_value string
  | Ret_key
  | Ret_io
  | Ret_stop

record op_event =
  oe_at :: string
  oe_level :: string
  oe_code :: string
  oe_message :: string

record oper =
  op_id :: string
  op_kind :: string
  op_title :: string
  op_status :: string
  op_started :: string
  op_completed :: "string option"
  op_summary :: "string option"
  op_related :: "(string \<times> string) list"
  op_metrics :: "(string \<times> int) list"
  op_error_code :: "string option"
  op_error :: "string option"
  op_events :: "op_event list"

text \<open>
  A file holds a JSON value, the record of an operation, the receipt of a purge (of which the
  fields that have one admissible value are left out), or other bytes.
\<close>

record purge_receipt =
  pr_status :: string
  pr_operation :: string
  pr_completed :: "string option"
  pr_identity :: string
  pr_token :: string
  pr_impact :: string
  pr_canonical :: int
  pr_originals :: int
  pr_original_bytes :: int
  pr_derived :: int
  pr_shared :: int
  pr_backups :: int
  pr_unscanned :: int

datatype content = Json json | Oper oper | Receipt purge_receipt | Raw string

type_synonym files = "(string \<times> content) list"

text \<open>
  What the retention manager takes from its surroundings: name-based UUIDs and SHA-256, the
  text of JSON values in files and in digests, Python's \<open>str\<close> on other values, stripping,
  times, the validator of an Instance, and the index and library that are rebuilt from the
  other files.
\<close>

record retention_env =
  re_uuid5 :: "string \<Rightarrow> string"
  re_sha :: "string \<Rightarrow> string"
  re_bytes :: "content \<Rightarrow> string"
  re_canon :: "json \<Rightarrow> string"
  re_str :: "json \<Rightarrow> string"
  re_strip :: "string \<Rightarrow> string"
  re_parse_time :: "string \<Rightarrow> int option"
  re_iso :: "int \<Rightarrow> string"
  re_inspect :: "files \<Rightarrow> bool \<times> string"
  re_views :: "files \<Rightarrow> files"

definition py_str :: "retention_env \<Rightarrow> json \<Rightarrow> string" where
  "py_str env j = (case j of JStr s \<Rightarrow> s | _ \<Rightarrow> re_str env j)"

fun set_field :: "string \<Rightarrow> json \<Rightarrow> json \<Rightarrow> json" where
  "set_field k v (JObj kvs) = JObj (AList.update k v kvs)"
| "set_field k v j = j"

definition text_of :: "json \<Rightarrow> string" where
  "text_of j = (case j of JStr s \<Rightarrow> s | _ \<Rightarrow> [])"

definition is_str :: "json \<Rightarrow> bool" where
  "is_str j \<longleftrightarrow> (case j of JStr _ \<Rightarrow> True | _ \<Rightarrow> False)"

definition one :: "json \<Rightarrow> bool" where
  "one j \<longleftrightarrow> j = JInt 1 \<or> j = JBool True \<or> j = JFloat 1"

definition filled :: "retention_env \<Rightarrow> json \<Rightarrow> bool" where
  "filled env j \<longleftrightarrow> is_str j \<and> re_strip env (text_of j) \<noteq> []"

section \<open>Dispositions\<close>

text \<open>
  A JSON array or object as status or visibility is no member of a set of texts here; the code
  raises a \<open>TypeError\<close> on it.
\<close>

definition document_id_ok :: "string \<Rightarrow> bool" where "document_id_ok = prefixed_hex ''doc_'' 32"
definition disposition_id_ok :: "string \<Rightarrow> bool" where "disposition_id_ok = prefixed_hex ''disp_'' 32"
definition operation_id_ok :: "string \<Rightarrow> bool" where "operation_id_ok = prefixed_hex ''op_'' 32"

definition DISPOSITION_STATUSES :: "string list" where
  "DISPOSITION_STATUSES = [''active'', ''archived'', ''trashed'']"

definition LIBRARY_VISIBILITIES :: "string list" where
  "LIBRARY_VISIBILITIES = [''included'', ''excluded'']"

definition disposition_id :: "retention_env \<Rightarrow> string \<Rightarrow> string" where
  "disposition_id env d = ''disp_'' @ re_uuid5 env (''provelume:disposition:1:'' @ d)"

definition default_disposition :: "retention_env \<Rightarrow> string \<Rightarrow> json" where
  "default_disposition env d = JObj
     [(''schema_version'', JInt 1), (''id'', JStr (disposition_id env d)), (''document_id'', JStr d),
      (''status'', JStr ''active''), (''library_visibility'', JStr ''included''), (''restore_status'', JNull),
      (''restore_library_visibility'', JNull), (''revision'', JInt 0), (''created_at'', JNull),
      (''updated_at'', JNull), (''last_operation_id'', JNull), (''recorded'', JBool False)]"

definition disposition_view :: "json \<Rightarrow> json" where
  "disposition_view v =
     (let status = text_of (jget v ''status''); visibility = text_of (jget v ''library_visibility'') in
      set_field ''projected'' (JBool (status \<noteq> ''trashed'' \<and> visibility = ''included''))
      (set_field ''trashed'' (JBool (status = ''trashed''))
      (set_field ''archived'' (JBool (status = ''archived'')) v)))"

definition disposition_fields :: "string list" where
  "disposition_fields =
     [''schema_version'', ''id'', ''document_id'', ''status'', ''library_visibility'', ''restore_status'',
      ''restore_library_visibility'', ''revision'', ''created_at'', ''updated_at'', ''last_operation_id'']"

type_synonym disp_fault = "string \<times> string \<times> string"

definition fault_if :: "bool \<Rightarrow> string \<Rightarrow> string \<Rightarrow> string \<Rightarrow> disp_fault list" where
  "fault_if b code msg i = (if b then [(code, msg, ''knowledge/dispositions/'' @ i @ ''.json'')] else [])"

definition disposition_identity_bad :: "retention_env \<Rightarrow> string \<Rightarrow> json \<Rightarrow> bool" where
  "disposition_identity_bad env i v \<longleftrightarrow>
     (let d = jget v ''document_id'' in
      \<not> has_fields disposition_fields v \<or> \<not> one (jget v ''schema_version'') \<or> \<not> disposition_id_ok i
    \<or> \<not> is_str d \<or> \<not> document_id_ok (text_of d) \<or> jget v ''id'' \<noteq> JStr i
    \<or> disposition_id env (text_of d) \<noteq> i)"

definition revision_ok :: "json \<Rightarrow> bool" where
  "revision_ok j \<longleftrightarrow> (case j of JInt n \<Rightarrow> 1 \<le> n | _ \<Rightarrow> False)"

definition one_of :: "string list \<Rightarrow> json \<Rightarrow> bool" where
  "one_of xs j \<longleftrightarrow> is_str j \<and> text_of j \<in> set xs"

definition disposition_state_bad :: "retention_env \<Rightarrow> json \<Rightarrow> bool" where
  "disposition_state_bad env v \<longleftrightarrow>
     \<not> one_of DISPOSITION_STATUSES (jget v ''status'') \<or> \<not> one_of LIBRARY_VISIBILITIES (jget v ''library_visibility'')
   \<or> \<not> revision_ok (jget v ''revision'') \<or> \<not> filled env (jget v ''created_at'') \<or> \<not> filled env (jget v ''updated_at'')
   \<or> \<not> operation_id_ok (py_str env (jget v ''last_operation_id''))"

definition restore_state_ok :: "json \<Rightarrow> bool" where
  "restore_state_ok v \<longleftrightarrow>
     (let trashed = (jget v ''status'' = JStr ''trashed''); rs = jget v ''restore_status'';
          rv = jget v ''restore_library_visibility'' in
      trashed \<and> one_of [''active'', ''archived''] rs \<and> one_of LIBRARY_VISIBILITIES rv
    \<or> \<not> trashed \<and> rs = JNull \<and> rv = JNull)"

fun disposition_errors ::
  "retention_env \<Rightarrow> string list \<Rightarrow> string list \<Rightarrow> (string \<times> json) list \<Rightarrow> disp_fault list" where
  "disposition_errors env docs seen [] = []"
| "disposition_errors env docs seen ((i, v) # rest) =
     (if disposition_identity_bad env i v
      then fault_if True ''disposition_record_invalid'' ''Document disposition identity or schema is invalid'' i
           @ disposition_errors env docs seen rest
      else let d = text_of (jget v ''document_id'') in
           fault_if (d \<in> set seen) ''disposition_document_duplicate'' ''Document has more than one disposition record'' i
         @ fault_if (d \<notin> set docs) ''disposition_document_missing'' ''Disposition references a missing Document'' i
         @ fault_if (disposition_state_bad env v) ''disposition_state_invalid''
             ''Document disposition state, revision or operation identity is invalid'' i
         @ fault_if (\<not> restore_state_ok v) ''disposition_restore_state_invalid'' ''Trash restoration state is invalid'' i
         @ disposition_errors env docs (d # seen) rest)"

definition canonical_disposition_errors ::
  "retention_env \<Rightarrow> (string \<times> json) list \<Rightarrow> string list \<Rightarrow> disp_fault list" where
  "canonical_disposition_errors env ds docs = disposition_errors env docs [] ds"

section \<open>Reading the files\<close>

definition canonical_path :: "string \<Rightarrow> string \<Rightarrow> string" where
  "canonical_path kind i = ''knowledge/'' @ kind @ ''/'' @ i @ ''.json''"

text \<open>The files \<open>dir/*.json\<close>, in the order of their paths.\<close>

definition in_directory :: "string \<Rightarrow> string \<Rightarrow> bool" where
  "in_directory dir p \<longleftrightarrow>
     (let n = length dir + 1; name = drop n p in
      take n p = dir @ ''/'' \<and> CHR ''/'' \<notin> set name \<and> suffix ''.json'' name)"

definition json_objects :: "string \<Rightarrow> files \<Rightarrow> retention_error + json list" where
  "json_objects dir fs = collect
     (\<lambda>x. case snd x of Json (JObj kvs) \<Rightarrow> Inr (JObj kvs) | _ \<Rightarrow> Inl (Ret_value ''expected JSON object''))
     (sort_key fst (filter (\<lambda>x. in_directory dir (fst x)) fs))"

definition list_canonical :: "string \<Rightarrow> files \<Rightarrow> retention_error + json list" where
  "list_canonical kind fs = json_objects (''knowledge/'' @ kind) fs"

definition read_canonical :: "string \<Rightarrow> string \<Rightarrow> files \<Rightarrow> retention_error + json option" where
  "read_canonical kind i fs =
     (case map_of fs (canonical_path kind i) of
        None \<Rightarrow> Inr None
      | Some (Json (JObj kvs)) \<Rightarrow> Inr (Some (JObj kvs))
      | Some _ \<Rightarrow> Inl (Ret_value ''expected JSON object''))"

text \<open>A dictionary built from a list keeps the last value of a key, at the place of the first.\<close>

definition keyed_by :: "('a \<Rightarrow> string) \<Rightarrow> 'a list \<Rightarrow> (string \<times> 'a) list" where
  "keyed_by f xs = fold (\<lambda>x d. AList.update (f x) x d) xs []"

definition disposition_records :: "retention_env \<Rightarrow> files \<Rightarrow> retention_error + (string \<times> json) list" where
  "disposition_records env fs =
     (case list_canonical ''documents'' fs of
        Inl e \<Rightarrow> Inl e
      | Inr docs \<Rightarrow>
          if \<not> list_all (has_key ''id'') docs then Inl Ret_key else
          (case list_canonical ''dispositions'' fs of
             Inl e \<Rightarrow> Inl e
           | Inr raw \<Rightarrow>
               let ids = map (\<lambda>d. py_str env (jget d ''id'')) docs;
                   ds = keyed_by (\<lambda>v. if has_key ''id'' v then py_str env (jget v ''id'') else []) raw in
               if length ds \<noteq> length raw then Inl (Ret_integrity ''Document disposition identity is duplicated'')
               else (case canonical_disposition_errors env ds ids of
                   (_, msg, _) # _ \<Rightarrow> Inl (Ret_integrity msg)
                 | [] \<Rightarrow> Inr (keyed_by (\<lambda>v. text_of (jget v ''document_id'')) (map snd ds)))))"

definition current_disposition :: "retention_env \<Rightarrow> string \<Rightarrow> (string \<times> json) list \<Rightarrow> json" where
  "current_disposition env d recorded = disposition_view (case map_of recorded d of
       None \<Rightarrow> set_field ''recorded'' (JBool False) (default_disposition env d)
     | Some v \<Rightarrow> set_field ''recorded'' (JBool True) v)"

definition effective_dispositions :: "retention_env \<Rightarrow> files \<Rightarrow> retention_error + (string \<times> json) list" where
  "effective_dispositions env fs =
     (case list_canonical ''documents'' fs of
        Inl e \<Rightarrow> Inl e
      | Inr docs \<Rightarrow>
          (case disposition_records env fs of
             Inl e \<Rightarrow> Inl e
           | Inr recorded \<Rightarrow> Inr (keyed_by (\<lambda>v. text_of (jget v ''document_id''))
               (map (\<lambda>d. current_disposition env (py_str env (jget d ''id'')) recorded) docs))))"

section \<open>The ledger of operations\<close>

definition OPERATION_STATUSES :: "string list" where
  "OPERATION_STATUSES = [''running'', ''completed'', ''completed_with_errors'', ''failed'']"

definition OPERATION_LEVELS :: "string list" where
  "OPERATION_LEVELS = [''info'', ''warning'', ''error'']"

definition MAX_MESSAGE_CHARS :: nat where "MAX_MESSAGE_CHARS = 2000"
definition MAX_CODE_CHARS :: nat where "MAX_CODE_CHARS = 120"
definition MAX_EVENTS :: nat where "MAX_EVENTS = 500"

definition bounded :: "retention_env \<Rightarrow> string option \<Rightarrow> string option" where
  "bounded env s = map_option (\<lambda>x. take MAX_MESSAGE_CHARS (re_strip env x)) s"

definition event_ok :: "retention_env \<Rightarrow> op_event \<Rightarrow> bool" where
  "event_ok env e \<longleftrightarrow> oe_level e \<in> set OPERATION_LEVELS \<and> re_strip env (oe_at e) \<noteq> []
     \<and> re_strip env (oe_code e) \<noteq> [] \<and> re_strip env (oe_message e) \<noteq> []"

definition oper_ok :: "retention_env \<Rightarrow> oper \<Rightarrow> bool" where
  "oper_ok env r \<longleftrightarrow> operation_id_ok (op_id r) \<and> op_status r \<in> set OPERATION_STATUSES
     \<and> re_strip env (op_kind r) \<noteq> [] \<and> re_strip env (op_title r) \<noteq> [] \<and> re_strip env (op_started r) \<noteq> []
     \<and> list_all (event_ok env) (op_events r)"

definition operation_path :: "string \<Rightarrow> string" where
  "operation_path i = ''state/operations/records/'' @ i @ ''.json''"

definition get_record :: "retention_env \<Rightarrow> string \<Rightarrow> files \<Rightarrow> oper option" where
  "get_record env i fs =
     (if \<not> operation_id_ok i then None
      else case map_of fs (operation_path i) of
        Some (Oper r) \<Rightarrow> if oper_ok env r then Some r else None
      | _ \<Rightarrow> None)"

definition new_operation ::
  "retention_env \<Rightarrow> string \<Rightarrow> string \<Rightarrow> string \<Rightarrow> string \<Rightarrow> string option \<Rightarrow> (string \<times> string) list \<Rightarrow> oper" where
  "new_operation env hex now kind title summary related =
     \<lparr>op_id = ''op_'' @ hex, op_kind = take MAX_CODE_CHARS (re_strip env kind),
      op_title = (case bounded env (Some title) of Some (c # cs) \<Rightarrow> c # cs | _ \<Rightarrow> re_strip env kind),
      op_status = ''running'', op_started = now, op_completed = None, op_summary = bounded env summary,
      op_related = map (\<lambda>(k, v). (take MAX_CODE_CHARS k, take MAX_MESSAGE_CHARS v)) (sort related),
      op_metrics = [], op_error_code = None, op_error = None, op_events = []\<rparr>"

definition closed_operation ::
  "retention_env \<Rightarrow> string \<Rightarrow> oper \<Rightarrow> string \<Rightarrow> string option \<Rightarrow> (string \<times> int) list \<Rightarrow> string option \<Rightarrow> string option \<Rightarrow> oper" where
  "closed_operation env now r status summary metrics code error =
     r\<lparr>op_status := status, op_completed := Some now,
       op_summary := (case summary of None \<Rightarrow> op_summary r | Some s \<Rightarrow> bounded env (Some s)),
       op_metrics := map (\<lambda>(k, v). (take MAX_CODE_CHARS k, v)) metrics,
       op_error_code := (case code of None \<Rightarrow> None | Some c \<Rightarrow> if take MAX_CODE_CHARS c = [] then None else Some (take MAX_CODE_CHARS c)),
       op_error := bounded env error\<rparr>"

end
