(* ===== verification/Retention_Store.thy ===== *)
theory Retention_Store
  imports Retention_Model Atomic_Commit
begin

text \<open>
  The retention manager (core/provelume/retention.py) on a disk whose writes may fail or never
  happen: the targets of a purge, its staging, the recovery of an interrupted one, the changes
  of a disposition, the preview and the confirmed purge. The lifecycle lock makes one call run
  at a time; links are not modelled.
\<close>

section \<open>The disk\<close>

record purge_target =
  pt_path :: string
  pt_category :: string
  pt_size :: nat
  pt_sha :: string

datatype purge_phase = Purge_prepared | Purge_committed

record pending_purge =
  pg_phase :: purge_phase
  pg_document :: string
  pg_operation :: string
  pg_token :: string
  pg_preview :: string
  pg_stage :: string
  pg_targets :: "purge_target list"
  pg_receipt :: purge_receipt

datatype pending_file = No_pending | Bad_pending | Pending pending_purge

record purge_preview =
  pv_token :: string
  pv_document :: string
  pv_revision :: int
  pv_fingerprint :: string
  pv_impact :: string
  pv_inventory :: string
  pv_created :: int
  pv_expires :: int

text \<open>
  The live files, the staging directories in the lock area, and beside the Instance the purge
  previews and the evidence of a pending purge.
\<close>

record rstore =
  rs_files :: files
  rs_stages :: "(string \<times> files) list"
  rs_previews :: "(string \<times> purge_preview) list"
  rs_pending :: pending_file
  rs_fates :: "fate list"

type_synonym 'a ract = "(rstore, retention_error, 'a) act"

definition rput :: "(rstore \<Rightarrow> rstore) \<Rightarrow> unit ract" where
  "rput f = (\<lambda>s. case rs_fates s of
       [] \<Rightarrow> (Inr (), f s)
     | Goes # fs \<Rightarrow> (Inr (), f (s\<lparr>rs_fates := fs\<rparr>))
     | Fails # fs \<Rightarrow> (Inl Ret_io, s\<lparr>rs_fates := fs\<rparr>)
     | Stops # fs \<Rightarrow> (Inl Ret_stop, s\<lparr>rs_fates := fs\<rparr>))"

interpretation retention_disk: fated_disk rs_fates "\<lambda>fs s. s\<lparr>rs_fates := fs\<rparr>" rput Ret_io Ret_stop
  by unfold_locales (simp_all add: rput_def)

definition write_file :: "string \<Rightarrow> content \<Rightarrow> unit ract" where
  "write_file p c = rput (\<lambda>s. s\<lparr>rs_files := AList.update p c (rs_files s)\<rparr>)"

definition unlink_file :: "string \<Rightarrow> unit ract" where
  "unlink_file p = bindA (reads rs_files) (\<lambda>fs.
     if map_of fs p = None then ret () else rput (\<lambda>s. s\<lparr>rs_files := AList.delete p (rs_files s)\<rparr>))"

definition write_pending :: "pending_file \<Rightarrow> unit ract" where
  "write_pending x = rput (\<lambda>s. s\<lparr>rs_pending := x\<rparr>)"

definition unlink_preview :: "string \<Rightarrow> unit ract" where
  "unlink_preview k = bindA (reads rs_previews) (\<lambda>ps.
     if map_of ps k = None then ret () else rput (\<lambda>s. s\<lparr>rs_previews := AList.delete k (rs_previews s)\<rparr>))"

section \<open>Operations and derived views\<close>

definition start_operation ::
  "retention_env \<Rightarrow> string \<Rightarrow> string \<Rightarrow> string \<Rightarrow> string \<Rightarrow> string option \<Rightarrow> (string \<times> string) list \<Rightarrow> oper ract" where
  "start_operation env hex now kind title summary related =
     seqA (require (re_strip env kind \<noteq> []) (Ret_value ''operation kind is required''))
     (let r = new_operation env hex now kind title summary related in
      seqA (require (oper_ok env r) (Ret_value ''invalid operation record''))
      (seqA (write_file (operation_path (op_id r)) (Oper r)) (ret r)))"

definition close_operation ::
  "retention_env \<Rightarrow> string \<Rightarrow> string \<Rightarrow> string \<Rightarrow> string option \<Rightarrow> (string \<times> int) list \<Rightarrow> string option \<Rightarrow> string option
   \<Rightarrow> oper ract" where
  "close_operation env now i status summary metrics code error =
     seqA (require (status \<in> set OPERATION_STATUSES - {''running''})
             (Ret_value ''operation must close with a terminal status''))
     (bindA (reads (\<lambda>s. get_record env i (rs_files s))) (\<lambda>found. case found of
        None \<Rightarrow> raise Ret_key
      | Some r \<Rightarrow>
          seqA (require (op_status r = ''running'') (Ret_value ''operation is already closed''))
          (let c = closed_operation env now r status summary metrics code error in
           seqA (require (oper_ok env c) (Ret_value ''invalid operation record''))
           (seqA (write_file (operation_path (op_id c)) (Oper c)) (ret c)))))"

definition under :: "string \<Rightarrow> string \<Rightarrow> bool" where
  "under dir p \<longleftrightarrow> take (length dir + 1) p = dir @ ''/''"

definition derived_path :: "string \<Rightarrow> bool" where
  "derived_path p \<longleftrightarrow> under ''indexes'' p \<or> under ''library'' p"

text \<open>The index and the library are rebuilt from the other files.\<close>

definition rebuilt :: "retention_env \<Rightarrow> string \<Rightarrow> files \<Rightarrow> files" where
  "rebuilt env area fs =
     filter (\<lambda>x. \<not> under area (fst x)) fs
   @ filter (\<lambda>x. under area (fst x)) (re_views env (filter (\<lambda>x. \<not> derived_path (fst x)) fs))"

definition rebuild_search_index :: "retention_env \<Rightarrow> unit ract" where
  "rebuild_search_index env = rput (\<lambda>s. s\<lparr>rs_files := rebuilt env ''indexes'' (rs_files s)\<rparr>)"

definition rebuild_library :: "retention_env \<Rightarrow> unit ract" where
  "rebuild_library env = rput (\<lambda>s. s\<lparr>rs_files := rebuilt env ''library'' (rs_files s)\<rparr>)"

definition sync_document_derived :: "retention_env \<Rightarrow> unit ract" where
  "sync_document_derived env = seqA (rebuild_search_index env) (rebuild_library env)"

section \<open>Evidence of a pending purge\<close>

definition MAX_PURGE_FILES :: nat where "MAX_PURGE_FILES = 100000"

definition receipt_path :: "string \<Rightarrow> string" where
  "receipt_path token = ''state/retention/purge-receipts/'' @ token @ ''.json''"

definition valid_receipt ::
  "retention_env \<Rightarrow> purge_receipt \<Rightarrow> string \<Rightarrow> string option \<Rightarrow> string \<Rightarrow> bool" where
  "valid_receipt env r token document status \<longleftrightarrow>
     pr_status r = status \<and> operation_id_ok (pr_operation r) \<and> sha256_text (pr_identity r)
   \<and> (case document of None \<Rightarrow> True | Some d \<Rightarrow> pr_identity r = re_sha env d)
   \<and> pr_token r = token \<and> sha256_text token \<and> sha256_text (pr_impact r)
   \<and> list_all (\<lambda>n. 0 \<le> n) [pr_canonical r, pr_originals r, pr_original_bytes r, pr_derived r, pr_shared r,
                         pr_backups r, pr_unscanned r]
   \<and> (if status = ''pending'' then pr_completed r = None
      else case pr_completed r of None \<Rightarrow> False | Some t \<Rightarrow> re_parse_time env t \<noteq> None)"

definition read_receipt :: "retention_env \<Rightarrow> string \<Rightarrow> string \<Rightarrow> files \<Rightarrow> purge_receipt option" where
  "read_receipt env token document fs =
     (case map_of fs (receipt_path token) of
        Some (Receipt r) \<Rightarrow> if valid_receipt env r token (Some document) ''completed'' then Some r else None
      | _ \<Rightarrow> None)"

definition purge_stage_ok :: "string \<Rightarrow> bool" where
  "purge_stage_ok = prefixed_hex ''state/locks/.purge-stage-'' 32"

definition reserved_path :: "string \<Rightarrow> bool" where
  "reserved_path p \<longleftrightarrow>
     (let parts = split_slash [] p in
      take 2 parts = [''state'', ''locks''] \<or> take 3 parts = [''state'', ''retention'', ''purge-receipts''])"

definition target_ok :: "retention_env \<Rightarrow> purge_target \<Rightarrow> bool" where
  "target_ok env t \<longleftrightarrow>
     re_strip env (pt_category t) \<noteq> [] \<and> length (pt_category t) \<le> 120 \<and> sha256_text (pt_sha t)
   \<and> normalise_locator (pt_path t) = Some (pt_path t) \<and> \<not> reserved_path (pt_path t)"

definition pending_ok :: "retention_env \<Rightarrow> pending_purge \<Rightarrow> bool" where
  "pending_ok env p \<longleftrightarrow>
     normalise_locator (pg_stage p) = Some (pg_stage p) \<and> purge_stage_ok (pg_stage p)
   \<and> document_id_ok (pg_document p) \<and> operation_id_ok (pg_operation p) \<and> sha256_text (pg_token p)
   \<and> pg_preview p = pg_token p \<and> pg_targets p \<noteq> [] \<and> length (pg_targets p) \<le> MAX_PURGE_FILES
   \<and> valid_receipt env (pg_receipt p) (pg_token p) (Some (pg_document p)) ''pending''
   \<and> pr_operation (pg_receipt p) = pg_operation p \<and> list_all (target_ok env) (pg_targets p)
   \<and> map pt_path (pg_targets p) = sort (remdups (map pt_path (pg_targets p)))"

definition the_pending :: "retention_env \<Rightarrow> pending_purge option ract" where
  "the_pending env = query (\<lambda>s. case rs_pending s of
       No_pending \<Rightarrow> Inr None
     | Bad_pending \<Rightarrow> Inl (Purge_transaction ''pending purge evidence is unreadable'')
     | Pending p \<Rightarrow> if pending_ok env p then Inr (Some p)
                   else Inl (Purge_transaction ''pending purge evidence is invalid''))"

section \<open>Staging and its recovery\<close>

definition live_target :: "string \<Rightarrow> string ract" where
  "live_target r = (case normalise_locator r of
       None \<Rightarrow> raise (Purge_transaction ''purge target path is invalid'')
     | Some p \<Rightarrow> seqA (require (p = r) (Purge_transaction ''purge target path is not normalized'')) (ret p))"

definition matches_target :: "retention_env \<Rightarrow> content option \<Rightarrow> purge_target \<Rightarrow> bool" where
  "matches_target env c t = (case c of None \<Rightarrow> False
     | Some x \<Rightarrow> length (re_bytes env x) = pt_size t \<and> re_sha env (re_bytes env x) = pt_sha t)"

definition staged_files :: "pending_purge \<Rightarrow> rstore \<Rightarrow> files option" where
  "staged_files p s = map_of (rs_stages s) (pg_stage p)"

definition check_staged :: "retention_env \<Rightarrow> pending_purge \<Rightarrow> string \<times> content \<Rightarrow> unit ract" where
  "check_staged env p x =
     (case map_of (map (\<lambda>t. (pt_path t, t)) (rev (pg_targets p))) (fst x) of
        None \<Rightarrow> raise (Purge_transaction ''purge staging area contains an unknown file'')
      | Some t \<Rightarrow> require (matches_target env (Some (snd x)) t)
          (Purge_transaction ''staged purge target changed before commit''))"

definition verify_staged_targets :: "retention_env \<Rightarrow> pending_purge \<Rightarrow> bool \<Rightarrow> unit ract" where
  "verify_staged_targets env p require_all =
     bindA (reads (staged_files p)) (\<lambda>found. case found of
       None \<Rightarrow> require (\<not> require_all) (Purge_transaction ''purge staging area is missing'')
     | Some fs \<Rightarrow>
         seqA (for_each (check_staged env p) fs)
           (require (require_all \<longrightarrow> set (map fst fs) = set (map pt_path (pg_targets p)))
             (Purge_transaction ''purge staging inventory is incomplete'')))"

definition verify_live_targets_absent :: "pending_purge \<Rightarrow> unit ract" where
  "verify_live_targets_absent p = for_each (\<lambda>t.
     bindA (live_target (pt_path t)) (\<lambda>path.
     bindA (reads rs_files) (\<lambda>fs.
       require (map_of fs path = None) (Purge_transaction ''purge target was recreated before commit''))))
     (pg_targets p)"

definition set_staged :: "pending_purge \<Rightarrow> files \<Rightarrow> rstore \<Rightarrow> rstore" where
  "set_staged p fs s = s\<lparr>rs_stages := AList.update (pg_stage p) fs (rs_stages s)\<rparr>"

definition staged_of :: "pending_purge \<Rightarrow> rstore \<Rightarrow> files" where
  "staged_of p s = (case staged_files p s of None \<Rightarrow> [] | Some fs \<Rightarrow> fs)"

text \<open>One rename from the live files to the stage, and one back.\<close>

definition move_out :: "pending_purge \<Rightarrow> string \<Rightarrow> content \<Rightarrow> rstore \<Rightarrow> rstore" where
  "move_out p path c s = set_staged p (AList.update path c (staged_of p s)) (s\<lparr>rs_files := AList.delete path (rs_files s)\<rparr>)"

definition move_back :: "pending_purge \<Rightarrow> string \<Rightarrow> content \<Rightarrow> rstore \<Rightarrow> rstore" where
  "move_back p path c s = set_staged p (AList.delete path (staged_of p s)) (s\<lparr>rs_files := AList.update path c (rs_files s)\<rparr>)"

definition stage_target :: "retention_env \<Rightarrow> pending_purge \<Rightarrow> purge_target \<Rightarrow> unit ract" where
  "stage_target env p t =
     bindA (live_target (pt_path t)) (\<lambda>path.
     bindA (reads (\<lambda>s. map_of (rs_files s) path)) (\<lambda>c.
       if matches_target env c t then rput (move_out p path (the c))
       else raise (Purge_transaction ''purge target changed before commit'')))"

definition stage_targets :: "retention_env \<Rightarrow> pending_purge \<Rightarrow> unit ract" where
  "stage_targets env p =
     bindA (reads (staged_files p)) (\<lambda>there.
     seqA (require (there = None) Ret_io)
     (seqA (rput (set_staged p []))
       (for_each (stage_target env p) (pg_targets p))))"

definition restore_target :: "pending_purge \<Rightarrow> purge_target \<Rightarrow> unit ract" where
  "restore_target p t =
     bindA (reads (\<lambda>s. map_of (staged_of p s) (pt_path t))) (\<lambda>staged. case staged of
       None \<Rightarrow> ret ()
     | Some c \<Rightarrow>
         bindA (live_target (pt_path t)) (\<lambda>path.
         bindA (reads (\<lambda>s. map_of (rs_files s) path)) (\<lambda>live.
         seqA (require (live = None) (Purge_transaction ''purge rollback target was unexpectedly recreated''))
           (rput (move_back p path c)))))"

definition remove_stage_tree :: "pending_purge \<Rightarrow> unit ract" where
  "remove_stage_tree p =
     bindA (reads (staged_files p)) (\<lambda>found. case found of
       None \<Rightarrow> ret ()
     | Some fs \<Rightarrow>
         seqA (for_each (\<lambda>x. rput (\<lambda>s. set_staged p (AList.delete (fst x) (staged_of p s)) s)) fs)
           (rput (\<lambda>s. s\<lparr>rs_stages := AList.delete (pg_stage p) (rs_stages s)\<rparr>)))"

definition close_if_running ::
  "retention_env \<Rightarrow> string \<Rightarrow> string \<Rightarrow> string \<Rightarrow> string \<Rightarrow> (string \<times> int) list \<Rightarrow> string option \<Rightarrow> string option \<Rightarrow> unit ract" where
  "close_if_running env now i status summary metrics code error =
     bindA (reads (\<lambda>s. get_record env i (rs_files s))) (\<lambda>found. case found of
       None \<Rightarrow> ret ()
     | Some r \<Rightarrow> if op_status r = ''running''
         then bindA (close_operation env now i status (Some summary) metrics code error) (\<lambda>_. ret ())
         else ret ())"

definition restore_prepared :: "retention_env \<Rightarrow> string \<Rightarrow> pending_purge \<Rightarrow> string \<Rightarrow> unit ract" where
  "restore_prepared env now p error =
     seqA (verify_staged_targets env p False)
     (seqA (for_each (restore_target p) (rev (pg_targets p)))
     (seqA (remove_stage_tree p)
     (seqA (sync_document_derived env)
     (seqA (close_if_running env now (pg_operation p) ''failed''
              ''Interrupted purge was rolled back before commit.'' [] (Some ''purge_rolled_back'') (Some error))
       (write_pending No_pending)))))"

definition finalize_committed :: "retention_env \<Rightarrow> string \<Rightarrow> pending_purge \<Rightarrow> purge_receipt ract" where
  "finalize_committed env now p =
     (let r = (pg_receipt p)\<lparr>pr_status := ''completed'', pr_completed := Some now\<rparr> in
      seqA (require (valid_receipt env r (pg_token p) (Some (pg_document p)) ''completed'')
              (Purge_transaction ''completed purge receipt is invalid''))
      (seqA (bindA (reads (staged_files p)) (\<lambda>found.
         if found = None then ret ()
         else seqA (verify_staged_targets env p False) (remove_stage_tree p)))
      (seqA (sync_document_derived env)
      (seqA (write_file (receipt_path (pg_token p)) (Receipt r))
      (seqA (close_if_running env now (pg_operation p) ''completed''
               ''Confirmed live-Instance purge completed.''
               [(''canonical_records_removed'', pr_canonical r), (''original_files_removed'', pr_originals r),
                (''original_bytes_removed'', pr_original_bytes r)] None None)
      (seqA (unlink_preview (pg_preview p))
      (seqA (write_pending No_pending)
        (ret r))))))))"

datatype recovery_action = Completed_purge purge_receipt | Restored_state

definition recover_pending :: "retention_env \<Rightarrow> string \<Rightarrow> recovery_action option ract" where
  "recover_pending env now =
     bindA (the_pending env) (\<lambda>found. case found of
       None \<Rightarrow> ret None
     | Some p \<Rightarrow> (case pg_phase p of
          Purge_committed \<Rightarrow> bindA (finalize_committed env now p) (\<lambda>r. ret (Some (Completed_purge r)))
        | Purge_prepared \<Rightarrow> seqA (restore_prepared env now p ''interrupted before purge commit'')
            (ret (Some Restored_state))))"

end
