(* ===== verification/Retention_Purge.thy ===== *)
theory Retention_Purge
  imports Retention_Store
begin

text \<open>
  The operations of the retention manager (core/provelume/retention.py, class
  DocumentRetentionManager): the changes of a disposition, the lineage of a document and the
  inventory of its purge, the preview that a purge is bound to, and the purge.
\<close>

section \<open>Changing a disposition\<close>

datatype ret_action = Archive | Unarchive | Remove_from_library | Restore_to_library | Trash | Restore_from_trash

text \<open>Status, visibility, and what the trash remembers of them.\<close>

type_synonym disp_target = "string \<times> string \<times> json \<times> json"

definition disposition_state :: "json \<Rightarrow> disp_target" where
  "disposition_state v = (text_of (jget v ''status''), text_of (jget v ''library_visibility''),
     jget v ''restore_status'', jget v ''restore_library_visibility'')"

definition transition_target :: "retention_env \<Rightarrow> json \<Rightarrow> ret_action \<Rightarrow> retention_error + disp_target" where
  "transition_target env current a =
     (let (status, visibility, rs, rv) = disposition_state current;
          restored = ''trashed Document must be restored first'' in
      case a of
        Archive \<Rightarrow> if status = ''trashed'' then Inl (Ret_conflict restored) else Inr (''archived'', visibility, JNull, JNull)
      | Unarchive \<Rightarrow> if status = ''trashed'' then Inl (Ret_conflict restored) else Inr (''active'', visibility, JNull, JNull)
      | Remove_from_library \<Rightarrow>
          if status = ''trashed'' then Inl (Ret_conflict ''trashed Document is already outside the library'')
          else Inr (status, ''excluded'', JNull, JNull)
      | Restore_to_library \<Rightarrow>
          if status = ''trashed'' then Inl (Ret_conflict restored) else Inr (status, ''included'', JNull, JNull)
      | Trash \<Rightarrow>
          if status = ''trashed'' then Inr (status, visibility, rs, rv)
          else Inr (''trashed'', ''excluded'', JStr status, JStr visibility)
      | Restore_from_trash \<Rightarrow>
          if status \<noteq> ''trashed'' then Inl (Ret_conflict ''Document is not in recoverable trash'')
          else Inr (py_str env rs, py_str env rv, JNull, JNull))"

definition revision_of :: "json \<Rightarrow> int" where
  "revision_of v = (case jget v ''revision'' of JInt n \<Rightarrow> n | _ \<Rightarrow> 0)"

definition new_disposition ::
  "retention_env \<Rightarrow> string \<Rightarrow> json \<Rightarrow> disp_target \<Rightarrow> string \<Rightarrow> string \<Rightarrow> json" where
  "new_disposition env d current target now op =
     (case target of (status, visibility, rs, rv) \<Rightarrow> JObj
     [(''schema_version'', JInt 1), (''id'', JStr (disposition_id env d)), (''document_id'', JStr d),
      (''status'', JStr status), (''library_visibility'', JStr visibility), (''restore_status'', rs),
      (''restore_library_visibility'', rv), (''revision'', JInt (revision_of current + 1)),
      (''created_at'', if jget current ''created_at'' \<in> {JNull, JStr []} then JStr now else jget current ''created_at''),
      (''updated_at'', JStr now), (''last_operation_id'', JStr op)])"

definition restore_bytes :: "string \<Rightarrow> content option \<Rightarrow> unit ract" where
  "restore_bytes path before = (case before of None \<Rightarrow> unlink_file path | Some c \<Rightarrow> write_file path c)"

fun action_name :: "ret_action \<Rightarrow> string" where
  "action_name Archive = ''archive''"
| "action_name Unarchive = ''unarchive''"
| "action_name Remove_from_library = ''remove_from_library''"
| "action_name Restore_to_library = ''restore_to_library''"
| "action_name Trash = ''trash''"
| "action_name Restore_from_trash = ''restore_from_trash''"

record transition_outcome =
  to_changed :: bool
  to_disposition :: json
  to_operation :: "oper option"

definition get_disposition :: "retention_env \<Rightarrow> string \<Rightarrow> files \<Rightarrow> retention_error + json option" where
  "get_disposition env d fs =
     (if \<not> document_id_ok d then Inr None
      else case read_canonical ''documents'' d fs of
        Inl e \<Rightarrow> Inl e
      | Inr None \<Rightarrow> Inr None
      | Inr (Some _) \<Rightarrow> map_sum id (\<lambda>r. Some (current_disposition env d r)) (disposition_records env fs))"

definition list_dispositions :: "retention_env \<Rightarrow> string \<Rightarrow> files \<Rightarrow> retention_error + json list" where
  "list_dispositions env status fs =
     (if status \<notin> set [''active'', ''archived'', ''trashed'', ''all''] then Inl (Ret_value ''unsupported disposition filter'')
      else map_sum id (\<lambda>ds. sort_key (\<lambda>v. text_of (jget v ''document_id''))
             (filter (\<lambda>v. status = ''all'' \<or> jget v ''status'' = JStr status) (map snd ds)))
           (effective_dispositions env fs))"

text \<open>\<open>text\<close> is the text of the exception, which the ledger keeps.\<close>

definition roll_back_disposition ::
  "retention_env \<Rightarrow> string \<Rightarrow> string \<Rightarrow> string \<Rightarrow> content option \<Rightarrow> (retention_error \<Rightarrow> string) \<Rightarrow> retention_error \<Rightarrow> 'a ract" where
  "roll_back_disposition env now op path before error_text e =
     seqA (restore_bytes path before)
     (seqA (catch Ret_stop (sync_document_derived env) (\<lambda>e2.
        bindA (close_operation env now op ''failed'' (Some ''Disposition rollback could not restore synchronized views.'')
                 [] (Some ''retention_rollback_failed'') (Some (error_text e2))) (\<lambda>_.
          raise (Ret_integrity ''retention action failed and derived rollback could not be verified''))))
     (bindA (close_operation env now op ''failed'' (Some ''Disposition action was rolled back.'')
               [] (Some ''retention_action_failed'') (Some (error_text e))) (\<lambda>_. raise e)))"

definition apply_disposition ::
  "retention_env \<Rightarrow> string \<Rightarrow> string \<Rightarrow> (retention_error \<Rightarrow> string) \<Rightarrow> string \<Rightarrow> ret_action \<Rightarrow> json \<Rightarrow> disp_target
   \<Rightarrow> transition_outcome ract" where
  "apply_disposition env hex now error_text d a current target =
     bindA (start_operation env hex now (''document.'' @ action_name a)
              (''Apply Document retention action: '' @ action_name a)
              (Some ''Update canonical disposition and synchronized derived views.'')
              [(''document_identity_sha256'', re_sha env d)]) (\<lambda>op.
     (let path = canonical_path ''dispositions'' (disposition_id env d) in
      bindA (reads (\<lambda>s. map_of (rs_files s) path)) (\<lambda>before.
      seqA (catch Ret_stop
              (seqA (write_file path (Json (new_disposition env d current target now (op_id op))))
                (sync_document_derived env))
              (roll_back_disposition env now (op_id op) path before error_text))
      (bindA (close_operation env now (op_id op) ''completed'' (Some ''Canonical disposition and derived views were committed.'')
                [(''canonical_records_changed'', 1), (''originals_deleted'', 0)] None None) (\<lambda>closed.
       bindA (query (\<lambda>s. get_disposition env d (rs_files s))) (\<lambda>selected.
         ret \<lparr>to_changed = True, to_disposition = (case selected of None \<Rightarrow> JNull | Some v \<Rightarrow> v),
              to_operation = Some closed\<rparr>))))))"

definition transition ::
  "retention_env \<Rightarrow> string \<Rightarrow> string \<Rightarrow> (retention_error \<Rightarrow> string) \<Rightarrow> string \<Rightarrow> ret_action \<Rightarrow> transition_outcome ract" where
  "transition env hex now error_text d a =
     seqA (require (document_id_ok d) (Ret_not_found (''document not found: '' @ d)))
     (bindA (recover_pending env now) (\<lambda>_.
      bindA (query (\<lambda>s. read_canonical ''documents'' d (rs_files s))) (\<lambda>document.
      seqA (require (document \<noteq> None) (Ret_not_found (''document not found: '' @ d)))
      (bindA (query (\<lambda>s. disposition_records env (rs_files s))) (\<lambda>recorded.
      (let current = current_disposition env d recorded in
       bindA (of_result (transition_target env current a)) (\<lambda>target.
         if target = disposition_state current
         then ret \<lparr>to_changed = False, to_disposition = current, to_operation = None\<rparr>
         else apply_disposition env hex now error_text d a current target)))))))"

section \<open>The lineage of a document\<close>

definition str_field :: "retention_env \<Rightarrow> string \<Rightarrow> json \<Rightarrow> string" where
  "str_field env k v = py_str env (jget v k)"

text \<open>\<open>item[k]\<close> raises on an item without the key.\<close>

definition need :: "string \<Rightarrow> json list \<Rightarrow> retention_error + json list" where
  "need k vs = (if list_all (has_key k) vs then Inr vs else Inl Ret_key)"

record lineage =
  ln_document :: json
  ln_versions :: "json list"
  ln_acquisitions :: "json list"
  ln_classifications :: "json list"
  ln_dispositions :: "json list"
  ln_messages :: "json list"
  ln_observations :: "json list"
  ln_attachments :: "json list"
  ln_originals :: "json list"
  ln_shared :: nat
  ln_provenance :: "json list"
  ln_artifacts :: "json list"
  ln_derived_provenance :: "json list"

definition of_document :: "string \<Rightarrow> json list \<Rightarrow> json list" where
  "of_document d vs = filter (\<lambda>v. jget v ''document_id'' = JStr d) vs"

definition ids_of :: "retention_env \<Rightarrow> json list \<Rightarrow> string list" where
  "ids_of env vs = map (str_field env ''id'') vs"

definition linked :: "retention_env \<Rightarrow> (string \<times> string) list \<Rightarrow> json list \<Rightarrow> json list" where
  "linked env ends es = filter (\<lambda>e. (str_field env ''from_kind'' e, str_field env ''from_id'' e) \<in> set ends
     \<or> (str_field env ''to_kind'' e, str_field env ''to_id'' e) \<in> set ends) es"

definition endpoints :: "string \<Rightarrow> string list \<Rightarrow> (string \<times> string) list" where
  "endpoints kind is = map (Pair kind) is"

definition kept_elsewhere :: "retention_env \<Rightarrow> json list \<Rightarrow> string list \<Rightarrow> string \<Rightarrow> bool" where
  "kept_elsewhere env vs mine oid = list_ex (\<lambda>v. jget v ''original_id'' = JStr oid) (filter (\<lambda>v. str_field env ''id'' v \<notin> set mine) vs)"

definition build_lineage ::
  "retention_env \<Rightarrow> string \<Rightarrow> json \<Rightarrow> json list \<Rightarrow> json list \<Rightarrow> json list \<Rightarrow> json list \<Rightarrow> json list \<Rightarrow> json list
   \<Rightarrow> json list \<Rightarrow> json list \<Rightarrow> json list \<Rightarrow> json list \<Rightarrow> json list \<Rightarrow> lineage" where
  "build_lineage env d document versions acquisitions classifications dispositions messages observations
     attachments originals provenance artifacts derived =
     (let vs = of_document d versions; vids = ids_of env vs; as = of_document d acquisitions;
          ms = of_document d messages; mids = ids_of env ms;
          os = filter (\<lambda>v. is_str (jget v ''message_id'') \<and> text_of (jget v ''message_id'') \<in> set mids) observations;
          ats = filter (\<lambda>v. is_str (jget v ''parent_message_id'') \<and> text_of (jget v ''parent_message_id'') \<in> set mids) attachments;
          atids = ids_of env ats;
          oids = remdups (map (str_field env ''original_id'') (vs @ ats));
          removable = filter (\<lambda>x. \<not> kept_elsewhere env versions vids x \<and> \<not> kept_elsewhere env attachments atids x) oids;
          ends = endpoints ''document'' [d] @ endpoints ''version'' vids @ endpoints ''acquisition'' (ids_of env as)
               @ endpoints ''original'' removable @ endpoints ''email_message'' mids @ endpoints ''email_attachment'' atids;
          arts = filter (\<lambda>v. is_str (jget v ''version_id'') \<and> text_of (jget v ''version_id'') \<in> set vids) artifacts;
          artids = ids_of env arts;
          dends = endpoints ''version'' vids @ endpoints ''artifact'' artids @ endpoints ''derived_artifact'' artids
      in \<lparr>ln_document = document, ln_versions = vs, ln_acquisitions = as,
          ln_classifications = of_document d classifications, ln_dispositions = of_document d dispositions,
          ln_messages = ms, ln_observations = os, ln_attachments = ats,
          ln_originals = filter (\<lambda>v. is_str (jget v ''id'') \<and> text_of (jget v ''id'') \<in> set removable) originals,
          ln_shared = length oids - length removable, ln_provenance = linked env ends provenance,
          ln_artifacts = arts, ln_derived_provenance = linked env dends derived\<rparr>)"

text \<open>
  The code reads these fields of the selected records by index, and the sizes as integers; it
  raises where one is missing, before anything is written.
\<close>

definition is_int :: "json \<Rightarrow> bool" where
  "is_int j \<longleftrightarrow> (case j of JInt _ \<Rightarrow> True | _ \<Rightarrow> False)"

definition lineage_complete :: "lineage \<Rightarrow> bool" where
  "lineage_complete l \<longleftrightarrow>
     list_all (has_key ''id'') (ln_document l # ln_acquisitions l @ ln_classifications l @ ln_dispositions l
       @ ln_messages l @ ln_observations l @ ln_originals l @ ln_provenance l @ ln_artifacts l @ ln_derived_provenance l)
   \<and> list_all (has_key ''original_id'') (ln_versions l @ ln_attachments l)
   \<and> list_all (\<lambda>v. has_key ''storage_ref'' v \<and> is_int (jget v ''size_bytes'')) (ln_originals l)
   \<and> has_key ''title'' (ln_document l)"

definition canonical_or :: "string \<Rightarrow> json list ract" where
  "canonical_or kind = query (\<lambda>s. list_canonical kind (rs_files s))"

definition document_lineage :: "retention_env \<Rightarrow> string \<Rightarrow> lineage ract" where
  "document_lineage env d =
     bindA (query (\<lambda>s. read_canonical ''documents'' d (rs_files s))) (\<lambda>document. case document of
       None \<Rightarrow> raise (Ret_not_found (''document not found: '' @ d))
     | Some document \<Rightarrow>
       bindA (canonical_or ''versions'') (\<lambda>versions.
       bindA (of_result (need ''document_id'' versions)) (\<lambda>versions.
       bindA (of_result (need ''id'' versions)) (\<lambda>versions.
       bindA (canonical_or ''acquisitions'') (\<lambda>acquisitions.
       bindA (canonical_or ''classifications'') (\<lambda>classifications.
       bindA (canonical_or ''dispositions'') (\<lambda>dispositions.
       bindA (canonical_or ''email-messages'') (\<lambda>messages.
       bindA (canonical_or ''email-observations'') (\<lambda>observations.
       bindA (canonical_or ''email-attachments'') (\<lambda>attachments.
       bindA (of_result (need ''id'' attachments)) (\<lambda>attachments.
       bindA (canonical_or ''originals'') (\<lambda>originals.
       bindA (canonical_or ''provenance'') (\<lambda>provenance.
       bindA (query (\<lambda>s. json_objects ''state/derived/artifacts'' (rs_files s))) (\<lambda>artifacts.
       bindA (query (\<lambda>s. json_objects ''state/derived/provenance'' (rs_files s))) (\<lambda>derived.
         (let l = build_lineage env d document versions acquisitions classifications dispositions messages
                    observations attachments originals provenance artifacts derived
          in seqA (require (lineage_complete l) Ret_key) (ret l)))))))))))))))))"

section \<open>The inventory of a purge\<close>

definition MAX_PURGE_STATE_SCAN_BYTES :: nat where "MAX_PURGE_STATE_SCAN_BYTES = 16 * 1024 * 1024"

type_synonym targets = "(string \<times> string) list"

text \<open>Adding a path that is no file of the Instance does nothing.\<close>

definition add_target :: "files \<Rightarrow> string \<Rightarrow> string \<Rightarrow> targets \<Rightarrow> retention_error + targets" where
  "add_target fs path category ts =
     (if map_of fs path = None then Inr ts
      else if normalise_locator path \<noteq> Some path then Inl (Purge_transaction ''purge target path is not normalized'')
      else let ts' = AList.update path category ts in
           if length ts' > MAX_PURGE_FILES then Inl (Purge_transaction ''purge target count exceeds safety limit'')
           else Inr ts')"

fun add_targets :: "files \<Rightarrow> (string \<times> string) list \<Rightarrow> targets \<Rightarrow> retention_error + targets" where
  "add_targets fs [] ts = Inr ts"
| "add_targets fs ((path, category) # xs) ts =
     (case add_target fs path category ts of Inl e \<Rightarrow> Inl e | Inr ts' \<Rightarrow> add_targets fs xs ts')"

definition canonical_targets :: "retention_env \<Rightarrow> lineage \<Rightarrow> (string \<times> string) list" where
  "canonical_targets env l = concat (map (\<lambda>(kind, vs).
       map (\<lambda>v. (canonical_path kind (str_field env ''id'' v), ''canonical:'' @ kind)) vs)
     [(''documents'', [ln_document l]), (''versions'', ln_versions l), (''acquisitions'', ln_acquisitions l),
      (''classifications'', ln_classifications l), (''dispositions'', ln_dispositions l),
      (''email-messages'', ln_messages l), (''email-observations'', ln_observations l),
      (''email-attachments'', ln_attachments l), (''originals'', ln_originals l), (''provenance'', ln_provenance l)])"

definition storage_ref :: "retention_env \<Rightarrow> json \<Rightarrow> string option" where
  "storage_ref env v = (if has_key ''storage_ref'' v then normalise_locator (str_field env ''storage_ref'' v) else None)"

definition files_under :: "string \<Rightarrow> files \<Rightarrow> string list" where
  "files_under dir fs = filter (under dir) (map fst fs)"

definition OCR_ARTIFACT_KIND :: string where "OCR_ARTIFACT_KIND = ''ocr_document_bundle''"

definition artifact_targets :: "retention_env \<Rightarrow> files \<Rightarrow> json \<Rightarrow> retention_error + (string \<times> string) list" where
  "artifact_targets env fs v =
     (case storage_ref env v of
        None \<Rightarrow> Inl (Purge_transaction ''derived artifact path is invalid'')
      | Some r \<Rightarrow>
          let own = [(''state/derived/artifacts/'' @ str_field env ''id'' v @ ''.json'', ''derived_artifact_record''),
                     (r, ''derived_artifact_bytes'')];
              parts = split_slash [] r in
          if jget v ''kind'' \<noteq> JStr OCR_ARTIFACT_KIND then Inr own
          else if length parts \<noteq> 6 \<or> take 3 parts \<noteq> [''state'', ''derived'', ''ocr-bundles'']
             \<or> parts ! 3 \<noteq> str_field env ''version_id'' v \<or> last parts \<noteq> ''manifest.json''
          then Inl (Purge_transaction ''OCR bundle artifact path is invalid'')
          else let root = join_slash (butlast parts) in
            if files_under root fs = [] then Inl (Purge_transaction ''OCR bundle path is unsafe'')
            else Inr (own @ map (\<lambda>p. (p, ''ocr_bundle_bytes'')) (files_under root fs)))"

definition size_of :: "json \<Rightarrow> int" where
  "size_of v = (case jget v ''size_bytes'' of JInt n \<Rightarrow> n | _ \<Rightarrow> 0)"

definition identities :: "retention_env \<Rightarrow> string \<Rightarrow> lineage \<Rightarrow> string list" where
  "identities env d l = sort (remdups (d # ids_of env (ln_versions l) @ ids_of env (ln_acquisitions l)
     @ ids_of env (ln_messages l) @ ids_of env (ln_observations l) @ ids_of env (ln_attachments l)))"

text \<open>The other files of the state that mention an identity; the large ones are only counted.\<close>

definition scanned :: "string \<Rightarrow> bool" where
  "scanned p \<longleftrightarrow> under ''state'' p \<and> \<not> reserved_path p"

fun scan_state ::
  "retention_env \<Rightarrow> string list \<Rightarrow> files \<Rightarrow> files \<Rightarrow> targets \<Rightarrow> nat \<Rightarrow> retention_error + targets \<times> nat" where
  "scan_state env is fs [] ts n = Inr (ts, n)"
| "scan_state env is fs ((p, c) # rest) ts n =
     (if \<not> scanned p \<or> p \<in> set (map fst ts) then scan_state env is fs rest ts n
      else if length (re_bytes env c) > MAX_PURGE_STATE_SCAN_BYTES then scan_state env is fs rest ts (n + 1)
      else if list_ex (\<lambda>i. sublist i (re_bytes env c)) is
      then (case add_target fs p ''operational_identity_record'' ts of
              Inl e \<Rightarrow> Inl e | Inr ts' \<Rightarrow> scan_state env is fs rest ts' n)
      else scan_state env is fs rest ts n)"

definition purge_targets :: "retention_env \<Rightarrow> string \<Rightarrow> lineage \<Rightarrow> files \<Rightarrow> retention_error + targets \<times> int \<times> nat" where
  "purge_targets env d l fs =
     (case add_targets fs (canonical_targets env l) [] of Inl e \<Rightarrow> Inl e | Inr t1 \<Rightarrow>
     (if \<not> list_all (\<lambda>v. storage_ref env v \<noteq> None) (ln_originals l) then Inl (Ret_value ''unsafe source locator'') else
     (case add_targets fs (map (\<lambda>v. (the (storage_ref env v), ''original_bytes'')) (ln_originals l)) t1 of Inl e \<Rightarrow> Inl e | Inr t2 \<Rightarrow>
     (case collect (artifact_targets env fs) (ln_artifacts l) of Inl e \<Rightarrow> Inl e | Inr arts \<Rightarrow>
     (case add_targets fs (concat arts
             @ map (\<lambda>v. (''state/derived/provenance/'' @ str_field env ''id'' v @ ''.json'', ''derived_provenance'')) (ln_derived_provenance l)
             @ concat (map (\<lambda>i. map (\<lambda>p. (p, ''document_bundle'')) (files_under (''state/derived/bundles/'' @ i) fs))
                 (remdups (ids_of env (ln_versions l))))) t2 of Inl e \<Rightarrow> Inl e | Inr t3 \<Rightarrow>
     (case scan_state env (identities env d l) fs fs t3 0 of Inl e \<Rightarrow> Inl e
      | Inr (t4, n) \<Rightarrow> Inr (t4, sum_list (map size_of (ln_originals l)), n)))))))"

definition inventory :: "retention_env \<Rightarrow> files \<Rightarrow> targets \<Rightarrow> purge_target list" where
  "inventory env fs ts = map (\<lambda>(p, category).
       let b = re_bytes env (the (map_of fs p)) in
       \<lparr>pt_path = p, pt_category = category, pt_size = length b, pt_sha = re_sha env b\<rparr>) (sort_key fst ts)"

definition target_json :: "purge_target \<Rightarrow> json" where
  "target_json t = JObj [(''path'', JStr (pt_path t)), (''category'', JStr (pt_category t)),
     (''size_bytes'', JInt (int (pt_size t))), (''sha256'', JStr (pt_sha t))]"

definition count_where :: "(string \<Rightarrow> bool) \<Rightarrow> targets \<Rightarrow> int" where
  "count_where P ts = int (length (filter (\<lambda>t. P (snd t)) ts))"

definition canonical_category :: "string \<Rightarrow> bool" where
  "canonical_category c = prefix ''canonical:'' c"

record impact =
  im_title :: string
  im_versions :: int
  im_acquisitions :: int
  im_canonical :: int
  im_originals :: int
  im_original_bytes :: int
  im_shared :: int
  im_derived :: int
  im_backups :: int
  im_unscanned :: int
  im_inventory :: string

definition impact_json :: "string \<Rightarrow> impact \<Rightarrow> json" where
  "impact_json d i = JObj
     [(''document_id'', JStr d), (''title'', JStr (im_title i)), (''versions'', JInt (im_versions i)),
      (''acquisitions'', JInt (im_acquisitions i)), (''canonical_records'', JInt (im_canonical i)),
      (''original_files'', JInt (im_originals i)), (''original_bytes'', JInt (im_original_bytes i)),
      (''shared_originals_retained'', JInt (im_shared i)),
      (''derived_and_operational_files'', JInt (im_derived i)),
      (''managed_backup_archives_observed'', JInt (im_backups i)),
      (''state_files_not_content_scanned'', JInt (im_unscanned i)),
      (''boundaries'', JObj
         [(''live_instance'', JStr ''targeted canonical lineage, Originals and identified local derived or operational references''),
          (''large_operational_state_files'', JStr (if im_unscanned i = 0 then ''none observed'' else ''not content-scanned'')),
          (''configured_source_files'', JStr ''not modified''),
          (''managed_backup_archives'', JStr (if im_backups i = 0 then ''none observed'' else ''may retain pre-purge content'')),
          (''external_backups_and_replicas'', JStr ''not observable''), (''broader_erasure_claimed'', JBool False)]),
      (''network_used'', JBool False), (''ai_used'', JBool False),
      (''target_inventory_sha256'', JStr (im_inventory i))]"

definition json_hash :: "retention_env \<Rightarrow> json \<Rightarrow> string" where
  "json_hash env j = re_sha env (re_canon env j)"

text \<open>\<open>backups\<close> is the number of managed backup archives beside the Instance.\<close>

definition MAX_MANAGED_BACKUPS :: nat where "MAX_MANAGED_BACKUPS = 10000"

definition purge_impact ::
  "retention_env \<Rightarrow> nat \<Rightarrow> string \<Rightarrow> (impact \<times> purge_target list) ract" where
  "purge_impact env backups d =
     bindA (document_lineage env d) (\<lambda>l.
     bindA (query (\<lambda>s. purge_targets env d l (rs_files s))) (\<lambda>(ts, bytes, n).
     bindA (reads rs_files) (\<lambda>fs.
     seqA (require (backups \<le> MAX_MANAGED_BACKUPS) (Purge_transaction ''managed backup count exceeds safety limit''))
     (let inv = inventory env fs ts in
      ret (\<lparr>im_title = str_field env ''title'' (ln_document l), im_versions = int (length (ln_versions l)),
            im_acquisitions = int (length (ln_acquisitions l)), im_canonical = count_where canonical_category ts,
            im_originals = count_where (\<lambda>c. c = ''original_bytes'') ts, im_original_bytes = bytes,
            im_shared = int (ln_shared l),
            im_derived = count_where (\<lambda>c. \<not> canonical_category c \<and> c \<noteq> ''original_bytes'') ts,
            im_backups = int backups, im_unscanned = int n,
            im_inventory = json_hash env (JList (map target_json inv))\<rparr>, inv)))))"

definition impact_digest :: "retention_env \<Rightarrow> string \<Rightarrow> impact \<Rightarrow> string" where
  "impact_digest env d i = json_hash env (impact_json d i)"

section \<open>The preview\<close>

definition PURGE_PREVIEW_TTL :: int where "PURGE_PREVIEW_TTL = 15 * 60 * 1000000"
definition MAX_PURGE_PREVIEWS :: nat where "MAX_PURGE_PREVIEWS = 200"

definition cleanup_previews :: "int \<Rightarrow> unit ract" where
  "cleanup_previews now =
     bindA (reads rs_previews) (\<lambda>ps.
     seqA (for_each (\<lambda>x. if now \<ge> pv_expires (snd x) then unlink_preview (fst x) else ret ()) ps)
     (bindA (reads rs_previews) (\<lambda>left.
       require (length left < MAX_PURGE_PREVIEWS) (Purge_authorization ''too many active purge previews''))))"

text \<open>The confirmation token is \<open>purge_\<close> and a random text.\<close>

definition purge_preview :: "retention_env \<Rightarrow> string \<Rightarrow> int \<Rightarrow> nat \<Rightarrow> string \<Rightarrow> impact ract" where
  "purge_preview env token now backups d =
     bindA (recover_pending env (re_iso env now)) (\<lambda>_.
     bindA (query (\<lambda>s. get_disposition env d (rs_files s))) (\<lambda>found. case found of
       None \<Rightarrow> raise (Ret_not_found (''document not found: '' @ d))
     | Some v \<Rightarrow>
       seqA (require (jget v ''status'' = JStr ''trashed'')
               (Ret_conflict ''Document must be in recoverable trash before purge preview''))
       (bindA (reads (\<lambda>s. re_inspect env (rs_files s))) (\<lambda>(ok, fingerprint).
        seqA (require ok (Ret_integrity ''Instance validation failed before purge preview''))
        (bindA (purge_impact env backups d) (\<lambda>(i, _).
         seqA (cleanup_previews now)
         (let k = re_sha env token;
              pv = \<lparr>pv_token = k, pv_document = d, pv_revision = revision_of v, pv_fingerprint = fingerprint,
                    pv_impact = impact_digest env d i, pv_inventory = im_inventory i, pv_created = now,
                    pv_expires = now + PURGE_PREVIEW_TTL\<rparr> in
          seqA (rput (\<lambda>s. s\<lparr>rs_previews := AList.update k pv (rs_previews s)\<rparr>)) (ret i))))))))"

definition preview_bound :: "string \<Rightarrow> string \<Rightarrow> purge_preview \<Rightarrow> bool" where
  "preview_bound k d pv \<longleftrightarrow>
     pv_token pv = k \<and> pv_document pv = d \<and> document_id_ok (pv_document pv) \<and> 1 \<le> pv_revision pv
   \<and> sha256_text (pv_fingerprint pv) \<and> sha256_text (pv_impact pv) \<and> sha256_text (pv_inventory pv)"

definition the_preview :: "retention_env \<Rightarrow> int \<Rightarrow> string \<Rightarrow> string \<Rightarrow> purge_preview ract" where
  "the_preview env now d selected =
     (let k = re_sha env selected in
      bindA (reads (\<lambda>s. map_of (rs_previews s) k)) (\<lambda>found. case found of
        None \<Rightarrow> raise (Purge_authorization ''purge confirmation token is missing or invalid'')
      | Some pv \<Rightarrow>
          seqA (require (preview_bound k d pv) (Purge_authorization ''purge confirmation token is not bound to target''))
          (seqA (require (pv_expires pv - pv_created pv = PURGE_PREVIEW_TTL)
                   (Purge_authorization ''purge confirmation timing is invalid''))
          (if now \<ge> pv_expires pv
           then seqA (unlink_preview k) (raise (Purge_authorization ''purge confirmation token has expired''))
           else ret pv))))"

section \<open>The purge\<close>

definition preview_current :: "retention_env \<Rightarrow> string \<Rightarrow> purge_preview \<Rightarrow> json \<Rightarrow> string \<Rightarrow> impact \<Rightarrow> bool" where
  "preview_current env d pv v fingerprint i \<longleftrightarrow>
     pv_fingerprint pv = fingerprint \<and> pv_revision pv = revision_of v
   \<and> pv_impact pv = impact_digest env d i \<and> pv_inventory pv = im_inventory i"

definition pending_receipt :: "retention_env \<Rightarrow> string \<Rightarrow> string \<Rightarrow> string \<Rightarrow> impact \<Rightarrow> purge_receipt" where
  "pending_receipt env d op k i =
     \<lparr>pr_status = ''pending'', pr_operation = op, pr_completed = None, pr_identity = re_sha env d, pr_token = k,
      pr_impact = impact_digest env d i, pr_canonical = im_canonical i, pr_originals = im_originals i,
      pr_original_bytes = im_original_bytes i, pr_derived = im_derived i, pr_shared = im_shared i,
      pr_backups = im_backups i, pr_unscanned = im_unscanned i\<rparr>"

definition new_pending ::
  "retention_env \<Rightarrow> string \<Rightarrow> string \<Rightarrow> string \<Rightarrow> string \<Rightarrow> impact \<Rightarrow> purge_target list \<Rightarrow> pending_purge" where
  "new_pending env d op k hex i ts =
     \<lparr>pg_phase = Purge_prepared, pg_document = d, pg_operation = op, pg_token = k, pg_preview = k,
      pg_stage = ''state/locks/.purge-stage-'' @ hex, pg_targets = ts, pg_receipt = pending_receipt env d op k i\<rparr>"

datatype purge_outcome = Purged purge_receipt | Already_purged purge_receipt

text \<open>From the staging of the targets to the marker that decides the purge.\<close>

definition commit_purge :: "retention_env \<Rightarrow> pending_purge \<Rightarrow> unit ract" where
  "commit_purge env p =
     seqA (stage_targets env p)
     (seqA (verify_staged_targets env p True)
     (seqA (verify_live_targets_absent p)
     (bindA (reads (\<lambda>s. fst (re_inspect env (rs_files s)))) (\<lambda>ok.
      seqA (require ok (Purge_transaction ''purged staging state failed live Instance validation''))
      (seqA (sync_document_derived env)
      (seqA (verify_live_targets_absent p)
        (write_pending (Pending (p\<lparr>pg_phase := Purge_committed\<rparr>)))))))))"

definition abort_purge ::
  "retention_env \<Rightarrow> string \<Rightarrow> (retention_error \<Rightarrow> string) \<Rightarrow> retention_error \<Rightarrow> 'a ract" where
  "abort_purge env now error_text e =
     bindA (the_pending env) (\<lambda>latest.
     seqA (case latest of
             None \<Rightarrow> ret ()
           | Some p \<Rightarrow> if pg_phase p = Purge_prepared then restore_prepared env now p (error_text e) else ret ())
       (raise e))"

definition execute_purge ::
  "retention_env \<Rightarrow> string \<Rightarrow> string \<Rightarrow> string \<Rightarrow> (retention_error \<Rightarrow> string) \<Rightarrow> string \<Rightarrow> string \<Rightarrow> impact
   \<Rightarrow> purge_target list \<Rightarrow> purge_receipt ract" where
  "execute_purge env op_hex hex now error_text d k i ts =
     bindA (start_operation env op_hex now ''document.permanent_purge''
              ''Permanently purge one trashed Document from the live Instance''
              (Some ''Execute a preview-bound and explicitly acknowledged live-Instance purge.'')
              [(''document_identity_sha256'', re_sha env d)]) (\<lambda>op.
     (let p = new_pending env d (op_id op) k hex i ts in
      seqA (catch Ret_stop (write_pending (Pending p)) (\<lambda>e.
        bindA (close_operation env now (op_id op) ''failed''
                 (Some ''Purge preparation failed before any target was staged.'') []
                 (Some ''purge_preparation_failed'') (Some (error_text e))) (\<lambda>_. raise e)))
      (seqA (catch Ret_stop (commit_purge env p) (abort_purge env now error_text))
        (finalize_committed env now (p\<lparr>pg_phase := Purge_committed\<rparr>)))))"

definition purge_selected ::
  "retention_env \<Rightarrow> string \<Rightarrow> string \<Rightarrow> int \<Rightarrow> nat \<Rightarrow> (retention_error \<Rightarrow> string) \<Rightarrow> string \<Rightarrow> string \<Rightarrow> string
   \<Rightarrow> purge_outcome ract" where
  "purge_selected env op_hex hex now backups error_text d k selected =
     bindA (reads (\<lambda>s. read_receipt env k d (rs_files s))) (\<lambda>receipt.
     bindA (query (\<lambda>s. read_canonical ''documents'' d (rs_files s))) (\<lambda>document.
     if document = None
     then (case receipt of
             Some r \<Rightarrow> ret (Already_purged r)
           | None \<Rightarrow> raise (Ret_not_found (''document not found: '' @ d)))
     else
       bindA (the_preview env now d selected) (\<lambda>pv.
       bindA (query (\<lambda>s. get_disposition env d (rs_files s))) (\<lambda>found. case found of
         None \<Rightarrow> raise (Ret_conflict ''Document must remain in recoverable trash until purge commit'')
       | Some v \<Rightarrow>
         seqA (require (jget v ''status'' = JStr ''trashed'')
                 (Ret_conflict ''Document must remain in recoverable trash until purge commit''))
         (bindA (reads (\<lambda>s. re_inspect env (rs_files s))) (\<lambda>(ok, fingerprint).
          seqA (require ok (Ret_integrity ''Instance validation failed before purge''))
          (bindA (purge_impact env backups d) (\<lambda>(i, ts).
           seqA (require (preview_current env d pv v fingerprint i)
                   (Purge_authorization ''purge preview is stale; generate and confirm a new impact preview''))
           (bindA (execute_purge env op_hex hex (re_iso env now) error_text d k i ts) (\<lambda>r.
             ret (Purged r)))))))))))"

definition purge ::
  "retention_env \<Rightarrow> string \<Rightarrow> string \<Rightarrow> int \<Rightarrow> nat \<Rightarrow> (retention_error \<Rightarrow> string) \<Rightarrow> string \<Rightarrow> string \<Rightarrow> bool
   \<Rightarrow> purge_outcome ract" where
  "purge env op_hex hex now backups error_text d token ack =
     seqA (require ack (Purge_authorization
       ''explicit acknowledgement of backup, replica and source boundaries is required''))
     (seqA (require (document_id_ok d) (Ret_not_found (''document not found: '' @ d)))
     (let selected = re_strip env token; k = re_sha env selected in
      seqA (require (selected \<noteq> [] \<and> length selected \<le> 500) (Purge_authorization ''purge confirmation token is invalid''))
      (bindA (recover_pending env (re_iso env now)) (\<lambda>recovery.
       case recovery of
         Some (Completed_purge r) \<Rightarrow>
           if pr_token r = k \<and> pr_identity r = re_sha env d then ret (Already_purged r)
           else purge_selected env op_hex hex now backups error_text d k selected
       | _ \<Rightarrow> purge_selected env op_hex hex now backups error_text d k selected))))"

end
