(* ===== verification/Retention_Safety.thy ===== *)
theory Retention_Safety
  imports Retention_Purge "HOL-Library.Multiset"
begin

text \<open>
  The states that a purge passes through, and the proof that each of its parts, and the recovery
  of an interrupted one, keeps to them on every exit: until the marker is written the targets
  are live or staged, afterwards they are staged or gone.
\<close>

section \<open>The inventory\<close>

definition listed :: "files \<Rightarrow> string \<Rightarrow> bool" where
  "listed fs p \<longleftrightarrow> map_of fs p \<noteq> None \<and> normalise_locator p = Some p"

definition target_list :: "files \<Rightarrow> targets \<Rightarrow> bool" where
  "target_list fs ts \<longleftrightarrow> distinct (map fst ts) \<and> fst ` set ts \<subseteq> {p. listed fs p}"

lemma add_target_cases:
  assumes "add_target fs p c ts = Inr ts'"
  obtains "ts' = ts" | "listed fs p" and "ts' = AList.update p c ts"
  using assms by (auto simp: add_target_def Let_def listed_def split: if_splits)

lemma add_target_list: "add_target fs p c ts = Inr ts' \<Longrightarrow> target_list fs ts \<Longrightarrow> target_list fs ts'"
  by (erule add_target_cases) (simp_all add: target_list_def distinct_update dom_update)

lemma add_targets_list: "add_targets fs xs ts = Inr ts' \<Longrightarrow> target_list fs ts \<Longrightarrow> target_list fs ts'"
proof (induction xs arbitrary: ts)
  case (Cons x xs)
  obtain p c where x: "x = (p, c)" by (cases x)
  then obtain t1 where "add_target fs p c ts = Inr t1" "add_targets fs xs t1 = Inr ts'"
    using Cons.prems(1) by (auto split: sum.splits)
  then show ?case using Cons.IH add_target_list Cons.prems(2) by blast
qed simp

lemma scan_state_list: "scan_state env is fs xs ts n = Inr (ts', m) \<Longrightarrow> target_list fs ts \<Longrightarrow> target_list fs ts'"
proof (induction xs arbitrary: ts n)
  case (Cons x xs)
  obtain p c where x: "x = (p, c)" by (cases x)
  show ?case
    using Cons.prems Cons.IH add_target_list unfolding x scan_state.simps
    by (fastforce split: if_splits sum.splits)
qed simp

lemma purge_targets_list:
  assumes "purge_targets env d l fs = Inr (ts, b, n)"
  shows "target_list fs ts"
proof -
  have "target_list fs []" by (simp add: target_list_def)
  then show ?thesis
    using assms unfolding purge_targets_def
    by (auto split: sum.splits if_splits dest!: add_targets_list scan_state_list)
qed

lemma inventory_paths: "map pt_path (inventory env fs ts) = map fst (sort_key fst ts)"
  by (auto simp: inventory_def Let_def)

lemma inventory_sound:
  assumes "target_list fs ts"
  shows "distinct (map pt_path (inventory env fs ts))" and "sorted (map pt_path (inventory env fs ts))"
    and "\<forall>t \<in> set (inventory env fs ts). listed fs (pt_path t)"
proof -
  have "mset (map fst (sort_key fst ts)) = mset (map fst ts)" by simp
  then show "distinct (map pt_path (inventory env fs ts))"
    using assms by (simp add: inventory_paths target_list_def) (metis mset_eq_imp_distinct_iff mset_map mset_sort)
  show "sorted (map pt_path (inventory env fs ts))" by (simp add: inventory_paths)
  show "\<forall>t \<in> set (inventory env fs ts). listed fs (pt_path t)"
    using assms by (auto simp: inventory_def Let_def target_list_def)
qed

abbreviation reads_only :: "'a ract \<Rightarrow> bool" where
  "reads_only \<equiv> keeps (\<lambda>s. s)"

lemma document_lineage_observes: "reads_only (document_lineage env d)"
  unfolding document_lineage_def canonical_or_def Let_def
  by (intro keeping) (auto intro!: keeping split: option.split)

lemma purge_impact_observes: "reads_only (purge_impact env n d)"
  unfolding purge_impact_def Let_def by (auto intro!: keeping document_lineage_observes)

lemma purge_impact_list:
  assumes "purge_impact env n d s = (Inr (i, ts), t)"
  shows "t = s" and "distinct (map pt_path ts)" and "sorted (map pt_path ts)"
    and "\<forall>x \<in> set ts. listed (rs_files s) (pt_path x)" and "im_inventory i = json_hash env (JList (map target_json ts))"
proof -
  show t: "t = s" using purge_impact_observes [of env n d] assms unfolding keeps_def by (metis snd_conv)
  obtain l s1 where l: "document_lineage env d s = (Inr l, s1)"
    and rest: "bindA (query (\<lambda>s. purge_targets env d l (rs_files s))) (\<lambda>(ts, bytes, n').
     bindA (reads rs_files) (\<lambda>fs.
     seqA (require (n \<le> MAX_MANAGED_BACKUPS) (Purge_transaction ''managed backup count exceeds safety limit''))
     (let inv = inventory env fs ts in
      ret (\<lparr>im_title = str_field env ''title'' (ln_document l), im_versions = int (length (ln_versions l)),
            im_acquisitions = int (length (ln_acquisitions l)), im_canonical = count_where canonical_category ts,
            im_originals = count_where (\<lambda>c. c = ''original_bytes'') ts, im_original_bytes = bytes,
            im_shared = int (ln_shared l),
            im_derived = count_where (\<lambda>c. \<not> canonical_category c \<and> c \<noteq> ''original_bytes'') ts,
            im_backups = int n, im_unscanned = int n',
            im_inventory = json_hash env (JList (map target_json inv))\<rparr>, inv)))) s1 = (Inr (i, ts), t)"
    using assms unfolding purge_impact_def by (auto simp: bindA_result)
  have "s1 = s" using document_lineage_observes [of env d] l unfolding keeps_def by (metis snd_conv)
  then obtain ts0 b m where p: "purge_targets env d l (rs_files s) = Inr (ts0, b, m)"
    and i: "ts = inventory env (rs_files s) ts0" "im_inventory i = json_hash env (JList (map target_json ts))"
    using rest by (cases "purge_targets env d l (rs_files s)") (auto simp: Let_def require_eq seqA_def bindA_def split: if_splits)
  show "distinct (map pt_path ts)" "sorted (map pt_path ts)" "\<forall>x \<in> set ts. listed (rs_files s) (pt_path x)"
    "im_inventory i = json_hash env (JList (map target_json ts))"
    using inventory_sound [OF purge_targets_list [OF p], of env] i by simp_all
qed

section \<open>Where the files of a purge are\<close>

text \<open>
  A path is in the scope of the purge when it is no derived view, not the record of its
  operation and not its receipt. \<open>L\<close> are the files before the purge.
\<close>

definition in_scope :: "pending_purge \<Rightarrow> string \<Rightarrow> bool" where
  "in_scope p x \<longleftrightarrow> \<not> derived_path x \<and> x \<noteq> operation_path (pg_operation p) \<and> x \<noteq> receipt_path (pg_token p)"

definition target_paths :: "pending_purge \<Rightarrow> string set" where
  "target_paths p = pt_path ` set (pg_targets p)"

type_synonym snapshot = "string \<Rightarrow> content option"

definition purge_plan :: "pending_purge \<Rightarrow> snapshot \<Rightarrow> bool" where
  "purge_plan p L \<longleftrightarrow> distinct (map pt_path (pg_targets p))
     \<and> (\<forall>x \<in> target_paths p. in_scope p x \<and> L x \<noteq> None \<and> normalise_locator x = Some x)"

definition staged_ok :: "retention_env \<Rightarrow> pending_purge \<Rightarrow> snapshot \<Rightarrow> files \<Rightarrow> bool" where
  "staged_ok env p L g \<longleftrightarrow> distinct (map fst g) \<and> (\<forall>x c. map_of g x = Some c \<longrightarrow> x \<in> target_paths p \<and> L x = Some c
     \<and> (\<forall>t \<in> set (pg_targets p). pt_path t = x \<longrightarrow> matches_target env (Some c) t))"

definition live_at :: "rstore \<Rightarrow> snapshot" where
  "live_at s x = map_of (rs_files s) x"

definition undecided_files :: "retention_env \<Rightarrow> pending_purge \<Rightarrow> snapshot \<Rightarrow> rstore \<Rightarrow> bool" where
  "undecided_files env p L s \<longleftrightarrow> staged_ok env p L (staged_of p s)
     \<and> (\<forall>x. in_scope p x \<longrightarrow> live_at s x = (if map_of (staged_of p s) x = None then L x else None))"

definition decided_files :: "retention_env \<Rightarrow> pending_purge \<Rightarrow> snapshot \<Rightarrow> rstore \<Rightarrow> bool" where
  "decided_files env p L s \<longleftrightarrow> staged_ok env p L (staged_of p s)
     \<and> (\<forall>x. in_scope p x \<longrightarrow> live_at s x = (if x \<in> target_paths p then None else L x))"

text \<open>The file of the operation of the purge holds no other operation.\<close>

definition own_operation :: "pending_purge \<Rightarrow> rstore \<Rightarrow> bool" where
  "own_operation p s \<longleftrightarrow> (\<forall>r. live_at s (operation_path (pg_operation p)) = Some (Oper r) \<longrightarrow> op_id r = pg_operation p)"

definition undecided :: "retention_env \<Rightarrow> pending_purge \<Rightarrow> snapshot \<Rightarrow> rstore \<Rightarrow> bool" where
  "undecided env p L s \<longleftrightarrow> rs_pending s = Pending (p\<lparr>pg_phase := Purge_prepared\<rparr>) \<and> own_operation p s \<and> undecided_files env p L s"

definition decided :: "retention_env \<Rightarrow> pending_purge \<Rightarrow> snapshot \<Rightarrow> rstore \<Rightarrow> bool" where
  "decided env p L s \<longleftrightarrow> rs_pending s = Pending (p\<lparr>pg_phase := Purge_committed\<rparr>) \<and> own_operation p s \<and> decided_files env p L s"

definition restored :: "pending_purge \<Rightarrow> snapshot \<Rightarrow> rstore \<Rightarrow> bool" where
  "restored p L s \<longleftrightarrow> rs_pending s = No_pending \<and> staged_files p s = None \<and> (\<forall>x. in_scope p x \<longrightarrow> live_at s x = L x)"

definition has_receipt :: "pending_purge \<Rightarrow> rstore \<Rightarrow> bool" where
  "has_receipt p s \<longleftrightarrow> (\<exists>r. live_at s (receipt_path (pg_token p)) = Some (Receipt r)
     \<and> pr_status r = ''completed'' \<and> pr_operation r = pr_operation (pg_receipt p))"

definition purged :: "pending_purge \<Rightarrow> snapshot \<Rightarrow> rstore \<Rightarrow> bool" where
  "purged p L s \<longleftrightarrow> rs_pending s = No_pending \<and> staged_files p s = None \<and> has_receipt p s
     \<and> (\<forall>x. in_scope p x \<longrightarrow> live_at s x = (if x \<in> target_paths p then None else L x))"

abbreviation rtriple ::
  "(rstore \<Rightarrow> bool) \<Rightarrow> 'a ract \<Rightarrow> ('a \<Rightarrow> rstore \<Rightarrow> bool) \<Rightarrow> (rstore \<Rightarrow> bool) \<Rightarrow> (rstore \<Rightarrow> bool) \<Rightarrow> bool" where
  "rtriple \<equiv> hoare Ret_stop"

text \<open>The conditions see neither the fates nor the previews.\<close>

lemma parts_fates [simp]:
  "staged_files p (s\<lparr>rs_fates := fs\<rparr>) = staged_files p s" "live_at (s\<lparr>rs_fates := fs\<rparr>) = live_at s"
  "staged_of p (s\<lparr>rs_fates := fs\<rparr>) = staged_of p s"
  by (simp_all add: staged_files_def live_at_def staged_of_def fun_eq_iff)

lemma parts_previews [simp]:
  "staged_files p (s\<lparr>rs_previews := fs\<rparr>) = staged_files p s" "live_at (s\<lparr>rs_previews := fs\<rparr>) = live_at s"
  "staged_of p (s\<lparr>rs_previews := fs\<rparr>) = staged_of p s"
  by (simp_all add: staged_files_def live_at_def staged_of_def fun_eq_iff)

lemma parts_pending [simp]:
  "staged_files p (s\<lparr>rs_pending := x\<rparr>) = staged_files p s" "live_at (s\<lparr>rs_pending := x\<rparr>) = live_at s"
  "staged_of p (s\<lparr>rs_pending := x\<rparr>) = staged_of p s"
  by (simp_all add: staged_files_def live_at_def staged_of_def fun_eq_iff)

lemma parts_files [simp]:
  "staged_files p (s\<lparr>rs_files := fs\<rparr>) = staged_files p s" "staged_of p (s\<lparr>rs_files := fs\<rparr>) = staged_of p s"
  by (simp_all add: staged_files_def staged_of_def)

lemma parts_staged [simp]:
  "staged_files p (set_staged p g s) = Some g" "staged_of p (set_staged p g s) = g" "live_at (set_staged p g s) = live_at s"
  "rs_pending (set_staged p g s) = rs_pending s" "rs_files (set_staged p g s) = rs_files s"
  by (simp_all add: set_staged_def staged_files_def staged_of_def live_at_def update_conv' fun_eq_iff)

text \<open>
  A condition that depends on the pending evidence, the stage, the watched files, and on the
  operation being the purge's own.
\<close>

definition watches :: "(string \<Rightarrow> bool) \<Rightarrow> pending_purge \<Rightarrow> (rstore \<Rightarrow> bool) \<Rightarrow> bool" where
  "watches W p G \<longleftrightarrow> (\<forall>x. W x \<longrightarrow> \<not> derived_path x \<and> x \<noteq> operation_path (pg_operation p))
     \<and> (\<forall>s. G s \<longrightarrow> own_operation p s)
     \<and> (\<forall>s t. G s \<longrightarrow> rs_pending t = rs_pending s \<longrightarrow> staged_files p t = staged_files p s
     \<longrightarrow> (\<forall>x. W x \<longrightarrow> live_at t x = live_at s x) \<longrightarrow> own_operation p t \<longrightarrow> G t)"

lemma watchesD:
  assumes "watches W p G" and "G s" and "rs_pending t = rs_pending s" and "staged_files p t = staged_files p s"
    and "\<And>x. W x \<Longrightarrow> live_at t x = live_at s x" and "own_operation p t"
  shows "G t"
  using assms unfolding watches_def by blast

lemma watches_own: "watches W p G \<Longrightarrow> G s \<Longrightarrow> own_operation p s"
  unfolding watches_def by blast

lemma own_fates [simp]: "own_operation p (s\<lparr>rs_fates := fs\<rparr>) = own_operation p s"
  by (simp add: own_operation_def)

lemma watches_fateless:
  assumes "watches W p G"
  shows "retention_disk.fateless G"
  unfolding retention_disk.fateless_def
proof (intro allI impI)
  fix s fs
  assume G: "G s"
  show "G (s\<lparr>rs_fates := fs\<rparr>)"
    by (rule watchesD [OF assms G]) (simp_all add: watches_own [OF assms G])
qed

lemma staged_of_eq: "staged_files p t = staged_files p s \<Longrightarrow> staged_of p t = staged_of p s"
  by (simp add: staged_of_def)

lemma conditions_watch: "watches (in_scope p) p (undecided env p L)" "watches (in_scope p) p (decided env p L)"
  by (auto simp: watches_def in_scope_def undecided_def decided_def undecided_files_def decided_files_def dest: staged_of_eq)

lemma keep_put:
  assumes "watches W p G" and "\<And>s. rs_pending (f s) = rs_pending s" and "\<And>s. staged_files p (f s) = staged_files p s"
    and "\<And>s x. W x \<Longrightarrow> live_at (f s) x = live_at s x" and "\<And>s. own_operation p s \<Longrightarrow> own_operation p (f s)"
  shows "rtriple G (rput f) (\<lambda>_. G) G G"
  by (rule retention_disk.hoare_put [OF watches_fateless [OF assms(1)]])
     (use assms watchesD [OF assms(1)] watches_own [OF assms(1)] in blast)+

lemma keep_observes: "reads_only m \<Longrightarrow> rtriple G m (\<lambda>_. G) G G"
  unfolding hoare_def keeps_def by (auto split: prod.splits sum.splits) (metis snd_conv)+

section \<open>The parts that keep every condition\<close>

lemma operation_path_live: "\<not> derived_path (operation_path i)"
  by (simp add: derived_path_def under_def operation_path_def)

lemma receipt_path_live: "\<not> derived_path (receipt_path k)" "receipt_path k \<noteq> operation_path i"
  by (simp_all add: derived_path_def under_def receipt_path_def operation_path_def)

lemma map_of_filter_key: "map_of (filter (\<lambda>x. P (fst x)) xs) k = (if P k then map_of xs k else None)"
  by (induction xs) auto

lemma rebuilt_look: "\<not> under area x \<Longrightarrow> map_of (rebuilt env area fs) x = map_of fs x"
  using map_of_filter_key [of "\<lambda>k. \<not> under area k" fs x]
    map_of_filter_key [of "under area" "re_views env (filter (\<lambda>x. \<not> derived_path (fst x)) fs)" x]
  by (simp add: rebuilt_def map_add_def split: option.split)

lemma sync_keeps:
  assumes "watches W p G"
  shows "rtriple G (sync_document_derived env) (\<lambda>_. G) G G"
proof -
  have W: "W x \<Longrightarrow> \<not> under ''indexes'' x \<and> \<not> under ''library'' x" for x
    using assms by (auto simp: watches_def derived_path_def)
  have op: "\<not> under ''indexes'' (operation_path i)" "\<not> under ''library'' (operation_path i)" for i
    using operation_path_live by (auto simp: derived_path_def)
  show ?thesis
    unfolding sync_document_derived_def rebuild_search_index_def rebuild_library_def
    by (intro hoare_seq [where R = "\<lambda>_. G"] keep_put [OF assms])
       (use W op in \<open>auto simp: live_at_def own_operation_def rebuilt_look\<close>)
qed

lemma close_operation_keeps:
  assumes "watches W p G"
  shows "rtriple G (close_operation env now (pg_operation p) st (Some summary) ms code err) (\<lambda>_. G) G G"
proof -
  have wr: "rtriple G (write_file (operation_path (op_id c)) (Oper c)) (\<lambda>_. G) G G" if "op_id c = pg_operation p" for c
    unfolding write_file_def
    by (rule keep_put [OF assms]) (use that assms in \<open>auto simp: live_at_def own_operation_def update_conv' watches_def\<close>)
  show ?thesis
    unfolding close_operation_def Let_def
  proof (intro hoare_seq [where R = "\<lambda>_. G"] hoare_require hoare_reads)
    fix s
    assume G: "G s"
    show "rtriple (\<lambda>t. t = s) (case get_record env (pg_operation p) (rs_files s) of
        None \<Rightarrow> raise Ret_key
      | Some r \<Rightarrow>
          seqA (require (op_status r = ''running'') (Ret_value ''operation is already closed''))
          (seqA (require (oper_ok env (closed_operation env now r st (Some summary) ms code err))
                   (Ret_value ''invalid operation record''))
           (seqA (write_file (operation_path (op_id (closed_operation env now r st (Some summary) ms code err)))
                    (Oper (closed_operation env now r st (Some summary) ms code err)))
             (ret (closed_operation env now r st (Some summary) ms code err))))) (\<lambda>_. G) G G"
    proof (cases "get_record env (pg_operation p) (rs_files s)")
      case None
      then show ?thesis using G by (auto intro: hoare_raise)
    next
      case (Some r)
      then have "live_at s (operation_path (pg_operation p)) = Some (Oper r)"
        by (auto simp: get_record_def live_at_def split: if_splits option.splits content.splits)
      then have id: "op_id (closed_operation env now r st (Some summary) ms code err) = pg_operation p"
        using watches_own [OF assms G] by (simp add: own_operation_def closed_operation_def)
      have "rtriple G (seqA (require (op_status r = ''running'') (Ret_value ''operation is already closed''))
          (seqA (require (oper_ok env (closed_operation env now r st (Some summary) ms code err))
                   (Ret_value ''invalid operation record''))
           (seqA (write_file (operation_path (op_id (closed_operation env now r st (Some summary) ms code err)))
                    (Oper (closed_operation env now r st (Some summary) ms code err)))
             (ret (closed_operation env now r st (Some summary) ms code err))))) (\<lambda>_. G) G G"
        by (intro hoare_seq [where R = "\<lambda>_. G"] hoare_require hoare_ret wr [OF id]) simp_all
      then show ?thesis using Some G by (simp add: hoare_conseq [where P' = "\<lambda>t. t = s"])
    qed
  qed simp_all
qed

lemma close_keeps:
  assumes "watches W p G"
  shows "rtriple G (close_if_running env now (pg_operation p) st summary ms code err) (\<lambda>_. G) G G"
proof -
  have "rtriple (\<lambda>t. t = s) (case get_record env (pg_operation p) (rs_files s) of
       None \<Rightarrow> ret ()
     | Some r \<Rightarrow> if op_status r = ''running''
         then bindA (close_operation env now (pg_operation p) st (Some summary) ms code err) (\<lambda>_. ret ())
         else ret ()) (\<lambda>_. G) G G" if G: "G s" for s
  proof -
    have "rtriple G (case get_record env (pg_operation p) (rs_files s) of
       None \<Rightarrow> ret ()
     | Some r \<Rightarrow> if op_status r = ''running''
         then bindA (close_operation env now (pg_operation p) st (Some summary) ms code err) (\<lambda>_. ret ())
         else ret ()) (\<lambda>_. G) G G"
      by (cases "get_record env (pg_operation p) (rs_files s)")
         (auto intro: hoare_bind [where R = "\<lambda>_. G"] close_operation_keeps [OF assms] hoare_ret)
    then show ?thesis using G by (simp add: hoare_conseq [where P' = "\<lambda>t. t = s"])
  qed
  then show ?thesis unfolding close_if_running_def by (rule hoare_reads)
qed

end
