(* ===== verification/Retention_Atomic.thy ===== *)
theory Retention_Atomic
  imports Retention_Safety
begin

text \<open>
  Staging, restoration and completion of a purge as triples on its states, the recovery of an
  interrupted purge, and the purge itself.
\<close>

section \<open>Staging and restoring\<close>

lemma verify_staged_observes: "reads_only (verify_staged_targets env p b)"
proof -
  have "reads_only (check_staged env p x)" for x
    unfolding check_staged_def by (auto intro!: keeping split: option.split)
  then show ?thesis
    unfolding verify_staged_targets_def by (intro keeping) (auto intro!: keeping split: option.split)
qed

lemma live_target_observes: "reads_only (live_target r)"
  unfolding live_target_def by (auto intro!: keeping split: option.split)

lemma the_pending_observes: "reads_only (the_pending env)"
  unfolding the_pending_def by (intro keeping)

lemma live_target_path: "live_target r s = (Inr x, t) \<Longrightarrow> x = r \<and> t = s"
  by (auto simp: live_target_def require_eq seqA_def bindA_def split: option.splits if_splits)

lemma live_target_fails: "live_target r s = (Inl e, t) \<Longrightarrow> t = s \<and> e \<noteq> Ret_stop"
  by (auto simp: live_target_def require_eq seqA_def bindA_def split: option.splits if_splits)

lemma triple_live_target:
  assumes "\<And>s. P s \<Longrightarrow> E s" and "rtriple P (k r) Q E C"
  shows "rtriple P (bindA (live_target r) k) Q E C"
  unfolding hoare_def
proof (intro allI impI)
  fix s
  assume P: "P s"
  obtain res t where lt: "live_target r s = (res, t)" by (cases "live_target r s")
  show "case bindA (live_target r) k s of (Inr x, t) \<Rightarrow> Q x t | (Inl e, t) \<Rightarrow> if e = Ret_stop then C t else E t"
  proof (cases res)
    case (Inl e)
    with lt live_target_fails [of r s e t] P assms(1) show ?thesis by simp
  next
    case (Inr x)
    with lt live_target_path [of r s x t] P assms(2) show ?thesis by (simp add: hoare_def)
  qed
qed

lemma triple_guard:
  assumes "rtriple P m Q E C" and "\<And>s. P s \<Longrightarrow> E s" and "e \<noteq> Ret_stop" and "P s"
  shows "rtriple (\<lambda>t. t = s) (seqA (require b e) m) Q E C"
  using assms by (cases b) (simp_all add: hoare_def)

lemma phase_blind [simp]:
  "staged_files (p\<lparr>pg_phase := f\<rparr>) = staged_files p" "staged_of (p\<lparr>pg_phase := f\<rparr>) = staged_of p"
  "in_scope (p\<lparr>pg_phase := f\<rparr>) = in_scope p" "target_paths (p\<lparr>pg_phase := f\<rparr>) = target_paths p"
  "staged_ok env (p\<lparr>pg_phase := f\<rparr>) = staged_ok env p" "own_operation (p\<lparr>pg_phase := f\<rparr>) = own_operation p"
  "undecided env (p\<lparr>pg_phase := f\<rparr>) = undecided env p" "decided env (p\<lparr>pg_phase := f\<rparr>) = decided env p"
  "purge_plan (p\<lparr>pg_phase := f\<rparr>) = purge_plan p" "restored (p\<lparr>pg_phase := f\<rparr>) = restored p"
  "purged (p\<lparr>pg_phase := f\<rparr>) = purged p"
  by (auto simp: staged_files_def staged_of_def in_scope_def target_paths_def staged_ok_def own_operation_def
      undecided_def decided_def undecided_files_def decided_files_def purge_plan_def restored_def purged_def
      has_receipt_def fun_eq_iff)

lemma staged_ok_delete: "staged_ok env p L g \<Longrightarrow> staged_ok env p L (AList.delete x g)"
  by (auto simp: staged_ok_def distinct_delete delete_conv')

lemma staged_ok_nil [simp]: "staged_ok env p L []"
  by (simp add: staged_ok_def)

lemma map_of_update [simp]: "map_of (AList.update k v d) x = (if x = k then Some v else map_of d x)"
  by (simp add: update_conv')

lemma map_of_delete [simp]: "map_of (AList.delete k d) x = (if x = k then None else map_of d x)"
  by (simp add: delete_conv')

lemma plan_only:
  assumes "purge_plan p L" and "t \<in> set (pg_targets p)" and "t' \<in> set (pg_targets p)" and "pt_path t' = pt_path t"
  shows "t' = t"
  using assms by (auto simp: purge_plan_def distinct_map inj_on_def)

lemma plan_target:
  assumes "purge_plan p L" and "t \<in> set (pg_targets p)"
  shows "in_scope p (pt_path t)" and "L (pt_path t) \<noteq> None" and "pt_path t \<in> target_paths p"
  using assms by (auto simp: purge_plan_def target_paths_def)

lemma rename_parts [simp]:
  "rs_pending (move_out p x c s) = rs_pending s" "rs_pending (move_back p x c s) = rs_pending s"
  "staged_of p (move_out p x c s) = AList.update x c (staged_of p s)"
  "staged_of p (move_back p x c s) = AList.delete x (staged_of p s)"
  "live_at (move_out p x c s) y = (if y = x then None else live_at s y)"
  "live_at (move_back p x c s) y = (if y = x then Some c else live_at s y)"
  by (simp_all add: move_out_def move_back_def live_at_def)

lemma own_moves:
  assumes "in_scope p x" and "own_operation p s"
  shows "own_operation p (move_out p x c s)" and "own_operation p (move_back p x c s)"
  using assms by (auto simp: own_operation_def in_scope_def)

lemma move_out_undecided:
  assumes plan: "purge_plan p L" and t: "t \<in> set (pg_targets p)" and s: "undecided env p L s"
    and c: "live_at s (pt_path t) = Some c" and m: "matches_target env (Some c) t"
  shows "undecided env p L (move_out p (pt_path t) c s)"
proof -
  note pt = plan_target [OF plan t]
  have u: "staged_ok env p L (staged_of p s)" "own_operation p s"
    "\<And>x. in_scope p x \<Longrightarrow> live_at s x = (if map_of (staged_of p s) x = None then L x else None)"
    using s by (auto simp: undecided_def undecided_files_def)
  have L: "L (pt_path t) = Some c" using u(3) [OF pt(1)] c by (simp split: if_splits)
  have "staged_ok env p L (AList.update (pt_path t) c (staged_of p s))"
    using u(1) L pt(3) m plan_only [OF plan t] by (auto simp: staged_ok_def distinct_update)
  then show ?thesis
    using s u(3) own_moves(1) [OF pt(1) u(2)] by (simp add: undecided_def undecided_files_def)
qed

lemma move_back_undecided:
  assumes plan: "purge_plan p L" and t: "t \<in> set (pg_targets p)" and s: "undecided env p L s"
    and c: "map_of (staged_of p s) (pt_path t) = Some c"
  shows "undecided env p L (move_back p (pt_path t) c s)"
proof -
  note pt = plan_target [OF plan t]
  have u: "staged_ok env p L (staged_of p s)" "own_operation p s"
    "\<And>x. in_scope p x \<Longrightarrow> live_at s x = (if map_of (staged_of p s) x = None then L x else None)"
    using s by (auto simp: undecided_def undecided_files_def)
  have L: "L (pt_path t) = Some c" using u(1) c by (simp add: staged_ok_def)
  then show ?thesis
    using s u(3) own_moves(2) [OF pt(1) u(2)] staged_ok_delete [OF u(1)]
    by (auto simp: undecided_def undecided_files_def)
qed

lemma undecided_fateless: "retention_disk.fateless (undecided env p L)"
  by (rule watches_fateless [OF conditions_watch(1)])

lemma decided_fateless: "retention_disk.fateless (decided env p L)"
  by (rule watches_fateless [OF conditions_watch(2)])

lemma fateless_and [intro]: "retention_disk.fateless G \<Longrightarrow> retention_disk.fateless H \<Longrightarrow> retention_disk.fateless (\<lambda>s. G s \<and> H s)"
  by (simp add: retention_disk.fateless_def)

lemma fateless_looks [simp]:
  "retention_disk.fateless (\<lambda>s. live_at s x = c)" "retention_disk.fateless (\<lambda>s. P (staged_of p s))"
  "retention_disk.fateless (\<lambda>s. staged_files p s = g)"
  by (simp_all add: retention_disk.fateless_def)

lemma stage_target_keeps:
  assumes plan: "purge_plan p L" and t: "t \<in> set (pg_targets p)"
  shows "rtriple (undecided env p L) (stage_target env p t) (\<lambda>_. undecided env p L) (undecided env p L) (undecided env p L)"
  unfolding stage_target_def
proof (rule triple_live_target, assumption, rule hoare_reads)
  fix s
  assume s: "undecided env p L s"
  let ?c = "map_of (rs_files s) (pt_path t)"
  show "rtriple (\<lambda>t. t = s) (if matches_target env ?c t then rput (move_out p (pt_path t) (the ?c))
      else raise (Purge_transaction ''purge target changed before commit''))
    (\<lambda>_. undecided env p L) (undecided env p L) (undecided env p L)"
  proof (cases "matches_target env ?c t")
    case True
    then obtain c where c: "?c = Some c" by (auto simp: matches_target_def split: option.splits)
    have "rtriple (\<lambda>s. undecided env p L s \<and> live_at s (pt_path t) = Some c) (rput (move_out p (pt_path t) c))
        (\<lambda>_. undecided env p L) (undecided env p L) (undecided env p L)"
      by (rule retention_disk.hoare_put [OF fateless_and [OF undecided_fateless fateless_looks(1)]])
         (use True c move_out_undecided [OF plan t] in auto)
    then show ?thesis
      using True c s by (auto simp: live_at_def elim: hoare_conseq)
  next
    case False
    then show ?thesis using s by (auto intro: hoare_raise)
  qed
qed

lemma stage_targets_keeps:
  assumes plan: "purge_plan p L"
  shows "rtriple (undecided env p L) (stage_targets env p) (\<lambda>_. undecided env p L) (undecided env p L) (undecided env p L)"
  unfolding stage_targets_def
proof (rule hoare_reads)
  fix s
  assume s: "undecided env p L s"
  let ?U = "undecided env p L"
  let ?N = "\<lambda>s. ?U s \<and> staged_files p s = None"
  have make: "rtriple ?N (rput (set_staged p [])) (\<lambda>_. ?U) ?U ?U"
  proof (rule retention_disk.hoare_put)
    show "retention_disk.fateless ?N" by (intro fateless_and undecided_fateless fateless_looks)
  next
    fix s
    assume n: "?N s"
    then have "staged_of p s = []" by (simp add: staged_of_def)
    with n show "?U (set_staged p [] s)" by (simp add: undecided_def undecided_files_def own_operation_def)
  qed simp_all
  have each: "rtriple ?U (for_each (stage_target env p) (pg_targets p)) (\<lambda>_. ?U) ?U ?U"
    by (rule hoare_for_each [where I = "\<lambda>_. ?U"]) (rule stage_target_keeps [OF plan], simp)
  show "rtriple (\<lambda>t. t = s) (seqA (require (staged_files p s = None) Ret_io)
      (seqA (rput (set_staged p [])) (for_each (stage_target env p) (pg_targets p)))) (\<lambda>_. ?U) ?U ?U"
  proof (cases "staged_files p s = None")
    case True
    have "rtriple ?N (seqA (rput (set_staged p [])) (for_each (stage_target env p) (pg_targets p))) (\<lambda>_. ?U) ?U ?U"
      by (rule hoare_seq [OF make each])
    with True s show ?thesis by (auto simp: hoare_def)
  next
    case False
    with s show ?thesis by (simp add: hoare_def)
  qed
qed

lemma restore_target_keeps:
  assumes plan: "purge_plan p L" and t: "t \<in> set (pg_targets p)"
  shows "rtriple (\<lambda>s. undecided env p L s \<and> (\<forall>x \<in> A. map_of (staged_of p s) x = None)) (restore_target p t)
    (\<lambda>_ s. undecided env p L s \<and> (\<forall>x \<in> insert (pt_path t) A. map_of (staged_of p s) x = None))
    (undecided env p L) (undecided env p L)"
  unfolding restore_target_def
proof (rule hoare_reads)
  let ?U = "undecided env p L"
  let ?P = "\<lambda>s. ?U s \<and> (\<forall>x \<in> A. map_of (staged_of p s) x = None)"
  let ?Q = "\<lambda>_ s. ?U s \<and> (\<forall>x \<in> insert (pt_path t) A. map_of (staged_of p s) x = None)"
  fix s
  assume s: "?P s"
  show "rtriple (\<lambda>t. t = s) (case map_of (staged_of p s) (pt_path t) of
       None \<Rightarrow> ret ()
     | Some c \<Rightarrow>
         bindA (live_target (pt_path t)) (\<lambda>path.
         bindA (reads (\<lambda>s. map_of (rs_files s) path)) (\<lambda>live.
         seqA (require (live = None) (Purge_transaction ''purge rollback target was unexpectedly recreated''))
           (rput (move_back p path c))))) ?Q ?U ?U"
  proof (cases "map_of (staged_of p s) (pt_path t)")
    case None
    with s show ?thesis by (auto intro: hoare_ret)
  next
    case (Some c)
    let ?H = "\<lambda>s. ?P s \<and> map_of (staged_of p s) (pt_path t) = Some c"
    have put: "rtriple ?H (rput (move_back p (pt_path t) c)) ?Q ?U ?U"
    proof (rule retention_disk.hoare_put)
      have "retention_disk.fateless (\<lambda>s. ?U s \<and> (\<forall>x \<in> A. map_of (staged_of p s) x = None))"
        by (intro fateless_and undecided_fateless) (simp add: retention_disk.fateless_def)
      then show "retention_disk.fateless ?H" by (rule fateless_and) (simp add: retention_disk.fateless_def)
    qed (use move_back_undecided [OF plan t] in auto)
    have "rtriple ?H (bindA (live_target (pt_path t)) (\<lambda>path.
         bindA (reads (\<lambda>s. map_of (rs_files s) path)) (\<lambda>live.
         seqA (require (live = None) (Purge_transaction ''purge rollback target was unexpectedly recreated''))
           (rput (move_back p path c))))) ?Q ?U ?U"
      by (intro triple_live_target hoare_reads triple_guard [OF put]) auto
    with Some s show ?thesis by (auto simp: hoare_def)
  qed
qed

section \<open>Removing the stage\<close>

definition shrinks :: "pending_purge \<Rightarrow> (rstore \<Rightarrow> bool) \<Rightarrow> bool" where
  "shrinks p G \<longleftrightarrow> retention_disk.fateless G
     \<and> (\<forall>s x. G s \<longrightarrow> G (set_staged p (AList.delete x (staged_of p s)) s))
     \<and> (\<forall>s. G s \<longrightarrow> G (s\<lparr>rs_stages := AList.delete (pg_stage p) (rs_stages s)\<rparr>))"

lemma stage_gone [simp]:
  "staged_files p (s\<lparr>rs_stages := AList.delete (pg_stage p) (rs_stages s)\<rparr>) = None"
  "staged_of p (s\<lparr>rs_stages := AList.delete (pg_stage p) (rs_stages s)\<rparr>) = []"
  "live_at (s\<lparr>rs_stages := d\<rparr>) = live_at s"
  by (simp_all add: staged_files_def staged_of_def live_at_def fun_eq_iff)

lemma own_parts [simp]:
  "own_operation p (set_staged p g s) = own_operation p s" "own_operation p (s\<lparr>rs_stages := d\<rparr>) = own_operation p s"
  "own_operation p (s\<lparr>rs_pending := x\<rparr>) = own_operation p s"
  by (simp_all add: own_operation_def)

lemma stage_removal_decided: "shrinks p (decided env p L)"
  unfolding shrinks_def
  by (auto simp: decided_fateless decided_def decided_files_def staged_ok_delete)

lemma stage_removal_empty: "shrinks p (\<lambda>s. undecided env p L s \<and> staged_of p s = [])"
  unfolding shrinks_def
proof (intro conjI)
  have "retention_disk.fateless (\<lambda>s. undecided env p L s \<and> staged_of p s = [])"
    by (intro fateless_and undecided_fateless) (simp add: retention_disk.fateless_def)
  then show "retention_disk.fateless (\<lambda>s. undecided env p L s \<and> staged_of p s = [])" .
qed (auto simp: undecided_def undecided_files_def)

lemma remove_stage_tree_keeps:
  assumes "shrinks p G"
  shows "rtriple G (remove_stage_tree p) (\<lambda>_ s. G s \<and> staged_files p s = None) G G"
  unfolding remove_stage_tree_def
proof (rule hoare_reads)
  fix s
  assume s: "G s"
  have item: "rtriple G (rput (\<lambda>s. set_staged p (AList.delete x (staged_of p s)) s)) (\<lambda>_. G) G G" for x
    by (rule retention_disk.hoare_put) (use assms in \<open>auto simp: shrinks_def\<close>)
  have dir: "rtriple G (rput (\<lambda>s. s\<lparr>rs_stages := AList.delete (pg_stage p) (rs_stages s)\<rparr>))
      (\<lambda>_ s. G s \<and> staged_files p s = None) G G"
    by (rule retention_disk.hoare_put) (use assms in \<open>auto simp: shrinks_def\<close>)
  have "rtriple G (for_each (\<lambda>x. rput (\<lambda>s. set_staged p (AList.delete (fst x) (staged_of p s)) s)) fs) (\<lambda>_. G) G G" for fs
    by (rule hoare_for_each [where I = "\<lambda>_. G"]) (rule item)
  note removal = hoare_seq [OF this dir]
  show "rtriple (\<lambda>t. t = s) (case staged_files p s of
       None \<Rightarrow> ret ()
     | Some fs \<Rightarrow>
         seqA (for_each (\<lambda>x. rput (\<lambda>s. set_staged p (AList.delete (fst x) (staged_of p s)) s)) fs)
           (rput (\<lambda>s. s\<lparr>rs_stages := AList.delete (pg_stage p) (rs_stages s)\<rparr>)))
     (\<lambda>_ s. G s \<and> staged_files p s = None) G G"
  proof (cases "staged_files p s")
    case None
    with s show ?thesis by (auto intro: hoare_ret)
  next
    case (Some fs)
    then show ?thesis using s by (auto intro: hoare_conseq [OF removal [of fs]])
  qed
qed

section \<open>The end of a purge\<close>

definition bare :: "retention_env \<Rightarrow> pending_purge \<Rightarrow> snapshot \<Rightarrow> rstore \<Rightarrow> bool" where
  "bare env p L s \<longleftrightarrow> undecided env p L s \<and> staged_files p s = None"

definition emptied :: "retention_env \<Rightarrow> pending_purge \<Rightarrow> snapshot \<Rightarrow> rstore \<Rightarrow> bool" where
  "emptied env p L s \<longleftrightarrow> decided env p L s \<and> staged_files p s = None"

definition receipted :: "retention_env \<Rightarrow> pending_purge \<Rightarrow> snapshot \<Rightarrow> rstore \<Rightarrow> bool" where
  "receipted env p L s \<longleftrightarrow> emptied env p L s \<and> has_receipt p s"

lemma watches_and:
  assumes "watches W p G" and "\<And>x. W x \<Longrightarrow> W' x" and "\<And>x. W' x \<Longrightarrow> \<not> derived_path x \<and> x \<noteq> operation_path (pg_operation p)"
    and "\<And>s t. H s \<Longrightarrow> staged_files p t = staged_files p s \<Longrightarrow> (\<And>x. W' x \<Longrightarrow> live_at t x = live_at s x) \<Longrightarrow> H t"
  shows "watches W' p (\<lambda>s. G s \<and> H s)"
  unfolding watches_def
proof (intro conjI allI impI)
  fix s t
  assume "G s \<and> H s" and same: "rs_pending t = rs_pending s" "staged_files p t = staged_files p s"
    "\<forall>x. W' x \<longrightarrow> live_at t x = live_at s x" "own_operation p t"
  then show "G t" "H t" using watchesD [OF assms(1), of s t] assms(2,4) by blast+
next
  fix s
  assume "G s \<and> H s"
  then show "own_operation p s" using watches_own [OF assms(1)] by blast
qed (use assms(3) in blast)+

lemma in_scope_watched: "in_scope p x \<Longrightarrow> \<not> derived_path x \<and> x \<noteq> operation_path (pg_operation p)"
  by (simp add: in_scope_def)

lemma watches_bare: "watches (in_scope p) p (bare env p L)"
  unfolding bare_def by (rule watches_and [OF conditions_watch(1)]) (simp_all add: in_scope_watched)

lemma watches_emptied: "watches (in_scope p) p (emptied env p L)"
  unfolding emptied_def by (rule watches_and [OF conditions_watch(2)]) (simp_all add: in_scope_watched)

lemma watches_receipted: "watches (\<lambda>x. in_scope p x \<or> x = receipt_path (pg_token p)) p (receipted env p L)"
  unfolding receipted_def
  by (rule watches_and [OF watches_emptied]) (auto simp: in_scope_def receipt_path_live has_receipt_def)

lemma write_pending_last:
  assumes "watches W p G" and "\<And>s. G s \<Longrightarrow> Q () (s\<lparr>rs_pending := x\<rparr>)"
  shows "rtriple G (write_pending x) Q G G"
  unfolding write_pending_def
  by (rule retention_disk.hoare_put [OF watches_fateless [OF assms(1)]]) (use assms(2) in auto)

lemma all_restored:
  assumes "undecided env p L s" and "\<forall>t \<in> set (pg_targets p). map_of (staged_of p s) (pt_path t) = None"
  shows "staged_of p s = []"
proof (rule ccontr)
  assume "staged_of p s \<noteq> []"
  then obtain x c where xc: "map_of (staged_of p s) x = Some c" by (cases "staged_of p s") force+
  then have "x \<in> target_paths p" using assms(1) unfolding undecided_def undecided_files_def staged_ok_def by blast
  with xc assms(2) show False by (auto simp: target_paths_def)
qed

lemma restore_prepared_restores:
  assumes plan: "purge_plan p L"
  shows "rtriple (undecided env p L) (restore_prepared env now p error) (\<lambda>_. restored p L) (undecided env p L) (undecided env p L)"
proof -
  let ?U = "undecided env p L"
  let ?I = "\<lambda>ts s. ?U s \<and> (\<forall>x \<in> pt_path ` set ts. map_of (staged_of p s) x = None)"
  have step: "rtriple (?I xs) (restore_target p t) (\<lambda>_. ?I (xs @ [t])) ?U ?U" if "rev (pg_targets p) = xs @ t # ys" for xs t ys
  proof -
    have "t \<in> set (pg_targets p)" using arg_cong [OF that, of set] by auto
    from restore_target_keeps [OF plan this, of env "pt_path ` set xs"] show ?thesis by simp
  qed
  have loop: "rtriple ?U (for_each (restore_target p) (rev (pg_targets p))) (\<lambda>_ s. ?U s \<and> staged_of p s = []) ?U ?U"
    using hoare_for_each [where I = ?I, OF step]
    by (rule hoare_conseq) (simp_all, blast intro: all_restored)
  have tree: "rtriple (\<lambda>s. ?U s \<and> staged_of p s = []) (remove_stage_tree p) (\<lambda>_. bare env p L) ?U ?U"
    by (rule hoare_conseq [OF remove_stage_tree_keeps [OF stage_removal_empty]]) (auto simp: bare_def)
  have bare: "\<And>s. bare env p L s \<Longrightarrow> ?U s" by (simp add: bare_def)
  have fin: "bare env p L s \<Longrightarrow> restored p L (s\<lparr>rs_pending := No_pending\<rparr>)" for s
    by (auto simp: bare_def restored_def undecided_def undecided_files_def staged_of_def split: option.splits)
  show ?thesis
    unfolding restore_prepared_def
  proof (intro hoare_seq)
    show "rtriple ?U (verify_staged_targets env p False) (\<lambda>_. ?U) ?U ?U"
      by (rule keep_observes [OF verify_staged_observes])
    show "rtriple (bare env p L) (sync_document_derived env) (\<lambda>_. bare env p L) ?U ?U"
      by (rule hoare_conseq [OF sync_keeps [OF watches_bare]]) (auto simp: bare)
    show "rtriple (bare env p L) (close_if_running env now (pg_operation p) ''failed''
              ''Interrupted purge was rolled back before commit.'' [] (Some ''purge_rolled_back'') (Some error))
        (\<lambda>_. bare env p L) ?U ?U"
      by (rule hoare_conseq [OF close_keeps [OF watches_bare]]) (auto simp: bare)
    show "rtriple (bare env p L) (write_pending No_pending) (\<lambda>_. restored p L) ?U ?U"
      by (rule hoare_conseq [OF write_pending_last [OF watches_bare, where Q = "\<lambda>_. restored p L"]]) (auto simp: bare fin)
  qed (rule loop tree)+
qed

lemma other_file_keeps:
  assumes "watches W p G" and "\<not> W x" and "x \<noteq> operation_path (pg_operation p)"
  shows "rtriple G (write_file x c) (\<lambda>_. G) G G"
  unfolding write_file_def
  by (rule keep_put [OF assms(1)]) (use assms(2,3) in \<open>auto simp: live_at_def own_operation_def\<close>)

lemma unlink_preview_keeps:
  assumes "watches W p G"
  shows "rtriple G (unlink_preview k) (\<lambda>_. G) G G"
proof -
  have "rtriple G (rput (\<lambda>s. s\<lparr>rs_previews := AList.delete k (rs_previews s)\<rparr>)) (\<lambda>_. G) G G"
    by (rule keep_put [OF assms]) (simp_all add: own_operation_def)
  then show ?thesis
    unfolding unlink_preview_def by (intro hoare_reads) (auto simp: hoare_def)
qed

lemma finalize_completes:
  shows "rtriple (decided env p L) (finalize_committed env now p) (\<lambda>_. purged p L) (decided env p L) (decided env p L)"
proof -
  let ?D = "decided env p L"
  let ?r = "(pg_receipt p)\<lparr>pr_status := ''completed'', pr_completed := Some now\<rparr>"
  have down: "\<And>s. emptied env p L s \<Longrightarrow> ?D s" "\<And>s. receipted env p L s \<Longrightarrow> ?D s"
    by (simp_all add: emptied_def receipted_def)
  have tree: "rtriple ?D (seqA (verify_staged_targets env p False) (remove_stage_tree p)) (\<lambda>_. emptied env p L) ?D ?D"
    unfolding emptied_def
    by (rule hoare_seq [OF keep_observes [OF verify_staged_observes] remove_stage_tree_keeps [OF stage_removal_decided]])
  have clear: "rtriple ?D (bindA (reads (staged_files p)) (\<lambda>found.
         if found = None then ret ()
         else seqA (verify_staged_targets env p False) (remove_stage_tree p))) (\<lambda>_. emptied env p L) ?D ?D"
  proof (rule hoare_reads)
    fix s
    assume s: "?D s"
    show "rtriple (\<lambda>t. t = s) (if staged_files p s = None then ret ()
         else seqA (verify_staged_targets env p False) (remove_stage_tree p)) (\<lambda>_. emptied env p L) ?D ?D"
      using s by (auto intro: hoare_ret hoare_conseq [OF tree] simp: emptied_def)
  qed
  have receipt: "rtriple (emptied env p L) (write_file (receipt_path (pg_token p)) (Receipt ?r)) (\<lambda>_. receipted env p L) ?D ?D"
  proof -
    have keep: "rtriple (emptied env p L) (write_file (receipt_path (pg_token p)) (Receipt ?r)) (\<lambda>_. emptied env p L)
        (emptied env p L) (emptied env p L)"
      by (rule other_file_keeps [OF watches_emptied]) (simp_all add: in_scope_def receipt_path_live)
    have "rtriple (emptied env p L) (write_file (receipt_path (pg_token p)) (Receipt ?r)) (\<lambda>_. has_receipt p)
        (emptied env p L) (emptied env p L)"
      unfolding write_file_def
      by (rule retention_disk.hoare_put [OF watches_fateless [OF watches_emptied]])
         (simp_all add: has_receipt_def live_at_def)
    from hoare_both [OF keep this] show ?thesis by (rule hoare_conseq) (simp_all add: receipted_def down)
  qed
  have fin: "receipted env p L s \<Longrightarrow> purged p L (s\<lparr>rs_pending := No_pending\<rparr>)" for s
    by (auto simp: receipted_def emptied_def purged_def decided_def decided_files_def has_receipt_def)
  show ?thesis
    unfolding finalize_committed_def Let_def
  proof (intro hoare_seq)
    show "rtriple ?D (require (valid_receipt env ?r (pg_token p) (Some (pg_document p)) ''completed'')
              (Purge_transaction ''completed purge receipt is invalid'')) (\<lambda>_. ?D) ?D ?D"
      by (rule hoare_require) auto
    show "rtriple (emptied env p L) (sync_document_derived env) (\<lambda>_. emptied env p L) ?D ?D"
      by (rule hoare_conseq [OF sync_keeps [OF watches_emptied]]) (auto simp: down)
    show "rtriple (receipted env p L) (close_if_running env now (pg_operation p) ''completed''
               ''Confirmed live-Instance purge completed.''
               [(''canonical_records_removed'', pr_canonical ?r), (''original_files_removed'', pr_originals ?r),
                (''original_bytes_removed'', pr_original_bytes ?r)] None None) (\<lambda>_. receipted env p L) ?D ?D"
      by (rule hoare_conseq [OF close_keeps [OF watches_receipted]]) (auto simp: down)
    show "rtriple (receipted env p L) (unlink_preview (pg_preview p)) (\<lambda>_. receipted env p L) ?D ?D"
      by (rule hoare_conseq [OF unlink_preview_keeps [OF watches_receipted]]) (auto simp: down)
    show "rtriple (receipted env p L) (write_pending No_pending) (\<lambda>_. purged p L) ?D ?D"
      by (rule hoare_conseq [OF write_pending_last [OF watches_receipted, where Q = "\<lambda>_. purged p L"]])
         (auto simp: down fin)
    show "rtriple (purged p L) (ret ?r) (\<lambda>_. purged p L) ?D ?D"
      by (rule hoare_ret)
  qed (rule clear receipt)+
qed

section \<open>Recovery\<close>

text \<open>The outcomes of a purge, over and under way.\<close>

definition kept :: "retention_env \<Rightarrow> pending_purge \<Rightarrow> snapshot \<Rightarrow> rstore \<Rightarrow> bool" where
  "kept env p L s \<longleftrightarrow> undecided env p L s \<or> restored p L s"

definition removed :: "retention_env \<Rightarrow> pending_purge \<Rightarrow> snapshot \<Rightarrow> rstore \<Rightarrow> bool" where
  "removed env p L s \<longleftrightarrow> decided env p L s \<or> purged p L s"

lemma the_pending_eval:
  "rs_pending s = No_pending \<Longrightarrow> the_pending env s = (Inr None, s)"
  "rs_pending s = Pending p \<Longrightarrow> the_pending env s = (if pending_ok env p then Inr (Some p)
     else Inl (Purge_transaction ''pending purge evidence is invalid''), s)"
  by (simp_all add: the_pending_def)

lemma recover_kept:
  assumes plan: "purge_plan p L"
  shows "rtriple (kept env p L) (recover_pending env now) (\<lambda>_. restored p L) (kept env p L) (kept env p L)"
proof (rule hoare_pre)
  fix s
  assume "kept env p L s"
  then consider "restored p L s" | "undecided env p L s" unfolding kept_def by blast
  then show "rtriple (\<lambda>t. t = s) (recover_pending env now) (\<lambda>_. restored p L) (kept env p L) (kept env p L)"
  proof cases
    case 1
    then show ?thesis by (simp add: hoare_def recover_pending_def the_pending_eval restored_def)
  next
    case 2
    let ?q = "p\<lparr>pg_phase := Purge_prepared\<rparr>"
    let ?m = "seqA (restore_prepared env now ?q ''interrupted before purge commit'') (ret (Some Restored_state))"
    have pend: "rs_pending s = Pending ?q" using 2 by (simp add: undecided_def)
    show ?thesis
    proof (cases "pending_ok env ?q")
      case False
      then show ?thesis using 2 by (simp add: hoare_def recover_pending_def the_pending_eval(2) [OF pend] kept_def)
    next
      case True
      have run: "recover_pending env now s = ?m s"
        using True by (simp add: recover_pending_def the_pending_eval(2) [OF pend])
      have "rtriple (undecided env ?q L) ?m (\<lambda>_. restored ?q L) (undecided env ?q L) (undecided env ?q L)"
        by (rule hoare_seq [OF restore_prepared_restores]) (use plan in \<open>auto intro: hoare_ret\<close>)
      then have "rtriple (undecided env p L) ?m (\<lambda>_. restored p L) (kept env p L) (kept env p L)"
        by (rule hoare_conseq) (simp_all add: kept_def)
      from hoare_at [of "recover_pending env now" s, OF run this 2] show ?thesis .
    qed
  qed
qed

lemma recover_removed:
  shows "rtriple (removed env p L) (recover_pending env now) (\<lambda>_. purged p L) (removed env p L) (removed env p L)"
proof (rule hoare_pre)
  fix s
  assume "removed env p L s"
  then consider "purged p L s" | "decided env p L s" unfolding removed_def by blast
  then show "rtriple (\<lambda>t. t = s) (recover_pending env now) (\<lambda>_. purged p L) (removed env p L) (removed env p L)"
  proof cases
    case 1
    then show ?thesis by (simp add: hoare_def recover_pending_def the_pending_eval purged_def)
  next
    case 2
    let ?q = "p\<lparr>pg_phase := Purge_committed\<rparr>"
    let ?m = "bindA (finalize_committed env now ?q) (\<lambda>r. ret (Some (Completed_purge r)))"
    have pend: "rs_pending s = Pending ?q" using 2 by (simp add: decided_def)
    show ?thesis
    proof (cases "pending_ok env ?q")
      case False
      then show ?thesis using 2 by (simp add: hoare_def recover_pending_def the_pending_eval(2) [OF pend] removed_def)
    next
      case True
      have run: "recover_pending env now s = ?m s"
        using True by (simp add: recover_pending_def the_pending_eval(2) [OF pend])
      have "rtriple (decided env ?q L) ?m (\<lambda>_. purged ?q L) (decided env ?q L) (decided env ?q L)"
        by (rule hoare_bind [OF finalize_completes]) (auto intro: hoare_ret)
      then have "rtriple (decided env p L) ?m (\<lambda>_. purged p L) (removed env p L) (removed env p L)"
        by (rule hoare_conseq) (simp_all add: removed_def)
      from hoare_at [of "recover_pending env now" s, OF run this 2] show ?thesis .
    qed
  qed
qed

end
