(* ===== verification/Retention_Outcome.thy ===== *)
theory Retention_Outcome
  imports Retention_Atomic
begin

text \<open>
  The purge as a whole: from its first write to its last it keeps to the two groups of states,
  the files kept and the targets removed, and recovery settles each group.
\<close>

section \<open>From the operation to the end\<close>

definition ready :: "pending_purge \<Rightarrow> snapshot \<Rightarrow> rstore \<Rightarrow> bool" where
  "ready p L s \<longleftrightarrow> restored p L s \<and> own_operation p s"

definition in_flight :: "retention_env \<Rightarrow> pending_purge \<Rightarrow> snapshot \<Rightarrow> rstore \<Rightarrow> bool" where
  "in_flight env p L s \<longleftrightarrow> kept env p L s \<or> removed env p L s"

lemma ready_watches: "watches (in_scope p) p (ready p L)"
  by (auto simp: watches_def ready_def restored_def in_scope_watched)

lemma flight_cases [simp]:
  "undecided env p L s \<Longrightarrow> kept env p L s" "restored p L s \<Longrightarrow> kept env p L s" "ready p L s \<Longrightarrow> kept env p L s"
  "kept env p L s \<Longrightarrow> in_flight env p L s" "decided env p L s \<Longrightarrow> removed env p L s" "purged p L s \<Longrightarrow> removed env p L s"
  "removed env p L s \<Longrightarrow> in_flight env p L s" "ready p L s \<Longrightarrow> in_flight env p L s"
  by (simp_all add: in_flight_def kept_def removed_def ready_def)

lemma write_prepared:
  assumes "pg_phase p = Purge_prepared"
  shows "rtriple (ready p L) (write_pending (Pending p)) (\<lambda>_. undecided env p L) (ready p L) (ready p L)"
proof (rule write_pending_last [OF ready_watches])
  fix s
  assume r: "ready p L s"
  have "p\<lparr>pg_phase := Purge_prepared\<rparr> = p" using assms by simp
  then show "undecided env p L (s\<lparr>rs_pending := Pending p\<rparr>)"
    using r by (auto simp: ready_def restored_def undecided_def undecided_files_def staged_of_def)
qed

definition absent :: "pending_purge \<Rightarrow> rstore \<Rightarrow> bool" where
  "absent p s \<longleftrightarrow> (\<forall>x \<in> target_paths p. live_at s x = None)"

lemma verify_absent_keeps:
  "rtriple (undecided env p L) (verify_live_targets_absent p) (\<lambda>_ s. undecided env p L s \<and> absent p s)
     (undecided env p L) (undecided env p L)"
proof -
  let ?U = "undecided env p L"
  let ?I = "\<lambda>ts s. ?U s \<and> (\<forall>t \<in> set ts. live_at s (pt_path t) = None)"
  have step: "rtriple (?I xs) (bindA (live_target (pt_path t)) (\<lambda>path.
      bindA (reads rs_files) (\<lambda>fs.
        require (map_of fs path = None) (Purge_transaction ''purge target was recreated before commit''))))
     (\<lambda>_. ?I (xs @ [t])) ?U ?U" for xs t
    by (intro triple_live_target hoare_reads) (auto simp: live_at_def hoare_def require_eq split: if_splits)
  show ?thesis
    unfolding verify_live_targets_absent_def
    by (rule hoare_conseq [OF hoare_for_each [where I = ?I, OF step]])
       (auto simp: absent_def target_paths_def)
qed

lemma commit_purge_decides:
  assumes plan: "purge_plan p L"
  shows "rtriple (undecided env p L) (commit_purge env p) (\<lambda>_. decided env p L) (undecided env p L) (undecided env p L)"
proof -
  let ?U = "undecided env p L"
  have absent_watches: "watches (in_scope p) p (\<lambda>s. ?U s \<and> absent p s)"
    by (rule watches_and [OF conditions_watch(1)])
       (use plan in \<open>auto simp: in_scope_watched absent_def purge_plan_def\<close>)
  have mark: "decided env p L (s\<lparr>rs_pending := Pending (p\<lparr>pg_phase := Purge_committed\<rparr>)\<rparr>)" if "?U s \<and> absent p s" for s
    using that by (auto simp: undecided_def undecided_files_def decided_def decided_files_def absent_def staged_ok_def
        split: if_splits)
  show ?thesis
    unfolding commit_purge_def
  proof (intro hoare_seq)
    show "rtriple ?U (stage_targets env p) (\<lambda>_. ?U) ?U ?U" by (rule stage_targets_keeps [OF plan])
    show "rtriple ?U (verify_staged_targets env p True) (\<lambda>_. ?U) ?U ?U"
      by (rule keep_observes [OF verify_staged_observes])
    show "rtriple ?U (verify_live_targets_absent p) (\<lambda>_. ?U) ?U ?U"
      by (rule hoare_conseq [OF verify_absent_keeps]) auto
    have last: "rtriple ?U (seqA (verify_live_targets_absent p) (write_pending (Pending (p\<lparr>pg_phase := Purge_committed\<rparr>))))
        (\<lambda>_. decided env p L) ?U ?U"
    proof (rule hoare_seq [OF verify_absent_keeps])
      show "rtriple (\<lambda>s. ?U s \<and> absent p s) (write_pending (Pending (p\<lparr>pg_phase := Purge_committed\<rparr>)))
          (\<lambda>_. decided env p L) ?U ?U"
        by (rule hoare_conseq [OF write_pending_last [OF absent_watches, where Q = "\<lambda>_. decided env p L"]])
           (auto intro: mark)
    qed
    show "rtriple ?U (bindA (reads (\<lambda>s. fst (re_inspect env (rs_files s)))) (\<lambda>ok.
      seqA (require ok (Purge_transaction ''purged staging state failed live Instance validation''))
      (seqA (sync_document_derived env)
      (seqA (verify_live_targets_absent p)
        (write_pending (Pending (p\<lparr>pg_phase := Purge_committed\<rparr>))))))) (\<lambda>_. decided env p L) ?U ?U"
      by (intro hoare_reads triple_guard [OF hoare_seq [OF sync_keeps [OF conditions_watch(1)] last]]) auto
  qed
qed

lemma abort_purge_keeps:
  assumes plan: "purge_plan p L" and e: "e \<noteq> Ret_stop"
  shows "rtriple (undecided env p L) (abort_purge env now error_text e) Q (kept env p L) (kept env p L)"
proof (rule hoare_pre)
  fix s
  assume u: "undecided env p L s"
  let ?q = "p\<lparr>pg_phase := Purge_prepared\<rparr>"
  let ?m = "seqA (restore_prepared env now ?q (error_text e)) (raise e)"
  have pend: "rs_pending s = Pending ?q" using u by (simp add: undecided_def)
  show "rtriple (\<lambda>t. t = s) (abort_purge env now error_text e) Q (kept env p L) (kept env p L)"
  proof (cases "pending_ok env ?q")
    case False
    then show ?thesis using u by (simp add: hoare_def abort_purge_def the_pending_eval(2) [OF pend])
  next
    case True
    have run: "abort_purge env now error_text e s = ?m s"
      using True by (simp add: abort_purge_def the_pending_eval(2) [OF pend])
    have "rtriple (undecided env ?q L) ?m Q (kept env p L) (kept env p L)"
    proof (rule hoare_seq)
      show "rtriple (undecided env ?q L) (restore_prepared env now ?q (error_text e)) (\<lambda>_. restored ?q L)
          (kept env p L) (kept env p L)"
        by (rule hoare_conseq [OF restore_prepared_restores]) (use plan in auto)
      show "rtriple (restored ?q L) (raise e) Q (kept env p L) (kept env p L)"
        by (rule hoare_raise) (use e in simp_all)
    qed
    then have "rtriple (undecided env p L) ?m Q (kept env p L) (kept env p L)" by simp
    from hoare_at [of "abort_purge env now error_text e" s, OF run this u] show ?thesis .
  qed
qed

text \<open>The states in which the operation of the purge is not yet in the ledger.\<close>

definition unstarted :: "pending_purge \<Rightarrow> snapshot \<Rightarrow> rstore \<Rightarrow> bool" where
  "unstarted p L s \<longleftrightarrow> restored p L s \<and> live_at s (operation_path (pg_operation p)) = None"

lemma start_operation_starts:
  assumes "pg_operation p = ''op_'' @ op_hex"
  shows "rtriple (unstarted p L) (start_operation env op_hex now kind title summary related)
    (\<lambda>r s. op_id r = pg_operation p \<and> ready p L s) (kept env p L) (kept env p L)"
proof -
  let ?r = "new_operation env op_hex now kind title summary related"
  have id: "op_id ?r = pg_operation p" using assms by (simp add: new_operation_def)
  have keep: "unstarted p L s \<Longrightarrow> kept env p L s" for s by (simp add: unstarted_def)
  have wr: "rtriple (unstarted p L) (write_file (operation_path (op_id ?r)) (Oper ?r)) (\<lambda>_. ready p L) (kept env p L) (kept env p L)"
    unfolding write_file_def
  proof (rule retention_disk.hoare_put)
    show "retention_disk.fateless (unstarted p L)"
      by (simp add: retention_disk.fateless_def unstarted_def restored_def)
  next
    fix s
    assume "unstarted p L s"
    then show "ready p L (s\<lparr>rs_files := AList.update (operation_path (op_id ?r)) (Oper ?r) (rs_files s)\<rparr>)"
      using id by (auto simp: ready_def restored_def unstarted_def own_operation_def live_at_def in_scope_def)
  qed (auto intro: keep)
  have fin: "rtriple (ready p L) (ret ?r) (\<lambda>r s. op_id r = pg_operation p \<and> ready p L s) (kept env p L) (kept env p L)"
    by (rule hoare_ret) (simp add: id)
  show ?thesis
    unfolding start_operation_def Let_def
    by (intro hoare_seq [where R = "\<lambda>_. unstarted p L"] hoare_require hoare_seq [OF wr fin]) (auto intro: keep)
qed

lemma execute_purge_keeps:
  assumes p: "p = new_pending env d (''op_'' @ op_hex) k hex i ts" and plan: "purge_plan p L"
  shows "rtriple (unstarted p L) (execute_purge env op_hex hex now error_text d k i ts)
    (\<lambda>_. purged p L) (in_flight env p L) (in_flight env p L)"
  unfolding execute_purge_def
proof (rule hoare_bind)
  have op: "pg_operation p = ''op_'' @ op_hex" by (simp add: p new_pending_def)
  show "rtriple (unstarted p L) (start_operation env op_hex now ''document.permanent_purge''
              ''Permanently purge one trashed Document from the live Instance''
              (Some ''Execute a preview-bound and explicitly acknowledged live-Instance purge.'')
              [(''document_identity_sha256'', re_sha env d)])
     (\<lambda>r s. op_id r = pg_operation p \<and> ready p L s) (in_flight env p L) (in_flight env p L)"
    by (rule hoare_conseq [OF start_operation_starts [OF op]]) auto
  fix r
  let ?F = "in_flight env p L"
  let ?m = "\<lambda>op. seqA (catch Ret_stop (write_pending (Pending p)) (\<lambda>e.
        bindA (close_operation env now op ''failed''
                 (Some ''Purge preparation failed before any target was staged.'') []
                 (Some ''purge_preparation_failed'') (Some (error_text e))) (\<lambda>_. raise e)))
      (seqA (catch Ret_stop (commit_purge env p) (abort_purge env now error_text))
        (finalize_committed env now (p\<lparr>pg_phase := Purge_committed\<rparr>)))"
  have prepare: "rtriple (ready p L) (catch Ret_stop (write_pending (Pending p)) (\<lambda>e.
        bindA (close_operation env now (pg_operation p) ''failed''
                 (Some ''Purge preparation failed before any target was staged.'') []
                 (Some ''purge_preparation_failed'') (Some (error_text e))) (\<lambda>_. raise e)))
     (\<lambda>_. undecided env p L) ?F ?F"
  proof (rule hoare_catch)
    show "rtriple (ready p L) (write_pending (Pending p)) (\<lambda>_. undecided env p L) (ready p L) ?F"
    proof (rule hoare_conseq [OF write_prepared])
      show "pg_phase p = Purge_prepared" by (simp add: p new_pending_def)
    qed (assumption | rule flight_cases)+
    fix e :: retention_error
    assume "e \<noteq> Ret_stop"
    then show "rtriple (ready p L) (bindA (close_operation env now (pg_operation p) ''failed''
                 (Some ''Purge preparation failed before any target was staged.'') []
                 (Some ''purge_preparation_failed'') (Some (error_text e))) (\<lambda>_. raise e))
      (\<lambda>_. undecided env p L) ?F ?F"
      by (intro hoare_bind [OF hoare_conseq [OF close_operation_keeps [OF ready_watches]]] hoare_raise) auto
  qed
  have commit: "rtriple (undecided env p L) (catch Ret_stop (commit_purge env p) (abort_purge env now error_text))
     (\<lambda>_. decided env p L) ?F ?F"
  proof (rule hoare_catch)
    show "rtriple (undecided env p L) (commit_purge env p) (\<lambda>_. decided env p L) (undecided env p L) ?F"
      by (rule hoare_conseq [OF commit_purge_decides [OF plan]]) simp_all
    show "rtriple (undecided env p L) (abort_purge env now error_text e) (\<lambda>_. decided env p L) ?F ?F"
      if "e \<noteq> Ret_stop" for e
      by (rule hoare_conseq [OF abort_purge_keeps [OF plan that, where Q = "\<lambda>_. decided env p L"]]) simp_all
  qed
  have final: "rtriple (decided env p L) (finalize_committed env now (p\<lparr>pg_phase := Purge_committed\<rparr>))
     (\<lambda>_. purged p L) ?F ?F"
  proof -
    have "rtriple (decided env p L) (finalize_committed env now (p\<lparr>pg_phase := Purge_committed\<rparr>))
      (\<lambda>_. purged p L) (decided env p L) (decided env p L)"
      using finalize_completes [of env "p\<lparr>pg_phase := Purge_committed\<rparr>" L now] by simp
    then show ?thesis by (rule hoare_conseq) simp_all
  qed
  have run: "rtriple (ready p L) (?m (pg_operation p)) (\<lambda>_. purged p L) ?F ?F"
    by (rule hoare_seq [OF prepare hoare_seq [OF commit final]])
  show "rtriple (\<lambda>s. op_id r = pg_operation p \<and> ready p L s)
     (let p = new_pending env d (op_id r) k hex i ts in
      seqA (catch Ret_stop (write_pending (Pending p)) (\<lambda>e.
        bindA (close_operation env now (op_id r) ''failed''
                 (Some ''Purge preparation failed before any target was staged.'') []
                 (Some ''purge_preparation_failed'') (Some (error_text e))) (\<lambda>_. raise e)))
      (seqA (catch Ret_stop (commit_purge env p) (abort_purge env now error_text))
        (finalize_committed env now (p\<lparr>pg_phase := Purge_committed\<rparr>)))) (\<lambda>_. purged p L) ?F ?F"
  proof (cases "op_id r = pg_operation p")
    case True
    have "new_pending env d (pg_operation p) k hex i ts = p" using op p by simp
    with True run show ?thesis by (simp add: Let_def)
  next
    case False
    then show ?thesis by (simp add: hoare_def)
  qed
qed

section \<open>The calls of a purge\<close>

definition same_instance :: "rstore \<Rightarrow> rstore \<Rightarrow> bool" where
  "same_instance s t \<longleftrightarrow> rs_files t = rs_files s \<and> rs_stages t = rs_stages s \<and> rs_pending t = rs_pending s"

lemma unlink_preview_same: "unlink_preview k s = (r, t) \<Longrightarrow> same_instance s t"
  by (auto simp: unlink_preview_def same_instance_def rput_def split: if_splits list.splits fate.splits)

lemma the_preview_cases:
  assumes "the_preview env now d selected s = (r, t)"
  obtains (refused) e where "r = Inl e" and "same_instance s t"
  | (current) pv where "r = Inr pv" and "t = s" and "map_of (rs_previews s) (re_sha env selected) = Some pv"
    and "preview_bound (re_sha env selected) d pv" and "pv_expires pv - pv_created pv = PURGE_PREVIEW_TTL"
    and "now < pv_expires pv"
proof (cases "map_of (rs_previews s) (re_sha env selected)")
  case None
  then show ?thesis using assms by (intro refused) (auto simp: the_preview_def same_instance_def bindA_def Let_def)
next
  case (Some pv)
  obtain r' u where un: "unlink_preview (re_sha env selected) s = (r', u)" by (cases "unlink_preview (re_sha env selected) s")
  then have "same_instance s u" by (rule unlink_preview_same)
  with Some assms un show ?thesis
    by (auto simp: the_preview_def require_eq seqA_def bindA_def same_instance_def Let_def
        intro: refused current split: if_splits sum.splits)
qed

definition confirmed :: "retention_env \<Rightarrow> int \<Rightarrow> nat \<Rightarrow> string \<Rightarrow> string \<Rightarrow> rstore \<Rightarrow> impact \<Rightarrow> purge_target list \<Rightarrow> bool" where
  "confirmed env now backups d selected s i ts \<longleftrightarrow>
     (\<exists>pv v fingerprint. map_of (rs_previews s) (re_sha env selected) = Some pv
      \<and> preview_bound (re_sha env selected) d pv \<and> now < pv_expires pv
      \<and> pv_expires pv - pv_created pv = PURGE_PREVIEW_TTL
      \<and> get_disposition env d (rs_files s) = Inr (Some v) \<and> jget v ''status'' = JStr ''trashed''
      \<and> re_inspect env (rs_files s) = (True, fingerprint)
      \<and> purge_impact env backups d s = (Inr (i, ts), s) \<and> preview_current env d pv v fingerprint i)"

lemma purge_selected_cases:
  assumes "purge_selected env op_hex hex now backups error_text d (re_sha env selected) selected s = (r, t)"
  obtains (untouched) "same_instance s t" and "\<And>x. r \<noteq> Inr (Purged x)"
  | (executed) i ts r' where "confirmed env now backups d selected s i ts"
    and "execute_purge env op_hex hex (re_iso env now) error_text d (re_sha env selected) i ts s = (r', t)"
    and "r = map_sum id Purged r'"
proof -
  let ?k = "re_sha env selected"
  have same: "same_instance s s" by (simp add: same_instance_def)
  show thesis
  proof (cases "read_canonical ''documents'' d (rs_files s)")
    case (Inl e)
    then show thesis using assms by (intro untouched) (auto simp: purge_selected_def bindA_def same_instance_def)
  next
    case (Inr document)
    show thesis
    proof (cases document)
      case None
      then show thesis using assms Inr
        by (intro untouched) (auto simp: purge_selected_def bindA_def same_instance_def split: option.splits)
    next
      case (Some doc)
      obtain rp sp where pv: "the_preview env now d selected s = (rp, sp)" by (cases "the_preview env now d selected s")
      from pv show thesis
      proof (cases rule: the_preview_cases)
        case (refused e)
        then show thesis using assms Inr Some pv by (intro untouched) (auto simp: purge_selected_def bindA_def)
      next
        case (current v)
        obtain ok fp where ins: "re_inspect env (rs_files s) = (ok, fp)" by (cases "re_inspect env (rs_files s)")
        obtain ri si where im: "purge_impact env backups d s = (ri, si)" by (cases "purge_impact env backups d s")
        have si: "si = s" using purge_impact_observes [of env backups d] im unfolding keeps_def by (metis snd_conv)
        show thesis
        proof (cases "\<exists>disp i ts. get_disposition env d (rs_files s) = Inr (Some disp) \<and> jget disp ''status'' = JStr ''trashed''
            \<and> ok \<and> ri = Inr (i, ts) \<and> preview_current env d v disp fp i")
          case True
          then obtain disp i ts where c: "get_disposition env d (rs_files s) = Inr (Some disp)"
            "jget disp ''status'' = JStr ''trashed''" "ok" "ri = Inr (i, ts)" "preview_current env d v disp fp i" by blast
          obtain re te where ex: "execute_purge env op_hex hex (re_iso env now) error_text d ?k i ts s = (re, te)"
            by (cases "execute_purge env op_hex hex (re_iso env now) error_text d ?k i ts s")
          have conf: "confirmed env now backups d selected s i ts"
            using c current im ins si by (auto simp: confirmed_def)
          have "(r, t) = (map_sum id Purged re, te)"
            using assms Inr Some pv current c ins im si ex
            by (auto simp: purge_selected_def bindA_def seqA_def require_eq split: sum.splits)
          with ex have out: "execute_purge env op_hex hex (re_iso env now) error_text d ?k i ts s = (re, t)"
            "r = map_sum id Purged re" by simp_all
          from executed [OF conf out] show thesis .
        next
          case False
          then have "t = s \<and> (\<forall>x. r \<noteq> Inr (Purged x))"
            using assms Inr Some pv current ins im si
            by (auto simp: purge_selected_def bindA_def seqA_def require_eq split: sum.splits option.splits if_splits)
          then show thesis using untouched same by blast
        qed
      qed
    qed
  qed
qed

lemma purge_cases:
  assumes "purge env op_hex hex now backups error_text d token ack s = (r, t)" and "rs_pending s = No_pending"
  obtains (untouched) "same_instance s t" and "\<And>x. r \<noteq> Inr (Purged x)"
  | (executed) i ts r' where "ack" and "confirmed env now backups d (re_strip env token) s i ts"
    and "execute_purge env op_hex hex (re_iso env now) error_text d (re_sha env (re_strip env token)) i ts s = (r', t)"
    and "r = map_sum id Purged r'"
proof (cases "ack \<and> document_id_ok d \<and> re_strip env token \<noteq> [] \<and> length (re_strip env token) \<le> 500")
  case True
  have "recover_pending env (re_iso env now) s = (Inr None, s)"
    using assms(2) by (simp add: recover_pending_def the_pending_eval)
  then have "purge_selected env op_hex hex now backups error_text d (re_sha env (re_strip env token)) (re_strip env token) s = (r, t)"
    using True assms(1) by (simp add: purge_def Let_def bindA_def seqA_def require_eq)
  then show thesis by (cases rule: purge_selected_cases) (use True untouched executed in blast)+
next
  case False
  then show thesis using assms(1)
    by (intro untouched) (auto simp: purge_def Let_def bindA_def seqA_def require_eq same_instance_def split: if_splits)
qed

section \<open>Recoveries\<close>

abbreviation recoveries :: "retention_env \<Rightarrow> rstore \<Rightarrow> rstore \<Rightarrow> bool" where
  "recoveries env \<equiv> recovered (recover_pending env) (\<lambda>fs s. s\<lparr>rs_fates := fs\<rparr>)"

lemma restored_fates [simp]: "restored p L (s\<lparr>rs_fates := fs\<rparr>) = restored p L s"
  by (simp add: restored_def)

lemma purged_fates [simp]: "purged p L (s\<lparr>rs_fates := fs\<rparr>) = purged p L s"
  by (simp add: purged_def has_receipt_def)

lemma kept_fates: "kept env p L s \<Longrightarrow> kept env p L (s\<lparr>rs_fates := fs\<rparr>)"
  using undecided_fateless [of env p L] by (auto simp: kept_def retention_disk.fateless_def)

lemma removed_fates: "removed env p L s \<Longrightarrow> removed env p L (s\<lparr>rs_fates := fs\<rparr>)"
  using decided_fateless [of env p L] by (auto simp: removed_def retention_disk.fateless_def)

interpretation purge_change: journaled_change "recover_pending env" "\<lambda>fs s. s\<lparr>rs_fates := fs\<rparr>" Ret_stop
  "\<lambda>s. purge_plan p L \<and> kept env p L s" "removed env p L" "\<lambda>s. purge_plan p L \<and> restored p L s" "purged p L"
  for env p L
proof
  show "rtriple (\<lambda>s. purge_plan p L \<and> kept env p L s) (recover_pending env now)
      (\<lambda>_ s. purge_plan p L \<and> restored p L s) (\<lambda>s. purge_plan p L \<and> kept env p L s)
      (\<lambda>s. purge_plan p L \<and> kept env p L s)" for now
    by (rule hoare_when) (rule recover_kept)
qed (use recover_removed kept_fates removed_fates in \<open>auto simp: kept_def removed_def\<close>)

section \<open>The purge\<close>

abbreviation purge_of ::
  "retention_env \<Rightarrow> string \<Rightarrow> string \<Rightarrow> string \<Rightarrow> string \<Rightarrow> impact \<Rightarrow> purge_target list \<Rightarrow> pending_purge" where
  "purge_of env d token op_hex hex \<equiv> new_pending env d (''op_'' @ op_hex) (re_sha env (re_strip env token)) hex"

lemma purge_plans:
  assumes "purge_impact env backups d s = (Inr (i, ts), s)"
    and "map_of (rs_files s) (operation_path (''op_'' @ op_hex)) = None"
    and "\<forall>x \<in> set ts. \<not> derived_path (pt_path x) \<and> pt_path x \<noteq> receipt_path (re_sha env (re_strip env token))"
  shows "purge_plan (purge_of env d token op_hex hex i ts) (live_at s)"
  using purge_impact_list [OF assms(1)] assms(2,3)
  by (auto simp: purge_plan_def target_paths_def new_pending_def in_scope_def live_at_def listed_def)

lemma purge_flight:
  assumes run: "purge env op_hex hex now backups error_text d token ack s = (r, t)"
    and quiet: "rs_pending s = No_pending"
    and stage: "map_of (rs_stages s) (''state/locks/.purge-stage-'' @ hex) = None"
    and op: "map_of (rs_files s) (operation_path (''op_'' @ op_hex)) = None"
    and clear: "\<forall>i ts. purge_impact env backups d s = (Inr (i, ts), s) \<longrightarrow> (\<forall>x \<in> set ts.
      \<not> derived_path (pt_path x) \<and> pt_path x \<noteq> receipt_path (re_sha env (re_strip env token)))"
  obtains (untouched) p where "p = purge_of env d token op_hex hex undefined []" and "purge_plan p (live_at s)"
      and "restored p (live_at s) t" and "\<And>x. r \<noteq> Inr (Purged x)"
    | (executed) i ts p where "p = purge_of env d token op_hex hex i ts" and "purge_plan p (live_at s)" and "ack"
      and "confirmed env now backups d (re_strip env token) s i ts" and "in_flight env p (live_at s) t"
      and "(\<exists>x. r = Inr (Purged x)) \<Longrightarrow> purged p (live_at s) t"
  using run quiet
proof (cases rule: purge_cases)
  case untouched
  let ?p = "purge_of env d token op_hex hex undefined []"
  have "restored ?p (live_at s) t"
    using untouched(1) quiet stage by (auto simp: same_instance_def restored_def new_pending_def staged_files_def live_at_def)
  then show thesis using that(1) [of ?p] untouched(2) by (simp add: purge_plan_def target_paths_def new_pending_def)
next
  case (executed i ts r')
  let ?p = "purge_of env d token op_hex hex i ts"
  have im: "purge_impact env backups d s = (Inr (i, ts), s)" using executed(2) by (auto simp: confirmed_def)
  have plan: "purge_plan ?p (live_at s)" by (rule purge_plans [OF im op]) (use clear im in blast)
  have start: "unstarted ?p (live_at s) s"
    using quiet stage op by (auto simp: unstarted_def restored_def new_pending_def staged_files_def live_at_def)
  note triple = execute_purge_keeps [OF refl plan, of "re_iso env now" error_text]
  have "in_flight env ?p (live_at s) t"
    by (rule hoare_any [OF triple start executed(3)]) auto
  moreover have "purged ?p (live_at s) t" if "\<exists>x. r = Inr (Purged x)"
  proof -
    from that executed(4) obtain x where "r' = Inr x" by (cases r') auto
    with hoareD(1) [OF triple start] executed(3) show ?thesis by simp
  qed
  ultimately show thesis using that(2) [OF refl plan executed(1,2)] by blast
qed

end
