(* ===== verification/Retention_Dispositions.thy ===== *)
theory Retention_Dispositions
  imports Retention_Outcome
begin

text \<open>
  Changes of a disposition: the part of the files they touch, the rollback of a failed one, and
  what the records say after them.
\<close>

section \<open>The canonical records\<close>

definition knowledge :: "files \<Rightarrow> files" where
  "knowledge fs = filter (\<lambda>x. under ''knowledge'' (fst x)) fs"

definition disposition_path :: "retention_env \<Rightarrow> string \<Rightarrow> string" where
  "disposition_path env d = canonical_path ''dispositions'' (disposition_id env d)"

lemma filter_update:
  "filter (\<lambda>x. P (fst x)) (AList.update k v xs) = (if P k then AList.update k v (filter (\<lambda>x. P (fst x)) xs) else filter (\<lambda>x. P (fst x)) xs)"
  by (induction xs) auto

lemma filter_delete:
  "filter (\<lambda>x. P (fst x)) (AList.delete k xs) = AList.delete k (filter (\<lambda>x. P (fst x)) xs)"
  by (induction xs) (auto simp: AList.delete_eq)

lemma knowledge_update:
  "knowledge (AList.update k v fs) = (if under ''knowledge'' k then AList.update k v (knowledge fs) else knowledge fs)"
  by (simp add: knowledge_def filter_update [where P = "under ''knowledge''"])

lemma knowledge_delete: "knowledge (AList.delete k fs) = AList.delete k (knowledge fs)"
  by (simp add: knowledge_def filter_delete [where P = "under ''knowledge''"])

lemma other_areas: "under ''knowledge'' x \<Longrightarrow> \<not> under ''indexes'' x" "under ''knowledge'' x \<Longrightarrow> \<not> under ''library'' x"
  by (cases x; auto simp: under_def)+

lemma knowledge_rebuilt:
  assumes "\<And>x. under ''knowledge'' x \<Longrightarrow> \<not> under area x"
  shows "knowledge (rebuilt env area fs) = knowledge fs"
proof -
  have "filter (\<lambda>x. under area (fst x) \<and> under ''knowledge'' (fst x)) gs = []" for gs :: files
    using assms by (auto simp: filter_empty_conv)
  moreover have "filter (\<lambda>x. \<not> under area (fst x) \<and> under ''knowledge'' (fst x)) fs = filter (\<lambda>x. under ''knowledge'' (fst x)) fs"
    using assms by (auto intro: filter_cong)
  ultimately show ?thesis by (simp add: knowledge_def rebuilt_def)
qed

lemma knowledge_look: "under ''knowledge'' p \<Longrightarrow> map_of (knowledge fs) p = map_of fs p"
  using map_of_filter_key [of "under ''knowledge''" fs p] by (simp add: knowledge_def)

lemma canonical_under: "under ''knowledge'' (canonical_path kind i)"
  by (simp add: under_def canonical_path_def)

lemma operation_not_under: "\<not> under ''knowledge'' (operation_path i)"
  by (simp add: under_def operation_path_def)

lemma in_directory_under: "in_directory (''knowledge/'' @ kind) p \<Longrightarrow> under ''knowledge'' p"
proof -
  assume a: "in_directory (''knowledge/'' @ kind) p"
  have "take 10 (take (length (''knowledge/'' @ kind) + 1) p) = take 10 ((''knowledge/'' @ kind) @ ''/'')"
    using a by (simp add: in_directory_def Let_def)
  then show ?thesis by (simp add: under_def min_def numeral_eq_Suc)
qed

lemma list_canonical_knowledge: "list_canonical kind fs = list_canonical kind (knowledge fs)"
proof -
  have "filter (\<lambda>x. in_directory (''knowledge/'' @ kind) (fst x)) fs
      = filter (\<lambda>x. in_directory (''knowledge/'' @ kind) (fst x)) (knowledge fs)"
    using in_directory_under by (auto simp: knowledge_def intro!: filter_cong)
  then show ?thesis by (simp add: list_canonical_def json_objects_def)
qed

lemma read_canonical_knowledge: "read_canonical kind i fs = read_canonical kind i (knowledge fs)"
  by (simp add: read_canonical_def knowledge_look canonical_under)

lemma records_knowledge: "disposition_records env fs = disposition_records env (knowledge fs)"
  unfolding disposition_records_def list_canonical_knowledge [of "''documents''" fs]
    list_canonical_knowledge [of "''dispositions''" fs] ..

lemma get_disposition_knowledge: "get_disposition env d fs = get_disposition env d (knowledge fs)"
  using read_canonical_knowledge [of "''documents''" d fs] records_knowledge [of env fs]
  by (simp only: get_disposition_def)

section \<open>What a change touches\<close>

definition holds_records :: "files \<Rightarrow> rstore \<Rightarrow> bool" where
  "holds_records V s \<longleftrightarrow> knowledge (rs_files s) = V"

lemma holds_fateless: "retention_disk.fateless (\<lambda>s. P (knowledge (rs_files s)))"
  by (simp add: retention_disk.fateless_def)

lemma leave_records:
  assumes "\<And>s. knowledge (rs_files (f s)) = knowledge (rs_files s)"
  shows "rtriple (\<lambda>s. P (knowledge (rs_files s))) (rput f) (\<lambda>_ s. P (knowledge (rs_files s)))
    (\<lambda>s. P (knowledge (rs_files s))) (\<lambda>s. P (knowledge (rs_files s)))"
  by (rule retention_disk.hoare_put [OF holds_fateless]) (simp_all add: assms)

definition leaves :: "'a ract \<Rightarrow> bool" where
  "leaves m \<longleftrightarrow> (\<forall>s. knowledge (rs_files (snd (m s))) = knowledge (rs_files s) \<and> (rs_fates s = [] \<longrightarrow> rs_fates (snd (m s)) = []))"

lemma leaves_bind: "leaves m \<Longrightarrow> (\<And>x. leaves (k x)) \<Longrightarrow> leaves (bindA m k)"
  unfolding leaves_def bindA_def by (auto split: prod.splits sum.splits) (metis snd_conv)+

lemma leaves_seq: "leaves m \<Longrightarrow> leaves k \<Longrightarrow> leaves (seqA m k)"
  unfolding seqA_def by (rule leaves_bind)

lemma leaves_observes: "reads_only m \<Longrightarrow> leaves m"
  by (simp add: leaves_def keeps_def)

lemma leaves_put:
  assumes "\<And>s. knowledge (rs_files (f s)) = knowledge (rs_files s)" and "\<And>s. rs_fates (f s) = rs_fates s"
  shows "leaves (rput f)"
  using assms by (auto simp: leaves_def rput_def split: list.splits fate.splits)

lemma leaves_option: "leaves a \<Longrightarrow> (\<And>x. leaves (f x)) \<Longrightarrow> leaves (case x of None \<Rightarrow> a | Some y \<Rightarrow> f y)"
  by (cases x) auto

lemma leaves_operation_file: "leaves (write_file (operation_path i) c)"
  unfolding write_file_def by (rule leaves_put) (simp_all add: knowledge_update operation_not_under)

lemma start_operation_leaves: "leaves (start_operation env hex now kind title summary related)"
  unfolding start_operation_def Let_def
  by (intro leaves_seq leaves_operation_file leaves_observes keeps_basic)

lemma close_operation_leaves: "leaves (close_operation env now i status summary metrics code error)"
  unfolding close_operation_def Let_def
  by (intro leaves_seq leaves_bind leaves_option leaves_operation_file leaves_observes keeps_basic)

lemma sync_leaves: "leaves (sync_document_derived env)"
  unfolding sync_document_derived_def rebuild_search_index_def rebuild_library_def
  by (intro leaves_seq leaves_put) (simp_all add: knowledge_rebuilt other_areas)

lemma leavesD:
  assumes "leaves m" and "m s = (r, t)"
  shows "knowledge (rs_files t) = knowledge (rs_files s)" and "rs_fates s = [] \<Longrightarrow> rs_fates t = []"
  using assms unfolding leaves_def by (metis snd_conv)+

lemma leaves_catch:
  assumes "leaves m" and "\<And>e. leaves (h e)"
  shows "leaves (catch Ret_stop m h)"
  unfolding leaves_def
proof (intro allI)
  fix s
  obtain r u where m: "m s = (r, u)" by (cases "m s")
  note keep = leavesD [OF assms(1) m]
  obtain e' v where h: "h (projl r) u = (e', v)" by (cases "h (projl r) u")
  note keep' = leavesD [OF assms(2) h]
  show "knowledge (rs_files (snd (catch Ret_stop m h s))) = knowledge (rs_files s)
    \<and> (rs_fates s = [] \<longrightarrow> rs_fates (snd (catch Ret_stop m h s)) = [])"
    using m h keep keep' by (cases r) (auto simp: catch_def)
qed

lemma leaves_triple:
  assumes "leaves m"
  shows "rtriple (\<lambda>s. P (knowledge (rs_files s))) m (\<lambda>_ s. P (knowledge (rs_files s)))
    (\<lambda>s. P (knowledge (rs_files s))) (\<lambda>s. P (knowledge (rs_files s)))"
  using leavesD(1) [OF assms] by (auto simp: hoare_def split: prod.splits sum.splits)

section \<open>Changes keep the other records\<close>

text \<open>The records as they were, or with the new disposition.\<close>

definition touched :: "string \<Rightarrow> content \<Rightarrow> files \<Rightarrow> files \<Rightarrow> bool" where
  "touched path c V K \<longleftrightarrow> K = V \<or> K = AList.update path c V"

lemma restore_view:
  assumes "touched path c V K" and "map_of V path = before"
  shows "(case before of None \<Rightarrow> AList.delete path K | Some b \<Rightarrow> AList.update path b K) = V"
proof (cases before)
  case None
  then have "path \<notin> fst ` set V" using assms(2) by (simp add: map_of_eq_None_iff)
  then show ?thesis using assms(1) None by (auto simp: touched_def delete_update_same)
next
  case (Some b)
  then show ?thesis using assms by (auto simp: touched_def update_triv)
qed

lemma restore_bytes_keeps:
  assumes "under ''knowledge'' path" and "map_of V path = before"
  shows "rtriple (\<lambda>s. touched path c V (knowledge (rs_files s))) (restore_bytes path before) (\<lambda>_. holds_records V)
    (\<lambda>s. touched path c V (knowledge (rs_files s))) (\<lambda>s. touched path c V (knowledge (rs_files s)))"
proof (cases before)
  case (Some b)
  have "rtriple (\<lambda>s. touched path c V (knowledge (rs_files s)))
      (rput (\<lambda>s. s\<lparr>rs_files := AList.update path b (rs_files s)\<rparr>)) (\<lambda>_. holds_records V)
      (\<lambda>s. touched path c V (knowledge (rs_files s))) (\<lambda>s. touched path c V (knowledge (rs_files s)))"
    by (intro retention_disk.hoare_put holds_fateless)
       (use restore_view [OF _ assms(2)] assms(1) Some in \<open>auto simp: holds_records_def knowledge_update\<close>)
  then show ?thesis by (simp add: Some restore_bytes_def write_file_def)
next
  case None
  have put: "rtriple (\<lambda>s. touched path c V (knowledge (rs_files s)))
      (rput (\<lambda>s. s\<lparr>rs_files := AList.delete path (rs_files s)\<rparr>)) (\<lambda>_. holds_records V)
      (\<lambda>s. touched path c V (knowledge (rs_files s))) (\<lambda>s. touched path c V (knowledge (rs_files s)))"
    by (intro retention_disk.hoare_put holds_fateless)
       (use restore_view [OF _ assms(2)] None in \<open>auto simp: holds_records_def knowledge_delete\<close>)
  have none: "holds_records V s" if "touched path c V (knowledge (rs_files s))" "map_of (rs_files s) path = None" for s
    using that None assms knowledge_look [OF assms(1), of "rs_files s"] by (auto simp: touched_def holds_records_def)
  show ?thesis
    unfolding None restore_bytes_def option.case unlink_file_def
    by (rule hoare_reads) (use put none in \<open>auto simp: hoare_def\<close>)
qed

text \<open>When the writes of the rollback go through, the records are as they were.\<close>

lemma rollback_restores:
  assumes "under ''knowledge'' path" and "map_of V path = before" and "e \<noteq> Ret_stop"
    and "touched path c V (knowledge (rs_files s))"
    and "roll_back_disposition env now op path before error_text e s = (r :: retention_error + 'a, t)"
  shows "touched path c V (knowledge (rs_files t)) \<and> (\<forall>x. r \<noteq> Inr x)
    \<and> (rs_fates s = [] \<longrightarrow> knowledge (rs_files t) = V)"
proof -
  let ?rest = "seqA (catch Ret_stop (sync_document_derived env) (\<lambda>e2.
        bindA (close_operation env now op ''failed'' (Some ''Disposition rollback could not restore synchronized views.'')
                 [] (Some ''retention_rollback_failed'') (Some (error_text e2))) (\<lambda>_.
          raise (Ret_integrity ''retention action failed and derived rollback could not be verified''))))
     (bindA (close_operation env now op ''failed'' (Some ''Disposition action was rolled back.'')
               [] (Some ''retention_action_failed'') (Some (error_text e))) (\<lambda>_. raise e)) :: 'a ract"
  obtain r1 u where res: "restore_bytes path before s = (r1, u)" by (cases "restore_bytes path before s")
  have run: "roll_back_disposition env now op path before error_text e s
      = (case r1 of Inl e \<Rightarrow> (Inl e, u) | Inr _ \<Rightarrow> ?rest u)"
    by (simp add: roll_back_disposition_def seqA_def bindA_def res split: sum.split)
  note keep = restore_bytes_keeps [OF assms(1,2), of c]
  have u: "touched path c V (knowledge (rs_files u))"
    by (rule hoare_any [OF keep assms(4) res]) (simp_all add: holds_records_def touched_def)
  show ?thesis
  proof (cases r1)
    case (Inl e1)
    have "rs_fates s \<noteq> []"
      using res Inl by (auto simp: restore_bytes_def write_file_def unlink_file_def rput_def split: option.splits if_splits)
    with run assms(5) Inl u show ?thesis by simp
  next
    case (Inr x)
    have V: "knowledge (rs_files u) = V" using hoareD(1) [OF keep assms(4)] res Inr by (simp add: holds_records_def)
    have caught: "leaves (catch Ret_stop (sync_document_derived env) (\<lambda>e2.
        bindA (close_operation env now op ''failed'' (Some ''Disposition rollback could not restore synchronized views.'')
                 [] (Some ''retention_rollback_failed'') (Some (error_text e2))) (\<lambda>_.
          raise (Ret_integrity ''retention action failed and derived rollback could not be verified''))))"
      by (intro leaves_catch sync_leaves leaves_bind close_operation_leaves leaves_observes keeps_basic)
    have last: "leaves (bindA (close_operation env now op ''failed'' (Some ''Disposition action was rolled back.'')
               [] (Some ''retention_action_failed'') (Some (error_text e))) (\<lambda>_. raise e) :: 'a ract)"
      by (intro leaves_bind close_operation_leaves leaves_observes keeps_basic)
    have out: "?rest u = (r, t)" using run assms(5) Inr by simp
    have "knowledge (rs_files t) = V" using leavesD(1) [OF leaves_seq [OF caught last] out] V by simp
    moreover have "r \<noteq> Inr y" for y
      using out by (auto simp: seqA_def bindA_def split: prod.splits sum.splits)
    ultimately show ?thesis by (simp add: touched_def)
  qed
qed

section \<open>The whole change\<close>

lemma start_operation_id: "start_operation env hex now kind title summary related s = (Inr op, t) \<Longrightarrow> op_id op = ''op_'' @ hex"
  by (auto simp: start_operation_def Let_def seqA_def bindA_def require_eq new_operation_def split: if_splits prod.splits sum.splits)

lemma start_operation_valid:
  "start_operation env hex now kind title summary related s = (Inr op, t) \<Longrightarrow>
    operation_id_ok (''op_'' @ hex) \<and> re_strip env now \<noteq> []"
  by (auto simp: start_operation_def Let_def seqA_def bindA_def require_eq new_operation_def oper_ok_def
      split: if_splits prod.splits sum.splits)

lemma disposition_path_under: "under ''knowledge'' (disposition_path env d)"
  by (simp add: disposition_path_def canonical_under)

definition disposition_body :: "retention_env \<Rightarrow> string \<Rightarrow> content \<Rightarrow> unit ract" where
  "disposition_body env path c = seqA (write_file path c) (sync_document_derived env)"

lemma body_touches:
  assumes "disposition_body env path c s = (r, t)" and "under ''knowledge'' path"
  shows "touched path c (knowledge (rs_files s)) (knowledge (rs_files t))"
    and "r = Inr () \<Longrightarrow> knowledge (rs_files t) = AList.update path c (knowledge (rs_files s))"
proof -
  obtain r1 u where w: "write_file path c s = (r1, u)" by (cases "write_file path c s")
  have k: "knowledge (rs_files u) = (if r1 = Inr () then AList.update path c (knowledge (rs_files s)) else knowledge (rs_files s))"
    using w assms(2) by (auto simp: write_file_def rput_def knowledge_update split: list.splits fate.splits)
  have "knowledge (rs_files t) = knowledge (rs_files u) \<and> (r = Inr () \<longrightarrow> r1 = Inr ())"
  proof (cases r1)
    case (Inl e)
    then show ?thesis using assms(1) w by (auto simp: disposition_body_def seqA_def bindA_def)
  next
    case (Inr x)
    then have "sync_document_derived env u = (r, t)" using assms(1) w by (simp add: disposition_body_def seqA_def bindA_def)
    with leavesD(1) [OF sync_leaves this] Inr show ?thesis by simp
  qed
  then show "touched path c (knowledge (rs_files s)) (knowledge (rs_files t))"
    and "r = Inr () \<Longrightarrow> knowledge (rs_files t) = AList.update path c (knowledge (rs_files s))"
    using k by (auto simp: touched_def split: if_splits)
qed

abbreviation next_disposition :: "retention_env \<Rightarrow> string \<Rightarrow> json \<Rightarrow> disp_target \<Rightarrow> string \<Rightarrow> string \<Rightarrow> content" where
  "next_disposition env d current target now hex \<equiv> Json (new_disposition env d current target now (''op_'' @ hex))"

lemma disposition_body_calm:
  assumes "rs_fates s = replicate k Goes @ [Fails]" and "k < 3"
  shows "\<exists>t. disposition_body env path c s = (Inl Ret_io, t) \<and> rs_fates t = []"
proof -
  consider "k = 0" | "k = 1" | "k = 2" using assms(2) by linarith
  then show ?thesis
    by cases (use assms(1) in \<open>simp_all add: disposition_body_def seqA_def bindA_def write_file_def rput_def
      sync_document_derived_def rebuild_search_index_def rebuild_library_def numeral_2_eq_2\<close>)
qed

lemma start_operation_calm:
  assumes "start_operation env hex now kind title summary related s = (Inr op, t)" and "rs_fates s = replicate k Goes @ [Fails]"
  shows "k \<noteq> 0" and "rs_fates t = replicate (k - 1) Goes @ [Fails]"
proof -
  have "k \<noteq> 0 \<and> rs_fates t = replicate (k - 1) Goes @ [Fails]"
    using assms by (cases k) (auto simp: start_operation_def Let_def seqA_def bindA_def require_eq write_file_def rput_def split: if_splits)
  then show "k \<noteq> 0" and "rs_fates t = replicate (k - 1) Goes @ [Fails]" by blast+
qed

text \<open>The three ways a change ends.\<close>

lemma apply_disposition_cases:
  fixes out :: "retention_error + transition_outcome"
  assumes run: "apply_disposition env hex now error_text d a current target s = (out, t)"
  defines "path \<equiv> disposition_path env d" and "c \<equiv> next_disposition env d current target now hex"
  obtains (not_started) e where "out = Inl e" and "knowledge (rs_files t) = knowledge (rs_files s)"
  | (failed) e s1 e1 s2 where "out = Inl e" and "touched path c (knowledge (rs_files s)) (knowledge (rs_files t))"
      and "knowledge (rs_files s1) = knowledge (rs_files s)" and "disposition_body env path c s1 = (Inl e1, s2)"
      and "e1 \<noteq> Ret_stop \<Longrightarrow> rs_fates s2 = [] \<Longrightarrow> knowledge (rs_files t) = knowledge (rs_files s)"
      and "operation_id_ok (''op_'' @ hex)" and "re_strip env now \<noteq> []"
      and "\<And>k. rs_fates s = replicate k Goes @ [Fails] \<Longrightarrow> k \<noteq> 0 \<and> rs_fates s1 = replicate (k - 1) Goes @ [Fails]"
  | (changed) s1 s2 where "disposition_body env path c s1 = (Inr (), s2)"
      and "knowledge (rs_files t) = AList.update path c (knowledge (rs_files s))"
      and "\<And>x. out = Inr x \<Longrightarrow> (\<exists>v. get_disposition env d (rs_files t) = Inr v
        \<and> to_disposition x = (case v of None \<Rightarrow> JNull | Some v \<Rightarrow> v)) \<and> to_changed x"
      and "operation_id_ok (''op_'' @ hex)" and "re_strip env now \<noteq> []"
      and "\<And>k. rs_fates s = replicate k Goes @ [Fails] \<Longrightarrow> k \<noteq> 0 \<and> rs_fates s1 = replicate (k - 1) Goes @ [Fails]"
proof -
  let ?start = "start_operation env hex now (''document.'' @ action_name a)
              (''Apply Document retention action: '' @ action_name a)
              (Some ''Update canonical disposition and synchronized derived views.'')
              [(''document_identity_sha256'', re_sha env d)]"
  let ?V = "knowledge (rs_files s)"
  have under_path: "under ''knowledge'' path" by (simp add: path_def disposition_path_under)
  obtain r1 s1 where st: "?start s = (r1, s1)" by (cases "?start s")
  have V1: "knowledge (rs_files s1) = ?V" by (rule leavesD(1) [OF start_operation_leaves st])
  show thesis
  proof (cases r1)
    case (Inl e)
    then have "out = Inl e" "t = s1" using run st by (simp_all add: apply_disposition_def bindA_def)
    with V1 not_started show thesis by simp
  next
    case (Inr op)
    have id: "op_id op = ''op_'' @ hex" using start_operation_id st Inr by simp
    have valid: "operation_id_ok (''op_'' @ hex)" "re_strip env now \<noteq> []" using start_operation_valid st Inr by blast+
    have calm: "k \<noteq> 0 \<and> rs_fates s1 = replicate (k - 1) Goes @ [Fails]" if "rs_fates s = replicate k Goes @ [Fails]" for k
      using start_operation_calm [OF _ that] st Inr by blast
    let ?before = "map_of (rs_files s1) path"
    let ?roll = "roll_back_disposition env now (''op_'' @ hex) path ?before error_text :: retention_error \<Rightarrow> unit ract"
    let ?close = "bindA (close_operation env now (''op_'' @ hex) ''completed''
       (Some ''Canonical disposition and derived views were committed.'')
       [(''canonical_records_changed'', 1), (''originals_deleted'', 0)] None None) (\<lambda>closed.
       bindA (query (\<lambda>s. get_disposition env d (rs_files s))) (\<lambda>selected.
         ret \<lparr>to_changed = True, to_disposition = (case selected of None \<Rightarrow> JNull | Some v \<Rightarrow> v),
              to_operation = Some closed\<rparr>))"
    have rest: "seqA (catch Ret_stop (disposition_body env path c) ?roll) ?close s1 = (out, t)"
      using run st Inr id
      by (simp add: apply_disposition_def bindA_def disposition_body_def path_def disposition_path_def c_def Let_def)
    have before: "map_of ?V path = ?before" using V1 knowledge_look [OF under_path, of "rs_files s1"] by simp
    obtain rb s2 where body: "disposition_body env path c s1 = (rb, s2)" by (cases "disposition_body env path c s1")
    note touch = body_touches [OF body under_path]
    show thesis
    proof (cases rb)
      case (Inr u)
      then have "?close s2 = (out, t)" using rest body by (simp add: seqA_def bindA_def catch_def)
      note closing = this
      have close: "leaves ?close"
        by (intro leaves_bind close_operation_leaves leaves_observes keeps_basic)
      have K: "knowledge (rs_files t) = AList.update path c ?V"
        using leavesD(1) [OF close closing] touch(2) Inr V1 by simp
      have "(\<exists>v. get_disposition env d (rs_files t) = Inr v \<and> to_disposition x = (case v of None \<Rightarrow> JNull | Some v \<Rightarrow> v))
          \<and> to_changed x" if "out = Inr x" for x
        using closing that by (auto simp: bindA_def split: prod.splits sum.splits)
      then show thesis using changed [of s1 s2] body Inr K valid calm by simp
    next
      case (Inl e1)
      show thesis
      proof (cases "e1 = Ret_stop")
        case True
        then have "out = Inl e1" "t = s2" using rest body Inl by (simp_all add: seqA_def bindA_def catch_def)
        then show thesis using failed [of e1 s1 e1 s2] touch(1) V1 body Inl True valid calm by simp
      next
        case False
        obtain rr s3 where roll: "?roll e1 s2 = (rr, s3)" by (cases "?roll e1 s2")
        from rollback_restores [OF under_path before False, of c, OF _ roll] touch(1) V1
        have rolled: "touched path c ?V (knowledge (rs_files s3))" "\<forall>x. rr \<noteq> Inr x"
          "rs_fates s2 = [] \<longrightarrow> knowledge (rs_files s3) = ?V" by simp_all
        then obtain e where "rr = Inl e" by (cases rr) auto
        then have "out = Inl e" "t = s3" using rest body Inl False roll by (simp_all add: seqA_def bindA_def catch_def)
        then show thesis using failed [of e s1 e1 s2] rolled V1 body Inl valid calm by simp
      qed
    qed
  qed
qed

section \<open>What the records say\<close>

lemma keyed_by_keys: "fst ` set (fold (\<lambda>x d. AList.update (f x) x d) xs ys) = fst ` set ys \<union> f ` set xs"
  by (induction xs arbitrary: ys) (auto simp: dom_update)

lemma keyed_by_length: "length (fold (\<lambda>x d. AList.update (f x) x d) xs ys) \<le> length ys + length xs"
proof (induction xs arbitrary: ys)
  case (Cons x xs)
  have "length (AList.update (f x) x ys) \<le> length ys + 1" by (induction ys) auto
  with Cons [of "AList.update (f x) x ys"] show ?case by simp
qed simp

lemma update_length: "length (AList.update k v ys) = (if k \<in> fst ` set ys then length ys else length ys + 1)"
  by (induction ys) auto

lemma update_fresh: "k \<notin> fst ` set ys \<Longrightarrow> AList.update k v ys = ys @ [(k, v)]"
  by (induction ys) auto

lemma keyed_by_distinct:
  assumes "length (fold (\<lambda>x d. AList.update (f x) x d) xs ys) = length ys + length xs"
  shows "distinct (map f xs)" and "f ` set xs \<inter> fst ` set ys = {}"
    and "fold (\<lambda>x d. AList.update (f x) x d) xs ys = ys @ map (\<lambda>x. (f x, x)) xs"
proof -
  have "distinct (map f xs) \<and> f ` set xs \<inter> fst ` set ys = {}
      \<and> fold (\<lambda>x d. AList.update (f x) x d) xs ys = ys @ map (\<lambda>x. (f x, x)) xs"
    using assms
  proof (induction xs arbitrary: ys)
    case (Cons x xs)
    have new: "f x \<notin> fst ` set ys"
    proof
      assume "f x \<in> fst ` set ys"
      then have "length (AList.update (f x) x ys) = length ys" by (simp add: update_length)
      with keyed_by_length [of f xs "AList.update (f x) x ys"] Cons.prems show False by simp
    qed
    with Cons.prems have "length (fold (\<lambda>x d. AList.update (f x) x d) xs (AList.update (f x) x ys))
        = length (AList.update (f x) x ys) + length xs" by (simp add: update_length)
    from Cons.IH [OF this] show ?case using new by (auto simp: update_fresh)
  qed simp
  then show "distinct (map f xs)" and "f ` set xs \<inter> fst ` set ys = {}"
    and "fold (\<lambda>x d. AList.update (f x) x d) xs ys = ys @ map (\<lambda>x. (f x, x)) xs" by blast+
qed

lemma keyed_by_all:
  assumes "length (keyed_by f xs) = length xs"
  shows "distinct (map f xs)" and "keyed_by f xs = map (\<lambda>x. (f x, x)) xs"
  using keyed_by_distinct [of f xs "[]"] assms by (simp_all add: keyed_by_def)

lemma keyed_by_distinct_eq: "distinct (map f xs) \<Longrightarrow> keyed_by f xs = map (\<lambda>x. (f x, x)) xs"
proof -
  have "distinct (map f xs) \<Longrightarrow> f ` set xs \<inter> fst ` set ys = {} \<Longrightarrow>
      fold (\<lambda>x d. AList.update (f x) x d) xs ys = ys @ map (\<lambda>x. (f x, x)) xs" for ys
    by (induction xs arbitrary: ys) (auto simp: update_fresh)
  from this [of "[]"] show "distinct (map f xs) \<Longrightarrow> ?thesis" by (simp add: keyed_by_def)
qed

lemma map_of_keyed:
  assumes "distinct (map f xs)"
  shows "map_of (map (\<lambda>x. (f x, x)) xs) k = Some x \<longleftrightarrow> x \<in> set xs \<and> f x = k"
proof -
  have "distinct (map fst (map (\<lambda>x. (f x, x)) xs))" using assms by (simp add: comp_def)
  from map_of_eq_Some_iff [OF this, of k x] show ?thesis by auto
qed

end
