(* ===== verification/Retention_Records.thy ===== *)
theory Retention_Records
  imports Retention_Dispositions
begin

text \<open>
  The readable dispositions: what the check of the records amounts to, and that a change writes
  a record that passes it.
\<close>

section \<open>The check of the records\<close>

definition record_key :: "retention_env \<Rightarrow> json \<Rightarrow> string" where
  "record_key env v = (if has_key ''id'' v then py_str env (jget v ''id'') else [])"

definition record_document :: "json \<Rightarrow> string" where
  "record_document v = text_of (jget v ''document_id'')"

definition record_ok :: "retention_env \<Rightarrow> string list \<Rightarrow> json \<Rightarrow> bool" where
  "record_ok env docs v \<longleftrightarrow> \<not> disposition_identity_bad env (record_key env v) v \<and> record_document v \<in> set docs
     \<and> \<not> disposition_state_bad env v \<and> restore_state_ok v"

lemma disposition_errors_none:
  "disposition_errors env docs seen (map (\<lambda>v. (record_key env v, v)) vs) = [] \<longleftrightarrow>
     list_all (record_ok env docs) vs \<and> distinct (map record_document vs) \<and> set (map record_document vs) \<inter> set seen = {}"
proof (induction vs arbitrary: seen)
  case (Cons v vs)
  show ?case
    by (auto simp: Cons.IH record_ok_def Let_def fault_if_def record_document_def)
qed simp

definition document_ids :: "retention_env \<Rightarrow> json list \<Rightarrow> string list" where
  "document_ids env docs = map (\<lambda>d. py_str env (jget d ''id'')) docs"

lemma disposition_records_iff:
  "disposition_records env fs = Inr R \<longleftrightarrow> (\<exists>docs raw. list_canonical ''documents'' fs = Inr docs \<and> list_all (has_key ''id'') docs
     \<and> list_canonical ''dispositions'' fs = Inr raw \<and> distinct (map (record_key env) raw)
     \<and> list_all (record_ok env (document_ids env docs)) raw \<and> distinct (map record_document raw)
     \<and> R = map (\<lambda>v. (record_document v, v)) raw)" (is "?A \<longleftrightarrow> ?B")
proof -
  have key: "(\<lambda>v. if has_key ''id'' v then py_str env (jget v ''id'') else []) = record_key env"
    by (simp add: record_key_def fun_eq_iff)
  have doc: "(\<lambda>v. text_of (jget v ''document_id'')) = record_document"
    by (simp add: record_document_def fun_eq_iff)
  show ?thesis
  proof
    assume a: ?A
    then obtain docs raw where l: "list_canonical ''documents'' fs = Inr docs" "list_all (has_key ''id'') docs"
        "list_canonical ''dispositions'' fs = Inr raw"
      and len: "length (keyed_by (record_key env) raw) = length raw"
      and none: "canonical_disposition_errors env (keyed_by (record_key env) raw) (document_ids env docs) = []"
      and R: "R = keyed_by record_document (map snd (keyed_by (record_key env) raw))"
      unfolding disposition_records_def Let_def key doc document_ids_def
      by (auto split: sum.splits if_splits list.splits)
    note all = keyed_by_all [OF len]
    have "list_all (record_ok env (document_ids env docs)) raw \<and> distinct (map record_document raw)"
      using none unfolding all(2) canonical_disposition_errors_def disposition_errors_none by simp
    moreover have "map snd (keyed_by (record_key env) raw) = raw" unfolding all(2) by (simp add: comp_def)
    ultimately show ?B using l all(1) R keyed_by_distinct_eq [of record_document raw] by auto
  next
    assume ?B
    then obtain docs raw where l: "list_canonical ''documents'' fs = Inr docs" "list_all (has_key ''id'') docs"
        "list_canonical ''dispositions'' fs = Inr raw" and d: "distinct (map (record_key env) raw)"
      and ok: "list_all (record_ok env (document_ids env docs)) raw" "distinct (map record_document raw)"
      and R: "R = map (\<lambda>v. (record_document v, v)) raw" by blast
    have k: "keyed_by (record_key env) raw = map (\<lambda>v. (record_key env v, v)) raw" by (rule keyed_by_distinct_eq [OF d])
    have none: "canonical_disposition_errors env (keyed_by (record_key env) raw) (document_ids env docs) = []"
      using ok unfolding k canonical_disposition_errors_def disposition_errors_none by simp
    have "map snd (keyed_by (record_key env) raw) = raw" unfolding k by (simp add: comp_def)
    then have "disposition_records env fs = Inr (keyed_by record_document raw)"
      unfolding disposition_records_def Let_def key doc document_ids_def [symmetric]
      using l none by (simp add: k)
    then show ?A using R keyed_by_distinct_eq [OF ok(2)] by simp
  qed
qed

section \<open>The new record\<close>

definition uuids_ok :: "retention_env \<Rightarrow> bool" where
  "uuids_ok env \<longleftrightarrow> (\<forall>x. length (re_uuid5 env x) = 32 \<and> list_all hexchar (re_uuid5 env x))"

lemma disposition_id_valid: "uuids_ok env \<Longrightarrow> disposition_id_ok (disposition_id env d)"
  by (simp add: uuids_ok_def disposition_id_ok_def disposition_id_def del: append.simps append_Cons)

lemma jget_set_field: "jget (set_field k v j) k' = (case j of JObj _ \<Rightarrow> if k' = k then v else jget j k' | _ \<Rightarrow> jget j k')"
  by (cases j) (auto simp: update_conv')

lemma set_field_obj: "(case set_field k v j of JObj kvs \<Rightarrow> f kvs | _ \<Rightarrow> e) = (case j of JObj kvs \<Rightarrow> f (AList.update k v kvs) | _ \<Rightarrow> e)"
  by (cases j) auto

text \<open>The fields of the current disposition are those of its record, or the defaults.\<close>

definition base_record :: "retention_env \<Rightarrow> string \<Rightarrow> (string \<times> json) list \<Rightarrow> json" where
  "base_record env d R = (case map_of R d of None \<Rightarrow> default_disposition env d | Some v \<Rightarrow> v)"

lemma view_field:
  assumes "k \<notin> {''recorded'', ''archived'', ''trashed'', ''projected''}"
  shows "jget (disposition_view (set_field ''recorded'' b v)) k = jget v k"
  by (cases v) (use assms in \<open>simp_all add: disposition_view_def Let_def update_conv'\<close>)

lemma current_field:
  assumes "k \<notin> {''recorded'', ''archived'', ''trashed'', ''projected''}"
  shows "jget (current_disposition env d R) k = jget (base_record env d R) k"
  by (cases "map_of R d") (simp_all only: current_disposition_def base_record_def option.case view_field [OF assms])

definition base_ok :: "retention_env \<Rightarrow> json \<Rightarrow> bool" where
  "base_ok env v \<longleftrightarrow> one_of DISPOSITION_STATUSES (jget v ''status'') \<and> one_of LIBRARY_VISIBILITIES (jget v ''library_visibility'')
     \<and> restore_state_ok v \<and> (\<exists>n \<ge> 0. jget v ''revision'' = JInt n)
     \<and> (jget v ''created_at'' \<in> {JNull, JStr []} \<or> filled env (jget v ''created_at''))"

lemma default_ok: "base_ok env (default_disposition env d)"
  by (simp add: base_ok_def default_disposition_def one_of_def is_str_def text_of_def DISPOSITION_STATUSES_def
      LIBRARY_VISIBILITIES_def restore_state_ok_def Let_def)

lemma record_base_ok: "record_ok env docs v \<Longrightarrow> base_ok env v"
  by (auto simp: record_ok_def base_ok_def disposition_state_bad_def revision_ok_def split: json.splits)

lemma records_base_ok:
  assumes "disposition_records env fs = Inr R"
  shows "base_ok env (base_record env d R)"
proof (cases "map_of R d")
  case None
  then show ?thesis by (simp add: base_record_def default_ok)
next
  case (Some v)
  obtain docs raw where ok: "list_all (record_ok env docs) raw" and R: "R = map (\<lambda>v. (record_document v, v)) raw"
    using assms unfolding disposition_records_iff by blast
  from Some R have "v \<in> set raw" by (auto dest: map_of_SomeD)
  with ok have "record_ok env docs v" by (simp add: list_all_iff)
  then show ?thesis using Some by (simp add: base_record_def record_base_ok)
qed

definition target_valid :: "disp_target \<Rightarrow> bool" where
  "target_valid t \<longleftrightarrow> (case t of (status, visibility, rs, rv) \<Rightarrow>
     status \<in> set DISPOSITION_STATUSES \<and> visibility \<in> set LIBRARY_VISIBILITIES
   \<and> (if status = ''trashed'' then one_of [''active'', ''archived''] rs \<and> one_of LIBRARY_VISIBILITIES rv
      else rs = JNull \<and> rv = JNull))"

lemma one_ofD: "one_of xs j \<Longrightarrow> \<exists>s. j = JStr s \<and> s \<in> set xs"
  by (cases j) (auto simp: one_of_def is_str_def text_of_def)

lemma transition_target_valid:
  assumes ok: "base_ok env v" and same: "disposition_state cur = disposition_state v"
    and t: "transition_target env cur a = Inr t"
  shows "target_valid t"
proof -
  obtain s where s: "jget v ''status'' = JStr s" "s \<in> set DISPOSITION_STATUSES"
    using ok one_ofD unfolding base_ok_def by blast
  obtain w where w: "jget v ''library_visibility'' = JStr w" "w \<in> set LIBRARY_VISIBILITIES"
    using ok one_ofD unfolding base_ok_def by blast
  have st: "disposition_state cur = (s, w, jget v ''restore_status'', jget v ''restore_library_visibility'')"
    using same s w by (simp add: disposition_state_def text_of_def)
  have r: "if s = ''trashed'' then one_of [''active'', ''archived''] (jget v ''restore_status'')
        \<and> one_of LIBRARY_VISIBILITIES (jget v ''restore_library_visibility'')
      else jget v ''restore_status'' = JNull \<and> jget v ''restore_library_visibility'' = JNull"
    using ok s(1) by (auto simp: base_ok_def restore_state_ok_def Let_def)
  show ?thesis
  proof (cases "s = ''trashed''")
    case True
    with r obtain x y where xy: "jget v ''restore_status'' = JStr x" "x \<in> {''active'', ''archived''}"
      "jget v ''restore_library_visibility'' = JStr y" "y \<in> set LIBRARY_VISIBILITIES"
      using one_ofD by (metis empty_set list.simps(15))
    show ?thesis
      using t True w xy r by (cases a) (auto simp: transition_target_def st target_valid_def DISPOSITION_STATUSES_def py_str_def)
  next
    case False
    have os: "one_of [''active'', ''archived''] (JStr s)"
      using s(2) False by (auto simp: one_of_def is_str_def text_of_def DISPOSITION_STATUSES_def)
    have ow: "one_of LIBRARY_VISIBILITIES (JStr w)" using w by (simp add: one_of_def is_str_def text_of_def)
    show ?thesis
      using t False s(2) w(2) os ow
      by (cases a) (auto simp: transition_target_def st target_valid_def DISPOSITION_STATUSES_def LIBRARY_VISIBILITIES_def)
  qed
qed

lemma new_disposition_ok:
  assumes u: "uuids_ok env" and d: "document_id_ok d" "d \<in> set docs"
    and cur: "\<And>k. k \<in> {''revision'', ''created_at''} \<Longrightarrow> jget cur k = jget v k" and ok: "base_ok env v"
    and t: "target_valid t" and op: "operation_id_ok op" and now: "re_strip env now \<noteq> []"
  shows "record_ok env docs (new_disposition env d cur t now op)"
    and "record_key env (new_disposition env d cur t now op) = disposition_id env d"
    and "record_document (new_disposition env d cur t now op) = d"
proof -
  obtain s w rs rv where te: "t = (s, w, rs, rv)" by (cases t) auto
  obtain n where n: "jget v ''revision'' = JInt n" "0 \<le> n" using ok unfolding base_ok_def by blast
  have rev: "revision_of cur = n" using n cur by (simp add: revision_of_def)
  have created: "filled env (if jget cur ''created_at'' \<in> {JNull, JStr []} then JStr now else jget cur ''created_at'')"
    using ok cur now by (auto simp: base_ok_def filled_def is_str_def text_of_def)
  let ?n = "new_disposition env d cur t now op"
  show key: "record_key env ?n = disposition_id env d"
    by (simp add: record_key_def new_disposition_def te py_str_def)
  show "record_document ?n = d" by (simp add: record_document_def new_disposition_def te text_of_def)
  have id: "\<not> disposition_identity_bad env (disposition_id env d) ?n"
    using d disposition_id_valid [OF u, of d]
    by (auto simp: disposition_identity_bad_def Let_def new_disposition_def te disposition_fields_def one_def is_str_def text_of_def)
  have state: "\<not> disposition_state_bad env ?n"
    using t op now created n
    by (simp add: disposition_state_bad_def new_disposition_def te target_valid_def one_of_def is_str_def text_of_def rev
        revision_ok_def filled_def py_str_def)
  have restore: "restore_state_ok ?n"
    using t by (auto simp: restore_state_ok_def new_disposition_def te target_valid_def Let_def split: if_splits)
  show "record_ok env docs ?n"
    using id state restore d(2) by (simp add: record_ok_def key) (simp add: record_document_def new_disposition_def te text_of_def)
qed

section \<open>The directories of the records\<close>

definition area :: "string \<Rightarrow> files \<Rightarrow> files" where
  "area kind fs = filter (\<lambda>x. in_directory (''knowledge/'' @ kind) (fst x)) fs"

definition is_record :: "content \<Rightarrow> bool" where
  "is_record c \<longleftrightarrow> (case c of Json (JObj _) \<Rightarrow> True | _ \<Rightarrow> False)"

definition json_of :: "content \<Rightarrow> json" where
  "json_of c = (case c of Json j \<Rightarrow> j | _ \<Rightarrow> JNull)"

lemma list_canonical_iff:
  "list_canonical kind fs = Inr raw \<longleftrightarrow>
     (\<forall>x \<in> set (area kind fs). is_record (snd x)) \<and> raw = map (\<lambda>x. json_of (snd x)) (sort_key fst (area kind fs))"
proof -
  let ?f = "\<lambda>x :: string \<times> content. case snd x of Json (JObj kvs) \<Rightarrow> Inr (JObj kvs) | _ \<Rightarrow> Inl (Ret_value ''expected JSON object'')"
  have f: "?f x = Inr y \<longleftrightarrow> is_record (snd x) \<and> y = json_of (snd x)" for x y
    by (auto simp: is_record_def json_of_def split: content.splits json.splits)
  have m: "map ?f xs = map Inr ys \<longleftrightarrow> (\<forall>x \<in> set xs. is_record (snd x)) \<and> ys = map (\<lambda>x. json_of (snd x)) xs" for xs ys
    by (induction xs arbitrary: ys) (auto simp: f Cons_eq_map_conv)
  show ?thesis unfolding list_canonical_def json_objects_def collect_Inr area_def m by simp
qed

definition files_named :: "retention_env \<Rightarrow> files \<Rightarrow> bool" where
  "files_named env fs \<longleftrightarrow> (\<forall>kind \<in> {''documents'', ''dispositions''}. \<forall>x \<in> set (area kind fs).
     fst x = canonical_path kind (record_key env (json_of (snd x))))"

text \<open>The records of an Instance at rest: each file named by the id in it, and all of them readable.\<close>

definition records_readable :: "retention_env \<Rightarrow> files \<Rightarrow> bool" where
  "records_readable env fs \<longleftrightarrow> distinct (map fst (knowledge fs)) \<and> files_named env (knowledge fs)
     \<and> (\<exists>R. disposition_records env fs = Inr R)"

lemma set_update: "distinct (map fst xs) \<Longrightarrow> set (AList.update k v xs) = {x \<in> set xs. fst x \<noteq> k} \<union> {(k, v)}"
  by (induction xs) force+

lemma canonical_path_eq: "canonical_path kind i = canonical_path kind j \<longleftrightarrow> i = j"
  by (simp add: canonical_path_def)

lemma disposition_path_areas:
  assumes "uuids_ok env"
  shows "in_directory (''knowledge/'' @ ''dispositions'') (disposition_path env d)"
    and "\<not> in_directory (''knowledge/'' @ ''documents'') (disposition_path env d)"
proof -
  have "hexchar (CHR ''/'') \<Longrightarrow> False" by (simp add: hexchar_def)
  then have "CHR ''/'' \<notin> set (re_uuid5 env x)" for x using assms unfolding uuids_ok_def list_all_iff by blast
  moreover have "suffix ''.json'' (x @ ''.json'')" for x by (rule suffixI) simp
  ultimately show "in_directory (''knowledge/'' @ ''dispositions'') (disposition_path env d)"
    by (simp add: in_directory_def disposition_path_def canonical_path_def disposition_id_def Let_def suffix_def)
  show "\<not> in_directory (''knowledge/'' @ ''documents'') (disposition_path env d)"
    by (simp add: in_directory_def disposition_path_def canonical_path_def Let_def)
qed

lemma area_update:
  "area kind (AList.update p c V) = (if in_directory (''knowledge/'' @ kind) p then AList.update p c (area kind V) else area kind V)"
  unfolding area_def by (rule filter_update [where P = "in_directory (''knowledge/'' @ kind)"])

lemma area_distinct: "distinct (map fst V) \<Longrightarrow> distinct (map fst (area kind V))"
  by (simp add: area_def distinct_map_filter)

lemma named_distinct:
  assumes "distinct (map fst E)" and "\<forall>x \<in> set E. fst x = canonical_path kind (record_key env (json_of (snd x)))"
  shows "distinct (map (record_key env) (map (\<lambda>x. json_of (snd x)) (sort_key fst E)))"
proof -
  have "inj_on (\<lambda>x. record_key env (json_of (snd x))) (set E)"
  proof (rule inj_onI)
    fix x y
    assume "x \<in> set E" "y \<in> set E" "record_key env (json_of (snd x)) = record_key env (json_of (snd y))"
    with assms(2) have "fst x = fst y" by simp
    with assms(1) \<open>x \<in> set E\<close> \<open>y \<in> set E\<close> show "x = y" by (metis distinct_map inj_onD)
  qed
  moreover have "distinct (sort_key fst E)" using assms(1) by (simp add: distinct_map)
  ultimately show ?thesis by (simp add: distinct_map comp_def)
qed

lemma record_identity: "record_ok env docs v \<Longrightarrow> record_key env v = disposition_id env (record_document v)"
  by (auto simp: record_ok_def disposition_identity_bad_def Let_def record_document_def)

lemma record_documents_distinct:
  assumes "distinct (map (record_key env) raw)" and "list_all (record_ok env docs) raw"
  shows "distinct (map record_document raw)"
proof -
  have "inj_on record_document (set raw)"
  proof (rule inj_onI)
    fix x y
    assume xy: "x \<in> set raw" "y \<in> set raw" "record_document x = record_document y"
    with assms(2) have "record_ok env docs x" "record_ok env docs y" unfolding list_all_iff by blast+
    with xy(3) have "record_key env x = record_key env y" using record_identity by metis
    with assms(1) xy show "x = y" by (metis distinct_map inj_onD)
  qed
  with assms(1) show ?thesis by (simp add: distinct_map)
qed

lemma same_option: "(\<And>x. a = Some x \<longleftrightarrow> b = Some x) \<Longrightarrow> a = b"
  by (cases a; cases b) auto

lemma write_record:
  assumes u: "uuids_ok env" and ok: "records_readable env fs" and R: "disposition_records env fs = Inr R"
    and docs: "list_canonical ''documents'' fs = Inr docs" and v: "record_ok env (document_ids env docs) v"
    and d: "record_document v = d" and V: "V = AList.update (disposition_path env d) (Json v) (knowledge fs)"
  obtains R' where "disposition_records env V = Inr R'" and "files_named env V" and "distinct (map fst V)"
    and "map_of R' d = Some v"
    and "\<And>d'. disposition_id env d' \<noteq> disposition_id env d \<Longrightarrow> map_of R' d' = map_of R d'"
proof -
  let ?p = "disposition_path env d" and ?K = "knowledge fs"
  let ?E = "area ''dispositions'' ?K" and ?g = "\<lambda>x :: string \<times> content. json_of (snd x)"
  have key: "record_key env v = disposition_id env d" using record_identity [OF v] d by simp
  have dK: "distinct (map fst ?K)" and nK: "files_named env ?K" using ok by (simp_all add: records_readable_def)
  have dV: "distinct (map fst V)" unfolding V by (rule distinct_update [OF dK])
  obtain docs' raw where l: "list_canonical ''documents'' fs = Inr docs'" "list_all (has_key ''id'') docs'"
      "list_canonical ''dispositions'' fs = Inr raw"
    and rok: "list_all (record_ok env (document_ids env docs')) raw" "distinct (map record_document raw)"
    and Req: "R = map (\<lambda>v. (record_document v, v)) raw"
    using R unfolding disposition_records_iff by blast
  have docs': "docs' = docs" using l docs by simp
  have aV: "area ''dispositions'' V = AList.update ?p (Json v) ?E" "area ''documents'' V = area ''documents'' ?K"
    using disposition_path_areas [OF u, of d] by (simp_all add: V area_update del: append.simps append_Cons)
  have dE: "distinct (map fst ?E)" by (rule area_distinct [OF dK])
  have sV: "set (area ''dispositions'' V) = {x \<in> set ?E. fst x \<noteq> ?p} \<union> {(?p, Json v)}"
    unfolding aV by (rule set_update [OF dE])
  have named: "\<forall>x \<in> set (area ''dispositions'' V). fst x = canonical_path ''dispositions'' (record_key env (?g x))"
    using nK sV by (auto simp: files_named_def key json_of_def disposition_path_def)
  then have nV: "files_named env V" using nK by (simp add: files_named_def aV(2))
  have rawE: "(\<forall>x \<in> set ?E. is_record (snd x))" "raw = map ?g (sort_key fst ?E)"
    using l(3) list_canonical_knowledge [of "''dispositions''" fs] by (simp_all add: list_canonical_iff)
  have isv: "is_record (Json v)"
    using v by (cases v) (auto simp: record_ok_def disposition_identity_bad_def Let_def is_record_def)
  let ?raw = "map ?g (sort_key fst (area ''dispositions'' V))"
  have lV: "list_canonical ''dispositions'' V = Inr ?raw"
    using rawE(1) isv sV by (auto simp: list_canonical_iff)
  have lD: "list_canonical ''documents'' V = Inr docs"
    using docs list_canonical_knowledge [of "''documents''" fs] aV(2) by (simp add: list_canonical_iff)
  have sraw: "set ?raw = insert v (?g ` {x \<in> set ?E. fst x \<noteq> ?p})"
    using sV by (auto simp: json_of_def)
  have okV: "list_all (record_ok env (document_ids env docs)) ?raw"
  proof -
    have "record_ok env (document_ids env docs) x" if "x \<in> set ?raw" for x
      using that v rok(1) rawE(2) unfolding sraw docs' list_all_iff by auto
    then show ?thesis unfolding list_all_iff by blast
  qed
  have keys: "distinct (map (record_key env) ?raw)" by (rule named_distinct [OF area_distinct [OF dV] named])
  have dd: "distinct (map record_document ?raw)" by (rule record_documents_distinct [OF keys okV])
  let ?R = "map (\<lambda>v. (record_document v, v)) ?raw"
  have RV: "disposition_records env V = Inr ?R"
    unfolding disposition_records_iff using lV lD keys okV dd l(2) docs' by blast
  have look: "map_of ?R k = Some x \<longleftrightarrow> x \<in> set ?raw \<and> record_document x = k" for k x
    by (rule map_of_keyed [OF dd])
  have lookR: "map_of R k = Some x \<longleftrightarrow> x \<in> set raw \<and> record_document x = k" for k x
    unfolding Req by (rule map_of_keyed [OF rok(2)])
  have other: "map_of ?R d' = map_of R d'" if nd: "disposition_id env d' \<noteq> disposition_id env d" for d'
  proof -
    have "x \<in> set ?raw \<and> record_document x = d' \<longleftrightarrow> x \<in> set raw \<and> record_document x = d'" for x
    proof
      assume x: "x \<in> set ?raw \<and> record_document x = d'"
      then have "x \<noteq> v" using d nd by auto
      with x show "x \<in> set raw \<and> record_document x = d'" unfolding sraw rawE(2) by auto
    next
      assume x: "x \<in> set raw \<and> record_document x = d'"
      then obtain y where y: "y \<in> set ?E" "x = ?g y" unfolding rawE(2) by auto
      have "record_key env x = disposition_id env d'"
        using x rok(1) record_identity by (auto simp: list_all_iff)
      then have "fst y \<noteq> ?p" using nK y nd by (auto simp: files_named_def disposition_path_def canonical_path_eq)
      with x y show "x \<in> set ?raw \<and> record_document x = d'" unfolding sraw by auto
    qed
    then have "map_of ?R d' = Some x \<longleftrightarrow> map_of R d' = Some x" for x unfolding look lookR .
    then show ?thesis by (rule same_option)
  qed
  have "map_of ?R d = Some v" unfolding look sraw using d by blast
  with that [OF RV nV dV] other show thesis by blast
qed

section \<open>A transition on readable records\<close>

abbreviation purgeless :: "'a ract \<Rightarrow> bool" where
  "purgeless \<equiv> keeps rs_pending"

lemma purgeless_put: "(\<And>s. rs_pending (f s) = rs_pending s) \<Longrightarrow> purgeless (rput f)"
  by (auto simp: keeps_def rput_def split: list.splits fate.splits)

lemma apply_disposition_purgeless: "purgeless (apply_disposition env hex now error_text d a current target)"
  unfolding apply_disposition_def start_operation_def close_operation_def roll_back_disposition_def restore_bytes_def
    sync_document_derived_def rebuild_search_index_def rebuild_library_def write_file_def unlink_file_def Let_def
  by (intro keeping keeps_catch keeps_option keeps_if purgeless_put) simp_all

lemma transition_cases:
  assumes run: "transition env hex now error_text d a s = (r, t)" and quiet: "rs_pending s = No_pending"
  obtains (refused) e where "r = Inl e" and "t = s"
  | (same) R where "disposition_records env (rs_files s) = Inr R" and "document_id_ok d"
      and "read_canonical ''documents'' d (rs_files s) \<notin> {Inr None} \<union> range Inl" and "t = s"
      and "transition_target env (current_disposition env d R) a = Inr (disposition_state (current_disposition env d R))"
      and "r = Inr \<lparr>to_changed = False, to_disposition = current_disposition env d R, to_operation = None\<rparr>"
  | (applied) R target where "disposition_records env (rs_files s) = Inr R" and "document_id_ok d"
      and "read_canonical ''documents'' d (rs_files s) \<notin> {Inr None} \<union> range Inl"
      and "transition_target env (current_disposition env d R) a = Inr target"
      and "target \<noteq> disposition_state (current_disposition env d R)"
      and "apply_disposition env hex now error_text d a (current_disposition env d R) target s = (r, t)"
proof -
  have rec: "recover_pending env now s = (Inr None, s)" using quiet by (simp add: recover_pending_def the_pending_eval)
  show thesis
  proof (cases "document_id_ok d")
    case False
    then show thesis using run refused by (auto simp: transition_def seqA_def bindA_def require_eq)
  next
    case id: True
    show thesis
    proof (cases "read_canonical ''documents'' d (rs_files s)")
      case (Inl e)
      then show thesis using run id rec refused by (auto simp: transition_def seqA_def bindA_def require_eq)
    next
      case doc: (Inr document)
      show thesis
      proof (cases "document = None")
        case True
        then show thesis using run id rec doc refused by (auto simp: transition_def seqA_def bindA_def require_eq)
      next
        case False
        show thesis
        proof (cases "disposition_records env (rs_files s)")
          case (Inl e)
          then show thesis using run id rec doc False refused by (auto simp: transition_def seqA_def bindA_def require_eq)
        next
          case recs: (Inr R)
          let ?cur = "current_disposition env d R"
          show thesis
          proof (cases "transition_target env ?cur a")
            case (Inl e)
            then show thesis using run id rec doc False recs refused
              by (auto simp: transition_def seqA_def bindA_def require_eq Let_def)
          next
            case tgt: (Inr target)
            show thesis
            proof (cases "target = disposition_state ?cur")
              case True
              then show thesis using run id rec doc False recs tgt
                by (intro same [of R]) (auto simp: transition_def seqA_def bindA_def require_eq Let_def)
            next
              case ne: False
              then have "apply_disposition env hex now error_text d a ?cur target s = (r, t)"
                using run id rec doc False recs tgt by (simp add: transition_def seqA_def bindA_def require_eq Let_def)
              then show thesis using applied [OF recs id _ tgt ne] doc False by auto
            qed
          qed
        qed
      qed
    qed
  qed
qed

lemma transition_quiet:
  assumes "transition env hex now error_text d a s = (r, t)" and "rs_pending s = No_pending"
  shows "rs_pending t = No_pending"
  using assms
proof (cases rule: transition_cases)
  case (applied R target)
  then show ?thesis using keepsD [OF apply_disposition_purgeless applied(6)] assms(2) by simp
qed (use assms(2) in simp_all)

end
