(* ===== verification/Retention.thy ===== *)
theory Retention
  imports Retention_Records
begin

text \<open>
  The properties of the retention manager: what a change of a disposition does, that it keeps
  the records readable and is undone when a write fails, that the trash gives a document back as
  it was, and that a purge is confirmed, and happens as a whole or not at all.
\<close>

section \<open>Helper facts\<close>

lemma document_listed:
  assumes ok: "records_readable env fs" and d: "document_id_ok d"
    and doc: "read_canonical ''documents'' d fs \<notin> {Inr None} \<union> range Inl"
    and docs: "list_canonical ''documents'' fs = Inr docs" and ids: "list_all (has_key ''id'') docs"
  shows "d \<in> set (document_ids env docs)"
proof -
  obtain j where j: "map_of fs (canonical_path ''documents'' d) = Some (Json j)"
    using doc by (auto simp: read_canonical_def split: option.splits content.splits json.splits)
  from d obtain h where h: "d = ''doc_'' @ h" "list_all hexchar h"
    unfolding document_id_ok_def by (rule prefixed_hexE)
  have "CHR ''/'' \<notin> set h" using h(2) by (auto simp: list_all_iff hexchar_def)
  then have dir: "in_directory (''knowledge/'' @ ''documents'') (canonical_path ''documents'' d)"
    by (simp add: in_directory_def canonical_path_def h(1) Let_def suffix_def)
  have "map_of (knowledge fs) (canonical_path ''documents'' d) = Some (Json j)"
    using j by (simp add: knowledge_look canonical_under)
  then have "(canonical_path ''documents'' d, Json j) \<in> set (knowledge fs)" by (rule map_of_SomeD)
  then have mem: "(canonical_path ''documents'' d, Json j) \<in> set (area ''documents'' (knowledge fs))"
    using dir by (simp add: area_def)
  have "\<forall>x \<in> set (area ''documents'' (knowledge fs)). fst x = canonical_path ''documents'' (record_key env (json_of (snd x)))"
    using ok by (simp add: records_readable_def files_named_def)
  from bspec [OF this mem] have key: "record_key env j = d" by (simp add: canonical_path_eq json_of_def)
  have l: "list_canonical ''documents'' (knowledge fs) = Inr docs"
    using docs list_canonical_knowledge [of "''documents''" fs] by simp
  have "set docs = (\<lambda>x. json_of (snd x)) ` set (area ''documents'' (knowledge fs))"
    using l unfolding list_canonical_iff by simp
  with imageI [OF mem, of "\<lambda>x. json_of (snd x)"] have jd: "j \<in> set docs" by (simp add: json_of_def)
  with ids have "has_key ''id'' j" by (simp add: list_all_iff)
  with key jd show ?thesis by (auto simp: record_key_def document_ids_def)
qed

lemma records_readable_cong: "knowledge gs = knowledge fs \<Longrightarrow> records_readable env gs = records_readable env fs"
  by (metis records_readable_def records_knowledge)

lemma current_state: "disposition_state (current_disposition env d R) = disposition_state (base_record env d R)"
  by (simp add: disposition_state_def current_field)

lemma applied_result:
  assumes u: "uuids_ok env" and ok: "records_readable env (rs_files s)"
    and R: "disposition_records env (rs_files s) = Inr R" and d: "document_id_ok d"
    and doc: "read_canonical ''documents'' d (rs_files s) \<notin> {Inr None} \<union> range Inl"
    and tgt: "transition_target env (current_disposition env d R) a = Inr target"
    and op: "operation_id_ok (''op_'' @ hex)" and now: "re_strip env now \<noteq> []"
    and K: "knowledge (rs_files t) = AList.update (disposition_path env d)
      (next_disposition env d (current_disposition env d R) target now hex) (knowledge (rs_files s))"
  obtains R' where "disposition_records env (rs_files t) = Inr R'" and "records_readable env (rs_files t)"
    and "map_of R' d = Some (new_disposition env d (current_disposition env d R) target now (''op_'' @ hex))"
    and "\<And>d'. disposition_id env d' \<noteq> disposition_id env d \<Longrightarrow> map_of R' d' = map_of R d'"
proof -
  let ?cur = "current_disposition env d R" and ?v = "new_disposition env d (current_disposition env d R) target now (''op_'' @ hex)"
  obtain docs where docs: "list_canonical ''documents'' (rs_files s) = Inr docs" "list_all (has_key ''id'') docs"
    using R unfolding disposition_records_iff by blast
  have base: "base_ok env (base_record env d R)" by (rule records_base_ok [OF R])
  have tv: "target_valid target" by (rule transition_target_valid [OF base current_state tgt])
  have same: "k \<in> {''revision'', ''created_at''} \<Longrightarrow> jget ?cur k = jget (base_record env d R) k" for k
    by (rule current_field) auto
  note new = new_disposition_ok [OF u d document_listed [OF ok d doc docs] same base tv op now]
  obtain R' where R': "disposition_records env (knowledge (rs_files t)) = Inr R'" "files_named env (knowledge (rs_files t))"
      "distinct (map fst (knowledge (rs_files t)))" "map_of R' d = Some ?v"
      "\<And>d'. disposition_id env d' \<noteq> disposition_id env d \<Longrightarrow> map_of R' d' = map_of R d'"
    using write_record [OF u ok R docs(1) new(1,3) K] by metis
  have "disposition_records env (rs_files t) = Inr R'" using R'(1) records_knowledge [of env "rs_files t"] by simp
  with R' that show thesis by (simp add: records_readable_def)
qed

lemma get_disposition_current:
  assumes "disposition_records env fs = Inr R" and "document_id_ok d"
    and "read_canonical ''documents'' d fs \<notin> {Inr None} \<union> range Inl"
  shows "get_disposition env d fs = Inr (Some (current_disposition env d R))"
  using assms by (auto simp: get_disposition_def split: sum.splits option.splits)

lemma new_disposition_state: "disposition_state (new_disposition env d cur target now op) = target"
  by (cases target) (auto simp: disposition_state_def new_disposition_def text_of_def)

lemma new_disposition_revision: "revision_of (new_disposition env d cur target now op) = revision_of cur + 1"
  by (cases target) (auto simp: revision_of_def new_disposition_def)

lemma revision_current: "revision_of (current_disposition env d R) = revision_of (base_record env d R)"
  by (simp add: revision_of_def current_field)

lemma base_recorded: "map_of R d = Some v \<Longrightarrow> base_record env d R = v"
  by (simp add: base_record_def)

lemma documents_same:
  assumes "knowledge gs = AList.update (disposition_path env d) c (knowledge fs)"
  shows "read_canonical ''documents'' d' gs = read_canonical ''documents'' d' fs"
proof -
  have "canonical_path ''documents'' d' \<noteq> disposition_path env d"
    by (simp add: canonical_path_def disposition_path_def)
  then have "read_canonical ''documents'' d' (knowledge gs) = read_canonical ''documents'' d' (knowledge fs)"
    unfolding assms by (simp add: read_canonical_def)
  then show ?thesis using read_canonical_knowledge [of "''documents''" d'] by simp
qed

lemma transition_effect:
  assumes "transition env hex now error_text d a s = (Inr out, t)" and "rs_pending s = No_pending"
    and "uuids_ok env" and "records_readable env (rs_files s)"
  shows "\<exists>cur target. get_disposition env d (rs_files s) = Inr (Some cur) \<and> transition_target env cur a = Inr target
    \<and> get_disposition env d (rs_files t) = Inr (Some (to_disposition out))
    \<and> disposition_state (to_disposition out) = target
    \<and> (to_changed out \<longleftrightarrow> target \<noteq> disposition_state cur)
    \<and> revision_of (to_disposition out) = revision_of cur + (if to_changed out then 1 else 0)
    \<and> (\<forall>p. under ''knowledge'' p \<and> p \<noteq> disposition_path env d \<longrightarrow> map_of (rs_files t) p = map_of (rs_files s) p)
    \<and> (\<forall>d'. disposition_id env d' \<noteq> disposition_id env d \<longrightarrow>
        get_disposition env d' (rs_files t) = get_disposition env d' (rs_files s))"
  using assms(1,2)
proof (cases rule: transition_cases)
  case (same R)
  from get_disposition_current [OF same(1-3)]
  have "get_disposition env d (rs_files s) = Inr (Some (current_disposition env d R))" .
  with same show ?thesis
    by (intro exI [of _ "current_disposition env d R"] exI [of _ "disposition_state (current_disposition env d R)"]) simp
next
  case (applied R target)
  let ?cur = "current_disposition env d R"
  have "\<exists>R'. knowledge (rs_files t) = AList.update (disposition_path env d) (next_disposition env d ?cur target now hex) (knowledge (rs_files s))
      \<and> get_disposition env d (rs_files t) = Inr (Some (to_disposition out)) \<and> to_changed out
      \<and> disposition_records env (rs_files t) = Inr R'
      \<and> map_of R' d = Some (new_disposition env d ?cur target now (''op_'' @ hex))
      \<and> (\<forall>d'. disposition_id env d' \<noteq> disposition_id env d \<longrightarrow> map_of R' d' = map_of R d')"
    using applied(6)
  proof (cases rule: apply_disposition_cases)
    case (changed s1 s2)
    obtain R' where R': "disposition_records env (rs_files t) = Inr R'"
      "map_of R' d = Some (new_disposition env d ?cur target now (''op_'' @ hex))"
      "\<And>d'. disposition_id env d' \<noteq> disposition_id env d \<Longrightarrow> map_of R' d' = map_of R d'"
      using applied_result [OF assms(3,4) applied(1-4) changed(4,5,2)] by metis
    have "get_disposition env d (rs_files t) = Inr (Some (current_disposition env d R'))"
      using get_disposition_current [OF R'(1) applied(2)] applied(3) documents_same [OF changed(2), of d] by simp
    with changed(3) [OF refl] changed(2) R' show ?thesis by auto
  qed simp_all
  then obtain R' where K: "knowledge (rs_files t)
        = AList.update (disposition_path env d) (next_disposition env d ?cur target now hex) (knowledge (rs_files s))"
    and get: "get_disposition env d (rs_files t) = Inr (Some (to_disposition out))" and chg: "to_changed out"
    and R': "disposition_records env (rs_files t) = Inr R'"
      "map_of R' d = Some (new_disposition env d ?cur target now (''op_'' @ hex))"
    and others: "\<forall>d'. disposition_id env d' \<noteq> disposition_id env d \<longrightarrow> map_of R' d' = map_of R d'" by blast
  have out: "to_disposition out = current_disposition env d R'"
    using get get_disposition_current [OF R'(1) applied(2)] applied(3) documents_same [OF K, of d] by simp
  have cur: "get_disposition env d (rs_files s) = Inr (Some ?cur)"
    by (rule get_disposition_current [OF applied(1-3)])
  have st: "disposition_state (to_disposition out) = target"
    by (simp add: out current_state base_recorded [OF R'(2)] new_disposition_state)
  have rev: "revision_of (to_disposition out) = revision_of ?cur + 1"
    by (simp add: out revision_current base_recorded [OF R'(2)] new_disposition_revision)
  have files: "map_of (rs_files t) p = map_of (rs_files s) p" if "under ''knowledge'' p" "p \<noteq> disposition_path env d" for p
    using knowledge_look [OF that(1), of "rs_files t"] knowledge_look [OF that(1), of "rs_files s"] K that(2) by simp
  have other: "get_disposition env d' (rs_files t) = get_disposition env d' (rs_files s)"
    if "disposition_id env d' \<noteq> disposition_id env d" for d'
  proof -
    have "map_of R' d' = map_of R d'" using others that by blast
    then have "current_disposition env d' R' = current_disposition env d' R" by (simp add: current_disposition_def)
    then show ?thesis using R'(1) applied(1) documents_same [OF K, of d']
      by (simp add: get_disposition_def split: sum.split option.split)
  qed
  show ?thesis
  proof (rule exI [of _ ?cur], rule exI [of _ target], intro conjI allI impI)
    fix p
    assume "under ''knowledge'' p \<and> p \<noteq> disposition_path env d"
    then show "map_of (rs_files t) p = map_of (rs_files s) p" using files by blast
  next
    fix d'
    assume "disposition_id env d' \<noteq> disposition_id env d"
    then show "get_disposition env d' (rs_files t) = get_disposition env d' (rs_files s)" by (rule other)
  qed (use cur applied(4,5) get st rev chg in simp_all)
qed simp

lemma readable_after:
  assumes "transition env hex now error_text d a s = (r, t)" and "rs_pending s = No_pending"
    and "uuids_ok env" and "records_readable env (rs_files s)"
  shows "records_readable env (rs_files t)"
  using assms(1,2)
proof (cases rule: transition_cases)
  case (applied R target)
  note result = applied_result [OF assms(3,4) applied(1-4)]
  show ?thesis
    using applied(6)
  proof (cases rule: apply_disposition_cases)
    case (not_started e)
    then show ?thesis using assms(4) records_readable_cong by blast
  next
    case (failed e s1 e1 s2)
    then consider "knowledge (rs_files t) = knowledge (rs_files s)"
      | "knowledge (rs_files t) = AList.update (disposition_path env d)
          (next_disposition env d (current_disposition env d R) target now hex) (knowledge (rs_files s))"
      unfolding touched_def by blast
    then show ?thesis
    proof cases
      case 1
      then show ?thesis using assms(4) records_readable_cong by blast
    next
      case 2
      then show ?thesis using result [OF failed(6,7) 2] by blast
    qed
  next
    case (changed s1 s2)
    then show ?thesis using result [OF changed(4,5,2)] by blast
  qed
qed (use assms(4) in simp_all)

section \<open>Dispositions\<close>

text \<open>
  C13: A transition that returns has put the document into the state that the action asks for, and the
  document's disposition read afterwards is the one it returns; the revision grows by one exactly
  when the state changed, no other canonical record is touched, and other documents keep theirs.
\<close>

theorem transition_takes_effect:
  assumes "transition env hex now error_text d a s = (Inr out, t)" and "rs_pending s = No_pending"
    and "uuids_ok env" and "records_readable env (rs_files s)"
  shows "\<exists>cur target. get_disposition env d (rs_files s) = Inr (Some cur) \<and> transition_target env cur a = Inr target
    \<and> get_disposition env d (rs_files t) = Inr (Some (to_disposition out))
    \<and> disposition_state (to_disposition out) = target
    \<and> (to_changed out \<longleftrightarrow> target \<noteq> disposition_state cur)
    \<and> revision_of (to_disposition out) = revision_of cur + (if to_changed out then 1 else 0)
    \<and> (\<forall>p. under ''knowledge'' p \<and> p \<noteq> disposition_path env d \<longrightarrow> map_of (rs_files t) p = map_of (rs_files s) p)
    \<and> (\<forall>d'. disposition_id env d' \<noteq> disposition_id env d \<longrightarrow>
        get_disposition env d' (rs_files t) = get_disposition env d' (rs_files s))"
  by (rule transition_effect [OF assms])

text \<open>
  C24: However a transition ends, with a failing write or a stop at any point and during its
  rollback, the disposition records of the Instance are readable and valid.
\<close>

theorem dispositions_stay_readable:
  assumes "transition env hex now error_text d a s = (r, t)" and "rs_pending s = No_pending"
    and "uuids_ok env" and "records_readable env (rs_files s)"
  shows "records_readable env (rs_files t)"
  by (rule readable_after [OF assms])

text \<open>
  C25: A transition one of whose writes fails, from the record of its operation to the rebuilt
  library, leaves every canonical record as it was, and does not report a change.
\<close>

theorem failed_change_is_undone:
  assumes "transition env hex now error_text d a s = (r, t)" and "rs_pending s = No_pending"
    and "rs_fates s = replicate k Goes @ [Fails]" and "k \<le> 3"
  shows "knowledge (rs_files t) = knowledge (rs_files s) \<and> (\<forall>out. r = Inr out \<longrightarrow> \<not> to_changed out)"
  using assms(1,2)
proof (cases rule: transition_cases)
  case (applied R target)
  show ?thesis
    using applied(6)
  proof (cases rule: apply_disposition_cases)
    case (failed e s1 e1 s2)
    have k: "k \<noteq> 0" "rs_fates s1 = replicate (k - 1) Goes @ [Fails]" using failed(8) [OF assms(3)] by simp_all
    have "k - 1 < 3" using k(1) assms(4) by linarith
    from disposition_body_calm [OF k(2) this, of env "disposition_path env d"
      "next_disposition env d (current_disposition env d R) target now hex"] failed(4)
    have "e1 = Ret_io" "rs_fates s2 = []" by auto
    then show ?thesis using failed(1,5) by simp
  next
    case (changed s1 s2)
    have k: "k \<noteq> 0" "rs_fates s1 = replicate (k - 1) Goes @ [Fails]" using changed(6) [OF assms(3)] by simp_all
    have "k - 1 < 3" using k(1) assms(4) by linarith
    from disposition_body_calm [OF k(2) this, of env "disposition_path env d"
      "next_disposition env d (current_disposition env d R) target now hex"] changed(1)
    show ?thesis by auto
  qed simp
qed simp_all

text \<open>
  C39: A document put into the trash and restored from it has the status and the library visibility
  it had before.
\<close>

theorem trash_gives_back:
  assumes "transition env hex now error_text d Trash s = (Inr out, t)"
    and "transition env hex' now' error_text d Restore_from_trash (t\<lparr>rs_fates := fs\<rparr>) = (Inr out', u)"
    and "get_disposition env d (rs_files s) = Inr (Some cur)" and "jget cur ''status'' \<noteq> JStr ''trashed''"
    and "rs_pending s = No_pending" and "uuids_ok env" and "records_readable env (rs_files s)"
  shows "jget (to_disposition out) ''status'' = JStr ''trashed''
    \<and> disposition_state (to_disposition out') = disposition_state cur"
proof -
  from transition_effect [OF assms(1,5-7)] assms(3)
  obtain target where one: "transition_target env cur Trash = Inr target"
      "get_disposition env d (rs_files t) = Inr (Some (to_disposition out))" "disposition_state (to_disposition out) = target"
    by auto
  have quiet: "rs_pending (t\<lparr>rs_fates := fs\<rparr>) = No_pending" using transition_quiet [OF assms(1,5)] by simp
  have readable: "records_readable env (rs_files (t\<lparr>rs_fates := fs\<rparr>))"
    using readable_after [OF assms(1,5-7)] by simp
  from transition_effect [OF assms(2) quiet assms(6) readable] one(2)
  obtain target' where two: "transition_target env (to_disposition out) Restore_from_trash = Inr target'"
      "disposition_state (to_disposition out') = target'" by auto
  obtain R where R: "disposition_records env (rs_files s) = Inr R" "cur = current_disposition env d R"
    using assms(3) by (cases "disposition_records env (rs_files s)")
      (auto simp: get_disposition_def split: sum.splits option.splits if_splits)
  have base: "base_ok env (base_record env d R)" by (rule records_base_ok [OF R(1)])
  have st: "disposition_state cur = disposition_state (base_record env d R)" by (simp add: R(2) current_state)
  obtain x y where xy: "jget (base_record env d R) ''status'' = JStr x" "jget (base_record env d R) ''library_visibility'' = JStr y"
    using base one_ofD unfolding base_ok_def by blast
  have x: "x \<noteq> ''trashed''" using assms(4) xy(1) by (simp add: R(2) current_field)
  then have "disposition_state cur = (x, y, JNull, JNull)"
    unfolding st using base xy by (simp add: disposition_state_def text_of_def base_ok_def restore_state_ok_def Let_def)
  then have cur: "disposition_state cur = (x, y, JNull, JNull)" .
  with one x have mid: "disposition_state (to_disposition out) = (''trashed'', ''excluded'', JStr x, JStr y)"
    by (simp add: transition_target_def split: prod.splits)
  with mid two have "target' = (x, y, JNull, JNull)" by (simp add: transition_target_def py_str_def)
  moreover have "jget (to_disposition out) ''status'' = JStr ''trashed''"
    using mid by (cases "jget (to_disposition out) ''status''") (auto simp: disposition_state_def text_of_def)
  ultimately show ?thesis using cur two(2) by simp
qed

section \<open>The purge\<close>

text \<open>
  C14: A document is removed by a purge only when the call acknowledges the boundaries and gives the
  token of an unexpired preview of this document, the document is in the trash, the Instance
  validates, and the Instance, the disposition and the recomputed inventory are those of the preview.
\<close>

theorem purge_needs_confirmation:
  assumes "purge env op_hex hex now backups error_text d token ack s = (Inr (Purged x), t)"
  shows "ack \<and> (\<exists>a s' i ts. recover_pending env (re_iso env now) s = (Inr a, s')
    \<and> confirmed env now backups d (re_strip env token) s' i ts)"
proof -
  obtain ra s' where rec: "recover_pending env (re_iso env now) s = (ra, s')" by (cases "recover_pending env (re_iso env now) s")
  let ?sel = "re_strip env token"
  have pre: "ack" using assms by (cases ack) (simp_all add: purge_def seqA_def bindA_def require_eq)
  have "\<exists>a. ra = Inr a \<and> purge_selected env op_hex hex now backups error_text d (re_sha env ?sel) ?sel s' = (Inr (Purged x), t)"
    using assms rec
    by (auto simp: purge_def Let_def seqA_def bindA_def require_eq split: if_splits sum.splits option.splits recovery_action.splits)
  then obtain a where a: "ra = Inr a"
    and run: "purge_selected env op_hex hex now backups error_text d (re_sha env ?sel) ?sel s' = (Inr (Purged x), t)" by blast
  from run show ?thesis
  proof (cases rule: purge_selected_cases)
    case (executed i ts r')
    with pre rec a show ?thesis by blast
  next
    case untouched
    then show ?thesis by blast
  qed
qed

text \<open>
  C2: A purge whose writes may fail or stop anywhere, followed by any recoveries with failures of
  their own, the last of which returns, has either kept every file of the Instance, or removed
  exactly the files of the confirmed inventory and recorded the receipt; it has removed them when
  it reported so. No pending evidence and no staging area is left.
\<close>

theorem purge_is_atomic:
  assumes "purge env op_hex hex now backups error_text d token ack s = (r, t)" and "rs_pending s = No_pending"
    and "map_of (rs_stages s) (''state/locks/.purge-stage-'' @ hex) = None"
    and "map_of (rs_files s) (operation_path (''op_'' @ op_hex)) = None"
    and "\<forall>i ts. purge_impact env backups d s = (Inr (i, ts), s) \<longrightarrow> (\<forall>x \<in> set ts. \<not> derived_path (pt_path x) \<and> pt_path x \<noteq> receipt_path (re_sha env (re_strip env token)))"
    and "recoveries env t u" and "recover_pending env later (u\<lparr>rs_fates := fs\<rparr>) = (Inr a, v)"
  shows "(\<exists>i ts. restored (purge_of env d token op_hex hex i ts) (live_at s) v) \<and> (\<forall>x. r \<noteq> Inr (Purged x))
    \<or> (\<exists>i ts. ack \<and> confirmed env now backups d (re_strip env token) s i ts
        \<and> purged (purge_of env d token op_hex hex i ts) (live_at s) v)"
  using assms(1-5)
proof (cases rule: purge_flight)
  case (untouched p)
  have "restored p (live_at s) v"
    using purge_change.settles(1) [OF assms(6,7)] untouched(2,3) by simp
  with untouched(1,4) show ?thesis by blast
next
  case (executed i ts p)
  note settle = purge_change.settles [OF assms(6,7)]
  show ?thesis
  proof (cases "removed env p (live_at s) t")
    case True
    with settle(2) executed(1,3,4) show ?thesis by blast
  next
    case False
    with executed(2,5) have "restored p (live_at s) v" using settle(1) by (simp add: in_flight_def)
    moreover have "r \<noteq> Inr (Purged x)" for x using executed(6) False by auto
    ultimately show ?thesis using executed(1) by blast
  qed
qed

end
