(* ===== verification/Retention_Example.thy ===== *)
theory Retention_Example
  imports Retention
begin

text \<open>
  An Instance with one document, at which the properties of the retention manager are
  instantiated: a document archived with a failing write, put into the trash and restored,
  and purged with a stop between two writes.
\<close>

text \<open>The large limits are compared as integers when the examples are evaluated.\<close>

lemma limits_code [code_unfold]:
  "MAX_PURGE_FILES < n \<longleftrightarrow> (100000 :: int) < int n" "n \<le> MAX_PURGE_FILES \<longleftrightarrow> int n \<le> 100000"
  "MAX_PURGE_STATE_SCAN_BYTES < n \<longleftrightarrow> (16777216 :: int) < int n" "n \<le> MAX_MANAGED_BACKUPS \<longleftrightarrow> int n \<le> 10000"
  "take MAX_MESSAGE_CHARS xs = (if int (length xs) \<le> 2000 then xs else take 2000 xs)"
  "take MAX_CODE_CHARS xs = (if int (length xs) \<le> 120 then xs else take 120 xs)"
  by (auto simp: MAX_MESSAGE_CHARS_def MAX_CODE_CHARS_def MAX_PURGE_FILES_def MAX_PURGE_STATE_SCAN_BYTES_def MAX_MANAGED_BACKUPS_def)

definition env_r :: retention_env where
  "env_r = \<lparr>re_uuid5 = (\<lambda>_. replicate 32 (CHR ''5'')), re_sha = (\<lambda>_. replicate 64 (CHR ''b'')), re_bytes = (\<lambda>_. ''x''), re_canon = (\<lambda>_. []),
     re_str = (\<lambda>_. []), re_strip = (\<lambda>x. x), re_parse_time = (\<lambda>_. Some 0), re_iso = (\<lambda>_. ''t''),
     re_inspect = (\<lambda>_. (True, replicate 64 (CHR ''a''))), re_views = (\<lambda>_. [])\<rparr>"

definition doc_r :: string where "doc_r = ''doc_'' @ replicate 32 (CHR ''1'')"

definition file_r :: content where
  "file_r = Json (JObj [(''id'', JStr doc_r), (''title'', JStr ''a letter'')])"

definition store_r :: "fate list \<Rightarrow> rstore" where
  "store_r fs = \<lparr>rs_files = [(canonical_path ''documents'' doc_r, file_r)], rs_stages = [], rs_previews = [],
     rs_pending = No_pending, rs_fates = fs\<rparr>"

definition failure_text :: "retention_error \<Rightarrow> string" where "failure_text e = ''failed''"

definition change_r :: "ret_action \<Rightarrow> transition_outcome ract" where
  "change_r a = transition env_r (replicate 32 (CHR ''4'')) ''t'' failure_text doc_r a"

lemma env_r_uuids: "uuids_ok env_r"
  by (simp add: uuids_ok_def env_r_def list_all_iff hexchar_def)

lemma store_r_quiet: "rs_pending (store_r fs) = No_pending"
  by (simp add: store_r_def)

lemma store_r_readable: "records_readable env_r (rs_files (store_r fs))"
proof -
  have "disposition_records env_r (rs_files (store_r fs)) = Inr []" unfolding store_r_def by code_simp
  moreover have "distinct (map fst (knowledge (rs_files (store_r fs)))) \<and> files_named env_r (knowledge (rs_files (store_r fs)))"
    unfolding store_r_def by code_simp
  ultimately show ?thesis by (simp add: records_readable_def)
qed

lemma trash_r:
  "(case change_r Trash (store_r []) of (Inr out, t) \<Rightarrow> to_changed out \<and>
     (case change_r Restore_from_trash (t\<lparr>rs_fates := []\<rparr>) of (Inr out', u) \<Rightarrow> to_changed out' | _ \<Rightarrow> False)
   | _ \<Rightarrow> False)"
  by code_simp

lemma trashed_r:
  obtains out t out' u where "change_r Trash (store_r []) = (Inr out, t)" and "to_changed out"
    and "change_r Restore_from_trash (t\<lparr>rs_fates := []\<rparr>) = (Inr out', u)"
  using trash_r by (auto split: prod.splits sum.splits)

lemma failing_r: "case change_r Archive (store_r [Goes, Goes, Fails]) of (Inl e, t) \<Rightarrow> e = Ret_io | _ \<Rightarrow> False"
  by code_simp

section \<open>Dispositions\<close>

lemma transition_takes_effect_witness:
  "\<exists>out t. change_r Trash (store_r []) = (Inr out, t) \<and> to_changed out
    \<and> get_disposition env_r doc_r (rs_files t) = Inr (Some (to_disposition out))"
proof (rule trashed_r)
  fix out t out' u
  assume run: "change_r Trash (store_r []) = (Inr out, t)" and "to_changed out"
  from transition_takes_effect [OF run [unfolded change_r_def] store_r_quiet env_r_uuids store_r_readable]
  have "get_disposition env_r doc_r (rs_files t) = Inr (Some (to_disposition out))" by blast
  with run \<open>to_changed out\<close> show ?thesis by blast
qed

lemma dispositions_stay_readable_witness:
  "\<exists>e t. change_r Archive (store_r [Goes, Goes, Fails]) = (Inl e, t) \<and> records_readable env_r (rs_files t)"
proof -
  obtain e t where run: "change_r Archive (store_r [Goes, Goes, Fails]) = (Inl e, t)"
    using failing_r by (auto split: prod.splits sum.splits)
  from dispositions_stay_readable [OF run [unfolded change_r_def] store_r_quiet env_r_uuids store_r_readable]
  show ?thesis using run by blast
qed

lemma failed_change_is_undone_witness:
  "\<exists>e t. change_r Archive (store_r [Goes, Goes, Fails]) = (Inl e, t)
    \<and> knowledge (rs_files t) = knowledge (rs_files (store_r []))"
proof -
  obtain e t where run: "change_r Archive (store_r [Goes, Goes, Fails]) = (Inl e, t)"
    using failing_r by (auto split: prod.splits sum.splits)
  have "rs_fates (store_r [Goes, Goes, Fails]) = replicate 2 Goes @ [Fails]" by (simp add: store_r_def numeral_2_eq_2)
  from failed_change_is_undone [OF run [unfolded change_r_def] store_r_quiet this]
  have "knowledge (rs_files t) = knowledge (rs_files (store_r [Goes, Goes, Fails]))" by simp
  with run show ?thesis by (simp add: store_r_def)
qed

lemma trash_gives_back_witness:
  "\<exists>out t out' u. change_r Trash (store_r []) = (Inr out, t)
    \<and> change_r Restore_from_trash (t\<lparr>rs_fates := []\<rparr>) = (Inr out', u)
    \<and> disposition_state (to_disposition out') = (''active'', ''included'', JNull, JNull)"
proof (rule trashed_r)
  fix out t out' u
  assume run: "change_r Trash (store_r []) = (Inr out, t)"
    and run': "change_r Restore_from_trash (t\<lparr>rs_fates := []\<rparr>) = (Inr out', u)"
  let ?cur = "current_disposition env_r doc_r []"
  have cur: "get_disposition env_r doc_r (rs_files (store_r [])) = Inr (Some ?cur)" by code_simp
  have st: "disposition_state ?cur = (''active'', ''included'', JNull, JNull)" "jget ?cur ''status'' \<noteq> JStr ''trashed''"
    by code_simp+
  from trash_gives_back [OF run [unfolded change_r_def] run' [unfolded change_r_def] cur st(2) store_r_quiet env_r_uuids
      store_r_readable]
  have "disposition_state (to_disposition out') = (''active'', ''included'', JNull, JNull)" using st(1) by simp
  with run run' show ?thesis by blast
qed

section \<open>The purge\<close>

definition trashed_file :: content where
  "trashed_file = Json (new_disposition env_r doc_r (default_disposition env_r doc_r)
     (''trashed'', ''excluded'', JStr ''active'', JStr ''included'') ''t'' (''op_'' @ replicate 32 (CHR ''4'')))"

definition preview_r :: purge_preview where
  "preview_r = \<lparr>pv_token = replicate 64 (CHR ''b''), pv_document = doc_r, pv_revision = 1,
     pv_fingerprint = replicate 64 (CHR ''a''), pv_impact = replicate 64 (CHR ''b''),
     pv_inventory = replicate 64 (CHR ''b''), pv_created = 0, pv_expires = PURGE_PREVIEW_TTL\<rparr>"

definition store_p :: "fate list \<Rightarrow> rstore" where
  "store_p fs = \<lparr>rs_files = [(canonical_path ''documents'' doc_r, file_r), (disposition_path env_r doc_r, trashed_file)],
     rs_stages = [], rs_previews = [(replicate 64 (CHR ''b''), preview_r)], rs_pending = No_pending, rs_fates = fs\<rparr>"

definition purge_r :: "purge_outcome ract" where
  "purge_r = purge env_r (replicate 32 (CHR ''6'')) (replicate 32 (CHR ''7'')) 5 0 failure_text doc_r ''token'' True"

lemma purged_r: "case purge_r (store_p []) of (Inr (Purged x), t) \<Rightarrow> True | _ \<Rightarrow> False"
  by code_simp

text \<open>The process stops after one of the two files is staged.\<close>

lemma stopped_r:
  "case purge_r (store_p [Goes, Goes, Goes, Goes, Stops]) of (Inl e, t) \<Rightarrow> e = Ret_stop \<and>
     (case recover_pending env_r ''t'' (t\<lparr>rs_fates := []\<rparr>) of (Inr (Some Restored_state), v) \<Rightarrow> True | _ \<Rightarrow> False)
   | _ \<Rightarrow> False"
  by code_simp

lemma store_p_clear:
  "\<forall>i ts. purge_impact env_r 0 doc_r (store_p fs) = (Inr (i, ts), store_p fs) \<longrightarrow> (\<forall>x \<in> set ts.
     \<not> derived_path (pt_path x) \<and> pt_path x \<noteq> receipt_path (re_sha env_r (re_strip env_r ''token'')))"
proof -
  have "case purge_impact env_r 0 doc_r (store_p fs) of (Inr (i, ts), t) \<Rightarrow> (\<forall>x \<in> set ts.
     \<not> derived_path (pt_path x) \<and> pt_path x \<noteq> receipt_path (re_sha env_r (re_strip env_r ''token''))) | _ \<Rightarrow> False"
    by code_simp
  then show ?thesis by auto
qed

lemma purge_needs_confirmation_witness:
  "\<exists>x t s' i ts. purge_r (store_p []) = (Inr (Purged x), t) \<and> confirmed env_r 5 0 doc_r ''token'' s' i ts"
proof -
  obtain x t where run: "purge_r (store_p []) = (Inr (Purged x), t)"
    using purged_r by (auto split: prod.splits sum.splits purge_outcome.splits)
  from purge_needs_confirmation [OF run [unfolded purge_r_def]]
  show ?thesis using run by (auto simp: env_r_def)
qed

lemma purge_is_atomic_witness:
  "\<exists>t v. purge_r (store_p [Goes, Goes, Goes, Goes, Stops]) = (Inl Ret_stop, t)
    \<and> recover_pending env_r ''t'' (t\<lparr>rs_fates := []\<rparr>) = (Inr (Some Restored_state), v)
    \<and> rs_pending v = No_pending"
proof -
  let ?s = "store_p [Goes, Goes, Goes, Goes, Stops]"
  obtain t v where run: "purge_r ?s = (Inl Ret_stop, t)"
    and rec: "recover_pending env_r ''t'' (t\<lparr>rs_fates := []\<rparr>) = (Inr (Some Restored_state), v)"
    using stopped_r by (auto split: prod.splits sum.splits option.splits recovery_action.splits)
  have s: "rs_pending ?s = No_pending" "map_of (rs_stages ?s) (''state/locks/.purge-stage-'' @ replicate 32 (CHR ''7'')) = None"
    "map_of (rs_files ?s) (operation_path (''op_'' @ replicate 32 (CHR ''6''))) = None"
    by code_simp+
  from purge_is_atomic [OF run [unfolded purge_r_def] s store_p_clear recovered.none_yet rec]
  have "rs_pending v = No_pending" by (auto simp: restored_def purged_def)
  with run rec show ?thesis by blast
qed

end
