(* ===== verification/Capture_Requests.thy ===== *)
theory Capture_Requests
  imports Atomic_Commit
begin

text \<open>
  The identity of a capture submission (core/provelume/capture_requests.py): the metadata that a
  device declares, the key of a submission within its device, and the fingerprint that binds
  payload and metadata. Texts are lists of UTF-8 bytes; a text that UTF-8 cannot encode does
  not occur.
\<close>

section \<open>Vocabulary\<close>

datatype capture_error =
    Request_error string
  | Journal_error string
  | Denied string
  | Commit_failed ac_error

record capture_meta =
  cm_client :: string
  cm_captured_at :: string
  cm_mode :: string
  cm_channel :: string
  cm_note :: "string option"
  cm_area :: "string option"
  cm_project :: "string option"
  cm_filename :: "string option"
  cm_mime :: "string option"

text \<open>
  What this part takes from its surroundings: the digest, ISO times (None for a text that is no
  time, otherwise whether it has an offset), and the JSON text of metadata with sorted fields.
\<close>

record request_env =
  cr_sha :: "bytes \<Rightarrow> string"
  cr_iso :: "string \<Rightarrow> bool option"
  cr_dumps :: "capture_meta \<Rightarrow> bytes"

definition MAX_FILE_BYTES :: nat where "MAX_FILE_BYTES = 25 * 1024 * 1024"

definition CAPTURE_MODES :: "string list" where
  "CAPTURE_MODES = [''file'', ''photo'', ''scan'', ''screenshot'', ''pdf'', ''url'', ''text'', ''audio'', ''voice_note'']"

definition CAPTURE_CHANNELS :: "string list" where
  "CAPTURE_CHANNELS = [''local_browser'', ''paired_pwa'']"

definition REQUIRED_FIELDS :: "string list" where
  "REQUIRED_FIELDS = [''schema_version'', ''client_submission_id'', ''captured_at'', ''mode'', ''channel'']"

definition OPTIONAL_FIELDS :: "string list" where
  "OPTIONAL_FIELDS = [''note'', ''area_id'', ''project_id'', ''filename'', ''declared_mime'']"

definition device_ok :: "string \<Rightarrow> bool" where "device_ok = prefixed_hex ''dev_'' 32"

section \<open>Texts\<close>

text \<open>No control character: below 32, 127, or between U+0080 and U+009F, which starts with the byte C2.\<close>

fun control_free :: "bool \<Rightarrow> string \<Rightarrow> bool" where
  "control_free multiline [] = True"
| "control_free multiline (c # cs) =
     ((32 \<le> (of_char c :: nat) \<or> multiline \<and> (of_char c :: nat) \<in> {9, 10}) \<and> (of_char c :: nat) \<noteq> 127
      \<and> \<not> ((of_char c :: nat) = 194 \<and> cs \<noteq> [] \<and> 128 \<le> (of_char (hd cs) :: nat) \<and> (of_char (hd cs) :: nat) < 160)
      \<and> control_free multiline cs)"

definition bounded_text :: "nat \<Rightarrow> bool \<Rightarrow> json \<Rightarrow> capture_error + string" where
  "bounded_text limit multiline j = (case j of
       JStr s \<Rightarrow> if length s > limit \<or> \<not> control_free multiline s
                 then Inl (Request_error ''Capture metadata exceeds its text boundary'') else Inr s
     | _ \<Rightarrow> Inl (Request_error ''Capture metadata must use bounded text''))"

text \<open>The text of a random UUID as Python prints it.\<close>

definition uuid4_text :: "string \<Rightarrow> bool" where
  "uuid4_text s \<longleftrightarrow> length s = 36
     \<and> list_all (\<lambda>i. if i \<in> {8, 13, 18, 23} then s ! i = CHR ''-'' else hexchar (s ! i)) [0..<36]
     \<and> s ! 14 = CHR ''4'' \<and> s ! 19 \<in> set ''89ab''"

definition zulu :: "string \<Rightarrow> string" where
  "zulu s = concat (map (\<lambda>c. if c = CHR ''Z'' then ''+00:00'' else [c]) s)"

definition mime_part :: "string \<Rightarrow> bool" where
  "mime_part s \<longleftrightarrow> (case s of [] \<Rightarrow> False | c # cs \<Rightarrow>
       c \<in> set ''abcdefghijklmnopqrstuvwxyz0123456789''
     \<and> list_all (\<lambda>x. x \<in> set ''abcdefghijklmnopqrstuvwxyz0123456789!#$&^_.+-'') cs)"

definition mime_ok :: "string \<Rightarrow> bool" where
  "mime_ok s \<longleftrightarrow> (case split_slash [] s of [a, b] \<Rightarrow> mime_part a \<and> mime_part b | _ \<Rightarrow> False)"

section \<open>Metadata\<close>

definition fails_unless :: "bool \<Rightarrow> string \<Rightarrow> (capture_error + 'a) \<Rightarrow> capture_error + 'a" where
  "fails_unless b msg r = (if b then r else Inl (Request_error msg))"

definition and_then :: "capture_error + 'a \<Rightarrow> ('a \<Rightarrow> capture_error + 'b) \<Rightarrow> capture_error + 'b" where
  "and_then r k = (case r of Inl e \<Rightarrow> Inl e | Inr x \<Rightarrow> k x)"

definition optional_field ::
  "json \<Rightarrow> string \<Rightarrow> (json \<Rightarrow> capture_error + string) \<Rightarrow> capture_error + string option" where
  "optional_field v k f = (if has_key k v then and_then (f (jget v k)) (\<lambda>x. Inr (Some x)) else Inr None)"

definition reference_field :: "string \<Rightarrow> json \<Rightarrow> capture_error + string" where
  "reference_field prefix j = (case j of
       JStr s \<Rightarrow> fails_unless (prefixed_hex prefix 32 s) ''Invalid Capture proposal reference'' (Inr s)
     | _ \<Rightarrow> Inl (Request_error ''Invalid Capture proposal reference''))"

definition filename_field :: "json \<Rightarrow> capture_error + string" where
  "filename_field j = and_then (bounded_text 255 False j) (\<lambda>s.
     fails_unless (s \<noteq> [] \<and> s \<notin> {''.'', ''..''} \<and> CHR ''/'' \<notin> set s \<and> CHR 0x5C \<notin> set s)
       ''Capture filename must be a display basename'' (Inr s))"

definition mime_field :: "json \<Rightarrow> capture_error + string" where
  "mime_field j = and_then (bounded_text 127 False j) (\<lambda>s.
     fails_unless (mime_ok s) ''Invalid declared Capture media type'' (Inr s))"

definition choice_field :: "string list \<Rightarrow> string \<Rightarrow> json \<Rightarrow> capture_error + string" where
  "choice_field xs msg j = (case j of JStr s \<Rightarrow> fails_unless (s \<in> set xs) msg (Inr s) | _ \<Rightarrow> Inl (Request_error msg))"

definition captured_field :: "request_env \<Rightarrow> json \<Rightarrow> capture_error + string" where
  "captured_field env j = and_then (bounded_text 40 False j) (\<lambda>s.
     fails_unless (CHR ''T'' \<in> set s \<and> cr_iso env (zulu s) = Some True)
       ''Capture time must include an explicit offset'' (Inr s))"

definition validate_capture_metadata :: "request_env \<Rightarrow> string \<Rightarrow> json \<Rightarrow> capture_error + capture_meta" where
  "validate_capture_metadata env transport v = (case v of
     JObj kvs \<Rightarrow>
       fails_unless (set REQUIRED_FIELDS \<subseteq> fst ` set kvs) ''Capture metadata is incomplete''
      (fails_unless (fst ` set kvs \<subseteq> set REQUIRED_FIELDS \<union> set OPTIONAL_FIELDS) ''Capture metadata contains unsupported fields''
      (fails_unless (jget v ''schema_version'' = JInt 1) ''Unsupported Capture request schema''
      (and_then (bounded_text 36 False (jget v ''client_submission_id'')) (\<lambda>client.
       fails_unless (uuid4_text client) ''Capture identity must be a canonical UUID4''
      (and_then (captured_field env (jget v ''captured_at'')) (\<lambda>captured.
       and_then (choice_field CAPTURE_MODES ''Unsupported Capture mode'' (jget v ''mode'')) (\<lambda>mode.
       and_then (choice_field CAPTURE_CHANNELS ''Unsupported Capture channel'' (jget v ''channel'')) (\<lambda>channel.
       fails_unless (transport \<in> set CAPTURE_CHANNELS \<and> channel = transport) ''Capture channel must match its authenticated transport''
      (and_then (optional_field v ''area_id'' (reference_field ''area_'')) (\<lambda>area.
       and_then (optional_field v ''project_id'' (reference_field ''project_'')) (\<lambda>project.
       and_then (optional_field v ''note'' (bounded_text 4096 True)) (\<lambda>note.
       and_then (optional_field v ''filename'' filename_field) (\<lambda>name.
       and_then (optional_field v ''declared_mime'' mime_field) (\<lambda>mime.
         Inr \<lparr>cm_client = client, cm_captured_at = captured, cm_mode = mode, cm_channel = channel, cm_note = note,
              cm_area = area, cm_project = project, cm_filename = name, cm_mime = mime\<rparr>))))))))))))))
   | _ \<Rightarrow> Inl (Request_error ''Capture metadata is incomplete''))"

text \<open>The JSON value of validated metadata, with its fields sorted.\<close>

definition opt_field :: "string \<Rightarrow> string option \<Rightarrow> (string \<times> json) list" where
  "opt_field k x = (case x of None \<Rightarrow> [] | Some s \<Rightarrow> [(k, JStr s)])"

definition meta_json :: "capture_meta \<Rightarrow> json" where
  "meta_json m = JObj (opt_field ''area_id'' (cm_area m)
     @ [(''captured_at'', JStr (cm_captured_at m)), (''channel'', JStr (cm_channel m)),
        (''client_submission_id'', JStr (cm_client m))]
     @ opt_field ''declared_mime'' (cm_mime m) @ opt_field ''filename'' (cm_filename m)
     @ [(''mode'', JStr (cm_mode m))] @ opt_field ''note'' (cm_note m) @ opt_field ''project_id'' (cm_project m)
     @ [(''schema_version'', JInt 1)])"

section \<open>Keys and fingerprints\<close>

definition capture_scope_key :: "request_env \<Rightarrow> string \<Rightarrow> json \<Rightarrow> capture_error + string" where
  "capture_scope_key env device client =
     fails_unless (device_ok device) ''Invalid authenticated Capture device identity''
     (case client of
        JStr c \<Rightarrow> fails_unless (uuid4_text c) ''Invalid Capture occurrence identity''
                    (Inr (''capture_'' @ cr_sha env (device @ [CHR 0x00] @ c)))
      | _ \<Rightarrow> Inl (Request_error ''Invalid Capture occurrence identity''))"

definition be8 :: "nat \<Rightarrow> bytes" where
  "be8 n = map (\<lambda>i. char_of (n div 256 ^ i mod 256)) (rev [0..<8])"

definition frame :: "bytes \<Rightarrow> bytes \<Rightarrow> bytes" where
  "frame encoded payload = be8 (length encoded) @ encoded @ payload"

definition capture_payload_fingerprint ::
  "request_env \<Rightarrow> bytes \<Rightarrow> json \<Rightarrow> string \<Rightarrow> capture_error + string" where
  "capture_payload_fingerprint env payload metadata transport =
     fails_unless (length payload \<le> MAX_FILE_BYTES) ''Capture payload exceeds its bounded identity input''
     (and_then (validate_capture_metadata env transport metadata) (\<lambda>m.
        Inr (cr_sha env (frame (cr_dumps env m) payload))))"

section \<open>Facts\<close>

lemma and_then_Inr [simp]: "and_then r k = Inr y \<longleftrightarrow> (\<exists>x. r = Inr x \<and> k x = Inr y)"
  by (cases r) (auto simp: and_then_def)

lemma fails_unless_Inr [simp]: "fails_unless b msg r = Inr y \<longleftrightarrow> b \<and> r = Inr y"
  by (auto simp: fails_unless_def)

lemma jget_parts:
  "jget (JObj (xs @ ys)) k = (case map_of xs k of None \<Rightarrow> jget (JObj ys) k | Some v \<Rightarrow> v)"
  by (simp add: map_add_def split: option.split)

lemma opt_look: "map_of (opt_field k x) k' = (if k' = k then map_option JStr x else None)"
  by (auto simp: opt_field_def split: option.split)

lemma opt_keys: "fst ` set (opt_field k x) = (if x = None then {} else {k})"
  by (auto simp: opt_field_def split: option.split)

definition text_or_null :: "string option \<Rightarrow> json" where
  "text_or_null x = (case x of None \<Rightarrow> JNull | Some s \<Rightarrow> JStr s)"

lemma meta_fields:
  "jget (meta_json m) ''schema_version'' = JInt 1"
  "jget (meta_json m) ''client_submission_id'' = JStr (cm_client m)"
  "jget (meta_json m) ''captured_at'' = JStr (cm_captured_at m)"
  "jget (meta_json m) ''mode'' = JStr (cm_mode m)"
  "jget (meta_json m) ''channel'' = JStr (cm_channel m)"
  "jget (meta_json m) ''area_id'' = text_or_null (cm_area m)"
  "jget (meta_json m) ''project_id'' = text_or_null (cm_project m)"
  "jget (meta_json m) ''note'' = text_or_null (cm_note m)"
  "jget (meta_json m) ''filename'' = text_or_null (cm_filename m)"
  "jget (meta_json m) ''declared_mime'' = text_or_null (cm_mime m)"
  by (simp_all add: meta_json_def opt_look map_add_def text_or_null_def split: option.split)

lemma meta_keys:
  "has_key ''area_id'' (meta_json m) \<longleftrightarrow> cm_area m \<noteq> None"
  "has_key ''project_id'' (meta_json m) \<longleftrightarrow> cm_project m \<noteq> None"
  "has_key ''note'' (meta_json m) \<longleftrightarrow> cm_note m \<noteq> None"
  "has_key ''filename'' (meta_json m) \<longleftrightarrow> cm_filename m \<noteq> None"
  "has_key ''declared_mime'' (meta_json m) \<longleftrightarrow> cm_mime m \<noteq> None"
  by (simp_all add: meta_json_def opt_keys image_Un)

lemma bounded_text_again: "bounded_text n b j = Inr s \<Longrightarrow> bounded_text n b (JStr s) = Inr s"
  by (auto simp: bounded_text_def split: json.splits if_splits)

lemma fields_again:
  "reference_field p j = Inr s \<Longrightarrow> reference_field p (JStr s) = Inr s"
  "filename_field j = Inr s \<Longrightarrow> filename_field (JStr s) = Inr s"
  "mime_field j = Inr s \<Longrightarrow> mime_field (JStr s) = Inr s"
  "choice_field xs msg j = Inr s \<Longrightarrow> choice_field xs msg (JStr s) = Inr s"
  "captured_field env j = Inr s \<Longrightarrow> captured_field env (JStr s) = Inr s"
  by (auto simp: reference_field_def filename_field_def mime_field_def choice_field_def captured_field_def
      dest: bounded_text_again split: json.splits)

lemma optional_again:
  assumes "optional_field v k f = Inr x" and "has_key k w \<longleftrightarrow> x \<noteq> None" and "jget w k = text_or_null x"
    and "\<And>j s. f j = Inr s \<Longrightarrow> f (JStr s) = Inr s"
  shows "optional_field w k f = Inr x"
  using assms by (auto simp: optional_field_def text_or_null_def split: if_splits)

text \<open>Validated metadata passes its own validation again, as the same metadata.\<close>

lemma metadata_revalidates:
  assumes "validate_capture_metadata env transport v = Inr m"
  shows "validate_capture_metadata env transport (meta_json m) = Inr m"
proof -
  let ?j = "meta_json m"
  obtain kvs where v: "v = JObj kvs" using assms by (cases v) (auto simp: validate_capture_metadata_def)
  note facts = assms [unfolded validate_capture_metadata_def v json.case fails_unless_Inr and_then_Inr]
  from facts have base: "uuid4_text (cm_client m)" "bounded_text 36 False (JStr (cm_client m)) = Inr (cm_client m)"
    "captured_field env (JStr (cm_captured_at m)) = Inr (cm_captured_at m)"
    "choice_field CAPTURE_MODES ''Unsupported Capture mode'' (JStr (cm_mode m)) = Inr (cm_mode m)"
    "choice_field CAPTURE_CHANNELS ''Unsupported Capture channel'' (JStr (cm_channel m)) = Inr (cm_channel m)"
    "transport \<in> set CAPTURE_CHANNELS" "cm_channel m = transport"
    using bounded_text_again fields_again by auto
  from facts have opts: "optional_field ?j ''area_id'' (reference_field ''area_'') = Inr (cm_area m)"
    "optional_field ?j ''project_id'' (reference_field ''project_'') = Inr (cm_project m)"
    "optional_field ?j ''note'' (bounded_text 4096 True) = Inr (cm_note m)"
    "optional_field ?j ''filename'' filename_field = Inr (cm_filename m)"
    "optional_field ?j ''declared_mime'' mime_field = Inr (cm_mime m)"
    by (auto intro: optional_again [OF _ meta_keys(1) meta_fields(6)] optional_again [OF _ meta_keys(2) meta_fields(7)]
        optional_again [OF _ meta_keys(3) meta_fields(8)] optional_again [OF _ meta_keys(4) meta_fields(9)]
        optional_again [OF _ meta_keys(5) meta_fields(10)] fields_again bounded_text_again)
  have keys: "\<exists>kvs. ?j = JObj kvs \<and> set REQUIRED_FIELDS \<subseteq> fst ` set kvs
      \<and> fst ` set kvs \<subseteq> set REQUIRED_FIELDS \<union> set OPTIONAL_FIELDS"
    by (auto simp: meta_json_def REQUIRED_FIELDS_def OPTIONAL_FIELDS_def image_Un opt_keys)
  then obtain ks where j: "?j = JObj ks" and k: "set REQUIRED_FIELDS \<subseteq> fst ` set ks"
    "fst ` set ks \<subseteq> set REQUIRED_FIELDS \<union> set OPTIONAL_FIELDS" by blast
  have "validate_capture_metadata env transport (JObj ks) = Inr m"
    unfolding validate_capture_metadata_def json.case fails_unless_Inr and_then_Inr
    using base opts k unfolding j [symmetric] meta_fields by (intro conjI exI) auto
  then show ?thesis unfolding j .
qed

lemma digits_mod:
  fixes m n :: nat
  assumes "\<forall>i < k. m div 256 ^ i mod 256 = n div 256 ^ i mod 256"
  shows "m mod 256 ^ k = n mod 256 ^ k"
  using assms
proof (induction k)
  case (Suc k)
  have split: "x mod 256 ^ Suc k = x mod 256 ^ k + 256 ^ k * (x div 256 ^ k mod 256)" for x :: nat
    using mod_mult2_eq [of x "256 ^ k" 256] by (simp add: mult.commute)
  show ?case using Suc by (simp only: split) simp
qed simp

lemma be8_inj:
  assumes "be8 m = be8 n" and "m < 256 ^ 8" and "n < 256 ^ 8"
  shows "m = n"
proof -
  have "char_of (m div 256 ^ i mod 256) = (char_of (n div 256 ^ i mod 256) :: char)" if "i < 8" for i
    using assms(1) that unfolding be8_def map_eq_conv by simp
  then have "m div 256 ^ i mod 256 = n div 256 ^ i mod 256" if "i < 8" for i
    using that of_char_of [of "m div 256 ^ i mod 256"] of_char_of [of "n div 256 ^ i mod 256"] by (metis mod_mod_trivial)
  then have "m mod 256 ^ 8 = n mod 256 ^ 8" by (intro digits_mod) blast
  then show ?thesis using assms(2,3) by simp
qed

lemma frame_inj:
  assumes "frame e p = frame e' p'" and "length e < 256 ^ 8" and "length e' < 256 ^ 8"
  shows "e = e' \<and> p = p'"
proof -
  have len: "length (be8 k) = 8" for k by (simp add: be8_def)
  have "be8 (length e) = be8 (length e')" "e @ p = e' @ p'"
    using assms(1) append_eq_append_conv [of "be8 (length e)" "be8 (length e')"] by (simp_all add: frame_def len)
  with be8_inj [of "length e" "length e'"] assms(2,3) show ?thesis by simp
qed

end
