(* ===== verification/Capture_Journal.thy ===== *)
theory Capture_Journal
  imports Capture_Requests Atomic_Opening
begin

text \<open>
  The journal of capture submissions (core/provelume/capture_journal.py, class CaptureJournal):
  one immutable file per submission, written by an atomic commit; the inventory that validates
  every file, the lookup of a receipt, the submission, and the recovery of an interrupted one.
  The lifecycle lock makes one call run at a time.
\<close>

section \<open>Records\<close>

record capture_receipt =
  cx_id :: string
  cx_device :: string
  cx_metadata :: json
  cx_fingerprint :: string
  cx_received :: string

record submission =
  cs_instance :: string
  cs_receipt :: capture_receipt
  cs_payload :: bytes

text \<open>
  The text of a submission in its file and its parser, which checks the fields, the constant
  values of schema and status and the Base64 text of the payload; the identity of the Instance;
  and the directories of the devices with their files, in the order in which the file system lists
  them, None while the directory of the journal does not exist.
\<close>

record capture_env =
  ca_commit :: commit_env
  ca_request :: request_env
  ca_text :: "submission \<Rightarrow> bytes"
  ca_load :: "bytes \<Rightarrow> submission option"
  ca_instance :: string
  ca_scan :: "files \<Rightarrow> (string \<times> string list) list option"

type_synonym 'a cact = "(disk, capture_error, 'a) act"

definition MAX_RECORD_BYTES :: nat where "MAX_RECORD_BYTES = 36 * 1024 * 1024"
definition MAX_JOURNAL_BYTES :: nat where "MAX_JOURNAL_BYTES = 128 * 1024 * 1024"
definition MAX_RECORDS :: nat where "MAX_RECORDS = 128"

definition CAPTURE_PROFILE :: profile where
  "CAPTURE_PROFILE = \<lparr>pf_key = ''capture'', pf_kind = ''capture.submission'', pf_owner = ''capture_'',
     pf_owner_digits = 64,
     pf_limits = \<lparr>max_entries = 1, max_entry_bytes = MAX_RECORD_BYTES, max_candidate_bytes = MAX_RECORD_BYTES,
                  max_preimage_bytes = 1, max_journal_bytes = MAX_RECORD_BYTES\<rparr>\<rparr>"

definition record_path :: "string \<Rightarrow> string \<Rightarrow> string" where
  "record_path device name = ''state/capture/'' @ device @ ''/'' @ name"

definition capture_path :: "string \<Rightarrow> string \<Rightarrow> string" where
  "capture_path device key = record_path device (key @ ''.json'')"

definition record_name_ok :: "string \<Rightarrow> bool" where
  "record_name_ok name \<longleftrightarrow> prefixed_hex ''capture_'' 64 (take 72 name) \<and> drop 72 name = ''.json''"

definition capture_path_ok :: "string \<Rightarrow> bool" where
  "capture_path_ok p \<longleftrightarrow> (case split_slash [] p of
       [a, b, device, name] \<Rightarrow> a = ''state'' \<and> b = ''capture'' \<and> device_ok device \<and> record_name_ok name
     | _ \<Rightarrow> False)"

definition invalid_record :: capture_error where
  "invalid_record = Journal_error ''invalid Capture record''"

definition lift_text :: "json \<Rightarrow> string" where
  "lift_text j = (case j of JStr s \<Rightarrow> s | _ \<Rightarrow> [])"

definition validate_submission :: "capture_env \<Rightarrow> bytes \<Rightarrow> string \<Rightarrow> capture_error + submission" where
  "validate_submission env data relative =
     (case ca_load env data of
        None \<Rightarrow> Inl invalid_record
      | Some v \<Rightarrow>
          let r = cs_receipt v; meta = cx_metadata r; re = ca_request env in
          (case capture_scope_key re (cx_device r) (jget meta ''client_submission_id'') of
             Inl _ \<Rightarrow> Inl invalid_record
           | Inr key \<Rightarrow>
               (case capture_payload_fingerprint re (cs_payload v) meta (lift_text (jget meta ''channel'')) of
                  Inl _ \<Rightarrow> Inl invalid_record
                | Inr fingerprint \<Rightarrow>
                    if cs_instance v = ca_instance env \<and> relative = capture_path (cx_device r) key
                     \<and> cx_id r = key \<and> cr_iso re (cx_received r) = Some True \<and> cx_fingerprint r = fingerprint
                    then Inr v else Inl invalid_record)))"

section \<open>The inventory\<close>

type_synonym tally = "(string \<times> submission) list \<times> nat"

fun scan_records :: "capture_env \<Rightarrow> files \<Rightarrow> string \<Rightarrow> string list \<Rightarrow> tally \<Rightarrow> capture_error + tally" where
  "scan_records env L device [] st = Inr st"
| "scan_records env L device (name # names) (found, used) =
     (let p = record_path device name in
      if length found \<ge> MAX_RECORDS \<or> \<not> capture_path_ok p
      then Inl (Journal_error ''invalid or full Capture inventory'')
      else case L p of
        None \<Rightarrow> Inl (Journal_error ''unsafe or unavailable Capture path'')
      | Some data \<Rightarrow>
          if length data > min MAX_RECORD_BYTES (MAX_JOURNAL_BYTES - used)
          then Inl (Journal_error ''invalid Capture record size or kind'')
          else case validate_submission env data p of
            Inl e \<Rightarrow> Inl e
          | Inr v \<Rightarrow> scan_records env L device names (found @ [(p, v)], used + length data))"

fun scan_devices ::
  "capture_env \<Rightarrow> files \<Rightarrow> nat \<Rightarrow> (string \<times> string list) list \<Rightarrow> tally \<Rightarrow> capture_error + tally" where
  "scan_devices env L index [] st = Inr st"
| "scan_devices env L index ((device, names) # rest) st =
     (if index \<ge> MAX_RECORDS \<or> \<not> device_ok device
      then Inl (Journal_error ''invalid or full Capture device inventory'')
      else case scan_records env L device names st of
        Inl e \<Rightarrow> Inl e
      | Inr st' \<Rightarrow> scan_devices env L (index + 1) rest st')"

definition inventory :: "capture_env \<Rightarrow> files \<Rightarrow> capture_error + (string \<times> submission) list" where
  "inventory env L =
     (case ca_scan env L of
        None \<Rightarrow> Inr []
      | Some devices \<Rightarrow>
          if ca_instance env = [] then Inl (Journal_error ''Capture Instance identity unavailable'')
          else (case scan_devices env L 0 devices ([], 0) of Inl e \<Rightarrow> Inl e | Inr (found, _) \<Rightarrow> Inr found))"

section \<open>Reading\<close>

definition blocks_reading :: "string \<Rightarrow> bool" where
  "blocks_reading i \<longleftrightarrow> take 8 i = ''capture-'' \<or> take 17 i = ''device-authority-'' \<or> take 22 i = ''submission-quarantine-''"

definition read_ready :: "unit cact" where
  "read_ready = bindA (reads d_stages) (\<lambda>st.
     require (\<not> list_ex (\<lambda>x. blocks_reading (fst x)) st)
       (Journal_error ''Capture recovery required before receipt lookup''))"

text \<open>A guard of the caller: \<open>Some\<close> why it refuses.\<close>

definition guard :: "string option \<Rightarrow> unit cact" where
  "guard x = (case x of None \<Rightarrow> ret () | Some why \<Rightarrow> raise (Denied why))"

definition lookup_receipt ::
  "capture_env \<Rightarrow> (string \<Rightarrow> string option) \<Rightarrow> string \<Rightarrow> json \<Rightarrow> capture_receipt option cact" where
  "lookup_receipt env authorize device client =
     bindA (of_result (capture_scope_key (ca_request env) device client)) (\<lambda>key.
     seqA (guard (authorize device))
     (seqA read_ready
     (bindA (query (\<lambda>s. inventory env (d_live s))) (\<lambda>found.
     seqA read_ready
       (ret (map_option cs_receipt (map_of found (capture_path device key))))))))"

definition list_receipts ::
  "capture_env \<Rightarrow> (string \<Rightarrow> string option) \<Rightarrow> string \<Rightarrow> capture_receipt list cact" where
  "list_receipts env authorize device =
     bindA (of_result (capture_scope_key (ca_request env) device (JStr ''00000000-0000-4000-8000-000000000000''))) (\<lambda>_.
     seqA (guard (authorize device))
     (seqA read_ready
     (bindA (query (\<lambda>s. inventory env (d_live s))) (\<lambda>found.
     seqA read_ready
       (ret (filter (\<lambda>r. cx_device r = device) (map (\<lambda>x. cs_receipt (snd x)) found)))))))"

section \<open>Submitting\<close>

definition in_commit :: "'a disk_act \<Rightarrow> 'a cact" where
  "in_commit m = (\<lambda>s. case m s of (Inl e, t) \<Rightarrow> (Inl (Commit_failed e), t) | (Inr x, t) \<Rightarrow> (Inr x, t))"

record capture_request =
  cq_device :: string
  cq_payload :: bytes
  cq_metadata :: json
  cq_channel :: string

record capture_guards =
  cg_authorize :: "string \<Rightarrow> string option"
  cg_payload :: "bytes \<Rightarrow> capture_meta \<Rightarrow> string option"
  cg_admission :: "nat \<Rightarrow> string option"

definition stored_metadata :: "capture_env \<Rightarrow> submission \<Rightarrow> capture_meta option" where
  "stored_metadata env v =
     (let meta = cx_metadata (cs_receipt v) in
      case validate_capture_metadata (ca_request env) (lift_text (jget meta ''channel'')) meta of
        Inl _ \<Rightarrow> None | Inr m \<Rightarrow> Some m)"

definition new_receipt :: "capture_request \<Rightarrow> capture_meta \<Rightarrow> string \<Rightarrow> string \<Rightarrow> string \<Rightarrow> capture_receipt" where
  "new_receipt q m key fingerprint now =
     \<lparr>cx_id = key, cx_device = cq_device q, cx_metadata = meta_json m, cx_fingerprint = fingerprint, cx_received = now\<rparr>"

definition replay_receipt ::
  "capture_env \<Rightarrow> capture_request \<Rightarrow> capture_meta \<Rightarrow> string \<Rightarrow> submission \<Rightarrow> capture_error + capture_receipt" where
  "replay_receipt env q m fingerprint previous =
     (let r = cs_receipt previous in
      if cx_device r \<noteq> cq_device q \<or> stored_metadata env previous \<noteq> Some m
       \<or> cs_payload previous \<noteq> cq_payload q \<or> cx_fingerprint r \<noteq> fingerprint
      then Inl (Journal_error ''conflicting Capture identity reuse'') else Inr r)"

definition sizes :: "files \<Rightarrow> (string \<times> 'a) list \<Rightarrow> nat" where
  "sizes L xs = sum_list (map (\<lambda>x. case L (fst x) of None \<Rightarrow> 0 | Some b \<Rightarrow> length b) xs)"

definition write_submission ::
  "capture_env \<Rightarrow> capture_guards \<Rightarrow> string \<Rightarrow> string \<Rightarrow> string \<Rightarrow> submission \<Rightarrow> capture_receipt cact" where
  "write_submission env g hex key relative v =
     (let data = ca_text env v in
      bindA (query (\<lambda>s. validate_submission env data relative)) (\<lambda>_.
      seqA (guard (cg_admission g (length data * 2 + 72 * 1024)))
      (bindA (in_commit (of_result (new_transaction CAPTURE_PROFILE key))) (\<lambda>t0.
       bindA (in_commit (of_result (add_write (ca_commit env) t0 relative data True))) (\<lambda>t.
       seqA (in_commit (commit (ca_commit env) t hex)) (ret (cs_receipt v)))))))"

definition submit ::
  "capture_env \<Rightarrow> capture_guards \<Rightarrow> string \<Rightarrow> string \<Rightarrow> capture_request \<Rightarrow> capture_receipt cact" where
  "submit env g hex now q =
     bindA (of_result (validate_capture_metadata (ca_request env) (cq_channel q) (cq_metadata q))) (\<lambda>m.
     bindA (of_result (capture_payload_fingerprint (ca_request env) (cq_payload q) (meta_json m) (cq_channel q))) (\<lambda>fingerprint.
     bindA (of_result (capture_scope_key (ca_request env) (cq_device q) (JStr (cm_client m)))) (\<lambda>key.
     (let relative = capture_path (cq_device q) key in
      seqA (guard (cg_authorize g (cq_device q)))
      (seqA (guard (cg_payload g (cq_payload q) m))
      (bindA (query (\<lambda>s. inventory env (d_live s))) (\<lambda>found.
       case map_of found relative of
         Some previous \<Rightarrow> of_result (replay_receipt env q m fingerprint previous)
       | None \<Rightarrow>
           seqA (require (\<not> length found \<ge> MAX_RECORDS) (Journal_error ''Capture journal full''))
           (seqA (require (ca_instance env \<noteq> []) (Journal_error ''Capture Instance identity unavailable''))
           (let v = \<lparr>cs_instance = ca_instance env, cs_receipt = new_receipt q m key fingerprint now,
                     cs_payload = cq_payload q\<rparr> in
            bindA (reads d_live) (\<lambda>L.
            seqA (require (\<not> length (ca_text env v) + sizes L found > MAX_JOURNAL_BYTES)
                    (Journal_error ''Capture journal byte budget exhausted''))
              (write_submission env g hex key relative v)))))))))))"

section \<open>Recovery\<close>

definition capture_handler :: recovery_handler where
  "capture_handler = \<lparr>rh_profile = CAPTURE_PROFILE, rh_interrupted = None\<rparr>"

text \<open>A file that the journal of a submission may hold, when it exists.\<close>

definition owned_record :: "capture_env \<Rightarrow> string \<Rightarrow> string \<Rightarrow> bytes option \<Rightarrow> unit cact" where
  "owned_record env owner relative c = (case c of
       None \<Rightarrow> ret ()
     | Some data \<Rightarrow>
         seqA (require (length data \<le> MAX_RECORD_BYTES) (Journal_error ''invalid Capture record size or kind''))
         (bindA (of_result (validate_submission env data relative)) (\<lambda>v.
            require (cx_id (cs_receipt v) = owner) (Journal_error ''Capture recovery owner mismatch''))))"

definition check_stage :: "capture_env \<Rightarrow> nat \<times> string \<times> stage \<Rightarrow> unit cact" where
  "check_stage env x = (case x of (index, i, st) \<Rightarrow>
     if take 20 i = ''capture-acquisition-'' then ret ()
     else seqA (require (index < MAX_RECORDS \<and> transaction_ok CAPTURE_PROFILE i)
                 (Journal_error ''invalid Capture recovery inventory''))
       (case sg_marker st of
          No_marker \<Rightarrow> ret ()
        | Bad_marker \<Rightarrow> raise (Journal_error ''invalid Capture recovery entries'')
        | Marker m \<Rightarrow>
            seqA (require (ce_manifest_size (ca_commit env) m \<le> 72 * 1024)
                    (Journal_error ''invalid Capture record size or kind''))
            (case m_entries m of
               [e] \<Rightarrow>
                 seqA (require (capture_path_ok (e_relative e) \<and> e_immutable e \<and> \<not> e_had e
                                \<and> e_cand_ref e = ''candidates/0000.bin'')
                         (Journal_error ''Capture recovery outside domain allowlist''))
                 (seqA (owned_record env (m_owner m) (e_relative e) (sg_files st ''candidates/0000.bin''))
                 (bindA (reads (\<lambda>s. d_live s (e_relative e))) (\<lambda>live.
                    owned_record env (m_owner m) (e_relative e) live)))
             | _ \<Rightarrow> raise (Journal_error ''invalid Capture recovery entries''))))"

definition recover_capture :: "capture_env \<Rightarrow> recovery_report option cact" where
  "recover_capture env =
     bindA (reads (\<lambda>s. filter (\<lambda>x. take 8 (fst x) = ''capture-'') (d_stages s))) (\<lambda>stages.
     seqA (for_each (check_stage env) (zip [0..<length stages] stages))
       (in_commit (recover_transactions (ca_commit env) [capture_handler])))"

end
