(* ===== verification/Capture_Inventory.thy ===== *)
theory Capture_Inventory
  imports Capture_Journal
begin

text \<open>
  The inventory against its meaning: the scan with its running counts accepts exactly when every
  listed file is a valid record and the counts and sizes are within the bounds.
\<close>

section \<open>What the scan accepts\<close>

definition listing :: "(string \<times> string list) list \<Rightarrow> string list" where
  "listing ds = concat (map (\<lambda>(d, ns). map (record_path d) ns) ds)"

lemma listing_simps [simp]: "listing [] = []" "listing ((d, ns) # ds) = map (record_path d) ns @ listing ds"
  by (simp_all add: listing_def)

definition record_at :: "capture_env \<Rightarrow> files \<Rightarrow> string \<Rightarrow> submission option" where
  "record_at env L p =
     (case L p of
        Some data \<Rightarrow>
          if capture_path_ok p \<and> length data \<le> MAX_RECORD_BYTES
          then (case validate_submission env data p of Inl _ \<Rightarrow> None | Inr v \<Rightarrow> Some v) else None
      | None \<Rightarrow> None)"

definition bytes_at :: "files \<Rightarrow> string \<Rightarrow> nat" where
  "bytes_at L p = (case L p of None \<Rightarrow> 0 | Some data \<Rightarrow> length data)"

definition entry_at :: "capture_env \<Rightarrow> files \<Rightarrow> string \<Rightarrow> string \<times> submission" where
  "entry_at env L p = (p, the (record_at env L p))"

definition fits_in :: "capture_env \<Rightarrow> files \<Rightarrow> string list \<Rightarrow> tally \<Rightarrow> tally \<Rightarrow> bool" where
  "fits_in env L ps st st' \<longleftrightarrow>
     (\<forall>p \<in> set ps. record_at env L p \<noteq> None) \<and> length (fst st) + length ps \<le> MAX_RECORDS
   \<and> snd st + sum_list (map (bytes_at L) ps) \<le> MAX_JOURNAL_BYTES
   \<and> st' = (fst st @ map (entry_at env L) ps, snd st + sum_list (map (bytes_at L) ps))"

definition in_bounds :: "tally \<Rightarrow> bool" where
  "in_bounds st \<longleftrightarrow> length (fst st) \<le> MAX_RECORDS \<and> snd st \<le> MAX_JOURNAL_BYTES"

lemma fits_nil [simp]: "in_bounds st \<Longrightarrow> fits_in env L [] st st' \<longleftrightarrow> st' = st"
  by (cases st) (auto simp: fits_in_def in_bounds_def)

lemma fits_bounds: "fits_in env L ps st st' \<Longrightarrow> in_bounds st'"
  by (auto simp: fits_in_def in_bounds_def)

lemma fits_append:
  assumes "in_bounds st"
  shows "fits_in env L (ps @ qs) st st'' \<longleftrightarrow> (\<exists>st'. fits_in env L ps st st' \<and> fits_in env L qs st' st'')"
  using assms by (auto simp: fits_in_def)

lemma scan_one:
  assumes "in_bounds st"
  shows "scan_records env L d (n # ns) st = Inr st'' \<longleftrightarrow>
    (\<exists>st'. fits_in env L [record_path d n] st st' \<and> scan_records env L d ns st' = Inr st'')"
proof -
  obtain found used where st: "st = (found, used)" by (cases st)
  show ?thesis
  proof (cases "L (record_path d n)")
    case None
    then show ?thesis by (simp add: st fits_in_def record_at_def Let_def)
  next
    case (Some data)
    then show ?thesis
      using assms
      by (cases "validate_submission env data (record_path d n)")
         (auto simp: st fits_in_def in_bounds_def record_at_def bytes_at_def entry_at_def Let_def)
  qed
qed

lemma scan_records_iff:
  "in_bounds st \<Longrightarrow> scan_records env L d ns st = Inr st' \<longleftrightarrow> fits_in env L (map (record_path d) ns) st st'"
proof (induction ns arbitrary: st)
  case (Cons n ns)
  have "scan_records env L d ns st1 = Inr st' \<longleftrightarrow> fits_in env L (map (record_path d) ns) st1 st'"
    if "fits_in env L [record_path d n] st st1" for st1
    using that by (intro Cons.IH) (rule fits_bounds)
  then have "scan_records env L d (n # ns) st = Inr st' \<longleftrightarrow>
      (\<exists>st1. fits_in env L [record_path d n] st st1 \<and> fits_in env L (map (record_path d) ns) st1 st')"
    unfolding scan_one [OF Cons.prems] by (simp cong: conj_cong)
  then show ?case
    using fits_append [OF Cons.prems, of env L "[record_path d n]" "map (record_path d) ns" st']
    by (simp only: list.map append.simps)
qed auto

lemma scan_devices_iff:
  "in_bounds st \<Longrightarrow> index \<le> MAX_RECORDS \<Longrightarrow> scan_devices env L index ds st = Inr st' \<longleftrightarrow>
     index + length ds \<le> MAX_RECORDS \<and> (\<forall>x \<in> set ds. device_ok (fst x)) \<and> fits_in env L (listing ds) st st'"
proof (induction ds arbitrary: index st)
  case (Cons x ds)
  obtain d ns where x: "x = (d, ns)" by (cases x)
  show ?case
  proof (cases "index < MAX_RECORDS \<and> device_ok d")
    case False
    then show ?thesis by (auto simp: x)
  next
    case True
    then have "scan_devices env L index (x # ds) st = Inr st' \<longleftrightarrow>
      (\<exists>st1. fits_in env L (map (record_path d) ns) st st1 \<and> scan_devices env L (index + 1) ds st1 = Inr st')"
      unfolding scan_records_iff [OF Cons.prems(1), symmetric] by (auto simp: x split: sum.splits)
    also have "\<dots> \<longleftrightarrow> (\<exists>st1. fits_in env L (map (record_path d) ns) st st1
        \<and> index + 1 + length ds \<le> MAX_RECORDS \<and> (\<forall>x \<in> set ds. device_ok (fst x)) \<and> fits_in env L (listing ds) st1 st')"
      using True Cons.IH [OF fits_bounds, of env L "map (record_path d) ns" st _ "index + 1"] by (simp cong: conj_cong)
    also have "\<dots> \<longleftrightarrow> index + 1 + length ds \<le> MAX_RECORDS \<and> (\<forall>x \<in> set ds. device_ok (fst x))
        \<and> (\<exists>st1. fits_in env L (map (record_path d) ns) st st1 \<and> fits_in env L (listing ds) st1 st')"
      by blast
    finally show ?thesis using fits_append [OF Cons.prems(1)] True by (simp add: x)
  qed
qed auto

text \<open>The records of a journal and their bounds, without the order of the scan.\<close>

definition journal_ok :: "capture_env \<Rightarrow> files \<Rightarrow> bool" where
  "journal_ok env L \<longleftrightarrow> (case ca_scan env L of
       None \<Rightarrow> True
     | Some ds \<Rightarrow> ca_instance env \<noteq> [] \<and> length ds \<le> MAX_RECORDS \<and> (\<forall>x \<in> set ds. device_ok (fst x))
         \<and> (\<forall>p \<in> set (listing ds). record_at env L p \<noteq> None) \<and> length (listing ds) \<le> MAX_RECORDS
         \<and> sum_list (map (bytes_at L) (listing ds)) \<le> MAX_JOURNAL_BYTES)"

definition journal_paths :: "capture_env \<Rightarrow> files \<Rightarrow> string list" where
  "journal_paths env L = (case ca_scan env L of None \<Rightarrow> [] | Some ds \<Rightarrow> listing ds)"

lemma inventory_iff:
  "inventory env L = Inr found \<longleftrightarrow> journal_ok env L \<and> found = map (entry_at env L) (journal_paths env L)"
proof (cases "ca_scan env L")
  case (Some ds)
  have none: "in_bounds ([], 0)" by (simp add: in_bounds_def)
  have "inventory env L = Inr found \<longleftrightarrow> ca_instance env \<noteq> [] \<and> (\<exists>n. scan_devices env L 0 ds ([], 0) = Inr (found, n))"
    using Some by (auto simp: inventory_def split: sum.splits)
  also have "\<dots> \<longleftrightarrow> journal_ok env L \<and> found = map (entry_at env L) (journal_paths env L)"
    unfolding scan_devices_iff [OF none le0] using Some by (auto simp: journal_ok_def journal_paths_def fits_in_def)
  finally show ?thesis .
qed (auto simp: inventory_def journal_ok_def journal_paths_def)

lemma entry_look: "map_of (map (entry_at env L) ps) p = (if p \<in> set ps then Some (the (record_at env L p)) else None)"
  by (induction ps) (auto simp: entry_at_def)

lemma sizes_listed: "sizes L (map (entry_at env L) ps) = sum_list (map (bytes_at L) ps)"
  by (simp add: sizes_def bytes_at_def [abs_def] entry_at_def comp_def)

end
