(* ===== verification/Capture_Safety.thy ===== *)
theory Capture_Safety
  imports Capture_Inventory
begin

text \<open>
  What a submission does: it is refused, it replays the stored receipt, or it commits one new
  file, whose record the inventory then finds; and what a recovery does to an interrupted one.
\<close>

section \<open>The outcomes of a submission\<close>

definition accepts :: "capture_env \<Rightarrow> capture_request \<Rightarrow> capture_meta \<Rightarrow> string \<Rightarrow> string \<Rightarrow> bool" where
  "accepts env q m fingerprint key \<longleftrightarrow>
     validate_capture_metadata (ca_request env) (cq_channel q) (cq_metadata q) = Inr m
   \<and> capture_payload_fingerprint (ca_request env) (cq_payload q) (meta_json m) (cq_channel q) = Inr fingerprint
   \<and> capture_scope_key (ca_request env) (cq_device q) (JStr (cm_client m)) = Inr key"

definition submission_of :: "capture_env \<Rightarrow> capture_request \<Rightarrow> capture_meta \<Rightarrow> string \<Rightarrow> string \<Rightarrow> string \<Rightarrow> submission" where
  "submission_of env q m key fingerprint now =
     \<lparr>cs_instance = ca_instance env, cs_receipt = new_receipt q m key fingerprint now, cs_payload = cq_payload q\<rparr>"

definition writable :: "capture_env \<Rightarrow> capture_request \<Rightarrow> string \<Rightarrow> submission \<Rightarrow> files \<Rightarrow> (string \<times> submission) list \<Rightarrow> bool" where
  "writable env q key v L found \<longleftrightarrow>
     inventory env L = Inr found \<and> map_of found (capture_path (cq_device q) key) = None
   \<and> length found < MAX_RECORDS \<and> ca_instance env \<noteq> []
   \<and> length (ca_text env v) + sizes L found \<le> MAX_JOURNAL_BYTES
   \<and> (\<exists>w. validate_submission env (ca_text env v) (capture_path (cq_device q) key) = Inr w)"

definition commit_result :: "submission \<Rightarrow> ac_error + unit \<Rightarrow> capture_error + capture_receipt" where
  "commit_result v c = (case c of Inl e \<Rightarrow> Inl (Commit_failed e) | Inr _ \<Rightarrow> Inr (cs_receipt v))"

lemma step_requires:
  "seqA (require b e) m s = (if b then m s else (Inl e, s))"
  by (simp add: seqA_def bindA_def require_def ret_def raise_def)

lemma step_guards:
  "seqA (guard x) m s = (case x of None \<Rightarrow> m s | Some why \<Rightarrow> (Inl (Denied why), s))"
  by (simp add: seqA_def bindA_def guard_def split: option.split)

lemma step_results:
  "bindA (of_result r) k s = (case r of Inl e \<Rightarrow> (Inl e, s) | Inr x \<Rightarrow> k x s)"
  "bindA (query h) k s = (case h s of Inl e \<Rightarrow> (Inl e, s) | Inr x \<Rightarrow> k x s)"
  "bindA (reads f) k s = k (f s) s"
  "bindA (in_commit (of_result c)) k s = (case c of Inl e \<Rightarrow> (Inl (Commit_failed e), s) | Inr x \<Rightarrow> k x s)"
  by (simp_all add: bindA_def in_commit_def split: sum.split)

lemmas submit_steps = step_requires step_guards step_results

text \<open>An error that does not come from the commit.\<close>

definition harmless :: "capture_error \<Rightarrow> bool" where
  "harmless e \<longleftrightarrow> (\<forall>x. e \<noteq> Commit_failed x)"

definition pure_step :: "(capture_error + 'a) \<Rightarrow> bool" where
  "pure_step r \<longleftrightarrow> (\<forall>e. r = Inl e \<longrightarrow> harmless e)"

lemma harmless_simps [simp]:
  "harmless (Request_error m)" "harmless (Journal_error m)" "harmless (Denied m)" "\<not> harmless (Commit_failed x)"
  by (simp_all add: harmless_def)

lemma pure_simps [simp]: "pure_step (Inr x)" "pure_step (Inl e) \<longleftrightarrow> harmless e"
  by (simp_all add: pure_step_def)

lemma pure_unless: "pure_step r \<Longrightarrow> pure_step (fails_unless b m r)"
  by (simp add: fails_unless_def)

lemma pure_then: "pure_step r \<Longrightarrow> (\<And>x. pure_step (k x)) \<Longrightarrow> pure_step (and_then r k)"
  by (cases r) (simp_all add: and_then_def)

lemmas pure_intros = pure_unless pure_then

lemma pure_fields:
  "pure_step (bounded_text n b j)" "pure_step (reference_field p j)" "pure_step (choice_field xs m j)"
  by (auto simp: bounded_text_def reference_field_def choice_field_def intro: pure_unless split: json.split)

lemma pure_texts: "pure_step (filename_field j)" "pure_step (mime_field j)" "pure_step (captured_field re j)"
  unfolding filename_field_def mime_field_def captured_field_def by (intro pure_intros pure_fields pure_simps)+

lemma pure_optional: "(\<And>j. pure_step (f j)) \<Longrightarrow> pure_step (optional_field v k f)"
  unfolding optional_field_def by (auto intro: pure_then)

lemma pure_metadata: "pure_step (validate_capture_metadata re t v)"
proof (cases v)
  case (JObj kvs)
  show ?thesis unfolding validate_capture_metadata_def JObj json.case
    by (intro pure_intros pure_optional pure_fields pure_texts pure_simps)
qed (simp_all add: validate_capture_metadata_def)

lemma pure_fingerprint: "pure_step (capture_payload_fingerprint re p v t)"
  unfolding capture_payload_fingerprint_def by (intro pure_intros pure_metadata pure_simps)

lemma pure_key: "pure_step (capture_scope_key re d c)"
  unfolding capture_scope_key_def by (auto intro!: pure_intros split: json.split)

lemma pure_validate: "pure_step (validate_submission env data p)"
  by (auto simp: validate_submission_def invalid_record_def Let_def split: option.split sum.split)

lemma pure_records: "pure_step (scan_records env L d ns st)"
proof (induction ns arbitrary: st)
  case (Cons n ns)
  obtain found used where st: "st = (found, used)" by (cases st)
  show ?case using pure_validate [of env "the (L (record_path d n))" "record_path d n"] Cons.IH
    by (auto simp: st Let_def split: option.split sum.split)
qed simp

lemma pure_devices: "pure_step (scan_devices env L i ds st)"
proof (induction ds arbitrary: i st)
  case (Cons x ds)
  obtain d ns where x: "x = (d, ns)" by (cases x)
  show ?case using pure_records [of env L d ns st] Cons.IH by (auto simp: x split: sum.split)
qed simp

lemma pure_inventory: "pure_step (inventory env L)"
  using pure_devices [of env L 0 _ "([], 0)"]
  by (auto simp: inventory_def split: option.split sum.split prod.split) (metis pure_simps(2))

lemma pureD: "r = Inl e \<Longrightarrow> pure_step r \<Longrightarrow> harmless e"
  by simp

lemma pure_replay: "pure_step (replay_receipt env q m f v)"
  by (simp add: replay_receipt_def Let_def)

text \<open>The checks of a submission up to the inventory, and what follows them.\<close>

definition with_inventory ::
  "capture_env \<Rightarrow> capture_guards \<Rightarrow> string \<Rightarrow> string \<Rightarrow> capture_request \<Rightarrow> capture_meta \<Rightarrow> string \<Rightarrow> string
   \<Rightarrow> (string \<times> submission) list \<Rightarrow> capture_receipt cact" where
  "with_inventory env g hex now q m fingerprint key found =
     (case map_of found (capture_path (cq_device q) key) of
        Some previous \<Rightarrow> of_result (replay_receipt env q m fingerprint previous)
      | None \<Rightarrow>
          seqA (require (\<not> length found \<ge> MAX_RECORDS) (Journal_error ''Capture journal full''))
          (seqA (require (ca_instance env \<noteq> []) (Journal_error ''Capture Instance identity unavailable''))
          (let v = submission_of env q m key fingerprint now in
           bindA (reads d_live) (\<lambda>L.
           seqA (require (\<not> length (ca_text env v) + sizes L found > MAX_JOURNAL_BYTES)
                   (Journal_error ''Capture journal byte budget exhausted''))
             (write_submission env g hex key (capture_path (cq_device q) key) v)))))"

lemma submit_checks:
  "submit env g hex now q s =
    (case validate_capture_metadata (ca_request env) (cq_channel q) (cq_metadata q) of Inl e \<Rightarrow> (Inl e, s) | Inr m \<Rightarrow>
    (case capture_payload_fingerprint (ca_request env) (cq_payload q) (meta_json m) (cq_channel q) of Inl e \<Rightarrow> (Inl e, s) | Inr fingerprint \<Rightarrow>
    (case capture_scope_key (ca_request env) (cq_device q) (JStr (cm_client m)) of Inl e \<Rightarrow> (Inl e, s) | Inr key \<Rightarrow>
    (case cg_authorize g (cq_device q) of Some why \<Rightarrow> (Inl (Denied why), s) | None \<Rightarrow>
    (case cg_payload g (cq_payload q) m of Some why \<Rightarrow> (Inl (Denied why), s) | None \<Rightarrow>
    (case inventory env (d_live s) of Inl e \<Rightarrow> (Inl e, s) | Inr found \<Rightarrow>
       with_inventory env g hex now q m fingerprint key found s))))))"
  unfolding submit_def Let_def submit_steps with_inventory_def submission_of_def by simp

lemma submit_prefix:
  assumes run: "submit env g hex now q s = (r, s')"
  obtains (refused) e where "r = Inl e" and "harmless e" and "s' = s"
  | (started) m fingerprint key found where "accepts env q m fingerprint key"
      and "inventory env (d_live s) = Inr found"
      and "with_inventory env g hex now q m fingerprint key found s = (r, s')"
proof -
  let ?re = "ca_request env"
  note run = run [unfolded submit_checks]
  consider e where "validate_capture_metadata ?re (cq_channel q) (cq_metadata q) = Inl e"
    | m e where "validate_capture_metadata ?re (cq_channel q) (cq_metadata q) = Inr m"
        "capture_payload_fingerprint ?re (cq_payload q) (meta_json m) (cq_channel q) = Inl e"
    | m f e where "validate_capture_metadata ?re (cq_channel q) (cq_metadata q) = Inr m"
        "capture_payload_fingerprint ?re (cq_payload q) (meta_json m) (cq_channel q) = Inr f"
        "capture_scope_key ?re (cq_device q) (JStr (cm_client m)) = Inl e"
    | m f key where "accepts env q m f key"
    unfolding accepts_def by (meson sum.exhaust)
  then show thesis
  proof cases
    case (1 e)
    from pureD [OF 1 pure_metadata] 1 run show thesis by (intro refused [of e]) auto
  next
    case (2 m e)
    from pureD [OF 2(2) pure_fingerprint] 2 run show thesis by (intro refused [of e]) auto
  next
    case (3 m f e)
    from pureD [OF 3(3) pure_key] 3 run show thesis by (intro refused [of e]) auto
  next
    case (4 m f key)
    note run = run [unfolded 4 [unfolded accepts_def, THEN conjunct1]
        4 [unfolded accepts_def, THEN conjunct2, THEN conjunct1] 4 [unfolded accepts_def, THEN conjunct2, THEN conjunct2] sum.case]
    show thesis
    proof (cases "inventory env (d_live s)")
      case (Inl e)
      then show thesis using run pureD [OF Inl pure_inventory]
        by (auto split: option.splits intro: refused)
    next
      case (Inr found)
      then show thesis using run 4 by (auto split: option.splits intro: refused started)
    qed
  qed
qed

lemma write_submission_cases:
  assumes "write_submission env g hex key relative v s = (r, s')"
  obtains (refused) e where "r = Inl e" and "e \<noteq> Commit_failed Crash" and "s' = s"
  | (written) w t0 t c where "validate_submission env (ca_text env v) relative = Inr w"
      and "new_transaction CAPTURE_PROFILE key = Inr t0"
      and "add_write (ca_commit env) t0 relative (ca_text env v) True = Inr t"
      and "commit (ca_commit env) t hex s = (c, s')" and "r = commit_result v c"
proof -
  note run = assms [unfolded write_submission_def Let_def submit_steps]
  have new: "new_transaction p o' = Inl x \<Longrightarrow> x \<noteq> Crash" for p o' x by (auto simp: new_transaction_def split: if_splits)
  have add: "add_write ce t0 rel b i = Inl x \<Longrightarrow> x \<noteq> Crash" for ce t0 rel b i x
    by (auto simp: add_write_def Let_def split: option.splits if_splits)
  show thesis
  proof (cases "validate_submission env (ca_text env v) relative")
    case (Inl e)
    with run pureD [OF Inl pure_validate] show thesis by (intro refused [of e]) (auto simp: harmless_def)
  next
    case w: (Inr w)
    show thesis
    proof (cases "new_transaction CAPTURE_PROFILE key")
      case (Inl e)
      with run w new [OF Inl] show thesis by (auto split: option.splits intro: refused)
    next
      case t0: (Inr t0)
      show thesis
      proof (cases "add_write (ca_commit env) t0 relative (ca_text env v) True")
        case (Inl e)
        with run w t0 add [OF Inl] show thesis by (auto split: option.splits intro: refused)
      next
        case t: (Inr t)
        obtain c u where c: "commit (ca_commit env) t hex s = (c, u)" by (cases "commit (ca_commit env) t hex s")
        then have last: "seqA (in_commit (commit (ca_commit env) t hex)) (ret (cs_receipt v)) s = (commit_result v c, u)"
          by (cases c) (simp_all add: seqA_def bindA_def in_commit_def commit_result_def)
        from run w t0 t last c show thesis
          by (auto split: option.splits intro: refused written [OF w t0 t])
      qed
    qed
  qed
qed

lemma submit_cases:
  assumes run: "submit env g hex now q s = (r, s')"
  obtains (refused) e where "r = Inl e" and "e \<noteq> Commit_failed Crash" and "s' = s"
  | (replayed) m fingerprint key found v where "accepts env q m fingerprint key"
      and "inventory env (d_live s) = Inr found" and "map_of found (capture_path (cq_device q) key) = Some v"
      and "replay_receipt env q m fingerprint v = r" and "s' = s"
  | (written) m fingerprint key found v t0 t c where "accepts env q m fingerprint key"
      and "v = submission_of env q m key fingerprint now" and "writable env q key v (d_live s) found"
      and "new_transaction CAPTURE_PROFILE key = Inr t0"
      and "add_write (ca_commit env) t0 (capture_path (cq_device q) key) (ca_text env v) True = Inr t"
      and "commit (ca_commit env) t hex s = (c, s')" and "r = commit_result v c"
  using run
proof (cases rule: submit_prefix)
  case (refused e)
  then show thesis by (intro that(1) [of e]) (auto simp: harmless_def)
next
  case (started m fingerprint key found)
  let ?p = "capture_path (cq_device q) key" and ?v = "submission_of env q m key fingerprint now"
  show thesis
  proof (cases "map_of found ?p")
    case (Some v)
    with started show thesis by (intro that(2) [of m fingerprint key found v]) (auto simp: with_inventory_def)
  next
    case None
    note run = started(3) [unfolded with_inventory_def None option.case Let_def submit_steps]
    show thesis
    proof (cases "length found < MAX_RECORDS \<and> ca_instance env \<noteq> [] \<and> length (ca_text env ?v) + sizes (d_live s) found \<le> MAX_JOURNAL_BYTES")
      case False
      with run show thesis by (auto split: if_splits intro: that(1))
    next
      case True
      with run have "write_submission env g hex key ?p ?v s = (r, s')" by (simp add: not_less)
      then show thesis
      proof (cases rule: write_submission_cases)
        case (refused e)
        then show thesis by (rule that(1))
      next
        case (written w t0 t c)
        with started None True show thesis
          by (intro that(3) [of m fingerprint key ?v found t0 t c]) (auto simp: writable_def)
      qed
    qed
  qed
qed

end
