(* ===== verification/Capture_Commit.thy ===== *)
theory Capture_Commit
  imports Capture_Safety Atomic_Opening
begin

text \<open>
  The commit of a submission as a change that recoveries settle: the transaction writes the one
  file of the record, and a recovery of the captures that returns takes it back or completes it.
\<close>

section \<open>The transaction\<close>

lemma prefixed_parts:
  assumes "prefixed_hex p n s"
  obtains x where "s = p @ x" and "length x = n" and "list_all hexchar x"
proof -
  have "s = p @ drop (length p) s" using assms append_take_drop_id [of "length p" s] by (simp add: prefixed_hex_def)
  then show thesis by (rule that) (use assms in \<open>simp_all add: prefixed_hex_def\<close>)
qed

lemma capture_path_split:
  assumes "device_ok device" and "prefixed_hex ''capture_'' 64 key"
  shows "split_slash [] (capture_path device key) = [''state'', ''capture'', device, key @ ''.json'']"
    and "slashes (capture_path device key) = capture_path device key"
    and "device \<noteq> []" and "key \<noteq> []" and "device \<noteq> ''.''" and "device \<noteq> ''..''"
proof -
  obtain x where x: "device = ''dev_'' @ x" "list_all hexchar x"
    using assms(1) by (auto simp: device_ok_def elim: prefixed_parts)
  obtain y where y: "key = ''capture_'' @ y" "list_all hexchar y"
    using assms(2) by (auto elim: prefixed_parts)
  have chars: "CHR ''/'' \<notin> set x" "CHR 0x5C \<notin> set x" "CHR ''/'' \<notin> set y" "CHR 0x5C \<notin> set y"
    using hex_no_slash [OF x(2)] hex_no_slash [OF y(2)] by auto
  have r: "capture_path device key = ''state/capture/dev_'' @ x @ ''/capture_'' @ y @ ''.json''"
    by (simp add: capture_path_def record_path_def x y)
  show "slashes (capture_path device key) = capture_path device key" using chars by (intro slashes_id) (simp add: r)
  show "split_slash [] (capture_path device key) = [''state'', ''capture'', device, key @ ''.json'']"
    unfolding r using chars by (simp add: x y split_plain split_slash_step)
  show "device \<noteq> []" "key \<noteq> []" "device \<noteq> ''.''" "device \<noteq> ''..''" by (simp_all add: x y)
qed

lemma normalise_capture:
  assumes "device_ok device" and "prefixed_hex ''capture_'' 64 key"
  shows "normalise_locator (capture_path device key) = Some (capture_path device key)"
proof -
  note split = capture_path_split [OF assms]
  have "parts (capture_path device key) = [''state'', ''capture'', device, key @ ''.json'']"
    unfolding parts_def split(2) split(1) using split(3-6) by simp
  then show ?thesis
    using split(2-6) by (auto simp: normalise_locator_alt capture_path_def record_path_def)
qed

lemma capture_path_fine:
  assumes "device_ok device" and "prefixed_hex ''capture_'' 64 key"
  shows "capture_path_ok (capture_path device key)"
proof -
  have "length key = 72" using assms(2) by (simp add: prefixed_hex_def)
  then show ?thesis
    using assms by (simp add: capture_path_ok_def capture_path_split [OF assms] record_name_ok_def)
qed

lemma capture_path_place: "take 14 (capture_path device key) = ''state/capture/''"
  by (simp add: capture_path_def record_path_def)

lemma capture_profile_ok: "profile_ok CAPTURE_PROFILE"
  by (simp add: profile_ok_def CAPTURE_PROFILE_def limits_ok_def profile_key_ok_def MAX_RECORD_BYTES_def)

lemma written_transaction:
  assumes dev: "device_ok device" and t0: "new_transaction CAPTURE_PROFILE key = Inr t0"
    and t: "add_write ce t0 (capture_path device key) data True = Inr t"
  shows "tx_ok ce t" and "tx_profile t = CAPTURE_PROFILE"
    and "new_live t L = L(capture_path device key \<mapsto> data)" and "length data \<le> MAX_RECORD_BYTES"
proof -
  let ?p = "capture_path device key"
  have key: "prefixed_hex ''capture_'' 64 key" and t0': "t0 = \<lparr>tx_profile = CAPTURE_PROFILE, tx_owner = key, tx_writes = [], tx_removals = [], tx_bytes = 0\<rparr>"
    using t0 by (auto simp: new_transaction_def accepts_owner_def CAPTURE_PROFILE_def split: if_splits)
  have "instance_target ce ?p = None \<or> instance_target ce ?p = Some ?p"
    using normalise_capture [OF dev key] by (auto simp: instance_target_def)
  with t have "instance_target ce ?p = Some ?p" by (auto simp: add_write_def)
  with t have t': "t = t0\<lparr>tx_writes := [(?p, Some data, True)], tx_bytes := length data\<rparr>"
    and len: "length data \<le> MAX_RECORD_BYTES"
    by (auto simp: add_write_def t0' Let_def CAPTURE_PROFILE_def split: if_splits)
  show "tx_ok ce t" by (rule tx_ok_add [OF tx_ok_new [OF t0] t])
  show "tx_profile t = CAPTURE_PROFILE" by (simp add: t' t0')
  show "new_live t L = L(?p \<mapsto> data)" by (auto simp: new_live_def t' t0')
  show "length data \<le> MAX_RECORD_BYTES" by (rule len)
qed

lemma new_file_apart: "L p = None \<Longrightarrow> no_collision ce L (L(p \<mapsto> data))"
  by (simp add: no_collision_def)

section \<open>Recovery\<close>

abbreviation ctriple :: "(disk \<Rightarrow> bool) \<Rightarrow> 'a cact \<Rightarrow> ('a \<Rightarrow> disk \<Rightarrow> bool) \<Rightarrow> (disk \<Rightarrow> bool) \<Rightarrow> (disk \<Rightarrow> bool) \<Rightarrow> bool" where
  "ctriple \<equiv> hoare (Commit_failed Crash)"

lemma capture_plain: "plain_handler capture_handler CAPTURE_PROFILE"
  by (simp add: plain_handler_def capture_handler_def)

lemma in_commit_triple: "triple P m Q E C \<Longrightarrow> ctriple P (in_commit m) Q E C"
  by (auto simp: hoare_def in_commit_def split: prod.splits sum.splits)

text \<open>A step that looks at the disk only, and whose error is not that of a commit.\<close>

definition inspects :: "'a cact \<Rightarrow> bool" where
  "inspects m \<longleftrightarrow> (\<forall>s. snd (m s) = s \<and> pure_step (fst (m s)))"

lemma inspects_result: "inspects m \<Longrightarrow> m s = (r, t) \<Longrightarrow> t = s \<and> pure_step r"
  unfolding inspects_def by (metis fst_conv snd_conv)

lemma inspects_bind:
  assumes "inspects m" and "\<And>x. inspects (k x)"
  shows "inspects (bindA m k)"
  unfolding inspects_def
proof (intro allI)
  fix s
  obtain r t where m: "m s = (r, t)" by (cases "m s")
  with inspects_result [OF assms(1)] have "t = s" "pure_step r" by auto
  with m assms(2) show "snd (bindA m k s) = s \<and> pure_step (fst (bindA m k s))"
    by (cases r) (simp_all add: bindA_def inspects_def)
qed

lemma inspects_seq: "inspects m \<Longrightarrow> inspects k \<Longrightarrow> inspects (seqA m k)"
  unfolding seqA_def by (rule inspects_bind)

lemma inspects_basic:
  "inspects (ret x)" "inspects (reads f)" "harmless e \<Longrightarrow> inspects (raise e)"
  "harmless e \<Longrightarrow> inspects (require b e)" "pure_step r \<Longrightarrow> inspects (of_result r)"
  by (simp_all add: inspects_def require_eq)

lemmas inspecting = inspects_bind inspects_seq inspects_basic

lemma inspects_for_each: "(\<And>x. inspects (f x)) \<Longrightarrow> inspects (for_each f xs)"
  by (induction xs) (simp_all add: inspecting del: act_eval)

lemma owned_record_inspects: "inspects (owned_record env o' p c)"
  unfolding owned_record_def by (auto intro!: inspecting pure_validate split: option.split)

lemma check_stage_inspects: "inspects (check_stage env x)"
  unfolding check_stage_def
  by (cases x) (auto intro!: inspecting owned_record_inspects split: marker.split list.split)

lemma triple_inspects:
  assumes "inspects m" and "ctriple P k Q E C" and "\<And>s. P s \<Longrightarrow> E s"
  shows "ctriple P (seqA m k) Q E C"
  unfolding hoare_def
proof (intro allI impI)
  fix s
  assume P: "P s"
  obtain r t where m: "m s = (r, t)" by (cases "m s")
  with inspects_result [OF assms(1)] have t: "t = s" "pure_step r" by auto
  show "case seqA m k s of (Inr x, t) \<Rightarrow> Q x t | (Inl e, t) \<Rightarrow> if e = Commit_failed Crash then C t else E t"
    using m t P assms(2,3) by (cases r) (auto simp: seqA_def bindA_def hoare_def harmless_def)
qed

text \<open>A recovery that checks its stages first changes the disk by the recovery of the commits only.\<close>

lemma checked_recovery_triple:
  assumes "\<And>x. inspects (check x)" and "triple P m (\<lambda>_. Q) P P"
  shows "ctriple P (bindA (reads f) (\<lambda>xs. seqA (for_each check (zip [0..<length xs] xs)) (in_commit m))) (\<lambda>_. Q) P P"
proof (rule hoare_reads)
  fix s
  assume s: "P s"
  have "ctriple P (seqA (for_each check ys) (in_commit m)) (\<lambda>_. Q) P P" for ys
    by (intro triple_inspects inspects_for_each in_commit_triple assms)
  then show "ctriple (\<lambda>t. t = s) (seqA (for_each check (zip [0..<length (f s)] (f s))) (in_commit m)) (\<lambda>_. Q) P P"
    using s by (auto simp: hoare_def)
qed

lemma recover_capture_triple:
  assumes "triple P (recover_transactions (ca_commit env) [capture_handler]) (\<lambda>_. Q) P P"
  shows "ctriple P (recover_capture env) (\<lambda>_. Q) P P"
  unfolding recover_capture_def by (rule checked_recovery_triple [OF check_stage_inspects assms])

abbreviation capture_undecided :: "capture_env \<Rightarrow> string \<Rightarrow> files \<Rightarrow> files \<Rightarrow> disk \<Rightarrow> bool" where
  "capture_undecided env i L N s \<equiv>
     commit_plain capture_handler CAPTURE_PROFILE i (ca_commit env) L N \<and> undecided (ca_commit env) CAPTURE_PROFILE i L N s"

abbreviation capture_decided :: "capture_env \<Rightarrow> string \<Rightarrow> files \<Rightarrow> files \<Rightarrow> disk \<Rightarrow> bool" where
  "capture_decided env i L N s \<equiv>
     commit_plain capture_handler CAPTURE_PROFILE i (ca_commit env) L N \<and> decided (ca_commit env) CAPTURE_PROFILE i L N s"

interpretation capture_change: journaled_change "\<lambda>_ :: unit. recover_capture env"
  "\<lambda>fs s. s\<lparr>d_fates := fs\<rparr>" "Commit_failed Crash" "capture_undecided env i L N" "capture_decided env i L N"
  "\<lambda>s. commit_plain capture_handler CAPTURE_PROFILE i (ca_commit env) L N \<and> gone L () s"
  "\<lambda>s. commit_plain capture_handler CAPTURE_PROFILE i (ca_commit env) L N \<and> gone N () s"
  for env i L N
proof
  show "ctriple (capture_undecided env i L N) (recover_capture env)
     (\<lambda>_ s. commit_plain capture_handler CAPTURE_PROFILE i (ca_commit env) L N \<and> gone L () s)
     (capture_undecided env i L N) (capture_undecided env i L N)"
    by (rule recover_capture_triple [OF recover_undecided_plain])
  show "ctriple (capture_decided env i L N) (recover_capture env)
     (\<lambda>_ s. commit_plain capture_handler CAPTURE_PROFILE i (ca_commit env) L N \<and> gone N () s)
     (capture_decided env i L N) (capture_decided env i L N)"
    by (rule recover_capture_triple [OF recover_decided_plain])
qed (auto intro: gone_again)

abbreviation capture_recoveries :: "capture_env \<Rightarrow> disk \<Rightarrow> disk \<Rightarrow> bool" where
  "capture_recoveries env \<equiv> recovered (\<lambda>_ :: unit. recover_capture env) (\<lambda>fs s. s\<lparr>d_fates := fs\<rparr>)"

text \<open>The files after a commit of one new file and the recoveries that follow.\<close>

lemma commit_settles:
  assumes dev: "device_ok device" and t0: "new_transaction CAPTURE_PROFILE key = Inr t0"
    and t: "add_write (ca_commit env) t0 (capture_path device key) data True = Inr t"
    and hex: "length hex = 32" "list_all hexchar hex"
    and quiet: "d_stages s = []" and fresh: "d_live s (capture_path device key) = None"
    and run: "commit (ca_commit env) t hex s = (c, s')"
    and rec: "capture_recoveries env s' u" and opened: "recover_capture env (u\<lparr>d_fates := fs\<rparr>) = (Inr a, d)"
  shows "d_stages d = []" and "d_live d \<in> {d_live s, (d_live s)(capture_path device key \<mapsto> data)}"
    and "c = Inr () \<Longrightarrow> d_live d = (d_live s)(capture_path device key \<mapsto> data)"
    and "c = Inl e \<Longrightarrow> e \<noteq> Crash \<Longrightarrow> d_live d = d_live s"
proof -
  let ?L = "d_live s" and ?N = "(d_live s)(capture_path device key \<mapsto> data)" and ?i = "stage_name t hex"
  note tx = written_transaction [OF dev t0 t]
  have i: "transaction_ok CAPTURE_PROFILE ?i" using stage_name_ok [OF hex, of t] tx(2) by simp
  have apart: "no_collision (ca_commit env) ?L ?N" using fresh by (rule new_file_apart)
  have plain: "commit_plain capture_handler CAPTURE_PROFILE ?i (ca_commit env) ?L ?N"
    using i apart capture_plain by (simp add: commit_plain_def)
  have "idle ?L s" using quiet by (simp add: idle_def upon_def)
  note finished = tripleD [OF commit_triple [OF tx(1), of hex ?L, unfolded tx(2,3), OF capture_profile_ok i apart] this]
  note settle = capture_change.settles [where L = ?L and N = ?N and i = ?i, OF rec opened]
  have un: "undecided (ca_commit env) CAPTURE_PROFILE ?i ?L ?N s' \<Longrightarrow> d_stages d = [] \<and> d_live d = ?L"
    using settle(1) plain by (simp add: gone_def)
  have de: "decided (ca_commit env) CAPTURE_PROFILE ?i ?L ?N s' \<Longrightarrow> d_stages d = [] \<and> d_live d = ?N"
    using settle(2) plain by (simp add: gone_def)
  have "(d_stages d = [] \<and> d_live d \<in> {?L, ?N}) \<and> (c = Inr () \<longrightarrow> d_live d = ?N)
      \<and> (\<forall>e. c = Inl e \<longrightarrow> e \<noteq> Crash \<longrightarrow> d_live d = ?L)"
  proof (cases c)
    case (Inr x)
    with finished(1) run de show ?thesis by auto
  next
    case (Inl e)
    with finished(2,3) run un de show ?thesis by (cases "e = Crash") auto
  qed
  then show "d_stages d = []" "d_live d \<in> {?L, ?N}" "c = Inr () \<Longrightarrow> d_live d = ?N"
    "c = Inl e \<Longrightarrow> e \<noteq> Crash \<Longrightarrow> d_live d = ?L" by blast+
qed

lemma nothing_to_settle:
  assumes "d_stages s = []" and "capture_recoveries env s u" and "recover_capture env (u\<lparr>d_fates := fs\<rparr>) = (Inr a, d)"
  shows "d_stages d = []" and "d_live d = d_live s"
proof -
  let ?L = "d_live s" and ?i = "''capture-'' @ replicate 32 (CHR ''0'')"
  have "commit_plain capture_handler CAPTURE_PROFILE ?i (ca_commit env) ?L ?L"
    using capture_plain by (simp add: commit_plain_def transaction_ok_def CAPTURE_PROFILE_def no_collision_def prefixed_hex_def hexchar_def list_all_iff)
  moreover have "undecided (ca_commit env) CAPTURE_PROFILE ?i ?L ?L s"
    using assms(1) by (intro idle_undecided) (simp add: idle_def upon_def)
  ultimately have "gone ?L () d" using capture_change.settles(1) [where L = ?L and N = ?L and i = ?i, OF assms(2,3)] by blast
  then show "d_stages d = []" "d_live d = ?L" by (simp_all add: gone_def)
qed

end
