(* ===== verification/Capture.thy ===== *)
theory Capture
  imports Capture_Commit
begin

text \<open>
  The contract of the capture journal: a submission takes effect exactly once, its receipt can
  be read afterwards, and its identity is bound to its content.
\<close>

section \<open>The inventory after a write\<close>

text \<open>
  What is assumed of the listing: it holds every file below the directory of the journal once;
  and writing a file creates at most the directory of its device.
\<close>

definition lists_files :: "capture_env \<Rightarrow> files \<Rightarrow> bool" where
  "lists_files env L \<longleftrightarrow> distinct (journal_paths env L)
     \<and> set (journal_paths env L) = {p. L p \<noteq> None \<and> take 14 p = ''state/capture/''}"

definition directories :: "capture_env \<Rightarrow> files \<Rightarrow> string list" where
  "directories env L = (case ca_scan env L of None \<Rightarrow> [] | Some ds \<Rightarrow> map fst ds)"

definition adds_directory :: "capture_env \<Rightarrow> string \<Rightarrow> files \<Rightarrow> files \<Rightarrow> bool" where
  "adds_directory env device L N \<longleftrightarrow>
     set (directories env N) \<subseteq> insert device (set (directories env L)) \<and> length (directories env N) \<le> MAX_RECORDS"

lemma journal_ok_alt:
  "journal_ok env L \<longleftrightarrow> (ca_scan env L \<noteq> None \<longrightarrow> ca_instance env \<noteq> []) \<and> length (directories env L) \<le> MAX_RECORDS
     \<and> (\<forall>d \<in> set (directories env L). device_ok d) \<and> (\<forall>p \<in> set (journal_paths env L). record_at env L p \<noteq> None)
     \<and> length (journal_paths env L) \<le> MAX_RECORDS
     \<and> sum_list (map (bytes_at L) (journal_paths env L)) \<le> MAX_JOURNAL_BYTES"
  by (auto simp: journal_ok_def directories_def journal_paths_def split: option.split)

text \<open>A submission does not count the directories of the devices; with too many of them no inventory is read.\<close>

lemma too_many_directories: "MAX_RECORDS < length (directories env L) \<Longrightarrow> \<exists>e. inventory env L = Inl e"
  using inventory_iff [of env L] by (cases "inventory env L") (auto simp: journal_ok_alt)

lemma same_sum:
  assumes "distinct xs" and "distinct ys" and "set ys = insert p (set xs)" and "p \<notin> set xs"
  shows "length ys = Suc (length xs)" and "sum_list (map f ys) = f p + sum_list (map f (xs :: 'a list)) + (0 :: nat)"
proof -
  show "length ys = Suc (length xs)"
    using assms distinct_card [OF assms(1)] distinct_card [OF assms(2)] by simp
  show "sum_list (map f ys) = f p + sum_list (map f xs) + (0 :: nat)"
    using assms by (simp add: sum_list_distinct_conv_sum_set)
qed

lemma added_record:
  assumes w: "writable env q key v L found" and dev: "device_ok (cq_device q)" and key: "prefixed_hex ''capture_'' 64 key"
    and len: "length (ca_text env v) \<le> MAX_RECORD_BYTES" and load: "ca_load env (ca_text env v) = Some v"
    and lists: "lists_files env L" "lists_files env (L(capture_path (cq_device q) key \<mapsto> ca_text env v))"
    and dirs: "adds_directory env (cq_device q) L (L(capture_path (cq_device q) key \<mapsto> ca_text env v))"
  shows "\<exists>found'. inventory env (L(capture_path (cq_device q) key \<mapsto> ca_text env v)) = Inr found'
      \<and> map_of found' (capture_path (cq_device q) key) = Some v"
    and "L (capture_path (cq_device q) key) = None"
proof -
  let ?p = "capture_path (cq_device q) key" and ?N = "L(capture_path (cq_device q) key \<mapsto> ca_text env v)"
  let ?ps = "journal_paths env L" and ?qs = "journal_paths env ?N"
  have inv: "journal_ok env L" "found = map (entry_at env L) ?ps" using w by (auto simp: writable_def inventory_iff)
  have p: "?p \<notin> set ?ps" using w by (auto simp: writable_def inv entry_look split: if_splits)
  then show free: "L ?p = None" using lists(1) capture_path_place by (auto simp: lists_files_def)
  have set: "set ?qs = insert ?p (set ?ps)" using lists capture_path_place by (auto simp: lists_files_def)
  note sums = same_sum [OF _ _ set p]
  have d: "distinct ?ps" "distinct ?qs" using lists by (auto simp: lists_files_def)
  obtain x where "validate_submission env (ca_text env v) ?p = Inr x" using w by (auto simp: writable_def)
  then have "validate_submission env (ca_text env v) ?p = Inr v"
    using load by (auto simp: validate_submission_def Let_def split: sum.splits if_splits)
  then have here: "record_at env ?N ?p = Some v"
    using capture_path_fine [OF dev key] len by (simp add: record_at_def)
  have old: "record_at env ?N r = record_at env L r \<and> bytes_at ?N r = bytes_at L r" if "r \<in> set ?ps" for r
    using that p by (auto simp: record_at_def bytes_at_def)
  have same: "map (bytes_at ?N) ?ps = map (bytes_at L) ?ps" using old by simp
  have "length (ca_text env v) + sum_list (map (bytes_at L) ?ps) \<le> MAX_JOURNAL_BYTES" "length ?ps < MAX_RECORDS" "ca_instance env \<noteq> []"
    using w by (auto simp: writable_def inv sizes_listed)
  then have "journal_ok env ?N"
    using inv(1) dirs dev here old set sums(1) [OF d] sums(2) [OF d, of "bytes_at ?N"]
    unfolding journal_ok_alt adds_directory_def same by (auto simp: bytes_at_def)
  then have "inventory env ?N = Inr (map (entry_at env ?N) ?qs)" by (simp add: inventory_iff)
  moreover have "map_of (map (entry_at env ?N) ?qs) ?p = Some v" using set here by (simp add: entry_look)
  ultimately show "\<exists>found'. inventory env ?N = Inr found' \<and> map_of found' ?p = Some v" by blast
qed

section \<open>A stored receipt\<close>

definition holds_receipt :: "capture_env \<Rightarrow> capture_request \<Rightarrow> capture_receipt \<Rightarrow> files \<Rightarrow> bool" where
  "holds_receipt env q x L \<longleftrightarrow> (\<exists>m fingerprint key found v. accepts env q m fingerprint key
     \<and> inventory env L = Inr found \<and> map_of found (capture_path (cq_device q) key) = Some v
     \<and> replay_receipt env q m fingerprint v = Inr x)"

definition same_identity :: "capture_request \<Rightarrow> capture_request \<Rightarrow> bool" where
  "same_identity q q' \<longleftrightarrow> cq_device q' = cq_device q
     \<and> jget (cq_metadata q') ''client_submission_id'' = jget (cq_metadata q) ''client_submission_id''"

definition same_content :: "capture_env \<Rightarrow> capture_request \<Rightarrow> capture_request \<Rightarrow> bool" where
  "same_content env q q' \<longleftrightarrow> cq_payload q' = cq_payload q
     \<and> validate_capture_metadata (ca_request env) (cq_channel q') (cq_metadata q')
       = validate_capture_metadata (ca_request env) (cq_channel q) (cq_metadata q)"

definition lets_in :: "capture_guards \<Rightarrow> capture_request \<Rightarrow> bool" where
  "lets_in g q \<longleftrightarrow> cg_authorize g (cq_device q) = None \<and> (\<forall>m. cg_payload g (cq_payload q) m = None)"

lemma validated_client:
  assumes "validate_capture_metadata re t v = Inr m"
  shows "jget v ''client_submission_id'' = JStr (cm_client m)"
  using assms
  by (cases v) (auto simp: validate_capture_metadata_def bounded_text_def split: json.splits if_splits)

lemma validated_channel: "validate_capture_metadata re t v = Inr m \<Longrightarrow> cm_channel m = t"
  by (cases v) (auto simp: validate_capture_metadata_def)

lemma fresh_receipt_replays:
  assumes "accepts env q m fingerprint key" and "v = submission_of env q m key fingerprint now"
  shows "replay_receipt env q m fingerprint v = Inr (cs_receipt v)"
proof -
  have m: "validate_capture_metadata (ca_request env) (cq_channel q) (cq_metadata q) = Inr m"
    using assms(1) by (simp add: accepts_def)
  have "stored_metadata env v = Some m"
    using metadata_revalidates [OF m] validated_channel [OF m]
    by (simp add: stored_metadata_def assms(2) submission_of_def new_receipt_def meta_fields lift_text_def)
  then show ?thesis by (simp add: replay_receipt_def assms(2) submission_of_def new_receipt_def)
qed

lemma receipt_is_read:
  assumes "holds_receipt env q x (d_live d)" and "d_stages d = []" and "authorize (cq_device q) = None"
  shows "lookup_receipt env authorize (cq_device q) (jget (cq_metadata q) ''client_submission_id'') d = (Inr (Some x), d)"
proof -
  obtain m fingerprint key found v where a: "accepts env q m fingerprint key" "inventory env (d_live d) = Inr found"
    "map_of found (capture_path (cq_device q) key) = Some v" "replay_receipt env q m fingerprint v = Inr x"
    using assms(1) by (auto simp: holds_receipt_def)
  have x: "x = cs_receipt v" using a(4) by (auto simp: replay_receipt_def Let_def split: if_splits)
  have "jget (cq_metadata q) ''client_submission_id'' = JStr (cm_client m)"
    by (rule validated_client) (use a(1) in \<open>auto simp: accepts_def\<close>)
  moreover have "read_ready d = (Inr (), d)" using assms(2) by (simp add: read_ready_def bindA_def)
  ultimately show ?thesis
    using a assms(3) x by (simp add: lookup_receipt_def accepts_def bindA_def seqA_def guard_def)
qed

lemma receipt_is_replayed:
  assumes "holds_receipt env q x (d_live d)" and "lets_in g q"
  shows "submit env g hex now q d = (Inr x, d)"
  using assms by (auto simp: holds_receipt_def lets_in_def accepts_def submit_checks with_inventory_def)

lemma reuse_is_refused:
  assumes "holds_receipt env q x (d_live d)" and "same_identity q q'" and "\<not> same_content env q q'"
  shows "\<exists>e. submit env g hex now q' d = (Inl e, d)"
proof -
  obtain m fingerprint key found v where a: "accepts env q m fingerprint key" "inventory env (d_live d) = Inr found"
    "map_of found (capture_path (cq_device q) key) = Some v" "replay_receipt env q m fingerprint v = Inr x"
    using assms(1) by (auto simp: holds_receipt_def)
  have v: "stored_metadata env v = Some m" "cs_payload v = cq_payload q"
    using a(4) by (auto simp: replay_receipt_def Let_def split: if_splits)
  obtain r d' where run: "submit env g hex now q' d = (r, d')" by (cases "submit env g hex now q' d")
  then show ?thesis
  proof (cases rule: submit_prefix)
    case (started m' fingerprint' key' found')
    have "cm_client m' = cm_client m"
      using a(1) started(1) assms(2) validated_client by (fastforce simp: accepts_def same_identity_def)
    then have k: "capture_path (cq_device q') key' = capture_path (cq_device q) key"
      using a(1) started(1) assms(2) by (auto simp: accepts_def same_identity_def)
    have "stored_metadata env v \<noteq> Some m' \<or> cs_payload v \<noteq> cq_payload q'"
      using a(1) started(1) assms(3) v by (auto simp: accepts_def same_content_def)
    then have "replay_receipt env q' m' fingerprint' v = Inl (Journal_error ''conflicting Capture identity reuse'')"
      by (auto simp: replay_receipt_def)
    with started(2,3) a(2,3) k have "r = Inl (Journal_error ''conflicting Capture identity reuse'') \<and> d' = d"
      by (auto simp: with_inventory_def)
    then show ?thesis using run by simp
  qed (use run in auto)
qed

section \<open>A submission and its recoveries\<close>

text \<open>The record that a submission writes, when it writes one.\<close>

definition new_record :: "capture_env \<Rightarrow> string \<Rightarrow> capture_request \<Rightarrow> (string \<times> submission) option" where
  "new_record env now q =
     (case validate_capture_metadata (ca_request env) (cq_channel q) (cq_metadata q) of
        Inl _ \<Rightarrow> None
      | Inr m \<Rightarrow>
          (case (capture_payload_fingerprint (ca_request env) (cq_payload q) (meta_json m) (cq_channel q),
                 capture_scope_key (ca_request env) (cq_device q) (JStr (cm_client m))) of
             (Inr fingerprint, Inr key) \<Rightarrow> Some (key, submission_of env q m key fingerprint now)
           | _ \<Rightarrow> None))"

lemma accepts_record:
  "accepts env q m fingerprint key \<Longrightarrow> new_record env now q = Some (key, submission_of env q m key fingerprint now)"
  by (simp add: accepts_def new_record_def)

abbreviation with_record :: "capture_env \<Rightarrow> capture_request \<Rightarrow> string \<Rightarrow> submission \<Rightarrow> files \<Rightarrow> files" where
  "with_record env q key v L \<equiv> L(capture_path (cq_device q) key \<mapsto> ca_text env v)"

text \<open>
  Assumed of the surroundings: the text of that record is read back as the record, and the
  listings before and after its file is written hold the files of the journal.
\<close>

definition serves :: "capture_env \<Rightarrow> string \<Rightarrow> capture_request \<Rightarrow> files \<Rightarrow> bool" where
  "serves env now q L \<longleftrightarrow> lists_files env L
     \<and> (case new_record env now q of
          None \<Rightarrow> True
        | Some (key, v) \<Rightarrow> ca_load env (ca_text env v) = Some v \<and> lists_files env (with_record env q key v L)
            \<and> adds_directory env (cq_device q) L (with_record env q key v L))"

lemma submission_settles:
  assumes serves: "serves env now q (d_live s)" and hex: "length hex = 32" "list_all hexchar hex" and quiet: "d_stages s = []"
    and run: "submit env g hex now q s = (r, s')" and rec: "capture_recoveries env s' u"
    and opened: "recover_capture env (u\<lparr>d_fates := fs\<rparr>) = (Inr a, d)"
  shows "d_stages d = [] \<and> (d_live d = d_live s \<or> (\<exists>key v. new_record env now q = Some (key, v)
        \<and> d_live s (capture_path (cq_device q) key) = None \<and> d_live d = with_record env q key v (d_live s)))
    \<and> (\<forall>x. r = Inr x \<longrightarrow> holds_receipt env q x (d_live d))
    \<and> (\<forall>e. r = Inl e \<longrightarrow> e \<noteq> Commit_failed Crash \<longrightarrow> d_live d = d_live s)"
  using run
proof (cases rule: submit_cases)
  case (refused e)
  then show ?thesis using nothing_to_settle [of s env u fs a d] quiet rec opened by auto
next
  case (replayed m fingerprint key found v)
  then have "d_stages d = []" "d_live d = d_live s"
    using nothing_to_settle [of s env u fs a d] quiet rec opened by auto
  with replayed show ?thesis by (auto simp: holds_receipt_def)
next
  case (written m fingerprint key found v t0 t c)
  let ?p = "capture_path (cq_device q) key"
  have dev: "device_ok (cq_device q)" using written(1) by (auto simp: accepts_def capture_scope_key_def)
  have key: "prefixed_hex ''capture_'' 64 key"
    using written(4) by (auto simp: new_transaction_def accepts_owner_def CAPTURE_PROFILE_def split: if_splits)
  note tx = written_transaction [OF dev written(4,5)]
  have rec_v: "new_record env now q = Some (key, v)" using accepts_record [OF written(1)] written(2) by simp
  have lists: "lists_files env (d_live s)" and load: "ca_load env (ca_text env v) = Some v"
    and more: "lists_files env ((d_live s)(?p \<mapsto> ca_text env v))"
      "adds_directory env (cq_device q) (d_live s) ((d_live s)(?p \<mapsto> ca_text env v))"
    using serves rec_v by (auto simp: serves_def)
  have free: "d_live s ?p = None"
  proof -
    have "?p \<notin> set (journal_paths env (d_live s))"
      using written(3) by (auto simp: writable_def inventory_iff entry_look split: if_splits)
    then show ?thesis using lists capture_path_place by (auto simp: lists_files_def)
  qed
  have held: "holds_receipt env q (cs_receipt v) ((d_live s)(?p \<mapsto> ca_text env v))"
    using added_record(1) [OF written(3) dev key tx(4) load lists more] written(1) fresh_receipt_replays [OF written(1,2)]
    unfolding holds_receipt_def by blast
  note settled = commit_settles [OF dev written(4,5) hex quiet free written(6) rec opened]
  have r: "r = Inr x \<Longrightarrow> x = cs_receipt v \<and> c = Inr ()" "r = Inl e \<Longrightarrow> \<exists>y. e = Commit_failed y \<and> c = Inl y" for x e
    using written(7) by (cases c; auto simp: commit_result_def)+
  show ?thesis
  proof (intro conjI allI impI)
    show "d_stages d = []" by (rule settled(1))
    show "d_live d = d_live s \<or> (\<exists>key v. new_record env now q = Some (key, v)
        \<and> d_live s (capture_path (cq_device q) key) = None \<and> d_live d = with_record env q key v (d_live s))"
      using settled(2) free rec_v by auto
    show "holds_receipt env q x (d_live d)" if "r = Inr x" for x
      using r(1) [OF that] settled(3) held by simp
    show "d_live d = d_live s" if "r = Inl e" "e \<noteq> Commit_failed Crash" for e
      using r(2) [OF that(1)] that(2) settled(4) by auto
  qed
qed


text \<open>
  C15: The identity of a submission that returned is bound to its content: the same device and
  client identity with another payload or other metadata is refused, after any recoveries and
  whatever the guards say, and changes nothing.
\<close>

theorem submission_identity_is_bound:
  assumes "serves env now q (d_live s)" and "length hex = 32" and "list_all hexchar hex" and "d_stages s = []"
    and "submit env g hex now q s = (Inr x, s')" and "capture_recoveries env s' u"
    and "recover_capture env (u\<lparr>d_fates := fs\<rparr>) = (Inr a, d)"
    and "same_identity q q'" and "\<not> same_content env q q'"
  shows "\<exists>e. submit env g' hex' now' q' d = (Inl e, d)"
  using submission_settles [OF assms(1-7)] reuse_is_refused [OF _ assms(8,9)] by blast

end
