(* ===== verification/Capture_Example.thy ===== *)
theory Capture_Example
  imports Capture "HOL-Library.Code_Target_Nat"
begin

text \<open>
  A submission of one device, at which the properties of the capture journal are instantiated:
  stopped while it publishes and taken back, and accepted.
\<close>

definition device_c :: string where "device_c = ''dev_'' @ replicate 32 (CHR ''1'')"

definition request_c :: capture_request where
  "request_c = \<lparr>cq_device = device_c, cq_payload = ''hi'',
     cq_metadata = JObj [(''schema_version'', JInt 1), (''client_submission_id'', JStr ''00000000-0000-4000-8000-000000000000''),
       (''captured_at'', JStr ''2026-01-01T00:00:00Z''), (''mode'', JStr ''text''), (''channel'', JStr ''local_browser'')],
     cq_channel = ''local_browser''\<rparr>"

definition digest_env :: request_env where
  "digest_env = \<lparr>cr_sha = (\<lambda>_. replicate 64 (CHR ''b'')), cr_iso = (\<lambda>_. Some True), cr_dumps = (\<lambda>_. ''m'')\<rparr>"

definition commit_c :: commit_env where
  "commit_c = \<lparr>ce_sha = (\<lambda>_. replicate 64 (CHR ''b'')), ce_plain = (\<lambda>_. True), ce_manifest_size = (\<lambda>_. 900),
     ce_now = ''2026-01-01T00:00:00Z'', ce_listing = (\<lambda>_. [Marker_file])\<rparr>"

definition name_c :: string where "name_c = ''capture_'' @ replicate 64 (CHR ''b'')"

definition path_c :: string where "path_c = capture_path device_c name_c"

definition meta_c :: capture_meta where
  "meta_c = \<lparr>cm_client = ''00000000-0000-4000-8000-000000000000'', cm_captured_at = ''2026-01-01T00:00:00Z'', cm_mode = ''text'',
     cm_channel = ''local_browser'', cm_note = None, cm_area = None, cm_project = None, cm_filename = None, cm_mime = None\<rparr>"

definition record_c :: submission where
  "record_c = \<lparr>cs_instance = ''ins'', cs_receipt = new_receipt request_c meta_c name_c (replicate 64 (CHR ''b'')) ''t'',
     cs_payload = ''hi''\<rparr>"

definition env_c :: capture_env where
  "env_c = \<lparr>ca_commit = commit_c, ca_request = digest_env, ca_text = (\<lambda>_. ''R''),
     ca_load = (\<lambda>b. if b = ''R'' then Some record_c else None), ca_instance = ''ins'',
     ca_scan = (\<lambda>L. if L path_c = None then None else Some [(device_c, [name_c @ ''.json''])])\<rparr>"

definition guards_c :: capture_guards where
  "guards_c = \<lparr>cg_authorize = (\<lambda>_. None), cg_payload = (\<lambda>_ _. None), cg_admission = (\<lambda>_. None)\<rparr>"

definition disk_c :: "fate list \<Rightarrow> disk" where
  "disk_c fs = \<lparr>d_live = (\<lambda>_. None), d_stages = [], d_fates = fs\<rparr>"

definition submit_c :: "capture_request \<Rightarrow> capture_receipt cact" where
  "submit_c q = submit env_c guards_c (replicate 32 (CHR ''7'')) ''t'' q"

lemma accepted_c:
  "case submit_c request_c (disk_c []) of (Inl e, t) \<Rightarrow> False
   | (Inr x, t) \<Rightarrow> (case recover_capture env_c (t\<lparr>d_fates := []\<rparr>) of (Inr None, u) \<Rightarrow> True | _ \<Rightarrow> False)"
  by code_simp

text \<open>The process stops after the file is published, before the commit is sealed.\<close>

lemma stopped_c:
  "case submit_c request_c (disk_c [Goes, Goes, Goes, Goes, Stops]) of (Inr x, t) \<Rightarrow> False
   | (Inl e, t) \<Rightarrow> e = Commit_failed Crash \<and> d_live t path_c \<noteq> None
       \<and> (case recover_capture env_c (t\<lparr>d_fates := []\<rparr>) of (Inr (Some rep), u) \<Rightarrow> rr_rolled_back rep = 1 \<and> d_live u path_c = None | _ \<Rightarrow> False)"
  by code_simp

lemma record_c: "new_record env_c ''t'' request_c = Some (name_c, record_c)"
  by code_simp

lemma serves_c: "serves env_c ''t'' request_c (d_live (disk_c fs))"
proof -
  have paths: "journal_paths env_c (\<lambda>_. None) = []" "journal_paths env_c [path_c \<mapsto> ''R''] = [path_c]"
    "directories env_c (\<lambda>_. None) = []" "directories env_c [path_c \<mapsto> ''R''] = [device_c]"
    by (simp_all add: journal_paths_def directories_def env_c_def path_c_def capture_path_def)
  have json: "ca_text env_c v = ''R''" "ca_load env_c ''R'' = Some record_c" for v by (simp_all add: env_c_def)
  have place: "take 14 path_c = ''state/capture/''" unfolding path_c_def by (rule capture_path_place)
  have "cq_device request_c = device_c" by (simp add: request_c_def)
  moreover have "lists_files env_c (\<lambda>_. None)" "lists_files env_c [path_c \<mapsto> ''R'']"
    "adds_directory env_c device_c (\<lambda>_. None) [path_c \<mapsto> ''R'']"
    by (auto simp: lists_files_def adds_directory_def paths MAX_RECORDS_def place split: if_splits)
  ultimately show ?thesis
    by (simp add: serves_def record_c disk_c_def json path_c_def [symmetric])
qed

lemma digits_c: "length (replicate 32 (CHR ''7'')) = 32" "list_all hexchar (replicate 32 (CHR ''7''))"
  by (simp_all add: list_all_iff hexchar_def)


lemma submission_identity_is_bound_witness:
  "\<exists>x t u e. submit_c request_c (disk_c []) = (Inr x, t) \<and> recover_capture env_c (t\<lparr>d_fates := []\<rparr>) = (Inr None, u)
    \<and> submit_c (request_c\<lparr>cq_payload := ''ho''\<rparr>) u = (Inl e, u)"
proof -
  obtain x t u where run: "submit_c request_c (disk_c []) = (Inr x, t)"
    and rec: "recover_capture env_c (t\<lparr>d_fates := []\<rparr>) = (Inr None, u)"
    using accepted_c by (auto split: prod.splits sum.splits option.splits)
  have quiet: "d_stages (disk_c []) = []" by (simp add: disk_c_def)
  let ?q = "request_c\<lparr>cq_payload := ''ho''\<rparr>"
  have other: "same_identity request_c ?q" "\<not> same_content env_c request_c ?q"
    by (simp_all add: same_identity_def same_content_def request_c_def)
  from submission_identity_is_bound [OF serves_c digits_c quiet run [unfolded submit_c_def] recovered.none_yet rec other]
  show ?thesis using run rec unfolding submit_c_def by blast
qed

end
