(* ===== verification/Authority_Model.thy ===== *)
theory Authority_Model
  imports Capture_Commit
begin

text \<open>
  The authority of capture devices (core/provelume/capture_authority.py, class CaptureAuthority):
  the file of paired devices, pairing challenges, retrieval grants and audit rows, which every
  change replaces by an atomic commit, and the host key, which is not a file of the Instance.
  The lifecycle lock makes one call run at a time. Texts are lists of characters. The key file is
  the POSIX one; its permission bits are not modelled.
\<close>

section \<open>Records\<close>

record device_row =
  dr_label :: string
  dr_verifier :: string
  dr_issued :: string
  dr_revoked :: "string option"

record challenge_row =
  cr_verifier :: string
  cr_expires :: string
  cr_used :: "string option"

record audit_row =
  ar_id :: string
  ar_at :: string
  ar_action :: string
  ar_device :: "string option"

record grant_row =
  gr_verifier :: string
  gr_expires :: string
  gr_revoked :: "string option"
  gr_sources :: "string list"

text \<open>The retrieval grants are absent in schema 1. The scope of a device is constant.\<close>

record authority =
  at_instance :: string
  at_origin :: string
  at_binding :: string
  at_devices :: "(string \<times> device_row) list"
  at_challenges :: "challenge_row list"
  at_audit :: "audit_row list"
  at_retrieval :: "(string \<times> grant_row) list option"

record url_parts =
  up_scheme :: string
  up_host :: "string option"
  up_credentials :: bool
  up_extras :: bool
  up_path :: string
  up_port :: "int option"

text \<open>
  What this part takes from its surroundings: the commit, the text of an authority in its file
  and its parser, which checks the fields and their types; the identity of the Instance; ISO
  times (None for a text that is no time with an offset), digests, the parts of a URL (None when
  it has none), and whether the Instance has a source.
\<close>

record authority_env =
  au_commit :: commit_env
  au_text :: "authority \<Rightarrow> bytes"
  au_load :: "bytes \<Rightarrow> authority option"
  au_instance :: string
  au_stamp :: "string \<Rightarrow> int option"
  au_iso :: "int \<Rightarrow> string"
  au_sha :: "bytes \<Rightarrow> string"
  au_hmac :: "bytes \<Rightarrow> bytes \<Rightarrow> string"
  au_url :: "string \<Rightarrow> url_parts option"
  au_lower :: "string \<Rightarrow> string"
  au_source :: "files \<Rightarrow> string \<Rightarrow> bool"

record host =
  ah_disk :: disk
  ah_key :: "bytes option"

type_synonym 'a hact = "(host, capture_error, 'a) act"

definition MAX_DEVICES :: nat where "MAX_DEVICES = 128"
definition MAX_CHALLENGES :: nat where "MAX_CHALLENGES = 16"
definition MAX_AUDIT :: nat where "MAX_AUDIT = 4096"
definition AUTHORITY_PATH :: string where "AUTHORITY_PATH = ''state/capture-authority.json''"
definition MAX_AUTHORITY_BYTES :: nat where "MAX_AUTHORITY_BYTES = 4 * 1024 * 1024"

definition AUTHORITY_PROFILE :: profile where
  "AUTHORITY_PROFILE = \<lparr>pf_key = ''device-authority'', pf_kind = ''capture.authority'', pf_owner = ''inst_'',
     pf_owner_digits = 32,
     pf_limits = \<lparr>max_entries = 1, max_entry_bytes = MAX_AUTHORITY_BYTES, max_candidate_bytes = MAX_AUTHORITY_BYTES,
                  max_preimage_bytes = MAX_AUTHORITY_BYTES, max_journal_bytes = 8 * 1024 * 1024\<rparr>\<rparr>"

definition AUDIT_ACTIONS :: "string list" where
  "AUDIT_ACTIONS = [''configured'', ''challenge'', ''paired'', ''revoked'', ''retrieval_granted'', ''retrieval_revoked'']"

section \<open>Origins\<close>

definition space_char :: "char \<Rightarrow> bool" where
  "space_char c \<longleftrightarrow> (of_char c :: nat) \<in> set ([9..<14] @ [28..<33] @ [133, 160])"

definition origin_parts_ok :: "string \<Rightarrow> url_parts \<Rightarrow> bool" where
  "origin_parts_ok value p \<longleftrightarrow>
     up_scheme p = ''https'' \<and> up_host p \<noteq> None \<and> \<not> up_credentials p \<and> \<not> up_extras p
   \<and> up_path p \<in> {'''', ''/''} \<and> CHR 0x5C \<notin> set value \<and> \<not> list_ex space_char value
   \<and> (case up_port p of None \<Rightarrow> True | Some n \<Rightarrow> 1 \<le> n \<and> n \<le> 65535)"

definition trusted_capture_origin :: "authority_env \<Rightarrow> string \<Rightarrow> capture_error + string" where
  "trusted_capture_origin env value =
     (if length value > 512 then Inl (Journal_error ''Explicit HTTPS Capture origin required'')
      else case au_url env value of
        None \<Rightarrow> Inl (Journal_error ''Explicit HTTPS Capture origin required'')
      | Some p \<Rightarrow>
          if \<not> origin_parts_ok value p then Inl (Journal_error ''Explicit HTTPS Capture origin required'')
          else if value \<noteq> rev (dropWhile (\<lambda>c. c = CHR ''/'') (rev (au_lower env value)))
          then Inl (Journal_error ''Capture origin must be canonical without a trailing slash'')
          else Inr value)"

section \<open>Validation\<close>

definition stamp_ok :: "authority_env \<Rightarrow> string \<Rightarrow> bool" where
  "stamp_ok env s \<longleftrightarrow> au_stamp env s \<noteq> None"

definition label_ok :: "string \<Rightarrow> bool" where
  "label_ok l \<longleftrightarrow> 1 \<le> length l \<and> length l \<le> 80 \<and> list_all (\<lambda>c. 32 \<le> (of_char c :: nat)) l"

definition sources_ok :: "string list \<Rightarrow> bool" where
  "sources_ok ss \<longleftrightarrow> 1 \<le> length ss \<and> length ss \<le> 16 \<and> list_all (prefixed_hex ''src_'' 32) ss \<and> distinct ss"

definition grant_ok :: "authority_env \<Rightarrow> authority \<Rightarrow> string \<times> grant_row \<Rightarrow> bool" where
  "grant_ok env v x \<longleftrightarrow> (case x of (d, g) \<Rightarrow>
       d \<in> fst ` set (at_devices v) \<and> sha256_text (gr_verifier g) \<and> sources_ok (gr_sources g)
     \<and> stamp_ok env (gr_expires g) \<and> (gr_revoked g \<noteq> None \<longrightarrow> stamp_ok env (the (gr_revoked g))))"

definition device_row_ok :: "authority_env \<Rightarrow> string \<times> device_row \<Rightarrow> bool" where
  "device_row_ok env x \<longleftrightarrow> (case x of (d, r) \<Rightarrow>
       device_ok d \<and> label_ok (dr_label r) \<and> sha256_text (dr_verifier r) \<and> stamp_ok env (dr_issued r)
     \<and> (dr_revoked r \<noteq> None \<longrightarrow> stamp_ok env (the (dr_revoked r))))"

definition challenge_ok :: "authority_env \<Rightarrow> challenge_row \<Rightarrow> bool" where
  "challenge_ok env c \<longleftrightarrow> sha256_text (cr_verifier c) \<and> stamp_ok env (cr_expires c)
     \<and> (cr_used c \<noteq> None \<longrightarrow> stamp_ok env (the (cr_used c)))"

definition audit_ok :: "authority_env \<Rightarrow> authority \<Rightarrow> audit_row \<Rightarrow> bool" where
  "audit_ok env v a \<longleftrightarrow> prefixed_hex ''audit_'' 32 (ar_id a) \<and> ar_action a \<in> set AUDIT_ACTIONS
     \<and> (ar_device a \<noteq> None \<longrightarrow> the (ar_device a) \<in> fst ` set (at_devices v)) \<and> stamp_ok env (ar_at a)"

definition authority_ok :: "authority_env \<Rightarrow> authority \<Rightarrow> bool" where
  "authority_ok env v \<longleftrightarrow>
     at_instance v = au_instance env \<and> sha256_text (at_binding v) \<and> length (at_devices v) \<le> MAX_DEVICES
   \<and> length (at_challenges v) \<le> MAX_CHALLENGES \<and> length (at_audit v) \<le> MAX_AUDIT
   \<and> trusted_capture_origin env (at_origin v) = Inr (at_origin v)
   \<and> (case at_retrieval v of None \<Rightarrow> True | Some gs \<Rightarrow> length gs \<le> MAX_DEVICES \<and> list_all (grant_ok env v) gs)
   \<and> list_all (device_row_ok env) (at_devices v)
   \<and> distinct (map cr_verifier (at_challenges v)) \<and> list_all (challenge_ok env) (at_challenges v)
   \<and> distinct (map ar_id (at_audit v)) \<and> list_all (audit_ok env v) (at_audit v)"

definition validate_authority :: "authority_env \<Rightarrow> authority \<Rightarrow> capture_error + authority" where
  "validate_authority env v =
     (if authority_ok env v then Inr v else Inl (Journal_error ''Invalid Capture authority schema''))"

section \<open>The host\<close>

definition on_disk :: "'a cact \<Rightarrow> 'a hact" where
  "on_disk m = (\<lambda>s. case m (ah_disk s) of (r, d) \<Rightarrow> (r, s\<lparr>ah_disk := d\<rparr>))"

definition set_host_fates :: "fate list \<Rightarrow> host \<Rightarrow> host" where
  "set_host_fates fs s = s\<lparr>ah_disk := (ah_disk s)\<lparr>d_fates := fs\<rparr>\<rparr>"

text \<open>One write of the key file.\<close>

definition key_write :: "(host \<Rightarrow> host) \<Rightarrow> unit hact" where
  "key_write f = (\<lambda>s. case d_fates (ah_disk s) of
       [] \<Rightarrow> (Inr (), f s)
     | Goes # fs \<Rightarrow> (Inr (), f (set_host_fates fs s))
     | Fails # fs \<Rightarrow> (Inl (Commit_failed Io_error), set_host_fates fs s)
     | Stops # fs \<Rightarrow> (Inl (Commit_failed Crash), set_host_fates fs s))"

interpretation key_file: fated_disk "\<lambda>s. d_fates (ah_disk s)" set_host_fates key_write "Commit_failed Io_error" "Commit_failed Crash"
  by unfold_locales (simp_all add: key_write_def)

definition read_authority :: "authority_env \<Rightarrow> authority option hact" where
  "read_authority env =
     seqA (on_disk read_ready)
     (bindA (reads (\<lambda>s. d_live (ah_disk s) AUTHORITY_PATH)) (\<lambda>c. case c of
        None \<Rightarrow> ret None
      | Some data \<Rightarrow>
          seqA (require (length data \<le> MAX_AUTHORITY_BYTES) (Journal_error ''invalid Capture record size or kind''))
          (case au_load env data of
             None \<Rightarrow> raise (Journal_error ''Invalid Capture authority schema'')
           | Some v \<Rightarrow> bindA (of_result (validate_authority env v)) (\<lambda>w. ret (Some w)))))"

definition read_key :: "bytes option hact" where
  "read_key = bindA (reads ah_key) (\<lambda>k. case k of
       None \<Rightarrow> ret None
     | Some key \<Rightarrow>
         seqA (require (length key \<le> 4096) (Journal_error ''invalid Capture record size or kind''))
         (seqA (require (length key = 32) (Journal_error ''Capture host key is invalid'')) (ret (Some key))))"

text \<open>A missing key file is created empty and then filled.\<close>

definition create_key :: "bytes \<Rightarrow> bytes option hact" where
  "create_key fresh = bindA (reads ah_key) (\<lambda>k.
     seqA (if k = None
           then seqA (key_write (\<lambda>s. s\<lparr>ah_key := Some []\<rparr>)) (key_write (\<lambda>s. s\<lparr>ah_key := Some fresh\<rparr>))
           else ret ())
       read_key)"

definition binding :: "authority_env \<Rightarrow> bytes \<Rightarrow> string" where
  "binding env key = au_sha env (key @ au_instance env)"

definition token_ok :: "string \<Rightarrow> bool" where
  "token_ok s \<longleftrightarrow> length s = 43
     \<and> list_all (\<lambda>c. c \<in> set ''ABCDEFGHIJKLMNOPQRSTUVWXYZabcdefghijklmnopqrstuvwxyz0123456789_-'') s"

definition verifier :: "authority_env \<Rightarrow> bytes \<Rightarrow> string \<Rightarrow> string \<Rightarrow> string \<Rightarrow> capture_error + string" where
  "verifier env key secret purpose origin =
     (if token_ok secret
      then Inr (au_hmac env key (au_instance env @ '':'' @ origin @ '':'' @ purpose @ '':'' @ secret))
      else Inl (Denied ''Capture credential rejected''))"

definition add_audit :: "string \<Rightarrow> string \<Rightarrow> string \<Rightarrow> string option \<Rightarrow> authority \<Rightarrow> capture_error + authority" where
  "add_audit now i action device v =
     (if length (at_audit v) \<ge> MAX_AUDIT then Inl (Journal_error ''Capture authority audit full; history retained'')
      else Inr (v\<lparr>at_audit := at_audit v @ [\<lparr>ar_id = ''audit_'' @ i, ar_at = now, ar_action = action, ar_device = device\<rparr>]\<rparr>))"

definition write_authority :: "authority_env \<Rightarrow> string \<Rightarrow> authority \<Rightarrow> unit hact" where
  "write_authority env hex v =
     bindA (of_result (validate_authority env v)) (\<lambda>_.
     bindA (on_disk (in_commit (of_result (new_transaction AUTHORITY_PROFILE (au_instance env))))) (\<lambda>t0.
     bindA (on_disk (in_commit (of_result (add_write (au_commit env) t0 AUTHORITY_PATH (au_text env v) False)))) (\<lambda>t.
       on_disk (in_commit (commit (au_commit env) t hex)))))"

section \<open>The owner and the clock\<close>

text \<open>
  The owner is asked before and under the lock: \<open>Some\<close> why a question is refused. A call reads
  the clock once, as a text and as microseconds; its transaction and its audit row get fresh
  identifiers.
\<close>

record call =
  ca_before :: "string option"
  ca_under :: "string option"
  ca_now :: string
  ca_time :: int
  ca_hex :: string
  ca_audit :: string

definition bound_to :: "authority_env \<Rightarrow> authority option \<Rightarrow> bytes option \<Rightarrow> bool" where
  "bound_to env v k \<longleftrightarrow> (case (v, k) of (Some a, Some key) \<Rightarrow> at_binding a = binding env key | _ \<Rightarrow> False)"

section \<open>Configuration\<close>

record device_view =
  dw_device :: string
  dw_label :: string
  dw_issued :: string
  dw_revoked :: "string option"

record authority_view =
  vw_origin :: "string option"
  vw_active :: bool
  vw_devices :: "device_view list"

definition management :: "authority_env \<Rightarrow> authority_view hact" where
  "management env = bindA (read_authority env) (\<lambda>v. case v of
       None \<Rightarrow> ret \<lparr>vw_origin = None, vw_active = False, vw_devices = []\<rparr>
     | Some a \<Rightarrow> bindA read_key (\<lambda>k.
         ret \<lparr>vw_origin = Some (at_origin a), vw_active = bound_to env v k,
              vw_devices = map (\<lambda>(d, r). \<lparr>dw_device = d, dw_label = dr_label r, dw_issued = dr_issued r,
                                          dw_revoked = dr_revoked r\<rparr>) (at_devices a)\<rparr>))"

definition or_now :: "string \<Rightarrow> string option \<Rightarrow> string option" where
  "or_now now x = (case x of None \<Rightarrow> Some now | Some t \<Rightarrow> Some t)"

definition revoke_all :: "string \<Rightarrow> authority \<Rightarrow> authority" where
  "revoke_all now v = v
     \<lparr>at_devices := map (\<lambda>(d, r). (d, r\<lparr>dr_revoked := or_now now (dr_revoked r)\<rparr>)) (at_devices v),
      at_retrieval := map_option (map (\<lambda>(d, g). (d, g\<lparr>gr_revoked := or_now now (gr_revoked g)\<rparr>))) (at_retrieval v)\<rparr>"

definition new_authority :: "authority_env \<Rightarrow> string \<Rightarrow> bytes \<Rightarrow> authority" where
  "new_authority env origin key = \<lparr>at_instance = au_instance env, at_origin = origin, at_binding = binding env key,
     at_devices = [], at_challenges = [], at_audit = [], at_retrieval = None\<rparr>"

definition configured :: "authority_env \<Rightarrow> call \<Rightarrow> string \<Rightarrow> bytes \<Rightarrow> authority option \<Rightarrow> capture_error + authority" where
  "configured env c origin key previous =
     (let v = (case previous of None \<Rightarrow> new_authority env origin key | Some a \<Rightarrow> a) in
      add_audit (ca_now c) (ca_audit c) ''configured'' None
        ((revoke_all (ca_now c) v)\<lparr>at_origin := origin, at_binding := binding env key, at_challenges := []\<rparr>))"

definition configure :: "authority_env \<Rightarrow> call \<Rightarrow> bytes \<Rightarrow> bool \<Rightarrow> string \<Rightarrow> authority_view hact" where
  "configure env c fresh confirm origin =
     bindA (of_result (trusted_capture_origin env origin)) (\<lambda>origin.
     seqA (require confirm (Denied ''Explicit rebind/revocation confirmation required''))
     (seqA (on_disk (guard (ca_before c)))
     (seqA (on_disk (guard (ca_under c)))
     (bindA (read_authority env) (\<lambda>previous.
      bindA (create_key fresh) (\<lambda>k.
      bindA (of_result (configured env c origin (the k) previous)) (\<lambda>v.
      seqA (write_authority env (ca_hex c) v) (management env))))))))"

section \<open>Pairing\<close>

definition open_challenges :: "authority_env \<Rightarrow> int \<Rightarrow> authority \<Rightarrow> challenge_row list" where
  "open_challenges env time v = filter (\<lambda>r. cr_used r = None \<and> time < the (au_stamp env (cr_expires r))) (at_challenges v)"

definition challenged :: "authority_env \<Rightarrow> call \<Rightarrow> bytes \<Rightarrow> string \<Rightarrow> authority \<Rightarrow> capture_error + authority" where
  "challenged env c key secret v =
     (let rows = open_challenges env (ca_time c) v in
      if length rows \<ge> MAX_CHALLENGES then Inl (Journal_error ''Capture pairing challenge bound reached'')
      else (case verifier env key secret ''pair'' (at_origin v) of
          Inl e \<Rightarrow> Inl e
        | Inr x \<Rightarrow> add_audit (ca_now c) (ca_audit c) ''challenge'' None
            (v\<lparr>at_challenges := rows @ [\<lparr>cr_verifier = x, cr_expires = au_iso env (ca_time c + 120 * 1000000), cr_used = None\<rparr>]\<rparr>)))"

definition challenge :: "authority_env \<Rightarrow> call \<Rightarrow> string \<Rightarrow> string hact" where
  "challenge env c secret =
     seqA (on_disk (guard (ca_before c)))
     (seqA (on_disk (guard (ca_under c)))
     (bindA (read_authority env) (\<lambda>v.
      bindA read_key (\<lambda>k.
      seqA (require (bound_to env v k) (Denied ''Configure/rebind Capture explicitly before pairing''))
      (bindA (of_result (challenged env c (the k) secret (the v))) (\<lambda>w.
      seqA (write_authority env (ca_hex c) w) (ret secret)))))))"

definition use_challenge :: "string \<Rightarrow> string \<Rightarrow> challenge_row list \<Rightarrow> challenge_row list" where
  "use_challenge x now rows =
     (case dropWhile (\<lambda>r. cr_verifier r \<noteq> x) rows of
        [] \<Rightarrow> rows
      | r # rest \<Rightarrow> takeWhile (\<lambda>r. cr_verifier r \<noteq> x) rows @ r\<lparr>cr_used := Some now\<rparr> # rest)"

definition redeemed ::
  "authority_env \<Rightarrow> call \<Rightarrow> bytes \<Rightarrow> string \<Rightarrow> string \<Rightarrow> string \<Rightarrow> string \<Rightarrow> string \<Rightarrow> authority \<Rightarrow> capture_error + authority" where
  "redeemed env c key secret label origin device token v =
     (case verifier env key secret ''pair'' origin of
        Inl e \<Rightarrow> Inl e
      | Inr x \<Rightarrow>
          (case find (\<lambda>r. cr_verifier r = x) (at_challenges v) of
             None \<Rightarrow> Inl (Denied ''Capture pairing challenge expired or used'')
           | Some r \<Rightarrow>
               if cr_used r \<noteq> None \<or> the (au_stamp env (cr_expires r)) \<le> ca_time c
               then Inl (Denied ''Capture pairing challenge expired or used'')
               else if length (at_devices v) \<ge> MAX_DEVICES then Inl (Journal_error ''Capture device bound reached'')
               else (case verifier env key token ''credential'' origin of
                   Inl e \<Rightarrow> Inl e
                 | Inr y \<Rightarrow>
                     if device \<in> fst ` set (at_devices v) \<or> list_ex (\<lambda>x. dr_verifier (snd x) = y) (at_devices v)
                     then Inl (Journal_error ''Capture credential or device identity conflict'')
                     else add_audit (ca_now c) (ca_audit c) ''paired'' (Some device)
                       (v\<lparr>at_challenges := use_challenge x (ca_now c) (at_challenges v),
                          at_devices := at_devices v @ [(device, \<lparr>dr_label = label, dr_verifier = y, dr_issued = ca_now c, dr_revoked = None\<rparr>)]\<rparr>))))"

definition redeem :: "authority_env \<Rightarrow> call \<Rightarrow> string \<Rightarrow> string \<Rightarrow> string \<Rightarrow> string \<Rightarrow> string \<Rightarrow> (string \<times> string) hact" where
  "redeem env c secret label origin device_hex token =
     seqA (require (label_ok label) (Journal_error ''Capture device label is invalid''))
     (bindA (read_authority env) (\<lambda>v.
      bindA read_key (\<lambda>k.
      seqA (require (bound_to env v k \<and> at_origin (the v) = origin) (Denied ''Capture pairing destination rejected''))
      (bindA (of_result (redeemed env c (the k) secret label origin (''dev_'' @ device_hex) token (the v))) (\<lambda>w.
      seqA (write_authority env (ca_hex c) w) (ret (''dev_'' @ device_hex, token)))))))"

section \<open>Authorisation and revocation\<close>

definition credential_ok :: "authority_env \<Rightarrow> bytes \<Rightarrow> string \<Rightarrow> string \<Rightarrow> string \<Rightarrow> authority \<Rightarrow> capture_error + unit" where
  "credential_ok env key device token origin v =
     (case map_of (at_devices v) device of
        None \<Rightarrow> Inl (Denied ''Capture credential rejected or revoked'')
      | Some r \<Rightarrow>
          if dr_revoked r \<noteq> None then Inl (Denied ''Capture credential rejected or revoked'')
          else (case verifier env key token ''credential'' origin of
              Inl e \<Rightarrow> Inl e
            | Inr y \<Rightarrow> if dr_verifier r = y then Inr () else Inl (Denied ''Capture credential rejected or revoked'')))"

definition authorize :: "authority_env \<Rightarrow> string \<Rightarrow> string \<Rightarrow> string \<Rightarrow> unit hact" where
  "authorize env device token origin =
     bindA (read_authority env) (\<lambda>v.
     bindA read_key (\<lambda>k.
     seqA (require (bound_to env v k \<and> at_origin (the v) = origin)
             (Denied ''Capture authority unavailable; explicit pairing required''))
       (of_result (credential_ok env (the k) device token origin (the v)))))"

definition revoked :: "call \<Rightarrow> string \<Rightarrow> device_row \<Rightarrow> authority \<Rightarrow> capture_error + authority" where
  "revoked c device r v = add_audit (ca_now c) (ca_audit c) ''revoked'' (Some device)
     (v\<lparr>at_devices := AList.update device (r\<lparr>dr_revoked := Some (ca_now c)\<rparr>) (at_devices v)\<rparr>)"

definition revoke :: "authority_env \<Rightarrow> call \<Rightarrow> string \<Rightarrow> authority_view hact" where
  "revoke env c device =
     seqA (on_disk (guard (ca_before c)))
     (seqA (on_disk (guard (ca_under c)))
     (bindA (read_authority env) (\<lambda>v.
      case (case v of None \<Rightarrow> None | Some a \<Rightarrow> map_of (at_devices a) device) of
        None \<Rightarrow> raise (Journal_error ''Capture device unavailable'')
      | Some r \<Rightarrow>
          seqA (if dr_revoked r = None
                then bindA (of_result (revoked c device r (the v))) (\<lambda>w. write_authority env (ca_hex c) w)
                else ret ())
            (management env))))"

section \<open>Retrieval\<close>

definition granted ::
  "authority_env \<Rightarrow> call \<Rightarrow> bytes \<Rightarrow> string \<Rightarrow> string list \<Rightarrow> int \<Rightarrow> string \<Rightarrow> authority \<Rightarrow> capture_error + authority" where
  "granted env c key device ids seconds token v =
     (case verifier env key token (''retrieval:'' @ device) (at_origin v) of
        Inl e \<Rightarrow> Inl e
      | Inr x \<Rightarrow> add_audit (ca_now c) (ca_audit c) ''retrieval_granted'' (Some device)
          (v\<lparr>at_retrieval := Some (AList.update device
               \<lparr>gr_verifier = x, gr_expires = au_iso env (ca_time c + seconds * 1000000), gr_revoked = None, gr_sources = sort ids\<rparr>
               (case at_retrieval v of None \<Rightarrow> [] | Some gs \<Rightarrow> gs))\<rparr>))"

definition active_device :: "string \<Rightarrow> authority \<Rightarrow> bool" where
  "active_device device v \<longleftrightarrow> (case map_of (at_devices v) device of None \<Rightarrow> False | Some r \<Rightarrow> dr_revoked r = None)"

definition grant_retrieval :: "authority_env \<Rightarrow> call \<Rightarrow> string \<Rightarrow> string list \<Rightarrow> int \<Rightarrow> string \<Rightarrow> string hact" where
  "grant_retrieval env c device ids seconds token =
     seqA (on_disk (guard (ca_before c)))
     (seqA (require (device_ok device) (Journal_error ''Retrieval device identity is invalid''))
     (seqA (require (60 \<le> seconds \<and> seconds \<le> 86400) (Journal_error ''Retrieval grant must expire in 60-86400 seconds''))
     (seqA (require (sources_ok ids) (Journal_error ''Select 1-16 distinct existing Sources explicitly''))
     (seqA (on_disk (guard (ca_under c)))
     (bindA (read_authority env) (\<lambda>v.
      bindA read_key (\<lambda>k.
      seqA (require (bound_to env v k \<and> active_device device (the v))
              (Denied ''Active paired device required for separate retrieval grant''))
      (bindA (reads (\<lambda>s. d_live (ah_disk s))) (\<lambda>L.
      seqA (require (list_all (au_source env L) ids) (Journal_error ''Retrieval Source unavailable''))
      (bindA (of_result (granted env c (the k) device ids seconds token (the v))) (\<lambda>w.
      seqA (write_authority env (ca_hex c) w) (ret token))))))))))))"

definition grant_of :: "string \<Rightarrow> authority \<Rightarrow> grant_row option" where
  "grant_of device v = (case at_retrieval v of None \<Rightarrow> None | Some gs \<Rightarrow> map_of gs device)"

definition retrieval_ok ::
  "authority_env \<Rightarrow> int \<Rightarrow> bytes \<Rightarrow> string \<Rightarrow> string \<Rightarrow> string \<Rightarrow> authority \<Rightarrow> capture_error + (string list \<times> string)" where
  "retrieval_ok env time key device token origin v =
     (case grant_of device v of
        None \<Rightarrow> Inl (Denied ''Separate retrieval grant expired, revoked or unavailable'')
      | Some g \<Rightarrow>
          if \<not> active_device device v \<or> gr_revoked g \<noteq> None \<or> the (au_stamp env (gr_expires g)) \<le> time
          then Inl (Denied ''Separate retrieval grant expired, revoked or unavailable'')
          else (case verifier env key token (''retrieval:'' @ device) origin of
              Inl e \<Rightarrow> Inl e
            | Inr y \<Rightarrow> if gr_verifier g = y then Inr (gr_sources g, gr_expires g)
                       else Inl (Denied ''Separate retrieval grant expired, revoked or unavailable'')))"

definition authorize_retrieval :: "authority_env \<Rightarrow> int \<Rightarrow> string \<Rightarrow> string \<Rightarrow> string \<Rightarrow> (string list \<times> string) hact" where
  "authorize_retrieval env time device token origin =
     bindA (read_authority env) (\<lambda>v.
     bindA read_key (\<lambda>k.
     seqA (require (bound_to env v k \<and> at_origin (the v) = origin) (Denied ''Retrieval authority unavailable''))
       (of_result (retrieval_ok env time (the k) device token origin (the v)))))"

definition grant_revoked :: "call \<Rightarrow> string \<Rightarrow> grant_row \<Rightarrow> authority \<Rightarrow> capture_error + authority" where
  "grant_revoked c device g v = add_audit (ca_now c) (ca_audit c) ''retrieval_revoked'' (Some device)
     (v\<lparr>at_retrieval := map_option (AList.update device (g\<lparr>gr_revoked := Some (ca_now c)\<rparr>)) (at_retrieval v)\<rparr>)"

definition revoke_retrieval :: "authority_env \<Rightarrow> call \<Rightarrow> string \<Rightarrow> unit hact" where
  "revoke_retrieval env c device =
     seqA (on_disk (guard (ca_before c)))
     (seqA (on_disk (guard (ca_under c)))
     (bindA (read_authority env) (\<lambda>v.
      case (case v of None \<Rightarrow> None | Some a \<Rightarrow> grant_of device a) of
        None \<Rightarrow> raise (Journal_error ''Retrieval grant unavailable'')
      | Some g \<Rightarrow>
          if gr_revoked g = None
          then bindA (of_result (grant_revoked c device g (the v))) (\<lambda>w. write_authority env (ca_hex c) w)
          else ret ())))"

section \<open>Recovery\<close>

definition authority_handler :: recovery_handler where
  "authority_handler = \<lparr>rh_profile = AUTHORITY_PROFILE, rh_interrupted = None\<rparr>"

definition authority_file :: "authority_env \<Rightarrow> bytes option \<Rightarrow> unit cact" where
  "authority_file env c = (case c of
       None \<Rightarrow> ret ()
     | Some data \<Rightarrow>
         seqA (require (length data \<le> MAX_AUTHORITY_BYTES) (Journal_error ''invalid Capture record size or kind''))
         (case au_load env data of
            None \<Rightarrow> raise (Journal_error ''Invalid Capture authority schema'')
          | Some v \<Rightarrow> bindA (of_result (validate_authority env v)) (\<lambda>_. ret ())))"

definition check_authority_stage :: "authority_env \<Rightarrow> nat \<times> string \<times> stage \<Rightarrow> unit cact" where
  "check_authority_stage env x = (case x of (index, i, st) \<Rightarrow>
     seqA (require (index < MAX_AUDIT) (Journal_error ''Capture authority recovery bound reached''))
       (case sg_marker st of
          No_marker \<Rightarrow> ret ()
        | Bad_marker \<Rightarrow> raise (Journal_error [])
        | Marker m \<Rightarrow>
            seqA (require (ce_manifest_size (au_commit env) m \<le> manifest_byte_limit 1) (Journal_error []))
            (bindA (reads (\<lambda>s. validate_manifest (au_commit env) AUTHORITY_PROFILE i s st m)) (\<lambda>valid.
             seqA (require valid (Journal_error []))
            (seqA (require (m_owner m = au_instance env \<and> length (m_entries m) = 1)
                     (Journal_error ''Capture authority recovery identity rejected''))
               (let e = hd (m_entries m) in
                seqA (require (e_relative e = AUTHORITY_PATH \<and> \<not> e_immutable e)
                        (Journal_error ''Capture authority recovery outside domain allowlist''))
                (seqA (authority_file env (sg_files st (e_cand_ref e)))
                (seqA (bindA (reads (\<lambda>s. d_live s AUTHORITY_PATH)) (authority_file env))
                  (if e_had e then authority_file env (sg_files st (the (e_pre_ref e))) else ret ())))))))))"

definition recover_authority :: "authority_env \<Rightarrow> recovery_report option cact" where
  "recover_authority env =
     bindA (reads (\<lambda>s. filter (\<lambda>x. take 17 (fst x) = ''device-authority-'') (d_stages s))) (\<lambda>stages.
     seqA (for_each (check_authority_stage env) (zip [0..<length stages] stages))
       (in_commit (recover_transactions (au_commit env) [authority_handler])))"

end
