(* ===== verification/Authority_Commit.thy ===== *)
theory Authority_Commit
  imports Authority_Model
begin

text \<open>
  The commit of the authority file as a change that recoveries settle, and its effect on a host
  at rest: after a failure or a stop at any write, and any recoveries, the file is the old one or
  the new one, and the new one when the call had returned.
\<close>

section \<open>Actions of the host\<close>

abbreviation htriple :: "(host \<Rightarrow> bool) \<Rightarrow> 'a hact \<Rightarrow> ('a \<Rightarrow> host \<Rightarrow> bool) \<Rightarrow> (host \<Rightarrow> bool) \<Rightarrow> (host \<Rightarrow> bool) \<Rightarrow> bool" where
  "htriple \<equiv> hoare (Commit_failed Crash)"

lemma on_disk_triple:
  "ctriple P m Q E C \<Longrightarrow> htriple (\<lambda>s. P (ah_disk s)) (on_disk m) (\<lambda>x s. Q x (ah_disk s)) (\<lambda>s. E (ah_disk s)) (\<lambda>s. C (ah_disk s))"
  unfolding hoare_def on_disk_def by (auto split: prod.splits sum.splits)

lemma on_disk_key: "on_disk m s = (r, t) \<Longrightarrow> ah_key t = ah_key s"
  by (auto simp: on_disk_def split: prod.splits)

lemma on_disk_steps:
  "on_disk (in_commit (of_result c)) s = ((case c of Inl e \<Rightarrow> Inl (Commit_failed e) | Inr x \<Rightarrow> Inr x), s)"
  "bindA (on_disk (in_commit (of_result c))) k s = (case c of Inl e \<Rightarrow> (Inl (Commit_failed e), s) | Inr x \<Rightarrow> k x s)"
  "seqA (on_disk (guard x)) m s = (case x of None \<Rightarrow> m s | Some why \<Rightarrow> (Inl (Denied why), s))"
  by (simp_all add: bindA_def seqA_def on_disk_def in_commit_def guard_def split: sum.split option.split)

section \<open>The transaction\<close>

lemma authority_path_normal: "normalise_locator AUTHORITY_PATH = Some AUTHORITY_PATH"
  by (simp add: AUTHORITY_PATH_def normalise_locator_def)

lemma authority_profile_ok: "profile_ok AUTHORITY_PROFILE"
  by (simp add: profile_ok_def AUTHORITY_PROFILE_def limits_ok_def profile_key_ok_def MAX_AUTHORITY_BYTES_def)

lemma authority_transaction:
  assumes t0: "new_transaction AUTHORITY_PROFILE owner = Inr t0"
    and t: "add_write ce t0 AUTHORITY_PATH data False = Inr t"
  shows "tx_ok ce t" and "tx_profile t = AUTHORITY_PROFILE" and "new_live t L = L(AUTHORITY_PATH \<mapsto> data)"
    and "length data \<le> MAX_AUTHORITY_BYTES"
proof -
  have t0': "t0 = \<lparr>tx_profile = AUTHORITY_PROFILE, tx_owner = owner, tx_writes = [], tx_removals = [], tx_bytes = 0\<rparr>"
    using t0 by (auto simp: new_transaction_def split: if_splits)
  have "instance_target ce AUTHORITY_PATH = None \<or> instance_target ce AUTHORITY_PATH = Some AUTHORITY_PATH"
    using authority_path_normal by (auto simp: instance_target_def)
  with t have "instance_target ce AUTHORITY_PATH = Some AUTHORITY_PATH" by (auto simp: add_write_def)
  with t have t': "t = t0\<lparr>tx_writes := [(AUTHORITY_PATH, Some data, False)], tx_bytes := length data\<rparr>"
    and len: "length data \<le> MAX_AUTHORITY_BYTES"
    by (auto simp: add_write_def t0' Let_def AUTHORITY_PROFILE_def split: if_splits)
  show "tx_ok ce t" by (rule tx_ok_add [OF tx_ok_new [OF t0] t])
  show "tx_profile t = AUTHORITY_PROFILE" "new_live t L = L(AUTHORITY_PATH \<mapsto> data)" by (auto simp: new_live_def t' t0')
  show "length data \<le> MAX_AUTHORITY_BYTES" by (rule len)
qed

lemma authority_plain: "plain_handler authority_handler AUTHORITY_PROFILE"
  by (simp add: plain_handler_def authority_handler_def)

section \<open>Recovery\<close>

lemma authority_file_inspects: "inspects (authority_file env c)"
  unfolding authority_file_def validate_authority_def
  by (auto intro!: inspecting split: option.split)

lemma check_authority_inspects: "inspects (check_authority_stage env x)"
  unfolding check_authority_stage_def Let_def
  by (cases x) (auto intro!: inspecting authority_file_inspects split: marker.split)

lemma recover_authority_triple:
  assumes "triple P (recover_transactions (au_commit env) [authority_handler]) (\<lambda>_. Q) P P"
  shows "ctriple P (recover_authority env) (\<lambda>_. Q) P P"
  unfolding recover_authority_def by (rule checked_recovery_triple [OF check_authority_inspects assms])

abbreviation authority_plan :: "authority_env \<Rightarrow> string \<Rightarrow> files \<Rightarrow> files \<Rightarrow> bool" where
  "authority_plan env i L N \<equiv> commit_plain authority_handler AUTHORITY_PROFILE i (au_commit env) L N"

abbreviation au_undecided :: "authority_env \<Rightarrow> string \<Rightarrow> files \<Rightarrow> files \<Rightarrow> disk \<Rightarrow> bool" where
  "au_undecided env i L N d \<equiv> authority_plan env i L N \<and> undecided (au_commit env) AUTHORITY_PROFILE i L N d"

abbreviation au_decided :: "authority_env \<Rightarrow> string \<Rightarrow> files \<Rightarrow> files \<Rightarrow> disk \<Rightarrow> bool" where
  "au_decided env i L N d \<equiv> authority_plan env i L N \<and> decided (au_commit env) AUTHORITY_PROFILE i L N d"

interpretation authority_change: journaled_change "\<lambda>_ :: unit. on_disk (recover_authority env)" set_host_fates
  "Commit_failed Crash" "\<lambda>s. au_undecided env i L N (ah_disk s)" "\<lambda>s. au_decided env i L N (ah_disk s)"
  "\<lambda>s. authority_plan env i L N \<and> gone L () (ah_disk s)" "\<lambda>s. authority_plan env i L N \<and> gone N () (ah_disk s)"
  for env i L N
proof
  show "htriple (\<lambda>s. au_undecided env i L N (ah_disk s)) (on_disk (recover_authority env))
     (\<lambda>_ s. authority_plan env i L N \<and> gone L () (ah_disk s))
     (\<lambda>s. au_undecided env i L N (ah_disk s)) (\<lambda>s. au_undecided env i L N (ah_disk s))"
    by (rule on_disk_triple [OF recover_authority_triple [OF recover_undecided_plain]])
  show "htriple (\<lambda>s. au_decided env i L N (ah_disk s)) (on_disk (recover_authority env))
     (\<lambda>_ s. authority_plan env i L N \<and> gone N () (ah_disk s))
     (\<lambda>s. au_decided env i L N (ah_disk s)) (\<lambda>s. au_decided env i L N (ah_disk s))"
    by (rule on_disk_triple [OF recover_authority_triple [OF recover_decided_plain]])
qed (auto simp: set_host_fates_def intro: gone_again)

abbreviation authority_recoveries :: "authority_env \<Rightarrow> host \<Rightarrow> host \<Rightarrow> bool" where
  "authority_recoveries env \<equiv> recovered (\<lambda>_ :: unit. on_disk (recover_authority env)) set_host_fates"

lemma recoveries_keep_key: "authority_recoveries env s t \<Longrightarrow> ah_key t = ah_key s"
  by (induction rule: recovered.induct) (auto simp: set_host_fates_def dest: on_disk_key)

section \<open>A write of the file\<close>

definition at_rest :: "files \<Rightarrow> host \<Rightarrow> bool" where
  "at_rest L s \<longleftrightarrow> d_stages (ah_disk s) = [] \<and> d_live (ah_disk s) = L"

abbreviation with_authority :: "authority_env \<Rightarrow> authority \<Rightarrow> files \<Rightarrow> files" where
  "with_authority env v L \<equiv> L(AUTHORITY_PATH \<mapsto> au_text env v)"

lemma quiet_undecided: "undecided ce p i L N d \<Longrightarrow> d_stages d = [] \<Longrightarrow> d_live d = L"
  by (auto simp: undecided_def dest: in_stageD)

lemma quiet_decided: "decided ce p i L N d \<Longrightarrow> d_stages d = [] \<Longrightarrow> d_live d = N"
  by (auto simp: decided_def dest: in_stageD)

lemma host_commit:
  assumes tx: "tx_ok (au_commit env) t" "tx_profile t = AUTHORITY_PROFILE" "new_live t L = N"
    and hex: "length hex = 32" "list_all hexchar hex" and rest: "at_rest L s" and apart: "no_collision (au_commit env) L N"
    and run: "on_disk (in_commit (commit (au_commit env) t hex)) s = (r, s')"
    and rec: "authority_recoveries env s' u" and quiet: "d_stages (ah_disk u) = []"
  shows "at_rest L u \<or> at_rest N u" and "r = Inr x \<Longrightarrow> at_rest N u"
    and "r = Inl e \<Longrightarrow> e \<noteq> Commit_failed Crash \<Longrightarrow> at_rest L u"
proof -
  let ?i = "stage_name t hex" and ?ce = "au_commit env"
  obtain c d where c: "commit ?ce t hex (ah_disk s) = (c, d)" by (cases "commit ?ce t hex (ah_disk s)")
  then have s': "s' = s\<lparr>ah_disk := d\<rparr>" and r: "r = (case c of Inl e \<Rightarrow> Inl (Commit_failed e) | Inr x \<Rightarrow> Inr x)"
    using run by (cases c; auto simp: on_disk_def in_commit_def)+
  have i: "transaction_ok AUTHORITY_PROFILE ?i" using stage_name_ok [OF hex, of t] tx(2) by simp
  have plan: "authority_plan env ?i L N" using i apart authority_plain by (simp add: commit_plain_def)
  have idle: "idle L (ah_disk s)" using rest by (simp add: idle_def upon_def at_rest_def)
  note finished = tripleD [OF commit_triple [OF tx(1), of hex L, unfolded tx(2,3), OF authority_profile_ok i apart] idle]
  have un: "undecided ?ce AUTHORITY_PROFILE ?i L N d \<Longrightarrow> at_rest L u"
    using authority_change.recovered_undecided [OF rec, of ?i L N] plan quiet_undecided quiet s'
    by (auto simp: at_rest_def)
  have de: "decided ?ce AUTHORITY_PROFILE ?i L N d \<Longrightarrow> at_rest N u"
    using authority_change.recovered_decided [OF rec, of ?i L N] plan quiet_decided quiet s'
    by (auto simp: at_rest_def)
  have "(at_rest L u \<or> at_rest N u) \<and> (\<forall>x. r = Inr x \<longrightarrow> at_rest N u)
      \<and> (\<forall>e. r = Inl e \<longrightarrow> e \<noteq> Commit_failed Crash \<longrightarrow> at_rest L u)"
  proof (cases c)
    case (Inr x)
    with finished(1) c de r show ?thesis by auto
  next
    case (Inl e)
    with finished(2,3) c un de r show ?thesis by (cases "e = Crash") auto
  qed
  then show "at_rest L u \<or> at_rest N u" "r = Inr x \<Longrightarrow> at_rest N u"
    "r = Inl e \<Longrightarrow> e \<noteq> Commit_failed Crash \<Longrightarrow> at_rest L u" by blast+
qed

lemma rest_stays:
  assumes "at_rest L s" and "authority_recoveries env s u" and "d_stages (ah_disk u) = []"
  shows "at_rest L u"
proof -
  let ?i = "''device-authority-'' @ replicate 32 (CHR ''0'')"
  have "authority_plan env ?i L L"
    using authority_plain by (simp add: commit_plain_def transaction_ok_def AUTHORITY_PROFILE_def no_collision_def
        prefixed_hex_def hexchar_def list_all_iff)
  moreover have "undecided (au_commit env) AUTHORITY_PROFILE ?i L L (ah_disk s)"
    using assms(1) by (intro idle_undecided) (simp add: at_rest_def idle_def upon_def)
  ultimately have "undecided (au_commit env) AUTHORITY_PROFILE ?i L L (ah_disk u)"
    using authority_change.recovered_undecided [OF assms(2), of ?i L L] by blast
  then show ?thesis using quiet_undecided assms(3) by (simp add: at_rest_def)
qed

text \<open>The digest tells the current file from any other text that may replace it.\<close>

definition tells_apart :: "authority_env \<Rightarrow> files \<Rightarrow> bool" where
  "tells_apart env L \<longleftrightarrow> (\<forall>b v. L AUTHORITY_PATH = Some b \<longrightarrow> au_text env v \<noteq> b \<longrightarrow>
     ce_sha (au_commit env) b \<noteq> ce_sha (au_commit env) (au_text env v))"

lemma of_result_step: "bindA (of_result r) k s = (case r of Inl e \<Rightarrow> (Inl e, s) | Inr x \<Rightarrow> k x s)"
  by (simp add: bindA_def split: sum.split)

lemma write_authority_eq:
  "write_authority env hex v s = (case validate_authority env v of Inl e \<Rightarrow> (Inl e, s) | Inr _ \<Rightarrow>
      (case new_transaction AUTHORITY_PROFILE (au_instance env) of Inl e \<Rightarrow> (Inl (Commit_failed e), s) | Inr t0 \<Rightarrow>
      (case add_write (au_commit env) t0 AUTHORITY_PATH (au_text env v) False of Inl e \<Rightarrow> (Inl (Commit_failed e), s) | Inr t \<Rightarrow>
         on_disk (in_commit (commit (au_commit env) t hex)) s)))"
  unfolding write_authority_def of_result_step on_disk_steps(2) by simp

lemma write_settles:
  assumes run: "write_authority env hex v s = (r, s')" and rest: "at_rest L s" and apart: "tells_apart env L"
    and hex: "length hex = 32" "list_all hexchar hex"
    and rec: "authority_recoveries env s' u" and quiet: "d_stages (ah_disk u) = []"
  shows "at_rest L u \<or> at_rest (with_authority env v L) u \<and> authority_ok env v \<and> length (au_text env v) \<le> MAX_AUTHORITY_BYTES"
    and "r = Inr x \<Longrightarrow> at_rest (with_authority env v L) u \<and> authority_ok env v \<and> length (au_text env v) \<le> MAX_AUTHORITY_BYTES"
    and "r = Inl e \<Longrightarrow> e \<noteq> Commit_failed Crash \<Longrightarrow> at_rest L u"
    and "ah_key u = ah_key s"
proof -
  let ?N = "with_authority env v L"
  note steps = run [unfolded write_authority_eq]
  have key: "ah_key s' = ah_key s"
    using steps by (auto split: sum.splits dest: on_disk_key)
  then show "ah_key u = ah_key s" using recoveries_keep_key [OF rec] by simp
  have same: "s' = s \<Longrightarrow> at_rest L u" using rest_stays [OF rest _ quiet] rec by simp
  have "(at_rest L u \<or> at_rest ?N u \<and> authority_ok env v \<and> length (au_text env v) \<le> MAX_AUTHORITY_BYTES)
      \<and> (\<forall>x. r = Inr x \<longrightarrow> at_rest ?N u \<and> authority_ok env v \<and> length (au_text env v) \<le> MAX_AUTHORITY_BYTES)
      \<and> (\<forall>e. r = Inl e \<longrightarrow> e \<noteq> Commit_failed Crash \<longrightarrow> at_rest L u)"
  proof (cases "\<exists>t0 t. authority_ok env v \<and> new_transaction AUTHORITY_PROFILE (au_instance env) = Inr t0
      \<and> add_write (au_commit env) t0 AUTHORITY_PATH (au_text env v) False = Inr t")
    case True
    then obtain t0 t where ok: "authority_ok env v" and t0: "new_transaction AUTHORITY_PROFILE (au_instance env) = Inr t0"
      and t: "add_write (au_commit env) t0 AUTHORITY_PATH (au_text env v) False = Inr t" by blast
    note tx = authority_transaction [OF t0 t]
    have go: "on_disk (in_commit (commit (au_commit env) t hex)) s = (r, s')"
      using steps ok t0 t by (simp add: validate_authority_def)
    have "no_collision (au_commit env) L ?N" using apart by (auto simp: no_collision_def tells_apart_def)
    from host_commit [OF tx(1-3) hex rest this go rec quiet] ok tx(4) show ?thesis by blast
  next
    case False
    then have "s' = s \<and> (\<exists>e. r = Inl e)"
      using steps by (auto simp: validate_authority_def split: sum.splits if_splits)
    with same show ?thesis by auto
  qed
  then show "at_rest L u \<or> at_rest ?N u \<and> authority_ok env v \<and> length (au_text env v) \<le> MAX_AUTHORITY_BYTES"
    "r = Inr x \<Longrightarrow> at_rest ?N u \<and> authority_ok env v \<and> length (au_text env v) \<le> MAX_AUTHORITY_BYTES"
    "r = Inl e \<Longrightarrow> e \<noteq> Commit_failed Crash \<Longrightarrow> at_rest L u" by blast+
qed

end
