(* ===== verification/Authority.thy ===== *)
theory Authority
  imports Authority_Commit
begin

text \<open>
  The contract of the capture authority: its file only advances, so a revocation is final; a
  challenge pairs one device, whose credential is then accepted; and two states in which the
  authority can no longer be changed.
\<close>

section \<open>The stored authority\<close>

definition stored :: "authority_env \<Rightarrow> files \<Rightarrow> capture_error + authority option" where
  "stored env L = (case L AUTHORITY_PATH of
       None \<Rightarrow> Inr None
     | Some data \<Rightarrow>
         if length data \<le> MAX_AUTHORITY_BYTES
         then (case au_load env data of
             None \<Rightarrow> Inl (Journal_error ''Invalid Capture authority schema'')
           | Some v \<Rightarrow> map_sum id Some (validate_authority env v))
         else Inl (Journal_error ''invalid Capture record size or kind''))"

lemma read_at_rest: "at_rest L s \<Longrightarrow> read_authority env s = (stored env L, s)"
  by (auto simp: at_rest_def read_authority_def stored_def on_disk_def read_ready_def validate_authority_def
      seqA_def bindA_def require_eq split: option.split)

lemma stored_with:
  assumes "authority_ok env v" and "length (au_text env v) \<le> MAX_AUTHORITY_BYTES" and "au_load env (au_text env v) = Some v"
  shows "stored env (with_authority env v L) = Inr (Some v)"
  using assms by (simp add: stored_def validate_authority_def)

lemma stored_ok: "stored env L = Inr (Some v) \<Longrightarrow> authority_ok env v"
  by (auto simp: stored_def validate_authority_def split: option.splits if_splits)

section \<open>What a call does to a host at rest\<close>

definition calm :: "files \<Rightarrow> 'a hact \<Rightarrow> bool" where
  "calm L m \<longleftrightarrow> (\<forall>s. at_rest L s \<longrightarrow> at_rest L (snd (m s)))"

lemma calm_basic:
  "calm L (ret x)" "calm L (raise e)" "calm L (reads f)" "calm L (require b e)" "calm L (of_result r)"
  "calm L (on_disk (guard g))" "calm L (read_authority env)" "calm L read_key"
  by (auto simp: calm_def require_eq on_disk_def guard_def read_at_rest read_key_def bindA_def seqA_def split: option.split)

lemma calm_bind: "calm L m \<Longrightarrow> (\<And>x. calm L (k x)) \<Longrightarrow> calm L (bindA m k)"
  unfolding calm_def bindA_def by (auto split: prod.splits sum.splits)

lemma calm_seq: "calm L m \<Longrightarrow> calm L k \<Longrightarrow> calm L (seqA m k)"
  unfolding seqA_def by (rule calm_bind)

lemma calm_key_write: "(\<And>s. ah_disk (f s) = ah_disk s) \<Longrightarrow> calm L (key_write f)"
  by (auto simp: calm_def key_write_def at_rest_def set_host_fates_def split: list.split fate.split)

lemmas calming = calm_basic calm_bind calm_seq

lemma calm_create_key: "calm L (create_key fresh)"
  unfolding create_key_def by (auto intro!: calming calm_key_write)

lemma calm_management: "calm L (management env)"
  unfolding management_def by (auto intro!: calming split: option.split)

text \<open>A call that looks only.\<close>

abbreviation looks :: "'a hact \<Rightarrow> bool" where
  "looks \<equiv> keeps (\<lambda>s. s)"

lemma looks_basic: "looks (of_result r)" "looks (on_disk (guard g))" "looks (on_disk read_ready)"
  by (auto simp: keeps_def require_eq on_disk_def guard_def read_ready_def bindA_def split: option.split)

lemmas looking = looks_basic keeping

lemma looks_read: "looks (read_authority env)" "looks read_key"
  unfolding read_authority_def read_key_def by (auto intro!: looking split: option.split)

lemma looks_management: "looks (management env)"
  unfolding management_def by (auto intro!: looking looks_read split: option.split)

text \<open>The call leaves the host at rest with the same files, or it ends in the write of a value.\<close>

definition touches :: "authority_env \<Rightarrow> string \<Rightarrow> files \<Rightarrow> (authority \<Rightarrow> bool) \<Rightarrow> 'a hact \<Rightarrow> bool" where
  "touches env hex L P m \<longleftrightarrow> (\<forall>s. at_rest L s \<longrightarrow> at_rest L (snd (m s))
     \<or> (\<exists>v s1. at_rest L s1 \<and> P v \<and> snd (m s) = snd (write_authority env hex v s1)))"

lemma touches_calm: "calm L m \<Longrightarrow> touches env hex L P m"
  by (simp add: calm_def touches_def)

lemma touches_bind:
  assumes "calm L m" and "\<And>s x t. at_rest L s \<Longrightarrow> m s = (Inr x, t) \<Longrightarrow> touches env hex L P (k x)"
  shows "touches env hex L P (bindA m k)"
  unfolding touches_def
proof (intro allI impI)
  fix s
  assume s: "at_rest L s"
  obtain r t where m: "m s = (r, t)" by (cases "m s")
  with assms(1) s have t: "at_rest L t" by (auto simp: calm_def)
  show "at_rest L (snd (bindA m k s)) \<or> (\<exists>v s1. at_rest L s1 \<and> P v \<and> snd (bindA m k s) = snd (write_authority env hex v s1))"
  proof (cases r)
    case (Inl e)
    with m t show ?thesis by (simp add: bindA_def)
  next
    case (Inr x)
    with assms(2) [OF s, of x t] m t show ?thesis by (simp add: bindA_def touches_def)
  qed
qed

lemma touches_seq: "calm L m \<Longrightarrow> touches env hex L P k \<Longrightarrow> touches env hex L P (seqA m k)"
  unfolding seqA_def by (rule touches_bind)

lemma touches_write:
  assumes "P v" and "looks k"
  shows "touches env hex L P (seqA (write_authority env hex v) k)"
  unfolding touches_def
proof (intro allI impI)
  fix s
  assume s: "at_rest L s"
  obtain r t where w: "write_authority env hex v s = (r, t)" by (cases "write_authority env hex v s")
  then have "snd (seqA (write_authority env hex v) k s) = snd (write_authority env hex v s)"
    using assms(2) by (cases r) (auto simp: seqA_def bindA_def keeps_def)
  then show "at_rest L (snd (seqA (write_authority env hex v) k s))
      \<or> (\<exists>v' s1. at_rest L s1 \<and> P v' \<and> snd (seqA (write_authority env hex v) k s) = snd (write_authority env hex v' s1))"
    using s assms(1) by metis
qed

lemma touches_last: "P v \<Longrightarrow> touches env hex L P (write_authority env hex v)"
  unfolding touches_def by blast

section \<open>Advancing\<close>

definition row_advances :: "device_row \<Rightarrow> device_row \<Rightarrow> bool" where
  "row_advances r r' \<longleftrightarrow> dr_label r' = dr_label r \<and> dr_verifier r' = dr_verifier r \<and> dr_issued r' = dr_issued r
     \<and> (dr_revoked r \<noteq> None \<longrightarrow> dr_revoked r' = dr_revoked r)"

definition advances :: "authority \<Rightarrow> authority \<Rightarrow> bool" where
  "advances a b \<longleftrightarrow> (\<exists>xs. at_audit b = at_audit a @ xs)
     \<and> (\<forall>d r. map_of (at_devices a) d = Some r \<longrightarrow> (\<exists>r'. map_of (at_devices b) d = Some r' \<and> row_advances r r'))"

lemma row_advances_refl [simp]: "row_advances r r"
  by (simp add: row_advances_def)

lemma row_advances_trans: "row_advances r s \<Longrightarrow> row_advances s t \<Longrightarrow> row_advances r t"
  by (auto simp: row_advances_def)

lemma advances_refl [simp]: "advances a a"
  by (auto simp: advances_def)

lemma advances_trans:
  assumes "advances a b" and "advances b c"
  shows "advances a c"
proof -
  obtain xs ys where "at_audit b = at_audit a @ xs" "at_audit c = at_audit b @ ys" using assms by (auto simp: advances_def)
  moreover have "\<exists>r'. map_of (at_devices c) d = Some r' \<and> row_advances r r'" if "map_of (at_devices a) d = Some r" for d r
    using assms that row_advances_trans unfolding advances_def by metis
  ultimately show ?thesis by (simp add: advances_def)
qed

lemma add_audit_Inr: "add_audit now i action d v = Inr w \<longleftrightarrow> length (at_audit v) < MAX_AUDIT
    \<and> w = v\<lparr>at_audit := at_audit v @ [\<lparr>ar_id = ''audit_'' @ i, ar_at = now, ar_action = action, ar_device = d\<rparr>]\<rparr>"
  by (auto simp: add_audit_def)

lemma map_of_rows: "map_of (map (\<lambda>(d, r). (d, f r)) xs) d = map_option f (map_of xs d)"
  by (induction xs) auto

lemma configured_advances: "configured env c origin key (Some a) = Inr v \<Longrightarrow> advances a v"
  by (auto simp: configured_def add_audit_Inr advances_def revoke_all_def map_of_rows row_advances_def or_now_def
      split: option.split)

lemma challenged_advances: "challenged env c key secret a = Inr v \<Longrightarrow> advances a v"
  by (auto simp: challenged_def add_audit_Inr advances_def Let_def split: if_splits sum.splits)

lemma redeemed_advances: "redeemed env c key secret label origin device token a = Inr v \<Longrightarrow> advances a v"
  by (auto simp: redeemed_def add_audit_Inr advances_def map_add_def split: if_splits sum.splits option.splits)

lemma revoked_advances:
  "map_of (at_devices a) device = Some r \<Longrightarrow> dr_revoked r = None \<Longrightarrow> revoked c device r a = Inr v \<Longrightarrow> advances a v"
  by (auto simp: revoked_def add_audit_Inr advances_def update_conv' row_advances_def)

lemma granted_advances: "granted env c key device ids seconds token a = Inr v \<Longrightarrow> advances a v"
  by (auto simp: granted_def add_audit_Inr advances_def split: sum.splits)

lemma grant_revoked_advances: "grant_revoked c device g a = Inr v \<Longrightarrow> advances a v"
  by (auto simp: grant_revoked_def add_audit_Inr advances_def)

section \<open>The calls\<close>

definition follows :: "authority_env \<Rightarrow> files \<Rightarrow> authority \<Rightarrow> bool" where
  "follows env L v \<longleftrightarrow> (\<exists>x. stored env L = Inr x \<and> (\<forall>a. x = Some a \<longrightarrow> advances a v))"

lemma followsI: "stored env L = Inr x \<Longrightarrow> (\<And>a. x = Some a \<Longrightarrow> advances a v) \<Longrightarrow> follows env L v"
  by (auto simp: follows_def)

inductive authority_call :: "authority_env \<Rightarrow> call \<Rightarrow> host \<Rightarrow> host \<Rightarrow> bool" for env c where
  configures: "authority_call env c s (snd (configure env c fresh confirm origin s))"
| challenges: "authority_call env c s (snd (challenge env c secret s))"
| redeems: "authority_call env c s (snd (redeem env c secret label origin device token s))"
| revokes: "authority_call env c s (snd (revoke env c device s))"
| grants: "authority_call env c s (snd (grant_retrieval env c device ids seconds token s))"
| takes_grant: "authority_call env c s (snd (revoke_retrieval env c device s))"

lemma reads_stored: "at_rest L s \<Longrightarrow> read_authority env s = (Inr x, t) \<Longrightarrow> stored env L = Inr x"
  by (simp add: read_at_rest)

lemmas touching = touches_bind [OF calm_basic(3)] touches_bind [OF calm_basic(5)] touches_bind [OF calm_basic(7)]
  touches_bind [OF calm_basic(8)] touches_bind [OF calm_create_key] touches_seq [OF calm_basic(4)] touches_seq [OF calm_basic(6)]

lemma configure_touches: "touches env (ca_hex c) L (follows env L) (configure env c fresh confirm origin)"
  unfolding configure_def
proof (intro touching)
  fix s x t s1 previous t1 s2 k t2 s3 v t3
  assume read: "at_rest L s1" "read_authority env s1 = (Inr previous, t1)"
    and plan: "of_result (configured env c x (the k) previous) s3 = (Inr v, t3)"
  have "follows env L v"
    by (rule followsI [OF reads_stored [OF read]]) (use plan configured_advances in auto)
  then show "touches env (ca_hex c) L (follows env L) (seqA (write_authority env (ca_hex c) v) (management env))"
    by (intro touches_write looks_management)
qed

text \<open>A host that is bound to its key has an authority.\<close>

lemma bound_to_Some: "bound_to env v k \<Longrightarrow> \<exists>a. v = Some a"
  by (auto simp: bound_to_def split: option.splits)

lemma touches_require:
  assumes "b \<Longrightarrow> touches env hex L P m"
  shows "touches env hex L P (seqA (require b e) m)"
proof (cases b)
  case True
  then show ?thesis using assms by (intro touching)
next
  case False
  then have "seqA (require b e) m = raise e" by (simp add: fun_eq_iff seqA_def bindA_def require_def raise_def)
  then show ?thesis by (simp add: touches_calm calm_basic)
qed

lemma planned_touches:
  assumes "\<And>w. r = Inr w \<Longrightarrow> P w" and "looks k"
  shows "touches env hex L P (bindA (of_result r) (\<lambda>w. seqA (write_authority env hex w) k))"
  using assms by (intro touching touches_write) simp_all

lemma planned_follows:
  assumes "at_rest L s" and "read_authority env s = (Inr v, t)" and "v = Some a" and "\<And>w. r = Inr w \<Longrightarrow> advances a w" and "looks k"
  shows "touches env hex L (follows env L) (bindA (of_result r) (\<lambda>w. seqA (write_authority env hex w) k))"
  by (intro planned_touches followsI [OF reads_stored [OF assms(1,2)]]) (use assms in auto)

lemma challenge_touches: "touches env (ca_hex c) L (follows env L) (challenge env c secret)"
  unfolding challenge_def
proof (intro touching(3,4,7) touches_require)
  fix s1 v t1 s2 k t2
  assume read: "at_rest L s1" "read_authority env s1 = (Inr v, t1)" and "bound_to env v k"
  then obtain a where "v = Some a" using bound_to_Some by blast
  then show "touches env (ca_hex c) L (follows env L) (bindA (of_result (challenged env c (the k) secret (the v)))
      (\<lambda>w. seqA (write_authority env (ca_hex c) w) (ret secret)))"
    by (intro planned_follows [OF read] looking) (auto dest: challenged_advances)
qed

lemma redeem_touches: "touches env (ca_hex c) L (follows env L) (redeem env c secret label origin device token)"
  unfolding redeem_def
proof (intro touching(3,4,7) touches_require)
  fix s1 v t1 s2 k t2
  assume read: "at_rest L s1" "read_authority env s1 = (Inr v, t1)" and b: "bound_to env v k \<and> at_origin (the v) = origin"
  then obtain a where "v = Some a" using bound_to_Some by blast
  then show "touches env (ca_hex c) L (follows env L)
      (bindA (of_result (redeemed env c (the k) secret label origin (''dev_'' @ device) token (the v)))
        (\<lambda>w. seqA (write_authority env (ca_hex c) w) (ret (''dev_'' @ device, token))))"
    by (intro planned_follows [OF read] looking) (auto dest: redeemed_advances)
qed

lemma grant_touches: "touches env (ca_hex c) L (follows env L) (grant_retrieval env c device ids seconds token)"
  unfolding grant_retrieval_def
proof (intro touching(1,3,4,7) touches_require)
  fix s1 v t1 s2 k t2 F
  assume read: "at_rest L s1" "read_authority env s1 = (Inr v, t1)" and b: "bound_to env v k \<and> active_device device (the v)"
  then obtain a where "v = Some a" using bound_to_Some by blast
  then show "touches env (ca_hex c) L (follows env L)
      (bindA (of_result (granted env c (the k) device ids seconds token (the v)))
        (\<lambda>w. seqA (write_authority env (ca_hex c) w) (ret token)))"
    by (intro planned_follows [OF read] looking) (auto dest: granted_advances)
qed

lemma revoke_touches: "touches env (ca_hex c) L (follows env L) (revoke env c device)"
  unfolding revoke_def
proof (intro touching(3,7))
  fix s1 v t1
  assume read: "at_rest L s1" "read_authority env s1 = (Inr v, t1)"
  let ?row = "case v of None \<Rightarrow> None | Some a \<Rightarrow> map_of (at_devices a) device"
  show "touches env (ca_hex c) L (follows env L) (case ?row of
        None \<Rightarrow> raise (Journal_error ''Capture device unavailable'')
      | Some r \<Rightarrow>
          seqA (if dr_revoked r = None
                then bindA (of_result (revoked c device r (the v))) (\<lambda>w. write_authority env (ca_hex c) w)
                else ret ())
            (management env))"
  proof (cases ?row)
    case None
    then show ?thesis by (simp add: touches_calm calm_basic)
  next
    case (Some r)
    then obtain a where a: "v = Some a" "map_of (at_devices a) device = Some r" by (auto split: option.splits)
    have split: "seqA (bindA (of_result p) (\<lambda>w. write_authority env (ca_hex c) w)) (management env)
        = bindA (of_result p) (\<lambda>w. seqA (write_authority env (ca_hex c) w) (management env))" for p
      by (cases p) (auto simp: seqA_def bindA_def fun_eq_iff split: sum.split prod.split)
    show ?thesis
    proof (cases "dr_revoked r = None")
      case True
      have "touches env (ca_hex c) L (follows env L) (bindA (of_result (revoked c device r a))
          (\<lambda>w. seqA (write_authority env (ca_hex c) w) (management env)))"
        by (intro planned_follows [OF read] looks_management) (use a revoked_advances [OF a(2) True] in auto)
      then show ?thesis using Some True a by (simp add: split)
    next
      case False
      then obtain now where "dr_revoked r = Some now" by auto
      then show ?thesis using Some by (simp add: touches_calm calming calm_management)
    qed
  qed
qed

lemma revoke_retrieval_touches: "touches env (ca_hex c) L (follows env L) (revoke_retrieval env c device)"
  unfolding revoke_retrieval_def
proof (intro touching(3,7))
  fix s1 v t1
  assume read: "at_rest L s1" "read_authority env s1 = (Inr v, t1)"
  have plan: "follows env L w" if "v = Some a" "grant_revoked c device g a = Inr w" for a g w
    by (rule followsI [OF reads_stored [OF read]]) (use that grant_revoked_advances in auto)
  show "touches env (ca_hex c) L (follows env L)
    (case (case v of None \<Rightarrow> None | Some a \<Rightarrow> grant_of device a) of
        None \<Rightarrow> raise (Journal_error ''Retrieval grant unavailable'')
      | Some g \<Rightarrow>
          if gr_revoked g = None
          then bindA (of_result (grant_revoked c device g (the v))) (\<lambda>w. write_authority env (ca_hex c) w)
          else ret ())"
  proof (cases v)
    case (Some a)
    then show ?thesis
      by (auto intro!: touches_calm [OF calm_basic(1)] touches_calm [OF calm_basic(2)] touching(2) touches_last plan
          split: option.split)
  qed (simp add: touches_calm calm_basic)
qed

lemma touchesD:
  "touches env hex L P m \<Longrightarrow> at_rest L s \<Longrightarrow>
     at_rest L (snd (m s)) \<or> (\<exists>v s1. at_rest L s1 \<and> P v \<and> snd (m s) = snd (write_authority env hex v s1))"
  unfolding touches_def by blast

lemma call_touches:
  assumes "authority_call env c s t" and "at_rest L s"
  shows "at_rest L t \<or> (\<exists>v s1. at_rest L s1 \<and> follows env L v \<and> t = snd (write_authority env (ca_hex c) v s1))"
  using assms(1)
proof cases
  case (configures fresh confirm origin)
  then show ?thesis using touchesD [OF configure_touches assms(2)] by simp
next
  case (challenges secret)
  then show ?thesis using touchesD [OF challenge_touches assms(2)] by simp
next
  case (redeems secret label origin device token)
  then show ?thesis using touchesD [OF redeem_touches assms(2)] by simp
next
  case (revokes device)
  then show ?thesis using touchesD [OF revoke_touches assms(2)] by simp
next
  case (grants device ids seconds token)
  then show ?thesis using touchesD [OF grant_touches assms(2)] by simp
next
  case (takes_grant device)
  then show ?thesis using touchesD [OF revoke_retrieval_touches assms(2)] by simp
qed

section \<open>Histories\<close>

text \<open>
  Calls with any failing or stopping writes, each followed by any recoveries up to a host without
  a journal. Assumed of the surroundings: the text of the file is read back as the value it is
  the text of, and the digest tells the current file from a text that replaces it.
\<close>

definition reads_back :: "authority_env \<Rightarrow> host \<Rightarrow> bool" where
  "reads_back env s \<longleftrightarrow> (\<forall>v. d_live (ah_disk s) AUTHORITY_PATH = Some (au_text env v) \<longrightarrow> au_load env (au_text env v) = Some v)"

definition fresh_name :: "string \<Rightarrow> bool" where
  "fresh_name hex \<longleftrightarrow> length hex = 32 \<and> list_all hexchar hex"

inductive authority_history :: "authority_env \<Rightarrow> host \<Rightarrow> host \<Rightarrow> bool" for env where
  begins: "authority_history env s s"
| calls: "authority_history env s t \<Longrightarrow> fresh_name (ca_hex c) \<Longrightarrow> tells_apart env (d_live (ah_disk t)) \<Longrightarrow>
    authority_call env c (set_host_fates fs t) t' \<Longrightarrow> authority_recoveries env t' u \<Longrightarrow>
    d_stages (ah_disk u) = [] \<Longrightarrow> reads_back env u \<Longrightarrow> authority_history env s u"

lemma rest_fates [simp]: "at_rest L (set_host_fates fs s) = at_rest L s"
  by (simp add: at_rest_def set_host_fates_def)

lemma call_settles:
  assumes call: "authority_call env c s t'" and rest: "at_rest L s" and hex: "fresh_name (ca_hex c)"
    and apart: "tells_apart env L" and rec: "authority_recoveries env t' u" and quiet: "d_stages (ah_disk u) = []"
    and back_text: "reads_back env u"
  shows "at_rest L u \<or> (\<exists>v. at_rest (with_authority env v L) u \<and> follows env L v \<and> stored env (with_authority env v L) = Inr (Some v))"
proof -
  from call_touches [OF call rest] consider "at_rest L t'"
    | v s1 where "at_rest L s1" "follows env L v" "t' = snd (write_authority env (ca_hex c) v s1)" by blast
  then show ?thesis
  proof cases
    case 1
    then show ?thesis using rest_stays [OF 1 rec quiet] by blast
  next
    case (2 v s1)
    obtain r where w: "write_authority env (ca_hex c) v s1 = (r, t')" using 2(3) by (cases "write_authority env (ca_hex c) v s1") auto
    from write_settles(1) [OF w 2(1) apart _ _ rec quiet] hex
    consider "at_rest L u" | "at_rest (with_authority env v L) u" "authority_ok env v" "length (au_text env v) \<le> MAX_AUTHORITY_BYTES"
      by (auto simp: fresh_name_def)
    then show ?thesis
    proof cases
      case n: 2
      then have "au_load env (au_text env v) = Some v" using back_text by (auto simp: reads_back_def at_rest_def)
      from n(1) 2(2) stored_with [OF n(2,3) this] show ?thesis by blast
    qed blast
  qed
qed

lemma history_advances:
  assumes "authority_history env s t" and "at_rest L s" and "stored env L = Inr x"
  shows "\<exists>M y. at_rest M t \<and> stored env M = Inr y \<and> (\<forall>a. x = Some a \<longrightarrow> (\<exists>b. y = Some b \<and> advances a b))"
  using assms
proof (induction rule: authority_history.induct)
  case (begins s)
  have "\<forall>a. x = Some a \<longrightarrow> (\<exists>b. x = Some b \<and> advances a b)" by simp
  with begins show ?case by (intro exI [of _ L] exI [of _ x] conjI)
next
  case (calls s t c fs t' u)
  from calls.IH [OF calls.prems]
  obtain M y where m: "at_rest M t" "stored env M = Inr y" "\<forall>a. x = Some a \<longrightarrow> (\<exists>b. y = Some b \<and> advances a b)"
    by (elim exE conjE)
  have "at_rest M (set_host_fates fs t)" "d_live (ah_disk t) = M" using m(1) by (simp, simp add: at_rest_def)
  with call_settles [OF calls.hyps(4) _ calls.hyps(2) _ calls.hyps(5-7), of M] calls.hyps(3)
  consider "at_rest M u" | v where "at_rest (with_authority env v M) u" "follows env M v" "stored env (with_authority env v M) = Inr (Some v)"
    by blast
  then show ?case
  proof cases
    case 1
    with m show ?thesis by blast
  next
    case (2 v)
    have "\<exists>b. Some v = Some b \<and> advances a b" if "x = Some a" for a
      using m(2,3) 2(2) that advances_trans by (auto simp: follows_def)
    with 2 show ?thesis by blast
  qed
qed

lemma revoked_is_refused:
  assumes "at_rest M t" and "stored env M = Inr (Some b)" and "map_of (at_devices b) device = Some r" and "dr_revoked r \<noteq> None"
  shows "\<exists>e. authorize env device token origin t = (Inl e, t)"
    and "\<exists>e. authorize_retrieval env time device token origin t = (Inl e, t)"
proof -
  have read: "read_authority env t = (Inr (Some b), t)" using assms(1,2) by (simp add: read_at_rest)
  obtain k where key: "read_key t = (k, t)" using looks_read(2) by (cases "read_key t") (auto simp: keeps_def dest: spec [of _ t])
  show "\<exists>e. authorize env device token origin t = (Inl e, t)"
    using read key assms(3,4) by (cases k) (auto simp: authorize_def bindA_def seqA_def require_eq credential_ok_def)
  show "\<exists>e. authorize_retrieval env time device token origin t = (Inl e, t)"
    using read key assms(3,4)
    by (cases k) (auto simp: authorize_retrieval_def bindA_def seqA_def require_eq retrieval_ok_def active_device_def split: option.split)
qed

text \<open>
  C4: A revocation is final. Whatever configurations, pairings, grants and revocations follow,
  with failing or stopping writes and recoveries, the authority stays readable and valid, its
  audit only grows, no paired device disappears or changes its credential, and a device that was
  revoked is never authorised again, neither to submit nor to read, with any token.
\<close>

theorem revocation_is_final:
  assumes "authority_history env s t" and "d_stages (ah_disk s) = []" and "read_authority env s = (Inr (Some a), s)"
  shows "\<exists>b. read_authority env t = (Inr (Some b), t) \<and> authority_ok env b \<and> advances a b
    \<and> (\<forall>device r token origin time. map_of (at_devices a) device = Some r \<longrightarrow> dr_revoked r \<noteq> None \<longrightarrow>
         (\<exists>e. authorize env device token origin t = (Inl e, t))
       \<and> (\<exists>e. authorize_retrieval env time device token origin t = (Inl e, t)))"
proof -
  have rest: "at_rest (d_live (ah_disk s)) s" using assms(2) by (simp add: at_rest_def)
  then have "stored env (d_live (ah_disk s)) = Inr (Some a)" using assms(3) by (simp add: read_at_rest)
  from history_advances [OF assms(1) rest this]
  obtain M y where m: "at_rest M t" "stored env M = Inr y" "\<forall>a'. Some a = Some a' \<longrightarrow> (\<exists>b. y = Some b \<and> advances a' b)"
    by (elim exE conjE)
  from m(3) obtain b where "y = Some b" "advances a b" by auto
  with m(1,2) have b: "at_rest M t" "stored env M = Inr (Some b)" "advances a b" by simp_all
  have "\<exists>r'. map_of (at_devices b) device = Some r' \<and> dr_revoked r' \<noteq> None"
    if "map_of (at_devices a) device = Some r" "dr_revoked r \<noteq> None" for device r
    using b(3) that by (fastforce simp: advances_def row_advances_def)
  then have never: "(\<exists>e. authorize env device token origin t = (Inl e, t)) \<and> (\<exists>e. authorize_retrieval env time device token origin t = (Inl e, t))"
    if "map_of (at_devices a) device = Some r" "dr_revoked r \<noteq> None" for device r token origin time
    using that revoked_is_refused [OF b(1,2)] by blast
  have "read_authority env t = (Inr (Some b), t)" using read_at_rest [OF b(1)] b(2) by simp
  with never b(3) stored_ok [OF b(2)] show ?thesis by blast
qed

section \<open>Pairing\<close>

lemma used_challenge:
  assumes "find (\<lambda>r. cr_verifier r = x) rows = Some r"
  shows "find (\<lambda>r. cr_verifier r = x) (use_challenge x now rows) = Some (r\<lparr>cr_used := Some now\<rparr>)"
proof -
  obtain i where i: "i < length rows" "cr_verifier (rows ! i) = x" "r = rows ! i" "\<forall>j<i. cr_verifier (rows ! j) \<noteq> x"
    using assms by (auto simp: find_Some_iff)
  then have "rows = take i rows @ r # drop (Suc i) rows" by (simp add: id_take_nth_drop)
  moreover have "\<forall>y \<in> set (take i rows). cr_verifier y \<noteq> x" using i by (auto simp: in_set_conv_nth)
  ultimately obtain ys zs where rows: "rows = ys @ r # zs" "cr_verifier r = x" "\<forall>y \<in> set ys. cr_verifier y \<noteq> x"
    using i(2,3) by blast
  have "use_challenge x now rows = ys @ r\<lparr>cr_used := Some now\<rparr> # zs"
    using rows by (simp add: use_challenge_def dropWhile_append2 takeWhile_append2)
  moreover have "find (\<lambda>r. cr_verifier r = x) (ys @ r\<lparr>cr_used := Some now\<rparr> # zs) = Some (r\<lparr>cr_used := Some now\<rparr>)"
    using rows(2,3) by (induction ys) auto
  ultimately show ?thesis by simp
qed

text \<open>A redemption that returned wrote the paired device.\<close>

lemma redeem_result:
  assumes run: "redeem env c secret label origin device_hex token s = (Inr (device, tok), s')" and rest: "at_rest L s"
  obtains a w key where "stored env L = Inr (Some a)" and "ah_key s = Some key" and "length key = 32"
    and "at_binding a = binding env key" and "at_origin a = origin"
    and "redeemed env c key secret label origin device token a = Inr w" and "device = ''dev_'' @ device_hex" and "tok = token"
    and "write_authority env (ca_hex c) w s = (Inr (), s')"
proof -
  have read: "read_authority env s = (stored env L, s)" using rest by (rule read_at_rest)
  obtain v where v: "stored env L = Inr v"
    using run read by (cases "stored env L") (auto simp: redeem_def seqA_def bindA_def require_eq split: if_splits)
  obtain k where k: "read_key s = (k, s)" using looks_read(2) by (cases "read_key s") (auto simp: keeps_def dest: spec [of _ s])
  then obtain key' where k': "k = Inr key'"
    using run read v by (cases k) (auto simp: redeem_def seqA_def bindA_def require_eq split: if_splits)
  have bound: "bound_to env v key' \<and> at_origin (the v) = origin"
    using run read v k k' by (auto simp: redeem_def seqA_def bindA_def require_eq split: if_splits)
  then obtain a key where a: "v = Some a" "key' = Some key" "at_binding a = binding env key" "at_origin a = origin"
    by (auto simp: bound_to_def split: option.splits)
  have key: "ah_key s = Some key" "length key = 32"
    using k k' a(2) by (auto simp: read_key_def bindA_def seqA_def require_eq split: option.splits if_splits)
  obtain w where w: "redeemed env c key secret label origin (''dev_'' @ device_hex) token a = Inr w"
    using run read v k k' a bound
    by (cases "redeemed env c key secret label origin (''dev_'' @ device_hex) token a")
       (auto simp: redeem_def seqA_def bindA_def require_eq split: if_splits)
  have label: "label_ok label" using run by (auto simp: redeem_def seqA_def bindA_def require_eq split: if_splits)
  obtain q t where wr: "write_authority env (ca_hex c) w s = (q, t)" by (cases "write_authority env (ca_hex c) w s")
  have finished: "q = Inr () \<and> t = s' \<and> device = ''dev_'' @ device_hex \<and> tok = token"
    using run read v k k' a bound w label wr by (cases q) (auto simp: redeem_def seqA_def bindA_def require_eq ret_def)
  show thesis
  proof (rule that)
    show "stored env L = Inr (Some a)" using v a(1) by simp
    show "redeemed env c key secret label origin device token a = Inr w" using w finished by simp
    show "write_authority env (ca_hex c) w s = (Inr (), s')" using wr finished by simp
  qed (use a key finished in simp_all)
qed

text \<open>
  C16: A pairing works and happens once. After a redemption that returned, whatever writes of its
  clean-up failed and whatever recoveries followed, the credential it gave is accepted for the
  device it gave, and the same challenge is refused for every further device.
\<close>

theorem pairing_works_once:
  assumes "redeem env c secret label origin device_hex token s = (Inr (device, tok), s')"
    and "d_stages (ah_disk s) = []" and "fresh_name (ca_hex c)" and "tells_apart env (d_live (ah_disk s))"
    and "authority_recoveries env s' u" and "d_stages (ah_disk u) = []" and "reads_back env u"
  shows "authorize env device tok origin u = (Inr (), u)
    \<and> (\<forall>c' label' origin' hex' token'. \<exists>e. redeem env c' secret label' origin' hex' token' u = (Inl e, u))"
proof -
  let ?L = "d_live (ah_disk s)"
  have rest: "at_rest ?L s" using assms(2) by (simp add: at_rest_def)
  obtain a w key where a: "stored env ?L = Inr (Some a)" "ah_key s = Some key" "length key = 32"
      "at_binding a = binding env key" "at_origin a = origin"
      "redeemed env c key secret label origin device token a = Inr w" "tok = token"
    and wr: "write_authority env (ca_hex c) w s = (Inr (), s')"
    using assms(1) rest by (rule redeem_result)
  note settled = write_settles [OF wr rest assms(4) _ _ assms(5,6)]
  have hex: "length (ca_hex c) = 32" "list_all hexchar (ca_hex c)" using assms(3) by (simp_all add: fresh_name_def)
  have u: "at_rest (with_authority env w ?L) u" "authority_ok env w" "length (au_text env w) \<le> MAX_AUTHORITY_BYTES"
    and key: "ah_key u = Some key" using settled(2) [OF hex] settled(4) [OF hex] a(2) by auto
  have "au_load env (au_text env w) = Some w" using assms(7) u(1) by (auto simp: reads_back_def at_rest_def)
  then have read: "read_authority env u = (Inr (Some w), u)"
    using read_at_rest [OF u(1)] stored_with [OF u(2,3)] by simp
  have rk: "read_key u = (Inr (Some key), u)" using key a(3) by (simp add: read_key_def bindA_def seqA_def)
  obtain x y r where w: "verifier env key secret ''pair'' origin = Inr x" "verifier env key token ''credential'' origin = Inr y"
      "find (\<lambda>r. cr_verifier r = x) (at_challenges a) = Some r"
      "at_challenges w = use_challenge x (ca_now c) (at_challenges a)"
      "at_binding w = at_binding a" "at_origin w = at_origin a" "device \<notin> fst ` set (at_devices a)"
      "at_devices w = at_devices a @ [(device, \<lparr>dr_label = label, dr_verifier = y, dr_issued = ca_now c, dr_revoked = None\<rparr>)]"
    using a(6) by (auto simp: redeemed_def add_audit_Inr split: sum.splits option.splits if_splits)
  have bound: "bound_to env (Some w) (Some key)" "at_origin w = origin" using a(4,5) w(5,6) by (simp_all add: bound_to_def)
  have "map_of (at_devices w) device = Some \<lparr>dr_label = label, dr_verifier = y, dr_issued = ca_now c, dr_revoked = None\<rparr>"
    using w(7,8) by (simp add: map_add_def map_of_eq_None_iff [THEN iffD2])
  then have "credential_ok env key device tok origin w = Inr ()" using w(2) a(7) by (simp add: credential_ok_def)
  then have "authorize env device tok origin u = (Inr (), u)"
    using read rk bound by (simp add: authorize_def bindA_def seqA_def)
  moreover have "\<exists>e. redeem env c' secret label' origin' hex' token' u = (Inl e, u)" for c' label' origin' hex' token'
  proof (cases "label_ok label' \<and> origin' = origin")
    case True
    have "redeemed env c' key secret label' origin (''dev_'' @ hex') token' w = Inl (Denied ''Capture pairing challenge expired or used'')"
      using w(1) used_challenge [OF w(3)] by (simp add: redeemed_def w(4))
    then show ?thesis using True read rk bound by (simp add: redeem_def bindA_def seqA_def)
  next
    case False
    then show ?thesis using read rk bound by (auto simp: redeem_def bindA_def seqA_def require_eq)
  qed
  ultimately show ?thesis by blast
qed

section \<open>States without a way out\<close>

text \<open>
  C40: A full audit blocks the authority. Once it has its last row, a paired device cannot be
  revoked, and no configuration, which would revoke every device, goes through: the calls raise,
  the file stays, and so every credential in it stays accepted.
\<close>

theorem full_audit_blocks_revocation:
  assumes "d_stages (ah_disk s) = []" and "read_authority env s = (Inr (Some a), s)" and "MAX_AUDIT \<le> length (at_audit a)"
    and "map_of (at_devices a) device = Some r" and "dr_revoked r = None"
  shows "(\<exists>e. revoke env c device s = (Inl e, s))
    \<and> (\<exists>e. fst (configure env c fresh confirm origin s) = Inl e)
    \<and> at_rest (d_live (ah_disk s)) (snd (configure env c fresh confirm origin s))"
proof -
  have full: "add_audit now i act d v = Inl (Journal_error ''Capture authority audit full; history retained'')"
    if "at_audit v = at_audit a" for now i act d v
    using assms(3) that by (simp add: add_audit_def)
  have "\<exists>e. revoke env c device s = (Inl e, s)"
    using assms(2,4,5) full [of "a\<lparr>at_devices := AList.update device (r\<lparr>dr_revoked := Some (ca_now c)\<rparr>) (at_devices a)\<rparr>"]
    by (cases "ca_before c"; cases "ca_under c")
       (simp_all add: revoke_def revoked_def seqA_def bindA_def on_disk_def guard_def)
  moreover have "\<exists>e. fst (configure env c fresh confirm origin s) = Inl e \<and> at_rest (d_live (ah_disk s)) (snd (configure env c fresh confirm origin s))"
  proof -
    have rest: "at_rest (d_live (ah_disk s)) s" using assms(1) by (simp add: at_rest_def)
    have conf: "configured env c x k (Some a) = Inl (Journal_error ''Capture authority audit full; history retained'')" for x k
      by (simp add: configured_def full revoke_all_def)
    obtain kr t where kr: "create_key fresh s = (kr, t)" by (cases "create_key fresh s")
    have t: "at_rest (d_live (ah_disk s)) t" using calm_create_key rest kr by (metis calm_def snd_conv)
    show ?thesis
      using rest t assms(2) kr conf
      by (cases "trusted_capture_origin env origin"; cases confirm; cases "ca_before c"; cases "ca_under c"; cases kr)
         (simp_all add: configure_def seqA_def bindA_def on_disk_def guard_def)
  qed
  ultimately show ?thesis by blast
qed

text \<open>
  A host key file that does not have its 32 bytes, as a stop between its creation and its
  filling leaves it, is never repaired: authorisation, challenges, redemptions and every
  configuration raise and change nothing.
\<close>

theorem torn_key_blocks:
  assumes "ah_key s = Some k" and "length k \<noteq> 32"
  shows "(\<exists>e. authorize env device token origin s = (Inl e, s)) \<and> (\<exists>e. challenge env c secret s = (Inl e, s))
    \<and> (\<exists>e. redeem env c secret label origin hex token s = (Inl e, s)) \<and> (\<exists>e. configure env c fresh confirm origin s = (Inl e, s))"
proof -
  obtain e where key: "read_key s = (Inl e, s)"
    using assms by (cases "length k \<le> 4096") (simp_all add: read_key_def bindA_def seqA_def)
  then have make: "create_key fresh s = (Inl e, s)" using assms(1) by (simp add: create_key_def bindA_def seqA_def)
  obtain v where read: "read_authority env s = (v, s)"
    using looks_read(1) [of env] by (cases "read_authority env s") (auto simp: keeps_def dest: spec [of _ s])
  have "\<exists>e. authorize env device token origin s = (Inl e, s)"
    using read key by (cases v) (auto simp: authorize_def bindA_def seqA_def)
  moreover have "\<exists>e. challenge env c secret s = (Inl e, s)"
    using read key by (cases v; cases "ca_before c"; cases "ca_under c") (auto simp: challenge_def bindA_def seqA_def on_disk_def guard_def)
  moreover have "\<exists>e. redeem env c secret label origin hex token s = (Inl e, s)"
    using read key by (cases v; cases "label_ok label") (auto simp: redeem_def bindA_def seqA_def)
  moreover have "\<exists>e. configure env c fresh confirm origin s = (Inl e, s)"
    using read make
    by (cases "trusted_capture_origin env origin"; cases confirm; cases "ca_before c"; cases "ca_under c"; cases v)
       (auto simp: configure_def bindA_def seqA_def on_disk_def guard_def)
  ultimately show ?thesis by blast
qed

end
