(* ===== verification/Authority_Example.thy ===== *)
theory Authority_Example
  imports Authority "HOL-Library.Code_Target_Nat"
begin

text \<open>
  An authority that pairs one device and revokes it, at which the properties of the device
  authority are instantiated, an authority whose audit is full, and a host whose key file was
  torn.
\<close>

definition origin_x :: string where "origin_x = ''https://h''"
definition instance_x :: string where "instance_x = ''inst_'' @ replicate 32 (CHR ''0'')"
definition key_x :: bytes where "key_x = replicate 32 (CHR ''k'')"
definition device_x :: string where "device_x = ''dev_'' @ replicate 32 (CHR ''1'')"
definition secret_x :: string where "secret_x = replicate 43 (CHR ''e'')"
definition token_x :: string where "token_x = replicate 43 (CHR ''d'')"

definition audit_x :: "char \<Rightarrow> string \<Rightarrow> string option \<Rightarrow> audit_row" where
  "audit_x i action d = \<lparr>ar_id = ''audit_'' @ replicate 32 i, ar_at = ''t0'', ar_action = action, ar_device = d\<rparr>"

definition row_x :: "string option \<Rightarrow> device_row" where
  "row_x r = \<lparr>dr_label = ''phone'', dr_verifier = replicate 64 (CHR ''d''), dr_issued = ''t0'', dr_revoked = r\<rparr>"

definition open_x :: "string option \<Rightarrow> challenge_row" where
  "open_x used = \<lparr>cr_verifier = replicate 64 (CHR ''e''), cr_expires = ''t2'', cr_used = used\<rparr>"

definition empty_x :: authority where
  "empty_x = \<lparr>at_instance = instance_x, at_origin = origin_x, at_binding = replicate 64 (CHR ''b''), at_devices = [],
     at_challenges = [open_x None], at_audit = [audit_x (CHR ''1'') ''challenge'' None], at_retrieval = None\<rparr>"

definition paired_x :: authority where
  "paired_x = empty_x\<lparr>at_devices := [(device_x, row_x None)], at_challenges := [open_x (Some ''t0'')],
     at_audit := at_audit empty_x @ [audit_x (CHR ''2'') ''paired'' (Some device_x)]\<rparr>"

definition revoked_x :: authority where
  "revoked_x = paired_x\<lparr>at_devices := [(device_x, row_x (Some ''t0''))],
     at_audit := at_audit paired_x @ [audit_x (CHR ''3'') ''revoked'' (Some device_x)]\<rparr>"

definition again_x :: authority where
  "again_x = revoked_x\<lparr>at_challenges := [\<lparr>cr_verifier = replicate 64 (CHR ''f''), cr_expires = ''t2'', cr_used = None\<rparr>],
     at_audit := at_audit revoked_x @ [audit_x (CHR ''4'') ''challenge'' None]\<rparr>"

definition text_x :: "authority \<Rightarrow> bytes" where
  "text_x v = (if v = empty_x then ''E'' else if v = paired_x then ''P'' else if v = revoked_x then ''R''
     else if v = again_x then ''A'' else ''?'')"

definition load_x :: "bytes \<Rightarrow> authority option" where
  "load_x b = (if b = ''E'' then Some empty_x else if b = ''P'' then Some paired_x else if b = ''R'' then Some revoked_x
     else if b = ''A'' then Some again_x else None)"

definition sha_x :: "bytes \<Rightarrow> string" where
  "sha_x b = replicate 64 (if b = ''E'' then CHR ''1'' else if b = ''P'' then CHR ''2'' else if b = ''R'' then CHR ''3''
     else if b = ''A'' then CHR ''4'' else CHR ''b'')"

definition commit_x :: commit_env where
  "commit_x = \<lparr>ce_sha = sha_x, ce_plain = (\<lambda>_. True), ce_manifest_size = (\<lambda>_. 900), ce_now = ''t0'',
     ce_listing = (\<lambda>_. [Marker_file])\<rparr>"

definition env_x :: authority_env where
  "env_x = \<lparr>au_commit = commit_x, au_text = text_x, au_load = load_x, au_instance = instance_x,
     au_stamp = (\<lambda>s. if s = ''t0'' then Some 0 else if s = ''t2'' then Some 120000000 else None),
     au_iso = (\<lambda>n. if n = 120000000 then ''t2'' else ''t0''), au_sha = (\<lambda>_. replicate 64 (CHR ''b'')),
     au_hmac = (\<lambda>_ m. replicate 64 (last m)),
     au_url = (\<lambda>_. Some \<lparr>up_scheme = ''https'', up_host = Some ''h'', up_credentials = False, up_extras = False,
                       up_path = '''', up_port = None\<rparr>),
     au_lower = (\<lambda>s. s), au_source = (\<lambda>_ _. True)\<rparr>"

definition call_x :: "char \<Rightarrow> call" where
  "call_x i = \<lparr>ca_before = None, ca_under = None, ca_now = ''t0'', ca_time = 0, ca_hex = replicate 32 i, ca_audit = replicate 32 i\<rparr>"

definition host_x :: "bytes option \<Rightarrow> bytes option \<Rightarrow> fate list \<Rightarrow> host" where
  "host_x file key fs = \<lparr>ah_disk = \<lparr>d_live = (\<lambda>_. None)(AUTHORITY_PATH := file), d_stages = [], d_fates = fs\<rparr>, ah_key = key\<rparr>"

lemma digits_x: "hexchar i \<Longrightarrow> fresh_name (ca_hex (call_x i))"
  by (simp add: fresh_name_def call_x_def list_all_iff)

lemma apart_x: "tells_apart env_x L"
  if "L AUTHORITY_PATH \<in> {Some ''E'', Some ''P'', Some ''R'', Some ''A''}"
  using that by (auto simp: tells_apart_def env_x_def commit_x_def sha_x_def text_x_def)

lemma rows_x: "length (at_audit empty_x) = 1" "length (at_audit paired_x) = 2" "length (at_audit revoked_x) = 3"
  "length (at_audit again_x) = 4"
  by (simp_all add: empty_x_def paired_x_def revoked_x_def again_x_def)

lemma differ_x: "paired_x \<noteq> empty_x" "revoked_x \<noteq> empty_x" "revoked_x \<noteq> paired_x"
  "again_x \<noteq> empty_x" "again_x \<noteq> paired_x" "again_x \<noteq> revoked_x"
  by (rule notI, drule arg_cong [of _ _ "\<lambda>v. length (at_audit v)"], simp add: rows_x)+

lemma text_cases_x: "text_x v = ''?'' \<or> load_x (text_x v) = Some v"
  using differ_x by (simp add: text_x_def load_x_def)

lemma back_x: "d_live (ah_disk s) AUTHORITY_PATH \<noteq> Some ''?'' \<Longrightarrow> reads_back env_x s"
  by (simp add: reads_back_def env_x_def) (metis text_cases_x)

lemma host_rest_x: "at_rest ((\<lambda>_. None)(AUTHORITY_PATH := file)) (host_x file key fs)"
  "set_host_fates fs (host_x file key fs') = host_x file key fs" "d_stages (ah_disk (host_x file key fs)) = []"
  "d_live (ah_disk (host_x file key fs)) AUTHORITY_PATH = file" "ah_key (host_x file key fs) = key"
  by (simp_all add: at_rest_def host_x_def set_host_fates_def)

lemma stored_x:
  "stored env_x ((\<lambda>_. None)(AUTHORITY_PATH := Some ''E'')) = Inr (Some empty_x)"
  "stored env_x ((\<lambda>_. None)(AUTHORITY_PATH := Some ''R'')) = Inr (Some revoked_x)"
  by code_simp+

lemma key_length_x: "length key_x = 32"
  by (simp add: key_x_def)

section \<open>Runs\<close>

text \<open>What a challenge and a redemption come to when their checks pass.\<close>

lemma challenge_goes:
  assumes "at_rest L s" and "stored env L = Inr (Some a)" and "ah_key s = Some key" and "length key = 32"
    and "at_binding a = binding env key" and "ca_before c = None" and "ca_under c = None"
    and "challenged env c key secret a = Inr w"
  shows "challenge env c secret s = seqA (write_authority env (ca_hex c) w) (ret secret) s"
  using assms read_at_rest [OF assms(1), of env]
  by (simp add: challenge_def seqA_def bindA_def on_disk_def guard_def read_key_def bound_to_def)

lemma redeem_goes:
  assumes "at_rest L s" and "stored env L = Inr (Some a)" and "ah_key s = Some key" and "length key = 32"
    and "at_binding a = binding env key" and "label_ok label"
    and "redeemed env c key secret label (at_origin a) (''dev_'' @ hex) token a = Inr w"
  shows "redeem env c secret label (at_origin a) hex token s = seqA (write_authority env (ca_hex c) w) (ret (''dev_'' @ hex, token)) s"
  using assms(2-6) assms(7) [simplified] read_at_rest [OF assms(1), of env]
  by (simp add: redeem_def seqA_def bindA_def read_key_def bound_to_def)

lemma planned_x:
  "challenged env_x (call_x (CHR ''4'')) key_x (replicate 43 (CHR ''f'')) revoked_x = Inr again_x"
  "redeemed env_x (call_x (CHR ''2'')) key_x secret_x ''phone'' origin_x device_x token_x empty_x = Inr paired_x"
  "at_binding revoked_x = binding env_x key_x" "at_binding empty_x = binding env_x key_x" "at_origin empty_x = origin_x"
  "label_ok ''phone''"
  by code_simp+

text \<open>A write that stops while it publishes and is taken back, and one whose clean-up fails.\<close>

lemma stopped_x:
  "case write_authority env_x (replicate 32 (CHR ''4'')) again_x (host_x (Some ''R'') (Some key_x) (replicate 5 Goes @ [Stops])) of
     (Inr x, t) \<Rightarrow> False
   | (Inl e, t) \<Rightarrow> e = Commit_failed Crash \<and> d_live (ah_disk t) AUTHORITY_PATH = Some ''A''
      \<and> (case on_disk (recover_authority env_x) (set_host_fates [] t) of (r, u) \<Rightarrow>
            d_live (ah_disk u) AUTHORITY_PATH = Some ''R'' \<and> d_stages (ah_disk u) = [])"
  by code_simp

lemma kept_x:
  "case write_authority env_x (replicate 32 (CHR ''2'')) paired_x (host_x (Some ''E'') (Some key_x) (replicate 6 Goes @ [Fails])) of
     (Inl e, t) \<Rightarrow> False
   | (Inr x, t) \<Rightarrow> d_stages (ah_disk t) \<noteq> []
      \<and> (case on_disk (recover_authority env_x) (set_host_fates [] t) of (r, u) \<Rightarrow>
            d_live (ah_disk u) AUTHORITY_PATH = Some ''P'' \<and> d_stages (ah_disk u) = [])"
  by code_simp

section \<open>Instances\<close>

lemma revocation_is_final_witness:
  "\<exists>u. authority_history env_x (host_x (Some ''R'') (Some key_x) []) u
     \<and> (\<exists>e. authorize env_x device_x token_x origin_x u = (Inl e, u))"
proof -
  let ?h = "host_x (Some ''R'') (Some key_x)" and ?c = "call_x (CHR ''4'')" and ?f = "replicate 43 (CHR ''f'')"
  let ?fs = "replicate 5 Goes @ [Stops]"
  have go: "challenge env_x ?c ?f (?h ?fs) = seqA (write_authority env_x (ca_hex ?c) again_x) (ret ?f) (?h ?fs)"
    by (rule challenge_goes [OF host_rest_x(1) stored_x(2) host_rest_x(5) key_length_x planned_x(3) _ _ planned_x(1)])
      (simp_all add: call_x_def)
  obtain t where w: "write_authority env_x (ca_hex ?c) again_x (?h ?fs) = (Inl (Commit_failed Crash), t)"
    and u: "case on_disk (recover_authority env_x) (set_host_fates [] t) of (r, u) \<Rightarrow>
            d_live (ah_disk u) AUTHORITY_PATH = Some ''R'' \<and> d_stages (ah_disk u) = []"
    using stopped_x by (auto simp: call_x_def split: prod.splits sum.splits)
  obtain r u where rec: "on_disk (recover_authority env_x) (set_host_fates [] t) = (r, u)"
    and live: "d_live (ah_disk u) AUTHORITY_PATH = Some ''R''" and quiet: "d_stages (ah_disk u) = []"
    using u by (auto split: prod.splits)
  have call: "authority_call env_x ?c (set_host_fates ?fs (?h [])) t"
    using authority_call.challenges [of env_x ?c "?h ?fs" ?f] go w by (simp add: host_rest_x(2) seqA_def bindA_def)
  have recs: "authority_recoveries env_x t u"
    by (rule recovered.again [where recover = "\<lambda>_ :: unit. on_disk (recover_authority env_x)" and refate = set_host_fates,
        OF recovered.none_yet]) (rule rec)
  have apart: "tells_apart env_x (d_live (ah_disk (?h [])))" by (rule apart_x) (simp add: host_rest_x)
  have reads: "reads_back env_x u" by (rule back_x) (simp add: live)
  have hist: "authority_history env_x (?h []) u"
    by (rule authority_history.calls [OF authority_history.begins digits_x apart call recs quiet reads]) (simp add: hexchar_def)
  have start: "read_authority env_x (?h []) = (Inr (Some revoked_x), ?h [])"
    using read_at_rest [OF host_rest_x(1)] stored_x(2) by simp
  have "map_of (at_devices revoked_x) device_x = Some (row_x (Some ''t0''))" "dr_revoked (row_x (Some ''t0'')) \<noteq> None"
    by (simp_all add: revoked_x_def row_x_def)
  with revocation_is_final [OF hist host_rest_x(3) start] hist show ?thesis by blast
qed

lemma pairing_works_once_witness:
  "\<exists>t u. redeem env_x (call_x (CHR ''2'')) secret_x ''phone'' origin_x (replicate 32 (CHR ''1'')) token_x
      (host_x (Some ''E'') (Some key_x) (replicate 6 Goes @ [Fails])) = (Inr (device_x, token_x), t)
    \<and> d_stages (ah_disk t) \<noteq> [] \<and> authority_recoveries env_x t u \<and> authorize env_x device_x token_x origin_x u = (Inr (), u)"
proof -
  let ?s = "host_x (Some ''E'') (Some key_x) (replicate 6 Goes @ [Fails])" and ?c = "call_x (CHR ''2'')"
  obtain t where w: "write_authority env_x (ca_hex ?c) paired_x ?s = (Inr (), t)" and left: "d_stages (ah_disk t) \<noteq> []"
    and u: "case on_disk (recover_authority env_x) (set_host_fates [] t) of (r, u) \<Rightarrow>
            d_live (ah_disk u) AUTHORITY_PATH = Some ''P'' \<and> d_stages (ah_disk u) = []"
    using kept_x by (auto simp: call_x_def split: prod.splits sum.splits)
  obtain r u where rec: "on_disk (recover_authority env_x) (set_host_fates [] t) = (r, u)"
    and live: "d_live (ah_disk u) AUTHORITY_PATH = Some ''P''" and quiet: "d_stages (ah_disk u) = []"
    using u by (auto split: prod.splits)
  have "redeem env_x ?c secret_x ''phone'' (at_origin empty_x) (replicate 32 (CHR ''1'')) token_x ?s
      = seqA (write_authority env_x (ca_hex ?c) paired_x) (ret (''dev_'' @ replicate 32 (CHR ''1''), token_x)) ?s"
    by (rule redeem_goes [OF host_rest_x(1) stored_x(1) host_rest_x(5) key_length_x planned_x(4,6)])
      (use planned_x(2) in \<open>simp add: planned_x(5) device_x_def\<close>)
  then have run: "redeem env_x ?c secret_x ''phone'' origin_x (replicate 32 (CHR ''1'')) token_x ?s = (Inr (device_x, token_x), t)"
    using w by (simp add: planned_x(5) seqA_def bindA_def ret_def device_x_def)
  have recs: "authority_recoveries env_x t u"
    by (rule recovered.again [where recover = "\<lambda>_ :: unit. on_disk (recover_authority env_x)" and refate = set_host_fates,
        OF recovered.none_yet]) (rule rec)
  have apart: "tells_apart env_x (d_live (ah_disk ?s))" by (rule apart_x) (simp add: host_rest_x)
  have reads: "reads_back env_x u" by (rule back_x) (simp add: live)
  have name: "fresh_name (ca_hex ?c)" by (rule digits_x) (simp add: hexchar_def)
  from pairing_works_once [OF run host_rest_x(3) name apart recs quiet reads] run left recs show ?thesis by blast
qed

section \<open>A full audit\<close>

definition full_row :: "nat \<Rightarrow> audit_row" where
  "full_row n = \<lparr>ar_id = ''audit_'' @ map (\<lambda>i. if bit n i then CHR ''1'' else CHR ''0'') [0..<32], ar_at = ''t0'',
     ar_action = ''challenge'', ar_device = None\<rparr>"

definition full_x :: "nat \<Rightarrow> authority" where
  "full_x n = paired_x\<lparr>at_audit := map full_row [0..<n]\<rparr>"

definition env_full :: "nat \<Rightarrow> authority_env" where
  "env_full n = env_x\<lparr>au_load := (\<lambda>_. Some (full_x n))\<rparr>"

lemma full_row_id: "ar_id (full_row m) = ar_id (full_row n) \<Longrightarrow> m < 2 ^ 32 \<Longrightarrow> n < 2 ^ 32 \<Longrightarrow> m = n"
proof -
  assume ids: "ar_id (full_row m) = ar_id (full_row n)" and small: "m < 2 ^ 32" "n < 2 ^ 32"
  have "take_bit 32 m = take_bit 32 n"
    using ids by (auto simp: bit_eq_iff bit_take_bit_iff full_row_def split: if_splits)
  then show "m = n" using small by (simp add: take_bit_nat_eq_self)
qed

lemma full_ids: "n \<le> 2 ^ 32 \<Longrightarrow> distinct (map ar_id (at_audit (full_x n)))"
  using full_row_id by (auto simp: full_x_def distinct_map inj_on_def)

lemma bit_chars: "list_all hexchar (map (\<lambda>i. if P i then CHR ''1'' else CHR ''0'') xs)"
  by (induction xs) (simp_all add: hexchar_def)

lemma full_row_prefix: "prefixed_hex ''audit_'' 32 (ar_id (full_row n))"
  unfolding full_row_def audit_row.simps prefixed_hex_append
  by (simp only: bit_chars length_map length_upt) simp

lemma full_rows: "list_all (audit_ok (env_full n) (full_x n)) (at_audit (full_x n))"
proof -
  have "audit_ok (env_full n) (full_x n) (full_row i)" for i
    using full_row_prefix [of i]
    by (simp add: audit_ok_def) (simp add: full_row_def env_full_def env_x_def stamp_ok_def AUDIT_ACTIONS_def)
  then show ?thesis by (auto simp: full_x_def list_all_iff)
qed

lemma paired_ok: "authority_ok env_x paired_x"
  by code_simp

lemma full_ok: "n \<le> MAX_AUDIT \<Longrightarrow> authority_ok (env_full n) (full_x n)"
proof -
  assume n: "n \<le> MAX_AUDIT"
  have same: "trusted_capture_origin (env_full n) = trusted_capture_origin env_x" "device_row_ok (env_full n) = device_row_ok env_x"
    "challenge_ok (env_full n) = challenge_ok env_x" "au_instance (env_full n) = au_instance env_x"
    by (simp_all add: fun_eq_iff trusted_capture_origin_def device_row_ok_def challenge_ok_def stamp_ok_def env_full_def
        origin_parts_ok_def)
  have "distinct (map ar_id (at_audit (full_x n)))" using n by (intro full_ids) (simp add: MAX_AUDIT_def)
  with n full_rows [of n] paired_ok same show ?thesis
    by (simp add: authority_ok_def full_x_def paired_x_def empty_x_def)
qed

lemma full_audit_blocks_revocation_witness:
  "\<exists>s. (\<exists>e. revoke (env_full MAX_AUDIT) (call_x (CHR ''5'')) device_x s = (Inl e, s))
    \<and> authorize (env_full MAX_AUDIT) device_x token_x origin_x s = (Inr (), s)"
proof -
  let ?s = "host_x (Some ''F'') (Some key_x) []" and ?env = "env_full MAX_AUDIT" and ?a = "full_x MAX_AUDIT"
  have loads: "au_load ?env ''F'' = Some ?a" by (simp add: env_full_def)
  have "stored ?env ((\<lambda>_. None)(AUTHORITY_PATH := Some ''F'')) = Inr (Some ?a)"
    using full_ok [of MAX_AUDIT] loads by (simp add: stored_def validate_authority_def MAX_AUTHORITY_BYTES_def)
  then have read: "read_authority ?env ?s = (Inr (Some ?a), ?s)" using read_at_rest [OF host_rest_x(1)] by simp
  have rows: "MAX_AUDIT \<le> length (at_audit ?a)" "map_of (at_devices ?a) device_x = Some (row_x None)" "dr_revoked (row_x None) = None"
    by (simp_all add: full_x_def paired_x_def row_x_def)
  have key: "read_key ?s = (Inr (Some key_x), ?s)" using key_length_x by (simp add: read_key_def bindA_def seqA_def host_rest_x)
  have "verifier ?env key_x token_x ''credential'' origin_x = Inr (dr_verifier (row_x None))"
    by (simp add: verifier_def env_full_def env_x_def token_ok_def token_x_def row_x_def list_all_iff)
  moreover have "bound_to ?env (Some ?a) (Some key_x)" "at_origin ?a = origin_x"
    by (simp_all add: bound_to_def full_x_def paired_x_def empty_x_def binding_def env_full_def env_x_def)
  ultimately have "authorize ?env device_x token_x origin_x ?s = (Inr (), ?s)"
    using read key rows by (simp add: authorize_def bindA_def seqA_def credential_ok_def)
  with full_audit_blocks_revocation [OF host_rest_x(3) read rows] show ?thesis by blast
qed

section \<open>A torn key\<close>

lemma torn_key_blocks_witness:
  "\<exists>t. configure env_x (call_x (CHR ''6'')) key_x True origin_x (host_x None None [Goes, Stops]) = (Inl (Commit_failed Crash), t)
    \<and> (\<exists>e. configure env_x (call_x (CHR ''7'')) key_x True origin_x t = (Inl e, t))"
proof -
  have origin: "trusted_capture_origin env_x origin_x = Inr origin_x" by code_simp
  have "stored env_x ((\<lambda>_. None)(AUTHORITY_PATH := None)) = Inr None" by (simp add: stored_def)
  then have read: "read_authority env_x (host_x None None fs) = (Inr None, host_x None None fs)" for fs
    using read_at_rest [OF host_rest_x(1)] by simp
  have run: "configure env_x (call_x (CHR ''6'')) key_x True origin_x (host_x None None [Goes, Stops])
      = (Inl (Commit_failed Crash), host_x None (Some []) [])"
    using origin read
    by (simp add: configure_def seqA_def bindA_def on_disk_def guard_def call_x_def create_key_def key_write_def host_rest_x)
      (simp add: host_x_def set_host_fates_def)
  have "ah_key (host_x None (Some []) []) = Some []" "length ([] :: bytes) \<noteq> 32" by (simp_all add: host_rest_x)
  from torn_key_blocks [OF this] run show ?thesis by blast
qed

end
