(* ===== verification/Spec2Isabelle.thy ===== *)
theory Spec2Isabelle
  imports Scheduler_Preview Scheduler_Audit Atomic_Example Hierarchy_Example Retention_Example Capture_Example
    Authority_Example
begin

text \<open>
  Provelume keeps a personal library of documents in one directory, an Instance: canonical JSON
  records and original files, with derived views beside them. This development models the parts
  of it that decide what happens to the records of an Instance (all paths below
  src/core/provelume): the scheduler of background jobs, the atomic commit of several files, the
  hierarchy of areas, projects and folders with the classifications of documents, the
  dispositions of documents up to their purge, the journal of captured submissions, and the
  authority of the devices that submit them.

  How the parts interact. Every durable change of the scheduler is a transaction of its store,
  under one writer lock; the coordinator runs executors, which act on jobs through these
  transactions only. A feature that has to change several files together (the capture journal,
  the device authority, reviews, web, email and transcript intake) hands them to the atomic commit, and opening an
  Instance recovers interrupted commits, interrupted purges and expired leases before anything
  else runs. Hierarchy, retention and capture run one call at a time under the lifecycle lock of
  the Instance, which is why a call is one step of their state here.

  Common ground.
  Provelume_Prelude holds JSON values, actions (functions from a state to a result or an error
  and a state), ladders of raises in source order, the identifier patterns, and two contracts:
  record_directory (a directory of one file per record, keyed by its identity) and step_contract
  (a relation between states that every action of a part respects).
  Fault_Logic is for code whose writes may fail or never happen: the disk carries the fates of
  the writes to come (goes, fails, stops), a stopped process is an error that no handler
  catches, and a triple states what holds on return, on an error and at a stop. Its contracts
  are fated_disk (one write happens as a whole or not at all) and journaled_change (an
  interrupted change is undecided or decided, and a recovery that returns settles it); the
  latter is interpreted by the atomic commit, the purge, the capture journal and the authority.

  Scheduler (scheduler.py, scheduler_model.py, scheduler_control.py, processing_jobs.py).
  Scheduler_Types has the vocabularies and the records of policies, jobs and receipts,
  Scheduler_Clock the schedules (validation, daylight saving, next occurrence, jitter, quiet
  window, backoff), Scheduler_Records the validators, each as its ladder of raises.
  Scheduler_Journal is SchedulerStore: three directories of records and the transactions of a
  leased job. Scheduler_Recovery adds recovery, missed-run evaluation and claiming,
  Scheduler_Control the requests to pause, resume, cancel and restart, Scheduler_Coordinator the
  run of one claimed job and the worker cycle, Scheduler_Audit the findings on stored state.
  Scheduler_Contract proves, for every transaction at once, that a relation respected by the few
  primitive changes (writing an advanced job, writing a policy, finishing a job) is respected by
  the transaction; its two interpretations give the safety of the records and the agreement of
  jobs with receipts. Scheduler_System is the transition system of all transactions, errors and
  crashes, with the invariants of its histories by rule induction; Scheduler_Lifecycle,
  Scheduler_Leases, Scheduler_Settled, Scheduler_Requests and Scheduler_Preview state what a
  worker, a claim, a recovery and a client can rely on. Scheduler_Example is the store at which
  the properties are instantiated.

  Atomic commit (atomic_commit.py, paths.py). Atomic_Commit has the profiles, the locators, a
  transaction and its operations, the preparation of the journal, the publication, the rollback
  and the commit; Atomic_Recovery the validation of a journal and the recovery. Atomic_Plan and
  Atomic_Locators show that a well-formed transaction prepares a plan from the old to the new
  files; Atomic_Crash, Atomic_Safety and Atomic_Rollback carry the commit through its states
  (undecided until the committed manifest is written, decided afterwards) with a failure or a
  stop at any write; Atomic_Opening adds any number of recoveries with failures of their own;
  Atomic_Liveness says when an opening succeeds. Atomic_Example stops a commit at two places.

  Hierarchy (hierarchy_model.py, hierarchy.py). Hierarchy_Model has the records, the slugs and
  the validator of a stored state, Hierarchy the operations of HierarchyManager. Hierarchy_Forest
  shows that the walks over parents compute reachability in a forest of bounded depth,
  Hierarchy_Valid splits validity into the parts that the operations touch, and
  Hierarchy_Changes, Hierarchy_Moves and Hierarchy_Classes prove the operations against it.
  Hierarchy_System states the properties, Hierarchy_Slugs is the round trip of identities,
  Hierarchy_Example a small tree.

  Retention (retention.py, retention_model.py, and of operations.py and storage.py what they
  use). Retention_Model has the dispositions, the files of an Instance and the readers,
  Retention_Store the writes, the operation records, the staging of a purge and its recovery,
  Retention_Purge the six transitions, the lineage and inventory of a document, the preview and
  the purge. Retention_Safety, Retention_Atomic and Retention_Outcome carry a purge through its
  states; Retention_Dispositions and Retention_Records say what a transition writes and undoes;
  Retention states the properties and Retention_Example instantiates them.

  Capture (capture_requests.py, capture_journal.py). Capture_Requests has the metadata of a
  submission, its key and its fingerprint, Capture_Journal the inventory, the lookups, the
  submission and its recovery. Capture_Inventory shows that the scan with running counts accepts
  exactly the journals within the bounds, Capture_Safety splits a submission into its outcomes,
  Capture_Commit makes the commit of the one file a journaled change, and Capture states the
  properties; Capture_Example instantiates them.

  Device authority (capture_authority.py). Authority_Model has the records of the authority file
  and their validation, the host key, and the calls of CaptureAuthority: configuration, pairing,
  authorisation, revocation, retrieval grants and the recovery. Authority_Commit makes the
  replacement of the file a journaled change of the host. Authority shows that a call leaves the
  file or ends in a write that advances it (no row of the audit and no device is lost, no
  revocation taken back), follows histories of calls and recoveries, and states the properties;
  Authority_Example pairs and revokes a device, fills an audit and tears a key file.

  Bounds and termination. The loops of the source are structural recursions over lists, except:
  the search of the next calendar occurrence visits the 371 days that the source visits; the
  loops of the hierarchy over ancestors and descendants are partial functions, where None means
  that the loop does not end, which is excluded on every reachable hierarchy; the nested listing
  gets 65 nested calls, one more than the depth of 64 that the hierarchy allows; and the worker
  cycle takes at most the 100 turns that the source allows. Numbers are unbounded integers as in
  Python; where the source bounds the UTF-8 length of a text, texts are lists of bytes.

  Parameters and what is assumed of them. Digests are functions; two different contents of one
  file are assumed to have different digests where a rollback compares them. JSON texts are
  functions of the values, with a parser that reads the text of a written record back. The time
  zone database, the order of a directory listing, the clock, fresh identifiers, the executors
  and the guards of callers are arguments. A write is durable when it returns, and one write
  happens as a whole or not at all; links, file identity checks during a read and flushes are not
  modelled. Each property that assumes something has a witness at a concrete state.

  Not modelled. AI records and jobs (schema 3 of the scheduler, ai_*.py), which depend on native
  runtimes; the executors of job kinds (OCR, email, Google, transcripts, photo, video, audio),
  which parse foreign formats with external tools; connectors, OAuth and web transport; ingest,
  inbox and folder sources, which walk user directories; indexes, library projections and other
  rebuilt views; the lifecycle lock, schema migration, backup and the validator of a whole
  Instance, which appear as the atomicity of a call or as a parameter; the reviews, knowledge
  objects and annotations; the transport and acquisition of captures; the service
  facade, web, desktop and command line. Of the modelled files, the nested presentation tree() of
  the hierarchy, the heartbeat thread of the coordinator and the AI parts of recovery and audit
  are left out.
\<close>

end
